(* ===== verification/Prelude.thy ===== *)
theory Prelude
  imports Main
begin

text \<open>
  Shared vocabulary of the development.

  A Go function that returns only an \<open>error\<close> is modelled as a check of type
  \<open>'e option\<close>: \<^const>\<open>None\<close> is Go's \<open>nil\<close>, \<open>Some e\<close> the error that is returned.
  A Go function that returns a value and an error is modelled in the sum type
  \<open>'e + 'a\<close> with the error on the left.  This theory holds the combinators that
  sequence such checks (an early \<open>return err\<close> is \<open>first_err\<close>, a loop of checks is
  \<open>check_each\<close>), the duplicate scan that several validators share, and the generic
  invariant contract \<open>machine\<close> for components driven by a sequence of events.
\<close>

named_theorems check_simps \<open>characterisations of successful checks\<close>
named_theorems step_inv \<open>one-step preservation lemmas\<close>

subsection \<open>Sequencing checks\<close>

definition first_err :: "'e option \<Rightarrow> 'e option \<Rightarrow> 'e option" where
  "first_err a b = (case a of Some e \<Rightarrow> Some e | None \<Rightarrow> b)"

definition guard_err :: "bool \<Rightarrow> 'e \<Rightarrow> 'e option" where
  "guard_err bad e = (if bad then Some e else None)"

lemma first_err_None [check_simps]: "first_err a b = None \<longleftrightarrow> a = None \<and> b = None"
  by (auto simp: first_err_def split: option.splits)

lemma first_err_simps [simp]: "first_err None b = b" "first_err (Some e) b = Some e"
  by (simp_all add: first_err_def)

lemma guard_err_None [check_simps]: "guard_err bad e = None \<longleftrightarrow> \<not> bad"
  by (simp add: guard_err_def)

lemma guard_err_simps [simp]: "guard_err True e = Some e" "guard_err False e = None"
  by (simp_all add: guard_err_def)

text \<open>The checks of a Go loop \<open>for i, x := range xs\<close> that returns at its first error.\<close>

fun check_each :: "(nat \<Rightarrow> 'a \<Rightarrow> 'e option) \<Rightarrow> nat \<Rightarrow> 'a list \<Rightarrow> 'e option" where
  "check_each f i [] = None"
| "check_each f i (x # xs) = first_err (f i x) (check_each f (Suc i) xs)"

lemma check_each_None:
  "check_each f i xs = None \<longleftrightarrow> (\<forall>k < length xs. f (i + k) (xs ! k) = None)"
proof (induction xs arbitrary: i)
  case Nil
  then show ?case by simp
next
  case (Cons x xs)
  have "(\<forall>k < length (x # xs). f (i + k) ((x # xs) ! k) = None) \<longleftrightarrow>
      f i x = None \<and> (\<forall>k < length xs. f (Suc i + k) (xs ! k) = None)"
    by (auto simp: less_Suc_eq_0_disj)
  with Cons show ?case by (simp add: first_err_None)
qed

lemma check_each_const_None [check_simps]:
  "check_each (\<lambda>_. f) i xs = None \<longleftrightarrow> (\<forall>x \<in> set xs. f x = None)"
  by (auto simp: check_each_None all_set_conv_all_nth)

lemma check_each_NoneD:
  "check_each f i xs = None \<Longrightarrow> x \<in> set xs \<Longrightarrow> \<exists>k. f k x = None"
  by (auto simp: check_each_None in_set_conv_nth)

text \<open>
  The scan with a \<open>seen\<close> set: every element is checked against the keys before it.
  \<open>f i x\<close> runs before the duplicate test and \<open>g i x\<close> after it.
\<close>

fun check_unique ::
  "(nat \<Rightarrow> 'a \<Rightarrow> 'e option) \<Rightarrow> ('a \<Rightarrow> 'k) \<Rightarrow> ('a \<Rightarrow> 'e) \<Rightarrow> (nat \<Rightarrow> 'a \<Rightarrow> 'e option) \<Rightarrow>
    nat \<Rightarrow> 'k set \<Rightarrow> 'a list \<Rightarrow> 'e option" where
  "check_unique f key dup g i seen [] = None"
| "check_unique f key dup g i seen (x # xs) =
     first_err (f i x)
      (first_err (guard_err (key x \<in> seen) (dup x))
        (first_err (g i x) (check_unique f key dup g (Suc i) (insert (key x) seen) xs)))"

lemma check_unique_None:
  "check_unique f key dup g i seen xs = None \<longleftrightarrow>
     (\<forall>k < length xs. f (i + k) (xs ! k) = None \<and> g (i + k) (xs ! k) = None) \<and>
     distinct (map key xs) \<and> key ` set xs \<inter> seen = {}"
proof (induction xs arbitrary: i seen)
  case Nil
  then show ?case by simp
next
  case (Cons x xs)
  have split: "(\<forall>k < length (x # xs). f (i + k) ((x # xs) ! k) = None \<and> g (i + k) ((x # xs) ! k) = None)
      \<longleftrightarrow> (f i x = None \<and> g i x = None) \<and>
        (\<forall>k < length xs. f (Suc i + k) (xs ! k) = None \<and> g (Suc i + k) (xs ! k) = None)"
    by (auto simp: less_Suc_eq_0_disj)
  show ?case
    unfolding split by (auto simp: first_err_None guard_err_None Cons.IH)
qed

lemma check_unique_None_set:
  assumes "\<And>i x. f i x = None \<longleftrightarrow> F x" and "\<And>i x. g i x = None \<longleftrightarrow> G x"
  shows "check_unique f key dup g i {} xs = None \<longleftrightarrow> (\<forall>x \<in> set xs. F x \<and> G x) \<and> distinct (map key xs)"
  by (auto simp: check_unique_None assms all_set_conv_all_nth)

lemma check_unique_distinct:
  "check_unique f key dup g i seen xs = None \<Longrightarrow> distinct (map key xs)"
  by (simp add: check_unique_None)

lemma check_unique_each:
  assumes "check_unique f key dup g i seen xs = None" and "x \<in> set xs"
  shows "\<exists>k. f k x = None \<and> g k x = None"
  using assms by (auto simp: check_unique_None in_set_conv_nth)

lemma find_SomeD: "find P xs = Some x \<Longrightarrow> x \<in> set xs \<and> P x"
  by (auto simp: find_Some_iff)

lemma find_NoneD: "find P xs = None \<Longrightarrow> x \<in> set xs \<Longrightarrow> \<not> P x"
  by (auto simp: find_None_iff)

text \<open>Taking one element out of a pool.\<close>

definition remove_at :: "nat \<Rightarrow> 'a list \<Rightarrow> 'a list" where
  "remove_at i xs = take i xs @ drop (Suc i) xs"

lemma set_remove_at: "set (remove_at i xs) \<subseteq> set xs"
  by (auto simp: remove_at_def dest: in_set_takeD in_set_dropD)

lemma remove_at_split: "i < length xs \<Longrightarrow> xs = take i xs @ xs ! i # drop (Suc i) xs"
  by (rule id_take_nth_drop)

lemma remove_at_obtain:
  assumes "i < length xs"
  obtains ys zs where "xs = ys @ xs ! i # zs" and "remove_at i xs = ys @ zs"
  using remove_at_split [OF assms] unfolding remove_at_def by blast

subsection \<open>Errors as values\<close>

definition bind_res :: "'e + 'a \<Rightarrow> ('a \<Rightarrow> 'e + 'b) \<Rightarrow> 'e + 'b" where
  "bind_res r f = (case r of Inl e \<Rightarrow> Inl e | Inr a \<Rightarrow> f a)"

lemma bind_res_simps [simp]: "bind_res (Inl e) f = Inl e" "bind_res (Inr a) f = f a"
  by (simp_all add: bind_res_def)

lemma bind_res_Inr: "bind_res r f = Inr b \<longleftrightarrow> (\<exists>a. r = Inr a \<and> f a = Inr b)"
  by (cases r) auto

lemma bind_res_InrE:
  assumes "bind_res r f = Inr b" obtains a where "r = Inr a" "f a = Inr b"
  using assms by (auto simp: bind_res_Inr)

subsection \<open>Components driven by events\<close>

text \<open>
  The contract between a component that keeps an invariant and whoever feeds it
  events: if the start state is good and every operation keeps a good state good,
  then so does every sequence of operations.
\<close>

locale machine =
  fixes step :: "'s \<Rightarrow> 'ev \<Rightarrow> 's" and good :: "'s \<Rightarrow> bool"
  assumes step_good: "good s \<Longrightarrow> good (step s ev)"
begin

lemma run_good: "good s \<Longrightarrow> good (foldl step s evs)"
  by (induction evs arbitrary: s) (auto intro: step_good)

lemma all_prefixes_good: "good s \<Longrightarrow> good (foldl step s (take n evs))"
  by (rule run_good)

end

end
