(* ===== verification/GoStrings.thy ===== *)
theory GoStrings
  imports Prelude "HOL-Library.Char_ord" "HOL-Library.List_Lexorder"
begin

text \<open>
  Go strings and the parts of \<open>strings\<close>, \<open>unicode\<close> and \<open>unicode/utf8\<close> the program uses.

  A Go string is a sequence of bytes; here it is a \<^typ>\<open>string\<close> whose characters are the
  bytes, so \<^const>\<open>length\<close> is Go's \<open>len\<close> and the lexicographic order of the library is
  the order of \<open>sort.Strings\<close>.  \<open>for _, r := range s\<close>, \<open>[]rune(s)\<close> and
  \<open>utf8.RuneCountInString\<close> decode UTF-8; \<open>decode_rune\<close> is \<open>utf8.DecodeRuneInString\<close>
  with its table of accepted ranges, and \<open>chunks\<close> cuts a string into the runes that a
  range loop visits together with the bytes each of them covers.

  The character tables of Go's \<open>unicode\<close> package beyond ASCII are data, collected in the
  record \<open>unicode\<close>; every function that classifies or maps a rune takes it as an
  argument and decides the ASCII range by itself.
\<close>

subsection \<open>Bytes and runes\<close>

definition byte :: "char \<Rightarrow> int" where
  "byte c = of_char c"

definition ascii :: "string \<Rightarrow> bool" where
  "ascii s \<longleftrightarrow> (\<forall>c \<in> set s. byte c < 128)"

definition rune_error :: int where
  "rune_error = 65533"

definition cont_byte :: "int \<Rightarrow> bool" where
  "cont_byte b \<longleftrightarrow> 128 \<le> b \<and> b \<le> 191"

text \<open>The range the second byte of a sequence must lie in, by its first byte.\<close>

definition second_ok :: "int \<Rightarrow> int \<Rightarrow> bool" where
  "second_ok b0 b1 \<longleftrightarrow>
     (if b0 = 224 then 160 \<le> b1 \<and> b1 \<le> 191
      else if b0 = 237 then 128 \<le> b1 \<and> b1 \<le> 159
      else if b0 = 240 then 144 \<le> b1 \<and> b1 \<le> 191
      else if b0 = 244 then 128 \<le> b1 \<and> b1 \<le> 143
      else cont_byte b1)"

fun decode_rune :: "string \<Rightarrow> int \<times> nat" where
  "decode_rune [] = (rune_error, 0)"
| "decode_rune (c # cs) =
     (let b0 = byte c in
      if b0 < 128 then (b0, 1)
      else if 194 \<le> b0 \<and> b0 \<le> 223 then
        (case cs of
           c1 # _ \<Rightarrow> (if cont_byte (byte c1) then (b0 mod 32 * 64 + byte c1 mod 64, 2)
                       else (rune_error, 1))
         | [] \<Rightarrow> (rune_error, 1))
      else if 224 \<le> b0 \<and> b0 \<le> 239 then
        (case cs of
           c1 # c2 # _ \<Rightarrow>
             (if second_ok b0 (byte c1) \<and> cont_byte (byte c2)
              then (b0 mod 16 * 4096 + byte c1 mod 64 * 64 + byte c2 mod 64, 3)
              else (rune_error, 1))
         | _ \<Rightarrow> (rune_error, 1))
      else if 240 \<le> b0 \<and> b0 \<le> 244 then
        (case cs of
           c1 # c2 # c3 # _ \<Rightarrow>
             (if second_ok b0 (byte c1) \<and> cont_byte (byte c2) \<and> cont_byte (byte c3)
              then (b0 mod 8 * 262144 + byte c1 mod 64 * 4096 + byte c2 mod 64 * 64
                      + byte c3 mod 64, 4)
              else (rune_error, 1))
         | _ \<Rightarrow> (rune_error, 1))
      else (rune_error, 1))"

lemma decode_rune_width:
  "s \<noteq> [] \<Longrightarrow> 1 \<le> snd (decode_rune s) \<and> snd (decode_rune s) \<le> length s"
  by (cases s) (auto simp: Let_def split: list.splits)

declare decode_rune.simps [simp del]

lemma decode_rune_ascii: "byte c < 128 \<Longrightarrow> decode_rune (c # cs) = (byte c, 1)"
  by (simp add: decode_rune.simps)

function chunks :: "string \<Rightarrow> (int \<times> string) list" where
  "chunks [] = []"
| "chunks (c # cs) =
     (let (r, n) = decode_rune (c # cs) in (r, take n (c # cs)) # chunks (drop n (c # cs)))"
  by pat_completeness auto
termination
proof (relation "measure length")
  show "wf (measure (length :: string \<Rightarrow> nat))" by simp
next
  fix c cs x and r :: int and n :: nat
  assume "x = decode_rune (c # cs)" and "(r, n) = x"
  then have "n = snd (decode_rune (c # cs))" by (metis snd_conv)
  then have "1 \<le> n" using decode_rune_width [of "c # cs"] by simp
  then show "(drop n (c # cs), c # cs) \<in> measure length" by simp
qed

declare chunks.simps(2) [simp del]

definition runes :: "string \<Rightarrow> int list" where
  "runes s = map fst (chunks s)"

definition rune_count :: "string \<Rightarrow> nat" where
  "rune_count s = length (runes s)"

lemma chunks_ascii_Cons: "byte c < 128 \<Longrightarrow> chunks (c # cs) = (byte c, [c]) # chunks cs"
  by (simp add: chunks.simps decode_rune_ascii)

lemma concat_chunks: "concat (map snd (chunks s)) = s"
proof (induction s rule: chunks.induct)
  case 1
  then show ?case by simp
next
  case (2 c cs)
  obtain r n where rn: "decode_rune (c # cs) = (r, n)" by fastforce
  with "2.IH" have "concat (map snd (chunks (drop n (c # cs)))) = drop n (c # cs)" by simp
  then show ?case by (simp only: chunks.simps rn) simp
qed

lemma chunks_ascii: "ascii s \<Longrightarrow> chunks s = map (\<lambda>c. (byte c, [c])) s"
  by (induction s) (simp_all add: ascii_def chunks_ascii_Cons)

lemma runes_ascii: "ascii s \<Longrightarrow> runes s = map byte s"
  by (simp add: runes_def chunks_ascii comp_def)

lemma rune_count_ascii [simp]: "ascii s \<Longrightarrow> rune_count s = length s"
  by (simp add: rune_count_def runes_ascii)

lemma rune_count_le: "rune_count s \<le> length s"
proof (induction s rule: chunks.induct)
  case 1
  then show ?case by (simp add: rune_count_def runes_def)
next
  case (2 c cs)
  obtain r n where rn: "decode_rune (c # cs) = (r, n)" by fastforce
  have "1 \<le> n" "n \<le> length (c # cs)" using decode_rune_width [of "c # cs"] rn by auto
  moreover have "rune_count (drop n (c # cs)) \<le> length (drop n (c # cs))"
    using "2.IH" rn by simp
  ultimately show ?case by (simp add: rune_count_def runes_def chunks.simps rn)
qed

text \<open>\<open>utf8.ValidString\<close>: no byte decodes to an error of width one.\<close>

definition valid_utf8 :: "string \<Rightarrow> bool" where
  "valid_utf8 s \<longleftrightarrow> (\<forall>(r, b) \<in> set (chunks s). r = rune_error \<longrightarrow> length b \<noteq> 1)"

lemma valid_utf8_ascii: "ascii s \<Longrightarrow> valid_utf8 s"
  by (auto simp: valid_utf8_def chunks_ascii ascii_def rune_error_def)

lemma decode_rune_append:
  "decode_rune (c # cs) = (r, n) \<Longrightarrow> r \<noteq> rune_error \<or> n \<noteq> 1 \<Longrightarrow> decode_rune (c # cs @ u) = (r, n)"
  unfolding decode_rune.simps Let_def
  by (cases cs; simp split: if_split_asm; cases "tl cs"; simp split: if_split_asm;
      cases "tl (tl cs)"; simp split: if_split_asm)

lemma decode_rune_take:
  "decode_rune (c # cs) = (r, n) \<Longrightarrow> r \<noteq> rune_error \<or> n \<noteq> 1 \<Longrightarrow> decode_rune (take n (c # cs)) = (r, n)"
  by (cases cs; simp add: decode_rune.simps Let_def split: if_split_asm; cases "tl cs";
      simp add: decode_rune.simps Let_def split: if_split_asm; cases "tl (tl cs)";
      auto simp: decode_rune.simps Let_def split: if_split_asm)

lemma valid_utf8_Nil [simp]: "valid_utf8 []"
  by (simp add: valid_utf8_def)

text \<open>A valid text is cut into its runes without looking at what follows it.\<close>

lemma valid_utf8_ConsD:
  assumes "valid_utf8 (c # cs)" and rn: "decode_rune (c # cs) = (r, n)"
  shows "(r \<noteq> rune_error \<or> n \<noteq> 1) \<and> valid_utf8 (drop n (c # cs))"
proof -
  have "n \<le> length (c # cs)" using decode_rune_width [of "c # cs"] rn by simp
  then have "n = 1 \<longleftrightarrow> length (take n (c # cs)) = 1" by simp
  with assms show ?thesis by (simp only: valid_utf8_def chunks.simps rn) auto
qed

lemma chunks_append: "valid_utf8 t \<Longrightarrow> chunks (t @ u) = chunks t @ chunks u"
proof (induction t rule: chunks.induct)
  case 1
  then show ?case by simp
next
  case (2 c cs)
  obtain r n where rn: "decode_rune (c # cs) = (r, n)" by fastforce
  from valid_utf8_ConsD [OF "2.prems" rn]
  have ok: "r \<noteq> rune_error \<or> n \<noteq> 1" and v: "valid_utf8 (drop n (c # cs))" by simp_all
  have n: "n \<le> length (c # cs)" using decode_rune_width [of "c # cs"] rn by simp
  from "2.IH" [OF refl, of r n] rn v
  have IH: "chunks (drop n (c # cs) @ u) = chunks (drop n (c # cs)) @ chunks u" by simp
  have cons: "decode_rune (c # cs @ u) = (r, n)" by (rule decode_rune_append [OF rn ok])
  have tk: "take n (c # cs @ u) = take n (c # cs)" and dr: "drop n (c # cs @ u) = drop n (c # cs) @ u"
    using n take_append [of n "c # cs" u] drop_append [of n "c # cs" u] by simp_all
  show ?case
    using IH by (simp only: append_Cons chunks.simps(2) rn cons Let_def split tk dr)
qed

lemma valid_utf8_append: "valid_utf8 t \<Longrightarrow> valid_utf8 u \<Longrightarrow> valid_utf8 (t @ u)"
  by (auto simp: valid_utf8_def [of "t @ u"] chunks_append) (auto simp: valid_utf8_def)

lemma valid_utf8_concat: "\<forall>t \<in> set ts. valid_utf8 t \<Longrightarrow> valid_utf8 (concat ts)"
  by (induction ts) (auto intro: valid_utf8_append)

lemma valid_utf8_chunks: "valid_utf8 t \<Longrightarrow> \<forall>g \<in> set (chunks t). valid_utf8 (snd g)"
proof (induction t rule: chunks.induct)
  case 1
  then show ?case by simp
next
  case (2 c cs)
  obtain r n where rn: "decode_rune (c # cs) = (r, n)" by fastforce
  from valid_utf8_ConsD [OF "2.prems" rn]
  have ok: "r \<noteq> rune_error \<or> n \<noteq> 1" and v: "valid_utf8 (drop n (c # cs))" by simp_all
  have n: "1 \<le> n" "n \<le> length (c # cs)" using decode_rune_width [of "c # cs"] rn by auto
  obtain d ds where hd: "take n (c # cs) = d # ds" using n by (cases "take n (c # cs)") auto
  then have "decode_rune (d # ds) = (r, n)" "n = length (d # ds)"
    using decode_rune_take [OF rn ok] n by (auto simp: hd [symmetric])
  then have "valid_utf8 (d # ds)" using ok by (simp add: valid_utf8_def chunks.simps)
  then have "valid_utf8 (take n (c # cs))" by (simp only: hd)
  with "2.IH" [OF refl, of r n] rn v show ?case by (auto simp: chunks.simps)
qed

text \<open>\<open>string(r)\<close> and \<open>string([]rune)\<close>.\<close>

definition encode_rune :: "int \<Rightarrow> string" where
  "encode_rune r0 =
     (let r = (if r0 < 0 \<or> r0 > 1114111 \<or> (55296 \<le> r0 \<and> r0 \<le> 57343) then rune_error else r0) in
      if r < 128 then [char_of r]
      else if r < 2048 then [char_of (192 + r div 64), char_of (128 + r mod 64)]
      else if r < 65536 then
        [char_of (224 + r div 4096), char_of (128 + r div 64 mod 64), char_of (128 + r mod 64)]
      else [char_of (240 + r div 262144), char_of (128 + r div 4096 mod 64),
            char_of (128 + r div 64 mod 64), char_of (128 + r mod 64)])"

definition encode_runes :: "int list \<Rightarrow> string" where
  "encode_runes rs = concat (map encode_rune rs)"

lemma byte_char_of [simp]: "0 \<le> r \<Longrightarrow> r < 256 \<Longrightarrow> byte (char_of (r :: int)) = r"
  by (simp add: byte_def)

lemma byte_range: "0 \<le> byte c" "byte c < 256"
proof -
  have "byte c mod 256 = byte c" by (simp add: byte_def)
  then show "0 \<le> byte c" "byte c < 256"
    using pos_mod_bound [of 256 "byte c"] pos_mod_sign [of 256 "byte c"] by simp_all
qed

lemma char_of_byte [simp]: "char_of (byte c) = c"
  by (simp add: byte_def)

lemma encode_rune_ascii: "0 \<le> r \<Longrightarrow> r < 128 \<Longrightarrow> encode_rune r = [char_of r]"
  by (simp add: encode_rune_def Let_def rune_error_def)

lemma encode_runes_ascii: "ascii s \<Longrightarrow> encode_runes (map byte s) = s"
  by (induction s) (auto simp: encode_runes_def ascii_def encode_rune_ascii byte_range)

subsection \<open>Character classes and case\<close>

record unicode =
  u_print :: "int \<Rightarrow> bool"
  u_letter :: "int \<Rightarrow> bool"
  u_number :: "int \<Rightarrow> bool"
  u_space :: "int \<Rightarrow> bool"
  u_upper :: "int \<Rightarrow> int"
  u_lower :: "int \<Rightarrow> int"
  u_fold :: "int \<Rightarrow> int \<Rightarrow> bool"

text \<open>Tables without any entry beyond ASCII, for concrete evaluations.\<close>

definition ascii_tables :: unicode where
  "ascii_tables = \<lparr>u_print = (\<lambda>_. False), u_letter = (\<lambda>_. False), u_number = (\<lambda>_. False),
     u_space = (\<lambda>_. False), u_upper = (\<lambda>r. r), u_lower = (\<lambda>r. r), u_fold = (\<lambda>_ _. False)\<rparr>"

definition is_print :: "unicode \<Rightarrow> int \<Rightarrow> bool" where
  "is_print U r = (if r < 128 then 32 \<le> r \<and> r < 127 else u_print U r)"

definition is_letter :: "unicode \<Rightarrow> int \<Rightarrow> bool" where
  "is_letter U r = (if r < 128 then (65 \<le> r \<and> r \<le> 90) \<or> (97 \<le> r \<and> r \<le> 122) else u_letter U r)"

definition is_number :: "unicode \<Rightarrow> int \<Rightarrow> bool" where
  "is_number U r = (if r < 128 then 48 \<le> r \<and> r \<le> 57 else u_number U r)"

definition is_space :: "unicode \<Rightarrow> int \<Rightarrow> bool" where
  "is_space U r = (if r < 128 then r = 32 \<or> (9 \<le> r \<and> r \<le> 13) else u_space U r)"

definition upper_rune :: "unicode \<Rightarrow> int \<Rightarrow> int" where
  "upper_rune U r = (if r < 128 then (if 97 \<le> r \<and> r \<le> 122 then r - 32 else r) else u_upper U r)"

definition lower_rune :: "unicode \<Rightarrow> int \<Rightarrow> int" where
  "lower_rune U r = (if r < 128 then (if 65 \<le> r \<and> r \<le> 90 then r + 32 else r) else u_lower U r)"

definition to_upper :: "unicode \<Rightarrow> string \<Rightarrow> string" where
  "to_upper U s = encode_runes (map (upper_rune U) (runes s))"

definition to_lower :: "unicode \<Rightarrow> string \<Rightarrow> string" where
  "to_lower U s = encode_runes (map (lower_rune U) (runes s))"

definition fold_eq :: "unicode \<Rightarrow> int \<Rightarrow> int \<Rightarrow> bool" where
  "fold_eq U a b \<longleftrightarrow> a = b \<or>
     (if a < 128 \<and> b < 128 then lower_rune U a = lower_rune U b else u_fold U a b)"

definition equal_fold :: "unicode \<Rightarrow> string \<Rightarrow> string \<Rightarrow> bool" where
  "equal_fold U s t = list_all2 (fold_eq U) (runes s) (runes t)"

subsection \<open>Searching, trimming, joining\<close>

definition contains_char :: "char \<Rightarrow> string \<Rightarrow> bool" where
  "contains_char c s \<longleftrightarrow> c \<in> set s"

definition nul :: char where
  "nul = char_of (0 :: int)"

definition has_prefix :: "string \<Rightarrow> string \<Rightarrow> bool" where
  "has_prefix p s \<longleftrightarrow> take (length p) s = p"

definition has_suffix :: "string \<Rightarrow> string \<Rightarrow> bool" where
  "has_suffix p s \<longleftrightarrow> length p \<le> length s \<and> drop (length s - length p) s = p"

definition trim_suffix :: "string \<Rightarrow> string \<Rightarrow> string" where
  "trim_suffix p s = (if has_suffix p s then take (length s - length p) s else s)"

definition trim_space :: "unicode \<Rightarrow> string \<Rightarrow> string" where
  "trim_space U s =
     (let cs = dropWhile (\<lambda>(r, _). is_space U r) (chunks s);
          cs' = rev (dropWhile (\<lambda>(r, _). is_space U r) (rev cs))
      in concat (map snd cs'))"

lemma trim_space_Cons:
  assumes "byte c < 128" and "\<not> is_space U (byte c)"
  shows "trim_space U (c # cs) \<noteq> []"
proof -
  have "\<exists>ys. dropWhile (\<lambda>(r, _). is_space U r) (rev (chunks (c # cs))) = ys @ [(byte c, [c])]"
    using assms by (simp add: chunks_ascii_Cons dropWhile_append dropWhile_eq_Nil_conv)
  then show ?thesis using assms by (auto simp: trim_space_def chunks_ascii_Cons Let_def)
qed

text \<open>\<open>strings.Cut\<close> at the first occurrence of a one-byte separator.\<close>

fun cut :: "char \<Rightarrow> string \<Rightarrow> string \<times> string \<times> bool" where
  "cut c [] = ([], [], False)"
| "cut c (x # xs) =
     (if x = c then ([], xs, True)
      else (let (before, after, found) = cut c xs in (x # before, after, found)))"

lemma cut_found: "cut c s = (b, a, True) \<Longrightarrow> s = b @ c # a \<and> c \<notin> set b"
  by (induction c s arbitrary: b a rule: cut.induct) (auto split: if_splits prod.splits)

lemma cut_not_found: "cut c s = (b, a, False) \<Longrightarrow> b = s \<and> a = [] \<and> c \<notin> set s"
  by (induction c s arbitrary: b a rule: cut.induct) (auto split: if_splits prod.splits)

lemma cut_shorter: "cut c s = (b, a, True) \<Longrightarrow> length a < length s"
  by (drule cut_found) simp

lemma cut_append: "c \<notin> set b \<Longrightarrow> cut c (b @ c # a) = (b, a, True)"
  by (induction b) auto

lemma cut_none: "c \<notin> set s \<Longrightarrow> cut c s = (s, [], False)"
  by (induction s) auto

fun join :: "string \<Rightarrow> string list \<Rightarrow> string" where
  "join sep [] = []"
| "join sep [s] = s"
| "join sep (s # t # ts) = s @ sep @ join sep (t # ts)"

lemma join_empty_sep: "join [] ss = concat ss"
  by (induction "[] :: string" ss rule: join.induct) auto

text \<open>\<open>fmt.Sprintf("%d", n)\<close> for a non-negative number.\<close>

fun show_nat :: "nat \<Rightarrow> string" where
  "show_nat n = (if n < 10 then [char_of (48 + int n)]
                 else show_nat (n div 10) @ [char_of (48 + int (n mod 10))])"

declare show_nat.simps [simp del]

lemma length_show_nat: "n < 10 ^ k \<Longrightarrow> length (show_nat n) \<le> max 1 k"
proof (induction n arbitrary: k rule: show_nat.induct)
  case (1 n)
  show ?case
  proof (cases "n < 10")
    case True
    then show ?thesis by (simp add: show_nat.simps [of n])
  next
    case False
    with 1(2) obtain j where k: "k = Suc j" by (cases k) auto
    then have "n div 10 < 10 ^ j" using 1(2) by (simp add: less_mult_imp_div_less mult.commute)
    then have "length (show_nat (n div 10)) \<le> max 1 j" using False 1(1) by simp
    moreover have "j \<noteq> 0" using False k 1(2) by (cases j) auto
    ultimately show ?thesis using False k by (simp add: show_nat.simps [of n])
  qed
qed

lemma show_nat_digits: "c \<in> set (show_nat n) \<Longrightarrow> 48 \<le> byte c \<and> byte c \<le> 57"
proof (induction n arbitrary: c rule: show_nat.induct)
  case (1 n)
  show ?case
  proof (cases "n < 10")
    case True
    with "1.prems" show ?thesis by (auto simp: show_nat.simps [of n])
  next
    case False
    have "n mod 10 < 10" by simp
    then have "48 + n mod 10 < 256" by linarith
    with False "1.prems" "1.IH" show ?thesis
      by (auto simp: show_nat.simps [of n])
  qed
qed

end
