(* ===== verification/Identifiers.thy ===== *)
theory Identifiers
  imports GoStrings
begin

text \<open>
  The identifier languages of the kit: the stable lowercase identifiers of a manifest
  (manifest/manifest.go), the semantic identifiers of the diagnostics
  (diagnostics/semantic.go) and Herdr session names with the argument vector they
  select (runtime/internal/herdrid/session.go).  The regular expressions of the source
  are scanners here; \<open>stable_lang\<close> is the grammar the manifest expression denotes.
\<close>

definition lower_ch :: "char \<Rightarrow> bool" where
  "lower_ch c \<longleftrightarrow> 97 \<le> byte c \<and> byte c \<le> 122"

definition upper_ch :: "char \<Rightarrow> bool" where
  "upper_ch c \<longleftrightarrow> 65 \<le> byte c \<and> byte c \<le> 90"

definition digit_ch :: "char \<Rightarrow> bool" where
  "digit_ch c \<longleftrightarrow> 48 \<le> byte c \<and> byte c \<le> 57"

definition alnum_ch :: "char \<Rightarrow> bool" where
  "alnum_ch c \<longleftrightarrow> lower_ch c \<or> digit_ch c"

text \<open>The separators \<open>.\<close>, \<open>_\<close> and \<open>-\<close>.\<close>

definition sep_ch :: "char \<Rightarrow> bool" where
  "sep_ch c \<longleftrightarrow> byte c = 46 \<or> byte c = 95 \<or> byte c = 45"

lemma sep_not_alnum: "sep_ch c \<Longrightarrow> \<not> alnum_ch c"
  by (auto simp: sep_ch_def alnum_ch_def lower_ch_def digit_ch_def)

lemma ascii_classes:
  "lower_ch c \<Longrightarrow> byte c < 128" "alnum_ch c \<Longrightarrow> byte c < 128" "sep_ch c \<Longrightarrow> byte c < 128"
  by (auto simp: sep_ch_def alnum_ch_def lower_ch_def digit_ch_def)

subsection \<open>Stable identifiers\<close>

text \<open>
  The scanner for \<open>^[a-z][a-z0-9]*(?:[._-][a-z0-9]+)*$\<close>.  Its state is \<open>Some need\<close>
  while the text read so far can be continued, with \<open>need\<close> set right after a separator.
\<close>

fun stable_step :: "bool option \<Rightarrow> char \<Rightarrow> bool option" where
  "stable_step None c = None"
| "stable_step (Some need) c =
     (if alnum_ch c then Some False
      else if sep_ch c \<and> \<not> need then Some True
      else None)"

definition stable_id :: "string \<Rightarrow> bool" where
  "stable_id s = (case s of [] \<Rightarrow> False
     | c # cs \<Rightarrow> lower_ch c \<and> foldl stable_step (Some False) cs = Some False)"

inductive stable_lang :: "string \<Rightarrow> bool" where
  head: "lower_ch c \<Longrightarrow> list_all alnum_ch w \<Longrightarrow> stable_lang (c # w)"
| segment: "stable_lang s \<Longrightarrow> sep_ch d \<Longrightarrow> w \<noteq> [] \<Longrightarrow> list_all alnum_ch w \<Longrightarrow>
     stable_lang (s @ d # w)"

lemma stable_lang_snoc: "stable_lang s \<Longrightarrow> alnum_ch x \<Longrightarrow> stable_lang (s @ [x])"
proof (induction rule: stable_lang.cases)
  case (head c w)
  then show ?case using stable_lang.head [of c "w @ [x]"] by simp
next
  case (segment t d w)
  then show ?case using stable_lang.segment [of t d "w @ [x]"] by simp
qed

lemma foldl_stable_None [simp]: "foldl stable_step None cs = None"
  by (induction cs) auto

lemma foldl_stable_alnum:
  "list_all alnum_ch w \<Longrightarrow> w \<noteq> [] \<Longrightarrow> foldl stable_step (Some need) w = Some False"
proof (induction w arbitrary: need)
  case Nil
  then show ?case by simp
next
  case (Cons a w)
  then show ?case by (cases w) auto
qed

lemma stable_scan_states:
  assumes "lower_ch c"
  shows "(foldl stable_step (Some False) cs = Some False \<longrightarrow> stable_lang (c # cs)) \<and>
    (foldl stable_step (Some False) cs = Some True \<longrightarrow>
      (\<exists>s d. c # cs = s @ [d] \<and> stable_lang s \<and> sep_ch d))"
proof (induction cs rule: rev_induct)
  case Nil
  then show ?case using assms stable_lang.head [of c "[]"] by simp
next
  case (snoc x xs)
  show ?case
  proof (cases "foldl stable_step (Some False) xs")
    case None
    then show ?thesis by simp
  next
    case (Some need)
    show ?thesis
    proof (cases need)
      case True
      with Some snoc obtain s d where "c # xs = s @ [d]" "stable_lang s" "sep_ch d" by auto
      then have "alnum_ch x \<Longrightarrow> stable_lang (c # xs @ [x])"
        using stable_lang.segment [of s d "[x]"] by (metis append.assoc append_Cons append_Nil list.pred_inject not_Cons_self2)
      with True Some show ?thesis by auto
    next
      case False
      with Some snoc have "stable_lang (c # xs)" by simp
      with False Some show ?thesis using stable_lang_snoc [of "c # xs" x] by auto
    qed
  qed
qed

lemma stable_id_of_lang: "stable_lang s \<Longrightarrow> stable_id s"
proof (induction rule: stable_lang.induct)
  case (head c w)
  then show ?case
    by (cases "w = []") (auto simp: stable_id_def foldl_stable_alnum)
next
  case (segment s d w)
  then show ?case
    using foldl_stable_alnum [of w True] sep_not_alnum [of d]
    by (auto simp: stable_id_def split: list.splits)
qed

lemma stable_id_lang: "stable_id s \<longleftrightarrow> stable_lang s"
proof
  assume "stable_id s"
  then show "stable_lang s"
    using stable_scan_states by (auto simp: stable_id_def split: list.splits)
qed (rule stable_id_of_lang)

text \<open>\<open>ValidateID\<close>: the error carries the field it names.\<close>

datatype id_error = BadStableID string

definition validate_id :: "string \<Rightarrow> string \<Rightarrow> id_error option" where
  "validate_id field value =
     guard_err (value = [] \<or> length value > 64 \<or> \<not> stable_id value) (BadStableID field)"

lemma validate_id_None [check_simps]:
  "validate_id field v = None \<longleftrightarrow> v \<noteq> [] \<and> length v \<le> 64 \<and> stable_lang v"
  by (auto simp: validate_id_def guard_err_None stable_id_lang)

subsection \<open>Semantic identifiers\<close>

text \<open>\<open>NewID\<close> with \<open>^[a-z][a-z0-9._-]{0,63}$\<close>; the zero \<open>ID\<close> is the empty string.\<close>

definition semantic_id :: "string \<Rightarrow> bool" where
  "semantic_id s = (case s of [] \<Rightarrow> False
     | c # cs \<Rightarrow> lower_ch c \<and> list_all (\<lambda>x. alnum_ch x \<or> sep_ch x) cs \<and> length cs \<le> 63)"

datatype semantic_id_error = BadSemanticID

definition new_id :: "string \<Rightarrow> semantic_id_error + string" where
  "new_id v = (if semantic_id v then Inr v else Inl BadSemanticID)"

lemma new_id_Inr: "new_id v = Inr w \<longleftrightarrow> semantic_id v \<and> w = v"
  by (auto simp: new_id_def)

lemma semantic_id_ascii: "semantic_id s \<Longrightarrow> ascii s"
  by (auto simp: semantic_id_def ascii_def list_all_iff ascii_classes split: list.splits)

lemma semantic_id_no_slash: "semantic_id s \<Longrightarrow> CHR ''/'' \<notin> set s"
  by (auto simp: semantic_id_def list_all_iff alnum_ch_def lower_ch_def digit_ch_def sep_ch_def
      byte_def split: list.splits)

lemma stable_lang_chars:
  "stable_lang s \<Longrightarrow> \<exists>c cs. s = c # cs \<and> lower_ch c \<and> list_all (\<lambda>x. alnum_ch x \<or> sep_ch x) cs"
  by (induction rule: stable_lang.induct) (auto simp: list_all_iff)

lemma stable_is_semantic: "validate_id f s = None \<Longrightarrow> semantic_id s"
  using stable_lang_chars by (fastforce simp: validate_id_None semantic_id_def)

subsection \<open>Session names\<close>

text \<open>\<open>^[A-Za-z0-9][A-Za-z0-9._-]{0,63}$\<close>.\<close>

definition session_head :: "char \<Rightarrow> bool" where
  "session_head c \<longleftrightarrow> alnum_ch c \<or> upper_ch c"

definition session_name :: "string \<Rightarrow> bool" where
  "session_name s = (case s of [] \<Rightarrow> False
     | c # cs \<Rightarrow> session_head c \<and> list_all (\<lambda>x. session_head x \<or> sep_ch x) cs \<and> length cs \<le> 63)"

datatype session_error = InvalidSessionName | ExplicitDefaultSession

definition validate_session_name :: "string \<Rightarrow> session_error option" where
  "validate_session_name name =
     guard_err (\<not> session_name name \<or> name = ''.'' \<or> name = ''..'') InvalidSessionName"

definition session_args :: "string \<Rightarrow> string list \<Rightarrow> session_error + string list" where
  "session_args session args =
     (if session = ''default'' then Inl ExplicitDefaultSession
      else let selected = (if session = [] then ''default'' else session) in
        case validate_session_name selected of
          Some e \<Rightarrow> Inl e
        | None \<Rightarrow> Inr ([''--session'', selected] @ args))"

lemma validate_session_name_None [check_simps]:
  "validate_session_name n = None \<longleftrightarrow> session_name n"
  by (auto simp: validate_session_name_def guard_err_def session_name_def session_head_def
      alnum_ch_def lower_ch_def digit_ch_def upper_ch_def byte_def)

lemma session_args_injective:
  assumes "session_args s xs = Inr v" and "session_args t ys = Inr v"
  shows "s = t \<and> xs = ys"
  using assms by (auto simp: session_args_def Let_def split: if_splits option.splits)

end
