(* ===== verification/Keymap.thy ===== *)
theory Keymap
  imports Identifiers
begin

text \<open>
  The data of ui/keymap/keymap.go and its key names: actions, contexts, bindings and
  documents, the canonical spelling of a key (\<open>Normalize\<close>) and the printable test.
  Errors are constructors of \<open>keymap_error\<close>; the strings a message interpolates are the
  constructors' arguments.
\<close>

type_synonym stroke = string
type_synonym sequence = "stroke list"

record action =
  act_id :: string
  act_label :: string
  act_context :: string
  act_editing :: bool
  act_quick :: bool
  act_defaults :: "sequence list"

record context_state =
  ctx_id :: string
  ctx_editing :: bool
  ctx_target :: string

record action_state =
  st_enabled :: bool
  st_reason :: string

record key_binding =
  kb_context :: string
  kb_action :: string
  kb_sequences :: "sequence list"

record document =
  doc_version :: int
  doc_bindings :: "key_binding list"

text \<open>\<open>Timeout\<close> is one second; instants and durations are nanoseconds.\<close>

definition timeout :: int where
  "timeout = 1000000000"

subsection \<open>Canonical key names\<close>

datatype key_error = DuplicateModifier | UnsupportedKeyName

record mods =
  m_ctrl :: bool
  m_alt :: bool
  m_shift :: bool

definition no_mods :: mods where
  "no_mods = \<lparr>m_ctrl = False, m_alt = False, m_shift = False\<rparr>"

definition has_mod :: "mods \<Rightarrow> string \<Rightarrow> bool" where
  "has_mod m p = (if p = ''ctrl'' then m_ctrl m else if p = ''alt'' then m_alt m else m_shift m)"

definition set_mod :: "mods \<Rightarrow> string \<Rightarrow> mods" where
  "set_mod m p = (if p = ''ctrl'' then m\<lparr>m_ctrl := True\<rparr>
     else if p = ''alt'' then m\<lparr>m_alt := True\<rparr> else m\<lparr>m_shift := True\<rparr>)"

definition is_mod_name :: "string \<Rightarrow> bool" where
  "is_mod_name p \<longleftrightarrow> p = ''ctrl'' \<or> p = ''alt'' \<or> p = ''shift''"

text \<open>The loop that peels modifiers off the front of the name.\<close>

function strip_mods :: "unicode \<Rightarrow> mods \<Rightarrow> string \<Rightarrow> key_error + (mods \<times> string)" where
  "strip_mods U m base =
     (let (part0, rest, found) = cut CHR ''+'' base;
          part = to_lower U part0
      in if \<not> found \<or> \<not> is_mod_name part then Inr (m, base)
         else if has_mod m part then Inl DuplicateModifier
         else strip_mods U (set_mod m part) rest)"
  by pat_completeness auto
termination
  by (relation "measure (\<lambda>(U, m, base). length base)") (auto dest: cut_shorter [OF sym])

declare strip_mods.simps [simp del]

definition navigation_key :: "string \<Rightarrow> bool" where
  "navigation_key b \<longleftrightarrow> b \<in> {''up'', ''down'', ''left'', ''right'', ''home'', ''end''}"

definition plain_key :: "string \<Rightarrow> bool" where
  "plain_key b \<longleftrightarrow> b \<in> {''enter'', ''backspace'', ''tab'', ''escape'', ''page-up'', ''page-down'',
     ''delete'', ''insert'', ''space'',
     ''f1'', ''f2'', ''f3'', ''f4'', ''f5'', ''f6'', ''f7'', ''f8'', ''f9'', ''f10'',
     ''f11'', ''f12'', ''f13'', ''f14'', ''f15'', ''f16'', ''f17'', ''f18'', ''f19'', ''f20''}"

definition ctrl_chars :: string where
  "ctrl_chars = ''abcdefghijklmnopqrstuvwxyz@'' @ [char_of (92 :: int)] @ '']^_''"

definition key_alias :: "string \<Rightarrow> string" where
  "key_alias b = (if b = ''esc'' then ''escape'' else if b = ''return'' then ''enter''
     else if b = ''pgup'' then ''page-up''
     else if b = ''pgdown'' \<or> b = ''pgdn'' then ''page-down'' else b)"

definition ctrl_alias :: "string \<Rightarrow> string option" where
  "ctrl_alias b = (if b = ''i'' then Some ''tab'' else if b = ''m'' then Some ''enter''
     else if b = ''['' then Some ''escape'' else if b = ''?'' then Some ''backspace'' else None)"

text \<open>The \<open>switch\<close> that decides whether modifiers and base name a key.\<close>

definition valid_key :: "unicode \<Rightarrow> mods \<Rightarrow> string \<Rightarrow> bool" where
  "valid_key U m base =
     (if m_ctrl m \<and> m_shift m then navigation_key base
      else if m_ctrl m then
        navigation_key base \<or> base = ''page-up'' \<or> base = ''page-down''
          \<or> (length base = 1 \<and> hd base \<in> set ctrl_chars)
      else if m_shift m then navigation_key base \<or> base = ''tab''
      else if rune_count base = 1 then is_print U (fst (decode_rune base))
      else navigation_key base \<or> plain_key base)"

definition mod_prefix :: "mods \<Rightarrow> string" where
  "mod_prefix m = (if m_ctrl m then ''ctrl+'' else []) @ (if m_alt m then ''alt+'' else [])
     @ (if m_shift m then ''shift+'' else [])"

text \<open>The control aliases: tab, enter, escape and backspace drop the modifier.\<close>

definition apply_ctrl :: "mods \<times> string \<Rightarrow> mods \<times> string" where
  "apply_ctrl = (\<lambda>(m, base).
     if m_ctrl m \<and> \<not> m_shift m then
       let (m1, b1) = (case ctrl_alias base of
             Some a \<Rightarrow> (m\<lparr>m_ctrl := False\<rparr>, a) | None \<Rightarrow> (m, base))
       in (m1, if b1 = ''space'' \<or> b1 = ''`'' then ''@'' else b1)
     else (m, base))"

definition apply_shift :: "unicode \<Rightarrow> mods \<times> string \<Rightarrow> mods \<times> string" where
  "apply_shift U = (\<lambda>(m, base).
     if m_shift m \<and> \<not> m_ctrl m \<and> rune_count base = 1 \<and> is_letter U (fst (decode_rune base))
     then (m\<lparr>m_shift := False\<rparr>, to_upper U base)
     else (m, base))"

definition finish_key :: "unicode \<Rightarrow> mods \<times> string \<Rightarrow> key_error + stroke" where
  "finish_key U = (\<lambda>(m, base0).
     let base1 = (if rune_count base0 \<noteq> 1 \<or> m_ctrl m then to_lower U base0 else base0);
         (m', base) = apply_shift U (apply_ctrl (m, key_alias base1))
     in if valid_key U m' base then Inr (mod_prefix m' @ base) else Inl UnsupportedKeyName)"

definition normalize :: "unicode \<Rightarrow> string \<Rightarrow> key_error + stroke" where
  "normalize U value =
     (if value = '' '' then Inr ''space''
      else if rune_count value = 1 \<and> is_print U (fst (decode_rune value)) then Inr value
      else
        let v1 = (if has_suffix ''+ '' value then trim_suffix '' '' value @ ''space'' else value);
            v2 = trim_space U v1;
            v3 = (if equal_fold U v2 ''ctrl-c'' then ''ctrl+c'' else v2)
        in bind_res (strip_mods U no_mods v3) (finish_key U))"

text \<open>\<open>Printable\<close>: a stroke a text field would insert.\<close>

definition printable :: "stroke \<Rightarrow> bool" where
  "printable s \<longleftrightarrow> s = ''space'' \<or> (rune_count s = 1 \<and> \<not> contains_char (char_of (10::int)) s)"

end
