(* ===== verification/KeymapRuntime.thy ===== *)
theory KeymapRuntime
  imports Keymap "HOL-Library.Sublist"
begin

text \<open>
  \<open>Runtime\<close> of ui/keymap/keymap.go: compiling a catalogue and a document into the
  per-context binding table (\<open>compile_keymap\<close>), applying a document, and resolving the
  strokes a user types (\<open>sync\<close>, \<open>step\<close>, \<open>cancel\<close>, \<open>continuations\<close>).  The zero
  \<open>time.Time\<close> of the deadline is \<^const>\<open>None\<close>.
\<close>

datatype keymap_error =
    UnsupportedVersion
  | InvalidActionID
  | InvalidContextID
  | InvalidDeclaration string
  | InconsistentEditing string
  | UnknownActionOrContext
  | DuplicateBinding string
  | EmptySequence string string
  | UnsupportedOrReserved string string
  | TextEntryBinding string string
  | ShortcutConflict string string string

record entry =
  en_action :: string
  en_sequence :: sequence

type_synonym table = "string \<Rightarrow> entry list"

record keymap_runtime =
  rt_catalog :: "action list"
  rt_bindings :: table
  rt_document :: document
  rt_prefix :: sequence
  rt_context :: context_state
  rt_deadline :: "int option"

subsection \<open>Compiling a document\<close>

definition binding_id :: "string \<Rightarrow> string \<Rightarrow> string" where
  "binding_id ctx act = ctx @ ''/'' @ act"

fun prefix_of :: "sequence \<Rightarrow> sequence \<Rightarrow> bool" where
  "prefix_of [] s = True"
| "prefix_of (x # xs) [] = False"
| "prefix_of (x # xs) (y # ys) = (x = y \<and> prefix_of xs ys)"

lemma prefix_of_prefix: "prefix_of p s = prefix p s"
  by (induction p s rule: prefix_of.induct) auto

text \<open>The first loop: the declared actions and the editing flag of every context.\<close>

type_synonym declarations = "(string \<rightharpoonup> action) \<times> (string \<rightharpoonup> bool)"

fun declare_actions :: "action list \<Rightarrow> declarations \<Rightarrow> keymap_error + declarations" where
  "declare_actions [] d = Inr d"
| "declare_actions (a # as) (actions, contexts) =
     (if \<not> semantic_id (act_id a) then Inl InvalidActionID
      else if \<not> semantic_id (act_context a) then Inl InvalidContextID
      else
        let id = binding_id (act_context a) (act_id a) in
        if actions id \<noteq> None \<or> act_label a = [] then Inl (InvalidDeclaration id)
        else if contexts (act_context a) = Some (\<not> act_editing a)
        then Inl (InconsistentEditing (act_context a))
        else declare_actions as (actions(id \<mapsto> a), contexts(act_context a \<mapsto> act_editing a)))"

text \<open>The second loop: the overrides of the document.\<close>

fun collect_overrides ::
  "(string \<rightharpoonup> action) \<Rightarrow> key_binding list \<Rightarrow> (string \<rightharpoonup> sequence list) \<Rightarrow>
     keymap_error + (string \<rightharpoonup> sequence list)" where
  "collect_overrides actions [] ov = Inr ov"
| "collect_overrides actions (b # bs) ov =
     (let id = binding_id (kb_context b) (kb_action b) in
      if actions id = None then Inl UnknownActionOrContext
      else if ov id \<noteq> None then Inl (DuplicateBinding id)
      else collect_overrides actions bs (ov(id \<mapsto> kb_sequences b)))"

text \<open>The third loop: canonical strokes, the text-entry rule and the conflict test.\<close>

fun canonical :: "unicode \<Rightarrow> action \<Rightarrow> sequence \<Rightarrow> keymap_error + sequence" where
  "canonical U a [] = Inr []"
| "canonical U a (s # ss) =
     (case normalize U s of
        Inl _ \<Rightarrow> Inl (UnsupportedOrReserved (act_context a) (act_id a))
      | Inr n \<Rightarrow>
          (if n = ''ctrl+c'' then Inl (UnsupportedOrReserved (act_context a) (act_id a))
           else bind_res (canonical U a ss) (\<lambda>ns. Inr (n # ns))))"

definition conflicts :: "sequence \<Rightarrow> entry \<Rightarrow> bool" where
  "conflicts c e \<longleftrightarrow> prefix_of (en_sequence e) c \<or> prefix_of c (en_sequence e)"

definition add_sequence :: "unicode \<Rightarrow> action \<Rightarrow> sequence \<Rightarrow> table \<Rightarrow> keymap_error + table" where
  "add_sequence U a seq tbl =
     (if seq = [] then Inl (EmptySequence (act_context a) (act_id a))
      else bind_res (canonical U a seq) (\<lambda>c.
        if act_editing a \<and> printable (hd c) then Inl (TextEntryBinding (act_context a) (act_id a))
        else case find (conflicts c) (tbl (act_context a)) of
            Some e \<Rightarrow> Inl (ShortcutConflict (act_context a) (en_action e) (act_id a))
          | None \<Rightarrow> Inr (tbl(act_context a := tbl (act_context a) @
                      [\<lparr>en_action = act_id a, en_sequence = c\<rparr>]))))"

fun add_sequences :: "unicode \<Rightarrow> action \<Rightarrow> sequence list \<Rightarrow> table \<Rightarrow> keymap_error + table" where
  "add_sequences U a [] tbl = Inr tbl"
| "add_sequences U a (s # ss) tbl = bind_res (add_sequence U a s tbl) (add_sequences U a ss)"

definition effective_sequences :: "(string \<rightharpoonup> sequence list) \<Rightarrow> action \<Rightarrow> sequence list" where
  "effective_sequences ov a =
     (case ov (binding_id (act_context a) (act_id a)) of
        Some ss \<Rightarrow> ss | None \<Rightarrow> act_defaults a)"

fun compile_actions ::
  "unicode \<Rightarrow> (string \<rightharpoonup> sequence list) \<Rightarrow> action list \<Rightarrow> table \<Rightarrow> keymap_error + table" where
  "compile_actions U ov [] tbl = Inr tbl"
| "compile_actions U ov (a # as) tbl =
     bind_res (add_sequences U a (effective_sequences ov a) tbl) (compile_actions U ov as)"

definition compile_keymap :: "unicode \<Rightarrow> action list \<Rightarrow> document \<Rightarrow> keymap_error + table" where
  "compile_keymap U catalog doc =
     (if doc_version doc \<noteq> 1 then Inl UnsupportedVersion
      else bind_res (declare_actions catalog (Map.empty, Map.empty)) (\<lambda>(actions, contexts).
        bind_res (collect_overrides actions (doc_bindings doc) Map.empty) (\<lambda>ov.
          compile_actions U ov catalog (\<lambda>_. []))))"

subsection \<open>The runtime's operations\<close>

definition cancel :: "keymap_runtime \<Rightarrow> keymap_runtime" where
  "cancel r = r\<lparr>rt_prefix := [], rt_deadline := None\<rparr>"

definition validate_document :: "unicode \<Rightarrow> keymap_runtime \<Rightarrow> document \<Rightarrow> keymap_error option" where
  "validate_document U r doc =
     (case compile_keymap U (rt_catalog r) doc of Inl e \<Rightarrow> Some e | Inr _ \<Rightarrow> None)"

text \<open>\<open>Apply\<close>: the error and the receiver afterwards.\<close>

definition apply_document ::
  "unicode \<Rightarrow> keymap_runtime \<Rightarrow> document \<Rightarrow> keymap_error option \<times> keymap_runtime" where
  "apply_document U r doc =
     (case compile_keymap U (rt_catalog r) doc of
        Inl e \<Rightarrow> (Some e, r)
      | Inr tbl \<Rightarrow> (None, cancel (r\<lparr>rt_bindings := tbl, rt_document := doc\<rparr>)))"

definition zero_context :: context_state where
  "zero_context = \<lparr>ctx_id = [], ctx_editing = False, ctx_target = []\<rparr>"

definition new_runtime :: "unicode \<Rightarrow> action list \<Rightarrow> keymap_error + keymap_runtime" where
  "new_runtime U catalog =
     (let r = \<lparr>rt_catalog = catalog, rt_bindings = (\<lambda>_. []),
               rt_document = \<lparr>doc_version = 0, doc_bindings = []\<rparr>,
               rt_prefix = [], rt_context = zero_context, rt_deadline = None\<rparr>
      in case apply_document U r \<lparr>doc_version = 1, doc_bindings = []\<rparr> of
           (Some e, _) \<Rightarrow> Inl e
         | (None, r') \<Rightarrow> Inr r')"

definition effective :: "keymap_runtime \<Rightarrow> string \<Rightarrow> string \<Rightarrow> sequence list" where
  "effective r ctx act =
     map en_sequence (filter (\<lambda>e. en_action e = act) (rt_bindings r ctx))"

definition expired :: "keymap_runtime \<Rightarrow> int \<Rightarrow> bool" where
  "expired r now = (case rt_deadline r of None \<Rightarrow> False | Some d \<Rightarrow> \<not> now < d)"

definition sync :: "keymap_runtime \<Rightarrow> context_state \<Rightarrow> int \<Rightarrow> keymap_runtime" where
  "sync r c now =
     (let r' = (if c \<noteq> rt_context r \<or> expired r now then cancel r else r)
      in r'\<lparr>rt_context := c\<rparr>)"

definition continuations :: "keymap_runtime \<Rightarrow> string list" where
  "continuations r =
     (if rt_prefix r = [] then []
      else sort (remdups (map (\<lambda>e. en_sequence e ! length (rt_prefix r))
        (filter (\<lambda>e. prefix_of (rt_prefix r) (en_sequence e)
                    \<and> length (en_sequence e) > length (rt_prefix r))
          (rt_bindings r (ctx_id (rt_context r)))))))"

text \<open>
  The loop of \<open>Step\<close>; its first argument is the number of attempts left.  The result is
  the action, whether the stroke was consumed, and the runtime afterwards.
\<close>

fun step_attempts ::
  "nat \<Rightarrow> keymap_runtime \<Rightarrow> context_state \<Rightarrow> stroke \<Rightarrow> int \<Rightarrow> string \<times> bool \<times> keymap_runtime" where
  "step_attempts 0 r c k now = ([], True, r)"
| "step_attempts (Suc n) r c k now =
     (let seq = rt_prefix r @ [k] in
      case find (\<lambda>e. prefix_of seq (en_sequence e)) (rt_bindings r (ctx_id c)) of
        Some e \<Rightarrow>
          (if length seq = length (en_sequence e) then (en_action e, True, cancel r)
           else ([], True, r\<lparr>rt_prefix := seq, rt_deadline := Some (now + timeout)\<rparr>))
      | None \<Rightarrow>
          (if rt_prefix r = [] then ([], \<not> ctx_editing c \<or> \<not> printable k, r)
           else step_attempts n (cancel r) c k now))"

definition step_key ::
  "keymap_runtime \<Rightarrow> context_state \<Rightarrow> stroke \<Rightarrow> int \<Rightarrow> string \<times> bool \<times> keymap_runtime" where
  "step_key r c k now = step_attempts 2 (sync r c now) c k now"

end
