(* ===== verification/KeymapLaws.thy ===== *)
theory KeymapLaws
  imports KeymapRuntime
begin

text \<open>
  What a compiled keymap guarantees and what the runtime makes of it.

  \<open>binding_table\<close> is the interface between the compiler and the stroke resolver: in
  every context no bound sequence is empty or a prefix of another.  Inside it a typed
  prefix is shown to select the entry it belongs to.  The compiler's output interprets
  it.  The runtime's own invariant is \<open>runtime_ok\<close>, preserved by every operation.
\<close>

subsection \<open>The interface between compiler and resolver\<close>

definition unrelated :: "entry \<Rightarrow> entry \<Rightarrow> bool" where
  "unrelated a b \<longleftrightarrow> \<not> prefix (en_sequence a) (en_sequence b) \<and> \<not> prefix (en_sequence b) (en_sequence a)"

locale binding_table =
  fixes tbl :: table
  assumes prefix_free: "sorted_wrt unrelated (tbl c)"
    and nonempty: "e \<in> set (tbl c) \<Longrightarrow> en_sequence e \<noteq> []"
begin

lemma related_same:
  assumes "e \<in> set (tbl c)" and "d \<in> set (tbl c)" and "prefix (en_sequence e) (en_sequence d)"
  shows "e = d"
proof -
  obtain i j where i: "i < length (tbl c)" "e = tbl c ! i" and j: "j < length (tbl c)" "d = tbl c ! j"
    using assms by (auto simp: in_set_conv_nth)
  have "i < j \<Longrightarrow> unrelated e d" "j < i \<Longrightarrow> unrelated d e"
    using sorted_wrt_nth_less [OF prefix_free] i j by blast+
  with assms(3) have "\<not> i < j" "\<not> j < i" by (auto simp: unrelated_def)
  then have "i = j" by simp
  with i j show ?thesis by simp
qed

lemma lookup_full:
  assumes "e \<in> set (tbl c)"
  shows "find (\<lambda>d. prefix_of (en_sequence e) (en_sequence d)) (tbl c) = Some e"
proof -
  have "find (\<lambda>d. prefix_of (en_sequence e) (en_sequence d)) (tbl c) \<noteq> None"
    using assms by (auto simp: find_None_iff prefix_of_prefix)
  then obtain d where d: "find (\<lambda>d. prefix_of (en_sequence e) (en_sequence d)) (tbl c) = Some d"
    by blast
  then have "d \<in> set (tbl c)" "prefix (en_sequence e) (en_sequence d)"
    by (auto simp: find_Some_iff prefix_of_prefix)
  with assms d show ?thesis using related_same by blast
qed

lemma lookup_partial:
  assumes e: "e \<in> set (tbl c)" and k: "k < length (en_sequence e)"
  shows "\<exists>d. find (\<lambda>d. prefix_of (take k (en_sequence e)) (en_sequence d)) (tbl c) = Some d \<and>
    length (en_sequence d) > k"
proof -
  let ?P = "\<lambda>d. prefix_of (take k (en_sequence e)) (en_sequence d)"
  have "find ?P (tbl c) \<noteq> None"
    using e by (auto simp: find_None_iff prefix_of_prefix take_is_prefix)
  then obtain d where d: "find ?P (tbl c) = Some d" by blast
  then have in_d: "d \<in> set (tbl c)" and p: "prefix (take k (en_sequence e)) (en_sequence d)"
    by (auto simp: find_Some_iff prefix_of_prefix)
  have "length (en_sequence d) \<noteq> k"
  proof
    assume len: "length (en_sequence d) = k"
    obtain zs where zs: "en_sequence d = take k (en_sequence e) @ zs"
      using p by (auto simp: prefix_def)
    then have "length (en_sequence d) = k + length zs" using k by simp
    with zs len have "en_sequence d = take k (en_sequence e)" by simp
    then have "prefix (en_sequence d) (en_sequence e)" by (simp add: take_is_prefix)
    then have "d = e" using in_d e related_same by blast
    with len k show False by simp
  qed
  moreover have "k \<le> length (en_sequence d)"
    using prefix_length_le [OF p] k by simp
  ultimately show ?thesis using d by auto
qed

end

subsection \<open>What compiling establishes\<close>

definition entry_ok :: "unicode \<Rightarrow> action list \<Rightarrow> string \<Rightarrow> entry \<Rightarrow> bool" where
  "entry_ok U cat c e \<longleftrightarrow> en_sequence e \<noteq> [] \<and>
     (\<forall>k \<in> set (en_sequence e). k \<noteq> ''ctrl+c'' \<and> (\<exists>v. normalize U v = Inr k)) \<and>
     (\<exists>a \<in> set cat. act_context a = c \<and> act_id a = en_action e \<and>
        (act_editing a \<longrightarrow> \<not> printable (hd (en_sequence e))))"

definition table_ok :: "unicode \<Rightarrow> action list \<Rightarrow> table \<Rightarrow> bool" where
  "table_ok U cat tbl \<longleftrightarrow>
     (\<forall>c. sorted_wrt unrelated (tbl c) \<and> (\<forall>e \<in> set (tbl c). entry_ok U cat c e))"

lemma canonical_Inr:
  "canonical U a ss = Inr ns \<longleftrightarrow>
     list_all2 (\<lambda>s n. normalize U s = Inr n \<and> n \<noteq> ''ctrl+c'') ss ns"
proof (induction ss arbitrary: ns)
  case Nil
  then show ?case by auto
next
  case (Cons s ss)
  show ?case
    by (cases "normalize U s"; cases ns) (auto simp: bind_res_Inr Cons.IH)
qed

lemma add_sequence_Inr:
  "add_sequence U a seq tbl = Inr tbl' \<longleftrightarrow> seq \<noteq> [] \<and>
     (\<exists>c. canonical U a seq = Inr c \<and> \<not> (act_editing a \<and> printable (hd c)) \<and>
        (\<forall>e \<in> set (tbl (act_context a)). \<not> conflicts c e) \<and>
        tbl' = tbl(act_context a := tbl (act_context a) @ [\<lparr>en_action = act_id a, en_sequence = c\<rparr>]))"
  by (auto simp: add_sequence_def bind_res_Inr split: option.splits
      dest: find_SomeD find_NoneD)

lemma canonical_strokes:
  assumes "canonical U a seq = Inr c" and "k \<in> set c"
  shows "k \<noteq> ''ctrl+c'' \<and> (\<exists>v. normalize U v = Inr k)"
  using assms by (auto simp: canonical_Inr list_all2_conv_all_nth in_set_conv_nth)

lemma add_sequence_ok:
  assumes ok: "table_ok U cat tbl" and add: "add_sequence U a seq tbl = Inr tbl'" and a: "a \<in> set cat"
  shows "table_ok U cat tbl'"
proof -
  obtain c where ne: "seq \<noteq> []" and can: "canonical U a seq = Inr c"
    and edit: "\<not> (act_editing a \<and> printable (hd c))"
    and free: "\<forall>e \<in> set (tbl (act_context a)). \<not> conflicts c e"
    and tbl': "tbl' = tbl(act_context a := tbl (act_context a) @ [\<lparr>en_action = act_id a, en_sequence = c\<rparr>])"
    using add by (auto simp: add_sequence_Inr)
  have "c \<noteq> []" using can ne by (auto simp: canonical_Inr)
  then have "entry_ok U cat (act_context a) \<lparr>en_action = act_id a, en_sequence = c\<rparr>"
    using canonical_strokes [OF can] edit a by (auto simp: entry_ok_def)
  moreover have "\<forall>e \<in> set (tbl (act_context a)). unrelated e \<lparr>en_action = act_id a, en_sequence = c\<rparr>"
    using free by (auto simp: conflicts_def unrelated_def prefix_of_prefix)
  ultimately show ?thesis
    using ok by (auto simp: table_ok_def tbl' sorted_wrt_append)
qed

lemma add_sequences_ok:
  "table_ok U cat tbl \<Longrightarrow> add_sequences U a ss tbl = Inr tbl' \<Longrightarrow> a \<in> set cat \<Longrightarrow> table_ok U cat tbl'"
  by (induction ss arbitrary: tbl) (auto simp: bind_res_Inr dest: add_sequence_ok)

lemma compile_actions_ok:
  "table_ok U cat tbl \<Longrightarrow> compile_actions U ov as tbl = Inr tbl' \<Longrightarrow> set as \<subseteq> set cat \<Longrightarrow>
     table_ok U cat tbl'"
  by (induction as arbitrary: tbl) (auto simp: bind_res_Inr dest: add_sequences_ok)

lemma compile_keymap_InrE:
  assumes "compile_keymap U cat doc = Inr tbl"
  obtains actions contexts ov where "doc_version doc = 1"
    and "declare_actions cat (Map.empty, Map.empty) = Inr (actions, contexts)"
    and "collect_overrides actions (doc_bindings doc) Map.empty = Inr ov"
    and "compile_actions U ov cat (\<lambda>_. []) = Inr tbl"
  using assms by (auto simp: compile_keymap_def bind_res_Inr split: if_splits)

lemma compile_table_ok: "compile_keymap U cat doc = Inr tbl \<Longrightarrow> table_ok U cat tbl"
  by (erule compile_keymap_InrE, rule compile_actions_ok) (auto simp: table_ok_def)

text \<open>The table a compilation leaves behind; no bindings when it fails.\<close>

definition compiled_table :: "unicode \<Rightarrow> action list \<Rightarrow> document \<Rightarrow> table" where
  "compiled_table U cat doc = (case compile_keymap U cat doc of Inl _ \<Rightarrow> (\<lambda>_. []) | Inr tbl \<Rightarrow> tbl)"

lemma table_ok_binding_table: "table_ok U cat tbl \<Longrightarrow> binding_table tbl"
  by unfold_locales (auto simp: table_ok_def entry_ok_def)

interpretation km: binding_table "compiled_table U cat doc" for U cat doc
  by (rule table_ok_binding_table [of U cat])
     (auto simp: compiled_table_def table_ok_def [of U cat "\<lambda>_. []"] intro: compile_table_ok
       split: sum.splits)

lemma compiled_table_Inr: "compile_keymap U cat doc = Inr tbl \<Longrightarrow> tbl = compiled_table U cat doc"
  by (simp add: compiled_table_def)

subsection \<open>The functional result of compiling\<close>

abbreviation action_key :: "action \<Rightarrow> string" where
  "action_key a \<equiv> binding_id (act_context a) (act_id a)"

abbreviation binding_key :: "key_binding \<Rightarrow> string" where
  "binding_key b \<equiv> binding_id (kb_context b) (kb_action b)"

lemma binding_id_inject:
  assumes "CHR ''/'' \<notin> set c" and "CHR ''/'' \<notin> set a"
  shows "binding_id c' a' = binding_id c a \<longleftrightarrow> c' = c \<and> a' = a"
proof
  assume eq: "binding_id c' a' = binding_id c a"
  let ?n = "\<lambda>s. count_list s (CHR ''/'')"
  have "?n (binding_id x y) = ?n x + 1 + ?n y" for x y by (simp add: binding_id_def)
  with eq have "?n c' + 1 + ?n a' = ?n c + 1 + ?n a" by metis
  moreover have "?n c = 0" "?n a = 0" using assms by (simp_all add: count_list_0_iff)
  ultimately have "?n c' = 0" by simp
  then have "CHR ''/'' \<notin> set c'" by (simp add: count_list_0_iff)
  then have "cut CHR ''/'' (binding_id c' a') = (c', a', True)"
    using cut_append by (simp add: binding_id_def)
  moreover have "cut CHR ''/'' (binding_id c a) = (c, a, True)"
    using cut_append assms(1) by (simp add: binding_id_def)
  ultimately have "(c', a', True) = (c, a, True)" by (metis eq)
  then show "c' = c \<and> a' = a" by simp
qed simp

lemma declare_actions_Inr:
  assumes "declare_actions as (A, C) = Inr (A', C')"
  shows "(\<forall>a \<in> set as. semantic_id (act_id a) \<and> semantic_id (act_context a) \<and> act_label a \<noteq> [])"
    and "dom A' = dom A \<union> action_key ` set as"
    and "distinct (map action_key as) \<and> action_key ` set as \<inter> dom A = {}"
    and "C \<subseteq>\<^sub>m C' \<and> (\<forall>a \<in> set as. C' (act_context a) = Some (act_editing a))"
proof (atomize (full), use assms in \<open>induction as arbitrary: A C\<close>)
  case Nil
  then show ?case by simp
next
  case (Cons a as)
  let ?k = "action_key a"
  have hd: "semantic_id (act_id a)" "semantic_id (act_context a)" "A ?k = None" "act_label a \<noteq> []"
      "C (act_context a) \<noteq> Some (\<not> act_editing a)"
    and rest: "declare_actions as (A(?k \<mapsto> a), C(act_context a \<mapsto> act_editing a)) = Inr (A', C')"
    using Cons.prems by (auto simp: Let_def split: if_splits)
  note IH = Cons.IH [OF rest]
  have "C \<subseteq>\<^sub>m C(act_context a \<mapsto> act_editing a)"
    using hd(5) by (cases "C (act_context a)") (auto simp: map_le_def)
  moreover have "C(act_context a \<mapsto> act_editing a) \<subseteq>\<^sub>m C'" using IH by blast
  ultimately have "C \<subseteq>\<^sub>m C'" by (rule map_le_trans)
  moreover have "C' (act_context a) = Some (act_editing a)"
    using IH by (auto simp: map_le_def dest: bspec [where x = "act_context a"])
  ultimately show ?case using IH hd by auto
qed

lemma collect_overrides_Inr:
  assumes "collect_overrides A bs ov = Inr ov'"
  shows "(\<forall>b \<in> set bs. binding_key b \<in> dom A) \<and> distinct (map binding_key bs) \<and>
    binding_key ` set bs \<inter> dom ov = {} \<and>
    (\<forall>id. ov' id = (case find (\<lambda>b. binding_key b = id) bs of
        Some b \<Rightarrow> Some (kb_sequences b) | None \<Rightarrow> ov id))"
  using assms
proof (induction bs arbitrary: ov)
  case Nil
  then show ?case by simp
next
  case (Cons b bs)
  let ?k = "binding_key b"
  have hd: "A ?k \<noteq> None" "ov ?k = None"
    and rest: "collect_overrides A bs (ov(?k \<mapsto> kb_sequences b)) = Inr ov'"
    using Cons.prems by (auto simp: Let_def split: if_splits)
  note IH = Cons.IH [OF rest]
  have "find (\<lambda>x. binding_key x = ?k) bs = None"
    using IH by (auto simp: find_None_iff)
  with IH hd show ?case by (auto split: option.splits)
qed

text \<open>The sequences a document gives an action: its own binding, or the default ones.\<close>

definition document_sequences :: "document \<Rightarrow> action \<Rightarrow> sequence list" where
  "document_sequences doc a =
     (case find (\<lambda>b. kb_context b = act_context a \<and> kb_action b = act_id a) (doc_bindings doc) of
        Some b \<Rightarrow> kb_sequences b | None \<Rightarrow> act_defaults a)"

definition canonical_entry :: "unicode \<Rightarrow> action \<Rightarrow> sequence \<Rightarrow> entry" where
  "canonical_entry U a s = \<lparr>en_action = act_id a, en_sequence = map (\<lambda>k. projr (normalize U k)) s\<rparr>"

definition document_entries :: "unicode \<Rightarrow> action list \<Rightarrow> document \<Rightarrow> string \<Rightarrow> entry list" where
  "document_entries U cat doc c =
     concat (map (\<lambda>a. map (canonical_entry U a) (document_sequences doc a))
       (filter (\<lambda>a. act_context a = c) cat))"

lemma canonical_map: "canonical U a ss = Inr ns \<Longrightarrow> ns = map (\<lambda>k. projr (normalize U k)) ss"
  by (auto simp: canonical_Inr list_all2_conv_all_nth intro!: nth_equalityI)

lemma add_sequences_result:
  "add_sequences U a ss tbl = Inr tbl' \<Longrightarrow>
     tbl' = tbl(act_context a := tbl (act_context a) @ map (canonical_entry U a) ss)"
proof (induction ss arbitrary: tbl)
  case Nil
  then show ?case by simp
next
  case (Cons s ss)
  then obtain t where t: "add_sequence U a s tbl = Inr t" "add_sequences U a ss t = Inr tbl'"
    by (auto simp: bind_res_Inr)
  then have "t = tbl(act_context a := tbl (act_context a) @ [canonical_entry U a s])"
    by (auto simp: add_sequence_Inr canonical_entry_def dest: canonical_map)
  with Cons.IH [OF t(2)] show ?case by (auto simp: fun_eq_iff)
qed

lemma compile_actions_result:
  "compile_actions U ov as tbl = Inr tbl' \<Longrightarrow>
     tbl' c = tbl c @ concat (map (\<lambda>a. map (canonical_entry U a) (effective_sequences ov a))
       (filter (\<lambda>a. act_context a = c) as))"
proof (induction as arbitrary: tbl)
  case Nil
  then show ?case by simp
next
  case (Cons a as)
  then obtain t where t: "add_sequences U a (effective_sequences ov a) tbl = Inr t"
      "compile_actions U ov as t = Inr tbl'"
    by (auto simp: bind_res_Inr)
  with Cons.IH [OF t(2)] add_sequences_result [OF t(1)] show ?case by simp
qed

lemma overrides_of_document:
  assumes decl: "declare_actions cat (Map.empty, Map.empty) = Inr (A, C)"
    and ov: "collect_overrides A (doc_bindings doc) Map.empty = Inr ov"
    and a: "a \<in> set cat"
  shows "effective_sequences ov a = document_sequences doc a"
proof -
  have "CHR ''/'' \<notin> set (act_context a)" "CHR ''/'' \<notin> set (act_id a)"
    using declare_actions_Inr(1) [OF decl] a semantic_id_no_slash by blast+
  then have "(\<lambda>b. binding_key b = action_key a) =
      (\<lambda>b. kb_context b = act_context a \<and> kb_action b = act_id a)"
    by (simp add: binding_id_inject fun_eq_iff)
  with collect_overrides_Inr [OF ov] show ?thesis
    by (auto simp: effective_sequences_def document_sequences_def split: option.splits)
qed

lemma compile_keymap_result:
  assumes "compile_keymap U cat doc = Inr tbl"
  shows "tbl c = document_entries U cat doc c"
proof -
  from assms obtain A C ov where decl: "declare_actions cat (Map.empty, Map.empty) = Inr (A, C)"
    and ov: "collect_overrides A (doc_bindings doc) Map.empty = Inr ov"
    and comp: "compile_actions U ov cat (\<lambda>_. []) = Inr tbl"
    by (rule compile_keymap_InrE)
  have "map (\<lambda>a. map (canonical_entry U a) (effective_sequences ov a)) (filter (\<lambda>a. act_context a = c) cat)
      = map (\<lambda>a. map (canonical_entry U a) (document_sequences doc a)) (filter (\<lambda>a. act_context a = c) cat)"
    using overrides_of_document [OF decl ov] by auto
  with compile_actions_result [OF comp, of c] show ?thesis
    by (simp add: document_entries_def)
qed

end
