(* ===== verification/KeymapDispatch.thy ===== *)
theory KeymapDispatch
  imports KeymapLaws
begin

text \<open>
  The keymap runtime in operation: the invariant \<open>runtime_ok\<close> (bindings compiled from
  the current document, a pending prefix always a proper prefix of a bound sequence of
  the current context, a deadline exactly while a prefix is pending), its preservation
  by every operation, and the behaviour of typed strokes.
\<close>

definition pending_ok :: "keymap_runtime \<Rightarrow> bool" where
  "pending_ok r \<longleftrightarrow> (rt_prefix r = [] \<longleftrightarrow> rt_deadline r = None) \<and>
     (rt_prefix r \<noteq> [] \<longrightarrow> (\<exists>e \<in> set (rt_bindings r (ctx_id (rt_context r))).
        strict_prefix (rt_prefix r) (en_sequence e)))"

definition runtime_ok :: "unicode \<Rightarrow> keymap_runtime \<Rightarrow> bool" where
  "runtime_ok U r \<longleftrightarrow>
     compile_keymap U (rt_catalog r) (rt_document r) = Inr (rt_bindings r) \<and> pending_ok r"

lemma cancel_fields [simp]:
  "rt_catalog (cancel r) = rt_catalog r" "rt_bindings (cancel r) = rt_bindings r"
  "rt_document (cancel r) = rt_document r" "rt_context (cancel r) = rt_context r"
  "rt_prefix (cancel r) = []" "rt_deadline (cancel r) = None"
  by (simp_all add: cancel_def)

lemma sync_fields [simp]:
  "rt_catalog (sync r c now) = rt_catalog r" "rt_bindings (sync r c now) = rt_bindings r"
  "rt_document (sync r c now) = rt_document r" "rt_context (sync r c now) = c"
  by (simp_all add: sync_def Let_def)

lemma sync_same: "rt_context r = c \<Longrightarrow> \<not> expired r now \<Longrightarrow> sync r c now = r"
  by (simp add: sync_def)

lemma cancel_ok: "runtime_ok U r \<Longrightarrow> runtime_ok U (cancel r)"
  by (simp add: runtime_ok_def pending_ok_def)

lemma sync_ok: "runtime_ok U r \<Longrightarrow> runtime_ok U (sync r c now)"
  by (auto simp: runtime_ok_def pending_ok_def sync_def Let_def)

lemma apply_ok: "runtime_ok U r \<Longrightarrow> runtime_ok U (snd (apply_document U r doc))"
  by (auto simp: apply_document_def runtime_ok_def pending_ok_def split: sum.splits)

lemma runtime_ok_table: "runtime_ok U r \<Longrightarrow> binding_table (rt_bindings r)"
  unfolding runtime_ok_def using compiled_table_Inr km.binding_table_axioms by metis

lemma step_attempts_ok:
  "runtime_ok U r \<Longrightarrow> rt_context r = c \<Longrightarrow> step_attempts n r c k now = (a, used, r') \<Longrightarrow>
     runtime_ok U r' \<and> rt_context r' = c"
proof (induction n r c k now arbitrary: a used r' rule: step_attempts.induct)
  case (1 r c k now)
  then show ?case by simp
next
  case (2 n r c k now)
  let ?s = "rt_prefix r @ [k]"
  show ?case
  proof (cases "find (\<lambda>e. prefix_of ?s (en_sequence e)) (rt_bindings r (ctx_id c))")
    case None
    with 2 cancel_ok show ?thesis by (auto simp: Let_def split: if_splits)
  next
    case (Some e)
    then have e: "e \<in> set (rt_bindings r (ctx_id c))" "prefix ?s (en_sequence e)"
      by (auto dest: find_SomeD simp: prefix_of_prefix)
    show ?thesis
    proof (cases "length ?s = length (en_sequence e)")
      case True
      with Some 2 cancel_ok show ?thesis by (auto simp: Let_def)
    next
      case False
      then have "strict_prefix ?s (en_sequence e)"
        using e(2) unfolding strict_prefix_def by metis
      with e(1) False Some 2 show ?thesis
        by (auto simp: Let_def runtime_ok_def pending_ok_def)
    qed
  qed
qed

lemma step_key_ok: "runtime_ok U r \<Longrightarrow> runtime_ok U (snd (snd (step_key r c k now)))"
  using step_attempts_ok [OF sync_ok [of U r c now], of c]
  by (cases "step_key r c k now") (auto simp: step_key_def)

subsection \<open>Operations as events\<close>

datatype keymap_op = OpApply document | OpSync context_state int | OpStep context_state stroke int | OpCancel

fun keymap_run :: "unicode \<Rightarrow> keymap_runtime \<Rightarrow> keymap_op \<Rightarrow> keymap_runtime" where
  "keymap_run U r (OpApply doc) = snd (apply_document U r doc)"
| "keymap_run U r (OpSync c now) = sync r c now"
| "keymap_run U r (OpStep c k now) = snd (snd (step_key r c k now))"
| "keymap_run U r OpCancel = cancel r"

interpretation kmachine: machine "keymap_run U" "runtime_ok U" for U
proof unfold_locales
  fix r op
  assume "runtime_ok U r"
  then show "runtime_ok U (keymap_run U r op)"
    by (cases op) (auto intro: apply_ok sync_ok step_key_ok cancel_ok)
qed

lemma new_runtime_ok: "new_runtime U cat = Inr r \<Longrightarrow> runtime_ok U r \<and> rt_catalog r = cat"
  by (auto simp: new_runtime_def apply_document_def runtime_ok_def pending_ok_def cancel_def
      Let_def split: sum.splits option.splits)

lemma new_runtime_fields:
  assumes "new_runtime U cat = Inr r"
  shows "rt_prefix r = []" "rt_document r = \<lparr>doc_version = 1, doc_bindings = []\<rparr>" "rt_context r = zero_context"
  using assms
  by (auto simp: new_runtime_def apply_document_def cancel_def Let_def split: sum.splits option.splits)

lemma runtime_bindings:
  "runtime_ok U r \<Longrightarrow> rt_bindings r c = document_entries U (rt_catalog r) (rt_document r) c"
  by (auto simp: runtime_ok_def intro: compile_keymap_result)

subsection \<open>Typing a bound sequence\<close>

fun press_all :: "keymap_runtime \<Rightarrow> context_state \<Rightarrow> (stroke \<times> int) list \<Rightarrow>
    (string \<times> bool) list \<times> keymap_runtime" where
  "press_all r c [] = ([], r)"
| "press_all r c ((k, now) # ks) =
     (let (a, used, r') = step_key r c k now; (out, r'') = press_all r' c ks in ((a, used) # out, r''))"

fun timely :: "int list \<Rightarrow> bool" where
  "timely [] = True"
| "timely [t] = True"
| "timely (t # u # ts) = (u < t + timeout \<and> timely (u # ts))"

lemma step_key_partial:
  assumes ok: "runtime_ok U r" and ctx: "rt_context r = c" and live: "\<not> expired r now"
    and e: "e \<in> set (rt_bindings r (ctx_id c))"
    and seq: "rt_prefix r @ [k] = take n (en_sequence e)" and n: "n < length (en_sequence e)"
  shows "step_key r c k now =
    ([], True, r\<lparr>rt_prefix := rt_prefix r @ [k], rt_deadline := Some (now + timeout)\<rparr>)"
proof -
  obtain d where d: "find (\<lambda>d. prefix_of (take n (en_sequence e)) (en_sequence d))
      (rt_bindings r (ctx_id c)) = Some d" "length (en_sequence d) > n"
    using binding_table.lookup_partial [OF runtime_ok_table [OF ok] e n] by blast
  have "length (rt_prefix r @ [k]) = n" using seq n by simp
  with d show ?thesis
    by (simp add: step_key_def sync_same [OF ctx live] numeral_2_eq_2 Let_def seq [symmetric])
qed

lemma step_key_complete:
  assumes ok: "runtime_ok U r" and ctx: "rt_context r = c" and live: "\<not> expired r now"
    and e: "e \<in> set (rt_bindings r (ctx_id c))" and seq: "rt_prefix r @ [k] = en_sequence e"
  shows "step_key r c k now = (en_action e, True, cancel r)"
proof -
  have "find (\<lambda>d. prefix_of (rt_prefix r @ [k]) (en_sequence d)) (rt_bindings r (ctx_id c)) = Some e"
    using binding_table.lookup_full [OF runtime_ok_table [OF ok] e] by (simp add: seq)
  with seq show ?thesis
    by (simp add: step_key_def sync_same [OF ctx live] numeral_2_eq_2 Let_def)
qed

lemma press_from_prefix:
  assumes "runtime_ok U r" and "rt_context r = c"
    and "e \<in> set (rt_bindings r (ctx_id c))"
    and "rt_prefix r @ map fst ks = en_sequence e" and "ks \<noteq> []"
    and "timely (map snd ks)" and "\<not> expired r (snd (hd ks))"
  shows "fst (press_all r c ks) = replicate (length ks - 1) ([], True) @ [(en_action e, True)] \<and>
    rt_prefix (snd (press_all r c ks)) = []"
  using assms
proof (induction ks arbitrary: r)
  case Nil
  then show ?case by simp
next
  case (Cons kt ks)
  obtain k now where kt: "kt = (k, now)" by fastforce
  show ?case
  proof (cases "ks = []")
    case True
    with Cons.prems kt have "step_key r c k now = (en_action e, True, cancel r)"
      by (intro step_key_complete) auto
    with True kt show ?thesis by simp
  next
    case False
    let ?n = "length (rt_prefix r) + 1"
    let ?r = "r\<lparr>rt_prefix := rt_prefix r @ [k], rt_deadline := Some (now + timeout)\<rparr>"
    have seq: "en_sequence e = (rt_prefix r @ [k]) @ map fst ks" using Cons.prems(4) kt by simp
    have "step_key r c k now = ([], True, ?r)"
      using Cons.prems kt seq False by (intro step_key_partial [where n = ?n]) auto
    moreover have "runtime_ok U ?r"
      using step_key_ok [OF Cons.prems(1), of c k now] calculation by simp
    moreover obtain k' t' ks' where ks: "ks = (k', t') # ks'" using False by (cases ks) auto
    moreover have "t' < now + timeout" "timely (map snd ks)"
      using Cons.prems(6) kt ks by auto
    ultimately have "fst (press_all ?r c ks) = replicate (length ks - 1) ([], True) @ [(en_action e, True)] \<and>
        rt_prefix (snd (press_all ?r c ks)) = []"
      using Cons.IH [of ?r] Cons.prems seq by (simp add: expired_def)
    with \<open>step_key r c k now = ([], True, ?r)\<close> kt ks show ?thesis
      by (auto simp: split_beta Let_def)
  qed
qed

subsection \<open>Mismatches and continuations\<close>

lemma step_key_retry:
  assumes "rt_context r = c" and "\<not> expired r now" and "rt_prefix r \<noteq> []"
    and "\<forall>e \<in> set (rt_bindings r (ctx_id c)). \<not> prefix (rt_prefix r @ [k]) (en_sequence e)"
  shows "step_key r c k now = step_key (cancel r) c k now"
proof -
  have "find (\<lambda>e. prefix_of (rt_prefix r @ [k]) (en_sequence e)) (rt_bindings r (ctx_id c)) = None"
    using assms(4) by (auto simp: find_None_iff prefix_of_prefix)
  moreover have "sync (cancel r) c now = cancel r"
    using assms(1) by (simp add: sync_same expired_def)
  ultimately show ?thesis
    using assms(3) by (simp add: step_key_def sync_same [OF assms(1,2)] numeral_2_eq_2 Let_def split: option.splits)
qed

lemma prefix_snoc_nth:
  "prefix (p @ [k]) s \<longleftrightarrow> prefix p s \<and> length p < length s \<and> s ! length p = k"
proof
  assume "prefix p s \<and> length p < length s \<and> s ! length p = k"
  then obtain zs where "s = p @ zs" "zs \<noteq> []" "zs ! 0 = k"
    by (auto simp: prefix_def nth_append)
  then show "prefix (p @ [k]) s" by (cases zs) (auto simp: prefix_def)
qed (auto simp: prefix_def nth_append)

lemma set_continuations:
  "rt_prefix r \<noteq> [] \<Longrightarrow> k \<in> set (continuations r) \<longleftrightarrow>
     (\<exists>e \<in> set (rt_bindings r (ctx_id (rt_context r))). prefix (rt_prefix r @ [k]) (en_sequence e))"
  by (auto simp: continuations_def prefix_of_prefix prefix_snoc_nth image_iff)

subsection \<open>Properties\<close>

definition sample_catalog :: "action list" where
  "sample_catalog =
     [\<lparr>act_id = ''open'', act_label = ''Open'', act_context = ''main'', act_editing = False,
       act_quick = True, act_defaults = [[''o''], [''Ctrl+X'', ''esc'']]\<rparr>,
      \<lparr>act_id = ''quit'', act_label = ''Quit'', act_context = ''main'', act_editing = False,
       act_quick = True, act_defaults = [[''q''], [''ctrl+x'', ''q'']]\<rparr>,
      \<lparr>act_id = ''save'', act_label = ''Save'', act_context = ''text'', act_editing = True,
       act_quick = False, act_defaults = [[''ctrl+s'']]\<rparr>]"

definition sample_document :: document where
  "sample_document = \<lparr>doc_version = 1, doc_bindings =
     [\<lparr>kb_context = ''main'', kb_action = ''quit'', kb_sequences = [[''alt+q'']]\<rparr>]\<rparr>"

lemma not_isl_Inr: "\<not> isl x \<Longrightarrow> \<exists>y. x = Inr y"
  by (cases x) auto

text \<open>C15: a keymap that compiles has, in every context, only non-empty sequences of canonical
  strokes other than the reserved \<open>ctrl+c\<close>, each bound to a declared action of that
  context, none of them a prefix of another, and none starting with a printable stroke
  where the action edits text.\<close>

theorem compiled_keymap_unambiguous:
  assumes "compile_keymap U cat doc = Inr tbl"
  shows "sorted_wrt unrelated (tbl c) \<and> (\<forall>e \<in> set (tbl c). entry_ok U cat c e)"
  using compile_table_ok [OF assms] by (simp add: table_ok_def)

theorem compiled_keymap_unambiguous_witness:
  "\<exists>tbl. compile_keymap ascii_tables sample_catalog sample_document = Inr tbl \<and>
     sorted_wrt unrelated (tbl ''main'') \<and>
     (\<forall>e \<in> set (tbl ''main''). entry_ok ascii_tables sample_catalog ''main'' e)"
proof -
  have "\<not> isl (compile_keymap ascii_tables sample_catalog sample_document)" by code_simp
  then obtain tbl where "compile_keymap ascii_tables sample_catalog sample_document = Inr tbl"
    using not_isl_Inr by blast
  with compiled_keymap_unambiguous [OF this, of "''main''"] show ?thesis by blast
qed

text \<open>C16: the compiled table is, context by context and in catalogue order, the canonical form of
  the sequences the document binds to each action, or of its defaults where the document
  has no binding for it.\<close>

theorem compiled_keymap_entries:
  assumes "compile_keymap U cat doc = Inr tbl"
  shows "tbl c = document_entries U cat doc c"
  using assms by (rule compile_keymap_result)

theorem compiled_keymap_entries_witness:
  "\<exists>tbl. compile_keymap ascii_tables sample_catalog sample_document = Inr tbl \<and>
     tbl ''main'' = [\<lparr>en_action = ''open'', en_sequence = [''o'']\<rparr>,
       \<lparr>en_action = ''open'', en_sequence = [''ctrl+x'', ''escape'']\<rparr>,
       \<lparr>en_action = ''quit'', en_sequence = [''alt+q'']\<rparr>]"
proof -
  have "\<not> isl (compile_keymap ascii_tables sample_catalog sample_document)" by code_simp
  then obtain tbl where t: "compile_keymap ascii_tables sample_catalog sample_document = Inr tbl"
    using not_isl_Inr by blast
  moreover have "document_entries ascii_tables sample_catalog sample_document ''main'' =
      [\<lparr>en_action = ''open'', en_sequence = [''o'']\<rparr>,
       \<lparr>en_action = ''open'', en_sequence = [''ctrl+x'', ''escape'']\<rparr>,
       \<lparr>en_action = ''quit'', en_sequence = [''alt+q'']\<rparr>]" by code_simp
  ultimately show ?thesis using compiled_keymap_entries [OF t, of "''main''"] by auto
qed

text \<open>C17: every bound sequence is reachable by typing it: from a runtime with no pending prefix,
  strokes that follow each other within the timeout are all consumed, produce no action
  before the last one, and the last one produces the bound action and clears the prefix.\<close>

theorem typed_sequence_dispatches:
  assumes "runtime_ok U r" and "rt_context r = c" and "rt_prefix r = []"
    and "e \<in> set (rt_bindings r (ctx_id c))" and "map fst ks = en_sequence e"
    and "timely (map snd ks)"
  shows "fst (press_all r c ks) = replicate (length ks - 1) ([], True) @ [(en_action e, True)] \<and>
    rt_prefix (snd (press_all r c ks)) = []"
proof (rule press_from_prefix [OF assms(1,2,4)])
  show "rt_prefix r @ map fst ks = en_sequence e" using assms(3,5) by simp
  have "en_sequence e \<noteq> []"
    using binding_table.nonempty [OF runtime_ok_table [OF assms(1)] assms(4)] .
  with assms(5) show "ks \<noteq> []" by auto
  show "timely (map snd ks)" by (rule assms(6))
  show "\<not> expired r (snd (hd ks))"
    using assms(1,3) by (auto simp: runtime_ok_def pending_ok_def expired_def)
qed

definition sample_context :: context_state where
  "sample_context = \<lparr>ctx_id = ''main'', ctx_editing = False, ctx_target = []\<rparr>"

lemma sample_runtime:
  "\<exists>r. runtime_ok ascii_tables r \<and> rt_context r = sample_context \<and> rt_prefix r = [] \<and>
     rt_bindings r ''main'' = [\<lparr>en_action = ''open'', en_sequence = [''o'']\<rparr>,
       \<lparr>en_action = ''open'', en_sequence = [''ctrl+x'', ''escape'']\<rparr>,
       \<lparr>en_action = ''quit'', en_sequence = [''q'']\<rparr>,
       \<lparr>en_action = ''quit'', en_sequence = [''ctrl+x'', ''q'']\<rparr>]"
proof -
  have "\<not> isl (new_runtime ascii_tables sample_catalog)" by code_simp
  then obtain r where r: "new_runtime ascii_tables sample_catalog = Inr r" using not_isl_Inr by blast
  let ?r = "sync r sample_context 0"
  have ok: "runtime_ok ascii_tables ?r" using new_runtime_ok [OF r] sync_ok by blast
  have "document_entries ascii_tables sample_catalog \<lparr>doc_version = 1, doc_bindings = []\<rparr> ''main'' =
      [\<lparr>en_action = ''open'', en_sequence = [''o'']\<rparr>,
       \<lparr>en_action = ''open'', en_sequence = [''ctrl+x'', ''escape'']\<rparr>,
       \<lparr>en_action = ''quit'', en_sequence = [''q'']\<rparr>,
       \<lparr>en_action = ''quit'', en_sequence = [''ctrl+x'', ''q'']\<rparr>]" by code_simp
  with runtime_bindings [OF ok, of "''main''"] new_runtime_ok [OF r] new_runtime_fields [OF r] ok
  show ?thesis by (intro exI [of _ ?r]) (auto simp: sync_def Let_def)
qed

theorem typed_sequence_dispatches_witness:
  "\<exists>r. rt_context r = sample_context \<and>
     fst (press_all r sample_context [(''ctrl+x'', 5), (''q'', 999999999)]) =
       [([], True), (''quit'', True)]"
proof -
  obtain r where r: "runtime_ok ascii_tables r" "rt_context r = sample_context" "rt_prefix r = []"
    "rt_bindings r ''main'' = [\<lparr>en_action = ''open'', en_sequence = [''o'']\<rparr>,
       \<lparr>en_action = ''open'', en_sequence = [''ctrl+x'', ''escape'']\<rparr>,
       \<lparr>en_action = ''quit'', en_sequence = [''q'']\<rparr>,
       \<lparr>en_action = ''quit'', en_sequence = [''ctrl+x'', ''q'']\<rparr>]"
    using sample_runtime by blast
  have "fst (press_all r sample_context [(''ctrl+x'', 5), (''q'', 999999999)]) =
      replicate (length [(''ctrl+x'', 5::int), (''q'', 999999999)] - 1) ([], True) @ [(''quit'', True)]"
    using typed_sequence_dispatches [OF r(1-3),
        of "\<lparr>en_action = ''quit'', en_sequence = [''ctrl+x'', ''q'']\<rparr>" "[(''ctrl+x'', 5), (''q'', 999999999)]"] r(4)
    by (simp add: sample_context_def timeout_def)
  with r(2) show ?thesis by auto
qed

text \<open>C18: whatever documents are applied, contexts synchronised and strokes typed, a runtime made
  by \<open>New\<close> always holds the bindings its document compiles to, and its pending prefix is
  always a proper prefix of a sequence bound in the current context, with a deadline
  exactly while it is pending.\<close>

theorem keymap_runtime_invariant:
  assumes "new_runtime U cat = Inr r"
  shows "runtime_ok U (foldl (keymap_run U) r ops)"
  using kmachine.run_good new_runtime_ok [OF assms] by blast

theorem keymap_runtime_invariant_witness:
  "\<exists>r. new_runtime ascii_tables sample_catalog = Inr r \<and>
     runtime_ok ascii_tables (foldl (keymap_run ascii_tables) r
       [OpSync sample_context 0, OpStep sample_context ''ctrl+x'' 1, OpApply sample_document,
        OpStep sample_context ''alt+q'' 2])"
proof -
  have "\<not> isl (new_runtime ascii_tables sample_catalog)" by code_simp
  then obtain r where r: "new_runtime ascii_tables sample_catalog = Inr r" using not_isl_Inr by blast
  show ?thesis using keymap_runtime_invariant [OF r] r by blast
qed

text \<open>A stroke that no binding accepts after the pending prefix is resolved exactly as if no
  prefix had been pending: the consumed prefix is dropped and never replayed.\<close>

theorem mismatch_retries_only_the_stroke:
  assumes "rt_context r = c" and "\<not> expired r now" and "rt_prefix r \<noteq> []"
    and "\<forall>e \<in> set (rt_bindings r (ctx_id c)). \<not> prefix (rt_prefix r @ [k]) (en_sequence e)"
  shows "step_key r c k now = step_key (cancel r) c k now"
  using assms by (rule step_key_retry)

definition pending_runtime :: keymap_runtime where
  "pending_runtime = \<lparr>rt_catalog = [],
     rt_bindings = (\<lambda>_. [\<lparr>en_action = ''top'', en_sequence = [''g'', ''g'']\<rparr>,
                        \<lparr>en_action = ''open'', en_sequence = [''o'']\<rparr>]),
     rt_document = sample_document, rt_prefix = [''g''], rt_context = sample_context,
     rt_deadline = Some 100\<rparr>"

theorem mismatch_retries_only_the_stroke_witness:
  "fst (step_key pending_runtime sample_context ''o'' 50) = ''open'' \<and>
   step_key pending_runtime sample_context ''o'' 50 = step_key (cancel pending_runtime) sample_context ''o'' 50"
proof
  show "step_key pending_runtime sample_context ''o'' 50 = step_key (cancel pending_runtime) sample_context ''o'' 50"
    by (rule mismatch_retries_only_the_stroke)
      (auto simp: pending_runtime_def expired_def sample_context_def)
qed (simp add: step_key_def sync_def expired_def pending_runtime_def numeral_2_eq_2 Let_def)

text \<open>The continuations offered for a pending prefix are sorted, free of duplicates, and are
  exactly the strokes after which some bound sequence of the context still matches.\<close>

theorem continuations_exact:
  assumes "rt_prefix r \<noteq> []"
  shows "sorted (continuations r) \<and> distinct (continuations r) \<and>
    (\<forall>k. k \<in> set (continuations r) \<longleftrightarrow>
      (\<exists>e \<in> set (rt_bindings r (ctx_id (rt_context r))). prefix (rt_prefix r @ [k]) (en_sequence e)))"
  using set_continuations [OF assms] by (simp add: continuations_def)

theorem continuations_exact_witness:
  "continuations pending_runtime = [''g''] \<and> ''g'' \<in> set (continuations pending_runtime)"
proof -
  have ne: "rt_prefix pending_runtime \<noteq> []" by (simp add: pending_runtime_def)
  have "''g'' \<in> set (continuations pending_runtime)"
    using continuations_exact [OF ne] by (simp add: pending_runtime_def)
  then show ?thesis by (simp add: continuations_def pending_runtime_def sample_context_def)
qed

end
