(* ===== verification/Manifest.thy ===== *)
theory Manifest
  imports Identifiers "HOL-Library.Word"
begin

text \<open>
  The plugin manifest and its validation (manifest/manifest.go).  A nil slice is
  \<^const>\<open>None\<close> where the source distinguishes it from an empty one.  \<open>validate_manifest\<close>
  follows \<open>Manifest.Validate\<close> check by check; \<open>manifest_ok\<close> is the declarative reading,
  and the two are proved equal.  Reading and decoding the JSON text is not modelled.
\<close>

definition max_args :: nat where "max_args = 128"
definition max_capabilities :: nat where "max_capabilities = 64"
definition max_interfaces :: nat where "max_interfaces = 64"
definition max_actions :: nat where "max_actions = 128"
definition max_events :: nat where "max_events = 128"

record manifest_action =
  ma_id :: string
  ma_title :: string
  ma_description :: string
  ma_contexts :: "string list option"
  ma_command :: "string list option"

record event_hook =
  eh_on :: string
  eh_command :: "string list"

record interface =
  if_id :: string
  if_version :: "32 word"
  if_direction :: string

record manifest =
  mf_plugin_id :: string
  mf_name :: string
  mf_version :: string
  mf_description :: string
  mf_executable :: string
  mf_args :: "string list"
  mf_capabilities :: "string list"
  mf_actions :: "manifest_action list"
  mf_events :: "event_hook list"
  mf_interfaces :: "interface list"

datatype manifest_error =
    BadID id_error
  | BadDisplay string bool nat
  | BadExecutable
  | TooMany string nat
  | BadArgument string nat
  | Duplicate string string
  | At string nat manifest_error
  | BadContextCount
  | UnsupportedContext string
  | EmptyCommand string
  | EmptyCommandExecutable string
  | UnsupportedEvent string
  | ZeroVersion
  | BadDirection string

definition event_hook_names :: "string list" where
  "event_hook_names =
    [''workspace.created'', ''workspace.updated'', ''workspace.closed'', ''workspace.renamed'',
     ''workspace.moved'', ''workspace.reordered'', ''workspace.focused'', ''worktree.created'',
     ''worktree.opened'', ''worktree.removed'', ''tab.created'', ''tab.closed'', ''tab.renamed'',
     ''tab.moved'', ''tab.focused'', ''pane.created'', ''pane.closed'', ''pane.focused'',
     ''pane.moved'', ''pane.exited'', ''pane.agent_detected'', ''pane.agent_status_changed'']"

definition wrap :: "string \<Rightarrow> nat \<Rightarrow> manifest_error option \<Rightarrow> manifest_error option" where
  "wrap field i = map_option (At field i)"

lemma wrap_None [check_simps]: "wrap f i e = None \<longleftrightarrow> e = None"
  by (simp add: wrap_def)

definition valid_id :: "string \<Rightarrow> string \<Rightarrow> manifest_error option" where
  "valid_id field v = map_option BadID (validate_id field v)"

lemma valid_id_None [check_simps]: "valid_id f v = None \<longleftrightarrow> v \<noteq> [] \<and> length v \<le> 64 \<and> stable_lang v"
  by (simp add: valid_id_def validate_id_None)

definition display :: "unicode \<Rightarrow> string \<Rightarrow> string \<Rightarrow> nat \<Rightarrow> bool \<Rightarrow> manifest_error option" where
  "display U field v limit required =
     guard_err ((required \<and> trim_space U v = []) \<or> length v > limit \<or> contains_char nul v)
       (BadDisplay field required limit)"

definition valid_argument :: "string \<Rightarrow> bool" where
  "valid_argument a \<longleftrightarrow> \<not> (length a > 4096 \<or> contains_char nul a)"

definition validate_args :: "string \<Rightarrow> string list \<Rightarrow> manifest_error option" where
  "validate_args field args =
     check_each (\<lambda>i a. guard_err (\<not> valid_argument a) (BadArgument field i)) 0 args"

lemma validate_args_None [check_simps]: "validate_args f as = None \<longleftrightarrow> (\<forall>a \<in> set as. valid_argument a)"
  by (auto simp: validate_args_def check_each_None guard_err_None all_set_conv_all_nth)

definition validate_contexts :: "string list \<Rightarrow> manifest_error option" where
  "validate_contexts cs =
     first_err (guard_err (length cs = 0 \<or> length cs > 4) BadContextCount)
       (check_unique
          (\<lambda>_ c. guard_err (c \<notin> {''global'', ''workspace'', ''tab'', ''pane''}) (UnsupportedContext c))
          id (\<lambda>c. Duplicate ''action context'' c) (\<lambda>_ _. None) 0 {} cs)"

definition validate_command :: "string \<Rightarrow> string list \<Rightarrow> manifest_error option" where
  "validate_command field cmd =
     first_err (guard_err (length cmd = 0) (EmptyCommand field))
      (first_err (guard_err (length cmd > max_args) (TooMany field max_args))
        (first_err (guard_err (hd cmd = []) (EmptyCommandExecutable field))
          (validate_args field cmd)))"

definition unique_ids :: "string \<Rightarrow> string list \<Rightarrow> manifest_error option" where
  "unique_ids field vs =
     check_unique (\<lambda>i v. wrap field i (valid_id field v)) id (Duplicate field) (\<lambda>_ _. None) 0 {} vs"

definition validate_actions :: "unicode \<Rightarrow> manifest_action list \<Rightarrow> manifest_error option" where
  "validate_actions U as =
     check_unique (\<lambda>i a. wrap ''actions'' i (valid_id ''action id'' (ma_id a)))
       ma_id (\<lambda>a. Duplicate ''action id'' (ma_id a))
       (\<lambda>i a. wrap ''actions'' i
          (first_err (display U ''action title'' (ma_title a) 128 True)
            (first_err (display U ''action description'' (ma_description a) 1024 False)
              (first_err (case ma_contexts a of None \<Rightarrow> None | Some cs \<Rightarrow> validate_contexts cs)
                (case ma_command a of None \<Rightarrow> None | Some cmd \<Rightarrow> validate_command ''command'' cmd)))))
       0 {} as"

definition validate_events :: "event_hook list \<Rightarrow> manifest_error option" where
  "validate_events es =
     check_unique (\<lambda>i e. guard_err (eh_on e \<notin> set event_hook_names) (At ''events'' i (UnsupportedEvent (eh_on e))))
       eh_on (\<lambda>e. Duplicate ''event hook'' (eh_on e))
       (\<lambda>i e. wrap ''events'' i (validate_command ''command'' (eh_command e))) 0 {} es"

text \<open>The duplicate key \<open>fmt.Sprintf("%s/%d/%s", id, version, direction)\<close>.\<close>

definition interface_key :: "interface \<Rightarrow> string" where
  "interface_key f = if_id f @ ''/'' @ show_nat (unat (if_version f)) @ ''/'' @ if_direction f"

definition validate_interfaces :: "interface list \<Rightarrow> manifest_error option" where
  "validate_interfaces fs =
     check_unique (\<lambda>i f. wrap ''interfaces'' i
         (first_err (valid_id ''interface id'' (if_id f))
           (first_err (guard_err (if_version f = 0) ZeroVersion)
             (guard_err (if_direction f \<noteq> ''provides'' \<and> if_direction f \<noteq> ''requires'')
               (BadDirection (if_direction f))))))
       interface_key (\<lambda>f. Duplicate ''interface declaration'' (interface_key f)) (\<lambda>_ _. None) 0 {} fs"

definition validate_manifest :: "unicode \<Rightarrow> manifest \<Rightarrow> manifest_error option" where
  "validate_manifest U m =
     first_err (valid_id ''plugin_id'' (mf_plugin_id m))
    (first_err (display U ''name'' (mf_name m) 128 True)
    (first_err (display U ''version'' (mf_version m) 64 True)
    (first_err (display U ''description'' (mf_description m) 1024 False)
    (first_err (guard_err (mf_executable m = [] \<or> length (mf_executable m) > 4096
        \<or> contains_char nul (mf_executable m)) BadExecutable)
    (first_err (guard_err (length (mf_args m) > max_args) (TooMany ''args'' max_args))
    (first_err (validate_args ''args'' (mf_args m))
    (first_err (guard_err (length (mf_capabilities m) > max_capabilities) (TooMany ''capabilities'' max_capabilities))
    (first_err (unique_ids ''capability'' (mf_capabilities m))
    (first_err (guard_err (length (mf_actions m) > max_actions) (TooMany ''actions'' max_actions))
    (first_err (validate_actions U (mf_actions m))
    (first_err (guard_err (length (mf_events m) > max_events) (TooMany ''events'' max_events))
    (first_err (validate_events (mf_events m))
    (first_err (guard_err (length (mf_interfaces m) > max_interfaces) (TooMany ''interfaces'' max_interfaces))
      (validate_interfaces (mf_interfaces m)))))))))))))))"

subsection \<open>The declarative reading\<close>

definition text_ok :: "unicode \<Rightarrow> bool \<Rightarrow> nat \<Rightarrow> string \<Rightarrow> bool" where
  "text_ok U required limit v \<longleftrightarrow>
     (required \<longrightarrow> trim_space U v \<noteq> []) \<and> length v \<le> limit \<and> nul \<notin> set v"

definition id_ok :: "string \<Rightarrow> bool" where
  "id_ok v \<longleftrightarrow> v \<noteq> [] \<and> length v \<le> 64 \<and> stable_lang v"

definition argument_ok :: "string \<Rightarrow> bool" where
  "argument_ok a \<longleftrightarrow> length a \<le> 4096 \<and> nul \<notin> set a"

definition command_ok :: "string list \<Rightarrow> bool" where
  "command_ok cmd \<longleftrightarrow> cmd \<noteq> [] \<and> length cmd \<le> 128 \<and> hd cmd \<noteq> [] \<and> (\<forall>a \<in> set cmd. argument_ok a)"

definition contexts_ok :: "string list \<Rightarrow> bool" where
  "contexts_ok cs \<longleftrightarrow> 1 \<le> length cs \<and> distinct cs \<and>
     set cs \<subseteq> {''global'', ''workspace'', ''tab'', ''pane''}"

definition action_ok :: "unicode \<Rightarrow> manifest_action \<Rightarrow> bool" where
  "action_ok U a \<longleftrightarrow> id_ok (ma_id a) \<and> text_ok U True 128 (ma_title a) \<and>
     text_ok U False 1024 (ma_description a) \<and>
     (\<forall>cs. ma_contexts a = Some cs \<longrightarrow> contexts_ok cs) \<and>
     (\<forall>cmd. ma_command a = Some cmd \<longrightarrow> command_ok cmd)"

definition interface_ok :: "interface \<Rightarrow> bool" where
  "interface_ok f \<longleftrightarrow> id_ok (if_id f) \<and> if_version f \<noteq> 0 \<and> if_direction f \<in> {''provides'', ''requires''}"

definition manifest_ok :: "unicode \<Rightarrow> manifest \<Rightarrow> bool" where
  "manifest_ok U m \<longleftrightarrow>
     id_ok (mf_plugin_id m) \<and> text_ok U True 128 (mf_name m) \<and> text_ok U True 64 (mf_version m) \<and>
     text_ok U False 1024 (mf_description m) \<and> mf_executable m \<noteq> [] \<and> argument_ok (mf_executable m) \<and>
     length (mf_args m) \<le> 128 \<and> (\<forall>a \<in> set (mf_args m). argument_ok a) \<and>
     length (mf_capabilities m) \<le> 64 \<and> distinct (mf_capabilities m) \<and> (\<forall>c \<in> set (mf_capabilities m). id_ok c) \<and>
     length (mf_actions m) \<le> 128 \<and> distinct (map ma_id (mf_actions m)) \<and> (\<forall>a \<in> set (mf_actions m). action_ok U a) \<and>
     length (mf_events m) \<le> 128 \<and> distinct (map eh_on (mf_events m)) \<and>
     (\<forall>e \<in> set (mf_events m). eh_on e \<in> set event_hook_names \<and> command_ok (eh_command e)) \<and>
     length (mf_interfaces m) \<le> 64 \<and> distinct (mf_interfaces m) \<and> (\<forall>f \<in> set (mf_interfaces m). interface_ok f)"

subsection \<open>Equivalence\<close>

lemma display_None [check_simps]: "display U f v limit req = None \<longleftrightarrow> text_ok U req limit v"
  by (auto simp: display_def text_ok_def guard_err_None contains_char_def)

lemma valid_argument_ok: "valid_argument a \<longleftrightarrow> argument_ok a"
  by (auto simp: valid_argument_def argument_ok_def contains_char_def)

lemma validate_command_None [check_simps]: "validate_command f cmd = None \<longleftrightarrow> command_ok cmd"
  by (auto simp: validate_command_def command_ok_def check_simps valid_argument_ok max_args_def)

lemma contexts_length: "contexts_ok cs \<Longrightarrow> length cs \<le> 4"
proof -
  assume cs: "contexts_ok cs"
  let ?A = "{''global'', ''workspace'', ''tab'', ''pane''}"
  have "card (set cs) \<le> card ?A" using cs by (intro card_mono) (simp_all add: contexts_ok_def)
  also have "card ?A = 4" by simp
  finally show "length cs \<le> 4" using cs distinct_card by (fastforce simp: contexts_ok_def)
qed

lemma validate_contexts_None [check_simps]: "validate_contexts cs = None \<longleftrightarrow> contexts_ok cs"
proof -
  define A where "A = {''global'', ''workspace'', ''tab'', ''pane''}"
  have "check_unique (\<lambda>_ c. guard_err (c \<notin> A) (UnsupportedContext c))
      id (\<lambda>c. Duplicate ''action context'' c) (\<lambda>_ _. None) 0 {} cs = None \<longleftrightarrow>
    (\<forall>c \<in> set cs. c \<in> A \<and> True) \<and> distinct (map id cs)"
    by (rule check_unique_None_set) (simp_all add: guard_err_None)
  then have "validate_contexts cs = None \<longleftrightarrow>
      \<not> (length cs = 0 \<or> length cs > 4) \<and> set cs \<subseteq> A \<and> distinct cs"
    unfolding validate_contexts_def first_err_None guard_err_None A_def [symmetric] by auto
  moreover have "contexts_ok cs \<longleftrightarrow> 1 \<le> length cs \<and> distinct cs \<and> set cs \<subseteq> A"
    unfolding contexts_ok_def A_def ..
  ultimately show ?thesis using contexts_length [of cs] by linarith
qed

lemma unique_ids_None [check_simps]:
  "unique_ids f vs = None \<longleftrightarrow> distinct vs \<and> (\<forall>v \<in> set vs. id_ok v)"
  unfolding unique_ids_def
  by (subst check_unique_None_set [where F = id_ok and G = "\<lambda>_. True"])
     (auto simp: check_simps id_ok_def)

lemma validate_actions_None [check_simps]:
  "validate_actions U as = None \<longleftrightarrow> distinct (map ma_id as) \<and> (\<forall>a \<in> set as. action_ok U a)"
  unfolding validate_actions_def
  by (subst check_unique_None_set [where F = "\<lambda>a. id_ok (ma_id a)" and
        G = "\<lambda>a. text_ok U True 128 (ma_title a) \<and> text_ok U False 1024 (ma_description a) \<and>
          (\<forall>cs. ma_contexts a = Some cs \<longrightarrow> contexts_ok cs) \<and>
          (\<forall>cmd. ma_command a = Some cmd \<longrightarrow> command_ok cmd)"])
     (auto simp: check_simps id_ok_def action_ok_def split: option.splits)

lemma validate_events_None [check_simps]:
  "validate_events es = None \<longleftrightarrow> distinct (map eh_on es) \<and>
     (\<forall>e \<in> set es. eh_on e \<in> set event_hook_names \<and> command_ok (eh_command e))"
  unfolding validate_events_def
  by (subst check_unique_None_set [where F = "\<lambda>e. eh_on e \<in> set event_hook_names" and
        G = "\<lambda>e. command_ok (eh_command e)"])
     (auto simp: check_simps)

text \<open>The duplicate key of an interface determines the interface.\<close>

fun digits_value :: "nat \<Rightarrow> string \<Rightarrow> nat" where
  "digits_value acc [] = acc"
| "digits_value acc (c # cs) = digits_value (10 * acc + nat (byte c - 48)) cs"

lemma digits_value_append: "digits_value acc (s @ t) = digits_value (digits_value acc s) t"
  by (induction s arbitrary: acc) auto

lemma digits_value_show: "digits_value 0 (show_nat n) = n"
proof (induction n rule: show_nat.induct)
  case (1 n)
  have "int (n mod 10) < 10" by simp
  with 1 show ?case
    by (cases "n < 10") (auto simp: show_nat.simps [of n] digits_value_append)
qed

lemma show_nat_inject: "show_nat m = show_nat n \<Longrightarrow> m = n"
  by (metis digits_value_show)

lemma show_nat_no_slash: "CHR ''/'' \<notin> set (show_nat n)"
  using show_nat_digits [of "CHR ''/''" n] by (auto simp: byte_def)

lemma interface_key_inject:
  assumes "CHR ''/'' \<notin> set (if_id f)" and "CHR ''/'' \<notin> set (if_id g)"
    and eq: "interface_key f = interface_key g"
  shows "f = g"
proof -
  let ?rest = "\<lambda>h. show_nat (unat (if_version h)) @ ''/'' @ if_direction h"
  have "cut CHR ''/'' (interface_key h) = (if_id h, ?rest h, True)"
    if "CHR ''/'' \<notin> set (if_id h)" for h
    using cut_append [OF that] by (simp add: interface_key_def)
  with assms have "(if_id f, ?rest f, True) = (if_id g, ?rest g, True)" by metis
  then have ids: "if_id f = if_id g" and rest: "?rest f = ?rest g" by blast+
  have "cut CHR ''/'' (show_nat n @ ''/'' @ d) = (show_nat n, d, True)" for n d
    using cut_append [OF show_nat_no_slash] by simp
  with rest have "show_nat (unat (if_version f)) = show_nat (unat (if_version g))"
    "if_direction f = if_direction g"
    by (metis prod.inject)+
  moreover from this have "if_version f = if_version g"
    using show_nat_inject word_unat_eq_iff by blast
  ultimately show ?thesis using ids by (cases f; cases g) simp
qed

lemma id_ok_no_slash: "id_ok v \<Longrightarrow> CHR ''/'' \<notin> set v"
  using stable_is_semantic [of f v for f] semantic_id_no_slash by (auto simp: id_ok_def validate_id_None)

lemma distinct_interface_keys:
  assumes "\<forall>f \<in> set fs. interface_ok f"
  shows "distinct (map interface_key fs) \<longleftrightarrow> distinct fs"
proof -
  have "inj_on interface_key (set fs)"
    using assms id_ok_no_slash by (auto intro!: inj_onI interface_key_inject simp: interface_ok_def)
  then show ?thesis by (simp add: distinct_map)
qed

lemma validate_interfaces_None [check_simps]:
  "validate_interfaces fs = None \<longleftrightarrow> distinct fs \<and> (\<forall>f \<in> set fs. interface_ok f)"
  unfolding validate_interfaces_def
  by (subst check_unique_None_set [where F = interface_ok and G = "\<lambda>_. True"])
     (auto simp: check_simps interface_ok_def id_ok_def distinct_interface_keys)

subsection \<open>Properties\<close>

text \<open>C19: \<open>Validate\<close> accepts a manifest exactly when it is well formed: stable identifiers,
  bounded NUL-free text, bounded lists, supported contexts and events, positive interface
  versions, and no duplicate capability, action, context, event or interface.\<close>

theorem validate_manifest_iff: "(validate_manifest U m = None) = manifest_ok U m"
  by (simp add: validate_manifest_def manifest_ok_def check_simps id_ok_def argument_ok_def
      max_args_def max_capabilities_def max_actions_def max_events_def max_interfaces_def
      contains_char_def valid_argument_ok linorder_not_less conj_assoc)

end
