(* ===== verification/Responsive.thy ===== *)
theory Responsive
  imports Prelude
begin

text \<open>
  Terminal layouts (ui/responsive/responsive.go): a reported size is classified and each
  dimension is bounded for rendering.  The layout classes are ordered from the recovery
  screen to the wide layout by an instance of \<open>linorder\<close>.
\<close>

datatype layout_class = Recovery | Compact | Standard | Wide

fun class_rank :: "layout_class \<Rightarrow> nat" where
  "class_rank Recovery = 0"
| "class_rank Compact = 1"
| "class_rank Standard = 2"
| "class_rank Wide = 3"

lemma class_rank_inject: "class_rank a = class_rank b \<longleftrightarrow> a = b"
  by (cases a; cases b) auto

instantiation layout_class :: linorder
begin

definition less_eq_layout_class :: "layout_class \<Rightarrow> layout_class \<Rightarrow> bool" where
  "less_eq_layout_class a b \<longleftrightarrow> class_rank a \<le> class_rank b"

definition less_layout_class :: "layout_class \<Rightarrow> layout_class \<Rightarrow> bool" where
  "less_layout_class a b \<longleftrightarrow> class_rank a < class_rank b"

instance
  by standard (auto simp: less_eq_layout_class_def less_layout_class_def class_rank_inject)

end

record term_size =
  columns :: int
  rows :: int

record layout =
  reported :: term_size
  render_size :: term_size
  lay_class :: layout_class
  functional :: bool
  projected :: bool

definition max_cols :: int where "max_cols = 500"
definition max_rows :: int where "max_rows = 200"

definition clamp_dimension :: "int \<Rightarrow> int \<Rightarrow> int" where
  "clamp_dimension value maximum = (if value < 1 then 0 else min value maximum)"

definition classify :: "term_size \<Rightarrow> layout_class" where
  "classify s =
     (if columns s < 40 \<or> rows s < 10 then Recovery
      else if columns s < 80 \<or> rows s < 18 then Compact
      else if columns s < 110 \<or> rows s < 24 then Standard
      else Wide)"

definition resolve :: "term_size \<Rightarrow> layout" where
  "resolve s =
     \<lparr>reported = s,
      render_size = \<lparr>columns = clamp_dimension (columns s) max_cols,
                     rows = clamp_dimension (rows s) max_rows\<rparr>,
      lay_class = classify s,
      functional = (classify s \<noteq> Recovery \<and> columns s \<le> max_cols \<and> rows s \<le> max_rows),
      projected = (columns s > max_cols \<or> rows s > max_rows)\<rparr>"

lemma classify_mono:
  "columns s \<le> columns t \<Longrightarrow> rows s \<le> rows t \<Longrightarrow> classify s \<le> classify t"
  by (auto simp: classify_def less_eq_layout_class_def)

lemma clamp_bounds: "0 \<le> m \<Longrightarrow> 0 \<le> clamp_dimension v m \<and> clamp_dimension v m \<le> m"
  by (auto simp: clamp_dimension_def)

lemma clamp_id: "1 \<le> v \<Longrightarrow> v \<le> m \<Longrightarrow> clamp_dimension v m = v"
  by (auto simp: clamp_dimension_def)

text \<open>The rendered size is always within the 500 by 200 bound; it equals the reported size
  whenever the layout is functional; a layout is functional exactly when it is neither the
  recovery layout nor projected; and a larger terminal never gets a smaller layout class.\<close>

theorem resolve_bounded:
  "0 \<le> columns (render_size (resolve s)) \<and> columns (render_size (resolve s)) \<le> 500 \<and>
   0 \<le> rows (render_size (resolve s)) \<and> rows (render_size (resolve s)) \<le> 200 \<and>
   (functional (resolve s) = (lay_class (resolve s) > Recovery \<and> \<not> projected (resolve s))) \<and>
   (if functional (resolve s) then render_size (resolve s) = s else True) \<and>
   lay_class (resolve s) \<le> lay_class (resolve (s\<lparr>columns := columns s + int dc, rows := rows s + int dr\<rparr>))"
proof (intro conjI)
  show "lay_class (resolve s) \<le> lay_class (resolve (s\<lparr>columns := columns s + int dc, rows := rows s + int dr\<rparr>))"
    unfolding resolve_def layout.select_convs by (rule classify_mono) simp_all
  show "functional (resolve s) = (lay_class (resolve s) > Recovery \<and> \<not> projected (resolve s))"
    by (cases "classify s") (auto simp: resolve_def less_layout_class_def)
  show "if functional (resolve s) then render_size (resolve s) = s else True"
    by (cases s) (auto simp: resolve_def classify_def clamp_dimension_def)
qed (auto simp: resolve_def clamp_dimension_def max_cols_def max_rows_def)

end
