(* ===== verification/Buffer.thy ===== *)
theory Buffer
  imports GoStrings
begin

text \<open>
  The single-line editing buffer (ui/interaction/buffer.go).  Text is held as grapheme
  clusters; how a text splits into clusters is the library's business
  (github.com/rivo/uniseg), so the segmenter \<open>split\<close> is an argument of every operation
  that needs it.  What the code relies on is \<open>segmenter_ok\<close>: the clusters concatenate to
  the text, none is empty, and valid UTF-8 is cut between runes, so that its clusters are
  valid and appending valid text never lowers their number (a cluster boundary depends on
  the text before it and the rune after it).
\<close>

type_synonym segmenter = "string \<Rightarrow> string list"

record buffer =
  bf_graphemes :: "string list"
  bf_cursor :: int

definition segmenter_ok :: "segmenter \<Rightarrow> bool" where
  "segmenter_ok split \<longleftrightarrow>
     (\<forall>t. concat (split t) = t) \<and> (\<forall>t. [] \<notin> set (split t)) \<and>
     (\<forall>t. valid_utf8 t \<longrightarrow> (\<forall>g \<in> set (split t). valid_utf8 g)) \<and>
     (\<forall>t u. valid_utf8 t \<and> valid_utf8 u \<longrightarrow> length (split t) \<le> length (split (t @ u)))"

definition buf_set :: "segmenter \<Rightarrow> string \<Rightarrow> buffer \<Rightarrow> buffer" where
  "buf_set split t b = \<lparr>bf_graphemes = split t, bf_cursor = int (length (split t))\<rparr>"

definition empty_buffer :: buffer where
  "empty_buffer = \<lparr>bf_graphemes = [], bf_cursor = 0\<rparr>"

definition new_buffer :: "segmenter \<Rightarrow> string \<Rightarrow> buffer" where
  "new_buffer split t = buf_set split t empty_buffer"

definition buf_text :: "buffer \<Rightarrow> string" where
  "buf_text b = join [] (bf_graphemes b)"

definition set_cursor :: "int \<Rightarrow> buffer \<Rightarrow> buffer" where
  "set_cursor c b = b\<lparr>bf_cursor := max 0 (min c (int (length (bf_graphemes b))))\<rparr>"

text \<open>The slices \<open>graphemes[:i]\<close> and \<open>graphemes[i:]\<close>, joined.\<close>

definition text_before :: "int \<Rightarrow> buffer \<Rightarrow> string" where
  "text_before i b = join [] (take (nat i) (bf_graphemes b))"

definition text_from :: "int \<Rightarrow> buffer \<Rightarrow> string" where
  "text_from i b = join [] (drop (nat i) (bf_graphemes b))"

definition rebuild :: "segmenter \<Rightarrow> string \<Rightarrow> string \<Rightarrow> buffer" where
  "rebuild split pre post =
     \<lparr>bf_graphemes = split (pre @ post), bf_cursor = int (length (split pre))\<rparr>"

definition buf_insert :: "segmenter \<Rightarrow> string \<Rightarrow> buffer \<Rightarrow> buffer" where
  "buf_insert split t b =
     (if t = [] then b
      else rebuild split (text_before (bf_cursor b) b @ t) (text_from (bf_cursor b) b))"

definition buf_backspace :: "segmenter \<Rightarrow> buffer \<Rightarrow> bool \<times> buffer" where
  "buf_backspace split b =
     (if bf_cursor b = 0 then (False, b)
      else (True, rebuild split (text_before (bf_cursor b - 1) b) (text_from (bf_cursor b) b)))"

definition buf_delete :: "segmenter \<Rightarrow> buffer \<Rightarrow> bool \<times> buffer" where
  "buf_delete split b =
     (if bf_cursor b = int (length (bf_graphemes b)) then (False, b)
      else (True, rebuild split (text_before (bf_cursor b) b) (text_from (bf_cursor b + 1) b)))"

definition move_left :: "buffer \<Rightarrow> buffer" where
  "move_left b = set_cursor (bf_cursor b - 1) b"

definition move_right :: "buffer \<Rightarrow> buffer" where
  "move_right b = set_cursor (bf_cursor b + 1) b"

definition move_home :: "buffer \<Rightarrow> buffer" where
  "move_home b = b\<lparr>bf_cursor := 0\<rparr>"

definition move_end :: "buffer \<Rightarrow> buffer" where
  "move_end b = b\<lparr>bf_cursor := int (length (bf_graphemes b))\<rparr>"

subsection \<open>Invariant: the cursor stays inside the text\<close>

definition buffer_ok :: "segmenter \<Rightarrow> buffer \<Rightarrow> bool" where
  "buffer_ok split b \<longleftrightarrow> bf_graphemes b = split (buf_text b) \<and> valid_utf8 (buf_text b) \<and>
     0 \<le> bf_cursor b \<and> bf_cursor b \<le> int (length (bf_graphemes b))"

lemma segmenter_concat: "segmenter_ok split \<Longrightarrow> concat (split t) = t"
  by (simp add: segmenter_ok_def)

lemma rebuild_ok:
  "segmenter_ok split \<Longrightarrow> valid_utf8 pre \<Longrightarrow> valid_utf8 post \<Longrightarrow> buffer_ok split (rebuild split pre post)"
  by (simp add: buffer_ok_def rebuild_def buf_text_def join_empty_sep segmenter_ok_def valid_utf8_append)

lemma rebuild_text: "segmenter_ok split \<Longrightarrow> buf_text (rebuild split pre post) = pre @ post"
  by (simp add: rebuild_def buf_text_def join_empty_sep segmenter_concat)

lemma buf_set_ok: "segmenter_ok split \<Longrightarrow> valid_utf8 t \<Longrightarrow> buffer_ok split (buf_set split t b)"
  by (simp add: buffer_ok_def buf_set_def buf_text_def join_empty_sep segmenter_concat)

lemma buf_set_text: "segmenter_ok split \<Longrightarrow> buf_text (buf_set split t b) = t"
  by (simp add: buf_set_def buf_text_def join_empty_sep segmenter_concat)

lemma cursor_ok:
  "buffer_ok split b \<Longrightarrow> 0 \<le> c \<Longrightarrow> c \<le> int (length (bf_graphemes b)) \<Longrightarrow> buffer_ok split (b\<lparr>bf_cursor := c\<rparr>)"
  by (simp add: buffer_ok_def buf_text_def)

lemma slices_valid:
  assumes "segmenter_ok split" and "buffer_ok split b"
  shows "valid_utf8 (text_before i b)" "valid_utf8 (text_from i b)"
proof -
  have "\<forall>g \<in> set (bf_graphemes b). valid_utf8 g"
    using assms by (auto simp: buffer_ok_def segmenter_ok_def)
  then show "valid_utf8 (text_before i b)" "valid_utf8 (text_from i b)"
    by (auto simp: text_before_def text_from_def join_empty_sep intro!: valid_utf8_concat
        dest: in_set_takeD in_set_dropD)
qed

lemma moves_ok:
  assumes "buffer_ok split b"
  shows "buffer_ok split (set_cursor c b)" "buffer_ok split (move_left b)" "buffer_ok split (move_right b)"
    "buffer_ok split (move_home b)" "buffer_ok split (move_end b)"
  using assms cursor_ok
  by (auto simp: set_cursor_def move_left_def move_right_def move_home_def move_end_def)

lemma edits_ok:
  assumes "segmenter_ok split" and "buffer_ok split b"
  shows "valid_utf8 t \<Longrightarrow> buffer_ok split (buf_insert split t b)" "buffer_ok split (snd (buf_backspace split b))"
    "buffer_ok split (snd (buf_delete split b))"
  using assms by (auto simp: buf_insert_def buf_backspace_def buf_delete_def
      intro!: rebuild_ok slices_valid valid_utf8_append)

datatype buffer_op =
  BufInsert string | BufBackspace | BufDelete | BufLeft | BufRight | BufHome | BufEnd | BufSet string

fun buffer_run :: "segmenter \<Rightarrow> buffer \<Rightarrow> buffer_op \<Rightarrow> buffer" where
  "buffer_run split b (BufInsert t) = buf_insert split t b"
| "buffer_run split b BufBackspace = snd (buf_backspace split b)"
| "buffer_run split b BufDelete = snd (buf_delete split b)"
| "buffer_run split b BufLeft = move_left b"
| "buffer_run split b BufRight = move_right b"
| "buffer_run split b BufHome = move_home b"
| "buffer_run split b BufEnd = move_end b"
| "buffer_run split b (BufSet t) = buf_set split t b"

text \<open>The texts that reach the buffer are valid UTF-8.\<close>

fun op_valid :: "buffer_op \<Rightarrow> bool" where
  "op_valid (BufInsert t) = valid_utf8 t"
| "op_valid (BufSet t) = valid_utf8 t"
| "op_valid _ = True"

lemma buffer_run_ok:
  "segmenter_ok split \<Longrightarrow> buffer_ok split b \<Longrightarrow> op_valid op \<Longrightarrow> buffer_ok split (buffer_run split b op)"
  by (cases op) (simp_all add: moves_ok edits_ok buf_set_ok)

text \<open>An edit with valid text; others are outside the contract of the segmenter.\<close>

definition valid_edit :: "segmenter \<Rightarrow> buffer \<Rightarrow> buffer_op \<Rightarrow> buffer" where
  "valid_edit split b op = (if op_valid op then buffer_run split b op else b)"

interpretation bufmachine: machine "valid_edit split" "\<lambda>b. segmenter_ok split \<and> buffer_ok split b" for split
  by unfold_locales (simp add: valid_edit_def buffer_run_ok)

lemma foldl_valid_edit:
  "list_all op_valid ops \<Longrightarrow> foldl (valid_edit split) b ops = foldl (buffer_run split) b ops"
  by (induction ops arbitrary: b) (simp_all add: valid_edit_def)

lemma split_at_cursor:
  "buf_text b = text_before i b @ text_from i b"
  by (simp add: buf_text_def text_before_def text_from_def join_empty_sep flip: concat_append)

text \<open>C20: for a segmenter that keeps the text, and a buffer whose clusters are those of its text:
  editing changes the text only at the cursor.  Insertion puts the text there, backspace and
  delete remove exactly the cluster before and at the cursor.  After any sequence of edits that
  insert only valid UTF-8 (text that is not can merge with its neighbours across the cursor) the
  clusters are still those of the text, and the cursor is between 0 and their number.\<close>

theorem buffer_edits:
  assumes "segmenter_ok split" and "buffer_ok split b" and "list_all op_valid ops"
  shows "buf_text (buf_insert split t b) = text_before (bf_cursor b) b @ t @ text_from (bf_cursor b) b \<and>
    (if bf_cursor b = 0 then buf_backspace split b = (False, b)
     else fst (buf_backspace split b) \<and> buf_text (snd (buf_backspace split b)) =
         concat (take (nat (bf_cursor b - 1)) (bf_graphemes b) @ drop (nat (bf_cursor b)) (bf_graphemes b))) \<and>
    (if bf_cursor b = int (length (bf_graphemes b)) then buf_delete split b = (False, b)
     else fst (buf_delete split b) \<and> buf_text (snd (buf_delete split b)) =
         concat (take (nat (bf_cursor b)) (bf_graphemes b) @ drop (nat (bf_cursor b + 1)) (bf_graphemes b))) \<and>
    buffer_ok split (foldl (buffer_run split) b ops)"
proof (intro conjI)
  show "buf_text (buf_insert split t b) = text_before (bf_cursor b) b @ t @ text_from (bf_cursor b) b"
    using split_at_cursor [of b "bf_cursor b"] by (simp add: buf_insert_def rebuild_text [OF assms(1)])
  show "buffer_ok split (foldl (buffer_run split) b ops)"
    using bufmachine.run_good [of split b ops] assms by (simp add: foldl_valid_edit)
qed (auto simp: buf_backspace_def buf_delete_def rebuild_text [OF assms(1)] text_before_def text_from_def join_empty_sep)

text \<open>A segmenter with one cluster per rune satisfies the hypotheses.\<close>

definition rune_segmenter :: segmenter where
  "rune_segmenter t = map snd (chunks t)"

lemma chunk_nonempty: "g \<in> set (chunks t) \<Longrightarrow> snd g \<noteq> []"
proof (induction t rule: chunks.induct)
  case (2 c cs)
  obtain r n where rn: "decode_rune (c # cs) = (r, n)" by fastforce
  have "1 \<le> n" using decode_rune_width [of "c # cs"] rn by auto
  with 2 rn show ?case by (auto simp: chunks.simps)
qed simp

lemma rune_segmenter_ok: "segmenter_ok rune_segmenter"
  using chunk_nonempty valid_utf8_chunks
  by (fastforce simp: segmenter_ok_def rune_segmenter_def concat_chunks chunks_append)

theorem buffer_edits_witness:
  "buf_text (buf_insert rune_segmenter ''x'' (new_buffer rune_segmenter ''ab'')) = ''abx'' \<and>
   buffer_ok rune_segmenter (foldl (buffer_run rune_segmenter) (new_buffer rune_segmenter ''ab'')
     [BufLeft, BufInsert ''x'', BufBackspace, BufBackspace, BufDelete])"
proof -
  have ok: "buffer_ok rune_segmenter (new_buffer rune_segmenter ''ab'')"
    by (simp add: new_buffer_def buf_set_ok rune_segmenter_ok valid_utf8_ascii ascii_def byte_def)
  have ops: "list_all op_valid [BufLeft, BufInsert ''x'', BufBackspace, BufBackspace, BufDelete]"
    by (simp add: valid_utf8_ascii ascii_def byte_def)
  have "text_before (bf_cursor (new_buffer rune_segmenter ''ab'')) (new_buffer rune_segmenter ''ab'') = ''ab''"
    "text_from (bf_cursor (new_buffer rune_segmenter ''ab'')) (new_buffer rune_segmenter ''ab'') = []"
    by code_simp+
  with buffer_edits [OF rune_segmenter_ok ok ops, of "''x''"] show ?thesis
    by (auto simp del: buffer_run.simps foldl_Cons)
qed

end
