(* ===== verification/Fuzzy.thy ===== *)
theory Fuzzy
  imports GoStrings "HOL-Library.Sublist" "HOL-Library.Multiset"
begin

text \<open>
  Fuzzy matching and ranking of picker candidates (ui/interaction/fuzzy.go).  \<open>Match\<close>
  walks the query once and takes, for each rune, the first occurrence after the previous
  one; \<open>sort.SliceStable\<close> by descending score is the library's stable \<^const>\<open>sort_key\<close>.
\<close>

record candidate =
  cd_key :: string
  cd_text :: string

record match_result =
  mr_candidate :: candidate
  mr_score :: int
  mr_positions :: "nat list"

definition zero_candidate :: candidate where
  "zero_candidate = \<lparr>cd_key = [], cd_text = []\<rparr>"

text \<open>The inner loop: the first index from \<open>i\<close> on that holds the rune.\<close>

fun find_rune :: "int \<Rightarrow> nat \<Rightarrow> int list \<Rightarrow> nat option" where
  "find_rune r i [] = None"
| "find_rune r i (x # xs) = (if x = r then Some i else find_rune r (Suc i) xs)"

fun match_positions :: "int list \<Rightarrow> nat \<Rightarrow> int list \<Rightarrow> nat list option" where
  "match_positions [] n text = Some []"
| "match_positions (q # qs) n text =
     (case find_rune q n (drop n text) of
        None \<Rightarrow> None
      | Some p \<Rightarrow> map_option ((#) p) (match_positions qs (Suc p) text))"

definition boundary_bonus :: "unicode \<Rightarrow> int list \<Rightarrow> nat \<Rightarrow> int" where
  "boundary_bonus U text p =
     (if p = 0 \<or> (\<not> is_letter U (text ! (p - 1)) \<and> \<not> is_number U (text ! (p - 1))) then 12 else 0)"

fun adjacency_bonus :: "nat list \<Rightarrow> int" where
  "adjacency_bonus (p # q # ps) = (if q = p + 1 then 20 else 0) + adjacency_bonus (q # ps)"
| "adjacency_bonus _ = 0"

definition match_score :: "unicode \<Rightarrow> int list \<Rightarrow> int list \<Rightarrow> nat list \<Rightarrow> bool \<Rightarrow> int" where
  "match_score U query text ps exact =
     1000 - int (hd ps) * 4 - (int (length text) - int (length query))
       + sum_list (map (boundary_bonus U text) ps) + adjacency_bonus ps + (if exact then 100 else 0)"

definition match_text :: "unicode \<Rightarrow> string \<Rightarrow> string \<Rightarrow> match_result option" where
  "match_text U query text =
     (let qr = runes (to_lower U query); tr = runes (to_lower U text) in
      if qr = [] then Some \<lparr>mr_candidate = zero_candidate, mr_score = 0, mr_positions = []\<rparr>
      else case match_positions qr 0 tr of
        None \<Rightarrow> None
      | Some ps \<Rightarrow> Some \<lparr>mr_candidate = zero_candidate,
          mr_score = match_score U qr tr ps (equal_fold U query text), mr_positions = ps\<rparr>)"

fun rank_matches :: "unicode \<Rightarrow> string \<Rightarrow> candidate list \<Rightarrow> match_result list" where
  "rank_matches U query [] = []"
| "rank_matches U query (c # cs) =
     (case match_text U query (cd_text c) of
        None \<Rightarrow> rank_matches U query cs
      | Some m \<Rightarrow> m\<lparr>mr_candidate := c\<rparr> # rank_matches U query cs)"

definition rank :: "unicode \<Rightarrow> string \<Rightarrow> candidate list \<Rightarrow> match_result list" where
  "rank U query cs = sort_key (\<lambda>m. - mr_score m) (rank_matches U query cs)"

subsection \<open>The greedy walk finds the leftmost embedding\<close>

text \<open>\<open>ps\<close> embeds the runes \<open>qs\<close> into \<open>text\<close> at increasing positions from \<open>n\<close> on.\<close>

fun embeds :: "int list \<Rightarrow> nat \<Rightarrow> int list \<Rightarrow> nat list \<Rightarrow> bool" where
  "embeds [] n text ps = (ps = [])"
| "embeds (q # qs) n text [] = False"
| "embeds (q # qs) n text (p # ps) =
     (n \<le> p \<and> p < length text \<and> text ! p = q \<and> embeds qs (Suc p) text ps)"

lemma find_rune_SomeD:
  "find_rune r i xs = Some p \<Longrightarrow> \<exists>j < length xs. p = i + j \<and> xs ! j = r \<and> r \<notin> set (take j xs)"
proof (induction xs arbitrary: i)
  case Nil
  then show ?case by simp
next
  case (Cons x xs)
  show ?case
  proof (cases "x = r")
    case True
    with Cons.prems show ?thesis by (intro exI [of _ 0]) simp
  next
    case False
    with Cons.prems have "find_rune r (Suc i) xs = Some p" by simp
    from Cons.IH [OF this] obtain j where "j < length xs" "p = Suc i + j" "xs ! j = r"
      "r \<notin> set (take j xs)" by blast
    with False show ?thesis by (intro exI [of _ "Suc j"]) simp
  qed
qed

lemma find_rune_None: "find_rune r i xs = None \<longleftrightarrow> r \<notin> set xs"
  by (induction xs arbitrary: i) auto

lemma find_rune_le:
  assumes "n \<le> p" and "p < length tx" and "tx ! p = r"
  shows "\<exists>p0. find_rune r n (drop n tx) = Some p0 \<and> n \<le> p0 \<and> p0 \<le> p \<and> tx ! p0 = r"
proof -
  have at: "drop n tx ! (p - n) = r" and lt: "p - n < length (drop n tx)"
    using assms by simp_all
  then have "r \<in> set (drop n tx)" by (metis nth_mem)
  then obtain p0 where p0: "find_rune r n (drop n tx) = Some p0"
    by (cases "find_rune r n (drop n tx)") (simp_all add: find_rune_None)
  from find_rune_SomeD [OF p0] obtain j where j: "j < length (drop n tx)" "p0 = n + j"
    "drop n tx ! j = r" "r \<notin> set (take j (drop n tx))" by blast
  have "j \<le> p - n"
  proof (rule ccontr)
    assume "\<not> j \<le> p - n"
    then have "take j (drop n tx) ! (p - n) = r" "p - n < length (take j (drop n tx))"
      using at lt j(1) by simp_all
    with j(4) show False by (metis nth_mem)
  qed
  with j p0 assms(1) show ?thesis by auto
qed

lemma match_positions_embeds: "match_positions qs n tx = Some ps \<Longrightarrow> embeds qs n tx ps"
proof (induction qs arbitrary: n ps)
  case Nil
  then show ?case by simp
next
  case (Cons q qs)
  then obtain p ps' where f: "find_rune q n (drop n tx) = Some p"
    and rest: "match_positions qs (Suc p) tx = Some ps'" and ps: "ps = p # ps'"
    by (auto split: option.splits)
  from find_rune_SomeD [OF f] have "n \<le> p \<and> p < length tx \<and> tx ! p = q" by auto
  with Cons.IH [OF rest] ps show ?case by simp
qed

lemma embeds_match_positions:
  assumes "embeds qs n tx ps'" and "n0 \<le> n"
  shows "\<exists>ps. match_positions qs n0 tx = Some ps \<and> list_all2 (\<le>) ps ps'"
  using assms
proof (induction qs n tx ps' arbitrary: n0 rule: embeds.induct)
  case (3 q qs n tx p ps)
  then have "n0 \<le> p" "p < length tx" "tx ! p = q" and rest: "embeds qs (Suc p) tx ps" by auto
  from find_rune_le [OF this(1-3)] obtain p0 where p0: "find_rune q n0 (drop n0 tx) = Some p0"
    and le: "p0 \<le> p" by blast
  from 3(1) [OF rest, of "Suc p0"] le obtain ps0 where
    "match_positions qs (Suc p0) tx = Some ps0" "list_all2 (\<le>) ps0 ps" by auto
  with p0 le show ?case by simp
qed auto

lemma embeds_iff:
  "embeds qs n tx ps \<longleftrightarrow>
     sorted_wrt (<) ps \<and> map ((!) tx) ps = qs \<and> (\<forall>p \<in> set ps. n \<le> p \<and> p < length tx)"
proof (induction qs n tx ps rule: embeds.induct)
  case (3 q qs n tx p ps)
  show ?case by (auto simp: 3 Suc_le_eq dest: less_imp_le_nat intro: le_less_trans order.strict_trans1)
qed auto

lemma embeds_subseq: "embeds qs n tx ps \<Longrightarrow> subseq qs (drop n tx)"
proof (induction qs n tx ps rule: embeds.induct)
  case (3 q qs n tx p ps)
  then have split: "drop n tx = take (p - n) (drop n tx) @ q # drop (Suc p) tx"
    and "subseq qs (drop (Suc p) tx)"
    using id_take_nth_drop [of "p - n" "drop n tx"] by auto
  then have "subseq (q # qs) (q # drop (Suc p) tx)" by simp
  then show ?case by (subst split) (rule list_emb_append2)
qed auto

lemma subseq_embeds:
  "subseq qs (drop n tx) \<Longrightarrow> \<exists>ps. embeds qs n tx ps"
proof (induction qs arbitrary: n)
  case Nil
  then show ?case by auto
next
  case (Cons q qs)
  from list_emb_ConsD [OF Cons.prems] obtain us v vs where split: "drop n tx = us @ v # vs"
    and v: "q = v" and rest: "subseq qs vs" by blast
  define p where "p = n + length us"
  have n: "n < length tx" using split by (cases "n < length tx") auto
  have len: "length tx = p + Suc (length vs)"
    using arg_cong [OF split, of length] n by (simp add: p_def)
  have vs: "drop (Suc p) tx = vs"
  proof -
    have "drop (Suc p) tx = drop (Suc (length us)) (drop n tx)" by (simp add: p_def add.commute)
    then show ?thesis by (simp add: split)
  qed
  have at: "tx ! p = v"
    using arg_cong [OF split, of "\<lambda>l. l ! length us"] n by (simp add: p_def)
  from Cons.IH [of "Suc p"] rest vs obtain ps where "embeds qs (Suc p) tx ps" by auto
  with at len v have "embeds (q # qs) n tx (p # ps)" by (simp add: p_def)
  then show ?case by blast
qed

lemma match_positions_subseq: "match_positions qs 0 tx \<noteq> None \<longleftrightarrow> subseq qs tx"
  using match_positions_embeds [of qs 0 tx] embeds_subseq [of qs 0 tx]
    subseq_embeds [of qs 0 tx] embeds_match_positions [of qs 0 tx _ 0]
  by fastforce

text \<open>
  C21: a candidate matches exactly when the lower-cased query is a subsequence of its
  lower-cased text, rune by rune.  The empty query matches everything.
\<close>

theorem match_iff_subsequence:
  "(match_text U query tx \<noteq> None) = subseq (runes (to_lower U query)) (runes (to_lower U tx))"
  using match_positions_subseq [of "runes (to_lower U query)" "runes (to_lower U tx)"]
  by (auto simp: match_text_def Let_def split: option.splits)

text \<open>
  The positions a match reports are a correct highlighting, and the leftmost one:
  they increase strictly, lie inside the text, spell the query, and any other positions
  that spell the query in the same text are pointwise at least as far right.
\<close>

theorem match_positions_leftmost:
  assumes "match_text U query tx = Some m"
  shows "sorted_wrt (<) (mr_positions m) \<and>
    map ((!) (runes (to_lower U tx))) (mr_positions m) = runes (to_lower U query) \<and>
    (\<forall>p \<in> set (mr_positions m). p < length (runes (to_lower U tx))) \<and>
    (\<forall>ps. sorted_wrt (<) ps \<and> map ((!) (runes (to_lower U tx))) ps = runes (to_lower U query) \<and>
       (\<forall>p \<in> set ps. p < length (runes (to_lower U tx))) \<longrightarrow> list_all2 (\<le>) (mr_positions m) ps)"
proof -
  let ?q = "runes (to_lower U query)" and ?t = "runes (to_lower U tx)"
  have m: "match_positions ?q 0 ?t = Some (mr_positions m)"
    using assms by (auto simp: match_text_def Let_def split: option.splits if_splits)
  have "list_all2 (\<le>) (mr_positions m) ps" if "embeds ?q 0 ?t ps" for ps
    using embeds_match_positions [OF that, of 0] m by simp
  with match_positions_embeds [OF m] show ?thesis by (simp add: embeds_iff)
qed

theorem match_positions_leftmost_witness:
  "list_all2 (\<le>) [0, 2 :: nat] [1, 3]"
proof -
  have run: "match_text ascii_tables ''ab'' ''aabb'' \<noteq> None" by code_simp
  then obtain m where m: "match_text ascii_tables ''ab'' ''aabb'' = Some m" by blast
  have pos: "map_option mr_positions (match_text ascii_tables ''ab'' ''aabb'') = Some [0, 2]" by code_simp
  have other: "map ((!) (runes (to_lower ascii_tables ''aabb''))) [1, 3] =
      runes (to_lower ascii_tables ''ab'') \<and>
    (\<forall>p \<in> set [1, 3]. p < length (runes (to_lower ascii_tables ''aabb'')))" by code_simp
  show ?thesis using match_positions_leftmost [OF m] pos m other by simp
qed

subsection \<open>Ranking\<close>

lemma rank_matches_mem:
  "m \<in> set (rank_matches U query cs) \<Longrightarrow>
     mr_candidate m \<in> set cs \<and>
     (\<exists>m0. match_text U query (cd_text (mr_candidate m)) = Some m0 \<and>
        mr_score m = mr_score m0 \<and> mr_positions m = mr_positions m0)"
  by (induction cs) (auto split: option.splits)

lemma rank_matches_candidates:
  "map mr_candidate (rank_matches U query cs) =
     filter (\<lambda>c. match_text U query (cd_text c) \<noteq> None) cs"
  by (induction cs) (auto split: option.splits)

text \<open>
  C22: ranking loses and invents nothing, and is deterministic.  The ranked list is in
  descending order of score; for every score the candidates with that score are exactly
  the matching ones of the input, in input order.
\<close>

theorem rank_stable_best_first:
  "sorted_wrt (\<lambda>a b. mr_score a \<ge> mr_score b) (rank U query cs) \<and>
   mset (map mr_candidate (rank U query cs)) =
     mset (filter (\<lambda>c. subseq (runes (to_lower U query)) (runes (to_lower U (cd_text c)))) cs) \<and>
   filter (\<lambda>m. mr_score m = s) (rank U query cs) =
     filter (\<lambda>m. mr_score m = s) (rank_matches U query cs)"
proof -
  let ?f = "\<lambda>m :: match_result. - mr_score m" and ?ms = "rank_matches U query cs"
  have "sorted (map ?f (rank U query cs))" by (simp add: rank_def)
  then have sorted: "sorted_wrt (\<lambda>a b. mr_score a \<ge> mr_score b) (rank U query cs)"
    by (simp add: sorted_map)
  have matches: "(match_text U query t \<noteq> None) = subseq (runes (to_lower U query)) (runes (to_lower U t))" for t
    using match_positions_subseq [of "runes (to_lower U query)" "runes (to_lower U t)"]
    by (auto simp: match_text_def Let_def split: option.splits)
  have "mset (map mr_candidate (rank U query cs)) = mset (map mr_candidate ?ms)"
    by (simp add: rank_def)
  then have perm: "mset (map mr_candidate (rank U query cs)) =
      mset (filter (\<lambda>c. subseq (runes (to_lower U query)) (runes (to_lower U (cd_text c)))) cs)"
    by (simp only: rank_matches_candidates matches)
  have "filter (\<lambda>m. ?f m = - s) (rank U query cs) = filter (\<lambda>m. ?f m = - s) ?ms"
    unfolding rank_def by (rule sort_key_stable)
  then show ?thesis using sorted perm by simp
qed

end
