(* ===== verification/Interop.thy ===== *)
theory Interop
  imports Identifiers "HOL-Library.Word"
begin

text \<open>
  The envelope of plugin-to-plugin calls (runtime/interop/interop.go): validation of
  requests and responses, the typed errors, and \<open>Dispatch\<close>, which runs a handler between
  the two validations.

  A Go \<open>error\<close> is either a \<open>*CallError\<close> (\<open>Typed\<close>, found again by \<open>errors.As\<close>) or any other
  error, kept as its message (\<open>Plain\<close>).  Times are nanoseconds, the zero \<open>time.Time\<close> is
  \<^const>\<open>None\<close>.  A context is nil or carries what \<open>Err()\<close> returns when it is asked.
  \<open>encoding/json\<close> is a parameter; of it this theory uses \<open>json.Valid\<close>.
\<close>

record call_error =
  ce_category :: string
  ce_message :: string

datatype go_error = Typed call_error | Plain string

record request =
  rq_version :: "32 word"
  rq_target :: string
  rq_interface :: string
  rq_interface_version :: "32 word"
  rq_method :: string
  rq_correlation :: string
  rq_deadline :: "int option"
  rq_payload :: string

record response =
  rs_version :: "32 word"
  rs_correlation :: string
  rs_payload :: string
  rs_error :: "call_error option"

definition envelope_version :: "32 word" where "envelope_version = 1"
definition max_payload_bytes :: int where "max_payload_bytes = 1048576"
definition max_envelope_bytes :: int where "max_envelope_bytes = 1064960"
definition max_correlation :: int where "max_correlation = 128"

definition invalid_request :: string where "invalid_request = ''invalid_request''"
definition not_found :: string where "not_found = ''not_found''"
definition unavailable :: string where "unavailable = ''unavailable''"
definition deadline_exceeded :: string where "deadline_exceeded = ''deadline_exceeded''"
definition canceled :: string where "canceled = ''canceled''"
definition payload_too_large :: string where "payload_too_large = ''payload_too_large''"
definition internal_error :: string where "internal_error = ''internal''"

lemmas category_defs = invalid_request_def not_found_def unavailable_def deadline_exceeded_def
  canceled_def payload_too_large_def internal_error_def

definition typed :: "string \<Rightarrow> string \<Rightarrow> go_error" where
  "typed c m = Typed \<lparr>ce_category = c, ce_message = m\<rparr>"

text \<open>\<open>CallError.Error\<close> and the message of any error.\<close>

definition call_error_message :: "call_error \<Rightarrow> string" where
  "call_error_message e = ce_category e @ '': '' @ ce_message e"

fun error_message :: "go_error \<Rightarrow> string" where
  "error_message (Typed e) = call_error_message e"
| "error_message (Plain m) = m"

subsection \<open>The context\<close>

record ctx_error =
  cx_deadline :: bool
  cx_message :: string

datatype go_context = NilContext | Context "ctx_error option"

fun context_error :: "go_context \<Rightarrow> go_error option" where
  "context_error NilContext = Some (typed invalid_request ''nil context'')"
| "context_error (Context None) = None"
| "context_error (Context (Some e)) =
     Some (typed (if cx_deadline e then deadline_exceeded else canceled) (cx_message e))"

lemma context_error_None [check_simps]: "context_error c = None \<longleftrightarrow> c = Context None"
  by (cases c rule: context_error.cases) auto

subsection \<open>Validation\<close>

fun id_message :: "id_error \<Rightarrow> string" where
  "id_message (BadStableID field) = field @ '' must be a stable lowercase identifier of at most 64 bytes''"

definition check_id :: "string \<Rightarrow> string \<Rightarrow> go_error option" where
  "check_id field v = map_option (\<lambda>e. Plain (id_message e)) (validate_id field v)"

definition version_error :: "string \<Rightarrow> 32 word \<Rightarrow> go_error" where
  "version_error what v = Plain (''unsupported '' @ what @ '' version '' @ show_nat (unat v))"

definition validate_payload :: "(string \<Rightarrow> bool) \<Rightarrow> string \<Rightarrow> go_error option" where
  "validate_payload json p =
     first_err (guard_err (int (length p) > max_payload_bytes) (typed payload_too_large ''payload exceeds limit''))
       (guard_err (p \<noteq> [] \<and> \<not> json p) (typed invalid_request ''payload is not valid JSON''))"

definition visible_ascii :: "string \<Rightarrow> bool" where
  "visible_ascii v \<longleftrightarrow> (\<forall>r \<in> set (runes v). \<not> (r < 33 \<or> r > 126))"

definition validate_correlation :: "string \<Rightarrow> go_error option" where
  "validate_correlation v =
     first_err (guard_err (v = [] \<or> int (length v) > max_correlation)
         (Plain ''correlation_id must be 1-128 bytes''))
       (guard_err (\<not> visible_ascii v)
         (Plain ''correlation_id must contain printable ASCII without spaces''))"

definition valid_category :: "string \<Rightarrow> bool" where
  "valid_category c \<longleftrightarrow> c \<in> {invalid_request, not_found, unavailable, deadline_exceeded, canceled,
     payload_too_large, internal_error}"

definition valid_call_error :: "unicode \<Rightarrow> call_error \<Rightarrow> bool" where
  "valid_call_error U e \<longleftrightarrow> valid_category (ce_category e) \<and> trim_space U (ce_message e) \<noteq> [] \<and>
     int (length (ce_message e)) \<le> 1024"

definition elapsed :: "int option \<Rightarrow> int \<Rightarrow> bool" where
  "elapsed deadline now = (case deadline of None \<Rightarrow> True | Some d \<Rightarrow> \<not> d > now)"

definition validate_request :: "(string \<Rightarrow> bool) \<Rightarrow> go_context \<Rightarrow> request \<Rightarrow> int \<Rightarrow> go_error option" where
  "validate_request json ctx rq now =
     first_err (context_error ctx)
      (first_err (guard_err (rq_version rq \<noteq> envelope_version) (version_error ''envelope'' (rq_version rq)))
      (first_err (check_id ''target_plugin'' (rq_target rq))
      (first_err (check_id ''interface'' (rq_interface rq))
      (first_err (guard_err (rq_interface_version rq = 0) (Plain ''interface_version must be positive''))
      (first_err (check_id ''method'' (rq_method rq))
      (first_err (validate_correlation (rq_correlation rq))
      (first_err (guard_err (elapsed (rq_deadline rq) now) (typed deadline_exceeded ''deadline has elapsed''))
        (validate_payload json (rq_payload rq)))))))))"

definition validate_response :: "unicode \<Rightarrow> (string \<Rightarrow> bool) \<Rightarrow> go_context \<Rightarrow> response \<Rightarrow> go_error option" where
  "validate_response U json ctx rs =
     first_err (context_error ctx)
      (first_err (guard_err (rs_version rs \<noteq> envelope_version) (version_error ''envelope'' (rs_version rs)))
      (first_err (validate_correlation (rs_correlation rs))
      (first_err (guard_err (rs_error rs \<noteq> None \<and> rs_payload rs \<noteq> [])
          (Plain ''response cannot contain both payload and error''))
      (first_err (guard_err (case rs_error rs of None \<Rightarrow> False | Some e \<Rightarrow> \<not> valid_call_error U e)
          (Plain ''response has invalid typed error''))
        (validate_payload json (rs_payload rs))))))"

fun to_call_error :: "go_error \<Rightarrow> string \<Rightarrow> call_error" where
  "to_call_error (Typed e) fallback = e"
| "to_call_error (Plain m) fallback = \<lparr>ce_category = fallback, ce_message = m\<rparr>"

subsection \<open>Dispatch\<close>

definition reply :: "request \<Rightarrow> response" where
  "reply rq = \<lparr>rs_version = envelope_version, rs_correlation = rq_correlation rq, rs_payload = [], rs_error = None\<rparr>"

definition fail :: "request \<Rightarrow> call_error \<Rightarrow> response" where
  "fail rq e = (reply rq)\<lparr>rs_error := Some e\<rparr>"

text \<open>
  A handler turns a request into a response and may change a state of its own.  The
  context of the call lives on while it runs; what its \<open>Err()\<close> says once the handler has
  returned is part of the outcome.
\<close>

type_synonym 's handler = "request \<Rightarrow> 's \<Rightarrow> response \<times> ctx_error option \<times> 's"

definition dispatch ::
  "unicode \<Rightarrow> (string \<Rightarrow> bool) \<Rightarrow> go_context \<Rightarrow> request \<Rightarrow> int \<Rightarrow> 's handler option \<Rightarrow> 's \<Rightarrow> response \<times> 's" where
  "dispatch U json ctx rq now handler s =
     (case handler of
        None \<Rightarrow> (fail rq \<lparr>ce_category = internal_error, ce_message = ''nil handler''\<rparr>, s)
      | Some h \<Rightarrow>
        (case validate_request json ctx rq now of
           Some e \<Rightarrow> (fail rq (to_call_error e invalid_request), s)
         | None \<Rightarrow>
           (let (rs, after, s') = h rq s in
            case validate_response U json (Context after) rs of
              Some e \<Rightarrow> (fail rq (to_call_error e internal_error), s')
            | None \<Rightarrow>
              (if rs_correlation rs \<noteq> rq_correlation rq
               then (fail rq \<lparr>ce_category = internal_error, ce_message = ''handler changed correlation_id''\<rparr>, s')
               else (rs, s')))))"

subsection \<open>Decoding an envelope\<close>

text \<open>
  \<open>decodeStrictLimit\<close>.  The reader is the bytes it yields or the message of its error (no
  reader is \<^const>\<open>None\<close>); \<open>decode\<close> is the strict decoder for the target type, with the value
  of its first JSON value and whether nothing follows it.
\<close>

type_synonym reader = "(string + string) option"

definition decode_strict_limit :: "reader \<Rightarrow> (string \<Rightarrow> ('a \<times> bool) option) \<Rightarrow> int \<Rightarrow> go_error + 'a" where
  "decode_strict_limit rd decode limit =
     (case rd of
        None \<Rightarrow> Inl (typed invalid_request ''nil envelope reader'')
      | Some (Inl m) \<Rightarrow> Inl (Plain (''read envelope: '' @ m))
      | Some (Inr bytes) \<Rightarrow>
          (if int (length bytes) > limit then Inl (typed payload_too_large ''envelope exceeds limit'')
           else case decode bytes of
               None \<Rightarrow> Inl (typed invalid_request ''invalid envelope JSON'')
             | Some (v, single) \<Rightarrow>
                 (if single then Inr v
                  else Inl (typed invalid_request ''envelope must contain exactly one JSON value''))))"

definition decode_request ::
  "(string \<Rightarrow> bool) \<Rightarrow> (string \<Rightarrow> (request \<times> bool) option) \<Rightarrow> go_context \<Rightarrow> reader \<Rightarrow> int \<Rightarrow> go_error + request" where
  "decode_request json decode ctx rd now =
     bind_res (decode_strict_limit rd decode max_envelope_bytes) (\<lambda>rq.
       case validate_request json ctx rq now of Some e \<Rightarrow> Inl e | None \<Rightarrow> Inr rq)"

definition decode_response ::
  "unicode \<Rightarrow> (string \<Rightarrow> bool) \<Rightarrow> (string \<Rightarrow> (response \<times> bool) option) \<Rightarrow> go_context \<Rightarrow> reader \<Rightarrow> go_error + response" where
  "decode_response U json decode ctx rd =
     bind_res (decode_strict_limit rd decode max_envelope_bytes) (\<lambda>rs.
       case validate_response U json ctx rs of Some e \<Rightarrow> Inl e | None \<Rightarrow> Inr rs)"

subsection \<open>Every message the kit writes itself is a valid typed error\<close>

lemma visible_not_space: "33 \<le> byte c \<Longrightarrow> byte c < 127 \<Longrightarrow> \<not> is_space U (byte c)"
  by (simp add: is_space_def)

lemma valid_message:
  assumes "valid_category cat" and "33 \<le> byte c" and "byte c < 127" and "length cs \<le> 1023"
  shows "valid_call_error U \<lparr>ce_category = cat, ce_message = c # cs\<rparr>"
  using assms trim_space_Cons [of c U cs] visible_not_space [of c U]
  by (simp add: valid_call_error_def)

definition good_error :: "unicode \<Rightarrow> go_error \<Rightarrow> bool" where
  "good_error U e \<longleftrightarrow> (\<forall>cat. valid_category cat \<longrightarrow> valid_call_error U (to_call_error e cat))"

definition kit_message :: "string \<Rightarrow> bool" where
  "kit_message m \<longleftrightarrow> (case m of [] \<Rightarrow> False | c # cs \<Rightarrow> 33 \<le> byte c \<and> byte c < 127 \<and> length cs \<le> 1023)"

lemma kit_message_valid:
  "kit_message m \<Longrightarrow> valid_category cat \<Longrightarrow> valid_call_error U \<lparr>ce_category = cat, ce_message = m\<rparr>"
  by (auto simp: kit_message_def intro: valid_message split: list.splits)

lemma good_Plain: "kit_message m \<Longrightarrow> good_error U (Plain m)"
  by (simp add: good_error_def kit_message_valid)

lemma good_typed: "valid_category cat \<Longrightarrow> kit_message m \<Longrightarrow> good_error U (typed cat m)"
  by (simp add: good_error_def typed_def kit_message_valid)

lemma good_categories [simp]:
  "valid_category invalid_request" "valid_category not_found" "valid_category unavailable"
  "valid_category deadline_exceeded" "valid_category canceled" "valid_category payload_too_large"
  "valid_category internal_error"
  by (simp_all add: valid_category_def)

definition context_good :: "unicode \<Rightarrow> go_context \<Rightarrow> bool" where
  "context_good U ctx \<longleftrightarrow> (case ctx of Context (Some e) \<Rightarrow>
     trim_space U (cx_message e) \<noteq> [] \<and> int (length (cx_message e)) \<le> 1024 | _ \<Rightarrow> True)"

lemma check_id_good:
  "kit_message (field @ '' must be a stable lowercase identifier of at most 64 bytes'') \<Longrightarrow>
     check_id field v = Some e \<Longrightarrow> good_error U e"
  by (auto simp: check_id_def validate_id_def guard_err_def good_Plain split: if_splits)

lemma version_error_good:
  assumes "kit_message (''unsupported '' @ what @ '' version 0123456789'')"
  shows "good_error U (version_error what v)"
proof -
  have "unat v < 2 ^ 32" using unsigned_less [of v, where ?'a = nat] by simp
  then have "unat v < 10 ^ 10" by simp
  then have "length (show_nat (unat v)) \<le> 10" using length_show_nat [of "unat v" 10] by simp
  with assms show ?thesis by (auto simp: version_error_def kit_message_def intro!: good_Plain)
qed

lemma context_error_good:
  assumes "context_good U ctx" and "context_error ctx = Some e"
  shows "good_error U e"
proof (cases ctx)
  case NilContext
  moreover have "kit_message ''nil context''" by (simp add: kit_message_def byte_def)
  ultimately show ?thesis using assms(2) by (auto intro: good_typed)
next
  case (Context err)
  with assms obtain x where "err = Some x" by (cases err) auto
  with Context assms show ?thesis
    by (auto simp: context_good_def good_error_def typed_def valid_call_error_def)
qed

text \<open>The message constants, checked once.\<close>

lemma kit_messages [simp]:
  "kit_message ''nil handler''" "kit_message ''handler changed correlation_id''"
  "kit_message ''deadline has elapsed''" "kit_message ''payload exceeds limit''"
  "kit_message ''payload is not valid JSON''" "kit_message ''interface_version must be positive''"
  "kit_message ''correlation_id must be 1-128 bytes''"
  "kit_message ''correlation_id must contain printable ASCII without spaces''"
  "kit_message ''response cannot contain both payload and error''"
  "kit_message ''response has invalid typed error''"
  "kit_message ''target_plugin must be a stable lowercase identifier of at most 64 bytes''"
  "kit_message ''interface must be a stable lowercase identifier of at most 64 bytes''"
  "kit_message ''method must be a stable lowercase identifier of at most 64 bytes''"
  "kit_message ''unsupported envelope version 0123456789''"
  by (simp_all add: kit_message_def byte_def)

definition all_good :: "unicode \<Rightarrow> go_error option \<Rightarrow> bool" where
  "all_good U c \<longleftrightarrow> (\<forall>e. c = Some e \<longrightarrow> good_error U e)"

lemma all_good_first [intro]: "all_good U a \<Longrightarrow> all_good U b \<Longrightarrow> all_good U (first_err a b)"
  by (cases a) (auto simp: all_good_def)

lemma all_good_guard [intro]: "good_error U e \<Longrightarrow> all_good U (guard_err bad e)"
  by (simp add: all_good_def guard_err_def)

lemma all_good_check_id [intro]:
  "kit_message (field @ '' must be a stable lowercase identifier of at most 64 bytes'') \<Longrightarrow>
     all_good U (check_id field v)"
  by (auto simp: all_good_def intro: check_id_good)

lemma all_good_context [intro]: "context_good U ctx \<Longrightarrow> all_good U (context_error ctx)"
  by (auto simp: all_good_def intro: context_error_good)

lemma all_good_payload [intro]: "all_good U (validate_payload json p)"
  unfolding validate_payload_def
  by (intro all_good_first all_good_guard good_typed; simp)

lemma all_good_correlation [intro]: "all_good U (validate_correlation v)"
  unfolding validate_correlation_def
  by (intro all_good_first all_good_guard good_Plain; simp)

lemma validate_request_good:
  "context_good U ctx \<Longrightarrow> all_good U (validate_request json ctx rq now)"
  unfolding validate_request_def
  by (intro all_good_first all_good_guard all_good_check_id all_good_context all_good_payload
      all_good_correlation good_Plain good_typed version_error_good; simp)

lemma validate_response_good:
  "context_good U ctx \<Longrightarrow> all_good U (validate_response U json ctx rs)"
  unfolding validate_response_def
  by (intro all_good_first all_good_guard all_good_context all_good_payload all_good_correlation
      good_Plain version_error_good; simp)

subsection \<open>What a caller of Dispatch can rely on\<close>

lemma validate_response_fail:
  "validate_response U json (Context None) (fail rq e) = None \<longleftrightarrow>
     validate_correlation (rq_correlation rq) = None \<and> valid_call_error U e"
  by (auto simp: validate_response_def fail_def reply_def first_err_None guard_err_None validate_payload_def
      max_payload_bytes_def)

lemma validate_response_context:
  "validate_response U json (Context c) rs = None \<Longrightarrow> validate_response U json (Context None) rs = None"
  by (simp add: validate_response_def check_simps)

lemma dispatch_answer:
  assumes "validate_correlation (rq_correlation rq) = None" and "context_good U ctx"
    and "\<forall>h. handler = Some h \<longrightarrow> context_good U (Context (fst (snd (h rq s))))"
  shows "validate_response U json (Context None) (fst (dispatch U json ctx rq now handler s)) = None"
proof (cases handler)
  case None
  then show ?thesis using assms(1)
    by (simp add: dispatch_def validate_response_fail kit_message_valid)
next
  case (Some h)
  obtain rs after s' where h: "h rq s = (rs, after, s')" by (cases "h rq s") auto
  show ?thesis
  proof (cases "validate_request json ctx rq now")
    case (Some e)
    then have "good_error U e" using validate_request_good [OF assms(2)] by (auto simp: all_good_def)
    with Some \<open>handler = Some h\<close> assms(1) show ?thesis
      by (simp add: dispatch_def validate_response_fail good_error_def)
  next
    case ok: None
    show ?thesis
    proof (cases "validate_response U json (Context after) rs")
      case (Some e)
      have "context_good U (Context after)" using assms(3) \<open>handler = Some h\<close> h by simp
      then have "good_error U e" using Some validate_response_good by (auto simp: all_good_def)
      with Some ok \<open>handler = Some h\<close> h assms(1) show ?thesis
        by (simp add: dispatch_def validate_response_fail good_error_def)
    next
      case None
      with ok \<open>handler = Some h\<close> h assms(1) validate_response_context [OF None] show ?thesis
        by (simp add: dispatch_def validate_response_fail kit_message_valid)
    qed
  qed
qed

lemma dispatch_correlation:
  "rs_correlation (fst (dispatch U json ctx rq now handler s)) = rq_correlation rq"
  by (auto simp: dispatch_def fail_def reply_def split: option.split prod.split)

text \<open>
  C23: whatever the handler does, the answer of \<open>Dispatch\<close> carries the correlation of the
  request, and it passes \<open>ValidateResponse\<close> exactly when that correlation is well formed: a
  malformed one is echoed in an answer that no caller accepts.  The contexts, the caller's and
  the one of the call, must explain their errors in messages of 1 to 1024 bytes that are not
  blank.
\<close>

theorem dispatch_answer_valid:
  assumes "context_good U ctx" and "\<forall>h. handler = Some h \<longrightarrow> context_good U (Context (fst (snd (h rq s))))"
  shows "rs_correlation (fst (dispatch U json ctx rq now handler s)) = rq_correlation rq \<and>
    (validate_response U json (Context None) (fst (dispatch U json ctx rq now handler s)) = None \<longleftrightarrow>
       rq_correlation rq \<noteq> [] \<and> length (rq_correlation rq) \<le> 128 \<and> visible_ascii (rq_correlation rq))"
proof -
  have ok: "validate_correlation c = None \<longleftrightarrow> c \<noteq> [] \<and> length c \<le> 128 \<and> visible_ascii c" for c
    by (auto simp: validate_correlation_def check_simps max_correlation_def)
  have "validate_correlation (rs_correlation rs) = None" if "validate_response U json (Context None) rs = None" for rs
    using that by (simp add: validate_response_def check_simps)
  then show ?thesis
    using dispatch_answer [OF _ assms] dispatch_correlation [of U json ctx rq now handler s] ok by metis
qed

definition sample_request :: request where
  "sample_request = \<lparr>rq_version = 1, rq_target = ''kit.demo'', rq_interface = ''action-route'',
     rq_interface_version = 1, rq_method = ''catalog'', rq_correlation = ''c-1'',
     rq_deadline = Some 10, rq_payload = ''{}''\<rparr>"

definition rude_handler :: "int handler" where
  "rude_handler rq s = (\<lparr>rs_version = 7, rs_correlation = ''other'', rs_payload = [], rs_error = None\<rparr>, None, s + 1)"

theorem dispatch_answer_valid_witness:
  "validate_response ascii_tables (\<lambda>_. True) (Context None)
     (fst (dispatch ascii_tables (\<lambda>_. True) (Context None) sample_request 3 (Some rude_handler) 0)) = None \<and>
   validate_response ascii_tables (\<lambda>_. True) (Context None)
     (fst (dispatch ascii_tables (\<lambda>_. True) (Context None) (sample_request\<lparr>rq_correlation := '' ''\<rparr>) 3 (Some rude_handler) 0)) \<noteq> None"
proof -
  have good: "context_good ascii_tables (Context None)" by (simp add: context_good_def)
  then have handler: "\<forall>h. Some rude_handler = Some h \<longrightarrow> context_good ascii_tables (Context (fst (snd (h rq 0))))" for rq
    by (simp add: rude_handler_def)
  have "visible_ascii (rq_correlation sample_request)" "\<not> visible_ascii '' ''" by code_simp+
  with dispatch_answer_valid [OF good handler, of "\<lambda>_. True" sample_request 3]
    dispatch_answer_valid [OF good handler, of "\<lambda>_. True" "sample_request\<lparr>rq_correlation := '' ''\<rparr>" 3]
  show ?thesis by (simp add: sample_request_def)
qed

definition request_ok :: "(string \<Rightarrow> bool) \<Rightarrow> request \<Rightarrow> int \<Rightarrow> bool" where
  "request_ok json rq now \<longleftrightarrow>
     rq_version rq = 1 \<and> rq_interface_version rq \<noteq> 0 \<and>
     (\<forall>v \<in> {rq_target rq, rq_interface rq, rq_method rq}. length v \<le> 64 \<and> stable_lang v) \<and>
     rq_correlation rq \<noteq> [] \<and> length (rq_correlation rq) \<le> 128 \<and> visible_ascii (rq_correlation rq) \<and>
     (\<exists>d. rq_deadline rq = Some d \<and> now < d) \<and>
     length (rq_payload rq) \<le> 1048576 \<and> (rq_payload rq = [] \<or> json (rq_payload rq))"

lemma stable_lang_nonempty: "stable_lang v \<Longrightarrow> v \<noteq> []"
  by (induction rule: stable_lang.induct) auto

lemma check_id_None [check_simps]: "check_id f v = None \<longleftrightarrow> length v \<le> 64 \<and> stable_lang v"
  by (auto simp: check_id_def validate_id_None dest: stable_lang_nonempty)

lemma validate_request_None:
  "validate_request json ctx rq now = None \<longleftrightarrow> ctx = Context None \<and> request_ok json rq now"
  by (auto simp: validate_request_def validate_correlation_def validate_payload_def check_simps request_ok_def
      envelope_version_def max_correlation_def max_payload_bytes_def elapsed_def
      split: option.splits)

text \<open>
  The handler runs exactly on the requests that meet the contract, in a live context:
  any other request leaves the handler's state alone and is answered with a typed error.
\<close>

theorem dispatch_guards_handler:
  "if ctx = Context None \<and> request_ok json rq now
   then snd (dispatch U json ctx rq now (Some h) s) = snd (snd (h rq s))
   else snd (dispatch U json ctx rq now (Some h) s) = s \<and>
     rs_error (fst (dispatch U json ctx rq now (Some h) s)) \<noteq> None"
proof (cases "validate_request json ctx rq now")
  case None
  moreover have "ctx = Context None \<and> request_ok json rq now"
    using None by (simp add: validate_request_None)
  ultimately show ?thesis
    by (cases "h rq s") (auto simp: dispatch_def split: option.splits)
next
  case (Some e)
  then have "\<not> (ctx = Context None \<and> request_ok json rq now)"
    using validate_request_None [of json ctx rq now] by auto
  with Some show ?thesis by (auto simp: dispatch_def fail_def)
qed

end
