(* ===== verification/Route.thy ===== *)
theory Route
  imports Interop
begin

text \<open>
  Action routing between plugins (runtime/interop/route.go): validation of catalogues,
  invocations and executions, the exact JSON object check, the dispatcher in front of a
  provider, the envelope served to another process and the client.

  JSON text is decoded and encoded by \<open>encoding/json\<close>.  The record \<open>wire\<close> holds what the
  code uses of it: the token stream of an object, the strict decoders, the encoders, and
  \<open>%q\<close> quoting.  A decoder answers with the message of its error or the value.  The code
  ranges over a Go map of the three required origin allowed; \<open>w_order\<close> selects the order.
\<close>

definition route_interface :: string where "route_interface = ''action-route''"
definition route_action_id :: string where "route_action_id = ''route''"
definition route_v1 :: "32 word" where "route_v1 = 1"
definition route_v2 :: "32 word" where "route_v2 = 2"
definition max_route_actions :: int where "max_route_actions = 256"
definition max_route_keys :: int where "max_route_keys = 8"
definition max_route_siblings :: int where "max_route_siblings = 36"
definition max_route_envelope :: int where "max_route_envelope = 65536"
definition max_route_text :: int where "max_route_text = 128"
definition max_route_reason :: int where "max_route_reason = 512"
definition method_catalog :: string where "method_catalog = ''catalog''"
definition method_invoke :: string where "method_invoke = ''invoke''"

record route_origin =
  ro_session :: string
  ro_workspace :: string
  ro_tab :: string
  ro_pane :: string

record route_action =
  ra_id :: string
  ra_label :: string
  ra_path :: "string list"
  ra_available :: bool
  ra_reason :: string

record route_catalog =
  rc_revision :: string
  rc_actions :: "route_action list"

record route_invocation =
  ri_origin :: route_origin
  ri_revision :: string
  ri_action :: string
  ri_keys :: "string list"

record route_execution =
  re_outcome :: string
  re_focus :: string
  re_operation :: string

record catalog_result =
  cr_target :: string
  cr_revision :: string
  cr_actions :: "route_action list"

record invoke_result =
  ir_target :: string
  ir_revision :: string
  ir_action :: string
  ir_outcome :: string
  ir_focus :: string
  ir_operation :: string

text \<open>
  The token stream of \<open>exactJSONObject\<close>: whether the first token opens an object, then per
  member the error of its name, or the name with the raw value or the error of reading it,
  then the error of the closing token, if any, and whether the input ends there.
\<close>

datatype scan_item = NameError string | Member string "string + string"

record object_scan =
  os_object :: bool
  os_items :: "scan_item list"
  os_close :: "string option"
  os_end :: bool

record wire =
  w_valid :: "string \<Rightarrow> bool"
  w_scan :: "string \<Rightarrow> object_scan"
  w_single :: "string \<Rightarrow> bool"
  w_array :: "string \<Rightarrow> string + string list"
  w_dec_origin :: "string \<Rightarrow> string + route_origin"
  w_dec_invocation :: "string \<Rightarrow> string + route_invocation"
  w_dec_catalog :: "string \<Rightarrow> string + catalog_result"
  w_dec_invoke :: "string \<Rightarrow> string + invoke_result"
  w_dec_request :: "string \<Rightarrow> string + request"
  w_dec_response :: "string \<Rightarrow> string + response"
  w_enc_origin :: "route_origin \<Rightarrow> string + string"
  w_enc_invocation :: "route_invocation \<Rightarrow> string + string"
  w_enc_catalog :: "catalog_result \<Rightarrow> string + string"
  w_enc_invoke :: "invoke_result \<Rightarrow> string + string"
  w_enc_response :: "response \<Rightarrow> string + string"
  w_quote :: "string \<Rightarrow> string"
  w_order :: nat

subsection \<open>Validation\<close>

definition validate_route_text :: "string \<Rightarrow> string \<Rightarrow> int \<Rightarrow> bool \<Rightarrow> go_error option" where
  "validate_route_text name v limit optional =
     (if v = [] \<and> optional then None
      else if v = [] \<or> int (length v) > limit \<or> \<not> valid_utf8 v \<or> contains_char nul v
      then Some (Plain (name @ '' must be 1-'' @ show_nat (nat limit) @ '' valid UTF-8 NUL-free bytes''))
      else None)"

definition origin_order :: "nat \<Rightarrow> string list" where
  "origin_order k = (let w = ''workspace''; t = ''tab''; p = ''pane'' in
     [[w, t, p], [w, p, t], [t, w, p], [t, p, w], [p, w, t], [p, t, w]] ! (k mod 6))"

definition origin_field :: "route_origin \<Rightarrow> string \<Rightarrow> string" where
  "origin_field og name =
     (if name = ''workspace'' then ro_workspace og else if name = ''tab'' then ro_tab og else ro_pane og)"

definition validate_route_origin :: "wire \<Rightarrow> route_origin \<Rightarrow> go_error option" where
  "validate_route_origin W og =
     first_err (check_each (\<lambda>_ name. validate_route_text name (origin_field og name) max_route_text False) 0
         (origin_order (w_order W)))
       (validate_route_text ''session'' (ro_session og) max_route_text True)"

definition valid_route_key :: "string \<Rightarrow> bool" where
  "valid_route_key k \<longleftrightarrow> length k = 1 \<and> (lower_ch (hd k) \<or> digit_ch (hd k))"

definition in_action :: "nat \<Rightarrow> go_error option \<Rightarrow> go_error option" where
  "in_action i e = map_option (\<lambda>x. Plain (''actions['' @ show_nat i @ '']: '' @ error_message x)) e"

type_synonym siblings = "string \<Rightarrow> string list"

text \<open>The keys of one path; \<open>pre\<close> is the join of the keys before, \<open>k\<close> the key's index.\<close>

fun scan_keys :: "wire \<Rightarrow> nat \<Rightarrow> nat \<Rightarrow> string \<Rightarrow> string list \<Rightarrow> siblings \<Rightarrow> go_error + siblings" where
  "scan_keys W i k pre [] sib = Inr sib"
| "scan_keys W i k pre (key # keys) sib =
     (if \<not> valid_route_key key
      then Inl (Plain (''actions['' @ show_nat i @ ''].suggested_path['' @ show_nat k @
             ''] is not a lowercase letter or digit''))
      else
        let here = List.insert key (sib pre) in
        if int (length here) > max_route_siblings
        then Inl (Plain (''route prefix '' @ w_quote W pre @ '' exceeds '' @ show_nat (nat max_route_siblings) @ '' siblings''))
        else scan_keys W i (Suc k) (pre @ key) keys (sib(pre := here)))"

fun scan_actions ::
  "wire \<Rightarrow> nat \<Rightarrow> route_action list \<Rightarrow> string set \<Rightarrow> string set \<Rightarrow> siblings \<Rightarrow> go_error option" where
  "scan_actions W i [] ids paths sib = None"
| "scan_actions W i (a # as) ids paths sib =
     first_err (in_action i (check_id ''action_id'' (ra_id a)))
      (first_err (guard_err (ra_id a \<in> ids) (Plain (''duplicate route action '' @ w_quote W (ra_id a))))
      (first_err (in_action i (validate_route_text ''label'' (ra_label a) max_route_text False))
      (first_err (in_action i (validate_route_text ''reason'' (ra_reason a) max_route_reason True))
      (first_err (guard_err (ra_path a = [] \<or> int (length (ra_path a)) \<ge> max_route_keys)
          (Plain (''actions['' @ show_nat i @ '']: suggested_path must contain 1-7 participant-relative keys'')))
      (case scan_keys W i 0 [] (ra_path a) sib of
         Inl e \<Rightarrow> Some e
       | Inr sib' \<Rightarrow>
           (let path = join [] (ra_path a) in
            if path \<in> paths then Some (Plain (''duplicate suggested_path '' @ w_quote W path))
            else scan_actions W (Suc i) as (insert (ra_id a) ids) (insert path paths) sib'))))))"

definition validate_route_catalog :: "wire \<Rightarrow> route_catalog \<Rightarrow> go_error option" where
  "validate_route_catalog W c =
     first_err (validate_route_text ''route_revision'' (rc_revision c) max_route_text False)
      (first_err (guard_err (int (length (rc_actions c)) > max_route_actions)
          (Plain (''route actions exceed '' @ show_nat (nat max_route_actions) @ '' entries'')))
        (scan_actions W 0 (rc_actions c) {} {} (\<lambda>_. [])))"

definition validate_route_invocation :: "wire \<Rightarrow> route_invocation \<Rightarrow> go_error option" where
  "validate_route_invocation W v =
     first_err (validate_route_origin W (ri_origin v))
      (first_err (validate_route_text ''route_revision'' (ri_revision v) max_route_text False)
      (first_err (check_id ''action_id'' (ri_action v))
      (first_err (guard_err (ri_keys v = [] \<or> int (length (ri_keys v)) > max_route_keys)
          (Plain (''keys must contain 1-'' @ show_nat (nat max_route_keys) @ '' entries'')))
        (check_each (\<lambda>i k. guard_err (\<not> valid_route_key k)
           (Plain (''keys['' @ show_nat i @ ''] is not a lowercase letter or digit''))) 0 (ri_keys v)))))"

definition operation_message :: string where
  "operation_message = ''operation_id must be 1-128 printable ASCII bytes without spaces''"

definition validate_operation_id :: "string \<Rightarrow> go_error option" where
  "validate_operation_id v =
     guard_err (v = [] \<or> int (length v) > max_route_text \<or> \<not> visible_ascii v) (Plain operation_message)"

definition legacy_outcome :: "string \<Rightarrow> bool" where
  "legacy_outcome v \<longleftrightarrow> v = ''completed'' \<or> v = ''rejected'' \<or> v = ''failed''"

definition validate_execution_version :: "wire \<Rightarrow> 32 word \<Rightarrow> route_execution \<Rightarrow> go_error option" where
  "validate_execution_version W v e =
     first_err
      (if v = route_v1 then guard_err (\<not> legacy_outcome (re_outcome e))
           (Plain (''invalid action-route v1 outcome '' @ w_quote W (re_outcome e)))
       else if v = route_v2 then
         guard_err (\<not> legacy_outcome (re_outcome e) \<and> re_outcome e \<noteq> ''accepted'' \<and> re_outcome e \<noteq> ''ui_handoff'')
           (Plain (''invalid action-route v2 outcome '' @ w_quote W (re_outcome e)))
       else Some (version_error ''action-route interface'' v))
      (first_err
        (if re_outcome e = ''accepted'' then validate_operation_id (re_operation e)
         else guard_err (re_operation e \<noteq> []) (Plain ''operation_id is only valid for an accepted route''))
        (guard_err (re_focus e \<noteq> ''preserved'' \<and> re_focus e \<noteq> ''changed'')
          (Plain (''invalid route focus '' @ w_quote W (re_focus e)))))"

definition validate_execution :: "wire \<Rightarrow> route_execution \<Rightarrow> go_error option" where
  "validate_execution W = validate_execution_version W route_v1"

subsection \<open>Exact JSON objects\<close>

fun scan_members :: "wire \<Rightarrow> string list \<Rightarrow> scan_item list \<Rightarrow> (string \<rightharpoonup> string) \<Rightarrow> go_error + (string \<rightharpoonup> string)" where
  "scan_members W allowed [] m = Inr m"
| "scan_members W allowed (NameError e # items) m = Inl (Plain e)"
| "scan_members W allowed (Member name raw # items) m =
     (if name \<notin> set allowed then Inl (Plain (''unknown exact action-route field '' @ w_quote W name))
      else if m name \<noteq> None then Inl (Plain (''duplicate action-route field '' @ w_quote W name))
      else case raw of
          Inl e \<Rightarrow> Inl (Plain e)
        | Inr v \<Rightarrow> scan_members W allowed items (m(name \<mapsto> v)))"

definition exact_json_object :: "wire \<Rightarrow> string \<Rightarrow> string list \<Rightarrow> go_error + (string \<rightharpoonup> string)" where
  "exact_json_object W d allowed =
     (let sc = w_scan W d in
      if \<not> os_object sc then Inl (Plain ''action-route JSON object required'')
      else bind_res (scan_members W allowed (os_items sc) Map.empty) (\<lambda>m.
        case os_close sc of
          Some e \<Rightarrow> Inl (Plain e)
        | None \<Rightarrow>
            (if os_end sc then Inr m
             else Inl (Plain ''action-route JSON must contain exactly one object''))))"

definition decode_exact_json :: "wire \<Rightarrow> (string \<Rightarrow> string + 'a) \<Rightarrow> string \<Rightarrow> string list \<Rightarrow> go_error + 'a" where
  "decode_exact_json W dec d allowed =
     (if int (length d) > max_route_envelope
      then Inl (Plain (''action-route JSON exceeds '' @ show_nat (nat max_route_envelope) @ '' bytes''))
      else bind_res (exact_json_object W d allowed) (\<lambda>_.
        case dec d of
          Inl e \<Rightarrow> Inl (Plain e)
        | Inr v \<Rightarrow>
            (if w_single W d then Inr v
             else Inl (Plain ''action-route JSON must contain exactly one value''))))"

definition request_fields :: "string list" where
  "request_fields = [''version'', ''target_plugin'', ''interface'', ''interface_version'', ''method'',
     ''correlation_id'', ''deadline'', ''payload'']"
definition catalog_payload_fields :: "string list" where "catalog_payload_fields = [''origin'']"
definition invoke_payload_fields :: "string list" where
  "invoke_payload_fields = [''origin'', ''route_revision'', ''action_id'', ''keys'']"
definition origin_fields :: "string list" where
  "origin_fields = [''session'', ''workspace'', ''tab'', ''pane'']"
definition response_fields :: "string list" where
  "response_fields = [''version'', ''correlation_id'', ''payload'', ''error'']"
definition call_error_fields :: "string list" where "call_error_fields = [''category'', ''message'']"
definition catalog_result_fields :: "string list" where
  "catalog_result_fields = [''target_plugin'', ''route_revision'', ''actions'']"
definition action_fields :: "string list" where
  "action_fields = [''action_id'', ''label'', ''suggested_path'', ''available'', ''reason'']"
definition invoke_result_fields_v1 :: "string list" where
  "invoke_result_fields_v1 = [''target_plugin'', ''route_revision'', ''action_id'', ''outcome'', ''focus'']"
definition invoke_result_fields_v2 :: "string list" where
  "invoke_result_fields_v2 = invoke_result_fields_v1 @ [''operation_id'']"

text \<open>A missing member reads as the empty raw message; \<open>%w\<close> puts a prefix before the message.\<close>

definition raw_member :: "(string \<rightharpoonup> string) \<Rightarrow> string \<Rightarrow> string" where
  "raw_member m name = (case m name of None \<Rightarrow> [] | Some v \<Rightarrow> v)"

definition with_prefix :: "string \<Rightarrow> go_error + 'a \<Rightarrow> go_error + 'a" where
  "with_prefix p r = (case r of Inl e \<Rightarrow> Inl (Plain (p @ '': '' @ error_message e)) | Inr v \<Rightarrow> Inr v)"

definition checked :: "go_error option \<Rightarrow> 'a \<Rightarrow> go_error + 'a" where
  "checked e v = (case e of Some x \<Rightarrow> Inl x | None \<Rightarrow> Inr v)"

definition decode_catalog_payload :: "wire \<Rightarrow> string \<Rightarrow> go_error + route_origin" where
  "decode_catalog_payload W d =
     bind_res (exact_json_object W d catalog_payload_fields) (\<lambda>m.
     bind_res (with_prefix ''origin'' (exact_json_object W (raw_member m ''origin'') origin_fields)) (\<lambda>_.
     bind_res (decode_exact_json W (w_dec_origin W) d catalog_payload_fields) (\<lambda>v.
       checked (validate_route_origin W v) v)))"

definition decode_invoke_payload :: "wire \<Rightarrow> string \<Rightarrow> go_error + route_invocation" where
  "decode_invoke_payload W d =
     bind_res (exact_json_object W d invoke_payload_fields) (\<lambda>m.
     bind_res (with_prefix ''origin'' (exact_json_object W (raw_member m ''origin'') origin_fields)) (\<lambda>_.
     bind_res (decode_exact_json W (w_dec_invocation W) d invoke_payload_fields) (\<lambda>v.
       checked (validate_route_invocation W v) v)))"

fun scan_raw_actions :: "wire \<Rightarrow> nat \<Rightarrow> string list \<Rightarrow> go_error option" where
  "scan_raw_actions W i [] = None"
| "scan_raw_actions W i (a # as) =
     (case with_prefix (''actions['' @ show_nat i @ '']'') (exact_json_object W a action_fields) of
        Inl e \<Rightarrow> Some e
      | Inr _ \<Rightarrow> scan_raw_actions W (Suc i) as)"

definition decode_catalog_result :: "wire \<Rightarrow> string \<Rightarrow> go_error + catalog_result" where
  "decode_catalog_result W d =
     bind_res (exact_json_object W d catalog_result_fields) (\<lambda>m.
       case w_array W (raw_member m ''actions'') of
         Inl e \<Rightarrow> Inl (Plain e)
       | Inr as \<Rightarrow>
         (case scan_raw_actions W 0 as of
            Some e \<Rightarrow> Inl e
          | None \<Rightarrow> decode_exact_json W (w_dec_catalog W) d catalog_result_fields))"

definition decode_invoke_result :: "wire \<Rightarrow> 32 word \<Rightarrow> string \<Rightarrow> go_error + invoke_result" where
  "decode_invoke_result W v d =
     (let allowed = (if v = route_v2 then invoke_result_fields_v2 else invoke_result_fields_v1) in
      bind_res (exact_json_object W d allowed) (\<lambda>m.
      bind_res (decode_exact_json W (w_dec_invoke W) d allowed) (\<lambda>r.
        if v \<noteq> route_v2 then Inr r
        else if ir_outcome r = ''accepted'' then
          (if m ''operation_id'' = None \<or> m ''operation_id'' = Some ''null''
           then Inl (Plain ''accepted route result requires operation_id'') else Inr r)
        else if m ''operation_id'' \<noteq> None
        then Inl (Plain ''operation_id is only valid for an accepted route'')
        else Inr r)))"

definition decode_envelope_response :: "wire \<Rightarrow> string \<Rightarrow> go_error + response" where
  "decode_envelope_response W d =
     bind_res (exact_json_object W d response_fields) (\<lambda>m.
       let raw = raw_member m ''error'' in
       bind_res (if raw \<noteq> [] \<and> raw \<noteq> ''null''
                 then with_prefix ''error'' (exact_json_object W raw call_error_fields)
                 else Inr Map.empty) (\<lambda>_.
         decode_exact_json W (w_dec_response W) d response_fields))"

subsection \<open>Requests on the route interface\<close>

definition unsupported_method :: string where "unsupported_method = ''unsupported action-route method''"

definition check_of :: "go_error + 'a \<Rightarrow> go_error option" where
  "check_of r = (case r of Inl e \<Rightarrow> Some e | Inr _ \<Rightarrow> None)"

definition validate_route_request :: "wire \<Rightarrow> go_context \<Rightarrow> request \<Rightarrow> int \<Rightarrow> go_error option" where
  "validate_route_request W ctx rq now =
     first_err (validate_request (w_valid W) ctx rq now)
      (first_err (guard_err (rq_interface rq \<noteq> route_interface \<or>
            (rq_interface_version rq \<noteq> route_v1 \<and> rq_interface_version rq \<noteq> route_v2))
          (Plain ''unsupported action-route interface''))
      (first_err (guard_err (rq_payload rq = []) (Plain ''action-route payload is missing''))
       (if rq_method rq = method_catalog then check_of (decode_catalog_payload W (rq_payload rq))
        else if rq_method rq = method_invoke then check_of (decode_invoke_payload W (rq_payload rq))
        else Some (Plain unsupported_method))))"

definition route_request_origin :: "wire \<Rightarrow> request \<Rightarrow> go_error + route_origin" where
  "route_request_origin W rq =
     (if rq_method rq = method_catalog then decode_catalog_payload W (rq_payload rq)
      else if rq_method rq = method_invoke
      then bind_res (decode_invoke_payload W (rq_payload rq)) (\<lambda>v. Inr (ri_origin v))
      else Inl (Plain unsupported_method))"

definition validate_envelope_response :: "unicode \<Rightarrow> wire \<Rightarrow> go_context \<Rightarrow> request \<Rightarrow> response \<Rightarrow> go_error option" where
  "validate_envelope_response U W ctx rq rs =
     first_err (validate_response U (w_valid W) ctx rs)
       (guard_err (rs_correlation rs \<noteq> rq_correlation rq) (Plain ''action-route correlation changed''))"

subsection \<open>The provider and the dispatcher in front of it\<close>

text \<open>
  A provider answers catalogue and invoke calls and may change its state \<open>'s\<close>.  A provider
  that implements the second interface version has a second pair of operations.
\<close>

record 's provider =
  pv_catalog :: "route_origin \<Rightarrow> 's \<Rightarrow> (go_error + route_catalog) \<times> 's"
  pv_invoke :: "route_invocation \<Rightarrow> 's \<Rightarrow> (go_error + route_execution) \<times> 's"
  pv_v2 :: "((route_origin \<Rightarrow> 's \<Rightarrow> (go_error + route_catalog) \<times> 's) \<times>
             (route_invocation \<Rightarrow> 's \<Rightarrow> (go_error + route_execution) \<times> 's)) option"

definition no_v2 :: go_error where
  "no_v2 = Plain ''action-route v2 provider is not implemented''"

definition provider_catalog ::
  "32 word \<Rightarrow> 's provider \<Rightarrow> route_origin \<Rightarrow> 's \<Rightarrow> (go_error + route_catalog) \<times> 's" where
  "provider_catalog v p og s =
     (if v = route_v1 then pv_catalog p og s
      else case pv_v2 p of None \<Rightarrow> (Inl no_v2, s) | Some (c, _) \<Rightarrow> c og s)"

definition provider_invoke ::
  "32 word \<Rightarrow> 's provider \<Rightarrow> route_invocation \<Rightarrow> 's \<Rightarrow> (go_error + route_execution) \<times> 's" where
  "provider_invoke v p iv s =
     (if v = route_v1 then pv_invoke p iv s
      else case pv_v2 p of None \<Rightarrow> (Inl no_v2, s) | Some (_, i) \<Rightarrow> i iv s)"

definition provider_error :: "unicode \<Rightarrow> go_error \<Rightarrow> call_error" where
  "provider_error U e =
     (case e of
        Typed t \<Rightarrow> (if valid_call_error U t then t
                    else \<lparr>ce_category = internal_error, ce_message = ''action-route provider failed''\<rparr>)
      | Plain _ \<Rightarrow> \<lparr>ce_category = internal_error, ce_message = ''action-route provider failed''\<rparr>)"

definition encoded :: "request \<Rightarrow> string + string \<Rightarrow> response" where
  "encoded rq r = (case r of
       Inl e \<Rightarrow> fail rq \<lparr>ce_category = internal_error, ce_message = e\<rparr>
     | Inr bytes \<Rightarrow> (reply rq)\<lparr>rs_payload := bytes\<rparr>)"

text \<open>The catalogue as it stands now: asked from the provider and validated.\<close>

definition current_catalog ::
  "unicode \<Rightarrow> wire \<Rightarrow> 's provider \<Rightarrow> request \<Rightarrow> route_origin \<Rightarrow> 's \<Rightarrow> (call_error + route_catalog) \<times> 's" where
  "current_catalog U W p rq og s =
     (case provider_catalog (rq_interface_version rq) p og s of
        (Inl e, s') \<Rightarrow> (Inl (provider_error U e), s')
      | (Inr c, s') \<Rightarrow>
          (case validate_route_catalog W c of
             Some e \<Rightarrow> (Inl (to_call_error e internal_error), s')
           | None \<Rightarrow> (Inr c, s')))"

definition select_action :: "route_catalog \<Rightarrow> route_invocation \<Rightarrow> call_error + route_action" where
  "select_action c iv =
     (if rc_revision c \<noteq> ri_revision iv
      then Inl \<lparr>ce_category = unavailable, ce_message = ''action-route catalog revision changed''\<rparr>
      else case find (\<lambda>a. ra_id a = ri_action iv) (rc_actions c) of
          None \<Rightarrow> Inl \<lparr>ce_category = not_found, ce_message = ''action-route action is not in the current catalog''\<rparr>
        | Some a \<Rightarrow>
            (if \<not> ra_available a
             then Inl \<lparr>ce_category = unavailable, ce_message =
                 ''action-route action is unavailable'' @ (if ra_reason a \<noteq> [] then '': '' @ ra_reason a else [])\<rparr>
             else Inr a))"

definition handle_catalog ::
  "unicode \<Rightarrow> wire \<Rightarrow> 's provider \<Rightarrow> request \<Rightarrow> 's \<Rightarrow> response \<times> 's" where
  "handle_catalog U W p rq s =
     (case decode_catalog_payload W (rq_payload rq) of
        Inl e \<Rightarrow> (fail rq (to_call_error e invalid_request), s)
      | Inr og \<Rightarrow>
          (case current_catalog U W p rq og s of
             (Inl e, s') \<Rightarrow> (fail rq e, s')
           | (Inr c, s') \<Rightarrow>
               (encoded rq (w_enc_catalog W \<lparr>cr_target = rq_target rq, cr_revision = rc_revision c,
                  cr_actions = rc_actions c\<rparr>), s')))"

definition handle_invoke ::
  "unicode \<Rightarrow> wire \<Rightarrow> 's provider \<Rightarrow> request \<Rightarrow> 's \<Rightarrow> response \<times> 's" where
  "handle_invoke U W p rq s =
     (case decode_invoke_payload W (rq_payload rq) of
        Inl e \<Rightarrow> (fail rq (to_call_error e invalid_request), s)
      | Inr iv \<Rightarrow>
          (case current_catalog U W p rq (ri_origin iv) s of
             (Inl e, s') \<Rightarrow> (fail rq e, s')
           | (Inr c, s') \<Rightarrow>
               (case select_action c iv of
                  Inl e \<Rightarrow> (fail rq e, s')
                | Inr _ \<Rightarrow>
                    (case provider_invoke (rq_interface_version rq) p iv s' of
                       (Inl e, s'') \<Rightarrow> (fail rq (provider_error U e), s'')
                     | (Inr x, s'') \<Rightarrow>
                         (case validate_execution_version W (rq_interface_version rq) x of
                            Some e \<Rightarrow> (fail rq (to_call_error e internal_error), s'')
                          | None \<Rightarrow>
                              (encoded rq (w_enc_invoke W \<lparr>ir_target = rq_target rq,
                                 ir_revision = ri_revision iv, ir_action = ri_action iv,
                                 ir_outcome = re_outcome x, ir_focus = re_focus x,
                                 ir_operation = re_operation x\<rparr>), s''))))))"

text \<open>
  The handler of \<open>DispatchRoute\<close>.  \<open>c0\<close> and \<open>c1\<close> are what \<open>Err()\<close> of the call's context says
  when the handler starts and when it has returned.
\<close>

definition route_handler ::
  "unicode \<Rightarrow> wire \<Rightarrow> 's provider option \<Rightarrow> int \<Rightarrow> ctx_error option \<Rightarrow> ctx_error option \<Rightarrow> 's handler" where
  "route_handler U W prov now c0 c1 rq s =
     (case prov of
        None \<Rightarrow> (fail rq \<lparr>ce_category = internal_error, ce_message = ''nil action-route provider''\<rparr>, c1, s)
      | Some p \<Rightarrow>
        (case validate_route_request W (Context c0) rq now of
           Some e \<Rightarrow> (fail rq (to_call_error e invalid_request), c1, s)
         | None \<Rightarrow>
             (let (rs, s') =
                (if rq_method rq = method_catalog then handle_catalog U W p rq s
                 else if rq_method rq = method_invoke then handle_invoke U W p rq s
                 else (fail rq \<lparr>ce_category = invalid_request, ce_message = unsupported_method\<rparr>, s))
              in (rs, c1, s'))))"

definition dispatch_route ::
  "unicode \<Rightarrow> wire \<Rightarrow> go_context \<Rightarrow> request \<Rightarrow> int \<Rightarrow> 's provider option \<Rightarrow>
     ctx_error option \<Rightarrow> ctx_error option \<Rightarrow> 's \<Rightarrow> response \<times> 's" where
  "dispatch_route U W ctx rq now prov c0 c1 s =
     dispatch U (w_valid W) ctx rq now (Some (route_handler U W prov now c0 c1)) s"

end
