(* ===== verification/RouteClient.thy ===== *)
theory RouteClient
  imports Route
begin

text \<open>
  Both ends of a route call: \<open>ServeRoute\<close>, which answers one envelope read from another
  process, and \<open>RouteClient\<close>, which validates what comes back
  (runtime/interop/route.go).
\<close>

subsection \<open>Serving one envelope\<close>

text \<open>The reader yields its bytes, or the message of the error it met within the limit.\<close>

definition read_route_envelope :: "string + string \<Rightarrow> go_error + string" where
  "read_route_envelope rd =
     (case rd of
        Inl m \<Rightarrow> Inl (Plain m)
      | Inr d \<Rightarrow>
          (if int (length d) > max_route_envelope
           then Inl (Plain (''action-route envelope exceeds '' @ show_nat (nat max_route_envelope) @ '' bytes''))
           else Inr d))"

text \<open>What is handed to the writer: the encoded response and a newline.\<close>

definition write_route_envelope :: "string \<Rightarrow> go_error + string" where
  "write_route_envelope bytes =
     (if int (length bytes) + 1 > max_route_envelope
      then Inl (Plain ''action-route response exceeds its bound'')
      else Inr (bytes @ [char_of (10 :: int)]))"

definition response_too_large :: "request \<Rightarrow> response" where
  "response_too_large rq = fail rq \<lparr>ce_category = payload_too_large,
     ce_message = ''action-route response exceeds its bound''\<rparr>"

definition encode_answer :: "wire \<Rightarrow> request \<Rightarrow> response \<Rightarrow> go_error + string" where
  "encode_answer W rq rs =
     (case w_enc_response W rs of
        Inl e \<Rightarrow> Inl (Plain e)
      | Inr bytes \<Rightarrow>
          (if int (length bytes) + 1 > max_route_envelope
           then (case w_enc_response W (response_too_large rq) of
                   Inl e \<Rightarrow> Inl (Plain e)
                 | Inr short \<Rightarrow> write_route_envelope short)
           else write_route_envelope bytes))"

definition serve_route ::
  "unicode \<Rightarrow> wire \<Rightarrow> go_context \<Rightarrow> string + string \<Rightarrow> int \<Rightarrow> 's provider option \<Rightarrow>
     ctx_error option \<Rightarrow> ctx_error option \<Rightarrow> 's \<Rightarrow> (go_error + string) \<times> 's" where
  "serve_route U W ctx rd now prov c0 c1 s =
     (case bind_res (read_route_envelope rd) (\<lambda>d. with_prefix ''decode action-route request''
              (bind_res (decode_exact_json W (w_dec_request W) d request_fields) (\<lambda>rq.
                 checked (validate_correlation (rq_correlation rq)) rq))) of
        Inl e \<Rightarrow> (Inl e, s)
      | Inr rq \<Rightarrow>
          (let (rs, s') = dispatch_route U W ctx rq now prov c0 c1 s
           in (encode_answer W rq rs, s')))"

subsection \<open>The client\<close>

text \<open>
  The caller transports a request and returns a response or an error.  The correlation is
  the outcome of the generator.  \<open>now\<close> is the client's clock when it builds the request and
  \<open>after\<close> what \<open>Err()\<close> of its context says once the answer is there.
\<close>

record 's route_client =
  cl_caller :: "(request \<Rightarrow> 's \<Rightarrow> (go_error + response) \<times> 's) option"
  cl_correlation :: "string + string"
  cl_version :: "32 word"

definition client_request ::
  "wire \<Rightarrow> 's route_client \<Rightarrow> string \<Rightarrow> string \<Rightarrow> int option \<Rightarrow> string \<Rightarrow> int \<Rightarrow> go_error + request" where
  "client_request W cl target meth deadline payload now =
     (case cl_correlation cl of
        Inl e \<Rightarrow> Inl (Plain (''create correlation: '' @ e))
      | Inr cid \<Rightarrow>
          (let rq = \<lparr>rq_version = envelope_version, rq_target = target, rq_interface = route_interface,
                 rq_interface_version = (if cl_version cl = 0 then route_v1 else cl_version cl),
                 rq_method = meth, rq_correlation = cid, rq_deadline = deadline, rq_payload = payload\<rparr>
           in checked (validate_route_request W (Context None) rq now) rq))"

text \<open>The part both operations share: marshal, build the request, call, check the envelope.\<close>

definition client_call ::
  "unicode \<Rightarrow> wire \<Rightarrow> 's route_client \<Rightarrow> string \<Rightarrow> string \<Rightarrow> int option \<Rightarrow> string + string \<Rightarrow> int \<Rightarrow> go_context \<Rightarrow> 's \<Rightarrow>
     (go_error + (request \<times> response)) \<times> 's" where
  "client_call U W cl target meth deadline payload now after s =
     (case payload of
        Inl e \<Rightarrow> (Inl (Plain e), s)
      | Inr p \<Rightarrow>
        (case (client_request W cl target meth deadline p now, cl_caller cl) of
           (Inl e, _) \<Rightarrow> (Inl e, s)
         | (Inr rq, None) \<Rightarrow> (Inl (Plain ''action-route requires a caller''), s)
         | (Inr rq, Some call) \<Rightarrow>
           (case call rq s of
              (Inl e, s') \<Rightarrow> (Inl e, s')
            | (Inr rs, s') \<Rightarrow>
              (case validate_envelope_response U W after rq rs of
                 Some e \<Rightarrow> (Inl e, s')
               | None \<Rightarrow>
                 (case rs_error rs of
                    Some e \<Rightarrow> (Inl (Typed e), s')
                  | None \<Rightarrow> (Inr (rq, rs), s'))))))"

definition no_caller :: go_error where "no_caller = Plain ''action-route requires a caller''"

definition client_catalog ::
  "unicode \<Rightarrow> wire \<Rightarrow> 's route_client \<Rightarrow> string \<Rightarrow> route_origin \<Rightarrow> int option \<Rightarrow> int \<Rightarrow> go_context \<Rightarrow> 's \<Rightarrow>
     (go_error + catalog_result) \<times> 's" where
  "client_catalog U W cl target og deadline now after s =
     (if cl_caller cl = None then (Inl no_caller, s)
      else case validate_route_origin W og of
          Some e \<Rightarrow> (Inl e, s)
        | None \<Rightarrow>
          (case client_call U W cl target method_catalog deadline (w_enc_origin W og) now after s of
             (Inl e, s') \<Rightarrow> (Inl e, s')
           | (Inr (rq, rs), s') \<Rightarrow>
               (bind_res (decode_catalog_result W (rs_payload rs)) (\<lambda>r.
                  if cr_target r \<noteq> target then Inl (Plain ''catalog target identity changed'')
                  else checked (validate_route_catalog W
                         \<lparr>rc_revision = cr_revision r, rc_actions = cr_actions r\<rparr>) r), s')))"

definition execution_of :: "invoke_result \<Rightarrow> route_execution" where
  "execution_of r = \<lparr>re_outcome = ir_outcome r, re_focus = ir_focus r, re_operation = ir_operation r\<rparr>"

definition client_invoke ::
  "unicode \<Rightarrow> wire \<Rightarrow> 's route_client \<Rightarrow> string \<Rightarrow> route_invocation \<Rightarrow> int option \<Rightarrow> int \<Rightarrow> go_context \<Rightarrow> 's \<Rightarrow>
     (go_error + invoke_result) \<times> 's" where
  "client_invoke U W cl target iv deadline now after s =
     (if cl_caller cl = None then (Inl no_caller, s)
      else case validate_route_invocation W iv of
          Some e \<Rightarrow> (Inl e, s)
        | None \<Rightarrow>
          (case client_call U W cl target method_invoke deadline (w_enc_invocation W iv) now after s of
             (Inl e, s') \<Rightarrow> (Inl e, s')
           | (Inr (rq, rs), s') \<Rightarrow>
               (bind_res (decode_invoke_result W (rq_interface_version rq) (rs_payload rs)) (\<lambda>r.
                  if ir_target r \<noteq> target \<or> ir_revision r \<noteq> ri_revision iv \<or> ir_action r \<noteq> ri_action iv
                  then Inl (Plain ''invoke response identity changed'')
                  else checked (validate_execution_version W (rq_interface_version rq) (execution_of r)) r), s')))"

end
