(* ===== verification/RouteLaws.thy ===== *)
theory RouteLaws
  imports RouteClient
begin

text \<open>
  What the route protocol guarantees: the declarative reading of catalogue validation, the
  exact object check, the effect of a dispatched call on its provider, the bound on a served
  answer, what a client accepts, and the round trip through client and dispatcher.
\<close>

subsection \<open>Exact objects\<close>

definition member_name :: "scan_item \<Rightarrow> string" where
  "member_name it = (case it of NameError e \<Rightarrow> [] | Member n _ \<Rightarrow> n)"

definition member_value :: "scan_item \<Rightarrow> string" where
  "member_value it = (case it of Member _ (Inr v) \<Rightarrow> v | _ \<Rightarrow> [])"

definition readable :: "scan_item \<Rightarrow> bool" where
  "readable it = (case it of Member _ (Inr _) \<Rightarrow> True | _ \<Rightarrow> False)"

lemma member_simps [simp]:
  "member_name (Member n raw) = n" "readable (Member n (Inr v))" "\<not> readable (Member n (Inl e))"
  "\<not> readable (NameError e)" "member_value (Member n (Inr v)) = v"
  by (simp_all add: member_name_def member_value_def readable_def)

lemma scan_members_Inr:
  "scan_members W allowed items m = Inr m' \<longleftrightarrow>
     list_all readable items \<and> member_name ` set items \<subseteq> set allowed \<and>
     distinct (map member_name items) \<and> member_name ` set items \<inter> dom m = {} \<and>
     m' = m ++ map_of (map (\<lambda>it. (member_name it, member_value it)) items)"
proof (induction W allowed items m rule: scan_members.induct)
  case (3 W allowed name raw items m)
  show ?case
  proof (cases "name \<in> set allowed \<and> m name = None \<and> (\<exists>v. raw = Inr v)")
    case False
    then show ?thesis by (cases raw) auto
  next
    case True
    then obtain v where v: "raw = Inr v" by blast
    let ?f = "\<lambda>it. (member_name it, member_value it)"
    have upd: "m(name \<mapsto> v) ++ map_of (map ?f items) = m ++ map_of (map ?f (Member name raw # items))"
      if "name \<notin> member_name ` set items"
    proof -
      have "map_of (map ?f items) name = None"
        using that by (force simp: map_of_eq_None_iff)
      then show ?thesis using v by (auto simp: fun_eq_iff map_add_def split: option.splits)
    qed
    have "scan_members W allowed (Member name raw # items) m = scan_members W allowed items (m(name \<mapsto> v))"
      using True v by simp
    also have "\<dots> = Inr m' \<longleftrightarrow> list_all readable items \<and> member_name ` set items \<subseteq> set allowed \<and>
        distinct (map member_name items) \<and> member_name ` set items \<inter> dom (m(name \<mapsto> v)) = {} \<and>
        m' = m(name \<mapsto> v) ++ map_of (map ?f items)"
      by (rule 3) (use True v in simp_all)
    also have "\<dots> \<longleftrightarrow> list_all readable (Member name raw # items) \<and>
        member_name ` set (Member name raw # items) \<subseteq> set allowed \<and>
        distinct (map member_name (Member name raw # items)) \<and>
        member_name ` set (Member name raw # items) \<inter> dom m = {} \<and>
        m' = m ++ map_of (map ?f (Member name raw # items))"
      using upd True v by (auto simp del: map_of.simps fun_upd_apply list.map(2)) (auto simp: dom_def)
    finally show ?thesis .
  qed
qed auto

lemma exact_json_object_Inr:
  "exact_json_object W d allowed = Inr m \<longleftrightarrow> os_object (w_scan W d) \<and>
     scan_members W allowed (os_items (w_scan W d)) Map.empty = Inr m \<and>
     os_close (w_scan W d) = None \<and> os_end (w_scan W d)"
  by (auto simp: exact_json_object_def Let_def bind_res_Inr split: option.splits)

text \<open>
  The exact object check admits exactly the objects whose member names are allowed and
  pairwise distinct, that are read without an error and followed by nothing; the map it
  returns holds the members that were read.  This is what rules out duplicate keys, which
  the JSON decoder itself would silently merge.
\<close>

theorem exact_json_object_iff:
  "exact_json_object W d allowed = Inr m \<longleftrightarrow>
     os_object (w_scan W d) \<and> os_close (w_scan W d) = None \<and> os_end (w_scan W d) \<and>
     list_all readable (os_items (w_scan W d)) \<and>
     member_name ` set (os_items (w_scan W d)) \<subseteq> set allowed \<and>
     distinct (map member_name (os_items (w_scan W d))) \<and>
     m = map_of (map (\<lambda>it. (member_name it, member_value it)) (os_items (w_scan W d)))"
  unfolding exact_json_object_Inr scan_members_Inr by auto

subsection \<open>Catalogues\<close>

definition text_ok :: "int \<Rightarrow> string \<Rightarrow> bool" where
  "text_ok limit v \<longleftrightarrow> v \<noteq> [] \<and> int (length v) \<le> limit \<and> valid_utf8 v \<and> \<not> contains_char nul v"

lemma validate_route_text_None [check_simps]:
  "validate_route_text name v limit optional = None \<longleftrightarrow> text_ok limit v \<or> (optional \<and> v = [])"
  by (auto simp: validate_route_text_def text_ok_def)

lemma in_action_None [check_simps]: "in_action i e = None \<longleftrightarrow> e = None"
  by (simp add: in_action_def)

definition route_keys :: "string list" where
  "route_keys = map (\<lambda>c. [c]) (map char_of ([48..57] @ [97..122 :: int]))"

lemma length_route_keys: "length route_keys = 36"
  by (simp add: route_keys_def)

lemma valid_route_key_iff: "valid_route_key k \<longleftrightarrow> k \<in> set route_keys"
proof
  assume "valid_route_key k"
  then obtain c where c: "k = [c]" "48 \<le> byte c \<and> byte c \<le> 57 \<or> 97 \<le> byte c \<and> byte c \<le> 122"
    by (cases k) (auto simp: valid_route_key_def lower_ch_def digit_ch_def)
  have "c = char_of (byte c)" by simp
  then have "k = [char_of (byte c)]" using c(1) by simp
  moreover have "byte c \<in> set ([48..57] @ [97..122])" using c(2) by (simp only: set_append set_upto) auto
  ultimately show "k \<in> set route_keys" unfolding route_keys_def set_map by (intro image_eqI) auto
next
  assume "k \<in> set route_keys"
  then show "valid_route_key k"
    by (auto simp: route_keys_def valid_route_key_def lower_ch_def digit_ch_def)
qed

text \<open>
  The sibling bound is the size of the key alphabet, so it never rejects a path of valid
  keys: every sibling list stays a duplicate-free list of valid keys.
\<close>

definition siblings_ok :: "siblings \<Rightarrow> bool" where
  "siblings_ok sib \<longleftrightarrow> (\<forall>p. distinct (sib p) \<and> set (sib p) \<subseteq> set route_keys)"

lemma siblings_insert:
  assumes "siblings_ok sib" and "valid_route_key k"
  shows "siblings_ok (sib(p := List.insert k (sib p)))" "length (List.insert k (sib p)) \<le> 36"
proof -
  have ok: "distinct (List.insert k (sib p))" "set (List.insert k (sib p)) \<subseteq> set route_keys"
    using assms by (auto simp: siblings_ok_def valid_route_key_iff)
  then show "siblings_ok (sib(p := List.insert k (sib p)))" using assms(1) by (auto simp: siblings_ok_def)
  have "length (List.insert k (sib p)) = card (set (List.insert k (sib p)))"
    by (rule distinct_card [OF ok(1), symmetric])
  also have "\<dots> \<le> card (set route_keys)" using ok(2) by (intro card_mono) simp_all
  also have "\<dots> \<le> 36" using card_length [of route_keys] by (simp add: length_route_keys)
  finally show "length (List.insert k (sib p)) \<le> 36" .
qed

lemma scan_keys_ok:
  "siblings_ok sib \<Longrightarrow> \<forall>k \<in> set ks. valid_route_key k \<Longrightarrow>
     \<exists>sib'. scan_keys W i n pre ks sib = Inr sib' \<and> siblings_ok sib'"
proof (induction W i n pre ks sib rule: scan_keys.induct)
  case (2 W i k pre key keys sib)
  have "\<not> int (length (List.insert key (sib pre))) > max_route_siblings"
    using siblings_insert(2) [of sib key pre] 2(2,3) by (simp add: max_route_siblings_def)
  moreover have "siblings_ok (sib(pre := List.insert key (sib pre)))"
    using siblings_insert(1) [of sib key pre] 2(2,3) by simp
  ultimately show ?case
    using 2(1) [OF _ refl] 2(3) by (simp add: Let_def del: fun_upd_apply)
qed simp

lemma scan_keys_bad: "\<exists>k \<in> set ks. \<not> valid_route_key k \<Longrightarrow> \<exists>e. scan_keys W i n pre ks sib = Inl e"
  by (induction W i n pre ks sib rule: scan_keys.induct) (auto simp: Let_def)

definition route_action_ok :: "route_action \<Rightarrow> bool" where
  "route_action_ok a \<longleftrightarrow> length (ra_id a) \<le> 64 \<and> stable_lang (ra_id a) \<and>
     text_ok 128 (ra_label a) \<and> (ra_reason a = [] \<or> text_ok 512 (ra_reason a)) \<and>
     1 \<le> length (ra_path a) \<and> length (ra_path a) \<le> 7 \<and> (\<forall>k \<in> set (ra_path a). k \<in> set route_keys)"

definition route_catalog_ok :: "route_catalog \<Rightarrow> bool" where
  "route_catalog_ok c \<longleftrightarrow> text_ok 128 (rc_revision c) \<and> length (rc_actions c) \<le> 256 \<and>
     (\<forall>a \<in> set (rc_actions c). route_action_ok a) \<and>
     distinct (map ra_id (rc_actions c)) \<and> distinct (map ra_path (rc_actions c))"

lemma scan_actions_None:
  "siblings_ok sib \<Longrightarrow> scan_actions W i as ids paths sib = None \<longleftrightarrow>
     (\<forall>a \<in> set as. route_action_ok a) \<and>
     distinct (map ra_id as) \<and> ra_id ` set as \<inter> ids = {} \<and>
     distinct (map (\<lambda>a. join [] (ra_path a)) as) \<and> (\<lambda>a. join [] (ra_path a)) ` set as \<inter> paths = {}"
proof (induction as arbitrary: i ids paths sib)
  case Nil
  then show ?case by simp
next
  case (Cons a as)
  let ?path = "join [] (ra_path a)"
  show ?case
  proof (cases "\<forall>k \<in> set (ra_path a). valid_route_key k")
    case False
    with scan_keys_bad [of "ra_path a" W i 0 "[]" sib] obtain e
      where "scan_keys W i 0 [] (ra_path a) sib = Inl e" by auto
    with False show ?thesis by (auto simp: check_simps route_action_ok_def valid_route_key_iff)
  next
    case True
    from scan_keys_ok [OF Cons.prems True, of W i 0 "[]"] obtain sib'
      where sib': "scan_keys W i 0 [] (ra_path a) sib = Inr sib'" "siblings_ok sib'" by auto
    have "scan_actions W i (a # as) ids paths sib = None \<longleftrightarrow>
        route_action_ok a \<and> ra_id a \<notin> ids \<and> ?path \<notin> paths \<and>
        scan_actions W (Suc i) as (insert (ra_id a) ids) (insert ?path paths) sib' = None"
      using sib'(1) True
      by (auto simp: check_simps route_action_ok_def valid_route_key_iff Let_def max_route_text_def
          max_route_reason_def max_route_keys_def Suc_le_eq)
    with Cons.IH [OF sib'(2)] show ?thesis by auto
  qed
qed

lemma join_keys_inject:
  "\<forall>k \<in> set ks. length k = 1 \<Longrightarrow> \<forall>k \<in> set ls. length k = 1 \<Longrightarrow> join [] ks = join [] ls \<longleftrightarrow> ks = ls"
proof (induction ks arbitrary: ls)
  case Nil
  then show ?case by (cases ls) (auto simp: join_empty_sep)
next
  case (Cons k ks)
  then show ?case
    by (cases ls) (auto simp: join_empty_sep length_Suc_conv)
qed

lemma distinct_joined_paths:
  assumes "\<forall>a \<in> set as. route_action_ok a"
  shows "distinct (map (\<lambda>a. join [] (ra_path a)) as) \<longleftrightarrow> distinct (map ra_path as)"
proof -
  have one: "\<forall>a \<in> set as. \<forall>k \<in> set (ra_path a). length k = 1"
    using assms by (auto simp: route_action_ok_def valid_route_key_def simp flip: valid_route_key_iff)
  then have "inj_on (join []) (ra_path ` set as)"
    by (intro inj_onI) (auto simp: join_keys_inject)
  then have "distinct (map (join []) (map ra_path as)) \<longleftrightarrow> distinct (map ra_path as)"
    by (subst distinct_map) auto
  then show ?thesis by (simp add: comp_def)
qed

lemma validate_route_catalog_None:
  "validate_route_catalog W c = None \<longleftrightarrow> route_catalog_ok c"
proof -
  have "siblings_ok (\<lambda>_. [])" by (simp add: siblings_ok_def)
  from scan_actions_None [OF this] have
    "scan_actions W 0 (rc_actions c) {} {} (\<lambda>_. []) = None \<longleftrightarrow>
       (\<forall>a \<in> set (rc_actions c). route_action_ok a) \<and> distinct (map ra_id (rc_actions c)) \<and>
       distinct (map ra_path (rc_actions c))"
    using distinct_joined_paths [of "rc_actions c"] by auto
  then show ?thesis
    by (auto simp: validate_route_catalog_def check_simps route_catalog_ok_def max_route_text_def
        max_route_actions_def)
qed

text \<open>
  A route catalogue is accepted exactly when its revision and texts are bounded UTF-8,
  its at most 256 actions have distinct identifiers and distinct paths of 1 to 7 lowercase
  letters or digits.  In particular the limit of 36 siblings per prefix never rejects a
  catalogue: it is the size of the key alphabet.
\<close>

theorem validate_route_catalog_iff:
  "validate_route_catalog W c = None \<longleftrightarrow> route_catalog_ok c"
  by (rule validate_route_catalog_None)

end
