(* ===== verification/RouteCalls.thy ===== *)
theory RouteCalls
  imports RouteLaws
begin

text \<open>
  Route calls end to end: what a dispatched request does to the provider, the bound on a
  served answer, what a client accepts, and the round trip of an invocation through client
  and dispatcher.
\<close>

subsection \<open>The effect of a request on the provider\<close>

lemma dispatch_state:
  "snd (dispatch U json ctx rq now (Some h) s) =
     (case validate_request json ctx rq now of Some e \<Rightarrow> s | None \<Rightarrow> snd (snd (h rq s)))"
  by (cases "h rq s") (auto simp: dispatch_def split: option.splits)

lemma checked_Inr [simp]: "checked e v = Inr w \<longleftrightarrow> e = None \<and> w = v"
  by (auto simp: checked_def split: option.splits)

lemma check_of_None: "check_of r = None \<longleftrightarrow> (\<exists>v. r = Inr v)"
  by (auto simp: check_of_def split: sum.splits)

definition admitted :: "wire \<Rightarrow> go_context \<Rightarrow> ctx_error option \<Rightarrow> request \<Rightarrow> int \<Rightarrow> bool" where
  "admitted W ctx c0 rq now \<longleftrightarrow> ctx = Context None \<and> c0 = None \<and> request_ok (w_valid W) rq now \<and>
     rq_interface rq = ''action-route'' \<and> (rq_interface_version rq = 1 \<or> rq_interface_version rq = 2) \<and>
     rq_payload rq \<noteq> []"

lemma validate_route_request_None:
  "validate_route_request W ctx rq now = None \<longleftrightarrow> admitted W ctx None rq now \<and>
     (if rq_method rq = ''catalog'' then \<exists>og. decode_catalog_payload W (rq_payload rq) = Inr og
      else rq_method rq = ''invoke'' \<and> (\<exists>iv. decode_invoke_payload W (rq_payload rq) = Inr iv))"
  by (auto simp: validate_route_request_def check_simps validate_request_None admitted_def check_of_None
      route_interface_def route_v1_def route_v2_def method_catalog_def method_invoke_def)

lemma select_action_Inr:
  "(\<exists>a. select_action c iv = Inr a) \<longleftrightarrow> rc_revision c = ri_revision iv \<and>
     (\<exists>a. find (\<lambda>a. ra_id a = ri_action iv) (rc_actions c) = Some a \<and> ra_available a)"
  by (auto simp: select_action_def split: option.splits)

lemma find_unique_id:
  assumes "distinct (map ra_id as)"
  shows "(\<exists>a. find (\<lambda>a. ra_id a = i) as = Some a \<and> ra_available a) \<longleftrightarrow>
    (\<exists>a \<in> set as. ra_id a = i \<and> ra_available a)"
proof
  assume "\<exists>a \<in> set as. ra_id a = i \<and> ra_available a"
  then obtain a where a: "a \<in> set as" "ra_id a = i" "ra_available a" by blast
  then obtain b where b: "find (\<lambda>a. ra_id a = i) as = Some b"
    by (cases "find (\<lambda>a. ra_id a = i) as") (auto dest: find_NoneD)
  then have "b \<in> set as" "ra_id b = i" by (auto dest: find_SomeD)
  with a assms have "b = a" by (metis distinct_map inj_onD)
  with a b show "\<exists>a. find (\<lambda>a. ra_id a = i) as = Some a \<and> ra_available a" by blast
qed (auto dest: find_SomeD)

text \<open>May \<open>iv\<close> run against what the provider answers to the catalogue call?\<close>

definition permits :: "go_error + route_catalog \<Rightarrow> route_invocation \<Rightarrow> bool" where
  "permits answer iv \<longleftrightarrow> (\<exists>c. answer = Inr c \<and> route_catalog_ok c \<and> rc_revision c = ri_revision iv \<and>
     (\<exists>a \<in> set (rc_actions c). ra_id a = ri_action iv \<and> ra_available a))"

lemma handle_invoke_state:
  assumes "decode_invoke_payload W (rq_payload rq) = Inr iv"
    and "provider_catalog (rq_interface_version rq) p (ri_origin iv) s = (answer, s1)"
  shows "snd (handle_invoke U W p rq s) =
    (if permits answer iv then snd (provider_invoke (rq_interface_version rq) p iv s1) else s1)"
proof (cases answer)
  case (Inl e)
  with assms show ?thesis by (simp add: handle_invoke_def current_catalog_def permits_def)
next
  case (Inr c)
  show ?thesis
  proof (cases "route_catalog_ok c")
    case False
    with Inr assms show ?thesis
      using validate_route_catalog_None [of W c]
      by (auto simp: handle_invoke_def current_catalog_def permits_def)
  next
    case True
    then have cur: "current_catalog U W p rq (ri_origin iv) s = (Inr c, s1)"
      using Inr assms(2) validate_route_catalog_None [of W c] by (simp add: current_catalog_def)
    have "permits answer iv \<longleftrightarrow> (\<exists>a. select_action c iv = Inr a)"
      using True Inr find_unique_id [of "rc_actions c" "ri_action iv"]
      by (auto simp: permits_def select_action_Inr route_catalog_ok_def)
    with assms(1) cur show ?thesis
      by (cases "provider_invoke (rq_interface_version rq) p iv s1"; cases "select_action c iv")
        (auto simp: handle_invoke_def split: sum.splits option.splits)
  qed
qed

lemma handle_catalog_state:
  assumes "decode_catalog_payload W (rq_payload rq) = Inr og"
  shows "snd (handle_catalog U W p rq s) = snd (provider_catalog (rq_interface_version rq) p og s)"
proof -
  obtain answer s1 where "provider_catalog (rq_interface_version rq) p og s = (answer, s1)" by fastforce
  with assms show ?thesis
    by (cases answer) (simp_all add: handle_catalog_def current_catalog_def split: option.split)
qed

lemma dispatch_route_state:
  "snd (dispatch_route U W ctx rq now (Some p) c0 c1 s) =
     (if validate_request (w_valid W) ctx rq now = None \<and> validate_route_request W (Context c0) rq now = None
      then (if rq_method rq = ''catalog'' then snd (handle_catalog U W p rq s)
            else if rq_method rq = ''invoke'' then snd (handle_invoke U W p rq s) else s)
      else s)"
  by (cases "validate_request (w_valid W) ctx rq now"; cases "validate_route_request W (Context c0) rq now")
    (simp_all add: dispatch_route_def dispatch_state route_handler_def method_catalog_def method_invoke_def
      split_beta)

text \<open>
  C12: a dispatched request touches the provider only as far as it is entitled to.  A
  request that is not a valid route request does not reach it; a catalogue request makes
  one catalogue call; an invocation makes a catalogue call and runs the action only if the
  fresh catalogue is valid, has the revision the caller saw, and offers the action as
  available.
\<close>

theorem dispatch_route_effect:
  "snd (dispatch_route U W ctx rq now (Some p) c0 c1 s) =
     (if \<not> admitted W ctx c0 rq now then s
      else if rq_method rq = ''catalog'' then
        (case decode_catalog_payload W (rq_payload rq) of
           Inl e \<Rightarrow> s
         | Inr og \<Rightarrow> snd (provider_catalog (rq_interface_version rq) p og s))
      else if rq_method rq = ''invoke'' then
        (case decode_invoke_payload W (rq_payload rq) of
           Inl e \<Rightarrow> s
         | Inr iv \<Rightarrow>
             (let (answer, s1) = provider_catalog (rq_interface_version rq) p (ri_origin iv) s
              in if permits answer iv then snd (provider_invoke (rq_interface_version rq) p iv s1) else s1))
      else s)"
proof (cases "validate_request (w_valid W) ctx rq now = None \<and> validate_route_request W (Context c0) rq now = None")
  case False
  then have "snd (dispatch_route U W ctx rq now (Some p) c0 c1 s) = s"
    unfolding dispatch_route_state by (simp only: if_False)
  moreover have "\<not> admitted W ctx c0 rq now \<or>
      (if rq_method rq = ''catalog'' then \<exists>e. decode_catalog_payload W (rq_payload rq) = Inl e
       else rq_method rq \<noteq> ''invoke'' \<or> (\<exists>e. decode_invoke_payload W (rq_payload rq) = Inl e))"
    using False
    by (cases "decode_catalog_payload W (rq_payload rq)"; cases "decode_invoke_payload W (rq_payload rq)")
      (auto simp: validate_route_request_None validate_request_None admitted_def)
  ultimately show ?thesis by auto
next
  case True
  then have adm: "admitted W ctx c0 rq now"
    by (auto simp: validate_route_request_None validate_request_None admitted_def)
  have state: "snd (dispatch_route U W ctx rq now (Some p) c0 c1 s) =
      (if rq_method rq = ''catalog'' then snd (handle_catalog U W p rq s)
       else if rq_method rq = ''invoke'' then snd (handle_invoke U W p rq s) else s)"
    unfolding dispatch_route_state using True by simp
  have kind: "if rq_method rq = ''catalog'' then \<exists>og. decode_catalog_payload W (rq_payload rq) = Inr og
      else rq_method rq = ''invoke'' \<and> (\<exists>iv. decode_invoke_payload W (rq_payload rq) = Inr iv)"
    using True unfolding validate_route_request_None by blast
  consider (cat) og where "rq_method rq = ''catalog''" "decode_catalog_payload W (rq_payload rq) = Inr og"
    | (ivk) iv where "rq_method rq = ''invoke''" "decode_invoke_payload W (rq_payload rq) = Inr iv"
    using kind that by (cases "rq_method rq = ''catalog''") (simp_all, blast+)
  then show ?thesis
  proof cases
    case cat
    then show ?thesis unfolding state using adm handle_catalog_state [OF cat(2)] by simp
  next
    case ivk
    obtain answer s1 where "provider_catalog (rq_interface_version rq) p (ri_origin iv) s = (answer, s1)"
      by fastforce
    with ivk adm handle_invoke_state [OF ivk(2) this, of U] show ?thesis unfolding state by simp
  qed
qed

subsection \<open>Serving\<close>

lemma write_route_envelope_Inr:
  "write_route_envelope bytes = Inr out \<longleftrightarrow>
     int (length bytes) + 1 \<le> max_route_envelope \<and> out = bytes @ [char_of (10 :: int)]"
  by (auto simp: write_route_envelope_def)

lemma encode_answer_Inr:
  assumes "encode_answer W rq rs = Inr out"
  shows "int (length out) \<le> max_route_envelope \<and>
    (w_enc_response W rs = Inr (butlast out) \<or> w_enc_response W (response_too_large rq) = Inr (butlast out))"
  using assms by (auto simp: encode_answer_def write_route_envelope_Inr split: sum.splits if_splits)

lemma with_prefix_Inr [simp]: "with_prefix p r = Inr v \<longleftrightarrow> r = Inr v"
  by (auto simp: with_prefix_def split: sum.splits)

text \<open>
  C24: what \<open>ServeRoute\<close> writes never exceeds 64 KiB, newline included.  It encodes the
  dispatcher's response to the decoded request, or the typed "too large" error, and always
  carries that request's correlation.
\<close>

theorem serve_route_bounded:
  assumes "serve_route U W ctx rd now prov c0 c1 s = (Inr out, s')"
  shows "length out \<le> 65536 \<and>
    (\<exists>d rq rs. rd = Inr d \<and> decode_exact_json W (w_dec_request W) d request_fields = Inr rq \<and>
       dispatch_route U W ctx rq now prov c0 c1 s = (rs, s') \<and>
       rs_correlation rs = rq_correlation rq \<and> rs_correlation (response_too_large rq) = rq_correlation rq \<and>
       (w_enc_response W rs = Inr (butlast out) \<or>
        w_enc_response W (response_too_large rq) = Inr (butlast out)))"
proof -
  obtain rq where rq: "bind_res (read_route_envelope rd) (\<lambda>d. with_prefix ''decode action-route request''
      (bind_res (decode_exact_json W (w_dec_request W) d request_fields) (\<lambda>rq.
         checked (validate_correlation (rq_correlation rq)) rq))) = Inr rq"
    and run: "(let (rs, s') = dispatch_route U W ctx rq now prov c0 c1 s in (encode_answer W rq rs, s')) = (Inr out, s')"
    using assms by (auto simp: serve_route_def split: sum.splits)
  obtain rs where rs: "dispatch_route U W ctx rq now prov c0 c1 s = (rs, s')"
    and out: "encode_answer W rq rs = Inr out"
    using run by (auto split: prod.splits)
  have "rs_correlation rs = rq_correlation rq"
    using dispatch_correlation [of U "w_valid W" ctx rq now "Some (route_handler U W prov now c0 c1)" s] rs
    by (simp add: dispatch_route_def)
  moreover have "rs_correlation (response_too_large rq) = rq_correlation rq"
    by (simp add: response_too_large_def fail_def reply_def)
  moreover obtain d where "rd = Inr d" "decode_exact_json W (w_dec_request W) d request_fields = Inr rq"
    using rq by (auto simp: bind_res_Inr read_route_envelope_def split: sum.splits if_splits)
  ultimately show ?thesis
    using encode_answer_Inr [OF out] rs by (auto simp: max_route_envelope_def)
qed

subsection \<open>What the client accepts\<close>

definition execution_ok :: "32 word \<Rightarrow> route_execution \<Rightarrow> bool" where
  "execution_ok v e \<longleftrightarrow>
     (v = 1 \<and> re_outcome e \<in> {''completed'', ''rejected'', ''failed''} \<or>
      v = 2 \<and> re_outcome e \<in> {''completed'', ''rejected'', ''failed'', ''accepted'', ''ui_handoff''}) \<and>
     (if re_outcome e = ''accepted''
      then re_operation e \<noteq> [] \<and> length (re_operation e) \<le> 128 \<and> visible_ascii (re_operation e)
      else re_operation e = []) \<and>
     re_focus e \<in> {''preserved'', ''changed''}"

lemma validate_execution_version_None: "validate_execution_version W v e = None \<longleftrightarrow> execution_ok v e"
proof (cases "re_outcome e = ''accepted''")
  case True
  then show ?thesis
    by (auto simp: validate_execution_version_def check_simps execution_ok_def legacy_outcome_def
        validate_operation_id_def route_v1_def route_v2_def max_route_text_def)
next
  case False
  then show ?thesis
    by (auto simp: validate_execution_version_def check_simps execution_ok_def legacy_outcome_def
        route_v1_def route_v2_def)
qed

definition client_version :: "'s route_client \<Rightarrow> 32 word" where
  "client_version cl = (if cl_version cl = 0 then 1 else cl_version cl)"

lemma client_call_Inr:
  assumes "client_call U W cl target meth deadline payload now after s = (Inr (rq, rs), s')"
  shows "rq_interface_version rq = client_version cl \<and> rq_target rq = target \<and>
    validate_route_request W (Context None) rq now = None \<and> rs_correlation rs = rq_correlation rq \<and>
    rs_error rs = None"
  using assms
  by (auto simp: client_call_def client_request_def client_version_def route_v1_def Let_def
      validate_envelope_response_def first_err_None guard_err_None split: sum.splits option.splits prod.splits)

text \<open>
  C25: whatever the transport and the provider behind it do, an invocation that succeeds at
  the client answers the call that was made: same target, revision and action, and an
  outcome, operation identifier and focus the interface version admits.
\<close>

theorem client_invoke_accepts:
  assumes "client_invoke U W cl target iv deadline now after s = (Inr r, s')"
  shows "ir_target r = target \<and> ir_revision r = ri_revision iv \<and> ir_action r = ri_action iv \<and>
    execution_ok (if cl_version cl = 0 then 1 else cl_version cl) (execution_of r) \<and>
    validate_route_invocation W iv = None"
proof -
  have valid: "cl_caller cl \<noteq> None" "validate_route_invocation W iv = None"
    using assms by (auto simp: client_invoke_def split: if_splits option.splits)
  obtain rq rs where call: "client_call U W cl target method_invoke deadline (w_enc_invocation W iv) now after s =
      (Inr (rq, rs), s')"
    using assms valid by (auto simp: client_invoke_def split: sum.splits prod.splits)
  then have "bind_res (decode_invoke_result W (rq_interface_version rq) (rs_payload rs)) (\<lambda>r.
      if ir_target r \<noteq> target \<or> ir_revision r \<noteq> ri_revision iv \<or> ir_action r \<noteq> ri_action iv
      then Inl (Plain ''invoke response identity changed'')
      else checked (validate_execution_version W (rq_interface_version rq) (execution_of r)) r) = Inr r"
    using assms valid by (simp add: client_invoke_def)
  then show ?thesis
    using client_call_Inr [OF call] valid(2)
    by (auto simp: bind_res_Inr validate_execution_version_None client_version_def split: if_splits)
qed

subsection \<open>Round trip\<close>

text \<open>
  What \<open>encoding/json\<close> documents of the texts it writes: an object of the members of the struct,
  in their order, each with its value, and no member that \<open>omitempty\<close> leaves out; decoding the
  text gives the value back and finds nothing after it.  Only \<open>w_scan\<close>, \<open>w_valid\<close>, \<open>w_single\<close>,
  the encoder and the decoder of \<open>encoding/json\<close> occur here, none of the kit's own decoders.
\<close>

definition json_object :: "wire \<Rightarrow> string \<Rightarrow> (string \<times> string) list \<Rightarrow> bool" where
  "json_object W d ms \<longleftrightarrow> d \<noteq> [] \<and> w_valid W d \<and> w_single W d \<and>
     w_scan W d = \<lparr>os_object = True, os_items = map (\<lambda>(n, v). Member n (Inr v)) ms, os_close = None, os_end = True\<rparr>"

definition marshals_invocation :: "wire \<Rightarrow> route_invocation \<Rightarrow> bool" where
  "marshals_invocation W iv \<longleftrightarrow>
     (\<exists>d og r a ks s w t p. w_enc_invocation W iv = Inr d \<and> w_dec_invocation W d = Inr iv \<and> int (length d) \<le> max_route_envelope \<and>
        json_object W d [(''origin'', og), (''route_revision'', r), (''action_id'', a), (''keys'', ks)] \<and>
        json_object W og [(''session'', s), (''workspace'', w), (''tab'', t), (''pane'', p)])"

definition marshals_result :: "wire \<Rightarrow> invoke_result \<Rightarrow> bool" where
  "marshals_result W x \<longleftrightarrow>
     (\<exists>d t r a u f p. w_enc_invoke W x = Inr d \<and> w_dec_invoke W d = Inr x \<and> int (length d) \<le> max_route_envelope \<and> p \<noteq> ''null'' \<and>
        json_object W d ([(''target_plugin'', t), (''route_revision'', r), (''action_id'', a), (''outcome'', u), (''focus'', f)] @
          (if ir_operation x = [] then [] else [(''operation_id'', p)])))"

lemma scan_members_map:
  "distinct (map fst ms) \<Longrightarrow> set (map fst ms) \<subseteq> set allowed \<Longrightarrow> set (map fst ms) \<inter> dom m = {} \<Longrightarrow>
     scan_members W allowed (map (\<lambda>(n, v). Member n (Inr v)) ms) m = Inr (m ++ map_of (rev ms))"
proof (induction ms arbitrary: m)
  case (Cons x ms)
  obtain a b where x: "x = (a, b)" by fastforce
  have fresh: "set (map fst ms) \<inter> dom (m(a \<mapsto> b)) = {}" using Cons.prems(1,3) x by auto
  have "scan_members W allowed (map (\<lambda>(n, v). Member n (Inr v)) ms) (m(a \<mapsto> b)) = Inr (m(a \<mapsto> b) ++ map_of (rev ms))"
    by (rule Cons.IH [OF _ _ fresh]) (use Cons.prems(1,2) in simp_all)
  moreover have "m a = None" using Cons.prems(3) x by auto
  ultimately show ?case using Cons.prems(2) x by (simp add: map_add_assoc)
qed simp

lemma exact_json_object_map:
  assumes "json_object W d ms" and "distinct (map fst ms)" and "set (map fst ms) \<subseteq> set allowed"
  shows "exact_json_object W d allowed = Inr (map_of (rev ms))"
  using assms scan_members_map [of ms allowed Map.empty W] by (simp add: exact_json_object_def json_object_def)

lemma decode_exact_json_map:
  assumes "json_object W d ms" and "distinct (map fst ms)" and "set (map fst ms) \<subseteq> set allowed"
    and "dec d = Inr v" and "int (length d) \<le> max_route_envelope"
  shows "decode_exact_json W dec d allowed = Inr v"
  using assms exact_json_object_map [OF assms(1-3)] by (simp add: decode_exact_json_def json_object_def)

text \<open>The kit's decoders read back what was marshalled.\<close>

lemma decode_marshalled_invocation:
  assumes "marshals_invocation W iv" and "validate_route_invocation W iv = None"
  shows "\<exists>d. w_enc_invocation W iv = Inr d \<and> decode_invoke_payload W d = Inr iv \<and> d \<noteq> [] \<and> w_valid W d \<and>
    int (length d) \<le> max_payload_bytes"
proof -
  obtain d og r a ks s w t p where d: "w_enc_invocation W iv = Inr d" "w_dec_invocation W d = Inr iv" "int (length d) \<le> max_route_envelope"
    and obj: "json_object W d [(''origin'', og), (''route_revision'', r), (''action_id'', a), (''keys'', ks)]"
    and orig: "json_object W og [(''session'', s), (''workspace'', w), (''tab'', t), (''pane'', p)]"
    using assms(1) by (auto simp: marshals_invocation_def)
  have o: "exact_json_object W og origin_fields = Inr (map_of (rev [(''session'', s), (''workspace'', w), (''tab'', t), (''pane'', p)]))"
    by (rule exact_json_object_map [OF orig]) (auto simp: origin_fields_def)
  have m: "exact_json_object W d invoke_payload_fields =
      Inr (map_of (rev [(''origin'', og), (''route_revision'', r), (''action_id'', a), (''keys'', ks)]))"
    by (rule exact_json_object_map [OF obj]) (auto simp: invoke_payload_fields_def)
  have v: "decode_exact_json W (w_dec_invocation W) d invoke_payload_fields = Inr iv"
    using obj _ _ d(2,3) by (rule decode_exact_json_map) (auto simp: invoke_payload_fields_def)
  have "decode_invoke_payload W d = Inr iv"
    using assms(2) by (simp add: decode_invoke_payload_def m v o raw_member_def with_prefix_def checked_def)
  moreover have "d \<noteq> [] \<and> w_valid W d \<and> int (length d) \<le> max_payload_bytes"
    using obj d(3) by (simp add: json_object_def max_route_envelope_def max_payload_bytes_def)
  ultimately show ?thesis using d(1) by blast
qed

lemma decode_marshalled_result:
  assumes "marshals_result W x" and "v = 1 \<or> v = 2" and "ir_operation x \<noteq> [] \<longleftrightarrow> ir_outcome x = ''accepted''"
    and "v = 1 \<Longrightarrow> ir_outcome x \<noteq> ''accepted''"
  shows "\<exists>d. w_enc_invoke W x = Inr d \<and> decode_invoke_result W v d = Inr x \<and> d \<noteq> [] \<and> w_valid W d \<and>
    int (length d) \<le> max_payload_bytes"
proof -
  obtain d t r a u f p where d: "w_enc_invoke W x = Inr d" "w_dec_invoke W d = Inr x" "int (length d) \<le> max_route_envelope" "p \<noteq> ''null''"
    and obj: "json_object W d ([(''target_plugin'', t), (''route_revision'', r), (''action_id'', a), (''outcome'', u), (''focus'', f)] @
      (if ir_operation x = [] then [] else [(''operation_id'', p)]))" (is "json_object W d ?ms")
    using assms(1) by (auto simp: marshals_result_def)
  define allowed where "allowed = (if v = route_v2 then invoke_result_fields_v2 else invoke_result_fields_v1)"
  have fields: "distinct (map fst ?ms)" "set (map fst ?ms) \<subseteq> set allowed"
    using assms(2-4) by (auto simp: allowed_def invoke_result_fields_v2_def invoke_result_fields_v1_def route_v2_def)
  have "exact_json_object W d allowed = Inr (map_of (rev ?ms))" using obj fields by (rule exact_json_object_map)
  moreover have "decode_exact_json W (w_dec_invoke W) d allowed = Inr x" using obj fields d(2,3) by (rule decode_exact_json_map)
  moreover have "map_of (rev ?ms) ''operation_id'' = (if ir_operation x = [] then None else Some p)" by simp
  ultimately have "decode_invoke_result W v d = Inr x"
    using assms(3) d(4) by (auto simp: decode_invoke_result_def allowed_def Let_def)
  moreover have "d \<noteq> [] \<and> w_valid W d \<and> int (length d) \<le> max_payload_bytes"
    using obj d(3) by (simp add: json_object_def max_route_envelope_def max_payload_bytes_def)
  ultimately show ?thesis using d(1) by blast
qed

text \<open>The transport that hands the request to a dispatcher in the same process.\<close>

definition direct :: "unicode \<Rightarrow> wire \<Rightarrow> 's provider \<Rightarrow> int \<Rightarrow> request \<Rightarrow> 's \<Rightarrow> (go_error + response) \<times> 's" where
  "direct U W p now rq s = (let (rs, s') = dispatch_route U W (Context None) rq now (Some p) None None s in (Inr rs, s'))"

definition invoke_answer :: "string \<Rightarrow> route_invocation \<Rightarrow> route_execution \<Rightarrow> invoke_result" where
  "invoke_answer target iv x = \<lparr>ir_target = target, ir_revision = ri_revision iv, ir_action = ri_action iv,
     ir_outcome = re_outcome x, ir_focus = re_focus x, ir_operation = re_operation x\<rparr>"

lemma execution_of_answer [simp]: "execution_of (invoke_answer t iv x) = x"
  by (simp add: execution_of_def invoke_answer_def)

lemma handle_invoke_success:
  assumes "decode_invoke_payload W (rq_payload rq) = Inr iv"
    and "provider_catalog (rq_interface_version rq) p (ri_origin iv) s = (Inr c, s1)" and "permits (Inr c) iv"
    and "provider_invoke (rq_interface_version rq) p iv s1 = (Inr x, s2)"
    and "execution_ok (rq_interface_version rq) x"
  shows "handle_invoke U W p rq s = (encoded rq (w_enc_invoke W (invoke_answer (rq_target rq) iv x)), s2)"
proof -
  have c: "route_catalog_ok c" "rc_revision c = ri_revision iv" using assms(3) by (auto simp: permits_def)
  obtain a where "find (\<lambda>a. ra_id a = ri_action iv) (rc_actions c) = Some a" "ra_available a"
    using assms(3) find_unique_id [of "rc_actions c" "ri_action iv"] by (auto simp: permits_def route_catalog_ok_def)
  with c have "select_action c iv = Inr a" by (simp add: select_action_def)
  moreover have "current_catalog U W p rq (ri_origin iv) s = (Inr c, s1)"
    using assms(2) c(1) validate_route_catalog_None [of W c] by (simp add: current_catalog_def)
  moreover have "validate_execution_version W (rq_interface_version rq) x = None"
    using assms(5) by (simp add: validate_execution_version_None)
  ultimately show ?thesis
    using assms(1,4) by (simp add: handle_invoke_def invoke_answer_def)
qed

lemma validate_response_answer:
  "validate_correlation (rq_correlation rq) = None \<Longrightarrow> w_valid W d \<Longrightarrow> int (length d) \<le> max_payload_bytes \<Longrightarrow>
     validate_response U (w_valid W) (Context None) (encoded rq (Inr d)) = None"
  by (simp add: validate_response_def encoded_def reply_def check_simps validate_payload_def)

text \<open>
  C26: an invocation that the client may make and the current catalogue permits goes through
  the client's request, the dispatcher's decoder and checks, the provider, and the client's
  decoder and checks, and comes back as exactly the provider's execution for this target,
  revision and action.  Of \<open>encoding/json\<close> it takes that it writes and reads these two values as
  documented, in texts of at most 64 KiB.
\<close>

theorem route_invoke_roundtrip:
  assumes caller: "cl_caller cl = Some (direct U W p later)" "cl_correlation cl = Inr cid"
    and client: "validate_correlation cid = None" "length target \<le> 64 \<and> stable_lang target"
      "v = (if cl_version cl = 0 then 1 else cl_version cl)" "v = 1 \<or> v = 2" "now < d \<and> later < d"
    and ivk: "validate_route_invocation W iv = None" "marshals_invocation W iv"
    and prov: "provider_catalog v p (ri_origin iv) s = (Inr c, s1)" "permits (Inr c) iv"
      "provider_invoke v p iv s1 = (Inr x, s2)" "execution_ok v x"
    and outcome: "marshals_result W (invoke_answer target iv x)"
  shows "client_invoke U W cl target iv (Some d) now (Context None) s = (Inr (invoke_answer target iv x), s2)"
proof -
  obtain pl where pl: "w_enc_invocation W iv = Inr pl" "decode_invoke_payload W pl = Inr iv" "pl \<noteq> []" "w_valid W pl"
    "int (length pl) \<le> max_payload_bytes" using decode_marshalled_invocation [OF ivk(2,1)] by blast
  obtain out where out: "w_enc_invoke W (invoke_answer target iv x) = Inr out"
    "decode_invoke_result W v out = Inr (invoke_answer target iv x)" "w_valid W out" "int (length out) \<le> max_payload_bytes"
    using decode_marshalled_result [OF outcome client(4)] prov(4)
    by (auto simp: invoke_answer_def execution_ok_def)
  define rq where "rq = \<lparr>rq_version = envelope_version, rq_target = target, rq_interface = route_interface,
    rq_interface_version = v, rq_method = method_invoke, rq_correlation = cid, rq_deadline = Some d, rq_payload = pl\<rparr>"
  have ids: "stable_lang ''action-route''" "stable_lang ''invoke''"
    using stable_id_lang [of "''action-route''"] stable_id_lang [of "''invoke''"]
    by (simp_all add: stable_id_def alnum_ch_def lower_ch_def digit_ch_def sep_ch_def byte_def)
  have "request_ok (w_valid W) rq t" if "t < d" for t
    using client pl that ids
    by (auto simp: request_ok_def rq_def envelope_version_def route_interface_def method_invoke_def
        validate_correlation_def check_simps max_correlation_def max_payload_bytes_def)
  then have adm: "admitted W (Context None) None rq t" if "t < d" for t
    using that client(4) pl(3) by (auto simp: admitted_def rq_def route_interface_def)
  then have ok: "validate_route_request W (Context None) rq t = None \<and>
      validate_request (w_valid W) (Context None) rq t = None" if "t < d" for t
    using that pl(2) by (auto simp: validate_route_request_None validate_request_None admitted_def rq_def method_invoke_def)
  have req: "client_request W cl target method_invoke (Some d) pl now = Inr rq"
    using ok [of now] client caller(2) by (auto simp: client_request_def rq_def route_v1_def)
  have handled: "handle_invoke U W p rq s = (encoded rq (Inr out), s2)"
    using handle_invoke_success [of W rq iv p s c s1 x s2 U] pl(2) prov out(1) by (simp add: rq_def)
  have good: "validate_response U (w_valid W) (Context None) (encoded rq (Inr out)) = None"
    by (rule validate_response_answer) (use client(1) out in \<open>simp_all add: rq_def\<close>)
  have corr: "rs_correlation (encoded rq (Inr out)) = rq_correlation rq" by (simp add: encoded_def reply_def)
  have "dispatch_route U W (Context None) rq later (Some p) None None s = (encoded rq (Inr out), s2)"
    using ok [of later] client(5) handled good corr
    by (simp add: dispatch_route_def dispatch_def route_handler_def rq_def method_catalog_def method_invoke_def)
  then have "client_call U W cl target method_invoke (Some d) (w_enc_invocation W iv) now (Context None) s =
      (Inr (rq, encoded rq (Inr out)), s2)"
    using pl(1) req caller(1) good corr
    by (simp add: client_call_def direct_def validate_envelope_response_def encoded_def reply_def)
  moreover have "validate_execution_version W v x = None" using prov(4) by (simp add: validate_execution_version_None)
  ultimately show ?thesis
    using caller(1) ivk(1) out(2)
    by (simp add: client_invoke_def encoded_def reply_def rq_def) (simp add: invoke_answer_def)
qed

subsection \<open>A concrete exchange\<close>

text \<open>
  One provider, one invocation, and a codec that knows the four texts of this exchange; it
  shows that the hypotheses above can hold together.
\<close>

definition plain_object :: "string list \<Rightarrow> object_scan" where
  "plain_object names = \<lparr>os_object = True, os_items = map (\<lambda>n. Member n (Inr ''{origin}'')) names,
     os_close = None, os_end = True\<rparr>"

definition sample_invocation :: route_invocation where
  "sample_invocation = \<lparr>ri_origin = \<lparr>ro_session = [], ro_workspace = ''w1'', ro_tab = ''t1'', ro_pane = ''p1''\<rparr>,
     ri_revision = ''r1'', ri_action = ''open'', ri_keys = [''g'']\<rparr>"

definition sample_execution :: route_execution where
  "sample_execution = \<lparr>re_outcome = ''completed'', re_focus = ''preserved'', re_operation = []\<rparr>"

definition route_request :: request where
  "route_request = \<lparr>rq_version = 1, rq_target = ''kit.demo'', rq_interface = ''action-route'',
     rq_interface_version = 1, rq_method = ''invoke'', rq_correlation = ''c-1'',
     rq_deadline = Some 10, rq_payload = ''{invocation}''\<rparr>"

definition sample_wire :: wire where
  "sample_wire = \<lparr>w_valid = (\<lambda>_. True),
     w_scan = (\<lambda>d. if d = ''{invocation}'' then plain_object invoke_payload_fields
               else if d = ''{origin}'' then plain_object origin_fields
               else if d = ''{result}'' then plain_object invoke_result_fields_v1
               else if d = ''{request}'' then plain_object request_fields
               else plain_object []),
     w_single = (\<lambda>_. True), w_array = (\<lambda>_. Inl ''array''), w_dec_origin = (\<lambda>_. Inl ''origin''),
     w_dec_invocation = (\<lambda>_. Inr sample_invocation), w_dec_catalog = (\<lambda>_. Inl ''catalog''),
     w_dec_invoke = (\<lambda>_. Inr (invoke_answer ''kit.demo'' sample_invocation sample_execution)),
     w_dec_request = (\<lambda>_. Inr route_request), w_dec_response = (\<lambda>_. Inl ''response''),
     w_enc_origin = (\<lambda>_. Inr ''{origin}''), w_enc_invocation = (\<lambda>_. Inr ''{invocation}''),
     w_enc_catalog = (\<lambda>_. Inr ''{catalog}''), w_enc_invoke = (\<lambda>_. Inr ''{result}''),
     w_enc_response = (\<lambda>_. Inr ''{response}''), w_quote = (\<lambda>v. v), w_order = 0\<rparr>"

definition sample_route_catalog :: route_catalog where
  "sample_route_catalog = \<lparr>rc_revision = ''r1'', rc_actions =
     [\<lparr>ra_id = ''open'', ra_label = ''Open'', ra_path = [''g''], ra_available = True, ra_reason = []\<rparr>]\<rparr>"

text \<open>The provider's state counts its catalogue calls and its invocations.\<close>

definition sample_provider :: "(int \<times> int) provider" where
  "sample_provider = \<lparr>pv_catalog = (\<lambda>_ (c, i). (Inr sample_route_catalog, (c + 1, i))),
     pv_invoke = (\<lambda>_ (c, i). (Inr sample_execution, (c, i + 1))), pv_v2 = None\<rparr>"

definition sample_client :: "(int \<times> int) route_client" where
  "sample_client = \<lparr>cl_caller = Some (direct ascii_tables sample_wire sample_provider 4),
     cl_correlation = Inr ''c-1'', cl_version = 0\<rparr>"

theorem serve_route_bounded_witness:
  "\<exists>rs. dispatch_route ascii_tables sample_wire (Context None) route_request 3 (Some sample_provider) None None (0, 0)
     = (rs, (1, 1)) \<and> rs_correlation rs = ''c-1''"
proof -
  have "serve_route ascii_tables sample_wire (Context None) (Inr ''{request}'') 3 (Some sample_provider) None None (0, 0)
      = (Inr (''{response}'' @ [char_of (10 :: int)]), (1, 1))" by code_simp
  from serve_route_bounded [OF this] obtain d rq rs where
    d: "decode_exact_json sample_wire (w_dec_request sample_wire) d request_fields = Inr rq"
    and rs: "dispatch_route ascii_tables sample_wire (Context None) rq 3 (Some sample_provider) None None (0, 0) = (rs, (1, 1))"
      "rs_correlation rs = rq_correlation rq" by blast
  have "rq = route_request"
    using d by (auto simp: decode_exact_json_def bind_res_Inr sample_wire_def split: if_splits)
  with rs show ?thesis by (auto simp: route_request_def)
qed

lemma sample_marshals:
  "marshals_invocation sample_wire sample_invocation"
  "marshals_result sample_wire (invoke_answer ''kit.demo'' sample_invocation sample_execution)"
proof -
  have obj: "json_object sample_wire ''{invocation}'' (map (\<lambda>n. (n, ''{origin}'')) invoke_payload_fields)"
    "json_object sample_wire ''{origin}'' (map (\<lambda>n. (n, ''{origin}'')) origin_fields)"
    "json_object sample_wire ''{result}'' (map (\<lambda>n. (n, ''{origin}'')) invoke_result_fields_v1)"
    by (simp_all add: json_object_def sample_wire_def plain_object_def)
  from obj(1,2) show "marshals_invocation sample_wire sample_invocation"
    unfolding marshals_invocation_def
    by (intro exI [of _ "''{invocation}''"] exI [of _ "''{origin}''"])
      (simp add: sample_wire_def max_route_envelope_def invoke_payload_fields_def origin_fields_def)
  from obj(3) show "marshals_result sample_wire (invoke_answer ''kit.demo'' sample_invocation sample_execution)"
    unfolding marshals_result_def
    by (intro exI [of _ "''{result}''"] exI [of _ "''{origin}''"])
      (simp add: sample_wire_def max_route_envelope_def invoke_result_fields_v1_def invoke_answer_def sample_execution_def)
qed

lemma sample_permits: "permits (Inr sample_route_catalog) sample_invocation"
proof -
  have "validate_route_catalog sample_wire sample_route_catalog = None" by code_simp
  then show ?thesis
    by (simp add: permits_def validate_route_catalog_None)
      (simp add: sample_route_catalog_def sample_invocation_def)
qed

theorem route_invoke_roundtrip_witness:
  "client_invoke ascii_tables sample_wire sample_client ''kit.demo'' sample_invocation (Some 9) 3 (Context None) (0, 0)
     = (Inr (invoke_answer ''kit.demo'' sample_invocation sample_execution), (1, 1))"
proof (rule route_invoke_roundtrip [where p = sample_provider and later = 4 and cid = "''c-1''" and v = 1
      and ?s1.0 = "(1, 0)" and c = sample_route_catalog])
  show "validate_correlation ''c-1'' = None" by code_simp
  show "length ''kit.demo'' \<le> 64 \<and> stable_lang ''kit.demo''"
    unfolding stable_id_lang [symmetric] by code_simp
  show "validate_route_invocation sample_wire sample_invocation = None" by code_simp
  show "execution_ok 1 sample_execution" by (simp add: execution_ok_def sample_execution_def)
qed (simp_all add: sample_client_def sample_marshals sample_permits provider_catalog_def provider_invoke_def
    route_v1_def sample_provider_def)

theorem client_invoke_accepts_witness:
  "execution_ok 1 sample_execution \<and> validate_route_invocation sample_wire sample_invocation = None"
proof -
  have "client_invoke ascii_tables sample_wire sample_client ''kit.demo'' sample_invocation (Some 9) 3 (Context None) (0, 0)
     = (Inr (invoke_answer ''kit.demo'' sample_invocation sample_execution), (1, 1))" by code_simp
  from client_invoke_accepts [OF this] show ?thesis by (simp add: sample_client_def)
qed

end
