(* ===== verification/RouteProcess.thy ===== *)
theory RouteProcess
  imports RouteCalls Manifest
begin

text \<open>
  Routing to a provider in another process (runtime/interop/route_process.go): discovering
  the one command that Herdr and both manifests of the provider agree on, and calling it.
  Herdr's command output, the manifests read from disk and the provider process are
  environment: their outcomes are arguments.
\<close>

subsection \<open>Unix paths\<close>

text \<open>\<open>filepath.Clean\<close>: split at slashes, drop empty and dot elements, resolve double dots.\<close>

fun split_path :: "string \<Rightarrow> string list" where
  "split_path [] = [[]]"
| "split_path (c # cs) =
     (if c = CHR ''/'' then [] # split_path cs
      else case split_path cs of [] \<Rightarrow> [[c]] | p # ps \<Rightarrow> (c # p) # ps)"

definition absolute :: "string \<Rightarrow> bool" where
  "absolute p = has_prefix ''/'' p"

text \<open>The elements kept so far, last one first.\<close>

fun clean_step :: "bool \<Rightarrow> string list \<Rightarrow> string \<Rightarrow> string list" where
  "clean_step rooted stack e =
     (if e = [] \<or> e = ''.'' then stack
      else if e = ''..'' then
        (case stack of
           [] \<Rightarrow> (if rooted then [] else [''..''])
         | e1 # rest \<Rightarrow> (if e1 = ''..'' then ''..'' # stack else rest))
      else e # stack)"

definition path_clean :: "string \<Rightarrow> string" where
  "path_clean p =
     (let rooted = absolute p;
          body = join ''/'' (rev (foldl (clean_step rooted) [] (split_path p)))
      in if rooted then ''/'' @ body else if body = [] then ''.'' else body)"

definition path_join :: "string \<Rightarrow> string \<Rightarrow> string" where
  "path_join d n = (if d = [] then (if n = [] then [] else path_clean n) else path_clean (d @ ''/'' @ n))"

subsection \<open>What discovery sees\<close>

record listed_action =
  la_id :: string
  la_title :: string
  la_description :: "string option"
  la_contexts :: "string list"
  la_command :: "string list"

record listed_plugin =
  lp_id :: string
  lp_enabled :: bool
  lp_root :: string
  lp_manifest_path :: string
  lp_actions :: "listed_action list"

record plugin_list =
  pl_id :: string
  pl_type :: string
  pl_plugins :: "listed_plugin list"

record disk_action =
  da_id :: string
  da_title :: string
  da_description :: string
  da_contexts :: "string list"
  da_command :: "string list"

record disk_manifest =
  dm_id :: string
  dm_actions :: "disk_action list"

text \<open>\<open>slices.Equal\<close> on a slice that may be nil: nil equals the empty slice.\<close>

definition slice :: "string list option \<Rightarrow> string list" where
  "slice s = (case s of None \<Rightarrow> [] | Some xs \<Rightarrow> xs)"

text \<open>The loops that look for one element and fail on a second.\<close>

fun find_once :: "('a \<Rightarrow> bool) \<Rightarrow> go_error \<Rightarrow> 'a option \<Rightarrow> 'a list \<Rightarrow> go_error + 'a option" where
  "find_once P dup found [] = Inr found"
| "find_once P dup found (x # xs) =
     (if \<not> P x then find_once P dup found xs
      else if found \<noteq> None then Inl dup
      else find_once P dup (Some x) xs)"

lemma find_once_Inr:
  "find_once P dup found xs = Inr r \<longleftrightarrow>
     (case found of Some y \<Rightarrow> filter P xs = [] \<and> r = Some y
      | None \<Rightarrow> (filter P xs = [] \<and> r = None) \<or> (\<exists>x. filter P xs = [x] \<and> r = Some x))"
  by (induction P dup found xs rule: find_once.induct) (auto split: option.splits)

definition required :: "go_error \<Rightarrow> 'a option \<Rightarrow> go_error + 'a" where
  "required e r = (case r of None \<Rightarrow> Inl e | Some x \<Rightarrow> Inr x)"

lemma required_Inr [simp]: "required e r = Inr x \<longleftrightarrow> r = Some x"
  by (auto simp: required_def split: option.splits)

definition unless :: "bool \<Rightarrow> go_error \<Rightarrow> go_error + 'a \<Rightarrow> go_error + 'a" where
  "unless bad e k = (if bad then Inl e else k)"

lemma unless_Inr [simp]: "unless bad e k = Inr x \<longleftrightarrow> \<not> bad \<and> k = Inr x"
  by (simp add: unless_def)

definition select_provider :: "(string \<Rightarrow> string) \<Rightarrow> string \<Rightarrow> plugin_list \<Rightarrow> go_error + listed_plugin" where
  "select_provider quote target pl =
     unless (pl_id pl \<noteq> ''cli:plugin'' \<or> pl_type pl \<noteq> ''plugin_list'') (Plain ''unexpected Herdr plugin-list response'')
      (bind_res (find_once (\<lambda>p. lp_id p = target)
          (Plain (''provider '' @ quote target @ '' is listed more than once'')) None (pl_plugins pl)) (\<lambda>m.
       bind_res (required (typed not_found ''action-route provider is not installed'') m) (\<lambda>p.
         unless (\<not> lp_enabled p) (typed unavailable ''action-route provider is disabled'')
          (unless (\<not> absolute (lp_root p) \<or> path_clean (lp_root p) \<noteq> lp_root p)
              (Plain ''provider root is not a clean absolute path'')
            (unless (lp_manifest_path p \<noteq> path_join (lp_root p) ''herdr-plugin.toml'')
              (Plain ''provider manifest path drifted from its root'') (Inr p))))))"

definition provided_count :: "32 word \<Rightarrow> manifest \<Rightarrow> nat" where
  "provided_count v m = length (filter (\<lambda>i. if_id i = route_interface \<and> if_version i = v \<and>
     if_direction i = ''provides'') (mf_interfaces m))"

text \<open>The command, once the manifests \<open>kit\<close> and \<open>herdr\<close> have been read from the root.\<close>

definition agree_command ::
  "string \<Rightarrow> 32 word \<Rightarrow> listed_plugin \<Rightarrow> manifest \<Rightarrow> disk_manifest \<Rightarrow> go_error + string list" where
  "agree_command target v p kit herdr =
     unless (mf_plugin_id kit \<noteq> target) (Plain ''provider manifest identity changed'')
      (unless (provided_count v kit \<noteq> 1)
          (Plain (''provider does not advertise exactly one action-route v'' @ show_nat (unat v) @ '' interface''))
      (bind_res (find_once (\<lambda>a. ma_id a = route_action_id)
          (Plain ''provider manifest declares the route action more than once'') None (mf_actions kit)) (\<lambda>m.
       bind_res (required (Plain ''provider manifest does not declare the route action'') m) (\<lambda>decl.
      unless (slice (ma_contexts decl) \<noteq> [''global'']) (Plain ''provider route action must be global'')
      (bind_res (find_once (\<lambda>a. da_id a = route_action_id)
          (Plain ''Herdr manifest declares the route action more than once'') None (dm_actions herdr)) (\<lambda>dm.
      unless (dm_id herdr \<noteq> target \<or> dm = None) (Plain ''Herdr manifest route identity changed'')
      (bind_res (required (Plain ''Herdr manifest route identity changed'') dm) (\<lambda>disk.
      unless (da_title disk \<noteq> ma_title decl \<or> da_description disk \<noteq> ma_description decl \<or>
            da_contexts disk \<noteq> slice (ma_contexts decl) \<or> da_command disk \<noteq> slice (ma_command decl))
          (Plain ''route action drifted between Herdr and plugin-kit manifests'')
      (bind_res (find_once (\<lambda>a. la_id a = route_action_id)
          (Plain ''Herdr listed the provider route action more than once'') None (lp_actions p)) (\<lambda>lm.
       bind_res (required (Plain ''Herdr did not list the provider route action'') lm) (\<lambda>seen.
      unless (la_title seen \<noteq> ma_title decl \<or>
            (case la_description seen of None \<Rightarrow> [] | Some x \<Rightarrow> x) \<noteq> ma_description decl \<or>
            la_contexts seen \<noteq> slice (ma_contexts decl) \<or> la_command seen \<noteq> slice (ma_command decl))
          (Plain ''provider route action drifted between Herdr and plugin-kit manifests'')
        (Inr (la_command seen)))))))))))))"

text \<open>
  \<open>discoverVersion\<close>: \<open>listing\<close> is the decoded outcome of the plugin list command for the
  argument vector it is given, \<open>manifests\<close> reads the two files under a root.
\<close>

definition discover_version ::
  "(string \<Rightarrow> string) \<Rightarrow> string \<Rightarrow> (string list \<Rightarrow> go_error + plugin_list) \<Rightarrow>
     (string \<Rightarrow> go_error + (manifest \<times> disk_manifest)) \<Rightarrow> string \<Rightarrow> 32 word \<Rightarrow> go_error + (string \<times> string list)" where
  "discover_version quote session listing manifests target v =
     (case check_id ''target_plugin'' target of
        Some e \<Rightarrow> Inl e
      | None \<Rightarrow>
        (case session_args session [''plugin'', ''list'', ''--json''] of
           Inl ExplicitDefaultSession \<Rightarrow>
             Inl (Plain ''the default Herdr session is represented by an empty session name'')
         | Inl InvalidSessionName \<Rightarrow> Inl (Plain ''invalid session name'')
         | Inr args \<Rightarrow>
             bind_res (listing args) (\<lambda>pl.
             bind_res (select_provider quote target pl) (\<lambda>p.
             bind_res (manifests (lp_root p)) (\<lambda>(kit, herdr).
             bind_res (agree_command target v p kit herdr) (\<lambda>cmd. Inr (lp_root p, cmd)))))))"

text \<open>
  What discovery amounts to, stated over the listing and the two manifests.  The provider is an
  enabled plugin listed once, under a clean absolute root that holds its manifest.  The kit's
  manifest and Herdr's manifest carry the identity asked for, the kit's provides the interface
  version exactly once, and each of them, and the listing, has exactly one route action; the
  three agree on it in title, description, the global context and the command.
\<close>

definition provider_listed :: "plugin_list \<Rightarrow> string \<Rightarrow> listed_plugin \<Rightarrow> bool" where
  "provider_listed pl target p \<longleftrightarrow>
     pl_id pl = ''cli:plugin'' \<and> pl_type pl = ''plugin_list'' \<and> filter (\<lambda>q. lp_id q = target) (pl_plugins pl) = [p] \<and>
     lp_enabled p \<and> absolute (lp_root p) \<and> path_clean (lp_root p) = lp_root p \<and>
     lp_manifest_path p = path_join (lp_root p) ''herdr-plugin.toml''"

definition command_agreed :: "string \<Rightarrow> 32 word \<Rightarrow> listed_plugin \<Rightarrow> manifest \<Rightarrow> disk_manifest \<Rightarrow> string list \<Rightarrow> bool" where
  "command_agreed target v p kit herdr cmd \<longleftrightarrow>
     mf_plugin_id kit = target \<and> dm_id herdr = target \<and>
     length (filter (\<lambda>i. if_id i = ''action-route'' \<and> if_version i = v \<and> if_direction i = ''provides'') (mf_interfaces kit)) = 1 \<and>
     (\<exists>decl disk seen. filter (\<lambda>a. ma_id a = ''route'') (mf_actions kit) = [decl] \<and>
        filter (\<lambda>a. da_id a = ''route'') (dm_actions herdr) = [disk] \<and> filter (\<lambda>a. la_id a = ''route'') (lp_actions p) = [seen] \<and>
        ma_contexts decl = Some [''global''] \<and> da_contexts disk = [''global''] \<and> la_contexts seen = [''global''] \<and>
        da_title disk = ma_title decl \<and> la_title seen = ma_title decl \<and>
        da_description disk = ma_description decl \<and> (case la_description seen of None \<Rightarrow> [] | Some x \<Rightarrow> x) = ma_description decl \<and>
        slice (ma_command decl) = cmd \<and> da_command disk = cmd \<and> la_command seen = cmd)"

lemma select_provider_iff: "select_provider quote target pl = Inr p \<longleftrightarrow> provider_listed pl target p"
  by (auto simp: select_provider_def provider_listed_def bind_res_Inr find_once_Inr)

lemma slice_global: "slice c = [''global''] \<longleftrightarrow> c = Some [''global'']" "slice (Some xs) = xs"
  by (auto simp: slice_def split: option.splits)

lemma agree_command_iff: "agree_command target v p kit herdr = Inr cmd \<longleftrightarrow> command_agreed target v p kit herdr cmd"
  by (auto simp: agree_command_def command_agreed_def bind_res_Inr find_once_Inr provided_count_def route_interface_def
      route_action_id_def slice_global)

definition usable_session :: "string \<Rightarrow> bool" where
  "usable_session s \<longleftrightarrow> (if s = [] then True else session_name s \<and> s \<noteq> ''default'')"

lemma session_args_iff:
  "session_args s args = Inr xs \<longleftrightarrow> usable_session s \<and> xs = [''--session'', if s = [] then ''default'' else s] @ args"
proof -
  have "session_name ''default''" unfolding validate_session_name_None [symmetric] by code_simp
  then show ?thesis
    by (auto simp: session_args_def usable_session_def Let_def validate_session_name_None split: option.splits)
      (simp_all add: check_simps flip: validate_session_name_None)
qed

lemma discover_version_iff:
  "discover_version quote session listing manifests target v = Inr (root, cmd) \<longleftrightarrow>
     length target \<le> 64 \<and> stable_lang target \<and> usable_session session \<and>
     (\<exists>pl p kit herdr. listing [''--session'', if session = [] then ''default'' else session, ''plugin'', ''list'', ''--json''] = Inr pl \<and>
        provider_listed pl target p \<and> manifests (lp_root p) = Inr (kit, herdr) \<and> command_agreed target v p kit herdr cmd \<and> lp_root p = root)"
proof -
  have "discover_version quote session listing manifests target v = Inr (root, cmd) \<longleftrightarrow>
     check_id ''target_plugin'' target = None \<and>
     (\<exists>args pl p kit herdr. session_args session [''plugin'', ''list'', ''--json''] = Inr args \<and> listing args = Inr pl \<and>
        select_provider quote target pl = Inr p \<and> manifests (lp_root p) = Inr (kit, herdr) \<and>
        agree_command target v p kit herdr = Inr cmd \<and> lp_root p = root)"
    by (auto simp: discover_version_def bind_res_Inr split: option.splits sum.splits session_error.splits)
  then show ?thesis
    by (simp add: session_args_iff select_provider_iff agree_command_iff check_id_None)
qed

subsection \<open>Calling the provider process\<close>

record run_result =
  rr_stdout :: string
  rr_stdout_truncated :: bool
  rr_stderr_truncated :: bool

text \<open>
  \<open>RouteProcessCaller.Call\<close> in a context that is not nil (the code panics on a nil one).
  \<open>run\<close> runs the provider: directory, argument vector and standard input to an outcome;
  \<open>prior\<close> and \<open>later\<close> are what \<open>Err()\<close> of the caller's context says at the start and of
  the call's context at the end.
\<close>

definition process_call ::
  "unicode \<Rightarrow> wire \<Rightarrow> (request \<Rightarrow> string + string) \<Rightarrow> bool \<Rightarrow> string \<Rightarrow>
     (string list \<Rightarrow> go_error + plugin_list) \<Rightarrow> (string \<Rightarrow> go_error + (manifest \<times> disk_manifest)) \<Rightarrow>
     (string \<Rightarrow> string list \<Rightarrow> string \<Rightarrow> go_error + run_result) \<Rightarrow>
     ctx_error option \<Rightarrow> ctx_error option \<Rightarrow> int \<Rightarrow> request \<Rightarrow> go_error + response" where
  "process_call U W enc runners session listing manifests run prior later now rq =
     unless (\<not> runners) (Plain ''action-route process caller requires Herdr and provider runners'')
      (unless (session \<noteq> [] \<and> validate_session_name session \<noteq> None) (Plain ''invalid session name'')
      (bind_res (checked (validate_route_request W (Context prior) rq now) rq) (\<lambda>_.
       bind_res (route_request_origin W rq) (\<lambda>og.
       unless (ro_session og \<noteq> session)
          (Plain ''action-route origin session differs from the configured Herdr session'')
      (bind_res (discover_version (w_quote W) session listing manifests (rq_target rq) (rq_interface_version rq))
        (\<lambda>(root, argv).
       bind_res (case enc rq of Inl e \<Rightarrow> Inl (Plain e) | Inr bytes \<Rightarrow> Inr bytes) (\<lambda>input.
       bind_res (run root argv input) (\<lambda>r.
       unless (rr_stdout_truncated r \<or> rr_stderr_truncated r)
          (typed payload_too_large ''action-route provider output exceeded its bound'')
      (unless (rr_stdout r = []) (Plain ''action-route provider returned no response'')
      (bind_res (with_prefix ''decode action-route response'' (decode_envelope_response W (rr_stdout r))) (\<lambda>rs.
         checked (validate_envelope_response U W (Context later) rq rs) rs)))))))))))"

text \<open>A request that may be made, from a session; and a response that answers it.\<close>

definition asked_from :: "wire \<Rightarrow> string \<Rightarrow> request \<Rightarrow> int \<Rightarrow> bool" where
  "asked_from W session rq now \<longleftrightarrow>
     admitted W (Context None) None rq now \<and>
     (if rq_method rq = ''catalog'' then \<exists>og. decode_catalog_payload W (rq_payload rq) = Inr og \<and> ro_session og = session
      else rq_method rq = ''invoke'' \<and> (\<exists>iv. decode_invoke_payload W (rq_payload rq) = Inr iv \<and> ro_session (ri_origin iv) = session))"

definition answers_request :: "unicode \<Rightarrow> wire \<Rightarrow> request \<Rightarrow> response \<Rightarrow> bool" where
  "answers_request U W rq rs \<longleftrightarrow>
     rs_version rs = 1 \<and> rs_correlation rs = rq_correlation rq \<and>
     (case rs_error rs of None \<Rightarrow> True | Some e \<Rightarrow> rs_payload rs = [] \<and> valid_call_error U e) \<and>
     length (rs_payload rs) \<le> 1048576 \<and> (if rs_payload rs = [] then True else w_valid W (rs_payload rs))"

lemma result_Inr:
  "checked e x = Inr y \<longleftrightarrow> e = None \<and> x = y" "with_prefix m q = Inr z \<longleftrightarrow> q = Inr z"
  "(case enc of Inl e \<Rightarrow> Inl (Plain e) | Inr b \<Rightarrow> Inr b) = Inr v \<longleftrightarrow> enc = Inr v"
  by (auto simp: checked_def with_prefix_def split: option.splits sum.splits)

lemma asked_from_iff:
  "validate_route_request W (Context c) rq now = None \<and> (\<exists>og. route_request_origin W rq = Inr og \<and> ro_session og = session) \<longleftrightarrow>
     c = None \<and> asked_from W session rq now"
  by (auto simp: validate_route_request_None asked_from_def admitted_def route_request_origin_def method_catalog_def
      method_invoke_def bind_res_Inr)

lemma answers_request_iff:
  assumes "admitted W (Context None) None rq now"
  shows "validate_envelope_response U W (Context c) rq rs = None \<longleftrightarrow> c = None \<and> answers_request U W rq rs"
  using assms
  by (auto simp: validate_envelope_response_def validate_response_def validate_payload_def validate_correlation_def check_simps
      answers_request_def admitted_def request_ok_def envelope_version_def max_payload_bytes_def max_correlation_def split: option.splits)

text \<open>
  C27: a process call returns a response exactly when the caller's session is usable, the request
  may be made and comes from that session, discovery in that session finds the provider and all
  three sources agree on its command, that command, run in the provider's root on the encoded
  request, prints an untruncated response, the context is never over, and the response answers
  this very request.  In every other case it returns an error.
\<close>

theorem process_call_sound:
  "process_call U W enc runners session listing manifests run prior later now rq = Inr rs \<longleftrightarrow>
     runners \<and> usable_session session \<and> prior = None \<and> later = None \<and> asked_from W session rq now \<and> answers_request U W rq rs \<and>
     (\<exists>pl p kit herdr cmd input r.
        listing [''--session'', if session = [] then ''default'' else session, ''plugin'', ''list'', ''--json''] = Inr pl \<and>
        provider_listed pl (rq_target rq) p \<and> manifests (lp_root p) = Inr (kit, herdr) \<and>
        command_agreed (rq_target rq) (rq_interface_version rq) p kit herdr cmd \<and> enc rq = Inr input \<and>
        run (lp_root p) cmd input = Inr r \<and> \<not> rr_stdout_truncated r \<and> \<not> rr_stderr_truncated r \<and> rr_stdout r \<noteq> [] \<and>
        decode_envelope_response W (rr_stdout r) = Inr rs)" (is "?call = _ \<longleftrightarrow> ?right")
proof -
  let ?runs = "\<lambda>root cmd. \<exists>input r. enc rq = Inr input \<and> run root cmd input = Inr r \<and> \<not> rr_stdout_truncated r \<and>
    \<not> rr_stderr_truncated r \<and> rr_stdout r \<noteq> [] \<and> decode_envelope_response W (rr_stdout r) = Inr rs"
  have usable: "usable_session session \<Longrightarrow> session = [] \<or> validate_session_name session = None"
    by (auto simp: usable_session_def validate_session_name_None split: if_splits)
  have adm: "asked_from W session rq now \<Longrightarrow> admitted W (Context None) None rq now" by (simp add: asked_from_def)
  then have target: "asked_from W session rq now \<Longrightarrow> length (rq_target rq) \<le> 64 \<and> stable_lang (rq_target rq)"
    by (simp add: admitted_def request_ok_def)
  define found where "found \<longleftrightarrow> (\<exists>root cmd. discover_version (w_quote W) session listing manifests (rq_target rq) (rq_interface_version rq) = Inr (root, cmd) \<and>
      ?runs root cmd)"
  have d: "found \<Longrightarrow> usable_session session" by (auto simp: found_def discover_version_iff)
  have "?call = Inr rs \<longleftrightarrow> runners \<and> (session = [] \<or> validate_session_name session = None) \<and>
      (validate_route_request W (Context prior) rq now = None \<and> (\<exists>og. route_request_origin W rq = Inr og \<and> ro_session og = session)) \<and>
      found \<and> validate_envelope_response U W (Context later) rq rs = None"
    unfolding found_def
    by (simp add: process_call_def bind_res_Inr result_Inr) (rule iffI; elim conjE exE; intro conjI exI; assumption?)
  also have "\<dots> \<longleftrightarrow> runners \<and> (prior = None \<and> asked_from W session rq now) \<and> found \<and> later = None \<and> answers_request U W rq rs"
    unfolding asked_from_iff using answers_request_iff [OF adm, of U later rs] usable d
    by (cases "asked_from W session rq now"; cases found) simp_all
  also have "\<dots> \<longleftrightarrow> ?right" (is "?found \<longleftrightarrow> _")
  proof
    assume left: ?found
    then obtain root cmd where "discover_version (w_quote W) session listing manifests (rq_target rq) (rq_interface_version rq) = Inr (root, cmd)"
      and runs: "?runs root cmd" by (auto simp: found_def)
    then show ?right using left unfolding discover_version_iff by blast
  next
    assume right: ?right
    then obtain pl p kit herdr cmd where "listing [''--session'', if session = [] then ''default'' else session, ''plugin'', ''list'', ''--json''] = Inr pl"
      "provider_listed pl (rq_target rq) p" "manifests (lp_root p) = Inr (kit, herdr)"
      "command_agreed (rq_target rq) (rq_interface_version rq) p kit herdr cmd" and runs: "?runs (lp_root p) cmd" by blast
    then have "discover_version (w_quote W) session listing manifests (rq_target rq) (rq_interface_version rq) = Inr (lp_root p, cmd)"
      using right target unfolding discover_version_iff by blast
    with runs have found unfolding found_def by blast
    with right show ?found by blast
  qed
  finally show ?thesis .
qed

subsection \<open>A concrete provider\<close>

definition sample_listing :: plugin_list where
  "sample_listing = \<lparr>pl_id = ''cli:plugin'', pl_type = ''plugin_list'', pl_plugins =
     [\<lparr>lp_id = ''kit.demo'', lp_enabled = True, lp_root = ''/opt/demo'',
       lp_manifest_path = ''/opt/demo/herdr-plugin.toml'', lp_actions =
        [\<lparr>la_id = ''route'', la_title = ''Route'', la_description = None, la_contexts = [''global''],
          la_command = [''demo'', ''route'']\<rparr>]\<rparr>]\<rparr>"

definition sample_kit_manifest :: manifest where
  "sample_kit_manifest = \<lparr>mf_plugin_id = ''kit.demo'', mf_name = ''Demo'', mf_version = ''1'', mf_description = [],
     mf_executable = ''demo'', mf_args = [], mf_capabilities = [], mf_actions =
       [\<lparr>ma_id = ''route'', ma_title = ''Route'', ma_description = [], ma_contexts = Some [''global''],
         ma_command = Some [''demo'', ''route'']\<rparr>],
     mf_events = [], mf_interfaces = [\<lparr>if_id = ''action-route'', if_version = 1, if_direction = ''provides''\<rparr>]\<rparr>"

definition sample_disk_manifest :: disk_manifest where
  "sample_disk_manifest = \<lparr>dm_id = ''kit.demo'', dm_actions =
     [\<lparr>da_id = ''route'', da_title = ''Route'', da_description = [], da_contexts = [''global''],
       da_command = [''demo'', ''route'']\<rparr>]\<rparr>"

definition process_wire :: wire where
  "process_wire = sample_wire\<lparr>
     w_scan := (\<lambda>d. if d = ''{invocation}'' then plain_object invoke_payload_fields
               else if d = ''{origin}'' then plain_object origin_fields else plain_object []),
     w_dec_response := (\<lambda>_. Inr \<lparr>rs_version = 1, rs_correlation = ''c-1'', rs_payload = ''{result}'', rs_error = None\<rparr>)\<rparr>"

text \<open>The call runs, and the theorem reads off its success what was agreed; a provider whose Herdr
  manifest names another command is not run.\<close>

definition sample_call :: "string list \<Rightarrow> go_error + response" where
  "sample_call cmd = process_call ascii_tables process_wire (\<lambda>_. Inr ''{request}'') True [] (\<lambda>_. Inr sample_listing)
      (\<lambda>_. Inr (sample_kit_manifest, sample_disk_manifest\<lparr>dm_actions := map (\<lambda>a. a\<lparr>da_command := cmd\<rparr>) (dm_actions sample_disk_manifest)\<rparr>))
      (\<lambda>_ _ _. Inr \<lparr>rr_stdout = ''{response}'', rr_stdout_truncated = False, rr_stderr_truncated = False\<rparr>)
      None None 3 route_request"

theorem process_call_sound_witness:
  "(\<exists>rs p. sample_call [''demo'', ''route''] = Inr rs \<and> answers_request ascii_tables process_wire route_request rs \<and>
      provider_listed sample_listing ''kit.demo'' p \<and> lp_root p = ''/opt/demo'') \<and> isl (sample_call [''other''])"
proof -
  have "isl (sample_call [''other''])" by code_simp
  moreover have "\<not> isl (sample_call [''demo'', ''route''])" by code_simp
  then obtain rs where rs: "sample_call [''demo'', ''route''] = Inr rs" by (cases "sample_call [''demo'', ''route'']") auto
  from rs [unfolded sample_call_def process_call_sound] obtain p where
    "answers_request ascii_tables process_wire route_request rs" "provider_listed sample_listing (rq_target route_request) p"
    by blast
  moreover from this(2) have "lp_root p = ''/opt/demo''" "rq_target route_request = ''kit.demo''"
    by (auto simp: provider_listed_def sample_listing_def route_request_def split: if_splits)
  ultimately show ?thesis using rs by auto
qed

end
