(* ===== verification/ActionHost.thy ===== *)
theory ActionHost
  imports Interop
begin

text \<open>
  Herdr actions: listing, invoking and awaiting them (runtime/actionhost/actionhost.go).
  Each operation runs one Herdr command; the decoded outcome of a command for its argument
  vector is an argument.  \<open>AwaitReceipt\<close> polls until the receipt is terminal and may poll
  for ever, so it is a partial function whose value \<^const>\<open>None\<close> is not returning.
\<close>

record host_action =
  ha_plugin :: string
  ha_action :: string
  ha_title :: string
  ha_command :: "string list"
  ha_contexts :: "string list"
  ha_description :: "string option"
  ha_platforms :: "string list"

record receipt =
  rt_log :: string
  rt_plugin :: string
  rt_action :: "string option"
  rt_command :: "string list"
  rt_status :: string
  rt_started :: "64 word"
  rt_finished :: "64 word option"
  rt_exit :: "int option"
  rt_stdout :: "string option"
  rt_stderr :: "string option"
  rt_error :: "string option"
  rt_event :: "string option"

definition running :: string where "running = ''running''"
definition succeeded :: string where "succeeded = ''succeeded''"
definition failed :: string where "failed = ''failed''"

lemmas status_defs = running_def succeeded_def failed_def

definition terminal :: "receipt \<Rightarrow> bool" where
  "terminal r \<longleftrightarrow> rt_status r = succeeded \<or> rt_status r = failed"

subsection \<open>Validation\<close>

definition validate_host_action :: "host_action \<Rightarrow> go_error option" where
  "validate_host_action a =
     first_err (check_id ''plugin_id'' (ha_plugin a))
      (first_err (check_id ''action_id'' (ha_action a))
      (first_err (guard_err (ha_title a = [] \<or> int (length (ha_title a)) > 128) (Plain ''invalid action title''))
        (guard_err (ha_command a = [] \<or> int (length (ha_command a)) > 128) (Plain ''invalid action command''))))"

definition validate_log_id :: "string \<Rightarrow> go_error option" where
  "validate_log_id v =
     guard_err (v = [] \<or> int (length v) > 128 \<or> contains_char nul v) (Plain ''log_id must be 1-128 NUL-free bytes'')"

definition validate_receipt :: "(string \<Rightarrow> string) \<Rightarrow> receipt \<Rightarrow> string \<Rightarrow> string \<Rightarrow> go_error option" where
  "validate_receipt quote r plugin act =
     first_err (validate_log_id (rt_log r))
      (first_err (guard_err (rt_plugin r \<noteq> plugin) (Plain ''receipt plugin identity changed''))
      (first_err (guard_err (rt_action r \<noteq> Some act) (Plain ''receipt action identity changed''))
      (first_err (guard_err (rt_status r \<noteq> running \<and> rt_status r \<noteq> succeeded \<and> rt_status r \<noteq> failed)
          (Plain (''invalid receipt status '' @ quote (rt_status r))))
        (guard_err (rt_command r = [] \<or> int (length (rt_command r)) > 128) (Plain ''invalid receipt command'')))))"

subsection \<open>Operations\<close>

text \<open>
  The host's commands.  A listing answers with the result type and the actions, an
  invocation with the type, the invoked action and its log entry, a log with the type and
  the entries.
\<close>

record host =
  ho_list :: "string list \<Rightarrow> go_error + (string \<times> host_action list)"
  ho_invoke :: "string list \<Rightarrow> go_error + (string \<times> host_action \<times> receipt)"
  ho_log :: "nat \<Rightarrow> string list \<Rightarrow> go_error + (string \<times> receipt list)"
  ho_quote :: "string \<Rightarrow> string"
  ho_done :: "nat \<Rightarrow> go_error option"

text \<open>
  \<open>ho_log n\<close> is what the \<open>n\<close>-th poll of the log sees, \<open>ho_done n\<close> the context's error if it
  is done before that poll's timer fires.
\<close>

definition wrap_error :: "string \<Rightarrow> go_error option \<Rightarrow> go_error option" where
  "wrap_error p e = map_option (\<lambda>x. Plain (p @ '': '' @ error_message x)) e"

definition list_actions :: "host \<Rightarrow> string \<Rightarrow> go_error + host_action list" where
  "list_actions h plugin =
     (case (if plugin \<noteq> [] then check_id ''plugin_id'' plugin else None) of
        Some e \<Rightarrow> Inl e
      | None \<Rightarrow>
        bind_res (ho_list h ([''plugin'', ''action'', ''list''] @ (if plugin \<noteq> [] then [''--plugin'', plugin] else [])))
         (\<lambda>(kind, as).
            if kind \<noteq> ''plugin_action_list'' then Inl (Plain (''unexpected action list result '' @ ho_quote h kind))
            else case check_each (\<lambda>i a.
                first_err (wrap_error (''actions['' @ show_nat i @ '']'') (validate_host_action a))
                  (guard_err (plugin \<noteq> [] \<and> ha_plugin a \<noteq> plugin)
                    (Plain (''actions['' @ show_nat i @ '']: plugin identity changed'')))) 0 as of
               Some e \<Rightarrow> Inl e
             | None \<Rightarrow> Inr as))"

definition invoke_action :: "host \<Rightarrow> string \<Rightarrow> string \<Rightarrow> go_error + receipt" where
  "invoke_action h plugin act =
     (case first_err (check_id ''plugin_id'' plugin) (check_id ''action_id'' act) of
        Some e \<Rightarrow> Inl e
      | None \<Rightarrow>
        bind_res (ho_invoke h [''plugin'', ''action'', ''invoke'', act, ''--plugin'', plugin]) (\<lambda>(kind, a, log).
          if kind \<noteq> ''plugin_action_invoked'' then Inl (Plain (''unexpected invoke result '' @ ho_quote h kind))
          else case first_err (wrap_error ''invoked action'' (validate_host_action a))
              (first_err (guard_err (ha_plugin a \<noteq> plugin \<or> ha_action a \<noteq> act)
                  (Plain ''invoked action identity changed''))
                (validate_receipt (ho_quote h) log plugin act)) of
             Some e \<Rightarrow> Inl e
           | None \<Rightarrow> Inr log))"

definition poll_receipt :: "host \<Rightarrow> nat \<Rightarrow> string \<Rightarrow> string \<Rightarrow> string \<Rightarrow> go_error + receipt" where
  "poll_receipt h n plugin act log =
     (case first_err (check_id ''plugin_id'' plugin) (first_err (check_id ''action_id'' act) (validate_log_id log)) of
        Some e \<Rightarrow> Inl e
      | None \<Rightarrow>
        bind_res (ho_log h n [''plugin'', ''log'', ''list'', ''--plugin'', plugin, ''--limit'', ''100'']) (\<lambda>(kind, logs).
          if kind \<noteq> ''plugin_log_list'' then Inl (Plain (''unexpected log list result '' @ ho_quote h kind))
          else case find (\<lambda>r. rt_log r = log) logs of
              None \<Rightarrow> Inl (Plain (''receipt '' @ ho_quote h log @ '' not found''))
            | Some r \<Rightarrow>
                (case validate_receipt (ho_quote h) r plugin act of Some e \<Rightarrow> Inl e | None \<Rightarrow> Inr r)))"

partial_function (option) await_loop ::
  "host \<Rightarrow> string \<Rightarrow> string \<Rightarrow> string \<Rightarrow> nat \<Rightarrow> receipt \<Rightarrow> (go_error + receipt) option" where
  "await_loop h plugin act log n current =
     (if terminal current then Some (Inr current)
      else case ho_done h n of
          Some e \<Rightarrow> Some (Inl e)
        | None \<Rightarrow>
            (case poll_receipt h n plugin act log of
               Inl e \<Rightarrow> Some (Inl e)
             | Inr next \<Rightarrow> await_loop h plugin act log (Suc n) next))"

declare await_loop.simps [code]

definition await_receipt :: "host \<Rightarrow> receipt \<Rightarrow> int \<Rightarrow> (go_error + receipt) option" where
  "await_receipt h initial interval =
     (if interval \<le> 0 then Some (Inl (Plain ''poll interval must be positive''))
      else case rt_action initial of
          None \<Rightarrow> Some (Inl (Plain ''receipt has no action_id''))
        | Some act \<Rightarrow>
            (case validate_receipt (ho_quote h) initial (rt_plugin initial) act of
               Some e \<Rightarrow> Some (Inl e)
             | None \<Rightarrow> await_loop h (rt_plugin initial) act (rt_log initial) 0 initial))"

subsection \<open>What the operations promise\<close>

lemma validate_receipt_None [check_simps]:
  "validate_receipt quote r plugin act = None \<longleftrightarrow>
     rt_log r \<noteq> [] \<and> length (rt_log r) \<le> 128 \<and> \<not> contains_char nul (rt_log r) \<and>
     rt_plugin r = plugin \<and> rt_action r = Some act \<and> rt_status r \<in> {running, succeeded, failed} \<and>
     rt_command r \<noteq> [] \<and> length (rt_command r) \<le> 128"
  by (auto simp: validate_receipt_def validate_log_id_def first_err_None guard_err_None)

lemma invoke_action_Inr:
  assumes "invoke_action h plugin act = Inr r"
  shows "validate_receipt (ho_quote h) r plugin act = None"
  using assms by (auto simp: invoke_action_def bind_res_Inr first_err_None split: option.splits if_splits)

lemma poll_receipt_Inr:
  assumes "poll_receipt h n plugin act log = Inr r"
  shows "validate_receipt (ho_quote h) r plugin act = None \<and> rt_log r = log"
  using assms
  by (auto simp: poll_receipt_def bind_res_Inr split: option.splits if_splits dest: find_SomeD)

lemma await_loop_Inr:
  assumes "await_loop h plugin act log n current = Some (Inr r)"
    and "validate_receipt (ho_quote h) current plugin act = None" and "rt_log current = log"
  shows "terminal r \<and> validate_receipt (ho_quote h) r plugin act = None \<and> rt_log r = log"
  using assms
proof (induction h plugin act log n current "Inr r :: go_error + receipt" arbitrary: r
    rule: await_loop.raw_induct [split_format (complete), rotated, consumes 1, case_names loop])
  case (loop await h plugin act log n current)
  show ?case
  proof (cases "terminal current")
    case True
    with loop show ?thesis by auto
  next
    case False
    with loop(2) obtain r' where r': "poll_receipt h n plugin act log = Inr r'"
      "await h plugin act log (Suc n) r' = Some (Inr r)"
      by (auto split: option.splits sum.splits)
    with poll_receipt_Inr [OF r'(1)] loop(1) show ?thesis by blast
  qed
qed

text \<open>Waiting ends as soon as some poll ends it: by its context, an error, or a terminal receipt.\<close>

definition poll_ends :: "host \<Rightarrow> string \<Rightarrow> string \<Rightarrow> string \<Rightarrow> nat \<Rightarrow> bool" where
  "poll_ends h plugin act log n \<longleftrightarrow> ho_done h n \<noteq> None \<or>
     (case poll_receipt h n plugin act log of Inl e \<Rightarrow> True | Inr r \<Rightarrow> terminal r)"

lemma await_loop_returns:
  "poll_ends h plugin act log (n + k) \<Longrightarrow> \<exists>y. await_loop h plugin act log n current = Some y"
proof (induction k arbitrary: n current)
  case 0
  show ?case
  proof (cases "poll_receipt h n plugin act log")
    case (Inr r)
    with 0 show ?thesis
      by (auto simp: poll_ends_def await_loop.simps [of h plugin act log n] await_loop.simps [of h plugin act log "Suc n" r]
          split: option.splits)
  qed (auto simp: await_loop.simps [of h plugin act log n] split: option.splits)
next
  case (Suc k)
  show ?case
  proof (cases "poll_receipt h n plugin act log")
    case (Inr r)
    from Suc.IH [of "Suc n" r] Suc.prems have "\<exists>y. await_loop h plugin act log (Suc n) r = Some y" by simp
    with Inr show ?thesis by (auto simp: await_loop.simps [of h plugin act log n] split: option.splits)
  qed (auto simp: await_loop.simps [of h plugin act log n] split: option.splits)
qed


definition sample_receipt :: "string \<Rightarrow> receipt" where
  "sample_receipt st = \<lparr>rt_log = ''log-1'', rt_plugin = ''kit.demo'', rt_action = Some ''open'',
     rt_command = [''demo''], rt_status = st, rt_started = 0, rt_finished = None, rt_exit = None,
     rt_stdout = Some ''{response}'', rt_stderr = None, rt_error = None, rt_event = None\<rparr>"

text \<open>A host whose log shows the action running twice and finished at the third poll.\<close>

definition sample_host :: host where
  "sample_host = \<lparr>
     ho_list = (\<lambda>_. Inr (''plugin_action_list'', [\<lparr>ha_plugin = ''kit.demo'', ha_action = ''open'', ha_title = ''Open'',
        ha_command = [''demo''], ha_contexts = [], ha_description = None, ha_platforms = []\<rparr>])),
     ho_invoke = (\<lambda>_. Inr (''plugin_action_invoked'', \<lparr>ha_plugin = ''kit.demo'', ha_action = ''open'', ha_title = ''Open'',
        ha_command = [''demo''], ha_contexts = [], ha_description = None, ha_platforms = []\<rparr>, sample_receipt ''running'')),
     ho_log = (\<lambda>n _. Inr (''plugin_log_list'', [sample_receipt (if n < 2 then ''running'' else ''succeeded'')])),
     ho_quote = (\<lambda>v. v), ho_done = (\<lambda>_. None)\<rparr>"

lemma sample_await:
  "await_receipt sample_host (sample_receipt ''running'') 5 = Some (Inr (sample_receipt ''succeeded''))"
  by code_simp


end
