(* ===== verification/ActionInterop.thy ===== *)
theory ActionInterop
  imports ActionHost
begin

text \<open>
  Inter-plugin calls over Herdr actions (runtime/interop/action.go).  The client talks to
  an \<open>ActionTransport\<close>; the interface is the locale \<open>action_transport\<close> with what the kit's
  own host promises, and \<open>ActionHost\<close> interprets it.
\<close>

record action_target =
  at_plugin :: string
  at_action :: string
  at_interface :: string
  at_version :: "32 word"
  at_method :: string

record action_response =
  ar_version :: "32 word"
  ar_interface :: string
  ar_interface_version :: "32 word"
  ar_method :: string
  ar_payload :: string
  ar_error :: "call_error option"

record action_result =
  as_log :: string
  as_response :: action_response

definition max_action_envelope :: int where "max_action_envelope = 65536"

text \<open>The three operations of the transport; \<open>tr_await\<close> may not return.\<close>

record transport =
  tr_list :: "string \<Rightarrow> go_error + host_action list"
  tr_invoke :: "string \<Rightarrow> string \<Rightarrow> go_error + receipt"
  tr_await :: "receipt \<Rightarrow> int \<Rightarrow> (go_error + receipt) option"

definition validate_action_target :: "go_context \<Rightarrow> action_target \<Rightarrow> go_error option" where
  "validate_action_target ctx t =
     first_err (context_error ctx)
      (first_err (check_id ''plugin_id'' (at_plugin t))
      (first_err (check_id ''action_id'' (at_action t))
      (first_err (check_id ''interface'' (at_interface t))
      (first_err (guard_err (at_version t = 0) (Plain ''interface_version must be positive''))
        (check_id ''method'' (at_method t))))))"

definition validate_action_response ::
  "unicode \<Rightarrow> (string \<Rightarrow> bool) \<Rightarrow> action_response \<Rightarrow> action_target \<Rightarrow> go_error option" where
  "validate_action_response U json r t =
     first_err (guard_err (ar_version r \<noteq> envelope_version) (version_error ''action response'' (ar_version r)))
      (first_err (guard_err (ar_interface r \<noteq> at_interface t \<or> ar_interface_version r \<noteq> at_version t \<or>
           ar_method r \<noteq> at_method t) (Plain ''action response identity changed''))
      (first_err (guard_err (ar_error r \<noteq> None \<and> ar_payload r \<noteq> [])
           (Plain ''action response cannot contain both payload and error''))
      (first_err (guard_err (case ar_error r of None \<Rightarrow> False | Some e \<Rightarrow> \<not> valid_call_error U e)
           (Plain ''action response has invalid typed error''))
        (validate_payload json (ar_payload r)))))"

definition validate_action_receipt :: "receipt \<Rightarrow> action_target \<Rightarrow> string \<Rightarrow> go_error option" where
  "validate_action_receipt r t log =
     first_err (guard_err (log = [] \<or> rt_log r \<noteq> log) (Plain ''action receipt identity changed''))
       (guard_err (rt_plugin r \<noteq> at_plugin t \<or> rt_action r \<noteq> Some (at_action t))
         (Plain ''action receipt identity changed''))"

definition decode_action_response ::
  "unicode \<Rightarrow> (string \<Rightarrow> bool) \<Rightarrow> (string \<Rightarrow> (action_response \<times> bool) option) \<Rightarrow> reader \<Rightarrow> action_target \<Rightarrow>
     go_error + action_response" where
  "decode_action_response U json decode rd t =
     (case validate_action_target (Context None) t of
        Some e \<Rightarrow> Inl e
      | None \<Rightarrow> bind_res (decode_strict_limit rd decode max_action_envelope) (\<lambda>r.
          case validate_action_response U json r t of Some e \<Rightarrow> Inl e | None \<Rightarrow> Inr r))"

fun find_declared :: "(string \<Rightarrow> string) \<Rightarrow> action_target \<Rightarrow> host_action option \<Rightarrow> host_action list \<Rightarrow>
    go_error + host_action" where
  "find_declared quote t found [] =
     (case found of None \<Rightarrow> Inl (typed not_found ''plugin action is not available'') | Some a \<Rightarrow> Inr a)"
| "find_declared quote t found (a # as) =
     (if ha_plugin a \<noteq> at_plugin t \<or> ha_action a \<noteq> at_action t then find_declared quote t found as
      else if found \<noteq> None
      then Inl (Plain (''action '' @ quote (at_action t) @ '' is declared more than once''))
      else find_declared quote t (Some a) as)"

definition discover_action ::
  "(string \<Rightarrow> string) \<Rightarrow> transport option \<Rightarrow> go_context \<Rightarrow> action_target \<Rightarrow> go_error + host_action" where
  "discover_action quote tr ctx t =
     (case validate_action_target ctx t of
        Some e \<Rightarrow> Inl e
      | None \<Rightarrow>
        (case tr of
           None \<Rightarrow> Inl (Plain ''action interoperability requires an ActionHost'')
         | Some x \<Rightarrow> bind_res (tr_list x (at_plugin t)) (find_declared quote t None)))"

definition finish_action ::
  "unicode \<Rightarrow> (string \<Rightarrow> bool) \<Rightarrow> (string \<Rightarrow> (action_response \<times> bool) option) \<Rightarrow> action_target \<Rightarrow> receipt \<Rightarrow> receipt \<Rightarrow>
     go_error + action_result" where
  "finish_action U json decode t initial r =
     (case validate_action_receipt r t (rt_log initial) of
        Some e \<Rightarrow> Inl e
      | None \<Rightarrow>
        (if rt_status r \<noteq> succeeded then Inl (typed internal_error ''plugin action failed'')
         else if (case rt_stdout r of None \<Rightarrow> True | Some out \<Rightarrow> trim_space U out = [])
         then Inl (typed invalid_request ''plugin action returned no response envelope'')
         else bind_res (decode_action_response U json decode (map_option Inr (rt_stdout r)) t) (\<lambda>resp.
           Inr \<lparr>as_log = rt_log r, as_response = resp\<rparr>)))"

definition invoke_target ::
  "unicode \<Rightarrow> (string \<Rightarrow> bool) \<Rightarrow> (string \<Rightarrow> (action_response \<times> bool) option) \<Rightarrow> (string \<Rightarrow> string) \<Rightarrow>
     transport option \<Rightarrow> int \<Rightarrow> go_context \<Rightarrow> action_target \<Rightarrow> (go_error + action_result) option" where
  "invoke_target U json decode quote tr interval ctx t =
     (if interval \<le> 0 then Some (Inl (Plain ''poll interval must be positive''))
      else case discover_action quote tr ctx t of
          Inl e \<Rightarrow> Some (Inl e)
        | Inr _ \<Rightarrow>
          (case tr_invoke (the tr) (at_plugin t) (at_action t) of
             Inl e \<Rightarrow> Some (Inl e)
           | Inr initial \<Rightarrow>
             (case validate_action_receipt initial t (rt_log initial) of
                Some e \<Rightarrow> Some (Inl e)
              | None \<Rightarrow>
                map_option (\<lambda>y. bind_res y (finish_action U json decode t initial))
                  (tr_await (the tr) initial interval))))"

subsection \<open>The interface between client and transport\<close>

text \<open>
  What a transport promises: an invocation's receipt names the action and a log entry, and
  the awaited receipt is the terminal one of that same entry.
\<close>

locale action_transport =
  fixes list :: "string \<Rightarrow> go_error + host_action list"
    and invoke :: "string \<Rightarrow> string \<Rightarrow> go_error + receipt"
    and await :: "receipt \<Rightarrow> int \<Rightarrow> (go_error + receipt) option"
  assumes invoked: "invoke plugin act = Inr r \<Longrightarrow> rt_log r \<noteq> [] \<and> rt_plugin r = plugin \<and> rt_action r = Some act"
    and awaited: "await initial interval = Some (Inr r) \<Longrightarrow>
      rt_log r = rt_log initial \<and> rt_plugin r = rt_plugin initial \<and> rt_action r = rt_action initial \<and> terminal r"
begin

definition packed :: transport where
  "packed = \<lparr>tr_list = list, tr_invoke = invoke, tr_await = await\<rparr>"

lemma packed_simps [simp]: "tr_list packed = list" "tr_invoke packed = invoke" "tr_await packed = await"
  by (simp_all add: packed_def)

lemma receipts_accepted:
  assumes "invoke (at_plugin t) (at_action t) = Inr initial"
  shows "validate_action_receipt initial t (rt_log initial) = None"
    and "await initial interval = Some (Inr r) \<Longrightarrow> validate_action_receipt r t (rt_log initial) = None"
  using invoked [OF assms] awaited [of initial interval r]
  by (auto simp: validate_action_receipt_def first_err_None guard_err_None)

end

lemma await_receipt_Inr:
  assumes "await_receipt h initial interval = Some (Inr r)"
  shows "rt_log r = rt_log initial \<and> rt_plugin r = rt_plugin initial \<and> rt_action r = rt_action initial \<and> terminal r"
proof -
  obtain act where act: "rt_action initial = Some act"
    "validate_receipt (ho_quote h) initial (rt_plugin initial) act = None"
    "await_loop h (rt_plugin initial) act (rt_log initial) 0 initial = Some (Inr r)"
    using assms by (auto simp: await_receipt_def split: if_splits option.splits)
  from await_loop_Inr [OF act(3,2) refl] act(1) show ?thesis by (auto simp: validate_receipt_None)
qed

interpretation kit: action_transport "list_actions h" "invoke_action h" "await_receipt h" for h
  by unfold_locales (auto dest!: invoke_action_Inr await_receipt_Inr simp: validate_receipt_None)

definition host_transport :: "host \<Rightarrow> transport" where
  "host_transport h = \<lparr>tr_list = list_actions h, tr_invoke = invoke_action h, tr_await = await_receipt h\<rparr>"

text \<open>The client's receipt checks never fire on the kit's own host: what is left after a started action.\<close>

lemma invoke_target_on_host:
  assumes "interval > 0" and "discover_action quote (Some (host_transport h)) ctx t = Inr a"
    and "invoke_action h (at_plugin t) (at_action t) = Inr initial"
  shows "invoke_target U json decode quote (Some (host_transport h)) interval ctx t =
    map_option (\<lambda>y. bind_res y (\<lambda>r.
        if rt_status r \<noteq> succeeded then Inl (typed internal_error ''plugin action failed'')
        else if (case rt_stdout r of None \<Rightarrow> True | Some out \<Rightarrow> trim_space U out = [])
        then Inl (typed invalid_request ''plugin action returned no response envelope'')
        else bind_res (decode_action_response U json decode (map_option Inr (rt_stdout r)) t) (\<lambda>resp.
          Inr \<lparr>as_log = rt_log initial, as_response = resp\<rparr>)))
      (await_receipt h initial interval)"
proof (cases "await_receipt h initial interval")
  case None
  with assms kit.receipts_accepted(1) [of h t initial] show ?thesis
    by (simp add: invoke_target_def host_transport_def)
next
  case (Some y)
  show ?thesis
  proof (cases y)
    case (Inl e)
    with Some assms kit.receipts_accepted(1) [of h t initial] show ?thesis
      by (simp add: invoke_target_def host_transport_def)
  next
    case (Inr r)
    with Some have "await_receipt h initial interval = Some (Inr r)" by simp
    from kit.receipts_accepted [OF assms(3)] this await_receipt_Inr [OF this] Some Inr assms show ?thesis
      by (simp add: invoke_target_def host_transport_def finish_action_def)
  qed
qed

text \<open>
  C29: an action call over the kit's host that returns a result carries the log entry of its
  own invocation and a response of the interface, version and method the caller named, with
  never both a payload and an error.
\<close>

theorem invoke_target_result:
  assumes "invoke_target U json decode quote (Some (host_transport h)) interval ctx t = Some (Inr res)"
  shows "\<exists>initial. invoke_action h (at_plugin t) (at_action t) = Inr initial \<and> as_log res = rt_log initial \<and>
    as_log res \<noteq> [] \<and> ar_version (as_response res) = 1 \<and> ar_interface (as_response res) = at_interface t \<and>
    ar_interface_version (as_response res) = at_version t \<and> ar_method (as_response res) = at_method t \<and>
    (ar_error (as_response res) = None \<or> ar_payload (as_response res) = [])"
proof -
  have pos: "interval > 0" using assms by (auto simp: invoke_target_def split: if_splits)
  obtain a where a: "discover_action quote (Some (host_transport h)) ctx t = Inr a"
    using assms pos by (auto simp: invoke_target_def split: sum.splits)
  obtain initial where i: "invoke_action h (at_plugin t) (at_action t) = Inr initial"
    using assms pos a by (auto simp: invoke_target_def host_transport_def split: sum.splits)
  have "as_log res = rt_log initial \<and> validate_action_response U json (as_response res) t = None"
    using assms unfolding invoke_target_on_host [OF pos a i]
    by (auto simp: bind_res_Inr decode_action_response_def split: if_splits option.splits)
  moreover have "rt_log initial \<noteq> []" using kit.invoked [OF i] by simp
  ultimately show ?thesis
    using i by (auto simp: validate_action_response_def first_err_None guard_err_None envelope_version_def)
qed

definition sample_target :: action_target where
  "sample_target = \<lparr>at_plugin = ''kit.demo'', at_action = ''open'', at_interface = ''notes'', at_version = 1, at_method = ''add''\<rparr>"

definition sample_decode :: "string \<Rightarrow> (action_response \<times> bool) option" where
  "sample_decode d = Some (\<lparr>ar_version = 1, ar_interface = ''notes'', ar_interface_version = 1, ar_method = ''add'',
     ar_payload = ''{}'', ar_error = None\<rparr>, True)"

theorem invoke_target_result_witness:
  "\<exists>initial. invoke_action sample_host ''kit.demo'' ''open'' = Inr initial \<and> rt_log initial = ''log-1''"
proof -
  have "invoke_target ascii_tables (\<lambda>_. True) sample_decode (\<lambda>v. v) (Some (host_transport sample_host)) 5 (Context None)
      sample_target = Some (Inr \<lparr>as_log = ''log-1'', as_response = \<lparr>ar_version = 1, ar_interface = ''notes'',
        ar_interface_version = 1, ar_method = ''add'', ar_payload = ''{}'', ar_error = None\<rparr>\<rparr>)"
    by code_simp
  from invoke_target_result [OF this] show ?thesis by (auto simp: sample_target_def)
qed

end
