(* ===== verification/ShellEvents.thy ===== *)
theory ShellEvents
  imports Identifiers Responsive "HOL-Library.Word"
begin

text \<open>
  Events, effects and the event context that kit surfaces use (ui/shell/events.go and the
  closures of \<open>eventContext\<close> in ui/shell/shell.go).

  A key or code is the identifier it wraps, the zero value is the empty string.  Background
  work is a function of the world it runs in, \<open>'w\<close>, with a result of type \<open>'v\<close>.  The maps
  and counters that the event context of a shell changes form the \<open>ledger\<close>; generations
  are 64-bit words and a missing entry of a Go map reads as zero.
\<close>

datatype event_error =
    CannotStart | CannotSchedule | EmptyRequestKey | NilWork | NonPositiveDelay | EmptyEventCode

record 'v work_result =
  wr_value :: 'v
  wr_code :: string
  wr_failed :: bool

type_synonym ('w, 'v) work = "'w \<Rightarrow> 'v work_result \<times> 'w"

datatype 'v shell_event =
    ActionEvent string
  | KeyEvent (ke_code: string) (ke_alt: bool)
  | TextEvent (te_text: string) (te_paste: bool) (te_alt: bool)
  | FocusEvent bool
  | ResizeEvent layout "64 word"
  | TimerEvent string "64 word"
  | ResultEvent string "64 word" string "'v work_result"

datatype ('w, 'v) effect =
    WorkEffect (ef_key: string) (ef_generation: "64 word") (ef_correlation: string) (ef_previous: string)
      (ef_work: "('w, 'v) work")
  | TimerEffect string "64 word" int
  | QuitEffect

definition is_work :: "('w, 'v) effect \<Rightarrow> bool" where
  "is_work e = (case e of WorkEffect _ _ _ _ _ \<Rightarrow> True | _ \<Rightarrow> False)"

definition is_result :: "'v shell_event \<Rightarrow> bool" where
  "is_result ev = (case ev of ResultEvent _ _ _ _ \<Rightarrow> True | _ \<Rightarrow> False)"

lemma is_work_WorkEffect [simp]: "is_work (WorkEffect k g c pr w)" "\<not> is_work (TimerEffect t g d)" "\<not> is_work QuitEffect"
  by (simp_all add: is_work_def)

record ledger =
  ld_requests :: "string \<Rightarrow> 64 word"
  ld_correlations :: "string \<Rightarrow> string"
  ld_counter :: "64 word"
  ld_timers :: "string \<Rightarrow> 64 word"

definition empty_ledger :: ledger where
  "empty_ledger = \<lparr>ld_requests = (\<lambda>_. 0), ld_correlations = (\<lambda>_. []), ld_counter = 0, ld_timers = (\<lambda>_. 0)\<rparr>"

text \<open>An event context without the closures refuses; the shell's has both.\<close>

datatype event_context = EventContext (ec_start: bool) (ec_after: bool)

text \<open>\<open>NewID\<close> of \<open>c-<n>\<close>; the code ignores its error, so an invalid one would be empty.\<close>

definition correlation_id :: "64 word \<Rightarrow> string" where
  "correlation_id n = (case new_id (''c-'' @ show_nat (unat n)) of Inl _ \<Rightarrow> [] | Inr v \<Rightarrow> v)"

definition start_work ::
  "event_context \<Rightarrow> string \<Rightarrow> ('w, 'v) work option \<Rightarrow> ledger \<Rightarrow> (event_error + ('w, 'v) effect) \<times> ledger" where
  "start_work ctx key work l =
     (if \<not> ec_start ctx then (Inl CannotStart, l)
      else if key = [] then (Inl EmptyRequestKey, l)
      else case work of
          None \<Rightarrow> (Inl NilWork, l)
        | Some w \<Rightarrow>
            (let gen = ld_requests l key + 1; n = ld_counter l + 1; corr = correlation_id n in
             (Inr (WorkEffect key gen corr (ld_correlations l key) w),
              l\<lparr>ld_requests := (ld_requests l)(key := gen), ld_counter := n,
                ld_correlations := (ld_correlations l)(key := corr)\<rparr>)))"

definition start_timer ::
  "event_context \<Rightarrow> int \<Rightarrow> string \<Rightarrow> ledger \<Rightarrow> (event_error + ('w, 'v) effect) \<times> ledger" where
  "start_timer ctx delay code l =
     (if \<not> ec_after ctx then (Inl CannotSchedule, l)
      else if delay \<le> 0 then (Inl NonPositiveDelay, l)
      else if code = [] then (Inl EmptyEventCode, l)
      else
        let gen = ld_timers l code + 1 in
        (Inr (TimerEffect code gen delay), l\<lparr>ld_timers := (ld_timers l)(code := gen)\<rparr>))"

lemma correlation_id_valid: "correlation_id n = ''c-'' @ show_nat (unat n)"
proof -
  have "unat n < 2 ^ 64" using unsigned_less [of n, where ?'a = nat] by simp
  then have "unat n < 10 ^ 20" by simp
  then have "length (show_nat (unat n)) \<le> 20" using length_show_nat [of "unat n" 20] by simp
  moreover have "list_all (\<lambda>x. alnum_ch x \<or> sep_ch x) (show_nat (unat n))"
    using show_nat_digits [of _ "unat n"] by (auto simp: list_all_iff alnum_ch_def digit_ch_def)
  ultimately have "semantic_id (''c-'' @ show_nat (unat n))"
    by (simp add: semantic_id_def lower_ch_def sep_ch_def byte_def)
  then show ?thesis by (simp add: correlation_id_def new_id_def)
qed

lemma start_work_Inr:
  "start_work ctx key work l = (Inr e, l') \<longleftrightarrow>
     (\<exists>w. work = Some w \<and> ec_start ctx \<and> key \<noteq> [] \<and>
        e = WorkEffect key (ld_requests l key + 1) (correlation_id (ld_counter l + 1)) (ld_correlations l key) w \<and>
        l' = l\<lparr>ld_requests := (ld_requests l)(key := ld_requests l key + 1), ld_counter := ld_counter l + 1,
               ld_correlations := (ld_correlations l)(key := correlation_id (ld_counter l + 1))\<rparr>)"
  by (auto simp: start_work_def Let_def split: option.splits)

lemma start_work_Inl: "start_work ctx key work l = (Inl x, l') \<Longrightarrow> l' = l"
  by (auto simp: start_work_def Let_def split: option.splits if_splits)

end
