(* ===== verification/Form.thy ===== *)
theory Form
  imports ShellEvents Buffer Keymap "HOL-Library.AList"
begin

text \<open>
  The configuration form (ui/form/form.go, ui/form/keymap.go): editing, validation, and the
  apply / rollback protocol against an \<open>Applier\<close>.

  \<open>Values\<close> and \<open>FieldErrors\<close> are Go maps with one entry per field identifier; here they are
  association lists with distinct keys, a nil map is the empty list, and a missing key reads
  as the empty string.  The applier and the world \<open>'w\<close> it changes are arguments.  The layout
  before the first resize, Go's zero value, is \<^const>\<open>None\<close>.
\<close>

type_synonym form_values = "(string \<times> string) list"

record form_field =
  ff_id :: string
  ff_label :: string
  ff_value :: string
  ff_error :: string
  ff_secret :: bool

record 'w applier =
  ap_apply :: "form_values \<Rightarrow> 'w \<Rightarrow> (string \<times> bool) \<times> 'w"
  ap_rollback :: "string \<Rightarrow> 'w \<Rightarrow> bool \<times> 'w"

record 'w form_options =
  fo_fields :: "form_field list"
  fo_validate :: "(form_values \<Rightarrow> form_values) option"
  fo_apply :: "'w applier option"

datatype form_state =
  Pristine | Editing | Invalid | Applying | Applied | Failed | RollingBack | RolledBack

text \<open>The \<open>any\<close> value of a work result: one of the two result types, or something else.\<close>

datatype form_result =
    ApplyResult (ar_token: string) (ar_failed: bool) (ar_undone: bool)
  | RollbackResult
  | OtherResult

type_synonym 'w form_work = "('w, form_result) work"
type_synonym 'w form_effect = "('w, form_result) effect"
type_synonym form_event = "form_result shell_event"

record 'w form =
  fm_options :: "'w form_options"
  fm_fields :: "form_field list"
  fm_buffers :: "buffer list"
  fm_errors :: form_values
  fm_focus :: nat
  fm_layout :: "layout option"
  fm_resize_generation :: "64 word"
  fm_apply_generation :: "64 word"
  fm_rollback_generation :: "64 word"
  fm_target_revision :: "64 word"
  fm_pending_apply :: bool
  fm_pending_rollback :: bool
  fm_state :: form_state
  fm_submitted :: form_values
  fm_applied :: form_values
  fm_rollback_values :: form_values
  fm_token :: string
  fm_compensation :: bool

definition apply_key :: string where "apply_key = ''form.apply''"
definition rollback_key :: string where "rollback_key = ''form.rollback''"
definition outcome_applied :: string where "outcome_applied = ''applied''"
definition outcome_failed :: string where "outcome_failed = ''failed''"

definition lookup_value :: "form_values \<Rightarrow> string \<Rightarrow> string" where
  "lookup_value v i = (case map_of v i of None \<Rightarrow> [] | Some x \<Rightarrow> x)"

definition form_values :: "'w form \<Rightarrow> form_values" where
  "form_values m = map (\<lambda>(f, b). (ff_id f, buf_text b)) (zip (fm_fields m) (fm_buffers m))"

definition values_equal :: "form_values \<Rightarrow> form_values \<Rightarrow> bool" where
  "values_equal l r \<longleftrightarrow> length l = length r \<and> list_all (\<lambda>(i, v). lookup_value r i = v) l"

subsection \<open>Construction\<close>

datatype form_error = NoFields | InvalidFieldID nat | EmptyLabel string | DuplicateField string

definition check_fields :: "form_field list \<Rightarrow> form_error option" where
  "check_fields fs =
     check_unique
       (\<lambda>i f. first_err (guard_err (\<not> semantic_id (ff_id f)) (InvalidFieldID i))
          (guard_err (ff_label f = []) (EmptyLabel (ff_id f))))
       ff_id (\<lambda>f. DuplicateField (ff_id f)) (\<lambda>_ _. None) 0 {} fs"

definition new_form :: "segmenter \<Rightarrow> 'w form_options \<Rightarrow> form_error + 'w form" where
  "new_form seg opts =
     (if fo_fields opts = [] then Inl NoFields
      else case check_fields (fo_fields opts) of
          Some e \<Rightarrow> Inl e
        | None \<Rightarrow>
            (let m = \<lparr>fm_options = opts, fm_fields = fo_fields opts,
                   fm_buffers = map (\<lambda>f. new_buffer seg (ff_value f)) (fo_fields opts),
                   fm_errors = map (\<lambda>f. (ff_id f, ff_error f)) (filter (\<lambda>f. ff_error f \<noteq> []) (fo_fields opts)),
                   fm_focus = 0, fm_layout = None, fm_resize_generation = 0, fm_apply_generation = 0,
                   fm_rollback_generation = 0, fm_target_revision = 0, fm_pending_apply = False,
                   fm_pending_rollback = False, fm_state = Pristine, fm_submitted = [], fm_applied = [],
                   fm_rollback_values = [], fm_token = [], fm_compensation = False\<rparr>
             in Inr (m\<lparr>fm_applied := form_values m\<rparr>)))"

subsection \<open>Editing\<close>

definition focused_buffer :: "'w form \<Rightarrow> buffer" where
  "focused_buffer m = fm_buffers m ! fm_focus m"

definition set_focused :: "buffer \<Rightarrow> 'w form \<Rightarrow> 'w form" where
  "set_focused b m = m\<lparr>fm_buffers := (fm_buffers m)[fm_focus m := b]\<rparr>"

definition form_changed :: "'w form \<Rightarrow> 'w form" where
  "form_changed m =
     (let m' = m\<lparr>fm_errors := AList.delete (ff_id (fm_fields m ! fm_focus m)) (fm_errors m)\<rparr>
      in if \<not> fm_pending_apply m \<and> \<not> fm_pending_rollback m \<and> \<not> fm_compensation m
         then m'\<lparr>fm_state := Editing\<rparr> else m')"

text \<open>\<open>validate\<close>: whether the form is valid, and the form with its new errors and state.\<close>

definition form_validate :: "'w form \<Rightarrow> bool \<times> 'w form" where
  "form_validate m =
     (let errs = (case fo_validate (fm_options m) of
            None \<Rightarrow> []
          | Some v \<Rightarrow> filter (\<lambda>(i, msg). i \<in> ff_id ` set (fm_fields m) \<and> msg \<noteq> []) (v (form_values m)));
          m' = m\<lparr>fm_errors := errs\<rparr>
      in if errs \<noteq> [] then (False, m'\<lparr>fm_state := Invalid\<rparr>) else (True, m'))"

subsection \<open>Applying and rolling back\<close>

definition apply_work :: "'w applier \<Rightarrow> form_values \<Rightarrow> 'w form_work" where
  "apply_work ap snapshot w =
     (let ((token, err), w1) = ap_apply ap snapshot w;
          (undone, w2) = (if err \<and> token \<noteq> [] then (let (e, w2) = ap_rollback ap token w1 in (\<not> e, w2))
                          else (False, w1))
      in (\<lparr>wr_value = ApplyResult token err undone, wr_code = (if err then outcome_failed else outcome_applied),
           wr_failed = err\<rparr>, w2))"

definition rollback_work :: "'w applier \<Rightarrow> string \<Rightarrow> 'w form_work" where
  "rollback_work ap token w =
     (let (err, w') = ap_rollback ap token w in
      if err then (\<lparr>wr_value = OtherResult, wr_code = outcome_failed, wr_failed = True\<rparr>, w')
      else (\<lparr>wr_value = RollbackResult, wr_code = outcome_applied, wr_failed = False\<rparr>, w'))"

type_synonym 'w form_step = "'w form_effect list \<times> 'w form \<times> ledger"

definition start_apply :: "event_context \<Rightarrow> 'w form \<Rightarrow> ledger \<Rightarrow> 'w form_step" where
  "start_apply ctx m l =
     (case fo_apply (fm_options m) of
        None \<Rightarrow> ([], m, l)
      | Some ap \<Rightarrow>
        (if fm_pending_apply m \<or> fm_pending_rollback m \<or> fm_compensation m then ([], m, l)
         else case form_validate m of
             (False, m1) \<Rightarrow> ([], m1, l)
           | (True, m1) \<Rightarrow>
               (let m2 = m1\<lparr>fm_submitted := form_values m1, fm_rollback_values := fm_applied m1\<rparr>
                in case start_work ctx apply_key (Some (apply_work ap (fm_submitted m2))) l of
                     (Inl e, l') \<Rightarrow> ([], m2\<lparr>fm_state := Failed\<rparr>, l')
                   | (Inr ef, l') \<Rightarrow>
                       ([ef], m2\<lparr>fm_pending_apply := True, fm_apply_generation := fm_apply_generation m2 + 1,
                          fm_state := Applying\<rparr>, l'))))"

text \<open>The callers make sure that there is an applier: there is a token only after an apply.\<close>

definition start_rollback :: "event_context \<Rightarrow> 'w form \<Rightarrow> ledger \<Rightarrow> 'w form_step" where
  "start_rollback ctx m l =
     (case start_work ctx rollback_key
             (Some (case fo_apply (fm_options m) of Some ap \<Rightarrow> rollback_work ap (fm_token m)
                    | None \<Rightarrow> (\<lambda>w. (\<lparr>wr_value = OtherResult, wr_code = outcome_failed, wr_failed = True\<rparr>, w)))) l of
        (Inl e, l') \<Rightarrow> ([], m\<lparr>fm_state := Failed\<rparr>, l')
      | (Inr ef, l') \<Rightarrow>
          ([ef], m\<lparr>fm_pending_rollback := True, fm_rollback_generation := fm_rollback_generation m + 1,
             fm_state := RollingBack\<rparr>, l'))"

definition resolve_apply :: "form_result work_result \<Rightarrow> 'w form \<Rightarrow> 'w form" where
  "resolve_apply r m0 =
     (let m = m0\<lparr>fm_pending_apply := False\<rparr>;
          failed_with = (\<lambda>m. m\<lparr>fm_state := Failed, fm_submitted := []\<rparr>)
      in case wr_value r of
           ApplyResult token failed undone \<Rightarrow>
             (if wr_failed r \<or> failed then
                failed_with (if token \<noteq> [] \<and> \<not> undone then m\<lparr>fm_token := token, fm_compensation := True\<rparr> else m)
              else
                let m' = m\<lparr>fm_token := token, fm_applied := fm_submitted m, fm_submitted := []\<rparr>
                in m'\<lparr>fm_state := (if values_equal (form_values m') (fm_submitted m) then Applied else Editing)\<rparr>)
         | _ \<Rightarrow> failed_with m)"

definition resolve_rollback :: "segmenter \<Rightarrow> form_result work_result \<Rightarrow> 'w form \<Rightarrow> 'w form" where
  "resolve_rollback seg r m0 =
     (let m = m0\<lparr>fm_pending_rollback := False\<rparr> in
      if wr_failed r then m\<lparr>fm_state := Failed\<rparr>
      else m\<lparr>fm_buffers := map2 (\<lambda>f b. buf_set seg (lookup_value (fm_rollback_values m) (ff_id f)) b)
               (fm_fields m) (fm_buffers m),
             fm_applied := fm_rollback_values m, fm_token := [], fm_compensation := False,
             fm_state := RolledBack, fm_target_revision := fm_target_revision m + 1\<rparr>)"

definition form_resolve ::
  "segmenter \<Rightarrow> string \<Rightarrow> 64 word \<Rightarrow> form_result work_result \<Rightarrow> 'w form \<Rightarrow> 'w form" where
  "form_resolve seg key gen r m =
     (if key = apply_key then
        (if \<not> fm_pending_apply m \<or> gen \<noteq> fm_apply_generation m then m else resolve_apply r m)
      else if key = rollback_key then
        (if \<not> fm_pending_rollback m \<or> gen \<noteq> fm_rollback_generation m then m else resolve_rollback seg r m)
      else m)"

subsection \<open>Events\<close>

definition edit_if :: "bool \<times> buffer \<Rightarrow> 'w form \<Rightarrow> 'w form" where
  "edit_if r m = (if fst r then form_changed (set_focused (snd r) m) else set_focused (snd r) m)"

definition form_key :: "segmenter \<Rightarrow> event_context \<Rightarrow> string \<Rightarrow> 'w form \<Rightarrow> ledger \<Rightarrow> 'w form_step" where
  "form_key seg ctx k m l =
     (let n = length (fm_fields m) in
      if k = ''ctrl-c'' \<or> k = ''escape'' then ([QuitEffect], m, l)
      else if k = ''tab'' \<or> k = ''down'' then ([], m\<lparr>fm_focus := (fm_focus m + 1) mod n\<rparr>, l)
      else if k = ''up'' then ([], m\<lparr>fm_focus := (fm_focus m + n - 1) mod n\<rparr>, l)
      else if k = ''left'' then ([], set_focused (move_left (focused_buffer m)) m, l)
      else if k = ''right'' then ([], set_focused (move_right (focused_buffer m)) m, l)
      else if k = ''home'' then ([], set_focused (move_home (focused_buffer m)) m, l)
      else if k = ''end'' then ([], set_focused (move_end (focused_buffer m)) m, l)
      else if k = ''backspace'' then ([], edit_if (buf_backspace seg (focused_buffer m)) m, l)
      else if k = ''delete'' then ([], edit_if (buf_delete seg (focused_buffer m)) m, l)
      else if k = ''enter'' then start_apply ctx m l
      else ([], m, l))"

definition may_roll_back :: "'w form \<Rightarrow> bool" where
  "may_roll_back m \<longleftrightarrow> fm_token m \<noteq> [] \<and> \<not> fm_pending_apply m \<and> \<not> fm_pending_rollback m"

definition form_text :: "segmenter \<Rightarrow> event_context \<Rightarrow> string \<Rightarrow> bool \<Rightarrow> 'w form \<Rightarrow> ledger \<Rightarrow> 'w form_step" where
  "form_text seg ctx t alt m l =
     (if alt \<and> t = ''r'' \<and> may_roll_back m then start_rollback ctx m l
      else ([], form_changed (set_focused (buf_insert seg t (focused_buffer m)) m), l))"

definition form_catalog :: "action list" where
  "form_catalog =
     (let a = (\<lambda>i label keys. \<lparr>act_id = i, act_label = label, act_context = ''form.editing'', act_editing = True,
            act_quick = (i = ''form.apply'' \<or> i = ''form.rollback''), act_defaults = map (\<lambda>k. [k]) keys\<rparr>)
      in [a ''form.quit'' ''Quit'' [''escape''], a ''form.next-field'' ''Next field'' [''tab'', ''down''],
          a ''form.previous-field'' ''Previous field'' [''up''], a ''form.cursor-left'' ''Move cursor left'' [''left''],
          a ''form.cursor-right'' ''Move cursor right'' [''right''], a ''form.cursor-home'' ''Move to start'' [''home''],
          a ''form.cursor-end'' ''Move to end'' [''end''], a ''form.backspace'' ''Delete before cursor'' [''backspace''],
          a ''form.delete'' ''Delete at cursor'' [''delete''], a ''form.apply'' ''Apply changes'' [''enter''],
          a ''form.rollback'' ''Roll back'' [''alt+r'']])"

definition form_context :: "'w form \<Rightarrow> context_state" where
  "form_context m = \<lparr>ctx_id = ''form.editing'', ctx_editing = True,
     ctx_target = ff_id (fm_fields m ! fm_focus m) @ '':'' @ show_nat (unat (fm_target_revision m))\<rparr>"

definition form_action_state :: "'w form \<Rightarrow> string \<Rightarrow> action_state" where
  "form_action_state m i =
     (if i \<notin> act_id ` set form_catalog then \<lparr>st_enabled = False, st_reason = ''unknown action''\<rparr>
      else if i = ''form.apply'' then
        \<lparr>st_enabled = fo_apply (fm_options m) \<noteq> None \<and> \<not> fm_pending_apply m \<and> \<not> fm_pending_rollback m \<and>
           \<not> fm_compensation m, st_reason = ''apply unavailable''\<rparr>
      else if i = ''form.rollback'' then
        \<lparr>st_enabled = may_roll_back m, st_reason = ''rollback unavailable''\<rparr>
      else \<lparr>st_enabled = True, st_reason = []\<rparr>)"

definition action_key_code :: "string \<Rightarrow> string option" where
  "action_key_code i = map_of [(''form.quit'', ''escape''), (''form.next-field'', ''tab''), (''form.previous-field'', ''up''),
     (''form.cursor-left'', ''left''), (''form.cursor-right'', ''right''), (''form.cursor-home'', ''home''),
     (''form.cursor-end'', ''end''), (''form.backspace'', ''backspace''), (''form.delete'', ''delete''),
     (''form.apply'', ''enter'')] i"

definition form_action :: "segmenter \<Rightarrow> event_context \<Rightarrow> string \<Rightarrow> 'w form \<Rightarrow> ledger \<Rightarrow> 'w form_step" where
  "form_action seg ctx i m l =
     (if \<not> st_enabled (form_action_state m i) then ([], m, l)
      else case action_key_code i of
          Some k \<Rightarrow> form_key seg ctx k m l
        | None \<Rightarrow> (if i = ''form.rollback'' then form_text seg ctx ''r'' True m l else ([], m, l)))"

fun form_update :: "segmenter \<Rightarrow> event_context \<Rightarrow> form_event \<Rightarrow> 'w form \<Rightarrow> ledger \<Rightarrow> 'w form_step" where
  "form_update seg ctx (ResizeEvent lay gen) m l =
     (if gen \<le> fm_resize_generation m then ([], m, l)
      else ([], m\<lparr>fm_layout := Some lay, fm_resize_generation := gen\<rparr>, l))"
| "form_update seg ctx (TextEvent t p a) m l = form_text seg ctx t a m l"
| "form_update seg ctx (KeyEvent k a) m l = form_key seg ctx k m l"
| "form_update seg ctx (ActionEvent i) m l = form_action seg ctx i m l"
| "form_update seg ctx (ResultEvent key gen corr r) m l = ([], form_resolve seg key gen r m, l)"
| "form_update seg ctx (FocusEvent f) m l = ([], m, l)"
| "form_update seg ctx (TimerEvent c g) m l = ([], m, l)"

end
