(* ===== verification/FormLaws.thy ===== *)
theory FormLaws
  imports Form
begin

text \<open>
  The form's invariant under every event, and the apply / rollback protocol.
\<close>

definition field_ids :: "'w form \<Rightarrow> string list" where
  "field_ids m = map ff_id (fm_fields m)"

text \<open>Fields, buffers and focus fit together.\<close>

definition shape_ok :: "segmenter \<Rightarrow> 'w form \<Rightarrow> bool" where
  "shape_ok seg m \<longleftrightarrow> fm_fields m \<noteq> [] \<and> distinct (field_ids m) \<and>
     length (fm_buffers m) = length (fm_fields m) \<and> fm_focus m < length (fm_fields m) \<and>
     (\<forall>b \<in> set (fm_buffers m). buffer_ok seg b)"

text \<open>A set of values for exactly the form's fields, of valid text.\<close>

definition covers :: "'w form \<Rightarrow> form_values \<Rightarrow> bool" where
  "covers m v \<longleftrightarrow> map fst v = field_ids m \<and> (\<forall>x \<in> set v. valid_utf8 (snd x))"

text \<open>The protocol: at most one request is pending, the state says which, and a token to roll
  back comes with the values to restore.\<close>

definition protocol_ok :: "'w form \<Rightarrow> ledger \<Rightarrow> bool" where
  "protocol_ok m l \<longleftrightarrow>
     (fm_pending_apply m \<longleftrightarrow> fm_state m = Applying) \<and>
     (fm_pending_rollback m \<longleftrightarrow> fm_state m = RollingBack) \<and>
     (fm_compensation m \<longrightarrow> fm_token m \<noteq> [] \<and> \<not> fm_pending_apply m) \<and>
     (fm_token m \<noteq> [] \<or> fm_pending_apply m \<longrightarrow>
        fo_apply (fm_options m) \<noteq> None \<and> covers m (fm_rollback_values m)) \<and>
     (fm_pending_rollback m \<longrightarrow> fm_token m \<noteq> []) \<and>
     (fm_pending_apply m \<longrightarrow> covers m (fm_submitted m)) \<and>
     covers m (fm_applied m) \<and>
     fm_apply_generation m = ld_requests l apply_key \<and>
     fm_rollback_generation m = ld_requests l rollback_key"

definition form_ok :: "segmenter \<Rightarrow> 'w form \<Rightarrow> ledger \<Rightarrow> bool" where
  "form_ok seg m l \<longleftrightarrow> segmenter_ok seg \<and> shape_ok seg m \<and> protocol_ok m l"

subsection \<open>Values\<close>

lemma covers_form_values: "shape_ok seg m \<Longrightarrow> covers m (form_values m)"
  by (auto simp: shape_ok_def covers_def form_values_def field_ids_def buffer_ok_def map_fst_zip_take
      comp_def case_prod_beta dest!: set_zip_rightD) (simp_all add: map_fst_zip_take flip: map_map [unfolded comp_def])

lemma lookup_covered:
  assumes "covers m v" and "distinct (field_ids m)"
  shows "map (\<lambda>f. (ff_id f, lookup_value v (ff_id f))) (fm_fields m) = v"
proof -
  have ids: "map fst v = field_ids m" using assms(1) by (simp add: covers_def)
  then have "distinct (map fst v)" using assms(2) by simp
  then have "map (\<lambda>i. (i, lookup_value v i)) (map fst v) = v"
    by (auto simp: lookup_value_def intro!: map_idI)
  then show ?thesis by (simp add: ids field_ids_def comp_def)
qed

lemma lookup_valid: "covers m v \<Longrightarrow> valid_utf8 (lookup_value v i)"
  by (fastforce simp: lookup_value_def covers_def split: option.splits dest: map_of_SomeD)

lemma lookup_self: "distinct (map fst v) \<Longrightarrow> values_equal v v"
  by (auto simp: values_equal_def list_all_iff lookup_value_def)

lemma values_equal_covers:
  assumes "covers m v" and "covers m w" and "distinct (field_ids m)" and "values_equal v w"
  shows "v = w"
proof -
  have "map (\<lambda>f. (ff_id f, lookup_value v (ff_id f))) (fm_fields m) =
      map (\<lambda>f. (ff_id f, lookup_value w (ff_id f))) (fm_fields m)"
  proof (rule map_cong [OF refl])
    fix f assume "f \<in> set (fm_fields m)"
    then have "ff_id f \<in> set (map fst v)" using assms(1) by (simp add: covers_def field_ids_def)
    then obtain x where "(ff_id f, x) \<in> set v" by auto
    moreover from this have "lookup_value v (ff_id f) = x"
      using assms(1,3) by (simp add: lookup_value_def covers_def)
    ultimately show "(ff_id f, lookup_value v (ff_id f)) = (ff_id f, lookup_value w (ff_id f))"
      using assms(4) by (auto simp: values_equal_def list_all_iff)
  qed
  then show ?thesis using lookup_covered [OF assms(1,3)] lookup_covered [OF assms(2,3)] by simp
qed

subsection \<open>Preservation\<close>

lemma shape_fields:
  "shape_ok seg (m\<lparr>fm_errors := e\<rparr>) = shape_ok seg m" "shape_ok seg (m\<lparr>fm_state := s\<rparr>) = shape_ok seg m"
  "shape_ok seg (m\<lparr>fm_pending_apply := b\<rparr>) = shape_ok seg m" "shape_ok seg (m\<lparr>fm_pending_rollback := b\<rparr>) = shape_ok seg m"
  "shape_ok seg (m\<lparr>fm_submitted := v\<rparr>) = shape_ok seg m" "shape_ok seg (m\<lparr>fm_applied := v\<rparr>) = shape_ok seg m"
  "shape_ok seg (m\<lparr>fm_rollback_values := v\<rparr>) = shape_ok seg m" "shape_ok seg (m\<lparr>fm_token := t\<rparr>) = shape_ok seg m"
  "shape_ok seg (m\<lparr>fm_compensation := b\<rparr>) = shape_ok seg m" "shape_ok seg (m\<lparr>fm_apply_generation := g\<rparr>) = shape_ok seg m"
  "shape_ok seg (m\<lparr>fm_rollback_generation := g\<rparr>) = shape_ok seg m" "shape_ok seg (m\<lparr>fm_layout := lay\<rparr>) = shape_ok seg m"
  "shape_ok seg (m\<lparr>fm_resize_generation := g\<rparr>) = shape_ok seg m" "shape_ok seg (m\<lparr>fm_target_revision := g\<rparr>) = shape_ok seg m"
  by (simp_all add: shape_ok_def field_ids_def)

lemma focused_ok: "shape_ok seg m \<Longrightarrow> buffer_ok seg (focused_buffer m)"
  by (simp add: shape_ok_def focused_buffer_def)

lemma set_focused_ok: "form_ok seg m l \<Longrightarrow> buffer_ok seg b \<Longrightarrow> form_ok seg (set_focused b m) l"
  by (auto simp: form_ok_def shape_ok_def protocol_ok_def covers_def field_ids_def set_focused_def
      dest: set_update_subset_insert [THEN subsetD])

lemma changed_ok: "form_ok seg m l \<Longrightarrow> form_ok seg (form_changed m) l"
  by (auto simp: form_ok_def shape_fields protocol_ok_def covers_def field_ids_def form_changed_def Let_def)

lemma focus_ok: "form_ok seg m l \<Longrightarrow> form_ok seg (m\<lparr>fm_focus := k mod length (fm_fields m)\<rparr>) l"
  by (auto simp: form_ok_def shape_ok_def protocol_ok_def covers_def field_ids_def)

lemma form_validate_cases:
  assumes "form_validate m = (ok, m')"
  shows "(ok \<longrightarrow> (\<exists>e. m' = m\<lparr>fm_errors := e\<rparr>)) \<and> (\<not> ok \<longrightarrow> (\<exists>e. m' = m\<lparr>fm_errors := e, fm_state := Invalid\<rparr>))"
  using assms by (auto simp: form_validate_def Let_def split: if_splits option.splits)

lemma ledger_start:
  "start_work ctx key work l = (r, l') \<Longrightarrow>
     (case r of Inl e \<Rightarrow> l' = l | Inr ef \<Rightarrow> ld_requests l' = (ld_requests l)(key := ld_requests l key + 1))"
  by (cases r) (auto simp: start_work_Inr dest: start_work_Inl)

lemma keys_differ [simp]: "apply_key \<noteq> rollback_key" "rollback_key \<noteq> apply_key"
  by (simp_all add: apply_key_def rollback_key_def)

lemma start_apply_ok:
  assumes ok: "form_ok seg m l" and run: "start_apply ctx m l = (efs, m', l')"
  shows "form_ok seg m' l'"
proof (cases "fo_apply (fm_options m) = None \<or> fm_pending_apply m \<or> fm_pending_rollback m \<or> fm_compensation m")
  case True
  with assms show ?thesis by (auto simp: start_apply_def split: option.splits)
next
  case False
  obtain valid m1 where v: "form_validate m = (valid, m1)" by fastforce
  note cases = form_validate_cases [OF v]
  show ?thesis
  proof (cases valid)
    case False
    with cases \<open>\<not> (fo_apply (fm_options m) = None \<or> _)\<close> v run have "m' = m1" "l' = l"
      by (auto simp: start_apply_def)
    with False cases ok \<open>\<not> (fo_apply (fm_options m) = None \<or> _)\<close> show ?thesis
      by (auto simp: form_ok_def shape_fields protocol_ok_def covers_def field_ids_def)
  next
    case True
    then obtain e where m1: "m1 = m\<lparr>fm_errors := e\<rparr>" using cases by auto
    obtain ap where ap: "fo_apply (fm_options m) = Some ap" using False by auto
    let ?m2 = "m1\<lparr>fm_submitted := form_values m1, fm_rollback_values := fm_applied m1\<rparr>"
    obtain r l1 where r: "start_work ctx apply_key (Some (apply_work ap (fm_submitted ?m2))) l = (r, l1)" by fastforce
    have sub: "covers m (form_values m)" using ok covers_form_values by (auto simp: form_ok_def)
    have fv: "form_values m1 = form_values m" by (simp add: m1 form_values_def)
    show ?thesis
    proof (cases r)
      case (Inl x)
      then have "m' = ?m2\<lparr>fm_state := Failed\<rparr>" "l' = l"
        using run r v True ap False ledger_start [OF r] by (auto simp: start_apply_def)
      with ok False sub show ?thesis
        by (auto simp: form_ok_def shape_fields protocol_ok_def covers_def field_ids_def m1)
    next
      case (Inr ef)
      then have m': "m' = ?m2\<lparr>fm_pending_apply := True, fm_apply_generation := fm_apply_generation ?m2 + 1, fm_state := Applying\<rparr>"
        "l' = l1" using run r v True ap False by (auto simp: start_apply_def)
      have "ld_requests l1 = (ld_requests l)(apply_key := ld_requests l apply_key + 1)"
        using ledger_start [OF r] Inr by simp
      with m' ok False sub ap fv show ?thesis
        by (auto simp: form_ok_def shape_fields protocol_ok_def covers_def field_ids_def m1)
    qed
  qed
qed

lemma start_rollback_ok:
  assumes ok: "form_ok seg m l" and may: "may_roll_back m" and run: "start_rollback ctx m l = (efs, m', l')"
  shows "form_ok seg m' l'"
proof -
  obtain ap where ap: "fo_apply (fm_options m) = Some ap"
    using ok may by (auto simp: form_ok_def protocol_ok_def may_roll_back_def)
  obtain r l1 where r: "start_work ctx rollback_key (Some (rollback_work ap (fm_token m))) l = (r, l1)" by fastforce
  show ?thesis
  proof (cases r)
    case (Inl e)
    then have "m' = m\<lparr>fm_state := Failed\<rparr>" "l' = l"
      using run r ap ledger_start [OF r] by (auto simp: start_rollback_def)
    with ok may show ?thesis
      by (auto simp: form_ok_def shape_fields protocol_ok_def covers_def field_ids_def may_roll_back_def)
  next
    case (Inr ef)
    then have m': "m' = m\<lparr>fm_pending_rollback := True, fm_rollback_generation := fm_rollback_generation m + 1,
        fm_state := RollingBack\<rparr>" "l' = l1" using run r ap by (auto simp: start_rollback_def)
    have "ld_requests l1 = (ld_requests l)(rollback_key := ld_requests l rollback_key + 1)"
      using ledger_start [OF r] Inr by simp
    with m' ok may show ?thesis
      by (auto simp: form_ok_def shape_fields protocol_ok_def covers_def field_ids_def may_roll_back_def)
  qed
qed

lemma resolve_apply_ok:
  assumes ok: "form_ok seg m l" and pending: "fm_pending_apply m"
  shows "form_ok seg (resolve_apply r m) l"
proof (cases "wr_value r")
  case (ApplyResult token failed undone)
  show ?thesis
  proof (cases "wr_failed r \<or> failed")
    case True
    with ApplyResult assms show ?thesis
      by (auto simp: resolve_apply_def Let_def form_ok_def shape_fields protocol_ok_def covers_def field_ids_def)
  next
    case False
    with ApplyResult assms show ?thesis
      by (auto simp: resolve_apply_def Let_def form_ok_def shape_fields protocol_ok_def covers_def field_ids_def)
  qed
qed (use assms in \<open>auto simp: resolve_apply_def Let_def form_ok_def shape_fields protocol_ok_def covers_def field_ids_def\<close>)

lemma restored_values:
  assumes "segmenter_ok seg" and "length bs = length fs"
  shows "map (\<lambda>(f, b). (ff_id f, buf_text b)) (zip fs (map2 (\<lambda>f b. buf_set seg (g (ff_id f)) b) fs bs)) =
    map (\<lambda>f. (ff_id f, g (ff_id f))) fs"
  using assms(2)
proof (induction bs fs rule: list_induct2)
  case Nil
  then show ?case by simp
next
  case (Cons b bs f fs)
  then show ?case by (simp add: buf_set_text [OF assms(1)])
qed

lemma resolve_rollback_values:
  assumes ok: "form_ok seg m l" and pending: "fm_pending_rollback m" and good: "\<not> wr_failed r"
  shows "form_values (resolve_rollback seg r m) = fm_rollback_values m"
proof -
  have "covers m (fm_rollback_values m)" using ok pending by (auto simp: form_ok_def protocol_ok_def)
  then have "map (\<lambda>f. (ff_id f, lookup_value (fm_rollback_values m) (ff_id f))) (fm_fields m) = fm_rollback_values m"
    using ok by (intro lookup_covered) (auto simp: form_ok_def shape_ok_def)
  moreover have "length (fm_buffers m) = length (fm_fields m)" "segmenter_ok seg"
    using ok by (auto simp: form_ok_def shape_ok_def)
  ultimately show ?thesis
    using good restored_values [of seg "fm_buffers m" "fm_fields m" "lookup_value (fm_rollback_values m)"]
    by (simp add: resolve_rollback_def form_values_def Let_def)
qed

lemma resolve_rollback_ok:
  assumes ok: "form_ok seg m l" and pending: "fm_pending_rollback m"
  shows "form_ok seg (resolve_rollback seg r m) l"
proof (cases "wr_failed r")
  case True
  with assms show ?thesis
    by (auto simp: resolve_rollback_def Let_def form_ok_def shape_fields protocol_ok_def covers_def field_ids_def)
next
  case False
  have cov: "covers m (fm_rollback_values m)" using assms by (auto simp: form_ok_def protocol_ok_def)
  have "shape_ok seg (m\<lparr>fm_buffers := map2 (\<lambda>f b. buf_set seg (lookup_value (fm_rollback_values m) (ff_id f)) b)
      (fm_fields m) (fm_buffers m)\<rparr>)"
    using ok by (auto simp: form_ok_def shape_ok_def field_ids_def intro!: buf_set_ok lookup_valid [OF cov])
  then have "shape_ok seg (resolve_rollback seg r m)"
    using False by (simp add: resolve_rollback_def Let_def shape_ok_def field_ids_def)
  then show ?thesis using False assms cov
    by (auto simp: resolve_rollback_def Let_def form_ok_def protocol_ok_def covers_def field_ids_def)
qed

lemma form_resolve_ok: "form_ok seg m l \<Longrightarrow> form_ok seg (form_resolve seg key gen r m) l"
  by (auto simp: form_resolve_def intro: resolve_apply_ok resolve_rollback_ok)

lemma form_text_ok:
  assumes "form_ok seg m l" and "valid_utf8 t" and "form_text seg ctx t a m l = (efs, m', l')"
  shows "form_ok seg m' l'"
proof (cases "a \<and> t = ''r'' \<and> may_roll_back m")
  case True
  with assms show ?thesis by (auto simp: form_text_def intro: start_rollback_ok)
next
  case False
  have "buffer_ok seg (buf_insert seg t (focused_buffer m))"
    using assms by (intro edits_ok(1)) (auto simp: form_ok_def focused_ok)
  with False assms show ?thesis by (auto simp: form_text_def intro!: changed_ok set_focused_ok)
qed

lemma edit_if_ok: "form_ok seg m l \<Longrightarrow> buffer_ok seg (snd r) \<Longrightarrow> form_ok seg (edit_if r m) l"
  by (auto simp: edit_if_def intro!: changed_ok set_focused_ok)

lemma form_key_ok:
  assumes ok: "form_ok seg m l" and run: "form_key seg ctx k m l = (efs, m', l')"
  shows "form_ok seg m' l'"
proof -
  have b: "buffer_ok seg (focused_buffer m)" and s: "segmenter_ok seg"
    using ok by (auto simp: form_ok_def focused_ok)
  show ?thesis using run ok
    by (auto simp: form_key_def Let_def split: if_splits
        intro!: focus_ok edit_if_ok set_focused_ok moves_ok [OF b] edits_ok [OF s b] dest: start_apply_ok [OF ok])
qed

lemma resize_ok:
  "form_ok seg m l \<Longrightarrow> form_ok seg (m\<lparr>fm_layout := Some lay, fm_resize_generation := gen\<rparr>) l"
  by (auto simp: form_ok_def shape_fields protocol_ok_def covers_def field_ids_def)

definition event_valid :: "form_event \<Rightarrow> bool" where
  "event_valid ev \<longleftrightarrow> (case ev of TextEvent t _ _ \<Rightarrow> valid_utf8 t | _ \<Rightarrow> True)"

lemma form_update_ok:
  assumes ok: "form_ok seg m l" and ev: "event_valid ev" and run: "form_update seg ctx ev m l = (efs, m', l')"
  shows "form_ok seg m' l'"
proof (cases ev)
  case (ActionEvent i)
  have "valid_utf8 ''r''" by (simp add: valid_utf8_ascii ascii_def byte_def)
  moreover have "form_action seg ctx i m l = (efs, m', l')" using run ActionEvent by simp
  ultimately show ?thesis
    using ok form_key_ok [OF ok, of ctx _ efs m' l'] form_text_ok [OF ok, of "''r''" ctx True efs m' l']
    by (cases "action_key_code i") (simp_all add: form_action_def split: if_split_asm)
next
  case (KeyEvent k a)
  with run ok show ?thesis by (auto dest: form_key_ok)
next
  case (TextEvent t p a)
  with run ok ev show ?thesis by (auto simp: event_valid_def dest: form_text_ok)
next
  case (ResizeEvent lay gen)
  with run ok resize_ok [OF ok, of gen lay] show ?thesis by (cases "gen \<le> fm_resize_generation m") simp_all
next
  case (ResultEvent key gen corr r)
  with run ok show ?thesis by (auto intro: form_resolve_ok)
qed (use run ok in auto)

text \<open>One event in its context, on the form and the shell's ledger.\<close>

fun form_step :: "segmenter \<Rightarrow> 'w form \<times> ledger \<Rightarrow> event_context \<times> form_event \<Rightarrow> 'w form \<times> ledger" where
  "form_step seg (m, l) (ctx, ev) =
     (if event_valid ev then snd (form_update seg ctx ev m l) else (m, l))"

interpretation formmachine: machine "form_step seg" "\<lambda>(m, l). form_ok seg m l" for seg
proof
  fix s :: "'w form \<times> ledger" and ev
  assume "case s of (m, l) \<Rightarrow> form_ok seg m l"
  then show "case form_step seg s ev of (m, l) \<Rightarrow> form_ok seg m l"
    by (cases s; cases ev; cases "form_update seg (fst ev) (snd ev) (fst s) (snd s)")
      (auto dest: form_update_ok)
qed

lemma new_form_fields:
  assumes "new_form seg opts = Inr m"
  shows "fm_options m = opts \<and> fm_fields m = fo_fields opts \<and> fo_fields opts \<noteq> [] \<and> distinct (map ff_id (fo_fields opts)) \<and>
    fm_buffers m = map (\<lambda>f. new_buffer seg (ff_value f)) (fo_fields opts) \<and> fm_focus m = 0 \<and>
    fm_state m = Pristine \<and> fm_applied m = form_values m \<and> fm_token m = [] \<and> \<not> fm_pending_apply m \<and>
    \<not> fm_pending_rollback m \<and> \<not> fm_compensation m \<and> fm_apply_generation m = 0 \<and> fm_rollback_generation m = 0"
proof -
  have "check_fields (fo_fields opts) = None" "fo_fields opts \<noteq> []"
    using assms by (auto simp: new_form_def split: if_splits option.splits)
  moreover from this(1) have "distinct (map ff_id (fo_fields opts))"
    unfolding check_fields_def by (rule check_unique_distinct)
  ultimately show ?thesis
    using assms by (simp add: new_form_def Let_def) (auto simp: form_values_def)
qed

lemma new_form_ok:
  assumes seg: "segmenter_ok seg" and new: "new_form seg opts = Inr m"
    and valid: "\<forall>f \<in> set (fo_fields opts). valid_utf8 (ff_value f)"
  shows "form_ok seg m empty_ledger"
proof -
  note new = new_form_fields [OF new]
  have "\<forall>b \<in> set (fm_buffers m). buffer_ok seg b"
    using new seg valid by (simp add: new_buffer_def buf_set_ok)
  with new have shape: "shape_ok seg m" by (simp add: shape_ok_def field_ids_def)
  moreover from covers_form_values [OF shape] have "covers m (fm_applied m)" using new by simp
  ultimately show ?thesis using seg new
    by (simp add: form_ok_def protocol_ok_def empty_ledger_def)
qed

lemma form_run_ok:
  assumes "segmenter_ok seg" and "new_form seg opts = Inr m0"
    and "\<forall>f \<in> set (fo_fields opts). valid_utf8 (ff_value f)"
    and "foldl (form_step seg) (m0, empty_ledger) evs = (m, l)"
  shows "form_ok seg m l"
  using formmachine.run_good [of seg "(m0, empty_ledger)" evs] new_form_ok [OF assms(1-3)] assms(4) by simp

text \<open>
  C30: whatever events, contexts and background results reach a form, it keeps its protocol:
  the focus is a field, every buffer is intact, at most one of apply and rollback is
  pending and the visible state says which, unresolved compensation always has the token to
  retry with, and the generation it waits for is the shell's current one for that request.
\<close>

theorem form_invariant:
  assumes "segmenter_ok seg" and "new_form seg opts = Inr m0"
    and "\<forall>f \<in> set (fo_fields opts). valid_utf8 (ff_value f)"
    and "foldl (form_step seg) (m0, empty_ledger) evs = (m, l)"
  shows "fm_focus m < length (fm_fields m) \<and> length (fm_buffers m) = length (fm_fields m) \<and>
    (\<forall>b \<in> set (fm_buffers m). buffer_ok seg b) \<and>
    \<not> (fm_pending_apply m \<and> fm_pending_rollback m) \<and>
    (fm_pending_apply m = (fm_state m = Applying)) \<and> (fm_pending_rollback m = (fm_state m = RollingBack)) \<and>
    (fm_compensation m \<longrightarrow> fm_token m \<noteq> []) \<and>
    fm_apply_generation m = ld_requests l ''form.apply'' \<and> fm_rollback_generation m = ld_requests l ''form.rollback''"
  using form_run_ok [OF assms]
  by (auto simp: form_ok_def shape_ok_def protocol_ok_def apply_key_def rollback_key_def)

end
