(* ===== verification/FormProtocol.thy ===== *)
theory FormProtocol
  imports FormLaws
begin

text \<open>
  The apply / rollback protocol of the form run against an applier: the round trip, and what
  a failed apply does to a rollback that was already offered.
\<close>

lemma start_apply_effect:
  assumes "start_apply ctx m l = ([ef], m1, l1)" and "fo_apply (fm_options m) = Some ap"
  shows "\<exists>e. m1 = m\<lparr>fm_errors := e, fm_submitted := form_values m, fm_rollback_values := fm_applied m,
      fm_pending_apply := True, fm_apply_generation := fm_apply_generation m + 1, fm_state := Applying\<rparr> \<and>
    ef_key ef = apply_key \<and> ef_generation ef = ld_requests l apply_key + 1 \<and>
    ef_work ef = apply_work ap (form_values m) \<and>
    ld_requests l1 = (ld_requests l)(apply_key := ld_requests l apply_key + 1)"
proof -
  obtain valid m' where v: "form_validate m = (valid, m')" by fastforce
  with assms have "valid" by (cases valid) (auto simp: start_apply_def split: if_splits)
  then obtain e where m': "m' = m\<lparr>fm_errors := e\<rparr>" using form_validate_cases [OF v] by auto
  then have fv: "form_values m' = form_values m" by (simp add: form_values_def)
  show ?thesis
    using assms v \<open>valid\<close> fv
    by (auto simp: start_apply_def Let_def m' start_work_Inr split: prod.splits sum.splits if_splits)
qed

lemma start_rollback_effect:
  assumes "start_rollback ctx m l = ([ef], m1, l1)" and "fo_apply (fm_options m) = Some ap"
  shows "m1 = m\<lparr>fm_pending_rollback := True, fm_rollback_generation := fm_rollback_generation m + 1,
      fm_state := RollingBack\<rparr> \<and> ef_key ef = rollback_key \<and>
    ef_generation ef = ld_requests l rollback_key + 1 \<and> ef_work ef = rollback_work ap (fm_token m)"
  using assms by (auto simp: start_rollback_def start_work_Inr split: prod.splits sum.splits)

lemma form_resolve_rollback_values:
  assumes "form_ok seg m l" and "fm_pending_rollback m" and "\<not> wr_failed r"
  shows "form_values (form_resolve seg rollback_key (fm_rollback_generation m) r m) = fm_rollback_values m \<and>
    fm_applied (form_resolve seg rollback_key (fm_rollback_generation m) r m) = fm_rollback_values m \<and>
    fm_token (form_resolve seg rollback_key (fm_rollback_generation m) r m) = [] \<and>
    fm_state (form_resolve seg rollback_key (fm_rollback_generation m) r m) = RolledBack"
  using assms resolve_rollback_values [OF assms] by (simp add: form_resolve_def) (simp add: resolve_rollback_def)

text \<open>What a rollback that succeeds restores.\<close>

lemma rolled_back:
  assumes ok: "form_ok seg m l" and may: "may_roll_back m" and ap: "fo_apply (fm_options m) = Some ap"
    and run: "start_rollback ctx m l = ([ef], m', l')" "ef_work ef w = (r, w')" "\<not> wr_failed r"
    and m2: "m2 = form_resolve seg (ef_key ef) (ef_generation ef) r m'"
  shows "form_values m2 = fm_rollback_values m \<and> fm_applied m2 = fm_rollback_values m \<and> fm_token m2 = [] \<and>
    fm_state m2 = RolledBack \<and> ap_rollback ap (fm_token m) w = (False, w')"
proof -
  note eff = start_rollback_effect [OF run(1) ap]
  have m': "m' = m\<lparr>fm_pending_rollback := True, fm_rollback_generation := fm_rollback_generation m + 1, fm_state := RollingBack\<rparr>"
    using eff by simp
  have "ef_generation ef = fm_rollback_generation m'"
    using eff ok by (simp add: form_ok_def protocol_ok_def)
  moreover have "ef_key ef = rollback_key" using eff by simp
  ultimately have "form_values m2 = fm_rollback_values m' \<and> fm_applied m2 = fm_rollback_values m' \<and> fm_token m2 = [] \<and>
      fm_state m2 = RolledBack"
    using form_resolve_rollback_values [OF start_rollback_ok [OF ok may run(1)] _ run(3)] unfolding m2 by (simp add: m')
  moreover have "ap_rollback ap (fm_token m) w = (False, w')"
    using run(2,3) eff by (auto simp: rollback_work_def split: prod.splits if_splits)
  ultimately show ?thesis by (simp add: m')
qed

text \<open>
  C13: applying and then rolling back is a round trip.  If the applier's rollback undoes the
  apply that issued the token, then after a successful apply and a successful rollback the
  world is what it was, and the form shows and remembers the values that were applied
  before.
\<close>

theorem form_apply_rollback_roundtrip:
  assumes ok: "form_ok seg m l" and ap: "fo_apply (fm_options m) = Some ap"
    and undo: "\<forall>v w t w'. ap_apply ap v w = ((t, False), w') \<longrightarrow> ap_rollback ap t w' = (False, w)"
    and apply_run: "start_apply ctx m l = ([ef], m1, l1)" "ef_work ef w = (r, w1)" "\<not> wr_failed r"
    and token: "ar_token (wr_value r) \<noteq> []"
    and m2: "m2 = form_resolve seg (ef_key ef) (ef_generation ef) r m1"
    and undo_run: "start_rollback ctx m2 l1 = ([ef2], m3, l3)" "ef_work ef2 w1 = (r2, w2)"
    and m4: "m4 = form_resolve seg (ef_key ef2) (ef_generation ef2) r2 m3"
  shows "fm_applied m2 = form_values m \<and> w2 = w \<and> form_values m4 = fm_applied m \<and>
    fm_applied m4 = fm_applied m \<and> fm_token m4 = [] \<and> fm_state m4 = RolledBack"
proof -
  obtain e where m1: "m1 = m\<lparr>fm_errors := e, fm_submitted := form_values m, fm_rollback_values := fm_applied m,
      fm_pending_apply := True, fm_apply_generation := fm_apply_generation m + 1, fm_state := Applying\<rparr>"
    and ef: "ef_key ef = apply_key" "ef_generation ef = ld_requests l apply_key + 1"
      "ef_work ef = apply_work ap (form_values m)"
    and l1: "ld_requests l1 = (ld_requests l)(apply_key := ld_requests l apply_key + 1)"
    using start_apply_effect [OF apply_run(1) ap] by blast
  obtain t err w' where call: "ap_apply ap (form_values m) w = ((t, err), w')" by (cases "ap_apply ap (form_values m) w") auto
  then have "\<not> err" using apply_run(2,3) ef(3) by (auto simp: apply_work_def split: if_splits prod.splits)
  with call apply_run(2) ef(3) have r: "r = \<lparr>wr_value = ApplyResult t False False, wr_code = outcome_applied, wr_failed = False\<rparr>"
    and w1: "w1 = w'" by (auto simp: apply_work_def)
  have t: "t \<noteq> []" using token r by simp
  have gens: "fm_apply_generation m = ld_requests l apply_key" "fm_rollback_generation m = ld_requests l rollback_key"
    using ok by (auto simp: form_ok_def protocol_ok_def)
  have m2': "m2 = resolve_apply r m1" using m2 m1 ef gens by (simp add: form_resolve_def)
  have ok1: "form_ok seg m1 l1" using start_apply_ok [OF ok apply_run(1)] .
  have ok2: "form_ok seg m2 l1" unfolding m2' by (rule resolve_apply_ok [OF ok1]) (simp add: m1)
  have f2: "fm_applied m2 = form_values m" "fm_token m2 = t" "fm_rollback_values m2 = fm_applied m"
      "fm_options m2 = fm_options m" "fm_rollback_generation m2 = ld_requests l rollback_key"
      "\<not> fm_pending_apply m2" "fm_pending_rollback m2 = fm_pending_rollback m"
    by (simp_all add: m2' r m1 resolve_apply_def gens)
  have "\<not> fm_pending_rollback m1" using ok1 m1 by (auto simp: form_ok_def protocol_ok_def)
  then have may: "may_roll_back m2" using f2 t by (simp add: may_roll_back_def m1)
  from start_rollback_effect [OF undo_run(1)] f2 ap
  have m3: "m3 = m2\<lparr>fm_pending_rollback := True, fm_rollback_generation := fm_rollback_generation m2 + 1, fm_state := RollingBack\<rparr>"
    and ef2: "ef_key ef2 = rollback_key" "ef_generation ef2 = ld_requests l1 rollback_key + 1"
      "ef_work ef2 = rollback_work ap t" by auto
  have ok3: "form_ok seg m3 l3" using start_rollback_ok [OF ok2 may undo_run(1)] .
  have undone: "ap_rollback ap t w' = (False, w)" using undo call \<open>\<not> err\<close> by auto
  then have r2: "\<not> wr_failed r2" and w2: "w2 = w"
    using undo_run(2) ef2(3) w1 by (auto simp: rollback_work_def)
  have g3: "ef_generation ef2 = fm_rollback_generation m3" using ef2 l1 f2 m3 by simp
  have "form_values m4 = fm_rollback_values m3 \<and> fm_applied m4 = fm_rollback_values m3 \<and> fm_token m4 = [] \<and>
      fm_state m4 = RolledBack"
    using form_resolve_rollback_values [OF ok3 _ r2] unfolding m4 ef2(1) g3 by (simp add: m3)
  moreover have "fm_rollback_values m3 = fm_applied m" using m3 f2 by simp
  ultimately show ?thesis using f2 w2 by simp
qed

text \<open>No event changes the options.\<close>

lemma form_options_kept:
  "fm_options (fst (snd (start_apply ctx m l))) = fm_options m"
  "fm_options (fst (snd (start_rollback ctx m l))) = fm_options m"
  "fm_options (form_changed m) = fm_options m" "fm_options (set_focused b m) = fm_options m" "fm_options (edit_if x m) = fm_options m"
  "fm_options (form_resolve seg key gen r m) = fm_options m"
  by (auto simp: start_apply_def start_rollback_def form_validate_def form_changed_def set_focused_def edit_if_def form_resolve_def
      resolve_apply_def resolve_rollback_def Let_def split: option.splits bool.splits prod.splits sum.splits form_result.splits)

lemma form_key_options: "fm_options (fst (snd (form_key seg ctx k m l))) = fm_options m"
  by (simp add: form_key_def Let_def form_options_kept)

lemma form_text_options: "fm_options (fst (snd (form_text seg ctx t a m l))) = fm_options m"
  by (simp add: form_text_def form_options_kept)

lemma form_step_options: "fm_options (fst (form_step seg s ev)) = fm_options (fst s)"
proof (cases s, cases ev)
  fix m l ctx e
  assume "s = (m, l)" "ev = (ctx, e)"
  then show ?thesis
    by (cases e) (auto simp: form_action_def form_key_options form_text_options form_options_kept split: prod.splits option.splits
        dest!: arg_cong [where f = "\<lambda>x. fm_options (fst (snd x))"])
qed

lemma form_run_options: "fm_options (fst (foldl (form_step seg) s evs)) = fm_options (fst s)"
  by (induction evs arbitrary: s) (simp_all add: form_step_options del: form_step.simps)

subsection \<open>A form, an applier and a run\<close>

text \<open>
  The world is the history of applied names, the current one first.  The applier refuses
  the name \<open>abc\<close> without changing anything; rolling back drops the current name.
\<close>

type_synonym name_world = "string list"

definition name_applier :: "name_world applier" where
  "name_applier = \<lparr>
     ap_apply = (\<lambda>v w. if lookup_value v ''name'' = ''abc'' then (([], True), w)
        else ((''t'', False), lookup_value v ''name'' # w)),
     ap_rollback = (\<lambda>_ w. (False, tl w))\<rparr>"

definition name_options :: "name_world form_options" where
  "name_options = \<lparr>fo_fields = [\<lparr>ff_id = ''name'', ff_label = ''Name'', ff_value = ''a'', ff_error = [], ff_secret = False\<rparr>],
     fo_validate = None, fo_apply = Some name_applier\<rparr>"

definition name_form :: "name_world form" where
  "name_form = (case new_form rune_segmenter name_options of Inr m \<Rightarrow> m | Inl _ \<Rightarrow> undefined)"

lemma name_form_new: "new_form rune_segmenter name_options = Inr name_form"
  by (simp add: name_form_def name_options_def new_form_def check_fields_def semantic_id_def lower_ch_def
      alnum_ch_def byte_def first_err_def guard_err_def Let_def)

lemma name_form_options: "fm_options name_form = name_options"
  using new_form_fields [OF name_form_new] by blast

lemma name_form_ok: "form_ok rune_segmenter name_form empty_ledger"
  by (rule new_form_ok [OF rune_segmenter_ok name_form_new])
    (simp add: name_options_def valid_utf8_ascii ascii_def byte_def)

theorem form_invariant_witness:
  "fm_focus (fst (foldl (form_step rune_segmenter) (name_form, empty_ledger)
      [(EventContext True True, TextEvent ''b'' False False), (EventContext True True, KeyEvent ''enter'' False)])) < 1"
proof -
  have valid: "\<forall>f \<in> set (fo_fields name_options). valid_utf8 (ff_value f)"
    by (simp add: name_options_def valid_utf8_ascii ascii_def byte_def)
  let ?evs = "[(EventContext True True, TextEvent ''b'' False False), (EventContext True True, KeyEvent ''enter'' False)]"
  obtain m l where run: "foldl (form_step rune_segmenter) (name_form, empty_ledger) ?evs = (m, l)" by fastforce
  have "length (fm_fields (fst (foldl (form_step rune_segmenter) (name_form, empty_ledger) ?evs))) = 1" by code_simp
  with form_invariant [OF rune_segmenter_ok name_form_new valid run] run show ?thesis by simp
qed

theorem form_apply_rollback_roundtrip_witness:
  "\<exists>(m1 :: name_world form) (m2 :: name_world form) (m4 :: name_world form). form_values m1 = [(''name'', ''ab'')] \<and> fm_applied m2 = [(''name'', ''ab'')] \<and>
     form_values m4 = [(''name'', ''a'')] \<and> fm_state m4 = RolledBack"
proof -
  let ?ctx = "EventContext True True"
  define m where "m = fst (form_step rune_segmenter (name_form, empty_ledger) (?ctx, TextEvent ''b'' False False))"
  define l where "l = snd (form_step rune_segmenter (name_form, empty_ledger) (?ctx, TextEvent ''b'' False False))"
  have "form_ok rune_segmenter m l"
    using formmachine.run_good [of rune_segmenter "(name_form, empty_ledger)" "[(?ctx, TextEvent ''b'' False False)]"]
      name_form_ok by (simp add: m_def l_def split_beta del: form_step.simps)
  have vals: "form_values m = [(''name'', ''ab'')] \<and> fm_applied m = [(''name'', ''a'')]"
    unfolding m_def by code_simp
  have ap: "fo_apply (fm_options m) = Some name_applier"
    by (simp add: m_def form_text_def form_changed_def set_focused_def Let_def name_form_options name_options_def)
  have undo: "\<forall>v w t w'. ap_apply name_applier v w = ((t, False), w') \<longrightarrow> ap_rollback name_applier t w' = (False, w)"
    by (auto simp: name_applier_def split: if_splits)
  have "length (fst (start_apply ?ctx m l)) = 1" unfolding m_def l_def by code_simp
  then obtain ef m1 l1 where run: "start_apply ?ctx m l = ([ef], m1, l1)"
    by (cases "start_apply ?ctx m l") (auto simp: length_Suc_conv)
  from start_apply_effect [OF run ap] have work: "ef_work ef = apply_work name_applier [(''name'', ''ab'')]"
    and m1: "form_values m1 = [(''name'', ''ab'')]" using vals by (auto simp: form_values_def)
  obtain r w1 where r: "ef_work ef [''a''] = (r, w1)" by fastforce
  then have good: "\<not> wr_failed r" "ar_token (wr_value r) \<noteq> []"
    unfolding work by (auto simp: apply_work_def name_applier_def lookup_value_def)
  define m2 where "m2 = form_resolve rune_segmenter (ef_key ef) (ef_generation ef) r m1"
  have "ec_start ?ctx" by simp
  then obtain ef2 m3 l3 where run2: "start_rollback ?ctx m2 l1 = ([ef2], m3, l3)"
    by (auto simp: start_rollback_def start_work_def rollback_key_def Let_def split: prod.splits sum.splits)
  obtain r2 w2 where r2: "ef_work ef2 w1 = (r2, w2)" by fastforce
  from form_apply_rollback_roundtrip [OF \<open>form_ok rune_segmenter m l\<close> ap undo run r good m2_def run2 r2 refl]
  show ?thesis using vals m1
    by - (rule exI [of _ m1], rule exI [of _ m2],
        rule exI [of _ "form_resolve rune_segmenter (ef_key ef2) (ef_generation ef2) r2 m3"], simp)
qed

text \<open>
  C31: a failed apply pairs the rollback with the wrong values.  Let an earlier apply have left
  a token, and let a later apply fail without one.  The rollback that is still offered asks the
  applier to undo the earlier token, but the form restores, and remembers as applied, the values
  that this token's apply had put in place.  Asked for before the failed apply, the very same
  rollback restores the values to restore that belong to the token: starting the later apply has
  replaced them.
\<close>

theorem failed_apply_mispairs_rollback:
  assumes ok: "form_ok seg m l" and ap: "fo_apply (fm_options m) = Some ap" and token: "fm_token m \<noteq> []"
    and apply_run: "start_apply ctx m l = ([ef], m1, l1)" "ef_work ef w = (r, w1)" "wr_failed r" "ar_token (wr_value r) = []"
    and m2: "m2 = form_resolve seg (ef_key ef) (ef_generation ef) r m1"
    and undo_run: "start_rollback ctx m2 l1 = ([ef2], m3, l3)" "ef_work ef2 w1 = (r2, w2)" "\<not> wr_failed r2"
    and m4: "m4 = form_resolve seg (ef_key ef2) (ef_generation ef2) r2 m3"
    and sooner: "start_rollback ctx m l = ([ef'], m', l')" "ef_work ef' w1 = (r', w')"
  shows "may_roll_back m2 \<and> ap_rollback ap (fm_token m) w1 = (False, w2) \<and>
    form_values m4 = fm_applied m \<and> fm_applied m4 = fm_applied m \<and> fm_state m4 = RolledBack \<and>
    w' = w2 \<and> form_values (form_resolve seg (ef_key ef') (ef_generation ef') r' m') = fm_rollback_values m \<and>
    fm_applied (form_resolve seg (ef_key ef') (ef_generation ef') r' m') = fm_rollback_values m"
proof -
  obtain e where m1: "m1 = m\<lparr>fm_errors := e, fm_submitted := form_values m, fm_rollback_values := fm_applied m,
      fm_pending_apply := True, fm_apply_generation := fm_apply_generation m + 1, fm_state := Applying\<rparr>"
    and ef: "ef_key ef = apply_key" "ef_generation ef = ld_requests l apply_key + 1"
      "ef_work ef = apply_work ap (form_values m)"
    using start_apply_effect [OF apply_run(1) ap] by blast
  have gens: "fm_apply_generation m = ld_requests l apply_key" using ok by (auto simp: form_ok_def protocol_ok_def)
  have idle: "\<not> fm_pending_apply m" "\<not> fm_pending_rollback m"
    using apply_run(1) ap by (auto simp: start_apply_def split: if_splits)
  obtain undone where r: "wr_value r = ApplyResult [] True undone"
    using apply_run(2,3,4) by (auto simp: ef apply_work_def split: prod.splits if_splits)
  have m2': "m2 = resolve_apply r m1" using m2 m1 ef gens by (simp add: form_resolve_def)
  have ok2: "form_ok seg m2 l1" unfolding m2' by (rule resolve_apply_ok [OF start_apply_ok [OF ok apply_run(1)]]) (simp add: m1)
  have f2: "fm_token m2 = fm_token m" "fm_rollback_values m2 = fm_applied m" "fo_apply (fm_options m2) = Some ap"
      "\<not> fm_pending_apply m2" "\<not> fm_pending_rollback m2"
    using ap idle by (simp_all add: m2' r m1 resolve_apply_def)
  have may: "may_roll_back m2" "may_roll_back m" using f2 token idle by (simp_all add: may_roll_back_def)
  note late = rolled_back [OF ok2 may(1) f2(3) undo_run m4]
  have "\<not> wr_failed r'"
    using late start_rollback_effect [OF sooner(1) ap] sooner(2) by (auto simp: rollback_work_def f2 split: prod.splits)
  from rolled_back [OF ok may(2) ap sooner this refl] late may f2 show ?thesis by simp
qed

theorem failed_apply_mispairs_rollback_witness:
  "\<exists>(m4 :: name_world form) (m5 :: name_world form). form_values m4 = [(''name'', ''ab'')] \<and> fm_applied m4 = [(''name'', ''ab'')] \<and>
     form_values m5 = [(''name'', ''a'')] \<and> ap_rollback name_applier ''t'' [''ab'', ''a''] = (False, [''a''])"
proof -
  let ?ctx = "EventContext True True"
  let ?evs = "[(?ctx, TextEvent ''b'' False False), (?ctx, KeyEvent ''enter'' False),
    (?ctx, ResultEvent apply_key 1 [] \<lparr>wr_value = ApplyResult ''t'' False False, wr_code = outcome_applied, wr_failed = False\<rparr>),
    (?ctx, TextEvent ''c'' False False)]"
  define m where "m = fst (foldl (form_step rune_segmenter) (name_form, empty_ledger) ?evs)"
  define l where "l = snd (foldl (form_step rune_segmenter) (name_form, empty_ledger) ?evs)"
  have ok: "form_ok rune_segmenter m l"
    using formmachine.run_good [of rune_segmenter "(name_form, empty_ledger)" ?evs]
      name_form_ok by (simp add: m_def l_def split_beta del: form_step.simps foldl_Cons)
  have vals: "form_values m = [(''name'', ''abc'')] \<and> fm_applied m = [(''name'', ''ab'')] \<and>
      fm_rollback_values m = [(''name'', ''a'')] \<and> fm_token m = ''t''"
    unfolding m_def by code_simp
  have ap: "fo_apply (fm_options m) = Some name_applier"
    by (simp add: m_def form_run_options name_form_options name_options_def del: foldl_Cons)
  have "length (fst (start_apply ?ctx m l)) = 1" unfolding m_def l_def by code_simp
  then obtain ef m1 l1 where run: "start_apply ?ctx m l = ([ef], m1, l1)"
    by (cases "start_apply ?ctx m l") (auto simp: length_Suc_conv)
  from start_apply_effect [OF run ap] have work: "ef_work ef = apply_work name_applier [(''name'', ''abc'')]"
    using vals by simp
  obtain r w1 where r: "ef_work ef [''ab'', ''a''] = (r, w1)" by fastforce
  then have bad: "wr_failed r" "ar_token (wr_value r) = []" "w1 = [''ab'', ''a'']"
    unfolding work by (auto simp: apply_work_def name_applier_def lookup_value_def)
  have token: "fm_token m \<noteq> []" using vals by simp
  define m2 where "m2 = form_resolve rune_segmenter (ef_key ef) (ef_generation ef) r m1"
  have starts: "\<exists>ef m' l'. start_rollback ?ctx m l = ([ef], m', l')" for m :: "name_world form" and l
    by (auto simp: start_rollback_def start_work_def rollback_key_def Let_def split: prod.splits sum.splits)
  from starts obtain ef2 m3 l3 where run2: "start_rollback ?ctx m2 l1 = ([ef2], m3, l3)" by blast
  from starts obtain ef3 m5 l5 where run3: "start_rollback ?ctx m l = ([ef3], m5, l5)" by blast
  obtain r2 w2 where r2: "ef_work ef2 w1 = (r2, w2)" by fastforce
  obtain r3 w3 where r3: "ef_work ef3 w1 = (r3, w3)" by fastforce
  have "fo_apply (fm_options m2) = Some name_applier"
    using form_options_kept(1) [of ?ctx m l] run ap by (simp add: m2_def form_options_kept)
  from start_rollback_effect [OF run2 this] r2 have good: "\<not> wr_failed r2"
    by (auto simp: rollback_work_def name_applier_def)
  from failed_apply_mispairs_rollback [OF ok ap token run r bad(1,2) m2_def run2 r2 good refl run3 r3] vals
  show ?thesis
    by - (rule exI [of _ "form_resolve rune_segmenter (ef_key ef2) (ef_generation ef2) r2 m3"],
        rule exI [of _ "form_resolve rune_segmenter (ef_key ef3) (ef_generation ef3) r3 m5"], simp add: name_applier_def)
qed

end
