(* ===== verification/Picker.thy ===== *)
theory Picker
  imports ShellEvents Buffer Keymap
begin

text \<open>
  The paged picker (ui/interaction/picker.go, ui/interaction/keymap.go): a query that is
  loaded page by page through a provider, a selection among enabled items, and activation.

  The provider's loader and activator act on a world \<open>'w\<close> and are arguments; items carry a
  value of any type \<open>'a\<close>.  A cursor is its token, empty for the first page and for no next
  page.  The loader is there: \<open>NewPicker\<close> refuses a nil one.  The layout before the first resize, Go's zero value, is \<^const>\<open>None\<close>.
\<close>

record 'a item =
  it_key :: string
  it_label :: string
  it_description :: string
  it_detail :: "string list"
  it_disabled :: bool
  it_value :: 'a

record 'a page =
  pg_items :: "'a item list"
  pg_next :: string

type_synonym ('w, 'a) loader = "string \<Rightarrow> string \<Rightarrow> 'w \<Rightarrow> 'a page option \<times> 'w"
type_synonym ('w, 'a) activator = "'a item \<Rightarrow> 'w \<Rightarrow> bool \<times> 'w"

record ('w, 'a) picker_options =
  po_title :: string
  po_namespace :: string
  po_load :: "('w, 'a) loader"
  po_activate :: "('w, 'a) activator option"

datatype picker_screen = RootScreen | DetailScreen | HelpScreen

datatype 'a picker_result =
    LoadResult (lr_cursor: string) (lr_page: "'a page") (lr_append: bool) (lr_query: string) (lr_revision: "64 word")
  | ActivationResult
  | NoValue

type_synonym ('w, 'a) picker_effect = "('w, 'a picker_result) effect"
type_synonym 'a picker_event = "'a picker_result shell_event"

record ('w, 'a) picker =
  pk_options :: "('w, 'a) picker_options"
  pk_query :: buffer
  pk_layout :: "layout option"
  pk_resize_generation :: "64 word"
  pk_pages :: "(string \<times> 'a page) list"
  pk_index :: nat
  pk_selected :: nat
  pk_selected_key :: string
  pk_screen :: picker_screen
  pk_return_screen :: picker_screen
  pk_editing :: bool
  pk_loaded :: bool
  pk_pending_load :: bool
  pk_pending_activation :: bool
  pk_dirty :: bool
  pk_query_revision :: "64 word"
  pk_target_revision :: "64 word"
  pk_load_generation :: "64 word"
  pk_activation_generation :: "64 word"
  pk_error :: bool
  pk_activated :: bool
  pk_load_key :: string
  pk_activation_key :: string
  pk_debounce_code :: string

definition query_debounce :: int where "query_debounce = 80000000"

subsection \<open>Construction\<close>

datatype picker_error = EmptyTitle | InvalidNamespace | InvalidKey | InvalidTimer | InvalidContext

definition picker_namespace :: "('w, 'a) picker_options \<Rightarrow> string" where
  "picker_namespace opts = (if po_namespace opts = [] then ''interaction.picker'' else po_namespace opts)"

definition new_picker :: "('w, 'a) picker_options \<Rightarrow> picker_error + ('w, 'a) picker" where
  "new_picker opts =
     (let ns = picker_namespace opts in
      if po_title opts = [] then Inl EmptyTitle
      else if po_namespace opts \<noteq> [] \<and> \<not> semantic_id (po_namespace opts) then Inl InvalidNamespace
      else if \<not> semantic_id (ns @ ''.load'') \<or> \<not> semantic_id (ns @ ''.activate'') then Inl InvalidKey
      else if \<not> semantic_id (ns @ ''.query'') then Inl InvalidTimer
      else if \<not> list_all (\<lambda>x. semantic_id (ns @ x)) [''.results'', ''.editing'', ''.detail'', ''.help'']
      then Inl InvalidContext
      else Inr \<lparr>pk_options = opts, pk_query = empty_buffer, pk_layout = None, pk_resize_generation = 0,
         pk_pages = [], pk_index = 0, pk_selected = 0, pk_selected_key = [], pk_screen = RootScreen,
         pk_return_screen = RootScreen, pk_editing = False, pk_loaded = False, pk_pending_load = False,
         pk_pending_activation = False, pk_dirty = False, pk_query_revision = 0, pk_target_revision = 0,
         pk_load_generation = 0, pk_activation_generation = 0, pk_error = False, pk_activated = False,
         pk_load_key = ns @ ''.load'', pk_activation_key = ns @ ''.activate'', pk_debounce_code = ns @ ''.query''\<rparr>)"

subsection \<open>Selection\<close>

definition picker_items :: "('w, 'a) picker \<Rightarrow> 'a item list" where
  "picker_items p = (if pk_index p \<ge> length (pk_pages p) then [] else pg_items (snd (pk_pages p ! pk_index p)))"

definition selected_item :: "('w, 'a) picker \<Rightarrow> 'a item option" where
  "selected_item p =
     (let items = picker_items p in
      if pk_selected p \<ge> length items \<or> it_disabled (items ! pk_selected p) then None
      else Some (items ! pk_selected p))"

definition remember_selection :: "('w, 'a) picker \<Rightarrow> ('w, 'a) picker" where
  "remember_selection p =
     (case selected_item p of Some it \<Rightarrow> p\<lparr>pk_selected_key := it_key it\<rparr> | None \<Rightarrow> p)"

definition enabled_at :: "'a item list \<Rightarrow> nat \<Rightarrow> bool" where
  "enabled_at items i \<longleftrightarrow> \<not> it_disabled (items ! i)"

definition first_enabled :: "'a item list \<Rightarrow> nat" where
  "first_enabled items = (case find (enabled_at items) [0..<length items] of Some i \<Rightarrow> i | None \<Rightarrow> 0)"

definition restore_selection :: "('w, 'a) picker \<Rightarrow> ('w, 'a) picker" where
  "restore_selection p =
     (let items = picker_items p in
      case find (\<lambda>i. it_key (items ! i) = pk_selected_key p \<and> enabled_at items i) [0..<length items] of
        Some i \<Rightarrow> p\<lparr>pk_selected := i\<rparr>
      | None \<Rightarrow> remember_selection (p\<lparr>pk_selected := first_enabled items\<rparr>))"

definition select_first :: "nat list \<Rightarrow> ('w, 'a) picker \<Rightarrow> ('w, 'a) picker" where
  "select_first candidates p =
     (case find (enabled_at (picker_items p)) candidates of
        Some i \<Rightarrow> remember_selection (p\<lparr>pk_selected := i\<rparr>)
      | None \<Rightarrow> p)"

text \<open>The indices the loops of \<open>move(1)\<close>, \<open>move(-1)\<close> and \<open>selectBoundary\<close> visit, in order.\<close>

definition move_down :: "('w, 'a) picker \<Rightarrow> ('w, 'a) picker" where
  "move_down p = select_first [Suc (pk_selected p)..<length (picker_items p)] p"

definition move_up :: "('w, 'a) picker \<Rightarrow> ('w, 'a) picker" where
  "move_up p = select_first (if pk_selected p \<le> length (picker_items p) then rev [0..<pk_selected p] else []) p"

definition select_boundary :: "bool \<Rightarrow> ('w, 'a) picker \<Rightarrow> ('w, 'a) picker" where
  "select_boundary at_end p =
     select_first (if at_end then rev [0..<length (picker_items p)] else [0..<length (picker_items p)]) p"

subsection \<open>Loading\<close>

type_synonym ('w, 'a) picker_step = "('w, 'a) picker_effect list \<times> ('w, 'a) picker \<times> ledger"

definition load_work :: "('w, 'a) loader \<Rightarrow> string \<Rightarrow> string \<Rightarrow> bool \<Rightarrow> 64 word \<Rightarrow> ('w, 'a picker_result) work" where
  "load_work ld q cursor appended revision w =
     (case ld q cursor w of
        (None, w') \<Rightarrow>
          (\<lparr>wr_value = LoadResult [] \<lparr>pg_items = [], pg_next = []\<rparr> False q revision,
            wr_code = ''failed'', wr_failed = True\<rparr>, w')
      | (Some pg, w') \<Rightarrow>
          (\<lparr>wr_value = LoadResult cursor pg appended q revision, wr_code = ''applied'', wr_failed = False\<rparr>, w'))"

definition start_load ::
  "event_context \<Rightarrow> string \<Rightarrow> bool \<Rightarrow> ('w, 'a) picker \<Rightarrow> ledger \<Rightarrow> ('w, 'a) picker_step" where
  "start_load ctx cursor appended p l =
     (case start_work ctx (pk_load_key p)
             (Some (load_work (po_load (pk_options p)) (buf_text (pk_query p)) cursor appended (pk_query_revision p))) l of
        (Inl e, l') \<Rightarrow>
          ([], (if appended then p else p\<lparr>pk_dirty := False\<rparr>)\<lparr>pk_error := True\<rparr>, l')
      | (Inr ef, l') \<Rightarrow>
          (let p' = p\<lparr>pk_load_generation := pk_load_generation p + 1, pk_pending_load := True, pk_error := False,
                 pk_activated := False\<rparr>
           in ([ef], (if appended then p' else p'\<lparr>pk_dirty := False, pk_pages := [], pk_index := 0\<rparr>), l')))"

definition schedule_query_load ::
  "event_context \<Rightarrow> ('w, 'a) picker \<Rightarrow> ledger \<Rightarrow> ('w, 'a) picker_step" where
  "schedule_query_load ctx p l =
     (let p' = p\<lparr>pk_query_revision := pk_load_generation p, pk_dirty := True\<rparr> in
      case start_timer ctx query_debounce (pk_debounce_code p) l of
        (Inl e, l') \<Rightarrow> ([], p'\<lparr>pk_dirty := False, pk_error := True\<rparr>, l')
      | (Inr ef, l') \<Rightarrow> ([ef], p'\<lparr>pk_error := False\<rparr>, l'))"

definition valid_page :: "'a page \<Rightarrow> bool" where
  "valid_page pg \<longleftrightarrow> [] \<notin> set (map it_key (pg_items pg)) \<and> distinct (map it_key (pg_items pg))"

text \<open>\<open>applyPage\<close>: \<^const>\<open>None\<close> when it returns an error.\<close>

definition apply_page :: "string \<Rightarrow> 'a page \<Rightarrow> bool \<Rightarrow> ('w, 'a) picker \<Rightarrow> ('w, 'a) picker option" where
  "apply_page cursor pg appended p =
     (if \<not> valid_page pg then None
      else
        let pages = (if appended then pk_pages p @ [(cursor, pg)] else [(cursor, pg)]);
            p1 = p\<lparr>pk_pages := pages, pk_index := length pages - 1, pk_loaded := True, pk_error := False\<rparr>;
            p2 = restore_selection p1
        in Some (p2\<lparr>pk_target_revision := pk_target_revision p2 + 1\<rparr>))"

definition load_result :: "'a picker_result work_result \<Rightarrow> ('w, 'a) picker \<Rightarrow> ('w, 'a) picker" where
  "load_result r p0 =
     (let p = p0\<lparr>pk_pending_load := False\<rparr> in
      case wr_value r of
        LoadResult cursor pg appended q revision \<Rightarrow>
          (if q \<noteq> buf_text (pk_query p) \<or> revision \<noteq> pk_query_revision p then p
           else if wr_failed r then p\<lparr>pk_error := True\<rparr>
           else case apply_page cursor pg appended p of
               None \<Rightarrow> p\<lparr>pk_error := True\<rparr>
             | Some p' \<Rightarrow> p')
      | _ \<Rightarrow> p\<lparr>pk_error := True\<rparr>)"

definition picker_result :: "string \<Rightarrow> 64 word \<Rightarrow> 'a picker_result work_result \<Rightarrow> ('w, 'a) picker \<Rightarrow> ('w, 'a) picker" where
  "picker_result key gen r p =
     (if key = pk_load_key p then (if gen \<noteq> pk_load_generation p then p else load_result r p)
      else if key = pk_activation_key p then
        (if gen \<noteq> pk_activation_generation p then p
         else p\<lparr>pk_pending_activation := False, pk_error := wr_failed r, pk_activated := \<not> wr_failed r\<rparr>)
      else p)"

definition previous_page :: "('w, 'a) picker \<Rightarrow> ('w, 'a) picker" where
  "previous_page p =
     (if pk_index p = 0 \<or> pk_pages p = [] then p
      else restore_selection (p\<lparr>pk_index := pk_index p - 1\<rparr>))"

definition next_page :: "event_context \<Rightarrow> ('w, 'a) picker \<Rightarrow> ledger \<Rightarrow> ('w, 'a) picker_step" where
  "next_page ctx p l =
     (if pk_dirty p \<or> pk_pending_load p \<or> pk_pages p = [] then ([], p, l)
      else if pk_index p + 1 < length (pk_pages p)
      then ([], restore_selection (p\<lparr>pk_index := pk_index p + 1\<rparr>), l)
      else
        let next = pg_next (snd (pk_pages p ! pk_index p)) in
        if next = [] then ([], p, l) else start_load ctx next True p l)"

subsection \<open>Activation\<close>

definition activation_work :: "('w, 'a) activator \<Rightarrow> 'a item \<Rightarrow> ('w, 'a picker_result) work" where
  "activation_work act it w =
     (let (err, w') = act it w in
      if err then (\<lparr>wr_value = NoValue, wr_code = ''failed'', wr_failed = True\<rparr>, w')
      else (\<lparr>wr_value = ActivationResult, wr_code = ''applied'', wr_failed = False\<rparr>, w'))"

definition activate_item :: "event_context \<Rightarrow> ('w, 'a) picker \<Rightarrow> ledger \<Rightarrow> ('w, 'a) picker_step" where
  "activate_item ctx p l =
     (if pk_dirty p then ([], p, l)
      else case (selected_item p, po_activate (pk_options p)) of
          (Some it, Some act) \<Rightarrow>
            (if it_disabled it \<or> pk_pending_activation p then ([], p, l)
             else case start_work ctx (pk_activation_key p) (Some (activation_work act it)) l of
                 (Inl e, l') \<Rightarrow> ([], p\<lparr>pk_error := True\<rparr>, l')
               | (Inr ef, l') \<Rightarrow>
                   ([ef], p\<lparr>pk_activation_generation := pk_activation_generation p + 1,
                      pk_pending_activation := True, pk_error := False\<rparr>, l'))
        | _ \<Rightarrow> ([], p, l))"

definition compact_presentation :: "layout option \<Rightarrow> bool" where
  "compact_presentation lay = (case lay of None \<Rightarrow> True
     | Some la \<Rightarrow> columns (render_size la) < 80 \<or> rows (render_size la) \<le> 18)"

definition open_or_activate :: "event_context \<Rightarrow> ('w, 'a) picker \<Rightarrow> ledger \<Rightarrow> ('w, 'a) picker_step" where
  "open_or_activate ctx p l =
     (if pk_dirty p then ([], p, l)
      else if selected_item p = None then ([], p, l)
      else if compact_presentation (pk_layout p) then ([], p\<lparr>pk_screen := DetailScreen\<rparr>, l)
      else activate_item ctx p l)"

subsection \<open>Events\<close>

definition picker_key :: "segmenter \<Rightarrow> event_context \<Rightarrow> string \<Rightarrow> ('w, 'a) picker \<Rightarrow> ledger \<Rightarrow> ('w, 'a) picker_step" where
  "picker_key seg ctx k p l =
     (if k = ''ctrl-c'' then ([QuitEffect], p, l)
      else if pk_screen p = HelpScreen then
        ([], if k = ''escape'' \<or> k = ''backspace'' \<or> k = ''enter'' then p\<lparr>pk_screen := pk_return_screen p\<rparr> else p, l)
      else if pk_editing p then
        (if k = ''escape'' \<or> k = ''enter'' \<or> k = ''tab'' then ([], p\<lparr>pk_editing := False\<rparr>, l)
         else if k = ''backspace'' then
           (let (hit, b) = buf_backspace seg (pk_query p) in
            if hit then schedule_query_load ctx (p\<lparr>pk_query := b\<rparr>) l else ([], p\<lparr>pk_query := b\<rparr>, l))
         else if k = ''delete'' then
           (let (hit, b) = buf_delete seg (pk_query p) in
            if hit then schedule_query_load ctx (p\<lparr>pk_query := b\<rparr>) l else ([], p\<lparr>pk_query := b\<rparr>, l))
         else if k = ''left'' then ([], p\<lparr>pk_query := move_left (pk_query p)\<rparr>, l)
         else if k = ''right'' then ([], p\<lparr>pk_query := move_right (pk_query p)\<rparr>, l)
         else if k = ''home'' then ([], p\<lparr>pk_query := move_home (pk_query p)\<rparr>, l)
         else if k = ''end'' then ([], p\<lparr>pk_query := move_end (pk_query p)\<rparr>, l)
         else ([], p, l))
      else if pk_screen p = DetailScreen then
        (if k = ''escape'' \<or> k = ''backspace'' then ([], p\<lparr>pk_screen := RootScreen\<rparr>, l)
         else if k = ''enter'' then activate_item ctx p l
         else ([], p, l))
      else if k = ''escape'' \<or> k = ''backspace'' then ([QuitEffect], p, l)
      else if k = ''tab'' then ([], p\<lparr>pk_editing := True\<rparr>, l)
      else if k = ''up'' then ([], move_up p, l)
      else if k = ''down'' then ([], move_down p, l)
      else if k = ''home'' then ([], select_boundary False p, l)
      else if k = ''end'' then ([], select_boundary True p, l)
      else if k = ''page-up'' then ([], previous_page p, l)
      else if k = ''page-down'' then next_page ctx p l
      else if k = ''enter'' then open_or_activate ctx p l
      else ([], p, l))"

definition picker_text :: "segmenter \<Rightarrow> event_context \<Rightarrow> string \<Rightarrow> ('w, 'a) picker \<Rightarrow> ledger \<Rightarrow> ('w, 'a) picker_step" where
  "picker_text seg ctx t p l =
     (if pk_screen p = HelpScreen then
        (if t = ''?'' then ([], p\<lparr>pk_screen := pk_return_screen p\<rparr>, l)
         else if t = ''q'' then ([QuitEffect], p, l) else ([], p, l))
      else if pk_editing p then schedule_query_load ctx (p\<lparr>pk_query := buf_insert seg t (pk_query p)\<rparr>) l
      else if pk_screen p = DetailScreen then
        (if t = ''a'' \<or> t = ''o'' then activate_item ctx p l
         else if t = ''?'' then ([], p\<lparr>pk_return_screen := DetailScreen, pk_screen := HelpScreen\<rparr>, l)
         else ([], p, l))
      else if t = ''/'' then ([], p\<lparr>pk_editing := True\<rparr>, l)
      else if t = ''?'' then ([], p\<lparr>pk_return_screen := pk_screen p, pk_screen := HelpScreen\<rparr>, l)
      else if t = ''q'' then ([QuitEffect], p, l)
      else if t = ''j'' then ([], move_down p, l)
      else if t = ''k'' then ([], move_up p, l)
      else if t = ''n'' then next_page ctx p l
      else if t = ''p'' then ([], previous_page p, l)
      else if t = ''o'' then open_or_activate ctx p l
      else ([], p, l))"

text \<open>The keymap catalogue, context and actions.\<close>

definition picker_catalog :: "string \<Rightarrow> action list" where
  "picker_catalog ns =
     (let a = (\<lambda>i label ctx quick keys. \<lparr>act_id = i, act_label = label, act_context = ns @ ''.'' @ ctx,
            act_editing = (ctx = ''editing''), act_quick = quick, act_defaults = map (\<lambda>k. [k]) keys\<rparr>)
      in [a ''picker.quit'' ''Quit'' ''results'' True [''q'', ''escape'', ''backspace''],
          a ''picker.search'' ''Search'' ''results'' True [''/'', ''tab''],
          a ''picker.help'' ''Help'' ''results'' True [''?''],
          a ''picker.next'' ''Next item'' ''results'' False [''j'', ''down''],
          a ''picker.previous'' ''Previous item'' ''results'' False [''k'', ''up''],
          a ''picker.first'' ''First item'' ''results'' False [''home''],
          a ''picker.last'' ''Last item'' ''results'' False [''end''],
          a ''picker.next-page'' ''Next page'' ''results'' True [''n'', ''page-down''],
          a ''picker.previous-page'' ''Previous page'' ''results'' True [''p'', ''page-up''],
          a ''picker.open'' ''Open'' ''results'' True [''o'', ''enter''],
          a ''picker.edit-finish'' ''Finish search'' ''editing'' True [''escape'', ''enter'', ''tab''],
          a ''picker.edit-backspace'' ''Delete before cursor'' ''editing'' False [''backspace''],
          a ''picker.edit-delete'' ''Delete at cursor'' ''editing'' False [''delete''],
          a ''picker.edit-left'' ''Move cursor left'' ''editing'' False [''left''],
          a ''picker.edit-right'' ''Move cursor right'' ''editing'' False [''right''],
          a ''picker.edit-home'' ''Move to start'' ''editing'' False [''home''],
          a ''picker.edit-end'' ''Move to end'' ''editing'' False [''end''],
          a ''picker.detail-back'' ''Back to results'' ''detail'' True [''escape'', ''backspace''],
          a ''picker.activate'' ''Activate'' ''detail'' True [''a'', ''o'', ''enter''],
          a ''picker.help'' ''Help'' ''detail'' True [''?''],
          a ''picker.help-back'' ''Close help'' ''help'' True [''?'', ''escape'', ''backspace'', ''enter''],
          a ''picker.quit'' ''Quit'' ''help'' True [''q'']])"

definition picker_context_name :: "('w, 'a) picker \<Rightarrow> string" where
  "picker_context_name p =
     (if pk_screen p = HelpScreen then ''help'' else if pk_editing p then ''editing''
      else if pk_screen p = DetailScreen then ''detail'' else ''results'')"

definition picker_context :: "('w, 'a) picker \<Rightarrow> context_state" where
  "picker_context p =
     \<lparr>ctx_id = picker_namespace (pk_options p) @ ''.'' @ picker_context_name p,
      ctx_editing = (picker_context_name p = ''editing''),
      ctx_target = pk_selected_key p @ '':'' @ show_nat (pk_index p) @ '':'' @ show_nat (unat (pk_target_revision p))\<rparr>"

definition picker_action_state :: "('w, 'a) picker \<Rightarrow> string \<Rightarrow> action_state" where
  "picker_action_state p i =
     (let known = list_ex (\<lambda>a. act_id a = i \<and> act_context a = ctx_id (picker_context p))
            (picker_catalog (picker_namespace (pk_options p)));
          ready = (selected_item p \<noteq> None \<and> \<not> pk_pending_activation p \<and> \<not> pk_dirty p)
      in if \<not> known then \<lparr>st_enabled = False, st_reason = ''unavailable in current view''\<rparr>
         else if i = ''picker.activate'' then
           \<lparr>st_enabled = ready \<and> po_activate (pk_options p) \<noteq> None, st_reason = ''activation unavailable''\<rparr>
         else if i = ''picker.open'' then
           \<lparr>st_enabled = ready \<and> (po_activate (pk_options p) \<noteq> None \<or> compact_presentation (pk_layout p)),
            st_reason = ''activation unavailable''\<rparr>
         else if i = ''picker.next-page'' then
           \<lparr>st_enabled = \<not> pk_pending_load p \<and> pk_index p < length (pk_pages p) \<and>
              pg_next (snd (pk_pages p ! pk_index p)) \<noteq> [], st_reason = ''no next page''\<rparr>
         else if i = ''picker.previous-page'' then \<lparr>st_enabled = pk_index p > 0, st_reason = ''no previous page''\<rparr>
         else \<lparr>st_enabled = True, st_reason = []\<rparr>)"

definition picker_action_keys :: "(string \<times> string) list" where
  "picker_action_keys = [(''picker.help-back'', ''escape''), (''picker.next'', ''down''), (''picker.previous'', ''up''),
     (''picker.first'', ''home''), (''picker.last'', ''end''), (''picker.next-page'', ''page-down''),
     (''picker.previous-page'', ''page-up''), (''picker.open'', ''enter''), (''picker.detail-back'', ''escape''),
     (''picker.activate'', ''enter''), (''picker.edit-finish'', ''enter''), (''picker.edit-backspace'', ''backspace''),
     (''picker.edit-delete'', ''delete''), (''picker.edit-left'', ''left''), (''picker.edit-right'', ''right''),
     (''picker.edit-home'', ''home''), (''picker.edit-end'', ''end'')]"

definition picker_action :: "segmenter \<Rightarrow> event_context \<Rightarrow> string \<Rightarrow> ('w, 'a) picker \<Rightarrow> ledger \<Rightarrow> ('w, 'a) picker_step" where
  "picker_action seg ctx i p l =
     (if \<not> st_enabled (picker_action_state p i) then ([], p, l)
      else if i = ''picker.quit'' then picker_text seg ctx ''q'' p l
      else if i = ''picker.search'' then picker_text seg ctx ''/'' p l
      else if i = ''picker.help'' then picker_text seg ctx ''?'' p l
      else case map_of picker_action_keys i of
          Some k \<Rightarrow> picker_key seg ctx k p l
        | None \<Rightarrow> ([], p, l))"

fun picker_update :: "segmenter \<Rightarrow> event_context \<Rightarrow> 'a picker_event \<Rightarrow> ('w, 'a) picker \<Rightarrow> ledger \<Rightarrow> ('w, 'a) picker_step" where
  "picker_update seg ctx (ResizeEvent lay gen) p l =
     (if gen \<le> pk_resize_generation p then ([], p, l)
      else
        let p' = p\<lparr>pk_layout := Some lay, pk_resize_generation := gen\<rparr> in
        if pk_loaded p' \<or> pk_pending_load p' then ([], p', l) else start_load ctx [] False p' l)"
| "picker_update seg ctx (TextEvent t paste alt) p l = picker_text seg ctx t p l"
| "picker_update seg ctx (KeyEvent k alt) p l = picker_key seg ctx k p l"
| "picker_update seg ctx (ActionEvent i) p l = picker_action seg ctx i p l"
| "picker_update seg ctx (ResultEvent key gen corr r) p l = ([], picker_result key gen r p, l)"
| "picker_update seg ctx (TimerEvent code gen) p l =
     (if code = pk_debounce_code p then start_load ctx [] False p l else ([], p, l))"
| "picker_update seg ctx (FocusEvent f) p l = ([], p, l)"

definition picker_refresh :: "event_context \<Rightarrow> ('w, 'a) picker \<Rightarrow> ledger \<Rightarrow> ('w, 'a) picker_step" where
  "picker_refresh ctx p l = start_load ctx [] False p l"

end
