(* ===== verification/PickerLaws.thy ===== *)
theory PickerLaws
  imports Picker
begin

text \<open>
  The picker together with its requests in flight.  A request runs at any later moment, in
  any world, or never; results arrive in any order.  The invariant \<open>sync_ok\<close> ties what is
  shown to the provider's answers for the query as it stands.
\<close>

datatype ('w, 'a) picker_op = Input "'a picker_event" | Deliver nat 'w

type_synonym ('w, 'a) picker_system = "('w, 'a) picker \<times> ledger \<times> ('w, 'a) picker_effect list"

abbreviation full_context :: event_context where
  "full_context \<equiv> EventContext True True"

fun picker_system_step :: "segmenter \<Rightarrow> ('w, 'a) picker_system \<Rightarrow> ('w, 'a) picker_op \<Rightarrow> ('w, 'a) picker_system" where
  "picker_system_step seg (p, l, pool) (Input ev) =
     (if is_result ev then (p, l, pool)
      else let (efs, p', l') = picker_update seg full_context ev p l in (p', l', pool @ filter is_work efs))"
| "picker_system_step seg (p, l, pool) (Deliver i w) =
     (if i < length pool then
        let e = pool ! i;
            (efs, p', l') = picker_update seg full_context
              (ResultEvent (ef_key e) (ef_generation e) (ef_correlation e) (fst (ef_work e w))) p l
        in (p', l', remove_at i pool @ filter is_work efs)
      else (p, l, pool))"

subsection \<open>Pages and requests\<close>

text \<open>The pages are answers of the loader for the query, each at the cursor the one before named.\<close>

fun chained :: "string \<Rightarrow> (string \<times> 'a page) list \<Rightarrow> bool" where
  "chained c [] = True"
| "chained c ((c', pg) # rest) = (c' = c \<and> (rest = [] \<or> pg_next pg \<noteq> []) \<and> chained (pg_next pg) rest)"

definition answered :: "('w, 'a) loader \<Rightarrow> string \<Rightarrow> string \<times> 'a page \<Rightarrow> bool" where
  "answered ld q e \<longleftrightarrow> (\<exists>w. fst (ld q (fst e) w) = Some (snd e)) \<and> valid_page (snd e)"

definition pages_for :: "('w, 'a) loader \<Rightarrow> string \<Rightarrow> (string \<times> 'a page) list \<Rightarrow> bool" where
  "pages_for ld q pages \<longleftrightarrow> chained [] pages \<and> (\<forall>e \<in> set pages. answered ld q e)"

lemma chained_snoc:
  "pages \<noteq> [] \<Longrightarrow> chained c (pages @ [(c', pg)]) \<longleftrightarrow>
     chained c pages \<and> c' = pg_next (snd (last pages)) \<and> c' \<noteq> []"
proof (induction c pages rule: chained.induct)
  case (2 c c1 pg1 rest)
  show ?case using 2 by (cases "rest = []") auto
qed simp

definition is_load :: "('w, 'a) picker \<Rightarrow> ('w, 'a) picker_effect \<Rightarrow> bool" where
  "is_load p e \<longleftrightarrow> ef_key e = pk_load_key p"

text \<open>
  A load in flight.  Its revision is older than its own generation; the newest one is what
  the picker waits for, and if no edit happened since, it continues the pages shown.
\<close>

definition load_ok :: "('w, 'a) picker \<Rightarrow> ('w, 'a) picker_effect \<Rightarrow> bool" where
  "load_ok p e \<longleftrightarrow> (\<exists>q cur app rev.
     ef_work e = load_work (po_load (pk_options p)) q cur app rev \<and>
     unat rev < unat (ef_generation e) \<and> unat (ef_generation e) \<le> unat (pk_load_generation p) \<and>
     (ef_generation e = pk_load_generation p \<and> rev = pk_query_revision p \<longrightarrow>
        q = buf_text (pk_query p) \<and>
        (if app then pk_pages p \<noteq> [] \<and> cur = pg_next (snd (last (pk_pages p))) \<and> cur \<noteq> []
         else cur = [] \<and> pk_pages p = [])))"

definition keys_ok :: "('w, 'a) picker \<Rightarrow> bool" where
  "keys_ok p \<longleftrightarrow> pk_load_key p \<noteq> [] \<and> pk_activation_key p \<noteq> [] \<and> pk_load_key p \<noteq> pk_activation_key p \<and>
     pk_debounce_code p \<noteq> []"

definition sync_ok :: "('w, 'a) picker \<Rightarrow> ledger \<Rightarrow> ('w, 'a) picker_effect list \<Rightarrow> bool" where
  "sync_ok p l pool \<longleftrightarrow> keys_ok p \<and>
     pk_load_generation p = ld_requests l (pk_load_key p) \<and>
     (\<forall>e \<in> set pool. is_load p e \<longrightarrow> load_ok p e) \<and>
     distinct (map ef_generation (filter (is_load p) pool)) \<and>
     (pk_pending_load p \<longleftrightarrow> (\<exists>e \<in> set pool. is_load p e \<and> ef_generation e = pk_load_generation p)) \<and>
     (pk_dirty p \<longrightarrow> pk_query_revision p = pk_load_generation p) \<and>
     unat (pk_query_revision p) \<le> unat (pk_load_generation p) \<and>
     (\<not> pk_dirty p \<longrightarrow> pages_for (po_load (pk_options p)) (buf_text (pk_query p)) (pk_pages p)) \<and>
     (if pk_pages p = [] then pk_index p = 0 else pk_index p < length (pk_pages p))"

text \<open>The invariant in two halves: the requests in flight, and what is shown.\<close>

definition flight_ok :: "('w, 'a) picker \<Rightarrow> ('w, 'a) picker_effect list \<Rightarrow> bool" where
  "flight_ok p pool \<longleftrightarrow> (\<forall>e \<in> set pool. is_load p e \<longrightarrow> load_ok p e) \<and>
     distinct (map ef_generation (filter (is_load p) pool)) \<and>
     (pk_pending_load p \<longleftrightarrow> (\<exists>e \<in> set pool. is_load p e \<and> ef_generation e = pk_load_generation p))"

definition view_ok :: "('w, 'a) picker \<Rightarrow> ledger \<Rightarrow> bool" where
  "view_ok p l \<longleftrightarrow> keys_ok p \<and> pk_load_generation p = ld_requests l (pk_load_key p) \<and>
     (pk_dirty p \<longrightarrow> pk_query_revision p = pk_load_generation p) \<and>
     unat (pk_query_revision p) \<le> unat (pk_load_generation p) \<and>
     (\<not> pk_dirty p \<longrightarrow> pages_for (po_load (pk_options p)) (buf_text (pk_query p)) (pk_pages p)) \<and>
     (if pk_pages p = [] then pk_index p = 0 else pk_index p < length (pk_pages p))"

lemma sync_ok_split: "sync_ok p l pool \<longleftrightarrow> view_ok p l \<and> flight_ok p pool"
  unfolding sync_ok_def view_ok_def flight_ok_def by argo

text \<open>Everything the invariant looks at, the index apart.\<close>

definition core :: "('w, 'a) picker \<Rightarrow> _" where
  "core p = (pk_options p, buf_text (pk_query p), pk_pages p, pk_pending_load p, pk_dirty p, pk_query_revision p,
     pk_load_generation p, pk_load_key p, pk_activation_key p, pk_debounce_code p)"

lemma sync_ok_core:
  assumes "sync_ok p l pool" and "core p' = core p"
    and "if pk_pages p = [] then pk_index p' = 0 else pk_index p' < length (pk_pages p)"
    and "ld_requests l' (pk_load_key p) = ld_requests l (pk_load_key p)"
  shows "sync_ok p' l' pool"
proof -
  have eq: "is_load p' = is_load p" "load_ok p' = load_ok p"
    using assms(2) by (auto simp: fun_eq_iff is_load_def load_ok_def core_def)
  show ?thesis using assms by (auto simp: sync_ok_def eq keys_ok_def core_def)
qed

lemma core_simps:
  "core (p\<lparr>pk_selected := i\<rparr>) = core p" "core (p\<lparr>pk_selected_key := k\<rparr>) = core p" "core (p\<lparr>pk_screen := s\<rparr>) = core p"
  "core (p\<lparr>pk_return_screen := s\<rparr>) = core p" "core (p\<lparr>pk_editing := b\<rparr>) = core p" "core (p\<lparr>pk_error := b\<rparr>) = core p"
  "core (p\<lparr>pk_index := i\<rparr>) = core p" "core (p\<lparr>pk_layout := lay\<rparr>) = core p" "core (p\<lparr>pk_resize_generation := g\<rparr>) = core p"
  "core (p\<lparr>pk_pending_activation := b\<rparr>) = core p" "core (p\<lparr>pk_activation_generation := g\<rparr>) = core p"
  "core (p\<lparr>pk_activated := b\<rparr>) = core p" "core (p\<lparr>pk_loaded := b\<rparr>) = core p" "core (p\<lparr>pk_target_revision := g\<rparr>) = core p"
  by (simp_all add: core_def)

lemma remember_core [simp]:
  "core (remember_selection p) = core p" "pk_index (remember_selection p) = pk_index p"
  by (auto simp: remember_selection_def core_simps split: option.splits)

lemma restore_core [simp]:
  "core (restore_selection p) = core p" "pk_index (restore_selection p) = pk_index p"
  by (auto simp: restore_selection_def core_simps Let_def split: option.splits)

lemma select_core [simp]:
  "core (select_first cs p) = core p" "pk_index (select_first cs p) = pk_index p"
  by (auto simp: select_first_def core_simps split: option.splits)

lemma movement_core [simp]:
  "core (move_down p) = core p" "pk_index (move_down p) = pk_index p"
  "core (move_up p) = core p" "pk_index (move_up p) = pk_index p"
  "core (select_boundary b p) = core p" "pk_index (select_boundary b p) = pk_index p"
  by (simp_all add: move_down_def move_up_def select_boundary_def)

lemma buffer_moves_text [simp]:
  "buf_text (move_left b) = buf_text b" "buf_text (move_right b) = buf_text b"
  "buf_text (move_home b) = buf_text b" "buf_text (move_end b) = buf_text b"
  by (simp_all add: move_left_def move_right_def move_home_def move_end_def set_cursor_def buf_text_def)

subsection \<open>Preservation\<close>

lemma start_load_full:
  assumes "keys_ok p"
  shows "\<exists>c pr l'. start_load full_context cur app p l =
      ([WorkEffect (pk_load_key p) (ld_requests l (pk_load_key p) + 1) c pr
          (load_work (po_load (pk_options p)) (buf_text (pk_query p)) cur app (pk_query_revision p))],
       (let p' = p\<lparr>pk_load_generation := pk_load_generation p + 1, pk_pending_load := True, pk_error := False,
                 pk_activated := False\<rparr>
        in if app then p' else p'\<lparr>pk_dirty := False, pk_pages := [], pk_index := 0\<rparr>), l') \<and>
     ld_requests l' (pk_load_key p) = ld_requests l (pk_load_key p) + 1"
  using assms by (auto simp: start_load_def start_work_def keys_ok_def Let_def)

lemma unat_Suc64: "unat g < 2 ^ 64 - 1 \<Longrightarrow> unat (g + 1 :: 64 word) = unat g + 1"
  by (simp add: unat_word_ariths)

lemma start_load_ok:
  assumes ok: "sync_ok p l pool" and budget: "unat (pk_load_generation p) < 2 ^ 64 - 1"
    and run: "start_load full_context cur app p l = (efs, p', l')"
    and app: "app \<Longrightarrow> \<not> pk_dirty p \<and> pk_pages p \<noteq> [] \<and> cur = pg_next (snd (last (pk_pages p))) \<and> cur \<noteq> []"
    and root: "\<not> app \<Longrightarrow> cur = []"
  shows "sync_ok p' l' (pool @ filter is_work efs) \<and> unat (pk_load_generation p') = unat (pk_load_generation p) + 1"
proof -
  let ?g = "pk_load_generation p + 1" and ?lk = "pk_load_key p"
  have keys: "keys_ok p" and gen: "pk_load_generation p = ld_requests l ?lk"
    using ok by (auto simp: sync_ok_def)
  obtain c pr where efs: "efs = [WorkEffect ?lk ?g c pr
        (load_work (po_load (pk_options p)) (buf_text (pk_query p)) cur app (pk_query_revision p))]"
    and p': "p' = (let q = p\<lparr>pk_load_generation := ?g, pk_pending_load := True, pk_error := False, pk_activated := False\<rparr>
        in if app then q else q\<lparr>pk_dirty := False, pk_pages := [], pk_index := 0\<rparr>)"
    and l': "ld_requests l' ?lk = ?g"
    using start_load_full [OF keys, of cur app l] run gen by auto
  have up: "unat ?g = unat (pk_load_generation p) + 1" using unat_Suc64 [OF budget] .
  have fields: "pk_load_generation p' = ?g" "pk_load_key p' = ?lk" "pk_pending_load p'" "pk_options p' = pk_options p"
      "pk_query p' = pk_query p" "pk_query_revision p' = pk_query_revision p" "keys_ok p'"
      "pk_pages p' = (if app then pk_pages p else [])" "pk_dirty p' = (if app then pk_dirty p else False)"
      "pk_index p' = (if app then pk_index p else 0)"
    using keys by (auto simp: p' Let_def keys_ok_def)
  have il: "is_load p' = is_load p" by (simp add: fun_eq_iff is_load_def fields)
  have old: "load_ok p' e \<and> ef_generation e \<noteq> ?g" if e: "load_ok p e" for e
  proof -
    obtain q cr ap rv where e: "ef_work e = load_work (po_load (pk_options p)) q cr ap rv"
      "unat rv < unat (ef_generation e)" "unat (ef_generation e) \<le> unat (pk_load_generation p)"
      using e unfolding load_ok_def by blast
    have ne: "ef_generation e \<noteq> ?g" using e(3) up by auto
    have "load_ok p' e" unfolding load_ok_def
      by (rule exI [of _ q], rule exI [of _ cr], rule exI [of _ ap], rule exI [of _ rv]) (use e ne up in \<open>simp add: fields\<close>)
    with ne show ?thesis by simp
  qed
  have older: "unat (pk_query_revision p) \<le> unat (pk_load_generation p)" using ok by (auto simp: sync_ok_def)
  have new: "load_ok p' (hd efs)" unfolding load_ok_def efs
    by (rule exI [of _ "buf_text (pk_query p)"], rule exI [of _ cur], rule exI [of _ app],
        rule exI [of _ "pk_query_revision p"], cases app) (use app root older up in \<open>auto simp: fields\<close>)
  have loads: "\<forall>e \<in> set pool. is_load p e \<longrightarrow> load_ok p e" using ok by (auto simp: sync_ok_def)
  let ?pool = "pool @ filter is_work efs"
  have one: "filter is_work efs = efs" "hd efs \<in> set efs" "ef_generation (hd efs) = ?g" "is_load p (hd efs)"
    by (simp_all add: efs is_load_def)
  have all: "\<forall>e \<in> set ?pool. is_load p' e \<longrightarrow> load_ok p' e"
    using loads old new by (auto simp: il efs)
  have "?g \<notin> ef_generation ` set (filter (is_load p) pool)" using loads old by fastforce
  moreover have "distinct (map ef_generation (filter (is_load p) pool))" using ok by (simp add: sync_ok_def)
  ultimately have dist: "distinct (map ef_generation (filter (is_load p') ?pool))"
    by (simp add: il efs)
  have pend: "\<exists>e \<in> set ?pool. is_load p' e \<and> ef_generation e = pk_load_generation p'"
    using one by (auto simp: il fields)
  have "\<not> pk_dirty p'" using app by (cases app) (simp_all add: fields)
  moreover have "pages_for (po_load (pk_options p')) (buf_text (pk_query p')) (pk_pages p')"
    using ok app by (cases app) (simp_all add: sync_ok_def fields pages_for_def)
  moreover have "if pk_pages p' = [] then pk_index p' = 0 else pk_index p' < length (pk_pages p')"
    using ok by (cases app) (simp_all add: sync_ok_def fields)
  ultimately show ?thesis
    using all dist pend older up l' fields unfolding sync_ok_def by simp
qed

lemma schedule_ok:
  assumes ok: "sync_ok p l pool" and run: "schedule_query_load full_context (p\<lparr>pk_query := b\<rparr>) l = (efs, p', l')"
  shows "sync_ok p' l' (pool @ filter is_work efs) \<and> pk_load_generation p' = pk_load_generation p"
proof -
  have "pk_debounce_code p \<noteq> []" using ok by (auto simp: sync_ok_def keys_ok_def)
  then have p': "p' = p\<lparr>pk_query := b, pk_query_revision := pk_load_generation p, pk_dirty := True, pk_error := False\<rparr>"
    and efs: "filter is_work efs = []" and l': "ld_requests l' = ld_requests l"
    using run by (auto simp: schedule_query_load_def start_timer_def query_debounce_def Let_def)
  have il: "is_load p' = is_load p" by (simp add: fun_eq_iff is_load_def p')
  have loads: "load_ok p' e" if e: "load_ok p e" for e
  proof -
    obtain q cr ap rv where e: "ef_work e = load_work (po_load (pk_options p)) q cr ap rv"
      "unat rv < unat (ef_generation e)" "unat (ef_generation e) \<le> unat (pk_load_generation p)"
      using e unfolding load_ok_def by blast
    have "rv \<noteq> pk_load_generation p" using e by auto
    then show ?thesis unfolding load_ok_def
      by - (rule exI [of _ q], rule exI [of _ cr], rule exI [of _ ap], rule exI [of _ rv], use e in \<open>simp add: p'\<close>)
  qed
  have k: "keys_ok p' = keys_ok p" by (simp add: keys_ok_def p')
  show ?thesis using ok loads unfolding sync_ok_def il k efs l' by (simp add: p')
qed

lemma load_work_cases:
  "fst (load_work ld q cur app rv w) =
     (case fst (ld q cur w) of
        None \<Rightarrow> \<lparr>wr_value = LoadResult [] \<lparr>pg_items = [], pg_next = []\<rparr> False q rv, wr_code = ''failed'', wr_failed = True\<rparr>
      | Some pg \<Rightarrow> \<lparr>wr_value = LoadResult cur pg app q rv, wr_code = ''applied'', wr_failed = False\<rparr>)"
  by (cases "ld q cur w") (simp add: load_work_def split: option.splits)

lemma apply_page_Some:
  assumes "apply_page cur pg app p = Some p'"
  shows "valid_page pg \<and> pk_pages p' = (if app then pk_pages p @ [(cur, pg)] else [(cur, pg)]) \<and>
    pk_index p' = length (pk_pages p') - 1 \<and> pk_options p' = pk_options p \<and> pk_query p' = pk_query p \<and>
    pk_pending_load p' = pk_pending_load p \<and> pk_dirty p' = pk_dirty p \<and> pk_query_revision p' = pk_query_revision p \<and>
    pk_load_generation p' = pk_load_generation p \<and> pk_load_key p' = pk_load_key p \<and>
    pk_activation_key p' = pk_activation_key p \<and> pk_debounce_code p' = pk_debounce_code p"
proof -
  let ?pages = "if app then pk_pages p @ [(cur, pg)] else [(cur, pg)]"
  let ?p1 = "p\<lparr>pk_pages := ?pages, pk_index := length ?pages - 1, pk_loaded := True, pk_error := False\<rparr>"
  have "valid_page pg" and p': "p' = (restore_selection ?p1)\<lparr>pk_target_revision := pk_target_revision (restore_selection ?p1) + 1\<rparr>"
    using assms by (auto simp: apply_page_def Let_def split: if_splits)
  have q: "pk_query (restore_selection x) = pk_query x" for x :: "('a, 'b) picker"
    by (auto simp: restore_selection_def remember_selection_def Let_def split: option.splits)
  from restore_core [of ?p1] show ?thesis using \<open>valid_page pg\<close> by (simp add: p' core_def q)
qed

lemma pages_for_append:
  assumes "pages_for ld q pages" and "pages \<noteq> []" and "cur = pg_next (snd (last pages))" "cur \<noteq> []"
    and "answered ld q (cur, pg)"
  shows "pages_for ld q (pages @ [(cur, pg)])"
  using assms by (auto simp: pages_for_def chained_snoc)

lemma load_result_core:
  assumes "load_work ld q cur app rv w = (r, w')"
  shows "load_result r p = (let p1 = p\<lparr>pk_pending_load := False\<rparr> in
    if q \<noteq> buf_text (pk_query p) \<or> rv \<noteq> pk_query_revision p then p1
    else case fst (ld q cur w) of
        None \<Rightarrow> p1\<lparr>pk_error := True\<rparr>
      | Some pg \<Rightarrow> (case apply_page cur pg app p1 of None \<Rightarrow> p1\<lparr>pk_error := True\<rparr> | Some p' \<Rightarrow> p'))"
  using assms load_work_cases [of ld q cur app rv w]
  by (auto simp: load_result_def Let_def split: option.splits)

text \<open>The newest load arrives: what it leaves of the invariant's subject.\<close>

lemma load_result_ok:
  assumes ok: "sync_ok p l pool" and e: "e \<in> set pool" "is_load p e" "ef_generation e = pk_load_generation p"
    and p': "p' = load_result (fst (ef_work e w)) p"
  shows "\<not> pk_pending_load p' \<and> pk_options p' = pk_options p \<and> pk_query p' = pk_query p \<and>
    pk_load_generation p' = pk_load_generation p \<and> pk_query_revision p' = pk_query_revision p \<and>
    pk_dirty p' = pk_dirty p \<and> pk_load_key p' = pk_load_key p \<and> keys_ok p' \<and>
    (\<not> pk_dirty p \<longrightarrow> pages_for (po_load (pk_options p)) (buf_text (pk_query p)) (pk_pages p')) \<and>
    (if pk_pages p' = [] then pk_index p' = 0 else pk_index p' < length (pk_pages p'))"
proof -
  obtain q cur app rv where ew: "ef_work e = load_work (po_load (pk_options p)) q cur app rv"
    and old: "unat rv < unat (ef_generation e)"
    and cond: "ef_generation e = pk_load_generation p \<and> rv = pk_query_revision p \<longrightarrow> q = buf_text (pk_query p) \<and>
        (if app then pk_pages p \<noteq> [] \<and> cur = pg_next (snd (last (pk_pages p))) \<and> cur \<noteq> []
         else cur = [] \<and> pk_pages p = [])"
    using ok e unfolding sync_ok_def load_ok_def by blast
  let ?ld = "po_load (pk_options p)" and ?p1 = "p\<lparr>pk_pending_load := False\<rparr>"
  have base: "keys_ok p" "\<not> pk_dirty p \<longrightarrow> pages_for ?ld (buf_text (pk_query p)) (pk_pages p)"
    "if pk_pages p = [] then pk_index p = 0 else pk_index p < length (pk_pages p)"
    using ok by (simp_all add: sync_ok_def)
  have res: "p' = (if q \<noteq> buf_text (pk_query p) \<or> rv \<noteq> pk_query_revision p then ?p1
      else case fst (?ld q cur w) of
          None \<Rightarrow> ?p1\<lparr>pk_error := True\<rparr>
        | Some pg \<Rightarrow> (case apply_page cur pg app ?p1 of None \<Rightarrow> ?p1\<lparr>pk_error := True\<rparr> | Some p' \<Rightarrow> p'))"
    using load_result_core [of ?ld q cur app rv w "fst (ef_work e w)" "snd (ef_work e w)" p] p' ew by (simp add: Let_def)
  show ?thesis
  proof (cases "q = buf_text (pk_query p) \<and> rv = pk_query_revision p \<and>
      (\<exists>pg p2. fst (?ld q cur w) = Some pg \<and> apply_page cur pg app ?p1 = Some p2)")
    case False
    then have "p' = ?p1 \<or> p' = ?p1\<lparr>pk_error := True\<rparr>"
      unfolding res by (auto split: option.splits)
    then show ?thesis using base by (auto simp: keys_ok_def)
  next
    case True
    then obtain pg where pg: "fst (?ld q cur w) = Some pg" "apply_page cur pg app ?p1 = Some p'" using res by auto
    note ap = apply_page_Some [OF pg(2)]
    have cur: "if app then pk_pages p \<noteq> [] \<and> cur = pg_next (snd (last (pk_pages p))) \<and> cur \<noteq> []
        else cur = [] \<and> pk_pages p = []" using cond e(3) True by blast
    have ans: "answered ?ld q (cur, pg)" using pg(1) ap by (auto simp: answered_def)
    have pages: "pages_for ?ld (buf_text (pk_query p)) (pk_pages p')" if clean: "\<not> pk_dirty p"
    proof (cases app)
      case app: True
      have c: "pk_pages p \<noteq> []" "cur = pg_next (snd (last (pk_pages p)))" "cur \<noteq> []" using cur app by auto
      have ans': "answered ?ld (buf_text (pk_query p)) (cur, pg)" using ans True by blast
      have pp: "pages_for ?ld (buf_text (pk_query p)) (pk_pages p)" using base(2) clean by blast
      have "pk_pages p' = pk_pages p @ [(cur, pg)]" using ap app by simp
      then show ?thesis using pages_for_append [OF pp c ans'] by simp
    next
      case False
      then have "cur = []" "pk_pages p' = [(cur, pg)]" using cur ap by auto
      then show ?thesis using ans True by (simp add: pages_for_def)
    qed
    have keys: "keys_ok p'" using ap base(1) by (simp add: keys_ok_def)
    have "pk_pages p' \<noteq> []" using ap by simp
    then have idx: "if pk_pages p' = [] then pk_index p' = 0 else pk_index p' < length (pk_pages p')"
      using ap by simp
    show ?thesis using ap pages keys idx by simp
  qed
qed

text \<open>An effect other than the newest load leaves the pool.\<close>

lemma sync_ok_remove:
  assumes ok: "sync_ok p l pool" and sub: "set pool' \<subseteq> set pool"
    and dist: "distinct (map ef_generation (filter (is_load p) pool'))"
    and keep: "\<And>x. x \<in> set pool \<Longrightarrow> is_load p x \<Longrightarrow> ef_generation x = pk_load_generation p \<Longrightarrow> x \<in> set pool'"
  shows "sync_ok p l pool'"
proof -
  have fl: "flight_ok p pool" and v: "view_ok p l" using ok by (simp_all add: sync_ok_split)
  have "\<forall>e \<in> set pool'. is_load p e \<longrightarrow> load_ok p e" using fl sub by (auto simp: flight_ok_def)
  moreover have "(\<exists>e \<in> set pool'. is_load p e \<and> ef_generation e = pk_load_generation p) \<longleftrightarrow>
      (\<exists>e \<in> set pool. is_load p e \<and> ef_generation e = pk_load_generation p)"
    using sub keep by blast
  ultimately have "flight_ok p pool'" using fl dist by (simp add: flight_ok_def)
  then show ?thesis using v by (simp add: sync_ok_split)
qed

lemma picker_result_ok:
  assumes ok: "sync_ok p l pool" and i: "i < length pool" and e: "e = pool ! i"
  shows "sync_ok (picker_result (ef_key e) (ef_generation e) (fst (ef_work e w)) p) l (remove_at i pool) \<and>
    pk_load_generation (picker_result (ef_key e) (ef_generation e) (fst (ef_work e w)) p) = pk_load_generation p"
proof -
  let ?pool = "remove_at i pool"
  have mem: "e \<in> set pool" using i e by simp
  obtain xs ys where split: "pool = xs @ e # ys" and rm: "?pool = xs @ ys"
    using remove_at_split [OF i] e unfolding remove_at_def by blast
  have sub: "set ?pool \<subseteq> set pool" by (rule set_remove_at)
  have all: "distinct (map ef_generation (filter (is_load p) (xs @ e # ys)))"
    using ok unfolding sync_ok_def split by blast
  have dist: "distinct (map ef_generation (filter (is_load p) ?pool))"
    using all unfolding rm by (simp split: if_splits)
  have others: "ef_generation x \<noteq> ef_generation e" if "is_load p e" "x \<in> set ?pool" "is_load p x" for x
    using all that unfolding rm by (auto simp: image_iff)
  have in_pool: "x \<in> set pool \<longleftrightarrow> x = e \<or> x \<in> set ?pool" for x
    unfolding rm by (auto simp: split)
  consider (other) "\<not> is_load p e" | (stale) "is_load p e" "ef_generation e \<noteq> pk_load_generation p"
    | (newest) "is_load p e" "ef_generation e = pk_load_generation p" by blast
  then show ?thesis
  proof cases
    case other
    have "core (picker_result (ef_key e) (ef_generation e) (fst (ef_work e w)) p) = core p \<and>
        pk_index (picker_result (ef_key e) (ef_generation e) (fst (ef_work e w)) p) = pk_index p"
      using other by (auto simp: picker_result_def is_load_def core_simps)
    moreover have pool: "sync_ok p l ?pool"
      by (rule sync_ok_remove [OF ok sub dist]) (use other in_pool in metis)
    moreover have "if pk_pages p = [] then pk_index p = 0 else pk_index p < length (pk_pages p)"
      using ok by (simp add: sync_ok_def)
    ultimately show ?thesis using sync_ok_core [OF pool] by (simp add: core_def)
  next
    case stale
    then have "picker_result (ef_key e) (ef_generation e) (fst (ef_work e w)) p = p"
      by (simp add: picker_result_def is_load_def)
    moreover have "sync_ok p l ?pool"
      by (rule sync_ok_remove [OF ok sub dist]) (use stale in_pool in metis)
    ultimately show ?thesis by simp
  next
    case newest
    define p' where "p' = load_result (fst (ef_work e w)) p"
    note lr = load_result_ok [OF ok mem newest p'_def]
    have r: "picker_result (ef_key e) (ef_generation e) (fst (ef_work e w)) p = p'"
      using newest by (simp add: picker_result_def is_load_def p'_def)
    have il: "is_load p' = is_load p" using lr by (simp add: fun_eq_iff is_load_def)
    have loads: "load_ok p' x" if "x \<in> set ?pool" "is_load p x" for x
    proof -
      have "load_ok p x" using ok that sub by (auto simp: sync_ok_def)
      then obtain q cur app rv where x: "ef_work x = load_work (po_load (pk_options p)) q cur app rv"
        "unat rv < unat (ef_generation x)" "unat (ef_generation x) \<le> unat (pk_load_generation p)"
        unfolding load_ok_def by blast
      have "ef_generation x \<noteq> pk_load_generation p" using others [OF newest(1) that] newest(2) by simp
      then show ?thesis unfolding load_ok_def
        by - (rule exI [of _ q], rule exI [of _ cur], rule exI [of _ app], rule exI [of _ rv], use x lr in simp)
    qed
    have "\<not> (\<exists>x \<in> set ?pool. is_load p x \<and> ef_generation x = pk_load_generation p)"
      using others [OF newest(1)] newest(2) by auto
    moreover have "\<forall>x \<in> set ?pool. is_load p x \<longrightarrow> load_ok p' x" using loads by blast
    ultimately have "flight_ok p' ?pool" unfolding flight_ok_def il using dist lr by simp
    moreover have "view_ok p' l" using ok lr unfolding sync_ok_split view_ok_def by metis
    ultimately show ?thesis unfolding r using lr by (simp add: sync_ok_split)
  qed
qed

end
