(* ===== verification/PickerRuns.thy ===== *)
theory PickerRuns
  imports PickerLaws
begin

text \<open>
  Runs of the picker with its requests in flight: every operation keeps \<^const>\<open>sync_ok\<close>, so
  it holds in every reachable state, and what that says of pages and activations.
\<close>

definition step_ok :: "('w, 'a) picker \<Rightarrow> ('w, 'a) picker_effect list \<Rightarrow> ('w, 'a) picker_step \<Rightarrow> bool" where
  "step_ok p pool s \<longleftrightarrow> (case s of (efs, p', l') \<Rightarrow>
     sync_ok p' l' (pool @ filter is_work efs) \<and> unat (pk_load_generation p') \<le> Suc (unat (pk_load_generation p)) \<and>
     pk_options p' = pk_options p)"

lemma step_ok_if:
  "(c \<Longrightarrow> step_ok p pool s) \<Longrightarrow> (\<not> c \<Longrightarrow> step_ok p pool t) \<Longrightarrow> step_ok p pool (if c then s else t)"
  by simp

lemma quiet_step:
  assumes "sync_ok p l pool" and "core p' = core p" and "filter is_work efs = []"
    and "if pk_pages p = [] then pk_index p' = 0 else pk_index p' < length (pk_pages p)"
  shows "step_ok p pool (efs, p', l)"
  using sync_ok_core [OF assms(1,2,4), of l] assms by (simp add: step_ok_def core_def)

lemma sync_index: "sync_ok p l pool \<Longrightarrow> if pk_pages p = [] then pk_index p = 0 else pk_index p < length (pk_pages p)"
  by (simp add: sync_ok_def)

lemma still_step:
  assumes "sync_ok p l pool" and "core p' = core p" and "pk_index p' = pk_index p" and "filter is_work efs = []"
  shows "step_ok p pool (efs, p', l)"
  by (rule quiet_step) (use assms sync_index [OF assms(1)] in auto)

text \<open>An effect of another request joins the pool.\<close>

lemma sync_ok_add:
  assumes "sync_ok p l pool" and "\<not> is_load p e"
  shows "sync_ok p l (pool @ [e])"
proof -
  have "flight_ok p (pool @ [e])" using assms by (auto simp: sync_ok_split flight_ok_def)
  then show ?thesis using assms(1) by (simp add: sync_ok_split)
qed

lemma activate_step:
  assumes ok: "sync_ok p l pool"
  shows "step_ok p pool (activate_item full_context p l)"
proof -
  have keys: "pk_activation_key p \<noteq> []" "pk_load_key p \<noteq> pk_activation_key p"
    using ok by (simp_all add: sync_ok_def keys_ok_def)
  show ?thesis
  proof (cases "pk_dirty p \<or> selected_item p = None \<or> po_activate (pk_options p) = None \<or>
      it_disabled (the (selected_item p)) \<or> pk_pending_activation p")
    case True
    then have "activate_item full_context p l = ([], p, l)"
      by (auto simp: activate_item_def split: option.splits)
    then show ?thesis using still_step [OF ok, of p "[]"] by simp
  next
    case False
    then obtain it act where sel: "selected_item p = Some it" "po_activate (pk_options p) = Some act" by auto
    define p' where "p' = p\<lparr>pk_activation_generation := pk_activation_generation p + 1, pk_pending_activation := True, pk_error := False\<rparr>"
    obtain ef l' where run: "start_work full_context (pk_activation_key p) (Some (activation_work act it)) l = (Inr ef, l')"
      using keys by (simp add: start_work_def Let_def)
    then have step: "activate_item full_context p l = ([ef], p', l')"
      using False sel by (simp add: activate_item_def p'_def)
    have ef: "\<not> is_load p ef" "is_work ef" and l': "ld_requests l' (pk_load_key p) = ld_requests l (pk_load_key p)"
      using run keys unfolding start_work_Inr is_load_def by auto
    have "core p' = core p" "pk_index p' = pk_index p" by (simp_all add: p'_def core_def)
    then have "sync_ok p' l' (pool @ [ef])"
      using sync_ok_core [OF sync_ok_add [OF ok ef(1)], of p' l'] l' sync_index [OF ok] by simp
    then show ?thesis by (simp add: step step_ok_def ef p'_def)
  qed
qed

lemma start_load_step:
  assumes "sync_ok p l pool" and "unat (pk_load_generation p) < 2 ^ 64 - 1"
    and "app \<Longrightarrow> \<not> pk_dirty p \<and> pk_pages p \<noteq> [] \<and> cur = pg_next (snd (last (pk_pages p))) \<and> cur \<noteq> []"
    and "\<not> app \<Longrightarrow> cur = []"
  shows "step_ok p pool (start_load full_context cur app p l)"
proof -
  obtain efs p' l' where run: "start_load full_context cur app p l = (efs, p', l')" by (metis prod_cases3)
  have "pk_options p' = pk_options p"
    using run by (auto simp: start_load_def Let_def split: prod.splits sum.splits if_splits)
  then show ?thesis using start_load_ok [OF assms(1,2) run assms(3,4)] by (simp add: step_ok_def run)
qed

lemma schedule_step:
  assumes "sync_ok p l pool"
  shows "step_ok p pool (schedule_query_load full_context (p\<lparr>pk_query := b\<rparr>) l)"
proof -
  obtain efs p' l' where run: "schedule_query_load full_context (p\<lparr>pk_query := b\<rparr>) l = (efs, p', l')" by (metis prod_cases3)
  have "pk_options p' = pk_options p"
    using run by (auto simp: schedule_query_load_def Let_def split: prod.splits sum.splits)
  then show ?thesis using schedule_ok [OF assms run] by (simp add: step_ok_def run)
qed

lemma open_step: "sync_ok p l pool \<Longrightarrow> step_ok p pool (open_or_activate full_context p l)"
  unfolding open_or_activate_def
  by (intro step_ok_if activate_step still_step) (simp_all add: core_simps)

lemma next_page_step:
  assumes ok: "sync_ok p l pool" and budget: "unat (pk_load_generation p) < 2 ^ 64 - 1"
  shows "step_ok p pool (next_page full_context p l)"
proof -
  consider (idle) "next_page full_context p l = ([], p, l)"
    | (move) "pk_pages p \<noteq> []" "pk_index p + 1 < length (pk_pages p)"
        "next_page full_context p l = ([], restore_selection (p\<lparr>pk_index := pk_index p + 1\<rparr>), l)"
    | (load) "\<not> pk_dirty p" "pk_pages p \<noteq> []" "\<not> pk_index p + 1 < length (pk_pages p)"
        "pg_next (snd (pk_pages p ! pk_index p)) \<noteq> []"
        "next_page full_context p l = start_load full_context (pg_next (snd (pk_pages p ! pk_index p))) True p l"
    unfolding next_page_def Let_def by (metis (full_types))
  then show ?thesis
  proof cases
    case idle
    then show ?thesis using still_step [OF ok] by simp
  next
    case move
    then show ?thesis using quiet_step [OF ok] by (simp add: core_simps)
  next
    case load
    have "pk_index p = length (pk_pages p) - 1" using sync_index [OF ok] load by simp
    then have "pk_pages p ! pk_index p = last (pk_pages p)" using load(2) by (simp add: last_conv_nth)
    then show ?thesis using start_load_step [OF ok budget, of True] load by simp
  qed
qed

lemma previous_page_step:
  assumes ok: "sync_ok p l pool"
  shows "step_ok p pool ([], previous_page p, l)"
proof (cases "pk_index p = 0 \<or> pk_pages p = []")
  case True
  then show ?thesis using still_step [OF ok] by (simp add: previous_page_def)
next
  case False
  then show ?thesis using quiet_step [OF ok] sync_index [OF ok]
    by (simp add: previous_page_def core_simps)
qed

text \<open>A buffer operation that hits nothing leaves the text.\<close>

lemma buf_backspace_miss: "\<not> fst (buf_backspace seg b) \<Longrightarrow> snd (buf_backspace seg b) = b"
  by (simp add: buf_backspace_def split: if_splits)

lemma buf_delete_miss: "\<not> fst (buf_delete seg b) \<Longrightarrow> snd (buf_delete seg b) = b"
  by (simp add: buf_delete_def split: if_splits)

lemma core_query: "buf_text b = buf_text (pk_query p) \<Longrightarrow> core (p\<lparr>pk_query := b\<rparr>) = core p"
  by (simp add: core_def)

lemmas quiet_simps = core_simps core_query buf_backspace_miss buf_delete_miss

lemma picker_key_step:
  assumes ok: "sync_ok p l pool" and budget: "unat (pk_load_generation p) < 2 ^ 64 - 1"
  shows "step_ok p pool (picker_key seg full_context k p l)"
  unfolding picker_key_def Let_def split_beta
  by (intro step_ok_if activate_step [OF ok] open_step [OF ok] next_page_step [OF ok budget] previous_page_step [OF ok]
        schedule_step [OF ok] still_step [OF ok])
    (simp_all add: quiet_simps)

lemma picker_text_step:
  assumes ok: "sync_ok p l pool" and budget: "unat (pk_load_generation p) < 2 ^ 64 - 1"
  shows "step_ok p pool (picker_text seg full_context t p l)"
  unfolding picker_text_def
  by (intro step_ok_if activate_step [OF ok] open_step [OF ok] next_page_step [OF ok budget] previous_page_step [OF ok]
        schedule_step [OF ok] still_step [OF ok])
    (simp_all add: quiet_simps)

lemma picker_action_step:
  assumes ok: "sync_ok p l pool" and budget: "unat (pk_load_generation p) < 2 ^ 64 - 1"
  shows "step_ok p pool (picker_action seg full_context i p l)"
  unfolding picker_action_def
  by (intro step_ok_if picker_text_step [OF ok budget] still_step [OF ok])
    (auto intro!: picker_key_step [OF ok budget] still_step [OF ok] split: option.split)

lemma picker_update_step:
  assumes ok: "sync_ok p l pool" and budget: "unat (pk_load_generation p) < 2 ^ 64 - 1" and "\<not> is_result ev"
  shows "step_ok p pool (picker_update seg full_context ev p l)"
proof (cases ev)
  case (ResizeEvent lay gen)
  let ?p = "p\<lparr>pk_layout := Some lay, pk_resize_generation := gen\<rparr>"
  have ok': "sync_ok ?p l pool" using sync_ok_core [OF ok, of ?p l] sync_index [OF ok] by (simp add: core_simps)
  show ?thesis
    using ok ok' start_load_step [OF ok', of False "[]"] budget
    by (simp add: ResizeEvent Let_def core_simps step_ok_def)
next
  case (TimerEvent code gen)
  show ?thesis using still_step [OF ok, of p "[]"] start_load_step [OF ok budget, of False "[]"]
    by (simp add: TimerEvent)
next
  case (ResultEvent key gen corr r)
  then show ?thesis using assms(3) by (simp add: is_result_def)
qed (use still_step [OF ok] picker_text_step [OF ok budget] picker_key_step [OF ok budget]
       picker_action_step [OF ok budget] in simp_all)

subsection \<open>Reachable states\<close>

lemma picker_result_options: "pk_options (picker_result key gen r p) = pk_options p"
  by (auto simp: picker_result_def load_result_def Let_def dest!: apply_page_Some split: picker_result.splits option.splits)

lemma picker_system_step_ok:
  assumes ok: "sync_ok p l pool" and budget: "unat (pk_load_generation p) < 2 ^ 64 - 1"
    and run: "picker_system_step seg (p, l, pool) x = (p', l', pool')"
  shows "sync_ok p' l' pool' \<and> unat (pk_load_generation p') \<le> Suc (unat (pk_load_generation p)) \<and> pk_options p' = pk_options p"
proof (cases x)
  case (Input ev)
  show ?thesis
  proof (cases "is_result ev")
    case True
    then show ?thesis using run ok by (simp add: Input)
  next
    case False
    obtain efs p1 l1 where up: "picker_update seg full_context ev p l = (efs, p1, l1)" by (metis prod_cases3)
    show ?thesis using picker_update_step [OF ok budget False, of seg] run False by (simp add: Input up step_ok_def)
  qed
next
  case (Deliver i w)
  show ?thesis
  proof (cases "i < length pool")
    case True
    show ?thesis using picker_result_ok [OF ok True refl, of w] run True
      by (auto simp: Deliver Let_def picker_result_options)
  next
    case False
    then show ?thesis using run ok by (simp add: Deliver)
  qed
qed

lemma run_sync_ok:
  assumes "sync_ok p l pool" and "unat (pk_load_generation p) + length ops < 2 ^ 64 - 1"
    and "foldl (picker_system_step seg) (p, l, pool) ops = (p', l', pool')"
  shows "sync_ok p' l' pool' \<and> pk_options p' = pk_options p \<and>
    unat (pk_load_generation p') \<le> unat (pk_load_generation p) + length ops"
  using assms
proof (induction ops arbitrary: p l pool)
  case (Cons x ops)
  obtain p1 l1 pool1 where one: "picker_system_step seg (p, l, pool) x = (p1, l1, pool1)" by (metis prod_cases3)
  have "unat (pk_load_generation p) < 2 ^ 64 - 1" using Cons.prems(2) by simp
  from picker_system_step_ok [OF Cons.prems(1) this one] show ?case
    using Cons.IH [of p1 l1 pool1] Cons.prems one by simp
qed simp

lemma semantic_id_nonempty: "\<not> semantic_id []"
  by (simp add: semantic_id_def)

lemma new_picker_ok:
  assumes "new_picker opts = Inr p"
  shows "sync_ok p empty_ledger [] \<and> pk_options p = opts \<and> pk_load_generation p = 0"
  using assms
  by (auto simp: new_picker_def Let_def sync_ok_def keys_ok_def empty_ledger_def pages_for_def split: if_splits)

text \<open>
  C11: in every reachable state, requests running at any moment and their results arriving in
  any order: unless an edit is waiting for its load, the pages shown are answers of the
  provider for the query as it now stands, a gapless chain from the first page, every page
  valid; the page index is in range; and the picker waits for a load exactly while its
  newest one is in flight.  (Every operation starts at most one request; fewer than
  \<open>2 ^ 64 - 1\<close> operations keep the generations from wrapping.)
\<close>

theorem picker_pages_current:
  assumes "new_picker opts = Inr p0" and "length ops < 2 ^ 64 - 1"
    and "foldl (picker_system_step seg) (p0, empty_ledger, []) ops = (p, l, pool)"
  shows "(\<not> pk_dirty p \<longrightarrow> pages_for (po_load opts) (buf_text (pk_query p)) (pk_pages p)) \<and>
    (if pk_pages p = [] then pk_index p = 0 else pk_index p < length (pk_pages p)) \<and>
    (pk_pending_load p \<longleftrightarrow> (\<exists>e \<in> set pool. is_load p e \<and> ef_generation e = pk_load_generation p))"
proof -
  note new = new_picker_ok [OF assms(1)]
  have "sync_ok p l pool \<and> pk_options p = opts"
    using run_sync_ok [of p0 empty_ledger "[]" ops seg p l pool] new assms(2,3) by simp
  then show ?thesis unfolding sync_ok_def by metis
qed

subsection \<open>Activation\<close>

text \<open>What an activation request of a step does.\<close>

definition activates :: "('w, 'a) picker \<Rightarrow> ('w, 'a) picker_effect \<Rightarrow> bool" where
  "activates p e \<longleftrightarrow> (\<exists>act it. po_activate (pk_options p) = Some act \<and> selected_item p = Some it \<and>
     ef_work e = activation_work act it \<and> \<not> pk_dirty p \<and> \<not> pk_pending_activation p)"

definition acts_ok :: "('w, 'a) picker \<Rightarrow> ('w, 'a) picker_step \<Rightarrow> bool" where
  "acts_ok p s \<longleftrightarrow> (\<forall>e \<in> set (fst s). is_work e \<and> ef_key e = pk_activation_key p \<longrightarrow> activates p e)"

lemma acts_ok_if: "(c \<Longrightarrow> acts_ok p s) \<Longrightarrow> (\<not> c \<Longrightarrow> acts_ok p t) \<Longrightarrow> acts_ok p (if c then s else t)"
  by simp

lemma acts_ok_quiet: "filter is_work efs = [] \<Longrightarrow> acts_ok p (efs, s)"
  by (auto simp: acts_ok_def filter_empty_conv)

lemma acts_ok_activate: "acts_ok p (activate_item full_context p l)"
  by (auto simp: acts_ok_def activates_def activate_item_def start_work_Inr split: option.splits prod.splits sum.splits if_splits)

lemma acts_ok_load: "keys_ok p \<Longrightarrow> acts_ok p (start_load full_context cur app p l)"
  using start_load_full [of p cur app l] by (auto simp: acts_ok_def keys_ok_def)

lemma acts_ok_schedule: "acts_ok p (schedule_query_load full_context q l)"
  by (auto simp: acts_ok_def schedule_query_load_def start_timer_def Let_def split: prod.splits sum.splits if_splits)

lemma acts_ok_open: "acts_ok p (open_or_activate full_context p l)"
  unfolding open_or_activate_def by (intro acts_ok_if acts_ok_activate acts_ok_quiet) simp_all

lemma acts_ok_next: "keys_ok p \<Longrightarrow> acts_ok p (next_page full_context p l)"
  unfolding next_page_def Let_def by (intro acts_ok_if acts_ok_load acts_ok_quiet) simp_all

lemma acts_ok_key: "keys_ok p \<Longrightarrow> acts_ok p (picker_key seg full_context k p l)"
  unfolding picker_key_def Let_def split_beta
  by (intro acts_ok_if acts_ok_activate acts_ok_open acts_ok_next acts_ok_schedule acts_ok_quiet) simp_all

lemma acts_ok_text: "keys_ok p \<Longrightarrow> acts_ok p (picker_text seg full_context t p l)"
  unfolding picker_text_def
  by (intro acts_ok_if acts_ok_activate acts_ok_open acts_ok_next acts_ok_schedule acts_ok_quiet) simp_all

lemma acts_ok_action: "keys_ok p \<Longrightarrow> acts_ok p (picker_action seg full_context i p l)"
  unfolding picker_action_def
  by (intro acts_ok_if acts_ok_text acts_ok_quiet) (auto intro!: acts_ok_key acts_ok_quiet split: option.split)

lemma acts_ok_update:
  assumes "keys_ok p"
  shows "acts_ok p (picker_update seg full_context ev p l)"
proof (cases ev)
  case (ResizeEvent lay gen)
  let ?p = "p\<lparr>pk_layout := Some lay, pk_resize_generation := gen\<rparr>"
  have "acts_ok ?p (start_load full_context [] False ?p l)"
    by (rule acts_ok_load) (use assms in \<open>simp add: keys_ok_def\<close>)
  then have "acts_ok p (start_load full_context [] False ?p l)"
    using start_load_full [of ?p "[]" False l] assms by (auto simp: acts_ok_def keys_ok_def)
  then show ?thesis by (simp add: ResizeEvent Let_def acts_ok_quiet)
qed (use assms in \<open>simp_all add: acts_ok_quiet acts_ok_text acts_ok_key acts_ok_action acts_ok_load\<close>)

lemma selected_item_in: "selected_item p = Some it \<Longrightarrow> it \<in> set (picker_items p) \<and> \<not> it_disabled it"
  by (auto simp: selected_item_def Let_def split: if_splits)

lemma picker_items_in:
  "it \<in> set (picker_items p) \<Longrightarrow> \<exists>e \<in> set (pk_pages p). it \<in> set (pg_items (snd e))"
  by (auto simp: picker_items_def split: if_splits intro!: bexI [OF _ nth_mem])

text \<open>
  C32: an activation request is started in a reachable state only when no edit waits for its
  load and no other activation is pending; it acts, through the activator of the options, on
  the selected item, which is enabled and on a page that the provider answered for the query as
  it now stands.
\<close>

theorem activation_runs_shown_item:
  assumes "new_picker opts = Inr p0" and "length ops < 2 ^ 64 - 1"
    and "foldl (picker_system_step seg) (p0, empty_ledger, []) ops = (p, l, pool)"
    and "picker_update seg full_context ev p l = (efs, p', l')"
    and "e \<in> set efs" and "is_work e" and "ef_key e = pk_activation_key p"
  shows "\<not> pk_dirty p \<and> \<not> pk_pending_activation p \<and>
    (\<exists>act it c pg. po_activate opts = Some act \<and> ef_work e = activation_work act it \<and> selected_item p = Some it \<and>
    it \<in> set (pg_items pg) \<and> \<not> it_disabled it \<and> (c, pg) \<in> set (pk_pages p) \<and>
    answered (po_load opts) (buf_text (pk_query p)) (c, pg))"
proof -
  note new = new_picker_ok [OF assms(1)]
  have ok: "sync_ok p l pool" "pk_options p = opts"
    using run_sync_ok [of p0 empty_ledger "[]" ops seg p l pool] new assms(2,3) by simp_all
  then have "keys_ok p" by (simp add: sync_ok_def)
  then have "activates p e" using acts_ok_update [of p seg ev l] assms(4-7) by (simp add: acts_ok_def)
  then obtain act it where a: "po_activate opts = Some act" "selected_item p = Some it" "ef_work e = activation_work act it"
    "\<not> pk_dirty p" "\<not> pk_pending_activation p" using ok(2) unfolding activates_def by blast
  obtain c pg where cp: "(c, pg) \<in> set (pk_pages p)" "it \<in> set (pg_items pg)" "\<not> it_disabled it"
    using selected_item_in [OF a(2)] picker_items_in [of it p] by force
  have "pages_for (po_load opts) (buf_text (pk_query p)) (pk_pages p)" using ok a(4) unfolding sync_ok_def by metis
  then have "answered (po_load opts) (buf_text (pk_query p)) (c, pg)" using cp(1) by (auto simp: pages_for_def)
  then show ?thesis using a cp by blast
qed

subsection \<open>A concrete run\<close>

definition sample_page :: "unit page" where
  "sample_page = \<lparr>pg_items = [\<lparr>it_key = ''x'', it_label = ''X'', it_description = [], it_detail = [],
     it_disabled = False, it_value = ()\<rparr>], pg_next = []\<rparr>"

definition sample_picker_options :: "(unit, unit) picker_options" where
  "sample_picker_options = \<lparr>po_title = ''Items'', po_namespace = [], po_load = (\<lambda>q c w. (Some sample_page, w)),
     po_activate = Some (\<lambda>it w. (False, w))\<rparr>"

definition sample_picker :: "(unit, unit) picker" where
  "sample_picker = projr (new_picker sample_picker_options)"

lemma sample_picker_new: "new_picker sample_picker_options = Inr sample_picker"
proof -
  have "\<not> isl (new_picker sample_picker_options)" by code_simp
  then show ?thesis by (simp add: sample_picker_def)
qed

definition sample_picker_ops :: "(unit, unit) picker_op list" where
  "sample_picker_ops = [Input (TimerEvent ''interaction.picker.query'' 1), Deliver 0 (), Input (KeyEvent ''enter'' False)]"

lemma sample_picker_length: "length sample_picker_ops < 2 ^ 64 - 1"
  by (simp add: sample_picker_ops_def)

abbreviation sample_run :: "(unit, unit) picker_system" where
  "sample_run \<equiv> foldl (picker_system_step rune_segmenter) (sample_picker, empty_ledger, []) sample_picker_ops"

theorem picker_pages_current_witness:
  "case sample_run of (p, l, pool) \<Rightarrow> length (pk_pages p) = 1 \<and> pages_for (po_load sample_picker_options) [] (pk_pages p)"
proof -
  obtain p l pool where run: "sample_run = (p, l, pool)" by (metis prod_cases3)
  have "length (pk_pages (fst sample_run)) = 1" "\<not> pk_dirty (fst sample_run)" "buf_text (pk_query (fst sample_run)) = []"
    by code_simp+
  with picker_pages_current [OF sample_picker_new sample_picker_length run] run show ?thesis by simp
qed

theorem activation_runs_shown_item_witness:
  "\<exists>(p :: (unit, unit) picker) l efs p' l' e act it c pg.
     picker_update rune_segmenter full_context (KeyEvent ''enter'' False) p l = (efs, p', l') \<and> e \<in> set efs \<and>
     ef_work e = activation_work act it \<and> it \<in> set (pg_items pg) \<and> \<not> it_disabled it \<and> (c, pg) \<in> set (pk_pages p)"
proof -
  obtain p l pool where run: "sample_run = (p, l, pool)" by (metis prod_cases3)
  let ?up = "\<lambda>s. picker_update rune_segmenter full_context (KeyEvent ''enter'' False) (fst s) (fst (snd s))"
  have eff: "length (fst (?up sample_run)) = 1" "is_work (hd (fst (?up sample_run)))"
    "ef_key (hd (fst (?up sample_run))) = pk_activation_key (fst sample_run)" by code_simp+
  obtain efs p' l' where up: "picker_update rune_segmenter full_context (KeyEvent ''enter'' False) p l = (efs, p', l')"
    by (metis prod_cases3)
  obtain e where e: "efs = [e]" using eff(1) by (auto simp: run up length_Suc_conv simp del: picker_update.simps)
  have "e \<in> set efs" "is_work e" "ef_key e = pk_activation_key p" using eff(2,3) by (simp_all add: run up e del: picker_update.simps)
  from activation_runs_shown_item [OF sample_picker_new sample_picker_length run up this] up this(1) show ?thesis by blast
qed

end
