(* ===== verification/Semantic.thy ===== *)
theory Semantic
  imports Identifiers "HOL-Library.Word"
begin

text \<open>
  Semantic diagnostics (diagnostics/semantic.go): the event that plugins report, its
  visual state and text-fit report, and their validation.

  An \<open>ID\<close> is the string it wraps, empty for the zero value.  Outcomes, levels and kinds are
  strings as in the code.  Several identifiers are checked by ranging over a Go map, so which
  name an error mentions is unspecified; the error here names none.
\<close>

record geometry =
  geo_reported_columns :: int
  geo_reported_rows :: int
  geo_render_columns :: int
  geo_render_rows :: int

record visual_state =
  vs_screen :: string
  vs_focus :: string
  vs_selection :: string
  vs_state :: string
  vs_geometry :: geometry
  vs_resize_generation :: "64 word"
  vs_request_generation :: "64 word"
  vs_item_count :: int
  vs_selected_index :: int
  vs_pending :: bool
  vs_has_error :: bool

record fit_observation =
  fit_element :: string
  fit_instance :: int
  fit_original_columns :: int
  fit_layout_rows :: int
  fit_available_columns :: int
  fit_available_rows :: int
  fit_intent :: string
  fit_wrapped :: bool
  fit_truncated :: bool
  fit_clipped :: bool
  fit_allow_truncation :: bool

text \<open>A nil slice of observations is \<^const>\<open>None\<close>.\<close>

record fit_report =
  fit_observations :: "fit_observation list option"
  fit_omitted :: int

record semantic_event =
  se_level :: string
  se_kind :: string
  se_plugin :: string
  se_component :: string
  se_action :: string
  se_correlation :: string
  se_code :: string
  se_outcome :: string
  se_before :: string
  se_after :: string
  se_generation :: "64 word"
  se_related_generation :: "64 word"
  se_count :: int
  se_bytes :: int
  se_graphemes :: int
  se_alt :: bool
  se_paste :: bool
  se_duration :: int
  se_geometry :: geometry
  se_visual :: "visual_state option"
  se_text_fit :: "fit_report option"

definition outcome_codes :: "string list" where
  "outcome_codes = [''applied'', ''ignored'', ''rejected'', ''stale'', ''cancelled'', ''failed'']"

definition valid_outcome :: "string \<Rightarrow> bool" where
  "valid_outcome o' \<longleftrightarrow> o' \<in> set outcome_codes"

datatype semantic_error =
    EmptyCode | InvalidIdentifier | InvalidOutcome | NegativeMeasurement
  | InvalidVisualIdentifier | NegativeVisualCount | NegativeVisualGeometry
  | MissingObservations | InvalidFitBounds | InvalidFitObservation | InvalidFitInteger | InvalidFitIntent

definition id_ok :: "string \<Rightarrow> bool" where
  "id_ok i \<longleftrightarrow> i = [] \<or> semantic_id i"

definition visual_ids :: "visual_state \<Rightarrow> string list" where
  "visual_ids v = [vs_screen v, vs_focus v, vs_selection v, vs_state v]"

definition negative_geometry :: "geometry \<Rightarrow> bool" where
  "negative_geometry g \<longleftrightarrow> geo_reported_columns g < 0 \<or> geo_reported_rows g < 0 \<or>
     geo_render_columns g < 0 \<or> geo_render_rows g < 0"

definition validate_visual :: "visual_state \<Rightarrow> semantic_error option" where
  "validate_visual v =
     first_err (guard_err (\<not> list_all id_ok (visual_ids v)) InvalidVisualIdentifier)
      (first_err (guard_err (vs_item_count v < 0 \<or> vs_selected_index v < 0) NegativeVisualCount)
        (guard_err (negative_geometry (vs_geometry v)) NegativeVisualGeometry))"

definition event_ids :: "semantic_event \<Rightarrow> string list" where
  "event_ids e = [se_plugin e, se_component e, se_action e, se_correlation e, se_before e, se_after e]"

definition validate_semantic :: "semantic_event \<Rightarrow> semantic_error option" where
  "validate_semantic e =
     first_err (guard_err (se_code e = []) EmptyCode)
      (first_err (guard_err (\<not> list_all id_ok (event_ids e)) InvalidIdentifier)
        (first_err (guard_err (\<not> valid_outcome (se_outcome e)) InvalidOutcome)
          (first_err (guard_err (se_count e < 0 \<or> se_bytes e < 0 \<or> se_graphemes e < 0 \<or> se_duration e < 0)
              NegativeMeasurement)
            (case se_visual e of None \<Rightarrow> None | Some v \<Rightarrow> validate_visual v))))"

definition max_fit_observations :: nat where "max_fit_observations = 256"

definition fit_integer_bound :: int where "fit_integer_bound = 2 ^ 53 - 1"

definition fit_measures :: "fit_observation \<Rightarrow> int list" where
  "fit_measures x = [fit_instance x, fit_original_columns x, fit_layout_rows x, fit_available_columns x, fit_available_rows x]"

definition validate_observation :: "fit_observation \<Rightarrow> semantic_error option" where
  "validate_observation x =
     first_err (guard_err (fit_element x = [] \<or> list_ex (\<lambda>n. n < 0) (fit_measures x)) InvalidFitObservation)
      (first_err (guard_err (list_ex (\<lambda>n. n > fit_integer_bound) (fit_measures x)) InvalidFitInteger)
        (guard_err (fit_intent x \<notin> {''clip'', ''truncate'', ''wrap''}) InvalidFitIntent))"

definition validate_text_fit :: "fit_report \<Rightarrow> semantic_error option" where
  "validate_text_fit r =
     (case fit_observations r of
        None \<Rightarrow> Some MissingObservations
      | Some xs \<Rightarrow>
          first_err (guard_err (length xs > max_fit_observations \<or> fit_omitted r < 0 \<or> fit_omitted r > fit_integer_bound)
              InvalidFitBounds)
            (check_each (\<lambda>_. validate_observation) 0 xs))"

text \<open>\<open>NewID\<close> with its error ignored: the zero identifier.\<close>

definition id_or_zero :: "string \<Rightarrow> string" where
  "id_or_zero s = (if semantic_id s then s else [])"

lemma id_or_zero_ok [simp]: "id_ok (id_or_zero s)" "id_ok []"
  by (simp_all add: id_or_zero_def id_ok_def)

lemma id_or_zero_id: "semantic_id s \<Longrightarrow> id_or_zero s = s"
  by (simp add: id_or_zero_def)

lemma validate_visual_None:
  "validate_visual v = None \<longleftrightarrow> list_all id_ok (visual_ids v) \<and> 0 \<le> vs_item_count v \<and> 0 \<le> vs_selected_index v \<and>
     \<not> negative_geometry (vs_geometry v)"
  by (auto simp: validate_visual_def check_simps not_less)

lemma validate_semantic_None:
  "validate_semantic e = None \<longleftrightarrow> se_code e \<noteq> [] \<and> list_all id_ok (event_ids e) \<and> valid_outcome (se_outcome e) \<and>
     0 \<le> se_count e \<and> 0 \<le> se_bytes e \<and> 0 \<le> se_graphemes e \<and> 0 \<le> se_duration e \<and>
     (case se_visual e of None \<Rightarrow> True | Some v \<Rightarrow> validate_visual v = None)"
  by (auto simp: validate_semantic_def check_simps not_less split: option.splits)

end
