(* ===== verification/Shell.thy ===== *)
theory Shell
  imports ShellEvents Semantic KeymapRuntime Buffer "HOL-Library.AList"
begin

text \<open>
  The event loop of kit surfaces (ui/shell/shell.go): a message of the terminal library is
  decoded, the surface is updated, the outcome is recorded as a semantic event, the effects
  become commands, and the surface is drawn.

  A surface is a record of functions on its state \<open>'s\<close>; the sink of semantic events answers
  from all it has been offered, so any sequence of its errors is some sink.  The contexts
  handed to background work are numbered in the order they are made; \<open>sh_cancelled\<close> holds
  the cancelled ones.  Drawing text into a frame (ui/view) is the argument \<open>so_draw\<close>; a frame
  is its size, its text-fit report and its terminal output.  Instants and durations are
  nanoseconds.  The palette is passed through and left out.
\<close>

record frame =
  fr_width :: int
  fr_height :: int
  fr_fit :: fit_report
  fr_ansi :: string

record render_context =
  rc_layout :: layout
  rc_focused :: bool
  rc_generation :: "64 word"
  rc_settled :: bool

datatype captured = CapturedStroke string | CapturedPaste

record 's action_surface =
  as_catalog :: "action list"
  as_context :: "'s \<Rightarrow> context_state"
  as_state :: "'s \<Rightarrow> string \<Rightarrow> action_state"

type_synonym ('s, 'w, 'v) surface_step = "('w, 'v) effect list \<times> 's \<times> ledger"

record ('s, 'w, 'v) key_capture =
  kc_active :: "'s \<Rightarrow> bool"
  kc_capture :: "event_context \<Rightarrow> captured \<Rightarrow> 's \<Rightarrow> ledger \<Rightarrow> ('s, 'w, 'v) surface_step"

record ('s, 'w, 'v) diagnostic_filter =
  df_event :: "'s \<Rightarrow> 'v shell_event \<Rightarrow> bool"
  df_effect :: "'s \<Rightarrow> ('w, 'v) effect \<Rightarrow> bool"

record ('s, 'w, 'v) surface =
  sf_update :: "event_context \<Rightarrow> 'v shell_event \<Rightarrow> 's \<Rightarrow> ledger \<Rightarrow> ('s, 'w, 'v) surface_step"
  sf_render :: "render_context \<Rightarrow> 's \<Rightarrow> (frame option \<times> bool) \<times> 's"
  sf_visual :: "'s \<Rightarrow> visual_state"
  sf_filter :: "('s, 'w, 'v) diagnostic_filter option"
  sf_actions :: "'s action_surface option"
  sf_capture :: "('s, 'w, 'v) key_capture option"

record shell_options =
  so_observe :: bool
  so_plugin :: string
  so_theme :: string
  so_sink :: "semantic_event list \<Rightarrow> semantic_event \<Rightarrow> bool"
  so_keymap :: "keymap_runtime option"
  so_draw :: "int \<Rightarrow> int \<Rightarrow> string \<Rightarrow> bool \<Rightarrow> frame"
  so_unicode :: unicode
  so_segmenter :: segmenter

record 's shell =
  sh_surface :: 's
  sh_layout :: layout
  sh_focused :: bool
  sh_settled :: bool
  sh_resize_generation :: "64 word"
  sh_ledger :: ledger
  sh_contexts :: nat
  sh_cancels :: "(string \<times> nat) list"
  sh_cancelled :: "nat set"
  sh_keymap :: "keymap_runtime option"
  sh_rendered :: string
  sh_diagnostic_failed :: bool
  sh_suppress :: bool
  sh_log :: "semantic_event list"
  sh_observed :: nat

datatype shell_error = EmptyPluginID | EmptyTheme | UndeclaredActions

definition new_shell :: "shell_options \<Rightarrow> ('s, 'w, 'v) surface \<Rightarrow> 's \<Rightarrow> shell_error + 's shell" where
  "new_shell opts sf s =
     (if so_plugin opts = [] then Inl EmptyPluginID
      else if so_theme opts = [] then Inl EmptyTheme
      else if so_keymap opts \<noteq> None \<and> sf_actions sf = None then Inl UndeclaredActions
      else Inr \<lparr>sh_surface = s, sh_layout = resolve \<lparr>columns = 0, rows = 0\<rparr>, sh_focused = False, sh_settled = False,
         sh_resize_generation = 0, sh_ledger = empty_ledger, sh_contexts = 0, sh_cancels = [],
         sh_cancelled = {}, sh_keymap = so_keymap opts, sh_rendered = [], sh_diagnostic_failed = False,
         sh_suppress = False, sh_log = [], sh_observed = 0\<rparr>)"

subsection \<open>Messages and commands\<close>

datatype tea_key =
    KeyRunes | TeaEnter | TeaBackspace | TeaTab | TeaEsc | TeaUp | TeaDown | TeaLeft | TeaRight
  | TeaHome | TeaEnd | TeaPgUp | TeaPgDown | TeaDelete | TeaSpace | TeaCtrlC | TeaOther nat

text \<open>\<open>km_string\<close> is the library's rendering of the key, \<open>message.String()\<close>.\<close>

record key_msg =
  km_type :: tea_key
  km_runes :: "int list"
  km_paste :: bool
  km_alt :: bool
  km_string :: string

datatype 'v shell_message =
    WindowSizeMsg int int
  | KeyMsg key_msg
  | FocusMsg
  | BlurMsg
  | SettleMsg "64 word" int
  | ResultMsg string "64 word" string "'v work_result"
  | TimerMsg string "64 word"
  | MouseMsg
  | OtherMsg bool

datatype ('w, 'v) command =
    RunCommand (cmd_context: nat) (cmd_key: string) (cmd_generation: "64 word") (cmd_correlation: string)
      (cmd_work: "('w, 'v) work")
  | TimerCommand int string "64 word"
  | SettleCommand int "64 word" int
  | QuitCommand

definition resize_settle_delay :: int where "resize_settle_delay = 100000000"

fun translate_key :: "tea_key \<Rightarrow> string option" where
  "translate_key TeaEnter = Some ''enter''"
| "translate_key TeaBackspace = Some ''backspace''"
| "translate_key TeaTab = Some ''tab''"
| "translate_key TeaEsc = Some ''escape''"
| "translate_key TeaUp = Some ''up''"
| "translate_key TeaDown = Some ''down''"
| "translate_key TeaLeft = Some ''left''"
| "translate_key TeaRight = Some ''right''"
| "translate_key TeaHome = Some ''home''"
| "translate_key TeaEnd = Some ''end''"
| "translate_key TeaPgUp = Some ''page-up''"
| "translate_key TeaPgDown = Some ''page-down''"
| "translate_key TeaDelete = Some ''delete''"
| "translate_key TeaSpace = Some ''space''"
| "translate_key TeaCtrlC = Some ''ctrl-c''"
| "translate_key KeyRunes = None"
| "translate_key (TeaOther n) = None"

subsection \<open>Small steps of the loop\<close>

abbreviation shell_context :: event_context where
  "shell_context \<equiv> EventContext True True"

definition observe :: "shell_options \<Rightarrow> nat \<Rightarrow> 's shell \<Rightarrow> 's shell" where
  "observe opts n st = (if so_observe opts then st\<lparr>sh_observed := sh_observed st + n\<rparr> else st)"

definition surface_update ::
  "('s, 'w, 'v) surface \<Rightarrow> 'v shell_event \<Rightarrow> 's shell \<Rightarrow> ('w, 'v) effect list \<times> 's shell" where
  "surface_update sf ev st =
     (let (efs, s, l) = sf_update sf shell_context ev (sh_surface st) (sh_ledger st)
      in (efs, st\<lparr>sh_surface := s, sh_ledger := l\<rparr>))"

definition visual :: "('s, 'w, 'v) surface \<Rightarrow> 's shell \<Rightarrow> visual_state" where
  "visual sf st = sf_visual sf (sh_surface st)"

definition shell_geometry :: "layout \<Rightarrow> geometry" where
  "shell_geometry la = \<lparr>geo_reported_columns = columns (reported la), geo_reported_rows = rows (reported la),
     geo_render_columns = columns (render_size la), geo_render_rows = rows (render_size la)\<rparr>"

text \<open>
  The semantic event of \<open>recordWithTextFit\<close>: the common fields, then those of the event,
  added by a describing function.
\<close>

definition base_semantic ::
  "shell_options \<Rightarrow> 's shell \<Rightarrow> string \<Rightarrow> string \<Rightarrow> visual_state \<Rightarrow> visual_state \<Rightarrow> int \<Rightarrow> fit_report option \<Rightarrow> semantic_event" where
  "base_semantic opts st code outcome before after duration fit =
     \<lparr>se_level = ''info'', se_kind = ''interaction'', se_plugin = so_plugin opts, se_component = [],
      se_action = [], se_correlation = [], se_code = code, se_outcome = outcome,
      se_before = vs_state before, se_after = vs_state after, se_generation = sh_resize_generation st,
      se_related_generation = 0, se_count = 0, se_bytes = 0, se_graphemes = 0, se_alt = False, se_paste = False,
      se_duration = duration, se_geometry = shell_geometry (sh_layout st), se_visual = Some after, se_text_fit = fit\<rparr>"

definition describe_request :: "string \<Rightarrow> 64 word \<Rightarrow> string \<Rightarrow> semantic_event \<Rightarrow> semantic_event" where
  "describe_request key gen corr e = e\<lparr>se_action := id_or_zero key, se_correlation := corr, se_related_generation := gen\<rparr>"

definition describe_timer :: "string \<Rightarrow> 64 word \<Rightarrow> semantic_event \<Rightarrow> semantic_event" where
  "describe_timer code gen e = e\<lparr>se_action := id_or_zero code, se_related_generation := gen\<rparr>"

definition describe_action :: "string \<Rightarrow> semantic_event \<Rightarrow> semantic_event" where
  "describe_action i e = e\<lparr>se_action := id_or_zero i\<rparr>"

fun describe_event :: "segmenter \<Rightarrow> 'v shell_event option \<Rightarrow> semantic_event \<Rightarrow> semantic_event" where
  "describe_event seg (Some (TextEvent t paste alt)) e =
     e\<lparr>se_bytes := int (length t), se_graphemes := int (length (seg t)), se_alt := alt, se_paste := paste\<rparr>"
| "describe_event seg (Some (KeyEvent k alt)) e = e\<lparr>se_action := id_or_zero k, se_alt := alt\<rparr>"
| "describe_event seg (Some (ActionEvent i)) e = describe_action i e"
| "describe_event seg (Some (ResultEvent key gen corr r)) e = describe_request key gen corr e"
| "describe_event seg (Some (TimerEvent code gen)) e = describe_timer code gen e"
| "describe_event seg _ e = e"

definition record_event ::
  "shell_options \<Rightarrow> string \<Rightarrow> string \<Rightarrow> visual_state \<Rightarrow> visual_state \<Rightarrow> (semantic_event \<Rightarrow> semantic_event) \<Rightarrow> int \<Rightarrow>
     fit_report option \<Rightarrow> 's shell \<Rightarrow> 's shell" where
  "record_event opts code outcome before after describe duration fit st =
     (if sh_diagnostic_failed st \<or> sh_suppress st then st
      else if \<not> semantic_id code then st\<lparr>sh_diagnostic_failed := True\<rparr>
      else
        let e = describe (base_semantic opts st code outcome before after duration fit);
            st' = st\<lparr>sh_log := sh_log st @ [e]\<rparr>
        in if so_sink opts (sh_log st) e then st'\<lparr>sh_diagnostic_failed := True\<rparr> else st')"

subsection \<open>Decoding a message\<close>

record ('w, 'v) decoded =
  dc_event :: "'v shell_event option"
  dc_diagnostic :: "'v shell_event option"
  dc_code :: string
  dc_outcome :: string
  dc_extra :: "('w, 'v) command option"
  dc_duration :: int
  dc_render :: bool

definition plain :: "'v shell_event \<Rightarrow> string \<Rightarrow> ('w, 'v) decoded" where
  "plain ev code = \<lparr>dc_event = Some ev, dc_diagnostic = None, dc_code = code, dc_outcome = ''applied'',
     dc_extra = None, dc_duration = 0, dc_render = True\<rparr>"

definition quiet :: "'v shell_event option \<Rightarrow> string \<Rightarrow> string \<Rightarrow> ('w, 'v) decoded" where
  "quiet diag code outcome = \<lparr>dc_event = None, dc_diagnostic = diag, dc_code = code, dc_outcome = outcome,
     dc_extra = None, dc_duration = 0, dc_render = False\<rparr>"

definition decode_key :: "shell_options \<Rightarrow> key_msg \<Rightarrow> 's shell \<Rightarrow> ('w, 'v) decoded \<times> 's shell" where
  "decode_key opts m st =
     (let st' = (if km_type m \<noteq> KeyRunes \<or> sh_keymap st = None then observe opts 1 st else st);
          unsupported = quiet None ''input.unsupported'' ''rejected''
      in (if km_type m = KeyRunes then plain (TextEvent (encode_runes (km_runes m)) (km_paste m) (km_alt m)) ''input.text''
          else case translate_key (km_type m) of
              Some k \<Rightarrow> plain (KeyEvent k (km_alt m)) ''input.key''
            | None \<Rightarrow>
                (if sh_keymap st = None then unsupported
                 else case normalize (so_unicode opts) (km_string m) of
                     Inl _ \<Rightarrow> unsupported
                   | Inr n \<Rightarrow> plain (KeyEvent n False) ''input.key''), st'))"

definition decode_result ::
  "string \<Rightarrow> 64 word \<Rightarrow> string \<Rightarrow> 'v work_result \<Rightarrow> 's shell \<Rightarrow> ('w, 'v) decoded \<times> 's shell" where
  "decode_result key gen corr r st =
     (let ev = ResultEvent key gen corr r; l = sh_ledger st in
      if gen \<noteq> ld_requests l key then (quiet (Some ev) ''request.completed'' ''stale'', st)
      else
        let st' = st\<lparr>sh_cancels := AList.delete key (sh_cancels st),
              sh_ledger := l\<lparr>ld_correlations := (ld_correlations l)(key := [])\<rparr>\<rparr>
        in if \<not> wr_failed r \<and> \<not> valid_outcome (wr_code r)
           then (quiet (Some ev) ''request.completed'' ''rejected'', st')
           else ((plain ev ''request.completed'')\<lparr>dc_diagnostic := Some ev,
                   dc_outcome := (if wr_failed r then ''failed'' else wr_code r)\<rparr>, st'))"

fun decode_message ::
  "shell_options \<Rightarrow> int \<Rightarrow> 'v shell_message \<Rightarrow> 's shell \<Rightarrow> ('w, 'v) decoded \<times> 's shell" where
  "decode_message opts now (WindowSizeMsg w h) st =
     (let gen = sh_resize_generation st + 1; lay = resolve \<lparr>columns = w, rows = h\<rparr> in
      ((plain (ResizeEvent lay gen) ''resize.received'')
         \<lparr>dc_extra := Some (SettleCommand resize_settle_delay gen now)\<rparr>,
       (observe opts 1 st)\<lparr>sh_resize_generation := gen, sh_layout := lay, sh_settled := False\<rparr>))"
| "decode_message opts now (KeyMsg m) st = decode_key opts m st"
| "decode_message opts now FocusMsg st = (plain (FocusEvent True) ''focus.gained'', (observe opts 1 st)\<lparr>sh_focused := True\<rparr>)"
| "decode_message opts now BlurMsg st = (plain (FocusEvent False) ''focus.lost'', (observe opts 1 st)\<lparr>sh_focused := False\<rparr>)"
| "decode_message opts now (SettleMsg gen started) st =
     (let d = (quiet (Some (TimerEvent ''resize.settle'' gen)) ''resize.settled'' ''applied'')\<lparr>dc_duration := now - started\<rparr> in
      if gen \<noteq> sh_resize_generation st then (d\<lparr>dc_outcome := ''stale''\<rparr>, st)
      else (d\<lparr>dc_render := True\<rparr>, st\<lparr>sh_settled := True\<rparr>))"
| "decode_message opts now (ResultMsg key gen corr r) st = decode_result key gen corr r st"
| "decode_message opts now (TimerMsg code gen) st =
     (if gen \<noteq> ld_timers (sh_ledger st) code then (quiet (Some (TimerEvent code gen)) ''timer.fired'' ''stale'', st)
      else ((plain (TimerEvent code gen) ''timer.fired'')\<lparr>dc_diagnostic := Some (TimerEvent code gen)\<rparr>, st))"
| "decode_message opts now MouseMsg st = (quiet None ''event.unsupported'' ''rejected'', observe opts 1 st)"
| "decode_message opts now (OtherMsg undecoded) st =
     (quiet None ''event.unsupported'' ''rejected'', if undecoded then observe opts 1 st else st)"

end
