(* ===== verification/ShellLoop.thy ===== *)
theory ShellLoop
  imports Shell
begin

text \<open>
  The rest of the shell's event loop: the keymap dispatch (ui/shell/keymap.go), the commands
  of the effects, the frame, and \<open>Update\<close> as a whole (ui/shell/shell.go).
\<close>

subsection \<open>Keymap dispatch\<close>

type_synonym ('s, 'w, 'v) dispatch = "('w, 'v) effect list \<times> 's shell"

definition on_keymap :: "(keymap_runtime \<Rightarrow> keymap_runtime) \<Rightarrow> 's shell \<Rightarrow> 's shell" where
  "on_keymap f st = st\<lparr>sh_keymap := map_option f (sh_keymap st)\<rparr>"

definition cancel_keys :: "'s shell \<Rightarrow> 's shell" where
  "cancel_keys = on_keymap cancel"

definition sync_keys :: "'s action_surface \<Rightarrow> int \<Rightarrow> 's shell \<Rightarrow> 's shell" where
  "sync_keys acts now st = on_keymap (\<lambda>r. sync r (as_context acts (sh_surface st)) now) st"

definition pending_keys :: "'s shell \<Rightarrow> sequence" where
  "pending_keys st = (case sh_keymap st of None \<Rightarrow> [] | Some r \<Rightarrow> rt_prefix r)"

definition capturing :: "('s, 'w, 'v) surface \<Rightarrow> 's shell \<Rightarrow> bool" where
  "capturing sf st = (case sf_capture sf of None \<Rightarrow> False | Some c \<Rightarrow> kc_active c (sh_surface st))"

definition capture_key :: "('s, 'w, 'v) surface \<Rightarrow> captured \<Rightarrow> 's shell \<Rightarrow> ('s, 'w, 'v) dispatch" where
  "capture_key sf k st =
     (case sf_capture sf of
        None \<Rightarrow> ([], st)
      | Some c \<Rightarrow>
          (let (efs, s, l) = kc_capture c shell_context k (sh_surface st) (sh_ledger st)
           in (efs, st\<lparr>sh_surface := s, sh_ledger := l\<rparr>)))"

text \<open>
  Both capture loops: strokes go to the surface until it stops capturing; a stroke that does
  not normalise is dropped.  (The first loop normalises before it looks whether the surface
  still captures; nothing changes in between.)
\<close>

fun capture_strokes :: "unicode \<Rightarrow> ('s, 'w, 'v) surface \<Rightarrow> string list \<Rightarrow> 's shell \<Rightarrow> ('s, 'w, 'v) dispatch" where
  "capture_strokes U sf [] st = ([], st)"
| "capture_strokes U sf (k # ks) st =
     (if \<not> capturing sf st then ([], st)
      else case normalize U k of
          Inl _ \<Rightarrow> capture_strokes U sf ks st
        | Inr n \<Rightarrow>
            (let (efs, st1) = capture_key sf (CapturedStroke n) st;
                 (efs', st2) = capture_strokes U sf ks st1
             in (efs @ efs', st2)))"

text \<open>The event a batch of strokes comes from: typed text, with its runes, or a key.\<close>

datatype batch = TextBatch (batch_runes: "int list") (batch_alt: bool) | KeyBatch

definition types_text :: "batch \<Rightarrow> bool" where
  "types_text b = (case b of TextBatch rs alt \<Rightarrow> \<not> alt | KeyBatch \<Rightarrow> False)"

definition dispatch_action ::
  "shell_options \<Rightarrow> ('s, 'w, 'v) surface \<Rightarrow> 's action_surface \<Rightarrow> int \<Rightarrow> string \<Rightarrow> 's shell \<Rightarrow> ('s, 'w, 'v) dispatch" where
  "dispatch_action opts sf acts now a st =
     (let before = visual sf st; (efs, st1) = surface_update sf (ActionEvent a) st;
          st2 = record_event opts ''action.invoked'' ''applied'' before (visual sf st1)
                  (describe_action a) 0 None st1
      in (efs, sync_keys acts now st2))"

definition step_keys :: "'s action_surface \<Rightarrow> stroke \<Rightarrow> int \<Rightarrow> 's shell \<Rightarrow> string \<times> bool \<times> 's shell" where
  "step_keys acts k now st =
     (case sh_keymap st of
        None \<Rightarrow> ([], False, st)
      | Some r \<Rightarrow>
          (let (a, used, r') = step_key r (as_context acts (sh_surface st)) k now
           in (a, used, st\<lparr>sh_keymap := Some r'\<rparr>)))"

definition is_quit :: "('w, 'v) effect \<Rightarrow> bool" where
  "is_quit e = (case e of QuitEffect \<Rightarrow> True | _ \<Rightarrow> False)"

text \<open>
  The main loop over the strokes; its number counts the strokes normalised before this one.
  The flag of the result tells whether the code goes on to schedule the prefix timer
  (it does not after a \<open>return\<close> inside the loop).
\<close>

fun dispatch_strokes ::
  "shell_options \<Rightarrow> ('s, 'w, 'v) surface \<Rightarrow> 's action_surface \<Rightarrow> batch \<Rightarrow> int \<Rightarrow> nat \<Rightarrow> string list \<Rightarrow> 's shell \<Rightarrow>
     ('w, 'v) effect list \<times> 's shell \<times> bool" where
  "dispatch_strokes opts sf acts b now n [] st = ([], st, True)"
| "dispatch_strokes opts sf acts b now n (k # ks) st =
     (case normalize (so_unicode opts) k of
        Inl _ \<Rightarrow> dispatch_strokes opts sf acts b now n ks st
      | Inr key \<Rightarrow>
          (if capturing sf st then
             (let (efs, st1) = capture_strokes (so_unicode opts) sf (k # ks) (cancel_keys st) in (efs, st1, False))
           else
             let ctx = as_context acts (sh_surface st) in
             if types_text b \<and> ctx_editing ctx \<and> pending_keys st = [] then
               (let (efs, st1) = surface_update sf (TextEvent (encode_runes (drop n (batch_runes b))) False False) st
                in (efs, st1, True))
             else
               let (a, used, st1) = step_keys acts key now st in
               if a \<noteq> [] \<and> st_enabled (as_state acts (sh_surface st1) a) then
                 (let (efs, st2) = dispatch_action opts sf acts now a st1 in
                  if list_ex is_quit efs then (efs, st2, False)
                  else
                    let (efs', st3, go) = dispatch_strokes opts sf acts b now (Suc n) ks st2 in (efs @ efs', st3, go))
               else
                 let (efs, st2) =
                   (if \<not> used \<and> ctx_editing ctx
                    then surface_update sf (TextEvent (if key = ''space'' then '' '' else key) False False) st1
                    else ([], st1));
                   (efs', st3, go) = dispatch_strokes opts sf acts b now (Suc n) ks st2
                 in (efs @ efs', st3, go)))"

definition prefix_timer :: string where "prefix_timer = ''keymap.prefix''"

definition schedule_prefix :: "int \<Rightarrow> 's shell \<Rightarrow> ('s, 'w, 'v) dispatch" where
  "schedule_prefix now st =
     (case sh_keymap st of
        None \<Rightarrow> ([], st)
      | Some r \<Rightarrow>
          (case rt_deadline r of
             None \<Rightarrow> ([], st)
           | Some d \<Rightarrow>
               (case start_timer shell_context (d - now) prefix_timer (sh_ledger st) of
                  (Inl _, l) \<Rightarrow> ([], st\<lparr>sh_ledger := l\<rparr>)
                | (Inr ef, l) \<Rightarrow> ([ef], st\<lparr>sh_ledger := l\<rparr>))))"

definition dispatch_batch ::
  "shell_options \<Rightarrow> ('s, 'w, 'v) surface \<Rightarrow> 's action_surface \<Rightarrow> batch \<Rightarrow> int \<Rightarrow> string list \<Rightarrow> 's shell \<Rightarrow>
     ('s, 'w, 'v) dispatch" where
  "dispatch_batch opts sf acts b now ks st =
     (if capturing sf st then capture_strokes (so_unicode opts) sf ks (cancel_keys st)
      else
        let (efs, st1, go) = dispatch_strokes opts sf acts b now 0 ks st in
        if go then (let (efs', st2) = schedule_prefix now st1 in (efs @ efs', st2)) else (efs, st1))"

text \<open>
  A typed text: its runes as strokes.  Every rune counts as an input observation, whether it
  is dispatched or dropped, but text that goes to a text entry whole counts once.
\<close>

definition dispatch_text ::
  "shell_options \<Rightarrow> ('s, 'w, 'v) surface \<Rightarrow> 's action_surface \<Rightarrow> string \<Rightarrow> bool \<Rightarrow> int \<Rightarrow> 's shell \<Rightarrow> ('s, 'w, 'v) dispatch" where
  "dispatch_text opts sf acts t alt now st =
     (let rs = runes t;
          ks = map (\<lambda>r. (if alt then ''alt+'' else []) @ encode_rune r) rs
      in if \<not> capturing sf st \<and> \<not> alt \<and> ctx_editing (as_context acts (sh_surface st)) \<and> pending_keys st = []
         then surface_update sf (TextEvent t False alt) (observe opts 1 st)
         else dispatch_batch opts sf acts (TextBatch rs alt) now ks (observe opts (length ks) st))"

definition dispatch_paste ::
  "shell_options \<Rightarrow> ('s, 'w, 'v) surface \<Rightarrow> 's action_surface \<Rightarrow> string \<Rightarrow> 's shell \<Rightarrow> ('s, 'w, 'v) dispatch" where
  "dispatch_paste opts sf acts t st =
     (let st' = cancel_keys (observe opts 1 st) in
      if capturing sf st' then capture_key sf CapturedPaste st'
      else if ctx_editing (as_context acts (sh_surface st')) then surface_update sf (TextEvent t True False) st'
      else ([], st'))"

definition dispatch_key ::
  "shell_options \<Rightarrow> ('s, 'w, 'v) surface \<Rightarrow> 's action_surface \<Rightarrow> string \<Rightarrow> bool \<Rightarrow> int \<Rightarrow> 's shell \<Rightarrow> ('s, 'w, 'v) dispatch" where
  "dispatch_key opts sf acts k alt now st =
     (if (k = ''ctrl-c'' \<or> k = ''ctrl+c'') \<and> \<not> alt then ([QuitEffect], cancel_keys st)
      else
        let name = (if k = ''ctrl-c'' then ''ctrl+c'' else k)
        in dispatch_batch opts sf acts KeyBatch now [(if alt then ''alt+'' else []) @ name] st)"

fun dispatch_event ::
  "shell_options \<Rightarrow> ('s, 'w, 'v) surface \<Rightarrow> 's action_surface \<Rightarrow> 'v shell_event \<Rightarrow> int \<Rightarrow> 's shell \<Rightarrow> ('s, 'w, 'v) dispatch" where
  "dispatch_event opts sf acts (FocusEvent f) now st =
     surface_update sf (FocusEvent f) (if f then st else cancel_keys st)"
| "dispatch_event opts sf acts (TimerEvent code gen) now st =
     (if code = prefix_timer then ([], st) else surface_update sf (TimerEvent code gen) st)"
| "dispatch_event opts sf acts (TextEvent t paste alt) now st =
     (if paste then dispatch_paste opts sf acts t st else dispatch_text opts sf acts t alt now st)"
| "dispatch_event opts sf acts (KeyEvent k alt) now st = dispatch_key opts sf acts k alt now st"
| "dispatch_event opts sf acts ev now st =
     (let (efs, st') = surface_update sf ev st in (efs, sync_keys acts now st'))"

definition dispatch_keymap ::
  "shell_options \<Rightarrow> ('s, 'w, 'v) surface \<Rightarrow> 's action_surface \<Rightarrow> 'v shell_event \<Rightarrow> int \<Rightarrow> 's shell \<Rightarrow> ('s, 'w, 'v) dispatch" where
  "dispatch_keymap opts sf acts ev now st =
     (let (efs, st') = dispatch_event opts sf acts ev now (sync_keys acts now st) in (efs, sync_keys acts now st'))"

subsection \<open>Commands\<close>

definition start_request ::
  "shell_options \<Rightarrow> ('s, 'w, 'v) surface \<Rightarrow> string \<Rightarrow> 64 word \<Rightarrow> string \<Rightarrow> string \<Rightarrow> ('w, 'v) work \<Rightarrow> 's shell \<Rightarrow>
     ('w, 'v) command \<times> 's shell" where
  "start_request opts sf key gen corr prev work st =
     (let v = visual sf st;
          note' = (\<lambda>code outcome g c. record_event opts code outcome v v (describe_request key g c) 0 None);
          st1 = (case map_of (sh_cancels st) key of
                   None \<Rightarrow> st
                 | Some c \<Rightarrow> note' ''request.cancelled'' ''cancelled'' (gen - 1) prev
                     (st\<lparr>sh_cancelled := insert c (sh_cancelled st)\<rparr>));
          ctx = sh_contexts st1;
          st2 = st1\<lparr>sh_contexts := Suc ctx, sh_cancels := AList.update key ctx (sh_cancels st1)\<rparr>
      in (RunCommand ctx key gen corr work, note' ''request.started'' ''applied'' gen corr st2))"

fun run_effect ::
  "shell_options \<Rightarrow> ('s, 'w, 'v) surface \<Rightarrow> ('w, 'v) effect \<Rightarrow> 's shell \<Rightarrow> ('w, 'v) command \<times> 's shell" where
  "run_effect opts sf (WorkEffect key gen corr prev work) st = start_request opts sf key gen corr prev work st"
| "run_effect opts sf (TimerEffect code gen delay) st =
     (TimerCommand delay code gen,
      record_event opts ''timer.scheduled'' ''applied'' (visual sf st) (visual sf st)
        (describe_timer code gen) delay None st)"
| "run_effect opts sf QuitEffect st =
     (QuitCommand,
      record_event opts ''program.quit'' ''applied'' (visual sf st) (visual sf st) id 0 None
        (st\<lparr>sh_cancelled := sh_cancelled st \<union> snd ` set (AList.clearjunk (sh_cancels st))\<rparr>))"

definition suppresses_effect :: "('s, 'w, 'v) surface \<Rightarrow> ('w, 'v) effect \<Rightarrow> 's shell \<Rightarrow> bool" where
  "suppresses_effect sf e st = (case sf_filter sf of None \<Rightarrow> False | Some f \<Rightarrow> df_effect f (sh_surface st) e)"

definition suppresses_event :: "('s, 'w, 'v) surface \<Rightarrow> 'v shell_event \<Rightarrow> 's shell \<Rightarrow> bool" where
  "suppresses_event sf ev st = (case sf_filter sf of None \<Rightarrow> False | Some f \<Rightarrow> df_event f (sh_surface st) ev)"

fun run_effects ::
  "shell_options \<Rightarrow> ('s, 'w, 'v) surface \<Rightarrow> ('w, 'v) effect list \<Rightarrow> 's shell \<Rightarrow> ('w, 'v) command list \<times> 's shell" where
  "run_effects opts sf [] st = ([], st)"
| "run_effects opts sf (e # es) st =
     (let (c, st1) = run_effect opts sf e (if suppresses_effect sf e st then st\<lparr>sh_suppress := True\<rparr> else st);
          (cs, st2) = run_effects opts sf es (st1\<lparr>sh_suppress := sh_suppress st\<rparr>)
      in (c # cs, st2))"

subsection \<open>Drawing\<close>

definition show_int :: "int \<Rightarrow> string" where
  "show_int n = (if n < 0 then ''-'' @ show_nat (nat (- n)) else show_nat (nat n))"

definition recovery_message :: "layout \<Rightarrow> bool \<Rightarrow> string" where
  "recovery_message la failed =
     (if failed then ''UI unavailable''
      else ''Window '' @ show_int (columns (reported la)) @ ''x'' @ show_int (rows (reported la)) @
        (if lay_class la = Recovery then '' '' @ [CHR 0xC2, CHR 0xB7] @ '' expand to at least 40x10'' else []))"

definition recovery_frame :: "shell_options \<Rightarrow> layout \<Rightarrow> bool \<Rightarrow> frame" where
  "recovery_frame opts la failed =
     (let w = max 1 (columns (render_size la)); h = max 1 (rows (render_size la))
      in so_draw opts w h (recovery_message la failed) (h > 1))"

definition measured :: "fit_report \<Rightarrow> bool" where
  "measured r \<longleftrightarrow> (case fit_observations r of None \<Rightarrow> False | Some xs \<Rightarrow> xs \<noteq> []) \<or> fit_omitted r > 0"

definition clear_screen :: string where "clear_screen = [CHR 0x1B] @ ''[2J'' @ [CHR 0x1B] @ ''[H''"

definition render_shell :: "shell_options \<Rightarrow> ('s, 'w, 'v) surface \<Rightarrow> int \<Rightarrow> 's shell \<Rightarrow> 's shell" where
  "render_shell opts sf elapsed st =
     (let la = sh_layout st;
          ((drawn, failed), s) = sf_render sf \<lparr>rc_layout = la, rc_focused = sh_focused st,
             rc_generation = sh_resize_generation st, rc_settled = sh_settled st\<rparr> (sh_surface st);
          broken = (failed \<or> (case drawn of None \<Rightarrow> True
             | Some f \<Rightarrow> fr_width f \<noteq> columns (render_size la) \<or> fr_height f \<noteq> rows (render_size la)));
          shown = (case drawn of
              Some f \<Rightarrow> if lay_class la = Recovery \<or> broken then recovery_frame opts la failed else f
            | None \<Rightarrow> recovery_frame opts la failed);
          st1 = st\<lparr>sh_surface := s, sh_rendered := (if projected la then clear_screen else []) @ fr_ansi shown\<rparr>
      in record_event opts ''render.completed'' (if broken then ''failed'' else ''applied'') (visual sf st1) (visual sf st1)
           id elapsed (if measured (fr_fit shown) then Some (fr_fit shown) else None) st1)"

subsection \<open>Update\<close>

definition dispatch_decoded ::
  "shell_options \<Rightarrow> ('s, 'w, 'v) surface \<Rightarrow> int \<Rightarrow> 'v shell_event option \<Rightarrow> 's shell \<Rightarrow> ('s, 'w, 'v) dispatch" where
  "dispatch_decoded opts sf now ev st =
     (case ev of
        None \<Rightarrow> ([], st)
      | Some e \<Rightarrow>
          (let st' = (if sf_filter sf = None then st else st\<lparr>sh_suppress := suppresses_event sf e st\<rparr>) in
           case (sh_keymap st', sf_actions sf) of
             (Some _, Some acts) \<Rightarrow> dispatch_keymap opts sf acts e now st'
           | _ \<Rightarrow> surface_update sf e st'))"

definition is_input :: "'v shell_event \<Rightarrow> bool" where
  "is_input ev = (case ev of KeyEvent _ _ \<Rightarrow> True | TextEvent _ _ _ \<Rightarrow> True | _ \<Rightarrow> False)"

definition diagnostic_event :: "('w, 'v) decoded \<Rightarrow> 's shell \<Rightarrow> 'v shell_event option" where
  "diagnostic_event d st =
     (let ev = (if dc_diagnostic d = None then dc_event d else dc_diagnostic d) in
      case ev of None \<Rightarrow> None | Some e \<Rightarrow> if sh_keymap st \<noteq> None \<and> is_input e then None else Some e)"

text \<open>The clock is read when the message arrives and after the frame is drawn.\<close>

definition shell_update ::
  "shell_options \<Rightarrow> ('s, 'w, 'v) surface \<Rightarrow> int \<Rightarrow> int \<Rightarrow> 'v shell_message \<Rightarrow> 's shell \<Rightarrow> ('w, 'v) command list \<times> 's shell" where
  "shell_update opts sf received drawn msg st =
     (let st0 = st\<lparr>sh_suppress := False\<rparr>;
          before = visual sf st0;
          (d, st1) = decode_message opts received msg st0;
          (efs, st2) = dispatch_decoded opts sf received (dc_event d) st1;
          ev = diagnostic_event d st2;
          st3 = (case ev of None \<Rightarrow> st2 | Some e \<Rightarrow> if suppresses_event sf e st2 then st2\<lparr>sh_suppress := True\<rparr> else st2);
          st4 = record_event opts (dc_code d) (dc_outcome d) before (visual sf st3) (describe_event (so_segmenter opts) ev) (dc_duration d) None st3;
          (cs, st5) = run_effects opts sf efs st4;
          commands = (case dc_extra d of None \<Rightarrow> cs | Some c \<Rightarrow> cs @ [c]);
          st6 = (if dc_render d then render_shell opts sf (drawn - received) st5 else st5)
      in (commands, st6\<lparr>sh_suppress := False\<rparr>))"

end
