(* ===== verification/ShellRuns.thy ===== *)
theory ShellRuns
  imports ShellLoop
begin

text \<open>
  What a surface may do with the event context, and what the shell makes of it.

  A surface changes the ledger only through the event context and returns only effects it got
  from it (their fields are private in Go).  \<open>emits n\<close> says that and more, what every kit
  surface does: the effects of an update are issued during that update, each returned at
  most once and in the order of issue, at most \<open>n\<close> requests among them.  The locale
  \<open>kit_surface\<close> is this contract; its theorems are about the requests in flight.
\<close>

inductive emits :: "nat \<Rightarrow> ledger \<Rightarrow> ('w, 'v) effect list \<Rightarrow> ledger \<Rightarrow> bool" where
  emits_done: "emits n l [] l"
| emits_quit: "emits n l es l' \<Longrightarrow> emits n l (QuitEffect # es) l'"
| emits_work: "start_work ctx k (Some w) l = (Inr e, l1) \<Longrightarrow> emits n l1 es l2 \<Longrightarrow> emits (Suc n) l (e # es) l2"
| emits_lost_work: "start_work ctx k (Some w) l = (Inr (e :: ('w, 'v) effect), l1) \<Longrightarrow> emits n l1 es l2 \<Longrightarrow> emits (Suc n) l es l2"
| emits_timer: "start_timer ctx d c l = (Inr e, l1) \<Longrightarrow> emits n l1 es l2 \<Longrightarrow> emits n l (e # es) l2"
| emits_lost_timer: "start_timer ctx d c l = (Inr (e :: ('w, 'v) effect), l1) \<Longrightarrow> emits n l1 es l2 \<Longrightarrow> emits n l es l2"

lemma emits_mono: "emits n l es l' \<Longrightarrow> n \<le> m \<Longrightarrow> emits m l es l'"
proof (induction arbitrary: m rule: emits.induct)
  case (emits_work ctx k w l e l1 n es l2)
  then obtain m' where "m = Suc m'" "n \<le> m'" by (cases m) auto
  then show ?case using emits_work by (auto intro: emits.emits_work)
next
  case (emits_lost_work ctx k w l e l1 n es l2)
  then obtain m' where "m = Suc m'" "n \<le> m'" by (cases m) auto
  then show ?case using emits_lost_work by (auto intro: emits.emits_lost_work)
qed (auto intro: emits.intros)

lemma emits_append: "emits n l es l' \<Longrightarrow> emits m l' es' l'' \<Longrightarrow> emits (n + m) l (es @ es') l''"
proof (induction arbitrary: rule: emits.induct)
  case (emits_done n l)
  then show ?case by (auto intro: emits_mono)
qed (auto intro: emits.intros)

lemma emits_one_work: "start_work ctx k w l = (Inr e, l1) \<Longrightarrow> emits 1 l [e] l1"
  unfolding One_nat_def by (cases w) (auto simp: start_work_Inr intro!: emits_work emits_done)

lemma emits_one_timer: "start_timer ctx d c l = (Inr e, l1) \<Longrightarrow> emits n l [e] l1"
  by (auto intro: emits.intros)

lemma start_timer_Inr:
  "start_timer ctx d c l = (Inr e, l') \<longleftrightarrow> ec_after ctx \<and> 0 < d \<and> c \<noteq> [] \<and> e = TimerEffect c (ld_timers l c + 1) d \<and>
     l' = l\<lparr>ld_timers := (ld_timers l)(c := ld_timers l c + 1)\<rparr>"
  by (auto simp: start_timer_def Let_def)

lemma start_timer_Inl: "start_timer ctx d c l = (Inl x, l') \<Longrightarrow> l' = l"
  by (auto simp: start_timer_def Let_def split: if_splits)

subsection \<open>Generations\<close>

definition requests :: "('w, 'v) effect list \<Rightarrow> string \<Rightarrow> nat list" where
  "requests es k = map (unat \<circ> ef_generation) (filter (\<lambda>e. (case e of WorkEffect k' _ _ _ _ \<Rightarrow> k' = k | _ \<Rightarrow> False)) es)"

definition bounded :: "nat \<Rightarrow> ledger \<Rightarrow> bool" where
  "bounded b l \<longleftrightarrow> (\<forall>k. unat (ld_requests l k) \<le> b)"

text \<open>The generations of one key are issued in ascending order, above the ledger's before and
  up to the ledger's after.\<close>

lemma requests_simps:
  "requests [] k = []" "requests (QuitEffect # es) k = requests es k" "requests (TimerEffect c g d # es) k = requests es k"
  "requests (WorkEffect k' g c p w # es) k = (if k' = k then unat g # requests es k else requests es k)"
  by (simp_all add: requests_def)

definition ascends :: "ledger \<Rightarrow> ('w, 'v) effect list \<Rightarrow> ledger \<Rightarrow> bool" where
  "ascends l es l' \<longleftrightarrow> (\<forall>k. sorted_wrt (<) (requests es k) \<and>
     (\<forall>g \<in> set (requests es k). unat (ld_requests l k) < g \<and> g \<le> unat (ld_requests l' k)) \<and>
     unat (ld_requests l k) \<le> unat (ld_requests l' k))"

lemma ascends_start:
  assumes "start_work ctx k (Some w) l = (Inr e, l1)" and "ascends l1 es l2" and "bounded b l" and "b < 2 ^ 64 - 1"
  shows "ascends l (e # es) l2" and "ascends l es l2"
proof -
  have less: "unat (ld_requests l k) < 2 ^ 64 - 1" using assms(3,4) by (meson bounded_def le_less_trans)
  have l1: "ld_requests l1 = (ld_requests l)(k := ld_requests l k + 1)"
    "\<exists>c p. e = WorkEffect k (ld_requests l k + 1) c p w" using assms(1) by (auto simp: start_work_Inr)
  have up: "unat (ld_requests l k + 1) = unat (ld_requests l k) + 1" using less by (simp add: unat_word_ariths)
  have asc: "sorted_wrt (<) (requests es x)" "g \<in> set (requests es x) \<Longrightarrow> unat (ld_requests l1 x) < g \<and> g \<le> unat (ld_requests l2 x)"
    "unat (ld_requests l1 x) \<le> unat (ld_requests l2 x)" for x g using assms(2) by (auto simp: ascends_def)
  have grow: "unat (ld_requests l x) \<le> unat (ld_requests l1 x)" for x using l1(1) up by simp
  show "ascends l es l2" unfolding ascends_def using asc grow by (meson le_less_trans le_trans)
  have first: "g \<in> set (requests es k) \<Longrightarrow> unat (ld_requests l k) + 1 < g" for g using asc(2) [of g k] l1(1) up by simp
  have last: "unat (ld_requests l k) + 1 \<le> unat (ld_requests l2 k)" using asc(3) [of k] l1(1) up by simp
  show "ascends l (e # es) l2"
    unfolding ascends_def
  proof (intro allI conjI)
    fix x
    obtain c p where e: "e = WorkEffect k (ld_requests l k + 1) c p w" using l1(2) by blast
    show "sorted_wrt (<) (requests (e # es) x)" using asc(1) [of x] first up by (auto simp: e requests_simps)
    show "\<forall>g \<in> set (requests (e # es) x). unat (ld_requests l x) < g \<and> g \<le> unat (ld_requests l2 x)"
      using \<open>ascends l es l2\<close> last up by (auto simp: e requests_simps ascends_def)
    show "unat (ld_requests l x) \<le> unat (ld_requests l2 x)" using asc(3) grow le_trans by blast
  qed
qed

lemma bounded_start:
  assumes "start_work ctx k (Some w) l = (Inr (e :: ('w, 'v) effect), l1)" and "bounded b l"
  shows "bounded (Suc b) l1"
proof -
  have "ld_requests l1 = (ld_requests l)(k := ld_requests l k + 1)" using assms(1) by (auto simp: start_work_Inr)
  moreover have "unat (ld_requests l k + 1) \<le> Suc (unat (ld_requests l k))"
    by (simp add: unat_word_ariths)
  ultimately show ?thesis using assms(2) by (auto simp: bounded_def intro: le_SucI le_trans)
qed

lemma emits_ascends:
  "emits n l es l' \<Longrightarrow> bounded b l \<Longrightarrow> b + n < 2 ^ 64 \<Longrightarrow> ascends l es l' \<and> bounded (b + n) l'"
proof (induction arbitrary: b rule: emits.induct)
  case (emits_done n l)
  then show ?case by (auto simp: ascends_def requests_simps bounded_def intro: trans_le_add1)
next
  case (emits_quit n l es l')
  then show ?case by (auto simp: ascends_def requests_simps)
next
  case (emits_work ctx k w l e l1 n es l2)
  have "ascends l1 es l2 \<and> bounded (Suc b + n) l2"
    using emits_work.IH [of "Suc b"] bounded_start [OF emits_work.hyps(1) emits_work.prems(1)] emits_work.prems(2) by simp
  then show ?case using ascends_start(1) [OF emits_work.hyps(1) _ emits_work.prems(1)] emits_work.prems(2) by simp
next
  case (emits_lost_work ctx k w l e l1 n es l2)
  have "ascends l1 es l2 \<and> bounded (Suc b + n) l2"
    using emits_lost_work.IH [of "Suc b"] bounded_start [OF emits_lost_work.hyps(1) emits_lost_work.prems(1)]
      emits_lost_work.prems(2) by simp
  then show ?case using ascends_start(2) [OF emits_lost_work.hyps(1) _ emits_lost_work.prems(1)] emits_lost_work.prems(2) by simp
next
  case (emits_timer ctx d c l e l1 n es l2)
  have "ld_requests l1 = ld_requests l" "\<exists>c g d. e = TimerEffect c g d" using emits_timer.hyps(1) by (auto simp: start_timer_Inr)
  then show ?case using emits_timer.IH [of b] emits_timer.prems by (auto simp: ascends_def bounded_def requests_simps)
next
  case (emits_lost_timer ctx d c l e l1 n es l2)
  have "ld_requests l1 = ld_requests l" using emits_lost_timer.hyps(1) by (auto simp: start_timer_Inr)
  then show ?case using emits_lost_timer.IH [of b] emits_lost_timer.prems by (auto simp: ascends_def bounded_def)
qed

section \<open>Runs\<close>

text \<open>
  The shell with its commands in flight: the contract \<open>kit_surface\<close>, what an update then
  does to the ledger, and the invariant of requests, contexts and cancellations.
\<close>

subsection \<open>What small steps leave alone\<close>

lemma keymap_ledger [simp]:
  "sh_ledger (on_keymap f st) = sh_ledger st" "sh_ledger (sync_keys acts now st) = sh_ledger st"
  "sh_ledger (cancel_keys st) = sh_ledger st" "sh_ledger (observe opts n st) = sh_ledger st"
  by (simp_all add: on_keymap_def sync_keys_def cancel_keys_def observe_def)

lemma keymap_surface [simp]:
  "sh_surface (on_keymap f st) = sh_surface st" "sh_surface (sync_keys acts now st) = sh_surface st"
  "sh_surface (cancel_keys st) = sh_surface st" "sh_surface (observe opts n st) = sh_surface st"
  by (simp_all add: on_keymap_def sync_keys_def cancel_keys_def observe_def)

lemma record_fields [simp]:
  "sh_ledger (record_event opts c oc b a f d t st) = sh_ledger st"
  "sh_surface (record_event opts c oc b a f d t st) = sh_surface st"
  "sh_contexts (record_event opts c oc b a f d t st) = sh_contexts st"
  "sh_cancels (record_event opts c oc b a f d t st) = sh_cancels st"
  "sh_cancelled (record_event opts c oc b a f d t st) = sh_cancelled st"
  "sh_keymap (record_event opts c oc b a f d t st) = sh_keymap st"
  by (simp_all add: record_event_def Let_def)

text \<open>The part of the state that belongs to requests in flight.\<close>

definition contexts_of :: "'s shell \<Rightarrow> nat \<times> (string \<times> nat) list \<times> nat set" where
  "contexts_of st = (sh_contexts st, sh_cancels st, sh_cancelled st)"

lemma contexts_simps [simp]:
  "contexts_of (on_keymap f st) = contexts_of st" "contexts_of (sync_keys acts now st) = contexts_of st"
  "contexts_of (cancel_keys st) = contexts_of st" "contexts_of (observe opts n st) = contexts_of st"
  "contexts_of (record_event opts c oc b a g d t st) = contexts_of st"
  "contexts_of (st\<lparr>sh_ledger := l\<rparr>) = contexts_of st" "contexts_of (st\<lparr>sh_surface := s\<rparr>) = contexts_of st"
  "contexts_of (st\<lparr>sh_keymap := r\<rparr>) = contexts_of st" "contexts_of (st\<lparr>sh_suppress := x\<rparr>) = contexts_of st"
  by (simp_all add: contexts_of_def on_keymap_def sync_keys_def cancel_keys_def observe_def)

definition event_weight :: "'v shell_event \<Rightarrow> nat" where
  "event_weight ev = (case ev of TextEvent t _ _ \<Rightarrow> max 1 (rune_count t) | _ \<Rightarrow> 1)"

subsection \<open>Dispatching a message\<close>

text \<open>
  A relation \<open>R n\<close> between the state and ledger of a surface before and after, and the effects
  in between, that holds of every update (\<open>P\<close> tells of which events), composes, and allows a
  quit or a timer of the shell: it holds of a whole dispatch, with as many updates as the
  event has strokes.
\<close>

locale dispatched =
  fixes sf :: "('s, 'w, 'v) surface"
    and R :: "nat \<Rightarrow> 's \<Rightarrow> ledger \<Rightarrow> ('w, 'v) effect list \<Rightarrow> 's \<Rightarrow> ledger \<Rightarrow> bool"
    and P :: "'v shell_event \<Rightarrow> bool"
  assumes R_nothing: "R n s l [] s l"
    and R_append: "R n s l es s' l' \<Longrightarrow> R m s' l' es' s'' l'' \<Longrightarrow> R (n + m) s l (es @ es') s'' l''"
    and R_mono: "R n s l es s' l' \<Longrightarrow> n \<le> m \<Longrightarrow> R m s l es s' l'"
    and R_update: "P ev \<Longrightarrow> sf_update sf shell_context ev s l = (es, s', l') \<Longrightarrow> R 1 s l es s' l'"
    and R_capture: "sf_capture sf = Some c \<Longrightarrow> kc_capture c shell_context k s l = (es, s', l') \<Longrightarrow> R 1 s l es s' l'"
    and R_timer: "start_timer shell_context d code l = (Inr e, l') \<Longrightarrow> R n s l [e] s l'"
    and R_quit: "R n s l [QuitEffect] s l"
    and P_input: "\<not> is_result ev \<Longrightarrow> P ev"
begin

definition issues :: "nat \<Rightarrow> 's shell \<Rightarrow> ('w, 'v) effect list \<Rightarrow> 's shell \<Rightarrow> bool" where
  "issues n st efs st' \<longleftrightarrow> R n (sh_surface st) (sh_ledger st) efs (sh_surface st') (sh_ledger st') \<and>
     contexts_of st' = contexts_of st"

lemma issues_append: "issues n st es st1 \<Longrightarrow> issues m st1 es' st2 \<Longrightarrow> issues (n + m) st (es @ es') st2"
  by (auto simp: issues_def intro: R_append)

lemma issues_mono: "issues n st es st' \<Longrightarrow> n \<le> m \<Longrightarrow> issues m st es st'"
  by (auto simp: issues_def intro: R_mono)

definition alike :: "'s shell \<Rightarrow> 's shell \<Rightarrow> bool" where
  "alike st' st \<longleftrightarrow> sh_surface st' = sh_surface st \<and> sh_ledger st' = sh_ledger st \<and> contexts_of st' = contexts_of st"

lemma alike_simps [simp]:
  "alike st st" "alike (on_keymap f st) st' = alike st st'" "alike (sync_keys acts now st) st' = alike st st'"
  "alike (cancel_keys st) st' = alike st st'" "alike (observe opts n st) st' = alike st st'"
  "alike (record_event opts c oc b a g d t st) st' = alike st st'"
  by (simp_all add: alike_def)

lemma issues_nothing: "alike st' st \<Longrightarrow> issues n st [] st'"
  using R_nothing by (auto simp: issues_def alike_def)

lemma issues_left: "issues n st1 es st2 \<Longrightarrow> alike st1 st \<Longrightarrow> issues n st es st2"
  by (simp add: issues_def alike_def)

lemma issues_right: "issues n st es st1 \<Longrightarrow> alike st2 st1 \<Longrightarrow> issues n st es st2"
  by (simp add: issues_def alike_def)

lemma surface_update_issues: "P ev \<Longrightarrow> surface_update sf ev st = (efs, st') \<Longrightarrow> issues 1 st efs st'"
  by (auto simp: surface_update_def issues_def contexts_of_def split: prod.splits dest: R_update)

lemma capture_key_issues: "capture_key sf k st = (efs, st') \<Longrightarrow> issues 1 st efs st'"
  by (auto simp: capture_key_def issues_def contexts_of_def split: prod.splits option.splits dest: R_capture intro: R_nothing)

lemma input_events [simp]: "P (ActionEvent a)" "P (TextEvent t paste alt)" "P (KeyEvent k alt)" "P (FocusEvent f)"
  "P (TimerEvent code gen)" "P (ResizeEvent la gen)"
  by (rule P_input; simp add: is_result_def)+

lemma capture_strokes_issues: "capture_strokes U sf ks st = (efs, st') \<Longrightarrow> issues (length ks) st efs st'"
proof (induction ks arbitrary: st efs st')
  case Nil
  then show ?case by (simp add: issues_nothing)
next
  case (Cons k ks)
  show ?case
  proof (cases "capturing sf st")
    case False
    then show ?thesis using Cons.prems by (simp add: issues_nothing)
  next
    case True
    show ?thesis
    proof (cases "normalize U k")
      case (Inl e)
      then have "capture_strokes U sf ks st = (efs, st')" using Cons.prems True by simp
      then show ?thesis using issues_mono [OF Cons.IH] by simp
    next
      case (Inr n)
      obtain es1 st1 where one: "capture_key sf (CapturedStroke n) st = (es1, st1)" by fastforce
      obtain es2 st2 where two: "capture_strokes U sf ks st1 = (es2, st2)" by fastforce
      have "efs = es1 @ es2" "st' = st2" using Cons.prems True Inr one two by simp_all
      then show ?thesis using issues_append [OF capture_key_issues [OF one] Cons.IH [OF two]] by simp
    qed
  qed
qed

lemma dispatch_action_issues:
  assumes "dispatch_action opts sf acts now a st = (efs, st')"
  shows "issues 1 st efs st'"
proof -
  obtain es st1 where up: "surface_update sf (ActionEvent a) st = (es, st1)" by fastforce
  have "efs = es" "alike st' st1" using assms by (auto simp: dispatch_action_def Let_def up)
  then show ?thesis using issues_right [OF surface_update_issues [OF _ up]] by simp
qed

lemma step_keys_fields:
  assumes "step_keys acts k now st = (a, used, st')"
  shows "alike st' st"
  using assms by (auto simp: step_keys_def alike_def contexts_of_def split: option.splits prod.splits)

lemma dispatch_strokes_issues:
  "dispatch_strokes opts sf acts b now n ks st = (efs, st', go) \<Longrightarrow> issues (length ks) st efs st'"
proof (induction ks arbitrary: n st efs st' go)
  case Nil
  then show ?case by (simp add: issues_nothing)
next
  case (Cons k ks)
  note run = Cons.prems
  show ?case
  proof (cases "normalize (so_unicode opts) k")
    case (Inl e)
    then have "dispatch_strokes opts sf acts b now n ks st = (efs, st', go)" using run by simp
    then show ?thesis using issues_mono [OF Cons.IH] by simp
  next
    case (Inr key)
    let ?ctx = "as_context acts (sh_surface st)"
    let ?entry = "types_text b \<and> ctx_editing ?ctx \<and> pending_keys st = []"
    obtain a used st1 where sk: "step_keys acts key now st = (a, used, st1)" by (metis prod_cases3)
    note f1 = step_keys_fields [OF sk]
    consider (capture) "capturing sf st" | (entry) "\<not> capturing sf st" ?entry
      | (act) "\<not> capturing sf st" "\<not> ?entry" "a \<noteq> [] \<and> st_enabled (as_state acts (sh_surface st1) a)"
      | (other) "\<not> capturing sf st" "\<not> ?entry" "\<not> (a \<noteq> [] \<and> st_enabled (as_state acts (sh_surface st1) a))" by blast
    then show ?thesis
    proof cases
      case capture
      then have "capture_strokes (so_unicode opts) sf (k # ks) (cancel_keys st) = (efs, st')"
        using run Inr by (auto simp: Let_def simp del: capture_strokes.simps split: prod.splits)
      from issues_left [OF capture_strokes_issues [OF this]] show ?thesis by simp
    next
      case entry
      then have "surface_update sf (TextEvent (encode_runes (drop n (batch_runes b))) False False) st = (efs, st')"
        using run Inr by (auto simp: Let_def split: prod.splits)
      from issues_mono [OF surface_update_issues [OF _ this]] show ?thesis by simp
    next
      case act
      obtain es st2 where inv: "dispatch_action opts sf acts now a st1 = (es, st2)" by fastforce
      have head: "issues 1 st es st2" using issues_left [OF dispatch_action_issues [OF inv]] f1 by simp
      obtain es' st3 go' where rest: "dispatch_strokes opts sf acts b now (Suc n) ks st2 = (es', st3, go')" by (metis prod_cases3)
      have "(efs = es \<and> st' = st2) \<or> (efs = es @ es' \<and> st' = st3)"
        using run Inr act sk inv rest by (auto simp: Let_def split: if_splits)
      then show ?thesis using head issues_mono [OF head] issues_append [OF head Cons.IH [OF rest]] by auto
    next
      case other
      obtain es st2 where mid: "(if \<not> used \<and> ctx_editing ?ctx
          then surface_update sf (TextEvent (if key = ''space'' then '' '' else key) False False) st1 else ([], st1)) = (es, st2)"
        by fastforce
      have "issues 1 st1 es st2" using mid
        by (auto intro: issues_nothing surface_update_issues [OF input_events(2), unfolded One_nat_def] split: if_splits)
      then have head: "issues 1 st es st2" using issues_left f1 by blast
      obtain es' st3 go' where rest: "dispatch_strokes opts sf acts b now (Suc n) ks st2 = (es', st3, go')" by (metis prod_cases3)
      have "efs = es @ es'" "st' = st3"
        using run other by (simp_all only: dispatch_strokes.simps Inr sum.case Let_def sk mid rest if_False prod.case prod.inject)
      then show ?thesis using issues_append [OF head Cons.IH [OF rest]] by simp
    qed
  qed
qed

lemma schedule_prefix_issues: "schedule_prefix now st = (efs, st') \<Longrightarrow> issues n st efs st'"
  by (auto simp: schedule_prefix_def issues_def split: option.splits prod.splits sum.splits
      intro: R_timer R_nothing dest!: start_timer_Inl)

lemma dispatch_batch_issues:
  assumes "dispatch_batch opts sf acts b now ks st = (efs, st')"
  shows "issues (length ks) st efs st'"
proof (cases "capturing sf st")
  case True
  then have "capture_strokes (so_unicode opts) sf ks (cancel_keys st) = (efs, st')" using assms by (simp add: dispatch_batch_def)
  from issues_left [OF capture_strokes_issues [OF this]] show ?thesis by simp
next
  case False
  obtain es st1 go where d: "dispatch_strokes opts sf acts b now 0 ks st = (es, st1, go)" by (metis prod_cases3)
  obtain es' :: "('w, 'v) effect list" and st2 where p: "schedule_prefix now st1 = (es', st2)" by fastforce
  note one = dispatch_strokes_issues [OF d]
  have "(efs = es @ es' \<and> st' = st2) \<or> (efs = es \<and> st' = st1)"
    using assms False by (auto simp: dispatch_batch_def d p Let_def split: if_splits)
  then show ?thesis using one issues_append [OF one schedule_prefix_issues [OF p, of 0]] by auto
qed

lemma dispatch_text_issues:
  assumes "dispatch_text opts sf acts t alt now st = (efs, st')"
  shows "issues (max 1 (rune_count t)) st efs st'"
proof -
  have "surface_update sf (TextEvent t False alt) (observe opts 1 st) = (efs, st') \<or>
      (\<exists>b ks n. length ks = rune_count t \<and> dispatch_batch opts sf acts b now ks (observe opts n st) = (efs, st'))"
    using assms by (auto simp: dispatch_text_def Let_def rune_count_def runes_def split: if_splits)
  then show ?thesis
  proof (elim disjE exE conjE)
    assume "surface_update sf (TextEvent t False alt) (observe opts 1 st) = (efs, st')"
    from issues_mono [OF issues_left [OF surface_update_issues [OF _ this]]] show ?thesis by simp
  next
    fix b ks n
    assume len: "length ks = rune_count t" and "dispatch_batch opts sf acts b now ks (observe opts n st) = (efs, st')"
    from issues_mono [OF issues_left [OF dispatch_batch_issues [OF this(2)]]] len show ?thesis by simp
  qed
qed

lemma dispatch_paste_issues:
  assumes "dispatch_paste opts sf acts t st = (efs, st')"
  shows "issues 1 st efs st'"
proof -
  let ?st = "cancel_keys (observe opts 1 st)"
  have "capture_key sf CapturedPaste ?st = (efs, st') \<or> surface_update sf (TextEvent t True False) ?st = (efs, st') \<or>
      (efs = [] \<and> st' = ?st)"
    using assms by (auto simp: dispatch_paste_def Let_def split: if_splits)
  then show ?thesis
  proof (elim disjE)
    assume "capture_key sf CapturedPaste ?st = (efs, st')"
    from issues_left [OF capture_key_issues [OF this]] show ?thesis by simp
  next
    assume "surface_update sf (TextEvent t True False) ?st = (efs, st')"
    from issues_left [OF surface_update_issues [OF _ this]] show ?thesis by simp
  qed (simp add: issues_nothing)
qed

lemma dispatch_key_issues:
  assumes "dispatch_key opts sf acts k alt now st = (efs, st')"
  shows "issues 1 st efs st'"
proof (cases "(k = ''ctrl-c'' \<or> k = ''ctrl+c'') \<and> \<not> alt")
  case True
  then have "efs = [QuitEffect]" "st' = cancel_keys st" using assms by (simp_all add: dispatch_key_def)
  then show ?thesis using R_quit by (auto simp: issues_def)
next
  case False
  then show ?thesis using assms dispatch_batch_issues by (force simp: dispatch_key_def Let_def)
qed

lemma dispatch_event_issues:
  assumes "dispatch_event opts sf acts ev now st = (efs, st')" and "P ev"
  shows "issues (event_weight ev) st efs st'"
proof -
  have sync: "issues 1 st efs st'"
    if "(let (es, st1) = surface_update sf e st in (es, sync_keys acts now st1)) = (efs, st')" and "P e" for e
  proof -
    obtain es st1 where up: "surface_update sf e st = (es, st1)" by fastforce
    have "efs = es" "st' = sync_keys acts now st1" using that by (simp_all add: up)
    then show ?thesis using issues_right [OF surface_update_issues [OF that(2) up]] by simp
  qed
  show ?thesis
  proof (cases ev)
    case (FocusEvent f)
    have up: "surface_update sf (FocusEvent f) (if f then st else cancel_keys st) = (efs, st')" using assms FocusEvent by simp
    from issues_left [OF surface_update_issues [OF _ up]] show ?thesis by (simp add: FocusEvent event_weight_def)
  next
    case (TimerEvent code gen)
    then show ?thesis using assms
      by (auto simp: event_weight_def intro: issues_nothing surface_update_issues [OF input_events(5), unfolded One_nat_def] split: if_splits)
  next
    case (TextEvent t paste alt)
    show ?thesis
    proof (cases paste)
      case True
      then have "dispatch_paste opts sf acts t st = (efs, st')" using assms TextEvent by simp
      from issues_mono [OF dispatch_paste_issues [OF this]] show ?thesis by (simp add: TextEvent event_weight_def)
    next
      case False
      then have "dispatch_text opts sf acts t alt now st = (efs, st')" using assms TextEvent by simp
      from dispatch_text_issues [OF this] show ?thesis by (simp add: TextEvent event_weight_def)
    qed
  next
    case (KeyEvent k alt)
    then show ?thesis using assms dispatch_key_issues by (simp add: event_weight_def)
  qed (use assms sync in \<open>simp_all add: event_weight_def\<close>)
qed

lemma dispatch_keymap_issues:
  assumes "dispatch_keymap opts sf acts ev now st = (efs, st')" and "P ev"
  shows "issues (event_weight ev) st efs st'"
proof -
  obtain es st1 where d: "dispatch_event opts sf acts ev now (sync_keys acts now st) = (es, st1)" by fastforce
  have "efs = es" "st' = sync_keys acts now st1" using assms by (simp_all add: dispatch_keymap_def d)
  then show ?thesis using issues_right [OF issues_left [OF dispatch_event_issues [OF d assms(2)]]] by simp
qed

lemma dispatch_decoded_issues:
  assumes "dispatch_decoded opts sf now ev st = (efs, st')" and input: "\<And>e. ev = Some e \<Longrightarrow> P e"
  shows "issues (case ev of None \<Rightarrow> 0 | Some e \<Rightarrow> event_weight e) st efs st'"
proof (cases ev)
  case None
  then show ?thesis using assms by (simp add: dispatch_decoded_def issues_nothing)
next
  case (Some e)
  let ?st = "if sf_filter sf = None then st else st\<lparr>sh_suppress := suppresses_event sf e st\<rparr>"
  have pos: "1 \<le> event_weight e" by (simp add: event_weight_def split: shell_event.split)
  consider (plain) "surface_update sf e ?st = (efs, st')"
    | (keys) acts where "dispatch_keymap opts sf acts e now ?st = (efs, st')"
    using assms unfolding dispatch_decoded_def Some Let_def option.case by (auto split: option.splits)
  then have "issues (event_weight e) ?st efs st'"
  proof cases
    case plain
    then show ?thesis by (rule issues_mono [OF surface_update_issues [OF input [OF Some]] pos])
  next
    case keys
    then show ?thesis by (rule dispatch_keymap_issues [OF _ input [OF Some]])
  qed
  moreover have "alike ?st st" by (simp add: alike_def)
  ultimately show ?thesis unfolding Some option.case by (rule issues_left)
qed

end

subsection \<open>The contract of a surface\<close>

locale kit_surface =
  fixes sf :: "('s, 'w, 'v) surface" and B :: nat
  assumes update_emits: "sf_update sf shell_context ev s l = (efs, s', l') \<Longrightarrow> emits B l efs l'"
    and capture_emits: "sf_capture sf = Some c \<Longrightarrow> kc_capture c shell_context k s l = (efs, s', l') \<Longrightarrow> emits B l efs l'"

sublocale kit_surface \<subseteq> dispatched sf "\<lambda>n s l es s' l'. emits (B * n) l es l'" "\<lambda>_. True"
  by unfold_locales
    (auto simp: distrib_left intro: emits.intros emits_append emits_mono emits_one_timer dest: update_emits capture_emits)

end
