(* ===== verification/ShellSystem.thy ===== *)
theory ShellSystem
  imports ShellRuns
begin

text \<open>
  The shell with its commands in flight.  A command completes at any later moment, work in
  any world; cancelled work may still deliver.  The invariant \<open>flight_ok\<close>: of each key at
  most one request runs uncancelled, it is the newest, and it is the one the shell would cancel.
\<close>

datatype ('w, 'v) shell_op = External "'v shell_message" int int | Complete nat 'w int int

type_synonym ('s, 'w, 'v) shell_system = "'s shell \<times> ('w, 'v) command list"

definition is_external :: "'v shell_message \<Rightarrow> bool" where
  "is_external m = (case m of ResultMsg _ _ _ _ \<Rightarrow> False | TimerMsg _ _ \<Rightarrow> False | SettleMsg _ _ \<Rightarrow> False | _ \<Rightarrow> True)"

fun completion :: "('w, 'v) command \<Rightarrow> 'w \<Rightarrow> 'v shell_message option" where
  "completion (RunCommand c key gen corr work) w = Some (ResultMsg key gen corr (fst (work w)))"
| "completion (TimerCommand d code gen) w = Some (TimerMsg code gen)"
| "completion (SettleCommand d gen started) w = Some (SettleMsg gen started)"
| "completion QuitCommand w = None"

fun shell_system_step ::
  "shell_options \<Rightarrow> ('s, 'w, 'v) surface \<Rightarrow> ('s, 'w, 'v) shell_system \<Rightarrow> ('w, 'v) shell_op \<Rightarrow> ('s, 'w, 'v) shell_system" where
  "shell_system_step opts sf (st, pool) (External m received drawn) =
     (if is_external m then let (cs, st') = shell_update opts sf received drawn m st in (st', pool @ cs) else (st, pool))"
| "shell_system_step opts sf (st, pool) (Complete i w received drawn) =
     (if i < length pool then
        case completion (pool ! i) w of
          None \<Rightarrow> (st, pool)
        | Some m \<Rightarrow> (let (cs, st') = shell_update opts sf received drawn m st in (st', remove_at i pool @ cs))
      else (st, pool))"

subsection \<open>Requests in flight\<close>

definition is_run :: "('w, 'v) command \<Rightarrow> bool" where
  "is_run c = (case c of RunCommand _ _ _ _ _ \<Rightarrow> True | _ \<Rightarrow> False)"

definition runs :: "string \<Rightarrow> ('w, 'v) command list \<Rightarrow> ('w, 'v) command list" where
  "runs k pool = filter (\<lambda>c. is_run c \<and> cmd_key c = k) pool"

definition gen_of :: "('w, 'v) command \<Rightarrow> nat" where
  "gen_of c = unat (cmd_generation c)"

record flight =
  fl_contexts :: nat
  fl_cancels :: "string \<rightharpoonup> nat"
  fl_cancelled :: "nat set"

definition flight_of :: "'s shell \<Rightarrow> flight" where
  "flight_of st = \<lparr>fl_contexts = sh_contexts st, fl_cancels = map_of (sh_cancels st), fl_cancelled = sh_cancelled st\<rparr>"

lemma flight_of_contexts: "contexts_of st' = contexts_of st \<Longrightarrow> flight_of st' = flight_of st"
  by (simp add: flight_of_def contexts_of_def)

definition numbered :: "flight \<Rightarrow> ('w, 'v) command list \<Rightarrow> bool" where
  "numbered f pool \<longleftrightarrow> distinct (map cmd_context (filter is_run pool)) \<and>
     (\<forall>c \<in> set pool. is_run c \<longrightarrow> cmd_context c < fl_contexts f) \<and>
     (\<forall>x \<in> ran (fl_cancels f). x < fl_contexts f)"

definition newest_live :: "flight \<Rightarrow> ('w, 'v) command list \<Rightarrow> bool" where
  "newest_live f pool \<longleftrightarrow> (\<forall>k. \<forall>c \<in> set (runs k pool). cmd_context c \<notin> fl_cancelled f \<longrightarrow>
     fl_cancels f k = Some (cmd_context c) \<and>
     (\<forall>d \<in> set (runs k pool). cmd_context d \<noteq> cmd_context c \<longrightarrow> gen_of d < gen_of c))"

definition issued :: "ledger \<Rightarrow> ('w, 'v) command list \<Rightarrow> bool" where
  "issued l pool \<longleftrightarrow> (\<forall>k. \<forall>c \<in> set (runs k pool). gen_of c \<le> unat (ld_requests l k))"

definition flight_ok :: "'s shell \<Rightarrow> ('w, 'v) command list \<Rightarrow> bool" where
  "flight_ok st pool \<longleftrightarrow> numbered (flight_of st) pool \<and> newest_live (flight_of st) pool \<and> issued (sh_ledger st) pool"

lemma runs_append: "runs k (xs @ ys) = runs k xs @ runs k ys"
  by (simp add: runs_def)

lemma runs_simps:
  "runs k [] = []" "runs k (TimerCommand d code gen # cs) = runs k cs"
  "runs k (SettleCommand d gen' started # cs) = runs k cs" "runs k (QuitCommand # cs) = runs k cs"
  "runs k (RunCommand c k' g corr w # cs) = (if k' = k then RunCommand c k' g corr w # runs k cs else runs k cs)"
  by (simp_all add: runs_def is_run_def)

lemma runs_in: "c \<in> set (runs k pool) \<longleftrightarrow> c \<in> set pool \<and> is_run c \<and> cmd_key c = k"
  by (auto simp: runs_def)

lemma runs_drop: "c \<in> set (runs k (xs @ ys)) \<Longrightarrow> c \<in> set (runs k (xs @ x # ys))"
  by (auto simp: runs_in)

text \<open>A pool loses a command.\<close>

lemma numbered_subset:
  assumes "numbered f (xs @ c # ys)"
  shows "numbered f (xs @ ys)"
  using assms by (auto simp: numbered_def split: if_splits)

lemma newest_live_subset:
  assumes "newest_live f (xs @ c # ys)"
  shows "newest_live f (xs @ ys)"
  using assms runs_drop unfolding newest_live_def by blast

lemma issued_subset: "issued l (xs @ c # ys) \<Longrightarrow> issued l (xs @ ys)"
  using runs_drop unfolding issued_def by blast

text \<open>The current request of a key completes: nothing else of the key is uncancelled.\<close>

lemma newest_live_complete:
  assumes live: "newest_live f (xs @ c # ys)" and num: "numbered f (xs @ c # ys)" and l: "issued l (xs @ c # ys)"
    and c: "is_run c" "cmd_key c = k" "gen_of c = unat (ld_requests l k)"
  shows "newest_live (f\<lparr>fl_cancels := (fl_cancels f)(k := None)\<rparr>) (xs @ ys)"
proof -
  have dist: "distinct (map cmd_context (filter is_run (xs @ c # ys)))" using num by (simp add: numbered_def)
  have none: False if d: "d \<in> set (runs k (xs @ ys))" "cmd_context d \<notin> fl_cancelled f" for d
  proof -
    have "cmd_context c \<notin> cmd_context ` set (filter is_run (xs @ ys))" using dist c(1) by auto
    moreover have "d \<in> set (filter is_run (xs @ ys))" using d(1) by (simp add: runs_in)
    ultimately have "cmd_context d \<noteq> cmd_context c" by (metis imageI)
    moreover have "c \<in> set (runs k (xs @ c # ys))" "d \<in> set (runs k (xs @ c # ys))" using d(1) c by (auto simp: runs_in)
    ultimately have "gen_of c < gen_of d" using live d(2) unfolding newest_live_def by metis
    moreover have "gen_of d \<le> unat (ld_requests l k)" using l d(1) by (auto simp: issued_def runs_in)
    ultimately show False using c(3) by simp
  qed
  show ?thesis
    using newest_live_subset [OF live] none unfolding newest_live_def by (auto; blast)
qed

text \<open>A request joins: the one of its key before it is cancelled.\<close>

lemma newest_live_start:
  assumes live: "newest_live f pool" and num: "numbered f pool"
    and new: "\<forall>d \<in> set (runs k pool). gen_of d < unat g"
    and f': "f' = f\<lparr>fl_contexts := Suc (fl_contexts f), fl_cancels := (fl_cancels f)(k \<mapsto> fl_contexts f),
        fl_cancelled := fl_cancelled f \<union> set_option (fl_cancels f k)\<rparr>"
  shows "newest_live f' (pool @ [RunCommand (fl_contexts f) k g corr w]) \<and>
    numbered f' (pool @ [RunCommand (fl_contexts f) k g corr w])"
proof -
  let ?c = "RunCommand (fl_contexts f) k g corr w"
  have old: "cmd_context d < fl_contexts f" if "d \<in> set pool" "is_run d" for d using num that by (auto simp: numbered_def)
  have "newest_live f' (pool @ [?c])"
    unfolding newest_live_def
  proof (intro allI ballI impI)
    fix k' c
    assume c: "c \<in> set (runs k' (pool @ [?c]))" and nc: "cmd_context c \<notin> fl_cancelled f'"
    show "fl_cancels f' k' = Some (cmd_context c) \<and>
      (\<forall>d \<in> set (runs k' (pool @ [?c])). cmd_context d \<noteq> cmd_context c \<longrightarrow> gen_of d < gen_of c)"
    proof (cases "c = ?c")
      case True
      then have "k' = k" using c by (simp add: runs_in)
      then show ?thesis using True new by (auto simp: f' runs_append runs_simps gen_of_def)
    next
      case False
      then have cp: "c \<in> set (runs k' pool)" using c by (auto simp: runs_append runs_simps split: if_splits)
      then have "fl_cancels f k' = Some (cmd_context c)" "\<forall>d \<in> set (runs k' pool). cmd_context d \<noteq> cmd_context c \<longrightarrow> gen_of d < gen_of c"
        using live nc unfolding newest_live_def f' by auto
      moreover have "k' \<noteq> k" using nc calculation(1) by (auto simp: f')
      ultimately show ?thesis by (simp add: f' runs_append runs_simps)
    qed
  qed
  moreover have "numbered f' (pool @ [?c])"
    using num old [THEN less_imp_neq] by (auto simp: numbered_def f' ran_def less_Suc_eq)
  ultimately show ?thesis by blast
qed

text \<open>Cancelling more leaves less to show.\<close>

lemma newest_live_cancel: "newest_live f pool \<Longrightarrow> newest_live (f\<lparr>fl_cancelled := fl_cancelled f \<union> X\<rparr>) pool"
  unfolding newest_live_def by auto

lemma newest_live_tick:
  "newest_live f (pool @ [c]) \<longleftrightarrow> newest_live f pool" "numbered f (pool @ [c]) \<longleftrightarrow> numbered f pool"
  "issued l (pool @ [c]) \<longleftrightarrow> issued l pool" if "\<not> is_run c"
  using that by (auto simp: newest_live_def numbered_def issued_def runs_def)

subsection \<open>Effects become commands\<close>

definition ahead :: "('w, 'v) command list \<Rightarrow> ('w, 'v) effect list \<Rightarrow> ledger \<Rightarrow> bool" where
  "ahead pool es l \<longleftrightarrow> (\<forall>k. sorted_wrt (<) (requests es k) \<and>
     (\<forall>g \<in> set (requests es k). (\<forall>c \<in> set (runs k pool). gen_of c < g) \<and> g \<le> unat (ld_requests l k)))"

lemma ahead_ascends: "issued l pool \<Longrightarrow> ascends l es l' \<Longrightarrow> ahead pool es l'"
  unfolding issued_def ascends_def ahead_def by (meson le_less_trans)

lemma issued_ascends: "issued l pool \<Longrightarrow> ascends l es l' \<Longrightarrow> issued l' pool"
  unfolding issued_def ascends_def by (meson le_trans)

lemma start_request_flight:
  assumes "start_request opts sf k g corr prev w st = (c, st')"
  shows "c = RunCommand (sh_contexts st) k g corr w" and "sh_ledger st' = sh_ledger st"
    and "flight_of st' = (flight_of st)\<lparr>fl_contexts := Suc (sh_contexts st), fl_cancels := (map_of (sh_cancels st))(k \<mapsto> sh_contexts st),
      fl_cancelled := sh_cancelled st \<union> set_option (map_of (sh_cancels st) k)\<rparr>"
  using assms by (cases "map_of (sh_cancels st) k"; auto simp: start_request_def Let_def flight_of_def update_conv')+

lemma run_effect_flight:
  assumes ok: "flight_ok st pool" and ah: "ahead pool (e # es) (sh_ledger st)" and run: "run_effect opts sf e st = (c, st')"
  shows "flight_ok st' (pool @ [c]) \<and> ahead (pool @ [c]) es (sh_ledger st') \<and> sh_ledger st' = sh_ledger st"
proof (cases e)
  case (WorkEffect k g corr prev w)
  note start = start_request_flight [of opts sf k g corr prev w st c st']
  have st: "c = RunCommand (sh_contexts st) k g corr w" "sh_ledger st' = sh_ledger st"
    "flight_of st' = (flight_of st)\<lparr>fl_contexts := Suc (sh_contexts st), fl_cancels := (map_of (sh_cancels st))(k \<mapsto> sh_contexts st),
      fl_cancelled := sh_cancelled st \<union> set_option (map_of (sh_cancels st) k)\<rparr>"
    using start run WorkEffect by simp_all
  have new: "\<forall>d \<in> set (runs k pool). gen_of d < unat g" and g: "unat g \<le> unat (ld_requests (sh_ledger st) k)"
    using spec [OF ah [unfolded ahead_def], of k] by (auto simp: WorkEffect requests_simps)
  have "newest_live (flight_of st') (pool @ [c]) \<and> numbered (flight_of st') (pool @ [c])"
    using newest_live_start [of "flight_of st" pool k g "flight_of st'" corr w] ok new st
    by (simp add: flight_ok_def flight_of_def)
  moreover have "issued (sh_ledger st') (pool @ [c])"
    using ok g by (auto simp: flight_ok_def issued_def runs_append runs_simps st gen_of_def)
  moreover have "ahead (pool @ [c]) es (sh_ledger st')"
    using ah by (auto simp: ahead_def WorkEffect requests_simps runs_append runs_simps st gen_of_def split: if_splits)
  ultimately show ?thesis using st(2) by (simp add: flight_ok_def)
next
  case (TimerEffect code g d)
  then have c: "\<not> is_run c" "flight_of st' = flight_of st" "sh_ledger st' = sh_ledger st"
    using run by (auto simp: is_run_def flight_of_def)
  then show ?thesis using ok ah
    by (auto simp: flight_ok_def newest_live_tick ahead_def TimerEffect requests_simps runs_def)
next
  case QuitEffect
  then have c: "\<not> is_run c" "flight_of st' = (flight_of st)\<lparr>fl_cancelled := fl_cancelled (flight_of st) \<union> ran (map_of (sh_cancels st))\<rparr>"
    "sh_ledger st' = sh_ledger st" using run by (auto simp: is_run_def flight_of_def ran_map_of [symmetric])
  moreover have "numbered (flight_of st') pool" using ok c(2) by (simp add: flight_ok_def numbered_def)
  ultimately show ?thesis using ok ah newest_live_cancel
    by (auto simp: flight_ok_def newest_live_tick ahead_def QuitEffect requests_simps runs_def)
qed

lemma run_effects_flight:
  assumes "flight_ok st pool" and "ahead pool es (sh_ledger st)" and "run_effects opts sf es st = (cs, st')"
  shows "flight_ok st' (pool @ cs) \<and> sh_ledger st' = sh_ledger st"
  using assms
proof (induction es arbitrary: st pool cs st')
  case (Cons e es)
  let ?st = "if suppresses_effect sf e st then st\<lparr>sh_suppress := True\<rparr> else st"
  obtain c st1 where one: "run_effect opts sf e ?st = (c, st1)" by fastforce
  let ?st1 = "st1\<lparr>sh_suppress := sh_suppress st\<rparr>"
  obtain cs' where rest: "run_effects opts sf es ?st1 = (cs', st')" "cs = c # cs'"
    using Cons.prems(3) one by (auto simp: Let_def split: prod.splits)
  have same: "sh_ledger ?st = sh_ledger st" "flight_of ?st = flight_of st" "flight_of ?st1 = flight_of st1"
    "sh_ledger ?st1 = sh_ledger st1" by (simp_all add: flight_of_def)
  have ok: "flight_ok ?st pool" using Cons.prems(1) unfolding flight_ok_def same(1,2) .
  have ah: "ahead pool (e # es) (sh_ledger ?st)" using Cons.prems(2) unfolding same(1) .
  note head = run_effect_flight [OF ok ah one]
  have "flight_ok ?st1 (pool @ [c])" using head unfolding flight_ok_def same(3,4) by blast
  moreover have "ahead (pool @ [c]) es (sh_ledger ?st1)" using head unfolding same(4) by blast
  ultimately have "flight_ok st' ((pool @ [c]) @ cs') \<and> sh_ledger st' = sh_ledger ?st1"
    by (rule Cons.IH [OF _ _ rest(1)])
  then show ?case using head unfolding same(1,4) rest(2) append_assoc append_Cons append_Nil by simp
qed simp

subsection \<open>A whole update\<close>

definition message_weight :: "'v shell_message \<Rightarrow> nat" where
  "message_weight m = (case m of KeyMsg k \<Rightarrow> max 1 (rune_count (encode_runes (km_runes k))) | _ \<Rightarrow> 1)"

lemma decode_key_fields:
  assumes "decode_key opts m st = (d, st1)"
  shows "sh_ledger st1 = sh_ledger st" and "contexts_of st1 = contexts_of st"
    and "dc_event d = Some e \<Longrightarrow> event_weight e \<le> max 1 (rune_count (encode_runes (km_runes m)))" and "dc_extra d = None"
  using assms
  by (auto simp: decode_key_def Let_def plain_def quiet_def event_weight_def split: if_splits option.splits sum.splits)

lemma flight_of_simps [simp]:
  "flight_of (observe opts n st) = flight_of st" "flight_of (st\<lparr>sh_focused := x\<rparr>) = flight_of st"
  "flight_of (st\<lparr>sh_settled := x\<rparr>) = flight_of st" "flight_of (st\<lparr>sh_layout := la\<rparr>) = flight_of st"
  "flight_of (st\<lparr>sh_resize_generation := g\<rparr>) = flight_of st" "flight_of (st\<lparr>sh_suppress := x\<rparr>) = flight_of st"
  by (simp_all add: flight_of_def observe_def)

lemma decode_message_flight:
  assumes "decode_message opts now msg st = (d, st1)"
  shows "ld_requests (sh_ledger st1) = ld_requests (sh_ledger st) \<and>
    (flight_of st1 = flight_of st \<or> (\<exists>k g corr r. msg = ResultMsg k g corr r \<and> g = ld_requests (sh_ledger st) k \<and>
       flight_of st1 = (flight_of st)\<lparr>fl_cancels := (fl_cancels (flight_of st))(k := None)\<rparr>))"
proof (cases msg)
  case (KeyMsg m)
  then have "decode_key opts m st = (d, st1)" using assms by simp
  note key = decode_key_fields(1,2) [OF this]
  then show ?thesis using flight_of_contexts [OF key(2)] by simp
next
  case (ResultMsg k g corr r)
  then show ?thesis using assms by (auto simp: decode_result_def Let_def flight_of_def delete_conv' split: if_splits)
next
  case (SettleMsg g started)
  then have "st1 = st \<or> st1 = st\<lparr>sh_settled := True\<rparr>" using assms by (auto simp: Let_def split: if_splits)
  then show ?thesis by auto
next
  case (WindowSizeMsg w h)
  then have "st1 = (observe opts 1 st)\<lparr>sh_resize_generation := sh_resize_generation st + 1,
      sh_layout := resolve \<lparr>columns = w, rows = h\<rparr>, sh_settled := False\<rparr>" using assms by (simp add: Let_def)
  then have "sh_ledger st1 = sh_ledger st" "flight_of st1 = flight_of st" by (simp_all del: flight_of_simps add: flight_of_def observe_def)
  then show ?thesis by simp
next
  case FocusMsg
  then have "st1 = (observe opts 1 st)\<lparr>sh_focused := True\<rparr>" using assms by simp
  then show ?thesis by simp
next
  case BlurMsg
  then have "st1 = (observe opts 1 st)\<lparr>sh_focused := False\<rparr>" using assms by simp
  then show ?thesis by simp
next
  case (TimerMsg code g)
  then have "st1 = st" using assms by (simp split: if_splits)
  then show ?thesis by simp
next
  case MouseMsg
  then have "st1 = observe opts 1 st" using assms by simp
  then show ?thesis by simp
next
  case (OtherMsg x)
  then have "st1 = (if x then observe opts 1 st else st)" using assms by simp
  then show ?thesis by simp
qed

lemma decode_message_surface: "decode_message opts now msg st = (d, st1) \<Longrightarrow> sh_surface st1 = sh_surface st"
  by (cases msg) (auto simp: decode_key_def decode_result_def Let_def split: if_splits)

lemma decode_message_input:
  assumes "decode_message opts now msg st = (d, st1)" and "dc_event d = Some e" and "\<nexists>k g corr r. msg = ResultMsg k g corr r"
  shows "\<not> is_result e"
proof (cases msg)
  case (KeyMsg m)
  then show ?thesis using assms
    by (auto simp: decode_key_def Let_def is_result_def plain_def quiet_def split: if_splits option.splits sum.splits)
qed (use assms in \<open>auto simp: is_result_def plain_def quiet_def Let_def split: if_splits\<close>)

lemma decode_message_weight:
  assumes "decode_message opts now msg st = (d, st1)" and "dc_event d = Some e"
  shows "event_weight e \<le> message_weight msg"
proof (cases msg)
  case (KeyMsg m)
  then show ?thesis using assms decode_key_fields(3) [of opts m st d st1 e] by (simp add: message_weight_def)
next
  case (ResultMsg k g corr r)
  then show ?thesis using assms
    by (auto simp: decode_result_def Let_def message_weight_def event_weight_def plain_def quiet_def split: if_splits)
qed (use assms in \<open>auto simp: message_weight_def event_weight_def plain_def quiet_def Let_def split: if_splits\<close>)

lemma decode_message_extra:
  assumes "decode_message opts now msg st = (d, st1)" and "dc_extra d = Some c"
  shows "\<not> is_run c"
proof (cases msg)
  case (KeyMsg m)
  then show ?thesis using assms decode_key_fields(4) [of opts m st d st1] by simp
next
  case (ResultMsg k g corr r)
  then show ?thesis using assms by (auto simp: decode_result_def Let_def plain_def quiet_def split: if_splits)
qed (use assms in \<open>auto simp: plain_def quiet_def is_run_def Let_def split: if_splits\<close>)

lemma render_fields [simp]:
  "sh_ledger (render_shell opts sf e st) = sh_ledger st" "flight_of (render_shell opts sf e st) = flight_of st"
  by (auto simp: render_shell_def flight_of_def Let_def split: prod.splits)

text \<open>What a message takes out of the pool.\<close>

definition taken :: "('w, 'v) command list \<Rightarrow> 'v shell_message \<Rightarrow> ('w, 'v) command list \<Rightarrow> bool" where
  "taken pool msg rest \<longleftrightarrow> (is_external msg \<and> rest = pool) \<or>
     (\<exists>xs c ys w. pool = xs @ c # ys \<and> rest = xs @ ys \<and> completion c w = Some msg)"

lemma taken_flight:
  fixes pool :: "('b, 'a) command list"
  assumes ok: "flight_ok st pool" and taken: "taken pool msg rest" and dec: "decode_message opts now msg st = (d, st1)"
  shows "flight_ok st1 rest"
proof -
  note dm = decode_message_flight [OF dec]
  have req: "issued (sh_ledger st1) xs = issued (sh_ledger st) xs" for xs :: "('b, 'a) command list" using dm by (simp add: issued_def)
  consider (ext) "is_external msg" "rest = pool" | (pool) xs c ys w where "pool = xs @ c # ys" "rest = xs @ ys" "completion c w = Some msg"
    using taken unfolding taken_def by blast
  then show ?thesis
  proof cases
    case ext
    then have "flight_of st1 = flight_of st" using dm by (auto simp: is_external_def)
    then show ?thesis using ok ext req by (simp add: flight_ok_def)
  next
    case pool
    note drop = numbered_subset [of "flight_of st" xs c ys] newest_live_subset [of "flight_of st" xs c ys] issued_subset [of "sh_ledger st" xs c ys]
    show ?thesis
    proof (cases "flight_of st1 = flight_of st")
      case True
      then show ?thesis using ok pool drop req by (simp add: flight_ok_def)
    next
      case False
      then obtain k g corr r where res: "msg = ResultMsg k g corr r" "g = ld_requests (sh_ledger st) k"
        "flight_of st1 = (flight_of st)\<lparr>fl_cancels := (fl_cancels (flight_of st))(k := None)\<rparr>" using dm by blast
      then have c: "is_run c" "cmd_key c = k" "gen_of c = unat (ld_requests (sh_ledger st) k)"
        using pool(3) by (cases c; auto simp: is_run_def gen_of_def)+
      have "newest_live (flight_of st1) (xs @ ys)"
        unfolding res(3) by (rule newest_live_complete) (use ok pool(1) c in \<open>auto simp: flight_ok_def\<close>)
      moreover have "numbered (flight_of st1) (xs @ ys)"
        using ok pool(1) drop(1) res(3) by (auto simp: flight_ok_def numbered_def ran_def)
      ultimately show ?thesis using ok pool drop(3) req by (simp add: flight_ok_def)
    qed
  qed
qed

definition op_weight :: "('w, 'v) shell_op \<Rightarrow> nat" where
  "op_weight x = (case x of External m _ _ \<Rightarrow> message_weight m | Complete _ _ _ _ \<Rightarrow> 1)"

context kit_surface begin

lemma update_flight:
  assumes ok: "flight_ok st pool" and taken: "taken pool msg rest" and bd: "bounded b (sh_ledger st)"
    and budget: "b + B * message_weight msg < 2 ^ 64" and run: "shell_update opts sf received drawn msg st = (cs, st')"
  shows "flight_ok st' (rest @ cs) \<and> bounded (b + B * message_weight msg) (sh_ledger st')"
proof -
  let ?st0 = "st\<lparr>sh_suppress := False\<rparr>" and ?W = "message_weight msg"
  obtain d :: "('w, 'v) decoded" and st1 where dec: "decode_message opts received msg ?st0 = (d, st1)" by fastforce
  obtain efs st2 where disp: "dispatch_decoded opts sf received (dc_event d) st1 = (efs, st2)" by fastforce
  define ev where "ev = diagnostic_event d st2"
  define st3 where "st3 = (case ev of None \<Rightarrow> st2 | Some e \<Rightarrow> if suppresses_event sf e st2 then st2\<lparr>sh_suppress := True\<rparr> else st2)"
  define st4 where "st4 = record_event opts (dc_code d) (dc_outcome d) (visual sf ?st0) (visual sf st3)
      (describe_event (so_segmenter opts) ev) (dc_duration d) None st3"
  obtain cs0 st5 where eff: "run_effects opts sf efs st4 = (cs0, st5)" by fastforce
  define st6 where "st6 = (if dc_render d then render_shell opts sf (drawn - received) st5 else st5)"
  have out: "cs = (case dc_extra d of None \<Rightarrow> cs0 | Some c \<Rightarrow> cs0 @ [c])" "st' = st6\<lparr>sh_suppress := False\<rparr>"
    using run by (simp_all add: shell_update_def Let_def dec disp ev_def [symmetric] st3_def [symmetric] st4_def [symmetric] eff st6_def)
  have ok1: "flight_ok st1 rest" using taken_flight [OF _ taken dec] ok by (simp add: flight_ok_def flight_of_def)
  have bd1: "bounded b (sh_ledger st1)" using decode_message_flight [OF dec] bd by (simp add: bounded_def)
  have "(case dc_event d of None \<Rightarrow> 0 | Some e \<Rightarrow> event_weight e) \<le> ?W"
    using decode_message_weight [OF dec] by (simp split: option.split)
  then have iss: "issues ?W st1 efs st2" using issues_mono [OF dispatch_decoded_issues [OF disp]] by simp
  then have asc: "ascends (sh_ledger st1) efs (sh_ledger st2)" "bounded (b + B * ?W) (sh_ledger st2)"
    using emits_ascends [OF _ bd1 budget] by (auto simp: issues_def)
  have iss1: "issued (sh_ledger st1) rest" using ok1 by (simp add: flight_ok_def)
  have st3: "sh_ledger st3 = sh_ledger st2" "flight_of st3 = flight_of st2"
    by (auto simp: st3_def flight_of_def split: option.split)
  have st4: "sh_ledger st4 = sh_ledger st2" "flight_of st4 = flight_of st2"
    using st3 by (simp_all add: st4_def flight_of_def)
  have "flight_of st2 = flight_of st1" using iss flight_of_contexts by (auto simp: issues_def)
  then have "flight_ok st4 rest" using ok1 issued_ascends [OF iss1 asc(1)] st4 by (simp add: flight_ok_def)
  from run_effects_flight [OF this _ eff] have r: "flight_ok st5 (rest @ cs0)" "sh_ledger st5 = sh_ledger st2"
    using ahead_ascends [OF iss1 asc(1)] st4 by simp_all
  have "flight_ok st5 (rest @ cs)"
    using r(1) decode_message_extra [OF dec] out(1)
    by (auto simp: flight_ok_def newest_live_tick simp flip: append_assoc split: option.splits)
  moreover have "sh_ledger st' = sh_ledger st5" "flight_of st' = flight_of st5"
    by (simp_all add: out(2) st6_def)
  ultimately show ?thesis using asc(2) r(2) by (simp add: flight_ok_def)
qed

lemma system_step_flight:
  assumes ok: "flight_ok st pool" and bd: "bounded b (sh_ledger st)" and budget: "b + B * op_weight x < 2 ^ 64"
    and run: "shell_system_step opts sf (st, pool) x = (st', pool')"
  shows "flight_ok st' pool' \<and> bounded (b + B * op_weight x) (sh_ledger st')"
proof -
  have stay: ?thesis if "st' = st" "pool' = pool"
    using that ok bd by (auto simp: bounded_def intro: trans_le_add1)
  show ?thesis
  proof (cases x)
    case (External m r d)
    show ?thesis
    proof (cases "is_external m")
      case True
      obtain cs st1 where up: "shell_update opts sf r d m st = (cs, st1)" by fastforce
      have "taken pool m pool" using True by (simp add: taken_def)
      from update_flight [OF ok this bd _ up] show ?thesis
        using budget run True by (simp add: External up op_weight_def)
    next
      case False
      then show ?thesis using run stay by (simp add: External)
    qed
  next
    case (Complete i w r d)
    show ?thesis
    proof (cases "i < length pool \<and> completion (pool ! i) w \<noteq> None")
      case True
      then obtain m where m: "completion (pool ! i) w = Some m" and i: "i < length pool" by blast
      obtain xs ys where split: "pool = xs @ pool ! i # ys" "remove_at i pool = xs @ ys" using remove_at_obtain [OF i] .
      obtain cs st1 where up: "shell_update opts sf r d m st = (cs, st1)" by fastforce
      have "taken pool m (remove_at i pool)" using m split unfolding taken_def by metis
      moreover have "message_weight m = 1" using m by (cases "pool ! i") (auto simp: message_weight_def)
      ultimately show ?thesis using update_flight [OF ok _ bd _ up] budget run i m by (auto simp: Complete up op_weight_def)
    next
      case False
      then show ?thesis using run stay by (auto simp: Complete split: if_splits option.splits)
    qed
  qed
qed

lemma run_flight:
  assumes "flight_ok st pool" and "bounded b (sh_ledger st)" and "b + B * sum_list (map op_weight ops) < 2 ^ 64"
    and "foldl (shell_system_step opts sf) (st, pool) ops = (st', pool')"
  shows "flight_ok st' pool'"
  using assms
proof (induction ops arbitrary: st pool b)
  case (Cons x ops)
  obtain st1 pool1 where one: "shell_system_step opts sf (st, pool) x = (st1, pool1)" by fastforce
  have sum: "b + B * op_weight x + B * sum_list (map op_weight ops) < 2 ^ 64" using Cons.prems(3) by (simp add: distrib_left)
  have "flight_ok st1 pool1 \<and> bounded (b + B * op_weight x) (sh_ledger st1)"
    by (rule system_step_flight [OF Cons.prems(1,2) _ one]) (use sum in simp)
  then show ?case using Cons.IH [of st1 pool1 "b + B * op_weight x"] sum Cons.prems(4) one by simp
qed simp

end

lemma new_shell_flight: "new_shell opts sf s = Inr st \<Longrightarrow> flight_ok st [] \<and> bounded 0 (sh_ledger st)"
  by (auto simp: new_shell_def flight_ok_def numbered_def newest_live_def issued_def flight_of_def runs_def bounded_def
      empty_ledger_def split: if_splits)

definition live :: "'s shell \<Rightarrow> string \<Rightarrow> ('w, 'v) command list \<Rightarrow> ('w, 'v) command list" where
  "live st k pool = filter (\<lambda>c. cmd_context c \<notin> sh_cancelled st) (runs k pool)"

lemma flight_live:
  assumes "flight_ok st pool"
  shows "length (live st k pool) \<le> 1" and "c \<in> set (live st k pool) \<Longrightarrow> map_of (sh_cancels st) k = Some (cmd_context c)"
    and "c \<in> set (live st k pool) \<Longrightarrow> d \<in> set (runs k pool) \<Longrightarrow> cmd_context d \<noteq> cmd_context c \<Longrightarrow> gen_of d < gen_of c"
proof -
  have nl: "newest_live (flight_of st) pool" and num: "numbered (flight_of st) pool" using assms by (simp_all add: flight_ok_def)
  show holds: "map_of (sh_cancels st) k = Some (cmd_context c)" if "c \<in> set (live st k pool)" for c
    using nl that unfolding newest_live_def live_def flight_of_def by simp
  show "gen_of d < gen_of c" if "c \<in> set (live st k pool)" "d \<in> set (runs k pool)" "cmd_context d \<noteq> cmd_context c"
    using nl that unfolding newest_live_def live_def flight_of_def by (simp; blast)
  have eq: "live st k pool = filter (\<lambda>c. cmd_key c = k \<and> cmd_context c \<notin> sh_cancelled st) (filter is_run pool)"
    unfolding live_def runs_def filter_filter by (rule filter_cong) auto
  have "distinct (map cmd_context (filter is_run pool))" using num by (simp add: numbered_def)
  then have "distinct (map cmd_context (live st k pool))"
    unfolding eq by (rule distinct_map_filter)
  moreover have "set (map cmd_context (live st k pool)) \<subseteq> set_option (map_of (sh_cancels st) k)" using holds by auto
  moreover have "finite (set_option (map_of (sh_cancels st) k))" "card (set_option (map_of (sh_cancels st) k)) \<le> 1"
    by (cases "map_of (sh_cancels st) k"; simp)+
  ultimately have "length (map cmd_context (live st k pool)) \<le> 1"
    by (metis (no_types) card_mono distinct_card le_trans)
  then show "length (live st k pool) \<le> 1" by simp
qed

end
