(* ===== verification/ShellTracked.thy ===== *)
theory ShellTracked
  imports ShellSystem
begin

text \<open>
  Lifting an invariant of a surface to the shell that runs it.  The invariant \<open>I s r X\<close> speaks of
  the surface, the newest generation of each key and the requests in flight; the contract
  \<open>tracked_surface\<close> lists what the surface has to guarantee of single updates, and
  \<open>run_tracked\<close> gives the invariant in every state of the shell, whatever keys, texts,
  resizes and completions arrive, in any order.
\<close>

type_synonym ('w, 'v) request = "string \<times> 64 word \<times> ('w, 'v) work"

definition started :: "('w, 'v) effect list \<Rightarrow> ('w, 'v) request list" where
  "started es = map (\<lambda>e. (ef_key e, ef_generation e, ef_work e)) (filter is_work es)"

definition in_flight :: "('w, 'v) command list \<Rightarrow> ('w, 'v) request list" where
  "in_flight pool = map (\<lambda>c. (cmd_key c, cmd_generation c, cmd_work c)) (filter is_run pool)"

lemma started_simps [simp]:
  "started [] = []" "started (es @ es') = started es @ started es'" "started (QuitEffect # es) = started es"
  "started (TimerEffect c g d # es) = started es"
  "started (WorkEffect k g c p w # es) = (k, g, w) # started es"
  by (simp_all add: started_def)

lemma in_flight_simps [simp]:
  "in_flight [] = []" "in_flight (cs @ cs') = in_flight cs @ in_flight cs'"
  by (simp_all add: in_flight_def)

lemma in_flight_Cons: "in_flight (c # cs) = (if is_run c then [(cmd_key c, cmd_generation c, cmd_work c)] else []) @ in_flight cs"
  by (simp add: in_flight_def)

lemma started_timer [simp]: "start_timer ctx d code l = (Inr e, l') \<Longrightarrow> started [e] = []"
  "start_timer ctx d code l = (Inr (e :: ('w, 'v) effect), l') \<Longrightarrow> ld_requests l' = ld_requests l"
  by (auto simp: start_timer_Inr)

locale tracked_surface = kit_surface sf B for sf :: "('s, 'w, 'v) surface" and B +
  fixes I :: "'s \<Rightarrow> (string \<Rightarrow> 64 word) \<Rightarrow> ('w, 'v) request list \<Rightarrow> bool"
  assumes I_update: "\<not> is_result ev \<Longrightarrow> I s (ld_requests l) X \<Longrightarrow> bounded b l \<Longrightarrow> b + B < 2 ^ 64 \<Longrightarrow>
      sf_update sf shell_context ev s l = (es, s', l') \<Longrightarrow> I s' (ld_requests l') (X @ started es)"
    and I_capture: "sf_capture sf = Some c \<Longrightarrow> I s (ld_requests l) X \<Longrightarrow> bounded b l \<Longrightarrow> b + B < 2 ^ 64 \<Longrightarrow>
      kc_capture c shell_context ck s l = (es, s', l') \<Longrightarrow> I s' (ld_requests l') (X @ started es)"
    and I_stale: "I s r (xs @ (k, g, wk) # ys) \<Longrightarrow> g \<noteq> r k \<Longrightarrow> I s r (xs @ ys)"
    and I_answers: "I s r X \<Longrightarrow> (k, g, wk) \<in> set X \<Longrightarrow> wr_failed (fst (wk w)) \<or> valid_outcome (wr_code (fst (wk w)))"
    and I_result: "I s (ld_requests l) (xs @ (k, ld_requests l k, wk) # ys) \<Longrightarrow> bounded b l \<Longrightarrow> b + B < 2 ^ 64 \<Longrightarrow>
      sf_update sf shell_context (ResultEvent k (ld_requests l k) corr (fst (wk w))) s l = (es, s', l') \<Longrightarrow>
      I s' (ld_requests l') ((xs @ ys) @ started es)"
    and I_render: "I s r X \<Longrightarrow> sf_render sf rc s = (fr, s') \<Longrightarrow> I s' r X"
begin

definition keeps :: "nat \<Rightarrow> 's \<Rightarrow> ledger \<Rightarrow> ('w, 'v) effect list \<Rightarrow> 's \<Rightarrow> ledger \<Rightarrow> bool" where
  "keeps n s l es s' l' \<longleftrightarrow> emits (B * n) l es l' \<and>
     (\<forall>b X. bounded b l \<longrightarrow> b + B * n < 2 ^ 64 \<longrightarrow> I s (ld_requests l) X \<longrightarrow> I s' (ld_requests l') (X @ started es))"

lemma keeps_append:
  assumes "keeps n s l es s' l'" and "keeps m s' l' es' s'' l''"
  shows "keeps (n + m) s l (es @ es') s'' l''"
  unfolding keeps_def
proof (intro conjI allI impI)
  show "emits (B * (n + m)) l (es @ es') l''"
    using assms by (auto simp: keeps_def distrib_left intro: emits_append)
  fix b X
  assume b: "bounded b l" "b + B * (n + m) < 2 ^ 64" and I: "I s (ld_requests l) X"
  have n: "b + B * n < 2 ^ 64" and m: "b + B * n + B * m < 2 ^ 64" using b(2) by (simp_all add: distrib_left)
  have I': "I s' (ld_requests l') (X @ started es)" using assms(1) b(1) n I unfolding keeps_def by blast
  have "bounded (b + B * n) l'" using emits_ascends [OF _ b(1) n] assms(1) unfolding keeps_def by blast
  then have "I s'' (ld_requests l'') ((X @ started es) @ started es')" using assms(2) m I' unfolding keeps_def by blast
  then show "I s'' (ld_requests l'') (X @ started (es @ es'))" by simp
qed

lemma keeps_mono:
  assumes "keeps n s l es s' l'" and "n \<le> m"
  shows "keeps m s l es s' l'"
proof -
  have "B * n \<le> B * m" using assms(2) by simp
  then show ?thesis using assms(1) unfolding keeps_def by (meson add_left_mono emits_mono le_less_trans)
qed

end

sublocale tracked_surface \<subseteq> track: dispatched sf keeps "\<lambda>ev. \<not> is_result ev"
proof
  show "keeps n s l [] s l" for n s l by (simp add: keeps_def emits_done)
  show "keeps 1 s l es s' l'" if "\<not> is_result ev" "sf_update sf shell_context ev s l = (es, s', l')" for ev s l es s' l'
    using that update_emits I_update by (simp add: keeps_def)
  show "keeps 1 s l es s' l'" if "sf_capture sf = Some c" "kc_capture c shell_context k s l = (es, s', l')" for c k s l es s' l'
    using that capture_emits I_capture by (simp add: keeps_def)
  show "keeps n s l [e] s l'" if "start_timer shell_context d code l = (Inr e, l')" for d code l e l' n s
    using that by (simp add: keeps_def emits_one_timer)
  show "keeps n s l [QuitEffect] s l" for n s l by (simp add: keeps_def emits_quit emits_done)
qed (auto intro: keeps_append keeps_mono)

subsection \<open>From effects to the pool\<close>

lemma run_effect_surface:
  assumes "run_effect opts sf e st = (c, st')"
  shows "sh_surface st' = sh_surface st" and "sh_ledger st' = sh_ledger st" and "in_flight [c] = started [e]"
proof -
  have "sh_surface st' = sh_surface st \<and> sh_ledger st' = sh_ledger st \<and> in_flight [c] = started [e]"
  proof (cases e)
    case (WorkEffect k g corr prev w)
    then show ?thesis using assms
      by (cases "map_of (sh_cancels st) k") (auto simp: start_request_def Let_def in_flight_def is_run_def)
  qed (use assms in \<open>auto simp: in_flight_def is_run_def\<close>)
  then show "sh_surface st' = sh_surface st" "sh_ledger st' = sh_ledger st" "in_flight [c] = started [e]" by simp_all
qed

lemma run_effects_surface:
  assumes "run_effects opts sf es st = (cs, st')"
  shows "sh_surface st' = sh_surface st \<and> sh_ledger st' = sh_ledger st \<and> in_flight cs = started es"
  using assms
proof (induction es arbitrary: st cs st')
  case (Cons e es)
  let ?st = "if suppresses_effect sf e st then st\<lparr>sh_suppress := True\<rparr> else st"
  obtain c st1 where one: "run_effect opts sf e ?st = (c, st1)" by fastforce
  obtain cs' where rest: "run_effects opts sf es (st1\<lparr>sh_suppress := sh_suppress st\<rparr>) = (cs', st')" "cs = c # cs'"
    using Cons.prems one by (auto simp: Let_def split: prod.splits)
  have "started (e # es) = started [e] @ started es" "in_flight (c # cs') = in_flight [c] @ in_flight cs'"
    by (simp_all add: started_def in_flight_def)
  then show ?case using Cons.IH [OF rest(1)] run_effect_surface [OF one] rest(2) by simp
qed simp

text \<open>A result that is not an input goes to the surface as it is.\<close>

lemma dispatch_result:
  assumes "dispatch_decoded opts sf now (Some (ResultEvent k g corr r)) st = (efs, st')"
  shows "sf_update sf shell_context (ResultEvent k g corr r) (sh_surface st) (sh_ledger st) = (efs, sh_surface st', sh_ledger st')"
  using assms
  by (auto simp: dispatch_decoded_def dispatch_keymap_def surface_update_def Let_def split: option.splits prod.splits if_splits)

context tracked_surface begin

lemma after_dispatch:
  fixes d :: "('w, 'v) decoded"
  assumes upd: "I (sh_surface st2) (ld_requests (sh_ledger st2)) (in_flight rest @ started efs)"
    and eff: "run_effects opts sf efs st4 = (cs0, st5)" and st4: "sh_surface st4 = sh_surface st2" "sh_ledger st4 = sh_ledger st2"
    and extra: "\<And>c. dc_extra d = Some c \<Longrightarrow> \<not> is_run c"
    and cs: "cs = (case dc_extra d of None \<Rightarrow> cs0 | Some c \<Rightarrow> cs0 @ [c])"
    and st': "st' = (if dc_render d then render_shell opts sf e st5 else st5)\<lparr>sh_suppress := False\<rparr>"
  shows "I (sh_surface st') (ld_requests (sh_ledger st')) (in_flight (rest @ cs))"
proof -
  have r: "sh_surface st5 = sh_surface st4" "sh_ledger st5 = sh_ledger st4" "in_flight cs0 = started efs"
    using run_effects_surface [OF eff] by simp_all
  have "in_flight cs = started efs" using r(3) extra cs by (auto simp: in_flight_def split: option.splits)
  then have I5: "I (sh_surface st5) (ld_requests (sh_ledger st5)) (in_flight (rest @ cs))" using upd r st4 by simp
  have "I (sh_surface (render_shell opts sf e st5)) (ld_requests (sh_ledger st5)) (in_flight (rest @ cs))"
    using I5 I_render by (auto simp: render_shell_def Let_def split: prod.splits)
  then show ?thesis using I5 by (simp add: st')
qed

lemma update_tracked:
  assumes I: "I (sh_surface st) (ld_requests (sh_ledger st)) (in_flight pool)" and taken: "taken pool msg rest"
    and bd: "bounded b (sh_ledger st)" and budget: "b + B * message_weight msg < 2 ^ 64"
    and run: "shell_update opts sf received drawn msg st = (cs, st')"
  shows "I (sh_surface st') (ld_requests (sh_ledger st')) (in_flight (rest @ cs))"
proof -
  let ?st0 = "st\<lparr>sh_suppress := False\<rparr>" and ?W = "message_weight msg"
  obtain d :: "('w, 'v) decoded" and st1 where dec: "decode_message opts received msg ?st0 = (d, st1)" by fastforce
  obtain efs st2 where disp: "dispatch_decoded opts sf received (dc_event d) st1 = (efs, st2)" by fastforce
  define ev where "ev = diagnostic_event d st2"
  define st3 where "st3 = (case ev of None \<Rightarrow> st2 | Some e \<Rightarrow> if suppresses_event sf e st2 then st2\<lparr>sh_suppress := True\<rparr> else st2)"
  define st4 where "st4 = record_event opts (dc_code d) (dc_outcome d) (visual sf ?st0) (visual sf st3)
      (describe_event (so_segmenter opts) ev) (dc_duration d) None st3"
  obtain cs0 st5 where eff: "run_effects opts sf efs st4 = (cs0, st5)" by fastforce
  have cs: "cs = (case dc_extra d of None \<Rightarrow> cs0 | Some c \<Rightarrow> cs0 @ [c])"
    and st': "st' = (if dc_render d then render_shell opts sf (drawn - received) st5 else st5)\<lparr>sh_suppress := False\<rparr>"
    using run by (simp_all add: shell_update_def Let_def dec disp ev_def [symmetric] st3_def [symmetric] st4_def [symmetric] eff)
  have st4: "sh_surface st4 = sh_surface st2" "sh_ledger st4 = sh_ledger st2" by (auto simp: st4_def st3_def split: option.split)
  have r1: "ld_requests (sh_ledger st1) = ld_requests (sh_ledger st)" using decode_message_flight [OF dec] by simp
  have s1: "sh_surface st1 = sh_surface st" using decode_message_surface [OF dec] by simp
  have bd1: "bounded b (sh_ledger st1)" using bd r1 by (simp add: bounded_def)
  have "I (sh_surface st2) (ld_requests (sh_ledger st2)) (in_flight rest @ started efs)"
  proof (cases "\<exists>k g corr r. msg = ResultMsg k g corr r")
    case False
    have "in_flight rest = in_flight pool"
      using taken False unfolding taken_def by (auto simp: in_flight_Cons is_run_def split: command.splits)
    then have I1: "I (sh_surface st1) (ld_requests (sh_ledger st1)) (in_flight rest)" using I r1 s1 by simp
    have input: "\<not> is_result e" if "dc_event d = Some e" for e using decode_message_input [OF dec that] False by blast
    have "(case dc_event d of None \<Rightarrow> 0 | Some e \<Rightarrow> event_weight e) \<le> ?W"
      using decode_message_weight [OF dec] by (simp split: option.split)
    then have "track.issues ?W st1 efs st2" using track.issues_mono [OF track.dispatch_decoded_issues [OF disp input]] by blast
    then show ?thesis using I1 bd1 budget unfolding track.issues_def keeps_def by blast
  next
    case True
    then obtain k g corr r where msg: "msg = ResultMsg k g corr r" by blast
    then obtain xs c ys w where pool: "pool = xs @ c # ys" "rest = xs @ ys" "completion c w = Some msg"
      using taken by (auto simp: taken_def is_external_def)
    then obtain ctx wk where c: "c = RunCommand ctx k g corr wk" "r = fst (wk w)" using msg by (cases c) auto
    have I1: "I (sh_surface st) (ld_requests (sh_ledger st)) (in_flight xs @ (k, g, wk) # in_flight ys)"
      using I pool c by (simp add: in_flight_Cons is_run_def)
    have ok: "wr_failed r \<or> valid_outcome (wr_code r)" using I_answers [OF I1, of k g wk w] c(2) by simp
    show ?thesis
    proof (cases "g = ld_requests (sh_ledger st) k")
      case False
      then have "dc_event d = None" using dec msg by (auto simp: decode_result_def quiet_def Let_def split: if_splits)
      then have "efs = []" "st2 = st1" using disp by (simp_all add: dispatch_decoded_def)
      then show ?thesis using I_stale [OF I1 False] r1 s1 pool(2) by simp
    next
      case True
      then have "dc_event d = Some (ResultEvent k g corr r)"
        using dec msg ok by (auto simp: decode_result_def plain_def quiet_def Let_def split: if_splits)
      then have up: "sf_update sf shell_context (ResultEvent k (ld_requests (sh_ledger st1) k) corr (fst (wk w))) (sh_surface st1) (sh_ledger st1) =
          (efs, sh_surface st2, sh_ledger st2)" using dispatch_result disp True r1 c(2) by metis
      have I1': "I (sh_surface st1) (ld_requests (sh_ledger st1)) (in_flight xs @ (k, ld_requests (sh_ledger st1) k, wk) # in_flight ys)"
        using I1 r1 s1 True by simp
      have "b + B < 2 ^ 64" using budget msg by (simp add: message_weight_def)
      from I_result [OF I1' bd1 this up] show ?thesis using pool(2) by simp
    qed
  qed
  then show ?thesis by (rule after_dispatch [OF _ eff st4 decode_message_extra [OF dec] cs st'])
qed

lemma system_step_tracked:
  assumes I: "I (sh_surface st) (ld_requests (sh_ledger st)) (in_flight pool)" and bd: "bounded b (sh_ledger st)"
    and budget: "b + B * op_weight x < 2 ^ 64" and run: "shell_system_step opts sf (st, pool) x = (st', pool')"
  shows "I (sh_surface st') (ld_requests (sh_ledger st')) (in_flight pool')"
proof (cases x)
  case (External m r d)
  show ?thesis
  proof (cases "is_external m")
    case True
    obtain cs st1 where up: "shell_update opts sf r d m st = (cs, st1)" by fastforce
    have "taken pool m pool" using True by (simp add: taken_def)
    from update_tracked [OF I this bd _ up] show ?thesis using budget run True by (auto simp: External up op_weight_def)
  next
    case False
    then show ?thesis using run I by (simp add: External)
  qed
next
  case (Complete i w r d)
  show ?thesis
  proof (cases "i < length pool \<and> completion (pool ! i) w \<noteq> None")
    case True
    then obtain m where m: "completion (pool ! i) w = Some m" and i: "i < length pool" by blast
    obtain xs ys where split: "pool = xs @ pool ! i # ys" "remove_at i pool = xs @ ys" using remove_at_obtain [OF i] .
    obtain cs st1 where up: "shell_update opts sf r d m st = (cs, st1)" by fastforce
    have "taken pool m (remove_at i pool)" using m split unfolding taken_def by metis
    moreover have "message_weight m = 1" using m by (cases "pool ! i") (auto simp: message_weight_def)
    ultimately show ?thesis using update_tracked [OF I _ bd _ up] budget run i m by (auto simp: Complete up op_weight_def)
  next
    case False
    then show ?thesis using run I by (auto simp: Complete split: if_splits option.splits)
  qed
qed

lemma run_tracked_from:
  assumes "I (sh_surface st) (ld_requests (sh_ledger st)) (in_flight pool)" and "flight_ok st pool"
    and "bounded b (sh_ledger st)" and "b + B * sum_list (map op_weight ops) < 2 ^ 64"
    and "foldl (shell_system_step opts sf) (st, pool) ops = (st', pool')"
  shows "I (sh_surface st') (ld_requests (sh_ledger st')) (in_flight pool')"
  using assms
proof (induction ops arbitrary: st pool b)
  case (Cons x ops)
  obtain st1 pool1 where one: "shell_system_step opts sf (st, pool) x = (st1, pool1)" by fastforce
  have sum: "b + B * op_weight x + B * sum_list (map op_weight ops) < 2 ^ 64" using Cons.prems(4) by (simp add: distrib_left)
  have budget: "b + B * op_weight x < 2 ^ 64" using sum by simp
  note flight = system_step_flight [OF Cons.prems(2,3) budget one]
  have I: "I (sh_surface st1) (ld_requests (sh_ledger st1)) (in_flight pool1)"
    by (rule system_step_tracked [OF Cons.prems(1,3) budget one])
  show ?case using Cons.IH [of st1 pool1 "b + B * op_weight x"] I flight sum Cons.prems(5) one by simp
qed simp

lemma run_tracked:
  assumes new: "new_shell opts sf s = Inr st" and init: "I s (\<lambda>_. 0) []" and budget: "B * sum_list (map op_weight ops) < 2 ^ 64"
    and run: "foldl (shell_system_step opts sf) (st, []) ops = (st', pool)"
  shows "I (sh_surface st') (ld_requests (sh_ledger st')) (in_flight pool)"
proof -
  have "sh_surface st = s" "sh_ledger st = empty_ledger" using new by (auto simp: new_shell_def split: if_splits)
  then have "I (sh_surface st) (ld_requests (sh_ledger st)) (in_flight [])" using init by (simp add: empty_ledger_def)
  moreover have "flight_ok st ([] :: ('w, 'v) command list)" "bounded 0 (sh_ledger st)"
    using new_shell_flight [OF new] by blast+
  ultimately show ?thesis using run_tracked_from [of st "[]" 0 ops opts st' pool] budget run by simp
qed

end

subsection \<open>A current completion is delivered\<close>

lemma complete_delivers:
  assumes pure: "\<And>rc s. snd (sf_render sf rc s) = s"
    and i: "i < length pool" "pool ! i = RunCommand ctx k (ld_requests (sh_ledger st) k) corr wk"
    and valid: "wr_failed (fst (wk w)) \<or> valid_outcome (wr_code (fst (wk w)))"
  shows "\<exists>l. sh_surface (fst (shell_system_step opts sf (st, pool) (Complete i w r d))) =
    fst (snd (sf_update sf shell_context (ResultEvent k (ld_requests (sh_ledger st) k) corr (fst (wk w))) (sh_surface st) l))"
proof -
  let ?msg = "ResultMsg k (ld_requests (sh_ledger st) k) corr (fst (wk w))" and ?st0 = "st\<lparr>sh_suppress := False\<rparr>"
  obtain dc :: "('b, 'c) decoded" and st1 where dec: "decode_message opts r ?msg ?st0 = (dc, st1)" by fastforce
  obtain efs st2 where disp: "dispatch_decoded opts sf r (dc_event dc) st1 = (efs, st2)" by fastforce
  have ev: "dc_event dc = Some (ResultEvent k (ld_requests (sh_ledger st) k) corr (fst (wk w)))"
    using dec valid by (auto simp: decode_result_def plain_def quiet_def Let_def split: if_splits)
  have s1: "sh_surface st1 = sh_surface st" using decode_message_surface [OF dec] by simp
  have "sf_update sf shell_context (ResultEvent k (ld_requests (sh_ledger st) k) corr (fst (wk w))) (sh_surface st) (sh_ledger st1) =
      (efs, sh_surface st2, sh_ledger st2)" using dispatch_result disp ev s1 by metis
  moreover have "sh_surface (snd (shell_update opts sf r d ?msg st)) = sh_surface st2"
  proof -
    define ev where "ev = diagnostic_event dc st2"
    define st3 where "st3 = (case ev of None \<Rightarrow> st2 | Some e \<Rightarrow> if suppresses_event sf e st2 then st2\<lparr>sh_suppress := True\<rparr> else st2)"
    define st4 where "st4 = record_event opts (dc_code dc) (dc_outcome dc) (visual sf ?st0) (visual sf st3)
        (describe_event (so_segmenter opts) ev) (dc_duration dc) None st3"
    obtain cs0 st5 where eff: "run_effects opts sf efs st4 = (cs0, st5)" by fastforce
    have "snd (shell_update opts sf r d ?msg st) = (if dc_render dc then render_shell opts sf (d - r) st5 else st5)\<lparr>sh_suppress := False\<rparr>"
      by (simp only: shell_update_def Let_def dec disp ev_def [symmetric] st3_def [symmetric] st4_def [symmetric] eff
          prod.case snd_conv)
    moreover have "sh_surface (render_shell opts sf (d - r) st5) = sh_surface st5"
      using pure by (auto simp: render_shell_def Let_def split: prod.splits) (metis snd_conv)
    moreover have "sh_surface st5 = sh_surface st2"
      using run_effects_surface [OF eff] by (auto simp: st4_def st3_def split: option.splits)
    ultimately show ?thesis by simp
  qed
  moreover have "fst (shell_system_step opts sf (st, pool) (Complete i w r d)) = snd (shell_update opts sf r d ?msg st)"
    using i by (simp add: split_beta)
  ultimately show ?thesis by (metis fst_conv snd_conv)
qed

end
