(* ===== verification/Surfaces.thy ===== *)
theory Surfaces
  imports ShellTracked FormProtocol PickerRuns
begin

text \<open>
  The form and the picker as surfaces of the shell: their diagnostic state (\<open>DiagnosticState\<close>
  of ui/form/form.go and ui/interaction/picker.go), the interpretation of the contracts
  \<open>kit_surface\<close> and \<open>tracked_surface\<close> on them, and what follows for the shell that runs them.
  Drawing (ui/form/render.go, the render functions of the picker) reads the surface only; it
  is the argument \<open>draw\<close>.
\<close>

definition option_geometry :: "layout option \<Rightarrow> geometry" where
  "option_geometry lay = (case lay of
       None \<Rightarrow> \<lparr>geo_reported_columns = 0, geo_reported_rows = 0, geo_render_columns = 0, geo_render_rows = 0\<rparr>
     | Some la \<Rightarrow> shell_geometry la)"

fun form_state_name :: "form_state \<Rightarrow> string" where
  "form_state_name Pristine = ''pristine''"
| "form_state_name Editing = ''editing''"
| "form_state_name Invalid = ''invalid''"
| "form_state_name Applying = ''applying''"
| "form_state_name Applied = ''applied''"
| "form_state_name Failed = ''failed''"
| "form_state_name RollingBack = ''rolling-back''"
| "form_state_name RolledBack = ''rolled-back''"

definition form_visual :: "'w form \<Rightarrow> visual_state" where
  "form_visual m = \<lparr>vs_screen = ''form'', vs_focus = id_or_zero (ff_id (fm_fields m ! fm_focus m)), vs_selection = [],
     vs_state = id_or_zero (form_state_name (fm_state m)), vs_geometry = option_geometry (fm_layout m),
     vs_resize_generation = fm_resize_generation m,
     vs_request_generation = max (fm_apply_generation m) (fm_rollback_generation m),
     vs_item_count = int (length (fm_fields m)), vs_selected_index = int (fm_focus m),
     vs_pending = fm_pending_apply m \<or> fm_pending_rollback m,
     vs_has_error = fm_errors m \<noteq> [] \<or> fm_state m = Failed\<rparr>"

definition picker_state_name :: "('w, 'a) picker \<Rightarrow> string" where
  "picker_state_name p =
     (if pk_pending_activation p then ''activating'' else if pk_pending_load p then ''loading''
      else if pk_dirty p then ''debouncing'' else if pk_error p then ''error''
      else if pk_activated p then ''activated'' else if pk_loaded p \<and> picker_items p = [] then ''empty'' else ''ready'')"

definition picker_visual :: "('w, 'a) picker \<Rightarrow> visual_state" where
  "picker_visual p =
     (let (screen, focus) = (case pk_screen p of DetailScreen \<Rightarrow> (''picker.detail'', ''detail'')
            | HelpScreen \<Rightarrow> (''picker.help'', ''help'')
            | RootScreen \<Rightarrow> (''picker.root'', if pk_editing p then ''search'' else ''results''));
          selection = (case selected_item p of None \<Rightarrow> ''none'' | Some it \<Rightarrow> if it_disabled it then ''disabled'' else ''available'')
      in \<lparr>vs_screen = id_or_zero screen, vs_focus = id_or_zero focus, vs_selection = id_or_zero selection,
           vs_state = id_or_zero (picker_state_name p), vs_geometry = option_geometry (pk_layout p),
           vs_resize_generation = pk_resize_generation p, vs_request_generation = pk_load_generation p,
           vs_item_count = int (length (picker_items p)), vs_selected_index = int (pk_selected p),
           vs_pending = pk_dirty p \<or> pk_pending_load p \<or> pk_pending_activation p, vs_has_error = pk_error p\<rparr>)"

type_synonym 's drawing = "render_context \<Rightarrow> 's \<Rightarrow> frame option \<times> bool"

definition form_surface :: "segmenter \<Rightarrow> 'w form drawing \<Rightarrow> ('w form, 'w, form_result) surface" where
  "form_surface seg draw = \<lparr>sf_update = form_update seg, sf_render = (\<lambda>rc m. (draw rc m, m)), sf_visual = form_visual,
     sf_filter = None, sf_actions = Some \<lparr>as_catalog = form_catalog, as_context = form_context, as_state = form_action_state\<rparr>,
     sf_capture = None\<rparr>"

definition picker_surface ::
  "segmenter \<Rightarrow> string \<Rightarrow> ('w, 'a) picker drawing \<Rightarrow> (('w, 'a) picker, 'w, 'a picker_result) surface" where
  "picker_surface seg ns draw = \<lparr>sf_update = picker_update seg, sf_render = (\<lambda>rc p. (draw rc p, p)), sf_visual = picker_visual,
     sf_filter = None, sf_actions = Some \<lparr>as_catalog = picker_catalog ns, as_context = picker_context, as_state = picker_action_state\<rparr>,
     sf_capture = None\<rparr>"

subsection \<open>Both keep to the event context\<close>

definition answers_ok :: "('w, 'v) work \<Rightarrow> bool" where
  "answers_ok wk \<longleftrightarrow> (\<forall>w. wr_failed (fst (wk w)) \<or> valid_outcome (wr_code (fst (wk w))))"

definition fair :: "ledger \<Rightarrow> ('w, 'v) effect list \<times> 's \<times> ledger \<Rightarrow> bool" where
  "fair l s \<longleftrightarrow> (case s of (es, s', l') \<Rightarrow> emits 1 l es l' \<and> (\<forall>(k, g, wk) \<in> set (started es). answers_ok wk))"

lemma fair_if: "(c \<Longrightarrow> fair l s) \<Longrightarrow> (\<not> c \<Longrightarrow> fair l t) \<Longrightarrow> fair l (if c then s else t)"
  by simp

lemma fair_nothing: "fair l ([], s, l)"
  by (simp add: fair_def emits_done)

lemma fair_quit: "fair l ([QuitEffect], s, l)"
  by (simp add: fair_def emits_quit emits_done)

lemma fair_work: "start_work ctx k (Some wk) l = (Inr e, l') \<Longrightarrow> answers_ok wk \<Longrightarrow> fair l ([e], s, l')"
  using emits_one_work [of ctx k "Some wk" l e l'] by (auto simp: fair_def start_work_Inr)

lemma fair_timer: "start_timer ctx d c l = (Inr e, l') \<Longrightarrow> fair l ([e], s, l')"
  using emits_one_timer [of ctx d c l e l' 1] by (simp add: fair_def)

lemma fairD: "fair l (es, s', l') \<Longrightarrow> emits 1 l es l' \<and> (\<forall>(k, g, wk) \<in> set (started es). answers_ok wk)"
  by (simp add: fair_def)

lemma outcomes_valid: "valid_outcome ''applied''" "valid_outcome ''failed''"
  by (simp_all add: valid_outcome_def outcome_codes_def)

lemma form_work_answers: "answers_ok (apply_work ap v)" "answers_ok (rollback_work ap t)"
  by (auto simp: answers_ok_def apply_work_def rollback_work_def outcome_applied_def outcomes_valid split: prod.split)

lemma start_apply_fair: "fair l (start_apply ctx m l)"
  by (auto simp: start_apply_def Let_def intro: fair_nothing fair_work form_work_answers
      dest: start_work_Inl split: option.split prod.split sum.split bool.split)

lemma failing_answers: "answers_ok (\<lambda>w. (\<lparr>wr_value = v, wr_code = c, wr_failed = True\<rparr>, w))"
  by (simp add: answers_ok_def)

lemma start_rollback_fair: "fair l (start_rollback ctx m l)"
proof -
  have "answers_ok (case fo_apply (fm_options m) of Some ap \<Rightarrow> rollback_work ap (fm_token m)
      | None \<Rightarrow> (\<lambda>w. (\<lparr>wr_value = OtherResult, wr_code = outcome_failed, wr_failed = True\<rparr>, w)))"
    by (simp add: form_work_answers failing_answers split: option.split)
  then show ?thesis
    by (auto simp: start_rollback_def intro: fair_nothing fair_work dest: start_work_Inl split: prod.split sum.split)
qed

lemma form_key_fair: "fair l (form_key seg ctx k m l)"
  unfolding form_key_def Let_def by (intro fair_if fair_nothing fair_quit start_apply_fair)

lemma form_text_fair: "fair l (form_text seg ctx t alt m l)"
  unfolding form_text_def by (intro fair_if fair_nothing start_rollback_fair)

lemma form_action_fair: "fair l (form_action seg ctx i m l)"
  unfolding form_action_def
  by (intro fair_if fair_nothing) (auto intro: fair_nothing form_key_fair form_text_fair split: option.split)

lemma form_update_fair: "fair l (form_update seg ctx ev m l)"
  by (cases ev) (simp_all add: fair_nothing form_key_fair form_text_fair form_action_fair)

lemma picker_work_answers: "answers_ok (load_work ld q c app rv)" "answers_ok (activation_work act it)"
  by (auto simp: answers_ok_def load_work_def activation_work_def outcomes_valid split: prod.split option.split)

lemma start_load_fair: "fair l (start_load ctx c app p l)"
  by (auto simp: start_load_def Let_def intro: fair_nothing fair_work picker_work_answers
      dest: start_work_Inl split: prod.split sum.split)

lemma schedule_fair: "fair l (schedule_query_load ctx p l)"
  by (auto simp: schedule_query_load_def Let_def intro: fair_nothing fair_timer dest: start_timer_Inl split: prod.split sum.split)

lemma activate_fair: "fair l (activate_item ctx p l)"
  by (auto simp: activate_item_def intro: fair_nothing fair_work picker_work_answers dest: start_work_Inl
      split: prod.split sum.split option.split)

lemma next_page_fair: "fair l (next_page ctx p l)"
  unfolding next_page_def Let_def by (intro fair_if fair_nothing start_load_fair)

lemma open_fair: "fair l (open_or_activate ctx p l)"
  unfolding open_or_activate_def by (intro fair_if fair_nothing activate_fair)

lemma picker_key_fair: "fair l (picker_key seg ctx k p l)"
  unfolding picker_key_def Let_def split_beta
  by (intro fair_if fair_nothing fair_quit activate_fair open_fair next_page_fair schedule_fair)

lemma picker_text_fair: "fair l (picker_text seg ctx t p l)"
  unfolding picker_text_def
  by (intro fair_if fair_nothing fair_quit activate_fair open_fair next_page_fair schedule_fair)

lemma picker_action_fair: "fair l (picker_action seg ctx i p l)"
  unfolding picker_action_def
  by (intro fair_if fair_nothing picker_text_fair) (auto intro: fair_nothing picker_key_fair split: option.split)

lemma picker_update_fair: "fair l (picker_update seg ctx ev p l)"
  by (cases ev) (simp_all add: Let_def fair_nothing picker_key_fair picker_text_fair picker_action_fair start_load_fair)

interpretation fs: kit_surface "form_surface seg draw" 1 for seg draw
proof
  show "emits 1 l es l'" if "sf_update (form_surface seg draw) shell_context ev s l = (es, s', l')" for ev s l es s' l'
  proof -
    have "fair l (es, s', l')" using that form_update_fair [of l seg shell_context ev s] by (simp add: form_surface_def)
    from fairD [OF this] show ?thesis by simp
  qed
qed (simp add: form_surface_def)

interpretation ps: kit_surface "picker_surface seg ns draw" 1 for seg ns draw
proof
  show "emits 1 l es l'" if "sf_update (picker_surface seg ns draw) shell_context ev s l = (es, s', l')" for ev s l es s' l'
  proof -
    have "fair l (es, s', l')" using that picker_update_fair [of l seg shell_context ev s] by (simp add: picker_surface_def)
    from fairD [OF this] show ?thesis by simp
  qed
qed (simp add: picker_surface_def)

subsection \<open>The form in the shell\<close>

text \<open>The form's request is in flight exactly as it was started, for as long as the form waits.\<close>

definition form_waits :: "'w form \<Rightarrow> (string \<Rightarrow> 64 word) \<Rightarrow> ('w, form_result) request list \<Rightarrow> bool" where
  "form_waits m r X \<longleftrightarrow> fm_apply_generation m = r apply_key \<and> fm_rollback_generation m = r rollback_key \<and>
     (\<forall>(k, g, wk) \<in> set X. (k = apply_key \<or> k = rollback_key) \<and> answers_ok wk) \<and>
     (fm_pending_apply m \<longrightarrow> \<not> fm_pending_rollback m \<and> (\<exists>ap. fo_apply (fm_options m) = Some ap \<and>
        (apply_key, r apply_key, apply_work ap (fm_submitted m)) \<in> set X)) \<and>
     (fm_pending_rollback m \<longrightarrow> (\<exists>ap. fo_apply (fm_options m) = Some ap \<and>
        (rollback_key, r rollback_key, rollback_work ap (fm_token m)) \<in> set X)) \<and>
     (fm_token m \<noteq> [] \<or> fm_pending_apply m \<longrightarrow> fo_apply (fm_options m) \<noteq> None)"

definition wait_part :: "'w form \<Rightarrow> _" where
  "wait_part m = (fm_options m, fm_apply_generation m, fm_rollback_generation m, fm_pending_apply m, fm_pending_rollback m,
     fm_submitted m, fm_token m)"

lemma form_waits_part: "wait_part m' = wait_part m \<Longrightarrow> form_waits m' r X \<longleftrightarrow> form_waits m r X"
  by (simp add: form_waits_def wait_part_def)

lemma wait_part_simps [simp]:
  "wait_part (set_focused b m) = wait_part m" "wait_part (form_changed m) = wait_part m" "wait_part (edit_if e m) = wait_part m"
  "wait_part (m\<lparr>fm_focus := i\<rparr>) = wait_part m" "wait_part (m\<lparr>fm_layout := la\<rparr>) = wait_part m"
  "wait_part (m\<lparr>fm_resize_generation := g\<rparr>) = wait_part m" "wait_part (m\<lparr>fm_errors := es\<rparr>) = wait_part m"
  "wait_part (m\<lparr>fm_state := st\<rparr>) = wait_part m" "wait_part (m\<lparr>fm_rollback_values := v\<rparr>) = wait_part m"
  by (simp_all add: wait_part_def set_focused_def form_changed_def edit_if_def Let_def)

lemma form_validate_part: "form_validate m = (b, m') \<Longrightarrow> wait_part m' = wait_part m"
  by (auto simp: form_validate_def Let_def split: if_splits)

definition waits_step :: "ledger \<Rightarrow> ('w, form_result) request list \<Rightarrow> 'w form \<Rightarrow> 'w form_step \<Rightarrow> bool" where
  "waits_step l X m s \<longleftrightarrow> (case s of (es, m', l') \<Rightarrow> form_waits m' (ld_requests l') (X @ started es))"

lemma waits_if: "(c \<Longrightarrow> waits_step l X m s) \<Longrightarrow> (\<not> c \<Longrightarrow> waits_step l X m t) \<Longrightarrow> waits_step l X m (if c then s else t)"
  by simp

lemma waits_same: "form_waits m (ld_requests l) X \<Longrightarrow> wait_part m' = wait_part m \<Longrightarrow> started es = [] \<Longrightarrow> waits_step l X m (es, m', l)"
  using form_waits_part [of m' m] by (simp add: waits_step_def)

lemma start_apply_waits:
  assumes I: "form_waits m (ld_requests l) X"
  shows "waits_step l X m (start_apply ctx m l)"
proof (cases "fo_apply (fm_options m) = None \<or> fm_pending_apply m \<or> fm_pending_rollback m \<or> fm_compensation m")
  case True
  then have "start_apply ctx m l = ([], m, l)" by (auto simp: start_apply_def split: option.split)
  then show ?thesis using waits_same [OF I, of m "[]"] by simp
next
  case False
  then obtain ap where ap: "fo_apply (fm_options m) = Some ap" by auto
  obtain b m1 where v: "form_validate m = (b, m1)" by fastforce
  note part = form_validate_part [OF v]
  show ?thesis
  proof (cases b)
    case False
    then have "start_apply ctx m l = ([], m1, l)" using \<open>\<not> (_ \<or> _)\<close> ap v by (simp add: start_apply_def)
    then show ?thesis using waits_same [OF I part, of "[]"] by simp
  next
    case True
    define m2 where "m2 = m1\<lparr>fm_submitted := form_values m1, fm_rollback_values := fm_applied m1\<rparr>"
    have run: "start_apply ctx m l = (case start_work ctx apply_key (Some (apply_work ap (fm_submitted m2))) l of
         (Inl e, l') \<Rightarrow> ([], m2\<lparr>fm_state := Failed\<rparr>, l')
       | (Inr ef, l') \<Rightarrow> ([ef], m2\<lparr>fm_pending_apply := True, fm_apply_generation := fm_apply_generation m2 + 1,
            fm_state := Applying\<rparr>, l'))"
      using False ap v True unfolding m2_def by (simp add: start_apply_def Let_def)
    have idle: "\<not> fm_pending_apply m2" "\<not> fm_pending_rollback m2" "fo_apply (fm_options m2) = Some ap"
      "fm_apply_generation m2 = ld_requests l apply_key" "fm_rollback_generation m2 = ld_requests l rollback_key"
      using False part ap I by (simp_all add: m2_def wait_part_def form_waits_def)
    have X: "\<forall>(k, g, wk) \<in> set X. (k = apply_key \<or> k = rollback_key) \<and> answers_ok wk" using I by (simp add: form_waits_def)
    show ?thesis
    proof (cases "start_work ctx apply_key (Some (apply_work ap (fm_submitted m2))) l")
      case (Pair r l')
      then show ?thesis
      proof (cases r)
        case (Inl e)
        then have "l' = l" using Pair start_work_Inl by metis
        then show ?thesis using run Pair Inl idle X by (simp add: waits_step_def form_waits_def)
      next
        case (Inr ef)
        then have ef: "ef = WorkEffect apply_key (ld_requests l apply_key + 1) (correlation_id (ld_counter l + 1))
            (ld_correlations l apply_key) (apply_work ap (fm_submitted m2))"
          "ld_requests l' = (ld_requests l)(apply_key := ld_requests l apply_key + 1)"
          using Pair by (auto simp: start_work_Inr)
        have ne: "rollback_key \<noteq> apply_key" by (simp add: rollback_key_def apply_key_def)
        show ?thesis using run Pair Inr idle X ne ef form_work_answers
          by (auto simp: waits_step_def form_waits_def)
      qed
    qed
  qed
qed

lemma start_rollback_waits:
  assumes I: "form_waits m (ld_requests l) X" and may: "may_roll_back m"
  shows "waits_step l X m (start_rollback ctx m l)"
proof -
  have tok: "fm_token m \<noteq> []" "\<not> fm_pending_apply m" "\<not> fm_pending_rollback m" using may by (simp_all add: may_roll_back_def)
  then obtain ap where ap: "fo_apply (fm_options m) = Some ap" using I by (auto simp: form_waits_def)
  have X: "\<forall>(k, g, wk) \<in> set X. (k = apply_key \<or> k = rollback_key) \<and> answers_ok wk" using I by (simp add: form_waits_def)
  obtain r l' where sw: "start_work ctx rollback_key (Some (rollback_work ap (fm_token m))) l = (r, l')" by fastforce
  show ?thesis
  proof (cases r)
    case (Inl e)
    then have "l' = l" using sw start_work_Inl by metis
    then show ?thesis using Inl sw ap I tok by (simp add: start_rollback_def waits_step_def form_waits_def)
  next
    case (Inr ef)
    then have ef: "ef = WorkEffect rollback_key (ld_requests l rollback_key + 1) (correlation_id (ld_counter l + 1))
        (ld_correlations l rollback_key) (rollback_work ap (fm_token m))"
      "ld_requests l' = (ld_requests l)(rollback_key := ld_requests l rollback_key + 1)"
      using sw by (auto simp: start_work_Inr)
    have ne: "rollback_key \<noteq> apply_key" by (simp add: rollback_key_def apply_key_def)
    show ?thesis using Inr sw ap I tok X ne ef form_work_answers
      by (auto simp: start_rollback_def waits_step_def form_waits_def)
  qed
qed

lemma form_key_waits: "form_waits m (ld_requests l) X \<Longrightarrow> waits_step l X m (form_key seg ctx k m l)"
  unfolding form_key_def Let_def by (intro waits_if start_apply_waits waits_same) simp_all

lemma form_text_waits: "form_waits m (ld_requests l) X \<Longrightarrow> waits_step l X m (form_text seg ctx t alt m l)"
  unfolding form_text_def by (intro waits_if waits_same start_rollback_waits) simp_all

lemma form_action_waits: "form_waits m (ld_requests l) X \<Longrightarrow> waits_step l X m (form_action seg ctx i m l)"
  unfolding form_action_def
  by (intro waits_if waits_same) (auto intro: waits_same form_key_waits form_text_waits split: option.split)

lemma form_update_waits:
  assumes "form_waits m (ld_requests l) X" and "\<not> is_result ev"
  shows "waits_step l X m (form_update seg ctx ev m l)"
proof (cases ev)
  case (ResultEvent k g c r)
  then show ?thesis using assms(2) by (simp add: is_result_def)
qed (use assms(1) in \<open>simp_all add: form_key_waits form_text_waits form_action_waits waits_same\<close>)

lemma form_waits_less:
  assumes "form_waits m r (xs @ (k, g, wk) # ys)" and "g \<noteq> r k"
  shows "form_waits m r (xs @ ys)"
proof -
  have mem: "(a, r a, w) \<in> set (xs @ (k, g, wk) # ys) \<longleftrightarrow> (a, r a, w) \<in> set (xs @ ys)" for a w using assms(2) by auto
  have "\<forall>(k, g, wk) \<in> set (xs @ ys). (k = apply_key \<or> k = rollback_key) \<and> answers_ok wk"
    using assms(1) by (simp add: form_waits_def)
  then show ?thesis using assms(1) [unfolded form_waits_def mem] unfolding form_waits_def by argo
qed

text \<open>The current request answers: nothing is waited for under its key.\<close>

lemma form_resolve_waits:
  assumes "form_waits m r (xs @ (k, r k, wk) # ys)"
  shows "form_waits (form_resolve seg k (r k) res m) r (xs @ ys)"
proof -
  have k: "k = apply_key \<or> k = rollback_key" using assms by (auto simp: form_waits_def)
  have ne: "rollback_key \<noteq> apply_key" by (simp add: rollback_key_def apply_key_def)
  show ?thesis
  proof (cases "k = apply_key")
    case True
    show ?thesis
    proof (cases "fm_pending_apply m")
      case pend: True
      let ?m = "resolve_apply res m"
      have same: "fm_options ?m = fm_options m" "fm_apply_generation ?m = fm_apply_generation m"
        "fm_rollback_generation ?m = fm_rollback_generation m" "\<not> fm_pending_apply ?m" "fm_pending_rollback ?m = fm_pending_rollback m"
        by (simp_all add: resolve_apply_def Let_def split: form_result.split)
      then show ?thesis using assms True pend by (auto simp: form_waits_def form_resolve_def)
    next
      case False
      then show ?thesis using assms True ne by (auto simp: form_waits_def form_resolve_def)
    qed
  next
    case False
    then have kr: "k = rollback_key" using k by simp
    show ?thesis
    proof (cases "fm_pending_rollback m")
      case pend: True
      let ?m = "resolve_rollback seg res m"
      have same: "fm_options ?m = fm_options m" "fm_apply_generation ?m = fm_apply_generation m"
        "fm_rollback_generation ?m = fm_rollback_generation m" "fm_pending_apply ?m = fm_pending_apply m" "\<not> fm_pending_rollback ?m"
        "fm_token ?m = fm_token m \<or> fm_token ?m = []"
        by (simp_all add: resolve_rollback_def Let_def)
      then show ?thesis using assms kr pend ne by (auto simp: form_waits_def form_resolve_def)
    next
      case False
      then show ?thesis using assms kr ne by (auto simp: form_waits_def form_resolve_def)
    qed
  qed
qed

interpretation ft: tracked_surface "form_surface seg draw" 1 form_waits for seg draw
proof
  show "form_waits s' (ld_requests l') (X @ started es)"
    if "\<not> is_result ev" "form_waits s (ld_requests l) X"
      "sf_update (form_surface seg draw) shell_context ev s l = (es, s', l')" for ev s l X es s' l'
    using form_update_waits [OF that(2,1), of seg shell_context] that(3) by (simp add: form_surface_def waits_step_def)
  show "form_waits s r (xs @ ys)" if "form_waits s r (xs @ (k, g, wk) # ys)" "g \<noteq> r k" for s r xs k g wk ys
    using form_waits_less that .
  show "wr_failed (fst (wk w)) \<or> valid_outcome (wr_code (fst (wk w)))"
    if "form_waits s r X" "(k, g, wk) \<in> set X" for s r X k g wk w
    using that unfolding form_waits_def answers_ok_def by fast
  show "form_waits s' (ld_requests l') ((xs @ ys) @ started es)"
    if "form_waits s (ld_requests l) (xs @ (k, ld_requests l k, wk) # ys)"
      "sf_update (form_surface seg draw) shell_context (ResultEvent k (ld_requests l k) corr (fst (wk w))) s l = (es, s', l')"
    for s l xs k wk ys corr w es s' l'
    using form_resolve_waits [OF that(1), of seg "fst (wk w)"] that(2) by (auto simp: form_surface_def)
  show "form_waits s' r X" if "form_waits s r X" "sf_render (form_surface seg draw) rc s = (fr, s')" for s r X rc fr s'
    using that by (simp add: form_surface_def)
qed (simp add: form_surface_def)

end
