(* ===== verification/ShellProps.thy ===== *)
theory ShellProps
  imports Surfaces
begin

text \<open>
  The picker in the shell: the invariant of PickerLaws, stated over the requests in flight,
  is an invariant of the shell that runs the picker.
\<close>

definition effect_of :: "('w, 'v) request \<Rightarrow> ('w, 'v) effect" where
  "effect_of x = (case x of (k, g, wk) \<Rightarrow> WorkEffect k g [] [] wk)"

lemma effect_of_simps [simp]:
  "ef_key (effect_of (k, g, wk)) = k" "ef_generation (effect_of (k, g, wk)) = g" "ef_work (effect_of (k, g, wk)) = wk"
  by (simp_all add: effect_of_def)

definition bare_ledger :: "(string \<Rightarrow> 64 word) \<Rightarrow> ledger" where
  "bare_ledger r = empty_ledger\<lparr>ld_requests := r\<rparr>"

definition picker_in_sync :: "('w, 'a) picker_options \<Rightarrow> ('w, 'a) picker \<Rightarrow> (string \<Rightarrow> 64 word) \<Rightarrow> ('w, 'a picker_result) request list \<Rightarrow> bool" where
  "picker_in_sync opts p r X \<longleftrightarrow> pk_options p = opts \<and> sync_ok p (bare_ledger r) (map effect_of X) \<and> (\<forall>(k, g, wk) \<in> set X. answers_ok wk)"

text \<open>The invariant does not look at correlations.\<close>

definition bare :: "('w, 'v) effect \<Rightarrow> ('w, 'v) effect" where
  "bare e = WorkEffect (ef_key e) (ef_generation e) [] [] (ef_work e)"

lemma bare_simps [simp]: "ef_key (bare e) = ef_key e" "ef_generation (bare e) = ef_generation e" "ef_work (bare e) = ef_work e"
  by (simp_all add: bare_def)

lemma sync_ok_bare:
  assumes "ld_requests l' = ld_requests l"
  shows "sync_ok p l' (map bare pool) \<longleftrightarrow> sync_ok p l pool"
proof -
  have load: "is_load p (bare e) = is_load p e" "load_ok p (bare e) = load_ok p e" for e
    by (simp_all add: is_load_def load_ok_def)
  have "filter (is_load p) (map bare pool) = map bare (filter (is_load p) pool)" by (simp add: filter_map comp_def load)
  then have "flight_ok p (map bare pool) \<longleftrightarrow> PickerLaws.flight_ok p pool"
    by (simp add: PickerLaws.flight_ok_def load comp_def)
  moreover have "view_ok p l' = view_ok p l" using assms by (simp add: view_ok_def)
  ultimately show ?thesis by (simp add: sync_ok_split)
qed

lemma bare_started: "map bare (filter is_work es) = map effect_of (started es)"
  by (simp add: started_def effect_of_def bare_def)

lemma bare_effect_of: "map bare (map effect_of X) = map effect_of X"
  by (simp add: bare_def effect_of_def split: prod.split)

lemma bare_ledger_requests [simp]: "ld_requests (bare_ledger r) = r"
  by (simp add: bare_ledger_def)

lemma sync_bare_ledger: "sync_ok p (bare_ledger (ld_requests l)) (map effect_of X) \<longleftrightarrow> sync_ok p l (map effect_of X)"
  using sync_ok_bare [OF bare_ledger_requests, of p l "map effect_of X"] unfolding bare_effect_of .

lemma picker_budget:
  assumes "sync_ok p l pool" and "bounded b l" and "b + 1 < 2 ^ 64"
  shows "unat (pk_load_generation p) < 2 ^ 64 - 1"
proof -
  have "pk_load_generation p = ld_requests l (pk_load_key p)" using assms(1) unfolding sync_ok_def by metis
  then have "unat (pk_load_generation p) \<le> b" using assms(2) by (simp add: bounded_def)
  then show ?thesis using assms(3) by simp
qed

lemma picker_sync_update:
  assumes I: "picker_in_sync opts p (ld_requests l) X" and ev: "\<not> is_result ev" and bd: "bounded b l" "b + 1 < 2 ^ 64"
    and run: "picker_update seg shell_context ev p l = (es, p', l')"
  shows "picker_in_sync opts p' (ld_requests l') (X @ started es)"
proof -
  have ok: "sync_ok p l (map effect_of X)" using I by (simp add: picker_in_sync_def sync_bare_ledger)
  have "sync_ok p' l' (map effect_of X @ filter is_work es)" and opts: "pk_options p' = pk_options p"
    using picker_update_step [OF ok picker_budget [OF ok bd] ev, of seg] run by (simp_all add: step_ok_def)
  then have "sync_ok p' l' (map bare (map effect_of X @ filter is_work es))" by (simp only: sync_ok_bare [OF refl])
  then have "sync_ok p' l' (map effect_of (X @ started es))" by (simp only: map_append bare_started bare_effect_of)
  moreover have "\<forall>(k, g, wk) \<in> set (started es). answers_ok wk"
    using picker_update_fair [of l seg shell_context ev p] run fairD by metis
  ultimately show ?thesis using I opts by (auto simp: picker_in_sync_def sync_bare_ledger simp del: map_append)
qed

lemma picker_sync_stale:
  assumes I: "picker_in_sync opts p r (xs @ (k, g, wk) # ys)" and stale: "g \<noteq> r k"
  shows "picker_in_sync opts p r (xs @ ys)"
proof -
  let ?pool = "map effect_of (xs @ (k, g, wk) # ys)"
  have ok: "sync_ok p (bare_ledger r) ?pool" using I by (simp add: picker_in_sync_def)
  then have gen: "pk_load_generation p = r (pk_load_key p)" unfolding sync_ok_def bare_ledger_requests by blast
  have "distinct (map ef_generation (filter (is_load p) ?pool))" using ok unfolding sync_ok_def by blast
  then have dist: "distinct (map ef_generation (filter (is_load p) (map effect_of (xs @ ys))))" by (simp split: if_splits)
  have "sync_ok p (bare_ledger r) (map effect_of (xs @ ys))"
  proof (rule sync_ok_remove [OF ok _ dist])
    fix x
    assume x: "x \<in> set ?pool" "is_load p x" "ef_generation x = pk_load_generation p"
    then have "ef_key x = pk_load_key p" "ef_generation x = r (pk_load_key p)" using gen by (auto simp: is_load_def)
    then have "x \<noteq> effect_of (k, g, wk)" using stale effect_of_simps(1,2) by metis
    moreover have "set ?pool = insert (effect_of (k, g, wk)) (set (map effect_of (xs @ ys)))" by (simp add: insert_commute)
    ultimately show "x \<in> set (map effect_of (xs @ ys))" using x(1) by blast
  qed auto
  then show ?thesis using I by (simp add: picker_in_sync_def)
qed

lemma picker_sync_result:
  assumes I: "picker_in_sync opts p r (xs @ (k, r k, wk) # ys)"
  shows "picker_in_sync opts (picker_result k (r k) (fst (wk w)) p) r (xs @ ys)"
proof -
  let ?pool = "map effect_of (xs @ (k, r k, wk) # ys)" and ?e = "effect_of (k, r k, wk)"
  have ok: "sync_ok p (bare_ledger r) ?pool" using I by (simp add: picker_in_sync_def)
  have i: "length xs < length ?pool" and e: "?e = ?pool ! length xs" by (simp_all add: nth_append)
  have rm: "remove_at (length xs) ?pool = map effect_of (xs @ ys)" by (simp add: remove_at_def)
  from picker_result_ok [OF ok i e, of w] have "sync_ok (picker_result k (r k) (fst (wk w)) p) (bare_ledger r) (map effect_of (xs @ ys))"
    unfolding rm by simp
  then show ?thesis using I by (simp add: picker_in_sync_def picker_result_options)
qed

interpretation pt: tracked_surface "picker_surface seg ns draw" 1 "picker_in_sync opts" for seg ns draw opts
proof
  show "picker_in_sync opts s' (ld_requests l') (X @ started es)"
    if "\<not> is_result ev" "picker_in_sync opts s (ld_requests l) X" "bounded b l" "b + 1 < 2 ^ 64"
      "sf_update (picker_surface seg ns draw) shell_context ev s l = (es, s', l')" for ev s l X b es s' l'
    using picker_sync_update [OF that(2,1,3,4)] that(5) by (simp add: picker_surface_def)
  show "picker_in_sync opts s r (xs @ ys)" if "picker_in_sync opts s r (xs @ (k, g, wk) # ys)" "g \<noteq> r k" for s r xs k g wk ys
    using picker_sync_stale that .
  show "wr_failed (fst (wk w)) \<or> valid_outcome (wr_code (fst (wk w)))"
    if "picker_in_sync opts s r X" "(k, g, wk) \<in> set X" for s r X k g wk w
    using that unfolding picker_in_sync_def answers_ok_def by fast
  show "picker_in_sync opts s' (ld_requests l') ((xs @ ys) @ started es)"
    if "picker_in_sync opts s (ld_requests l) (xs @ (k, ld_requests l k, wk) # ys)"
      "sf_update (picker_surface seg ns draw) shell_context (ResultEvent k (ld_requests l k) corr (fst (wk w))) s l = (es, s', l')"
    for s l xs k wk ys corr w es s' l'
    using picker_sync_result [OF that(1), of w] that(2) by (auto simp: picker_surface_def)
  show "picker_in_sync opts s' r X" if "picker_in_sync opts s r X" "sf_render (picker_surface seg ns draw) rc s = (fr, s')" for s r X rc fr s'
    using that by (simp add: picker_surface_def)
qed (simp add: picker_surface_def)

section \<open>Forms and pickers in the shell\<close>

text \<open>What the shell guarantees of its requests, and of the form and the picker it runs.\<close>

text \<open>
  C33: in every state a shell with a kit surface can reach, whatever messages arrive and in
  whatever order and world its commands complete, each request key has at most one command
  that is not cancelled; it is the one the shell would cancel, and every other request of the
  key still in flight is older.
\<close>

theorem one_live_request_per_key:
  assumes "kit_surface sf B" and "new_shell opts sf s = Inr st0"
    and "B * sum_list (map op_weight ops) < 2 ^ 64"
    and "foldl (shell_system_step opts sf) (st0, []) ops = (st, pool)"
  shows "length (live st k pool) \<le> 1 \<and>
    (\<forall>c \<in> set (live st k pool). map_of (sh_cancels st) k = Some (cmd_context c) \<and>
       (\<forall>d \<in> set (runs k pool). cmd_context d \<noteq> cmd_context c \<longrightarrow> gen_of d < gen_of c))"
proof -
  have "ShellSystem.flight_ok st0 ([] :: ('b, 'c) command list)" "bounded 0 (sh_ledger st0)" using new_shell_flight [OF assms(2)] by blast+
  then have "ShellSystem.flight_ok st pool" using kit_surface.run_flight [OF assms(1), of st0 "[]" 0] assms(3,4) by simp
  then show ?thesis using flight_live by blast
qed

subsection \<open>The form\<close>

lemma in_flight_index:
  assumes "(k, g, wk) \<in> set (in_flight pool)"
  shows "\<exists>i ctx corr. i < length pool \<and> pool ! i = RunCommand ctx k g corr wk"
proof -
  obtain c where c: "c \<in> set pool" "is_run c" "(k, g, wk) = (cmd_key c, cmd_generation c, cmd_work c)"
    using assms by (auto simp: in_flight_def)
  have "c = RunCommand (cmd_context c) (cmd_key c) (cmd_generation c) (cmd_correlation c) (cmd_work c)"
    using c(2) by (cases c) (simp_all add: is_run_def)
  then have "c = RunCommand (cmd_context c) k g (cmd_correlation c) wk" using c(3) by simp
  then show ?thesis using c(1) by (metis in_set_conv_nth)
qed

lemma form_run_waits:
  assumes "new_form seg fopts = Inr m0" and "new_shell opts (form_surface seg draw) m0 = Inr st0"
    and "sum_list (map op_weight ops) < 2 ^ 64"
    and "foldl (shell_system_step opts (form_surface seg draw)) (st0, []) ops = (st, pool)"
  shows "form_waits (sh_surface st) (ld_requests (sh_ledger st)) (in_flight pool)"
  by (rule ft.run_tracked [OF assms(2) _ _ assms(4)])
    (use new_form_fields [OF assms(1)] assms(3) in \<open>simp_all add: form_waits_def\<close>)

text \<open>
  While a form in the shell waits for an apply or a rollback, exactly that work, with the
  values submitted or the token kept, and the newest generation of its key, is in flight.
\<close>

theorem shell_form_waits_for_its_work:
  assumes "new_form seg fopts = Inr m0" and "new_shell opts (form_surface seg draw) m0 = Inr st0"
    and "sum_list (map op_weight ops) < 2 ^ 64"
    and "foldl (shell_system_step opts (form_surface seg draw)) (st0, []) ops = (st, pool)"
  shows "(fm_pending_apply (sh_surface st) \<longrightarrow> (\<exists>ap. fo_apply (fm_options (sh_surface st)) = Some ap \<and>
      (apply_key, ld_requests (sh_ledger st) apply_key, apply_work ap (fm_submitted (sh_surface st))) \<in> set (in_flight pool))) \<and>
    (fm_pending_rollback (sh_surface st) \<longrightarrow> (\<exists>ap. fo_apply (fm_options (sh_surface st)) = Some ap \<and>
      (rollback_key, ld_requests (sh_ledger st) rollback_key, rollback_work ap (fm_token (sh_surface st))) \<in> set (in_flight pool)))"
  using form_run_waits [OF assms] unfolding form_waits_def by blast

text \<open>A current request of the form is answered by the form itself.\<close>

lemma form_answered:
  assumes run: "form_waits (sh_surface st) (ld_requests (sh_ledger st)) (in_flight pool)"
    and mem: "(k, ld_requests (sh_ledger st) k, wk) \<in> set (in_flight pool)"
  shows "\<exists>i < length pool. \<forall>w r d.
    sh_surface (fst (shell_system_step opts (form_surface seg draw) (st, pool) (Complete i w r d))) =
      form_resolve seg k (ld_requests (sh_ledger st) k) (fst (wk w)) (sh_surface st)"
proof -
  obtain i ctx corr where i: "i < length pool" "pool ! i = RunCommand ctx k (ld_requests (sh_ledger st) k) corr wk"
    using in_flight_index [OF mem] by blast
  have valid: "wr_failed (fst (wk w)) \<or> valid_outcome (wr_code (fst (wk w)))" for w
    using run mem unfolding form_waits_def answers_ok_def by fast
  have pure: "snd (sf_render (form_surface seg draw) rc m) = m" for rc m by (simp add: form_surface_def)
  from complete_delivers [OF pure i valid] have
    "\<forall>w r d. sh_surface (fst (shell_system_step opts (form_surface seg draw) (st, pool) (Complete i w r d))) =
      form_resolve seg k (ld_requests (sh_ledger st) k) (fst (wk w)) (sh_surface st)"
    by (simp add: form_surface_def)
  then show ?thesis using i(1) by blast
qed

lemma resolve_apply_settles:
  assumes "fm_pending_apply m" and "fm_apply_generation m = g"
  shows "\<not> fm_pending_apply (form_resolve seg apply_key g (fst (apply_work ap (fm_submitted m) w)) m) \<and>
    (if snd (fst (ap_apply ap (fm_submitted m) w))
     then fm_state (form_resolve seg apply_key g (fst (apply_work ap (fm_submitted m) w)) m) = Failed
     else fm_applied (form_resolve seg apply_key g (fst (apply_work ap (fm_submitted m) w)) m) = fm_submitted m \<and>
       fm_token (form_resolve seg apply_key g (fst (apply_work ap (fm_submitted m) w)) m) = fst (fst (ap_apply ap (fm_submitted m) w)))"
  using assms by (auto simp: form_resolve_def resolve_apply_def apply_work_def Let_def split: prod.split)

lemma resolve_rollback_settles:
  assumes "fm_pending_rollback m" and "fm_rollback_generation m = g"
  shows "\<not> fm_pending_rollback (form_resolve seg rollback_key g (fst (rollback_work ap (fm_token m) w)) m) \<and>
    fm_state (form_resolve seg rollback_key g (fst (rollback_work ap (fm_token m) w)) m) =
      (if fst (ap_rollback ap (fm_token m) w) then Failed else RolledBack)"
proof -
  have "rollback_key \<noteq> apply_key" by (simp add: rollback_key_def apply_key_def)
  then show ?thesis using assms
    by (auto simp: form_resolve_def resolve_rollback_def rollback_work_def Let_def split: prod.split)
qed

text \<open>
  C10: a form in the shell is never stuck.  In every reachable state that waits for an apply
  there is a command in flight whose completion, in any world, ends the wait: in the failed
  state if the applier failed there, and else with the submitted values as the applied ones
  and the applier's token.
\<close>

theorem shell_form_apply_completes:
  assumes "new_form seg fopts = Inr m0" and "new_shell opts (form_surface seg draw) m0 = Inr st0"
    and "sum_list (map op_weight ops) < 2 ^ 64"
    and "foldl (shell_system_step opts (form_surface seg draw)) (st0, []) ops = (st, pool)"
    and "fm_pending_apply (sh_surface st)"
  shows "\<exists>ap. fo_apply (fm_options (sh_surface st)) = Some ap \<and> (\<exists>i < length pool. \<forall>w r d.
    case shell_system_step opts (form_surface seg draw) (st, pool) (Complete i w r d) of (st', pool') \<Rightarrow>
      \<not> fm_pending_apply (sh_surface st') \<and>
      (case ap_apply ap (fm_submitted (sh_surface st)) w of ((token, failed), w') \<Rightarrow>
         if failed then fm_state (sh_surface st') = Failed
         else fm_applied (sh_surface st') = fm_submitted (sh_surface st) \<and> fm_token (sh_surface st') = token))"
proof -
  let ?m = "sh_surface st" and ?r = "ld_requests (sh_ledger st)"
  note waits = form_run_waits [OF assms(1-4)]
  then obtain ap where ap: "fo_apply (fm_options ?m) = Some ap"
      "(apply_key, ?r apply_key, apply_work ap (fm_submitted ?m)) \<in> set (in_flight pool)"
    and gen: "fm_apply_generation ?m = ?r apply_key" using assms(5) unfolding form_waits_def by blast
  obtain i where i: "i < length pool" and out: "\<forall>w r d.
      sh_surface (fst (shell_system_step opts (form_surface seg draw) (st, pool) (Complete i w r d))) =
        form_resolve seg apply_key (?r apply_key) (fst (apply_work ap (fm_submitted ?m) w)) ?m"
    using form_answered [OF waits ap(2), of opts seg draw] by blast
  have "case shell_system_step opts (form_surface seg draw) (st, pool) (Complete i w r d) of (st', pool') \<Rightarrow>
      \<not> fm_pending_apply (sh_surface st') \<and>
      (case ap_apply ap (fm_submitted (sh_surface st)) w of ((token, failed), w') \<Rightarrow>
         if failed then fm_state (sh_surface st') = Failed
         else fm_applied (sh_surface st') = fm_submitted (sh_surface st) \<and> fm_token (sh_surface st') = token)" for w r d
  proof -
    have "sh_surface (fst (shell_system_step opts (form_surface seg draw) (st, pool) (Complete i w r d))) =
        form_resolve seg apply_key (?r apply_key) (fst (apply_work ap (fm_submitted ?m) w)) ?m" using out by blast
    then show ?thesis using resolve_apply_settles [OF assms(5) gen, of seg ap w] by (simp add: split_beta del: shell_system_step.simps)
  qed
  then show ?thesis using ap(1) i by blast
qed

text \<open>
  Likewise for a rollback: some command in flight ends the wait in any world, in the
  failed state if the applier's rollback failed there and else rolled back.
\<close>

theorem shell_form_rollback_completes:
  assumes "new_form seg fopts = Inr m0" and "new_shell opts (form_surface seg draw) m0 = Inr st0"
    and "sum_list (map op_weight ops) < 2 ^ 64"
    and "foldl (shell_system_step opts (form_surface seg draw)) (st0, []) ops = (st, pool)"
    and "fm_pending_rollback (sh_surface st)"
  shows "\<exists>ap. fo_apply (fm_options (sh_surface st)) = Some ap \<and> (\<exists>i < length pool. \<forall>w r d.
    case shell_system_step opts (form_surface seg draw) (st, pool) (Complete i w r d) of (st', pool') \<Rightarrow>
      \<not> fm_pending_rollback (sh_surface st') \<and>
      fm_state (sh_surface st') = (if fst (ap_rollback ap (fm_token (sh_surface st)) w) then Failed else RolledBack))"
proof -
  let ?m = "sh_surface st" and ?r = "ld_requests (sh_ledger st)"
  note waits = form_run_waits [OF assms(1-4)]
  then obtain ap where ap: "fo_apply (fm_options ?m) = Some ap"
      "(rollback_key, ?r rollback_key, rollback_work ap (fm_token ?m)) \<in> set (in_flight pool)"
    and gen: "fm_rollback_generation ?m = ?r rollback_key" using assms(5) unfolding form_waits_def by blast
  obtain i where i: "i < length pool" and out: "\<forall>w r d.
      sh_surface (fst (shell_system_step opts (form_surface seg draw) (st, pool) (Complete i w r d))) =
        form_resolve seg rollback_key (?r rollback_key) (fst (rollback_work ap (fm_token ?m) w)) ?m"
    using form_answered [OF waits ap(2), of opts seg draw] by blast
  have "case shell_system_step opts (form_surface seg draw) (st, pool) (Complete i w r d) of (st', pool') \<Rightarrow>
      \<not> fm_pending_rollback (sh_surface st') \<and>
      fm_state (sh_surface st') = (if fst (ap_rollback ap (fm_token (sh_surface st)) w) then Failed else RolledBack)" for w r d
  proof -
    have "sh_surface (fst (shell_system_step opts (form_surface seg draw) (st, pool) (Complete i w r d))) =
        form_resolve seg rollback_key (?r rollback_key) (fst (rollback_work ap (fm_token ?m) w)) ?m" using out by blast
    then show ?thesis using resolve_rollback_settles [OF assms(5) gen, of seg ap w] by (simp add: split_beta del: shell_system_step.simps)
  qed
  then show ?thesis using ap(1) i by blast
qed

subsection \<open>The picker\<close>

text \<open>
  C34: the shell keeps the picker's promise: in every reachable state, unless an edit waits for
  its load, the pages shown are a gapless chain of the provider's answers for the query as it
  stands, and the page index is in range.
\<close>

theorem shell_picker_pages_current:
  assumes "new_picker popts = Inr p0" and "new_shell opts (picker_surface seg ns draw) p0 = Inr st0"
    and "sum_list (map op_weight ops) < 2 ^ 64"
    and "foldl (shell_system_step opts (picker_surface seg ns draw)) (st0, []) ops = (st, pool)"
  shows "(\<not> pk_dirty (sh_surface st) \<longrightarrow>
      pages_for (po_load popts) (buf_text (pk_query (sh_surface st))) (pk_pages (sh_surface st))) \<and>
    (if pk_pages (sh_surface st) = [] then pk_index (sh_surface st) = 0
     else pk_index (sh_surface st) < length (pk_pages (sh_surface st)))"
proof -
  have "picker_in_sync popts p0 (\<lambda>_. 0) []"
    using new_picker_ok [OF assms(1)] sync_bare_ledger [of p0 empty_ledger "[]"]
    by (simp add: picker_in_sync_def empty_ledger_def)
  then have "picker_in_sync popts (sh_surface st) (ld_requests (sh_ledger st)) (in_flight pool)"
    by (rule pt.run_tracked [OF assms(2) _ _ assms(4)]) (use assms(3) in simp)
  then show ?thesis unfolding picker_in_sync_def sync_ok_def by metis
qed

subsection \<open>Evaluating a run\<close>

text \<open>
  Code equations for \<open>shell_update\<close> and the system step in which every intermediate value is an
  argument, so that evaluation does not look into the body of a \<open>let\<close> before its value is known.
\<close>

definition mark_suppressed :: "('s, 'w, 'v) surface \<Rightarrow> 'v shell_event option \<Rightarrow> 's shell \<Rightarrow> 's shell" where
  "mark_suppressed sf ev st =
     (case ev of None \<Rightarrow> st | Some e \<Rightarrow> if suppresses_event sf e st then st\<lparr>sh_suppress := True\<rparr> else st)"

definition log_update ::
  "shell_options \<Rightarrow> ('s, 'w, 'v) surface \<Rightarrow> visual_state \<Rightarrow> ('w, 'v) decoded \<Rightarrow> 'v shell_event option \<Rightarrow> 's shell \<Rightarrow> 's shell" where
  "log_update opts sf before d ev st = record_event opts (dc_code d) (dc_outcome d) before (visual sf st)
     (describe_event (so_segmenter opts) ev) (dc_duration d) None st"

definition logged ::
  "shell_options \<Rightarrow> ('s, 'w, 'v) surface \<Rightarrow> visual_state \<Rightarrow> ('w, 'v) decoded \<Rightarrow> ('s, 'w, 'v) dispatch \<Rightarrow> ('s, 'w, 'v) dispatch" where
  "logged opts sf before d r = (fst r, log_update opts sf before d (diagnostic_event d (snd r))
     (mark_suppressed sf (diagnostic_event d (snd r)) (snd r)))"

definition finished ::
  "shell_options \<Rightarrow> ('s, 'w, 'v) surface \<Rightarrow> int \<Rightarrow> ('w, 'v) decoded \<Rightarrow> ('w, 'v) command list \<times> 's shell \<Rightarrow>
     ('w, 'v) command list \<times> 's shell" where
  "finished opts sf elapsed d r =
     (fst r @ (case dc_extra d of None \<Rightarrow> [] | Some c \<Rightarrow> [c]),
      (if dc_render d then render_shell opts sf elapsed (snd r) else snd r)\<lparr>sh_suppress := False\<rparr>)"

definition run_dispatch ::
  "shell_options \<Rightarrow> ('s, 'w, 'v) surface \<Rightarrow> ('s, 'w, 'v) dispatch \<Rightarrow> ('w, 'v) command list \<times> 's shell" where
  "run_dispatch opts sf r = run_effects opts sf (fst r) (snd r)"

definition decoded_update ::
  "shell_options \<Rightarrow> ('s, 'w, 'v) surface \<Rightarrow> int \<Rightarrow> int \<Rightarrow> visual_state \<Rightarrow> ('w, 'v) decoded \<times> 's shell \<Rightarrow>
     ('w, 'v) command list \<times> 's shell" where
  "decoded_update opts sf received drawn before q = finished opts sf (drawn - received) (fst q)
     (run_dispatch opts sf (logged opts sf before (fst q) (dispatch_decoded opts sf received (dc_event (fst q)) (snd q))))"

definition join_pool :: "('w, 'v) command list \<Rightarrow> ('w, 'v) command list \<times> 's shell \<Rightarrow> ('s, 'w, 'v) shell_system" where
  "join_pool pool r = (snd r, pool @ fst r)"

lemma shell_update_code [code]:
  "shell_update opts sf received drawn msg st = decoded_update opts sf received drawn (visual sf (st\<lparr>sh_suppress := False\<rparr>))
     (decode_message opts received msg (st\<lparr>sh_suppress := False\<rparr>))"
  by (simp add: shell_update_def decoded_update_def run_dispatch_def logged_def finished_def log_update_def mark_suppressed_def
      Let_def split_beta split: option.split)

lemma shell_system_step_code [code]:
  "shell_system_step opts sf (st, pool) (External m received drawn) =
     (if is_external m then join_pool pool (shell_update opts sf received drawn m st) else (st, pool))"
  "shell_system_step opts sf (st, pool) (Complete i w received drawn) =
     (if i < length pool then
        case completion (pool ! i) w of
          None \<Rightarrow> (st, pool)
        | Some m \<Rightarrow> join_pool (remove_at i pool) (shell_update opts sf received drawn m st)
      else (st, pool))"
  by (simp_all add: join_pool_def split_beta split: option.split)

subsection \<open>Concrete runs\<close>

definition sample_shell_options :: shell_options where
  "sample_shell_options = \<lparr>so_observe = False, so_plugin = ''sample'', so_theme = ''terminal'', so_sink = (\<lambda>_ _. False),
     so_keymap = None, so_draw = (\<lambda>w h t wrap. \<lparr>fr_width = w, fr_height = h,
       fr_fit = \<lparr>fit_observations = None, fit_omitted = 0\<rparr>, fr_ansi = t\<rparr>),
     so_unicode = ascii_tables, so_segmenter = rune_segmenter\<rparr>"

definition no_drawing :: "'s drawing" where "no_drawing = (\<lambda>_ _. (None, False))"

abbreviation name_surface :: "(name_world form, name_world, form_result) surface" where
  "name_surface \<equiv> form_surface rune_segmenter no_drawing"

definition press :: "tea_key \<Rightarrow> int list \<Rightarrow> bool \<Rightarrow> ('w, 'v) shell_op" where
  "press k rs alt = External (KeyMsg \<lparr>km_type = k, km_runes = rs, km_paste = False, km_alt = alt, km_string = []\<rparr>) 0 0"

definition name_shell :: "name_world form shell" where
  "name_shell = projr (new_shell sample_shell_options name_surface name_form)"

lemma name_shell_new: "new_shell sample_shell_options name_surface name_form = Inr name_shell"
  by (simp add: name_shell_def new_shell_def sample_shell_options_def)

definition apply_ops :: "(name_world, form_result) shell_op list" where
  "apply_ops = [press KeyRunes [98] False, press TeaEnter [] False]"

definition rollback_ops :: "(name_world, form_result) shell_op list" where
  "rollback_ops = apply_ops @ [Complete 0 [''a''] 0 0, press KeyRunes [114] True]"

abbreviation name_run :: "(name_world, form_result) shell_op list \<Rightarrow> (name_world form, name_world, form_result) shell_system" where
  "name_run ops \<equiv> foldl (shell_system_step sample_shell_options name_surface) (name_shell, []) ops"

lemma name_run_weights: "sum_list (map op_weight apply_ops) < 2 ^ 64" "sum_list (map op_weight rollback_ops) < 2 ^ 64"
proof -
  have "sum_list (map op_weight apply_ops) = 2" "sum_list (map op_weight rollback_ops) = 4" by code_simp+
  then show "sum_list (map op_weight apply_ops) < 2 ^ 64" "sum_list (map op_weight rollback_ops) < 2 ^ 64" by simp_all
qed

lemma name_run_pending:
  "fm_pending_apply (sh_surface (fst (name_run apply_ops)))" "fm_pending_rollback (sh_surface (fst (name_run rollback_ops)))"
  by code_simp+

theorem one_live_request_per_key_witness:
  "case name_run apply_ops of (st, pool) \<Rightarrow> length (live st apply_key pool) = 1 \<and>
    (\<forall>c \<in> set (live st apply_key pool). map_of (sh_cancels st) apply_key = Some (cmd_context c))"
proof -
  obtain st pool where run: "name_run apply_ops = (st, pool)" by fastforce
  have "length (live (fst (name_run apply_ops)) apply_key (snd (name_run apply_ops))) = 1" by code_simp
  moreover have "1 * sum_list (map op_weight apply_ops) < 2 ^ 64" using name_run_weights(1) by simp
  ultimately show ?thesis
    using one_live_request_per_key [OF fs.kit_surface_axioms name_shell_new _ run, of apply_key] run by simp
qed

theorem shell_form_waits_for_its_work_witness:
  "case name_run apply_ops of (st, pool) \<Rightarrow>
    \<exists>ap. (apply_key, 1, apply_work ap [(''name'', ''ab'')]) \<in> set (in_flight pool)"
proof -
  obtain st pool where run: "name_run apply_ops = (st, pool)" by fastforce
  have vals: "fm_submitted (sh_surface (fst (name_run apply_ops))) = [(''name'', ''ab'')]"
    "ld_requests (sh_ledger (fst (name_run apply_ops))) apply_key = 1" by code_simp+
  show ?thesis
    using shell_form_waits_for_its_work [OF name_form_new name_shell_new name_run_weights(1) run] name_run_pending(1) vals run
    by (auto simp del: shell_system_step.simps)
qed

theorem shell_form_apply_completes_witness:
  "case name_run apply_ops of (st, pool) \<Rightarrow> \<exists>i < length pool. \<forall>w r d.
    \<not> fm_pending_apply (sh_surface (fst (shell_system_step sample_shell_options name_surface (st, pool) (Complete i w r d))))"
proof -
  obtain st pool where run: "name_run apply_ops = (st, pool)" by fastforce
  have "fm_pending_apply (sh_surface st)" using name_run_pending(1) unfolding run by simp
  from shell_form_apply_completes [OF name_form_new name_shell_new name_run_weights(1) run this]
  show ?thesis unfolding run by (auto simp: split_beta simp del: shell_system_step.simps)
qed

theorem shell_form_rollback_completes_witness:
  "case name_run rollback_ops of (st, pool) \<Rightarrow> \<exists>i < length pool. \<forall>w r d.
    \<not> fm_pending_rollback (sh_surface (fst (shell_system_step sample_shell_options name_surface (st, pool) (Complete i w r d))))"
proof -
  obtain st pool where run: "name_run rollback_ops = (st, pool)" by fastforce
  have "fm_pending_rollback (sh_surface st)" using name_run_pending(2) unfolding run by simp
  from shell_form_rollback_completes [OF name_form_new name_shell_new name_run_weights(2) run this]
  show ?thesis unfolding run by (auto simp: split_beta simp del: shell_system_step.simps)
qed

abbreviation item_surface :: "((unit, unit) picker, unit, unit picker_result) surface" where
  "item_surface \<equiv> picker_surface rune_segmenter ''items'' no_drawing"

definition item_shell :: "(unit, unit) picker shell" where
  "item_shell = projr (new_shell sample_shell_options item_surface sample_picker)"

lemma item_shell_new: "new_shell sample_shell_options item_surface sample_picker = Inr item_shell"
  by (simp add: item_shell_def new_shell_def sample_shell_options_def)

definition item_ops :: "(unit, unit picker_result) shell_op list" where
  "item_ops = [External (WindowSizeMsg 80 24) 0 0, Complete 0 () 1 1, Complete 0 () 2 2]"

abbreviation item_run :: "((unit, unit) picker, unit, unit picker_result) shell_system" where
  "item_run \<equiv> foldl (shell_system_step sample_shell_options item_surface) (item_shell, []) item_ops"

theorem shell_picker_pages_current_witness:
  "case item_run of (st, pool) \<Rightarrow> length (pk_pages (sh_surface st)) = 1 \<and>
    pages_for (po_load sample_picker_options) [] (pk_pages (sh_surface st))"
proof -
  obtain st pool where run: "item_run = (st, pool)" by fastforce
  have "length (pk_pages (sh_surface (fst item_run))) = 1" "\<not> pk_dirty (sh_surface (fst item_run))"
    "buf_text (pk_query (sh_surface (fst item_run))) = []" by code_simp+
  moreover have "sum_list (map op_weight item_ops) = 3" by code_simp
  then have "sum_list (map op_weight item_ops) < 2 ^ 64" by simp
  ultimately show ?thesis using shell_picker_pages_current [OF sample_picker_new item_shell_new _ run] run by simp
qed

end
