(* ===== verification/Events.thy ===== *)
theory Events
  imports Semantic
begin

text \<open>
  The persisted diagnostics event (diagnostics/types.go): its shape, the configuration of a
  recorder and their validation, the bounded walk over detail values, and the sanitising step
  of diagnostics/recorder.go with the redaction of detail trees (diagnostics/privacy.go).

  Detail values are trees: a Go map is the list of its members in key order (the code sorts
  the keys wherever it ranges over one), and values that are no JSON carry their kind.  The
  cycle check of the walk has nothing to find in a tree and is left out, as is the path that
  an error message names.  JSON encoding, \<open>snapshot.Redact\<close> and the sensitive-key patterns are
  the arguments collected in \<open>codec\<close>.  Times are nanoseconds since Go's zero time.
\<close>

datatype jvalue =
    JNull | JBool bool | JString string | JInteger int | JFloat int int | JNonFinite | JUnsupported
  | JArray "jvalue list"
  | JObject "(string \<times> jvalue) list"

type_synonym details = "(string \<times> jvalue) list"

record ui_snapshot =
  us_name :: string
  us_text :: string
  us_truncated :: bool

record screenshot =
  sc_name :: string
  sc_path :: string
  sc_media :: string
  sc_sha :: string

record event =
  ev_version :: int
  ev_sequence :: "64 word"
  ev_time :: int
  ev_level :: string
  ev_kind :: string
  ev_plugin :: string
  ev_component :: string
  ev_action :: string
  ev_correlation :: string
  ev_message :: string
  ev_details :: "details option"
  ev_details_truncated :: bool
  ev_snapshot :: "ui_snapshot option"
  ev_screenshot :: "screenshot option"

definition event_schema_version :: int where "event_schema_version = 1"

record config =
  cf_directory :: string
  cf_max_events :: int
  cf_max_bytes :: int
  cf_max_age :: int
  cf_max_detail :: int
  cf_max_snapshot :: int
  cf_max_report :: int

datatype config_error =
  EmptyDirectory | BadMaxEvents | SmallMaxBytes | LargeMaxBytes | BadMaxAge | BadMaxDetail | BadMaxSnapshot | SmallMaxReport

definition default_config :: "string \<Rightarrow> config" where
  "default_config dir = \<lparr>cf_directory = dir, cf_max_events = 100000, cf_max_bytes = 128 * 2 ^ 20,
     cf_max_age = 14 * 24 * 3600 * 10 ^ 9, cf_max_detail = 2 ^ 20, cf_max_snapshot = 2 * 2 ^ 20, cf_max_report = 32 * 2 ^ 20\<rparr>"

definition validate_config :: "config \<Rightarrow> config_error option" where
  "validate_config cf =
     first_err (guard_err (cf_directory cf = []) EmptyDirectory)
    (first_err (guard_err (cf_max_events cf \<le> 0) BadMaxEvents)
    (first_err (guard_err (cf_max_bytes cf < 1024) SmallMaxBytes)
    (first_err (guard_err (cf_max_bytes cf > 2 ^ 30) LargeMaxBytes)
    (first_err (guard_err (cf_max_age cf \<le> 0) BadMaxAge)
    (first_err (guard_err (cf_max_detail cf \<le> 0) BadMaxDetail)
    (first_err (guard_err (cf_max_snapshot cf \<le> 0) BadMaxSnapshot)
      (guard_err (cf_max_report cf < 1024) SmallMaxReport)))))))"

lemma default_config_valid: "dir \<noteq> [] \<Longrightarrow> validate_config (default_config dir) = None"
  by (simp add: validate_config_def default_config_def)

subsection \<open>Detail values\<close>

datatype event_error =
  UnsupportedLevel | UnsupportedKind | EmptyMessage | TooDeep | TooManyNodes | NonFiniteNumber | UnsupportedValue

definition max_depth :: nat where "max_depth = 16"

definition max_nodes :: nat where "max_nodes = 4096"

text \<open>The walk threads the number of nodes seen so far.\<close>

fun walk :: "nat \<Rightarrow> jvalue \<Rightarrow> nat \<Rightarrow> event_error + nat" and walk_all :: "nat \<Rightarrow> jvalue list \<Rightarrow> nat \<Rightarrow> event_error + nat"
  and walk_members :: "nat \<Rightarrow> (string \<times> jvalue) list \<Rightarrow> nat \<Rightarrow> event_error + nat" where
  "walk depth v nodes =
     (if depth > max_depth then Inl TooDeep
      else if Suc nodes > max_nodes then Inl TooManyNodes
      else case v of
          JNonFinite \<Rightarrow> Inl NonFiniteNumber
        | JUnsupported \<Rightarrow> Inl UnsupportedValue
        | JArray vs \<Rightarrow> walk_all (Suc depth) vs (Suc nodes)
        | JObject ms \<Rightarrow> walk_members (Suc depth) ms (Suc nodes)
        | _ \<Rightarrow> Inr (Suc nodes))"
| "walk_all depth [] nodes = Inr nodes"
| "walk_all depth (v # vs) nodes = bind_res (walk depth v nodes) (walk_all depth vs)"
| "walk_members depth [] nodes = Inr nodes"
| "walk_members depth ((k, v) # ms) nodes = bind_res (walk depth v nodes) (walk_members depth ms)"

declare walk.simps [simp del]

definition validate_json :: "jvalue \<Rightarrow> event_error option" where
  "validate_json v = (case walk 0 v 0 of Inl e \<Rightarrow> Some e | Inr n \<Rightarrow> None)"

definition levels :: "string set" where "levels = {''debug'', ''info'', ''warn'', ''error''}"

definition kinds :: "string set" where "kinds = {''lifecycle'', ''interaction'', ''diagnostic''}"

text \<open>A nil map is validated as a map without members.\<close>

definition validate_event :: "event \<Rightarrow> event_error option" where
  "validate_event e =
     first_err (guard_err (ev_level e \<notin> levels) UnsupportedLevel)
    (first_err (guard_err (ev_kind e \<notin> kinds) UnsupportedKind)
    (first_err (guard_err (ev_message e = []) EmptyMessage)
      (validate_json (JObject (case ev_details e of None \<Rightarrow> [] | Some ms \<Rightarrow> ms)))))"

subsection \<open>Redaction and bounds\<close>

record codec =
  cd_marshal :: "event \<Rightarrow> string option"
  cd_unmarshal :: "string \<Rightarrow> event option"
  cd_details :: "details \<Rightarrow> string"
  cd_redact :: "string \<Rightarrow> string"
  cd_sensitive :: "string \<Rightarrow> bool"
  cd_unicode :: unicode

definition redacted_text :: string where "redacted_text = ''<redacted>''"

text \<open>\<open>result[key] = value\<close> on a Go map, the members kept in key order.\<close>

fun put_member :: "string \<Rightarrow> 'v \<Rightarrow> (string \<times> 'v) list \<Rightarrow> (string \<times> 'v) list" where
  "put_member k v [] = [(k, v)]"
| "put_member k v ((k', v') # ms) =
     (if k = k' then (k, v) # ms
      else if map byte k < map byte k' then (k, v) # (k', v') # ms
      else (k', v') # put_member k v ms)"

fun redact_value :: "codec \<Rightarrow> jvalue \<Rightarrow> jvalue" and redact_all :: "codec \<Rightarrow> jvalue list \<Rightarrow> jvalue list"
  and redact_members :: "codec \<Rightarrow> details \<Rightarrow> details \<Rightarrow> details" where
  "redact_value C (JString s) = JString (cd_redact C s)"
| "redact_value C (JArray vs) = JArray (redact_all C vs)"
| "redact_value C (JObject ms) = JObject (redact_members C ms [])"
| "redact_value C v = v"
| "redact_all C [] = []"
| "redact_all C (v # vs) = redact_value C v # redact_all C vs"
| "redact_members C [] acc = acc"
| "redact_members C ((k, v) # ms) acc =
     redact_members C ms
       (if cd_sensitive C k then put_member k (JString redacted_text) acc
        else put_member (cd_redact C k) (redact_value C v) acc)"

text \<open>\<open>strings.ToValidUTF8(s, "")\<close>: the bytes that decode to no rune are dropped.\<close>

definition to_valid_utf8 :: "string \<Rightarrow> string" where
  "to_valid_utf8 s = concat (map snd (filter (\<lambda>(r, b). \<not> (r = rune_error \<and> length b = 1)) (chunks s)))"

definition truncate :: "string \<Rightarrow> int \<Rightarrow> string \<times> bool" where
  "truncate v limit = (if int (length v) \<le> limit then (v, False) else (to_valid_utf8 (take (nat limit) v), True))"

definition sanitize_details :: "config \<Rightarrow> codec \<Rightarrow> event \<Rightarrow> event" where
  "sanitize_details cf C e =
     (case ev_details e of
        None \<Rightarrow> e
      | Some ms \<Rightarrow>
          (let ms' = redact_members C ms []; marker = [(''_truncated'', JBool True)] in
           if int (length (cd_details C ms')) > cf_max_detail cf
           then e\<lparr>ev_details := (if int (length (cd_details C marker)) \<le> cf_max_detail cf then Some marker else None),
                  ev_details_truncated := True\<rparr>
           else e\<lparr>ev_details := Some ms'\<rparr>))"

definition sanitize_snapshot :: "config \<Rightarrow> codec \<Rightarrow> ui_snapshot \<Rightarrow> ui_snapshot" where
  "sanitize_snapshot cf C s =
     (let (name, cut_name) = truncate (cd_redact C (us_name s)) (cf_max_snapshot cf);
          (body, cut_text) = truncate (cd_redact C (us_text s)) (cf_max_snapshot cf - int (length name))
      in \<lparr>us_name = name, us_text = body, us_truncated = us_truncated s \<or> cut_name \<or> cut_text\<rparr>)"

definition sanitize :: "config \<Rightarrow> codec \<Rightarrow> event \<Rightarrow> event" where
  "sanitize cf C e =
     (let red = cd_redact C;
          e1 = e\<lparr>ev_plugin := red (ev_plugin e), ev_component := red (ev_component e), ev_action := red (ev_action e),
                 ev_correlation := red (ev_correlation e), ev_message := red (ev_message e)\<rparr>;
          e2 = sanitize_details cf C e1
      in e2\<lparr>ev_snapshot := map_option (sanitize_snapshot cf C) (ev_snapshot e),
            ev_screenshot := map_option (\<lambda>s. \<lparr>sc_name = red (sc_name s), sc_path = red (sc_path s),
              sc_media = red (sc_media s), sc_sha = red (sc_sha s)\<rparr>) (ev_screenshot e)\<rparr>)"

lemma sanitize_fields [simp]:
  "ev_version (sanitize cf C e) = ev_version e" "ev_sequence (sanitize cf C e) = ev_sequence e"
  "ev_time (sanitize cf C e) = ev_time e" "ev_level (sanitize cf C e) = ev_level e" "ev_kind (sanitize cf C e) = ev_kind e"
  by (auto simp: sanitize_def sanitize_details_def Let_def split: option.split)

subsection \<open>Bounds\<close>

lemma length_filter_concat: "length (concat (map snd (filter P xs))) \<le> length (concat (map snd xs))"
  by (induction xs) auto

lemma length_to_valid_utf8: "length (to_valid_utf8 s) \<le> length s"
  using length_filter_concat [of "\<lambda>(r, b). \<not> (r = rune_error \<and> length b = 1)" "chunks s"]
  by (simp add: to_valid_utf8_def concat_chunks)

lemma length_truncate: "0 \<le> limit \<Longrightarrow> int (length (fst (truncate v limit))) \<le> limit"
proof -
  assume "0 \<le> limit"
  moreover have "length (to_valid_utf8 (take (nat limit) v)) \<le> nat limit"
    using length_to_valid_utf8 [of "take (nat limit) v"] by simp
  ultimately have "int (length (to_valid_utf8 (take (nat limit) v))) \<le> limit" by linarith
  then show ?thesis by (simp add: truncate_def)
qed

lemma sanitize_snapshot_bounded:
  assumes "0 < cf_max_snapshot cf"
  shows "int (length (us_name (sanitize_snapshot cf C s)) + length (us_text (sanitize_snapshot cf C s))) \<le> cf_max_snapshot cf"
proof -
  obtain name cn where name: "truncate (cd_redact C (us_name s)) (cf_max_snapshot cf) = (name, cn)" by fastforce
  obtain body ct where body: "truncate (cd_redact C (us_text s)) (cf_max_snapshot cf - int (length name)) = (body, ct)" by fastforce
  have n: "int (length name) \<le> cf_max_snapshot cf" using length_truncate [of "cf_max_snapshot cf" "cd_redact C (us_name s)"] name assms by simp
  then have "int (length body) \<le> cf_max_snapshot cf - int (length name)"
    using length_truncate [of "cf_max_snapshot cf - int (length name)" "cd_redact C (us_text s)"] body by simp
  then show ?thesis by (simp add: sanitize_snapshot_def name body)
qed

subsection \<open>What the walk admits\<close>

fun json_only :: "jvalue \<Rightarrow> bool" and json_only_all :: "jvalue list \<Rightarrow> bool" and json_only_members :: "details \<Rightarrow> bool" where
  "json_only JNonFinite = False"
| "json_only JUnsupported = False"
| "json_only (JArray vs) = json_only_all vs"
| "json_only (JObject ms) = json_only_members ms"
| "json_only _ = True"
| "json_only_all [] = True"
| "json_only_all (v # vs) = (json_only v \<and> json_only_all vs)"
| "json_only_members [] = True"
| "json_only_members ((k, v) # ms) = (json_only v \<and> json_only_members ms)"

fun nodes :: "jvalue \<Rightarrow> nat" and nodes_all :: "jvalue list \<Rightarrow> nat" and nodes_members :: "details \<Rightarrow> nat" where
  "nodes (JArray vs) = Suc (nodes_all vs)"
| "nodes (JObject ms) = Suc (nodes_members ms)"
| "nodes _ = 1"
| "nodes_all [] = 0"
| "nodes_all (v # vs) = nodes v + nodes_all vs"
| "nodes_members [] = 0"
| "nodes_members ((k, v) # ms) = nodes v + nodes_members ms"

fun height :: "jvalue \<Rightarrow> nat" and height_all :: "jvalue list \<Rightarrow> nat" and height_members :: "details \<Rightarrow> nat" where
  "height (JArray vs) = Suc (height_all vs)"
| "height (JObject ms) = Suc (height_members ms)"
| "height _ = 1"
| "height_all [] = 0"
| "height_all (v # vs) = max (height v) (height_all vs)"
| "height_members [] = 0"
| "height_members ((k, v) # ms) = max (height v) (height_members ms)"

lemma walk_Inr:
  "n \<le> max_nodes \<Longrightarrow> walk d v n = Inr m \<longleftrightarrow>
     json_only v \<and> n + nodes v \<le> max_nodes \<and> d + height v \<le> Suc max_depth \<and> m = n + nodes v"
  "n \<le> max_nodes \<Longrightarrow> d \<le> Suc max_depth \<Longrightarrow> walk_all d vs n = Inr m \<longleftrightarrow>
     json_only_all vs \<and> n + nodes_all vs \<le> max_nodes \<and> d + height_all vs \<le> Suc max_depth \<and> m = n + nodes_all vs"
  "n \<le> max_nodes \<Longrightarrow> d \<le> Suc max_depth \<Longrightarrow> walk_members d ms n = Inr m \<longleftrightarrow>
     json_only_members ms \<and> n + nodes_members ms \<le> max_nodes \<and> d + height_members ms \<le> Suc max_depth \<and>
     m = n + nodes_members ms"
proof (induction d v n and d vs n and d ms n arbitrary: m and m and m rule: walk_walk_all_walk_members.induct)
  case (1 depth v nodes)
  then show ?case by (cases v) (auto simp: walk.simps not_le Suc_le_eq)
next
  case (3 depth v vs nodes)
  have "walk_all depth (v # vs) nodes = Inr m \<longleftrightarrow> (\<exists>k. walk depth v nodes = Inr k \<and> walk_all depth vs k = Inr m)"
    by (auto simp: bind_res_Inr)
  then show ?case using 3 by auto
next
  case (5 depth k v ms nodes)
  have "walk_members depth ((k, v) # ms) nodes = Inr m \<longleftrightarrow> (\<exists>j. walk depth v nodes = Inr j \<and> walk_members depth ms j = Inr m)"
    by (auto simp: bind_res_Inr)
  then show ?case using 5 by auto
qed auto

lemma validate_json_iff:
  "validate_json v = None \<longleftrightarrow> json_only v \<and> nodes v \<le> max_nodes \<and> height v \<le> Suc max_depth"
proof -
  have "validate_json v = None \<longleftrightarrow> (\<exists>m. walk 0 v 0 = Inr m)" by (auto simp: validate_json_def split: sum.splits)
  then show ?thesis by (simp add: walk_Inr(1))
qed

end
