(* ===== verification/Recorder.thy ===== *)
theory Recorder
  imports Events
begin

text \<open>
  The diagnostics recorder (diagnostics/recorder.go) and its segmented log
  (diagnostics/segments.go, diagnostics/storage.go): recording, retention, rotation, trimming,
  cleaning up and closing.

  The disk holds the owned names only: the live directory with its segments in name order
  (which is the order of their ordinals), boundary files left in it, the staging directory and
  the legacy log.  Every storage operation may fail: a script gives the outcome of each one,
  without effect, after its effect, or, for a write, after a part of the data; an exhausted
  script means success.  Syncing a directory counts as one operation.  A storage error is one
  value, its text is not modelled; \<open>UsageRatio\<close> is a function of the other fields of the health
  and left out, as is the cached projection of a stored event.  Byte counts stay far below the
  range of \<open>int64\<close> (\<open>Config.Validate\<close> bounds them by 1 GiB) and are integers.
\<close>

subsection \<open>The disk and its faults\<close>

type_synonym files = "(64 word \<times> string) list"

record disk =
  dk_live :: "files option"
  dk_temps :: "string list"
  dk_stage :: "files option"
  dk_legacy :: "string option"

datatype outcome = Completes | FailsBefore | FailsAfter | Shortened nat

record world =
  wd_disk :: disk
  wd_script :: "outcome list"

datatype store_error = StorageFault | OrdinalExhausted | StageConflict | NoSegments | DamagedConflict | HistoryConflict

record stored =
  st_event :: event
  st_data :: string

record segment =
  sg_ordinal :: "64 word"
  sg_count :: nat
  sg_bytes :: int
  sg_dirty :: bool

datatype problem = NoProblem | StorageProblem store_error | RecoveredRecords "64 word"

record health =
  he_writable :: bool
  he_problem :: problem
  he_pressure :: bool
  he_dropped :: "64 word"
  he_corrupt :: "64 word"
  he_events :: nat
  he_bytes :: int

record recorder =
  rc_file :: "64 word option"
  rc_segments :: "segment list"
  rc_records :: "stored list"
  rc_next :: "64 word"
  rc_bytes :: int
  rc_health :: health
  rc_report_at :: int
  rc_closed :: bool

type_synonym state = "recorder \<times> world"
type_synonym action = "state \<Rightarrow> store_error option \<times> state"

fun next_outcome :: "world \<Rightarrow> outcome \<times> world" where
  "next_outcome w = (case wd_script w of [] \<Rightarrow> (Completes, w) | x # xs \<Rightarrow> (x, w\<lparr>wd_script := xs\<rparr>))"

definition changed :: "(disk \<Rightarrow> disk option) \<Rightarrow> world \<Rightarrow> world" where
  "changed f w = (case f (wd_disk w) of None \<Rightarrow> w | Some d \<Rightarrow> w\<lparr>wd_disk := d\<rparr>)"

text \<open>An operation on the disk; the function gives no disk where the system refuses it.\<close>

definition storage :: "(disk \<Rightarrow> disk option) \<Rightarrow> action" where
  "storage f s =
     (case s of (r, w) \<Rightarrow> case next_outcome w of (x, w') \<Rightarrow>
        if x = Completes \<and> f (wd_disk w') \<noteq> None then (None, r, changed f w')
        else (Some StorageFault, r, if x = FailsAfter then changed f w' else w'))"

definition write_all :: "(string \<Rightarrow> disk \<Rightarrow> disk option) \<Rightarrow> string \<Rightarrow> action" where
  "write_all f data s =
     (case s of (r, w) \<Rightarrow> case next_outcome w of (x, w') \<Rightarrow>
        (case x of Shortened n \<Rightarrow> (Some StorageFault, r, changed (f (take n data)) w') | _ \<Rightarrow> storage (f data) s))"

definition locally :: "(recorder \<Rightarrow> recorder) \<Rightarrow> action" where
  "locally f s = (None, f (fst s), snd s)"

fun run_all :: "action list \<Rightarrow> action" where
  "run_all [] s = (None, s)"
| "run_all (a # as) s = (case a s of (None, s') \<Rightarrow> run_all as s' | (Some e, s') \<Rightarrow> (Some e, s'))"

subsection \<open>Files\<close>

definition map_file :: "64 word \<Rightarrow> (string \<Rightarrow> string) \<Rightarrow> files \<Rightarrow> files" where
  "map_file n f fs = map (\<lambda>(k, c). (k, if k = n then f c else c)) fs"

definition on_live :: "(files \<Rightarrow> files option) \<Rightarrow> disk \<Rightarrow> disk option" where
  "on_live f d = (case dk_live d of None \<Rightarrow> None | Some fs \<Rightarrow> map_option (\<lambda>fs'. d\<lparr>dk_live := Some fs'\<rparr>) (f fs))"

text \<open>\<open>O_CREATE|O_EXCL\<close>; a new segment has the greatest ordinal.\<close>

definition create_file :: "64 word \<Rightarrow> files \<Rightarrow> files option" where
  "create_file n fs = (if n \<in> fst ` set fs then None else Some (fs @ [(n, [])]))"

definition append_file :: "64 word \<Rightarrow> string \<Rightarrow> files \<Rightarrow> files option" where
  "append_file n data fs = (if n \<in> fst ` set fs then Some (map_file n (\<lambda>c. c @ data) fs) else None)"

definition remove_file :: "64 word \<Rightarrow> files \<Rightarrow> files option" where
  "remove_file n fs = (if n \<in> fst ` set fs then Some (filter (\<lambda>(k, c). k \<noteq> n) fs) else None)"

definition sync_disk :: "disk \<Rightarrow> disk option" where "sync_disk d = Some d"

text \<open>The boundary file being written is the first of \<open>dk_temps\<close>.\<close>

definition create_temp :: "disk \<Rightarrow> disk option" where
  "create_temp d = Some (d\<lparr>dk_temps := [] # dk_temps d\<rparr>)"

definition write_temp :: "string \<Rightarrow> disk \<Rightarrow> disk option" where
  "write_temp data d = (case dk_temps d of [] \<Rightarrow> None | t # ts \<Rightarrow> Some (d\<lparr>dk_temps := (t @ data) # ts\<rparr>))"

definition rename_temp :: "64 word \<Rightarrow> disk \<Rightarrow> disk option" where
  "rename_temp n d =
     (case (dk_temps d, dk_live d) of
        (t # ts, Some fs) \<Rightarrow> if n \<in> fst ` set fs then Some (d\<lparr>dk_temps := ts, dk_live := Some (map_file n (\<lambda>c. t) fs)\<rparr>) else None
      | _ \<Rightarrow> None)"

definition exists_file :: "64 word \<Rightarrow> files \<Rightarrow> files option" where
  "exists_file n fs = (if n \<in> fst ` set fs then Some fs else None)"

subsection \<open>Retention\<close>

definition newline :: string where "newline = [char_of (10 :: int)]"

definition data_size :: "stored \<Rightarrow> int" where "data_size x = int (length (st_data x))"

fun retention :: "config \<Rightarrow> int \<Rightarrow> stored list \<Rightarrow> int \<Rightarrow> nat \<times> int" where
  "retention cf cutoff [] usage = (0, usage)"
| "retention cf cutoff (x # xs) usage =
     (if ev_time (st_event x) < cutoff \<or> int (length (x # xs)) > cf_max_events cf \<or> usage > cf_max_bytes cf
      then (let (d, t) = retention cf cutoff xs (usage - data_size x) in (Suc d, t))
      else (0, usage))"

definition retention_decision :: "config \<Rightarrow> stored list \<Rightarrow> int \<Rightarrow> int \<Rightarrow> nat \<times> int" where
  "retention_decision cf xs usage now = retention cf (now - cf_max_age cf) xs usage"

subsection \<open>Segments\<close>

definition segment_target :: int where "segment_target = 256 * 1024"

definition target :: "config \<Rightarrow> int" where "target cf = min segment_target (cf_max_bytes cf)"

definition active :: "recorder \<Rightarrow> segment" where "active r = last (rc_segments r)"

definition new_segment :: "64 word \<Rightarrow> segment" where
  "new_segment n = \<lparr>sg_ordinal = n, sg_count = 0, sg_bytes = 0, sg_dirty = False\<rparr>"

definition add_record :: "int \<Rightarrow> segment \<Rightarrow> segment" where
  "add_record n s = s\<lparr>sg_count := Suc (sg_count s), sg_bytes := sg_bytes s + n\<rparr>"

definition sync_file :: action where "sync_file = storage sync_disk"

definition sync_directory :: action where "sync_directory = storage sync_disk"

definition close_file :: action where
  "close_file s =
     (if rc_file (fst s) = None then (None, s)
      else case storage sync_disk s of (e, r, w) \<Rightarrow> (e, r\<lparr>rc_file := None\<rparr>, w))"

definition open_next :: action where
  "open_next s =
     (let n = sg_ordinal (active (fst s)) + 1 in
      case storage (on_live (create_file n)) s of
        (None, r, w) \<Rightarrow> (None, r\<lparr>rc_file := Some n, rc_segments := rc_segments r @ [new_segment n]\<rparr>, w)
      | failed \<Rightarrow> failed)"

definition write_active :: "string \<Rightarrow> action" where
  "write_active data s =
     (case rc_file (fst s) of
        None \<Rightarrow> (Some StorageFault, s)
      | Some n \<Rightarrow> write_all (\<lambda>x. on_live (append_file n x)) data s)"

definition count_active :: "string \<Rightarrow> action" where
  "count_active data = locally (\<lambda>r. r\<lparr>rc_segments :=
     butlast (rc_segments r) @ [add_record (int (length data)) (active r)]\<rparr>)"

definition check_ordinal :: action where
  "check_ordinal s = (if sg_ordinal (active (fst s)) = - 1 then (Some OrdinalExhausted, s) else (None, s))"

definition rotates :: "config \<Rightarrow> string \<Rightarrow> recorder \<Rightarrow> bool" where
  "rotates cf data r \<longleftrightarrow> sg_bytes (active r) > 0 \<and> sg_bytes (active r) + int (length data) > target cf"

definition append_segment :: "config \<Rightarrow> string \<Rightarrow> bool \<Rightarrow> action" where
  "append_segment cf data retaining s =
     (let rotating = rotates cf data (fst s) in
      run_all ((if rotating then [check_ordinal, sync_file, close_file, open_next] else []) @
        [write_active data, count_active data] @
        (if retaining \<or> rotating then [sync_file] else []) @ (if rotating then [sync_directory] else [])) s)"

definition reopen :: "64 word \<Rightarrow> action" where
  "reopen n s =
     (case storage (on_live (exists_file n)) s of
        (None, r, w) \<Rightarrow> (None, r\<lparr>rc_file := Some n\<rparr>, w)
      | failed \<Rightarrow> failed)"

definition replace_segment :: "nat \<Rightarrow> stored list \<Rightarrow> action" where
  "replace_segment i xs s =
     (let g = rc_segments (fst s) ! i; n = sg_ordinal g;
          written = sum_list (map data_size xs)
      in run_all (storage create_temp # map (\<lambda>x. write_all write_temp (st_data x)) xs @
           [storage sync_disk, storage sync_disk, storage (rename_temp n), sync_directory] @
           (if n = sg_ordinal (active (fst s)) then [close_file, reopen n] else []) @
           [locally (\<lambda>r. r\<lparr>rc_segments := (rc_segments r)
              [i := g\<lparr>sg_count := length xs, sg_bytes := written, sg_dirty := False\<rparr>]\<rparr>)]) s)"

text \<open>The loop over the segments; it gives the number of leading segments that expired.\<close>

primrec trim_loop :: "stored list \<Rightarrow> nat \<Rightarrow> nat list \<Rightarrow> nat \<Rightarrow> nat \<Rightarrow> state \<Rightarrow> (store_error option \<times> state) \<times> nat" where
  "trim_loop staged dropped [] offset expired s = ((None, s), expired)"
| "trim_loop staged dropped (i # is) offset expired s =
     (let segs = rc_segments (fst s); g = segs ! i; end' = offset + sg_count g in
      if end' \<le> dropped \<and> i \<noteq> length segs - 1 then trim_loop staged dropped is end' (Suc i) s
      else
        let start = min (max offset dropped) end' in
        if sg_dirty g \<or> start > offset \<or> (sg_count g = 0 \<and> sg_bytes g > 0)
        then case replace_segment i (take (end' - start) (drop start staged)) s of
            (None, s') \<Rightarrow> trim_loop staged dropped is end' expired s'
          | (Some e, s') \<Rightarrow> ((Some e, s'), expired)
        else trim_loop staged dropped is end' expired s)"

definition drop_expired :: "nat \<Rightarrow> action" where
  "drop_expired expired s =
     run_all (map (\<lambda>g. storage (on_live (remove_file (sg_ordinal g)))) (take expired (rc_segments (fst s))) @
       (if expired > 0
        then [sync_directory, locally (\<lambda>r. r\<lparr>rc_segments := drop expired (rc_segments r)\<rparr>)] else [])) s"

definition trim_segments :: "stored list \<Rightarrow> nat \<Rightarrow> action" where
  "trim_segments staged dropped s =
     (case trim_loop staged dropped [0..<length (rc_segments (fst s))] 0 0 s of
        ((None, s'), expired) \<Rightarrow> drop_expired expired s'
      | (failed, expired) \<Rightarrow> failed)"

subsection \<open>Health\<close>

definition update_usage :: "config \<Rightarrow> recorder \<Rightarrow> recorder" where
  "update_usage cf r =
     (let h = rc_health r;
          tight = (int (length (rc_records r)) = cf_max_events cf \<or> rc_bytes r * 5 \<ge> cf_max_bytes cf * 4)
      in r\<lparr>rc_health := h\<lparr>he_events := length (rc_records r), he_bytes := rc_bytes r,
           he_pressure := he_pressure h \<or> tight\<rparr>\<rparr>)"

definition fail_recorder :: "store_error \<Rightarrow> recorder \<Rightarrow> recorder" where
  "fail_recorder e r = r\<lparr>rc_health := (rc_health r)\<lparr>he_writable := False, he_problem := StorageProblem e,
     he_dropped := he_dropped (rc_health r) + 1\<rparr>\<rparr>"

text \<open>Publishing the surviving records in memory.\<close>

definition retain :: "nat \<Rightarrow> stored list \<Rightarrow> int \<Rightarrow> recorder \<Rightarrow> recorder" where
  "retain dropped staged usage r = r\<lparr>rc_records := drop dropped staged, rc_bytes := usage,
     rc_health := (rc_health r)\<lparr>he_dropped := he_dropped (rc_health r) + of_nat dropped,
       he_pressure := he_pressure (rc_health r) \<or> dropped > 0\<rparr>\<rparr>"

subsection \<open>Operations\<close>

datatype record_error =
  RecorderClosed | RecorderBroken | InvalidEvent event_error | SequenceExhausted | EncodeFailed | EventTooLarge | PersistFailed store_error

definition last_time :: "recorder \<Rightarrow> int" where
  "last_time r = (if rc_records r = [] then 0 else ev_time (st_event (last (rc_records r))))"

definition normalize_event :: "config \<Rightarrow> codec \<Rightarrow> int \<Rightarrow> recorder \<Rightarrow> event \<Rightarrow> record_error + event" where
  "normalize_event cf C now r input =
     (case validate_event input of
        Some e \<Rightarrow> Inl (InvalidEvent e)
      | None \<Rightarrow>
          if rc_next r = - 1 then Inl SequenceExhausted
          else Inr (sanitize cf C (input\<lparr>ev_version := event_schema_version, ev_sequence := rc_next r + 1,
            ev_time := (if rc_records r \<noteq> [] \<and> now < last_time r then last_time r else now)\<rparr>)))"

definition persist :: "config \<Rightarrow> string \<Rightarrow> stored list \<Rightarrow> nat \<Rightarrow> action" where
  "persist cf data staged dropped =
     run_all (append_segment cf data (dropped > 0) # (if dropped \<noteq> 0 then [trim_segments staged dropped] else []))"

definition recorder_record :: "config \<Rightarrow> codec \<Rightarrow> int \<Rightarrow> event \<Rightarrow> state \<Rightarrow> (record_error + event) \<times> state" where
  "recorder_record cf C now input s =
     (let r = fst s in
      if rc_closed r then (Inl RecorderClosed, s)
      else if \<not> he_writable (rc_health r) then (Inl RecorderBroken, s)
      else case normalize_event cf C now r input of
          Inl e \<Rightarrow> (Inl e, s)
        | Inr ev \<Rightarrow>
            (case cd_marshal C ev of
               None \<Rightarrow> (Inl EncodeFailed, s)
             | Some bytes \<Rightarrow>
                 let data = bytes @ newline; staged = rc_records r @ [\<lparr>st_event = ev, st_data = data\<rparr>] in
                 if int (length data) > cf_max_bytes cf
                 then (Inl EventTooLarge, r\<lparr>rc_health := (rc_health r)\<lparr>he_dropped := he_dropped (rc_health r) + 1,
                         he_pressure := True\<rparr>\<rparr>, snd s)
                 else
                   let (dropped, usage) = retention_decision cf staged (rc_bytes r + int (length data)) (ev_time ev) in
                   case persist cf data staged dropped s of
                     (Some e, r', w') \<Rightarrow> (Inl (PersistFailed e), update_usage cf (fail_recorder e r'), w')
                   | (None, r', w') \<Rightarrow>
                       (Inr ev, update_usage cf ((retain dropped staged usage r')
                          \<lparr>rc_next := ev_sequence ev, rc_report_at := ev_time ev\<rparr>), w')))"

definition recorder_cleanup :: "config \<Rightarrow> int \<Rightarrow> state \<Rightarrow> record_error option \<times> state" where
  "recorder_cleanup cf now s =
     (let r = fst s in
      if rc_closed r then (Some RecorderClosed, s)
      else if \<not> he_writable (rc_health r) then (Some RecorderBroken, s)
      else
        let (dropped, usage) = retention_decision cf (rc_records r) (rc_bytes r) now in
        if dropped = 0 then (None, s)
        else case run_all [sync_file, trim_segments (rc_records r) dropped] s of
            (Some e, r', w') \<Rightarrow> (Some (PersistFailed e), update_usage cf (fail_recorder e r'), w')
          | (None, r', w') \<Rightarrow>
              (None, (update_usage cf (retain dropped (rc_records r) usage r'))\<lparr>rc_report_at := now\<rparr>, w'))"

text \<open>Closing syncs and closes the file whatever the sync says.\<close>

definition recorder_close :: "state \<Rightarrow> record_error option \<times> state" where
  "recorder_close s =
     (let r = fst s in
      if rc_closed r then (None, s)
      else if rc_file r = None then (None, r\<lparr>rc_closed := True\<rparr>, snd s)
      else
        case sync_file (r\<lparr>rc_closed := True\<rparr>, snd s) of (e1, s1) \<Rightarrow>
        case close_file s1 of (e2, r2, w2) \<Rightarrow>
          if e1 = None \<and> e2 = None then (None, r2, w2)
          else (Some (PersistFailed StorageFault), fail_recorder StorageFault r2, w2))"

end
