(* ===== verification/StorageLogic.thy ===== *)
theory StorageLogic
  imports Recorder
begin

text \<open>
  Reasoning about sequences of storage operations that may fail at any point: \<open>achieves P a Q F\<close>
  says that from a state with \<open>P\<close>, whatever the script of faults, \<open>a\<close> ends with \<open>Q\<close> when it
  succeeds and with \<open>F\<close> when it fails.  The predicates see the recorder and the disk, not the
  script.  \<open>works P a\<close> says that nothing but a fault makes \<open>a\<close> fail.
\<close>

type_synonym assertion = "recorder \<Rightarrow> disk \<Rightarrow> bool"

definition achieves :: "assertion \<Rightarrow> action \<Rightarrow> assertion \<Rightarrow> assertion \<Rightarrow> bool" where
  "achieves P a Q F \<longleftrightarrow> (\<forall>r w e r' w'. P r (wd_disk w) \<and> a (r, w) = (e, r', w') \<longrightarrow>
     (if e = None then Q r' (wd_disk w') else F r' (wd_disk w')))"

definition works :: "assertion \<Rightarrow> action \<Rightarrow> bool" where
  "works P a \<longleftrightarrow> (\<forall>r w. P r (wd_disk w) \<and> wd_script w = [] \<longrightarrow> (\<exists>r' w'. a (r, w) = (None, r', w') \<and> wd_script w' = []))"

lemma achievesI:
  "(\<And>r w e r' w'. P r (wd_disk w) \<Longrightarrow> a (r, w) = (e, r', w') \<Longrightarrow> if e = None then Q r' (wd_disk w') else F r' (wd_disk w')) \<Longrightarrow>
     achieves P a Q F"
  unfolding achieves_def by blast

lemma achievesD:
  "achieves P a Q F \<Longrightarrow> P r (wd_disk w) \<Longrightarrow> a (r, w) = (e, r', w') \<Longrightarrow> if e = None then Q r' (wd_disk w') else F r' (wd_disk w')"
  unfolding achieves_def by blast

lemma worksD:
  "works P a \<Longrightarrow> P r (wd_disk w) \<Longrightarrow> wd_script w = [] \<Longrightarrow> \<exists>r' w'. a (r, w) = (None, r', w') \<and> wd_script w' = []"
  unfolding works_def by blast

lemma achieves_weaken:
  assumes "achieves P a Q F" and "\<And>r d. P' r d \<Longrightarrow> P r d" and "\<And>r d. Q r d \<Longrightarrow> Q' r d" and "\<And>r d. F r d \<Longrightarrow> F' r d"
  shows "achieves P' a Q' F'"
  using assms unfolding achieves_def by metis

text \<open>An action that behaves like another one where it starts.\<close>

lemma achieves_same:
  assumes "\<And>r w. P r (wd_disk w) \<Longrightarrow> a (r, w) = b (r, w)" and "achieves P b Q F"
  shows "achieves P a Q F"
  using assms unfolding achieves_def by metis

lemma works_same:
  assumes "\<And>r w. P r (wd_disk w) \<Longrightarrow> a (r, w) = b (r, w)" and "works P b"
  shows "works P a"
  using assms unfolding works_def by metis

lemma works_strengthen: "works P a \<Longrightarrow> (\<And>r d. P' r d \<Longrightarrow> P r d) \<Longrightarrow> works P' a"
  unfolding works_def by blast

lemma disk_changed: "wd_disk (changed f w) = (case f (wd_disk w) of None \<Rightarrow> wd_disk w | Some d \<Rightarrow> d)"
  by (simp add: changed_def split: option.split)

lemma script_changed [simp]: "wd_script (changed f w) = wd_script w"
  by (simp add: changed_def split: option.split)

lemma next_outcome_disk: "next_outcome w = (x, w') \<Longrightarrow> wd_disk w' = wd_disk w"
  by (auto split: list.splits)

lemma achieves_storage:
  assumes "\<And>r d. P r d \<Longrightarrow> F r d" and "\<And>r d d'. P r d \<Longrightarrow> f d = Some d' \<Longrightarrow> Q r d' \<and> F r d'"
  shows "achieves P (storage f) Q F"
proof (rule achievesI)
  fix r r' e and w w' :: world
  assume P: "P r (wd_disk w)" and run: "storage f (r, w) = (e, r', w')"
  obtain x w1 where n: "next_outcome w = (x, w1)" by fastforce
  show "if e = None then Q r' (wd_disk w') else F r' (wd_disk w')"
    using run P assms(1) [OF P] assms(2) [OF P] next_outcome_disk [OF n]
    by (auto simp: storage_def n disk_changed simp del: next_outcome.simps split: if_splits option.splits)
qed

lemma achieves_write:
  assumes "\<And>r d. P r d \<Longrightarrow> F r d" and "\<And>r d d' n. P r d \<Longrightarrow> f (take n data) d = Some d' \<Longrightarrow> F r d'"
    and "\<And>r d d'. P r d \<Longrightarrow> f data d = Some d' \<Longrightarrow> Q r d'"
  shows "achieves P (write_all f data) Q F"
proof (rule achievesI)
  fix r r' e and w w' :: world
  assume P: "P r (wd_disk w)" and run: "write_all f data (r, w) = (e, r', w')"
  obtain x w1 where n: "next_outcome w = (x, w1)" by fastforce
  note d = next_outcome_disk [OF n]
  show "if e = None then Q r' (wd_disk w') else F r' (wd_disk w')"
  proof (cases "\<exists>k. x = Shortened k")
    case True
    then obtain k where "x = Shortened k" by blast
    then show ?thesis using run assms(1) [OF P] assms(2) [OF P, of k]
      by (auto simp: write_all_def n disk_changed d simp del: next_outcome.simps split: option.split)
  next
    case False
    then have eq: "storage (f data) (r, w) = (e, r', w')"
      using run by (simp add: write_all_def n del: next_outcome.simps split: outcome.splits)
    have full: "Q r d'' \<and> F r d''" if "P r d'" "f data d' = Some d''" for r d' d''
      using assms(2) [OF that(1), of "length data" d''] assms(3) that by simp
    have "achieves P (storage (f data)) Q F" by (rule achieves_storage) (use assms(1) full in blast)+
    then show ?thesis using P eq by (rule achievesD)
  qed
qed

lemma achieves_locally: "(\<And>r d. P r d \<Longrightarrow> Q (f r) d) \<Longrightarrow> achieves P (locally f) Q F"
  by (auto simp: achieves_def locally_def)

lemma achieves_Nil: "(\<And>r d. P r d \<Longrightarrow> Q r d) \<Longrightarrow> achieves P (run_all []) Q F"
  by (auto simp: achieves_def)

lemma run_all_append: "run_all (as @ bs) s = (case run_all as s of (None, s') \<Rightarrow> run_all bs s' | (Some e, s') \<Rightarrow> (Some e, s'))"
  by (induction as arbitrary: s) (auto split: prod.split option.split)

lemma achieves_append:
  assumes "achieves P (run_all as) R F" and "achieves R (run_all bs) Q F"
  shows "achieves P (run_all (as @ bs)) Q F"
proof (rule achievesI)
  fix r r' e and w w' :: world
  assume P: "P r (wd_disk w)" and run: "run_all (as @ bs) (r, w) = (e, r', w')"
  obtain e1 r1 w1 where a: "run_all as (r, w) = (e1, r1, w1)" by (metis prod_cases3)
  show "if e = None then Q r' (wd_disk w') else F r' (wd_disk w')"
    using achievesD [OF assms(1) P a] achievesD [OF assms(2), of r1 w1 e r' w'] run a
    by (cases e1) (auto simp: run_all_append)
qed

lemma run_all_single: "run_all [a] = a"
  by (rule ext) (auto split: prod.split option.split)

lemma achieves_Cons:
  assumes "achieves P a R F" and "achieves R (run_all as) Q F"
  shows "achieves P (run_all (a # as)) Q F"
  using achieves_append [of P "[a]" R F as Q] assms by (simp add: run_all_single del: run_all.simps)

subsection \<open>Operations that only a fault stops\<close>

lemma works_storage: "(\<And>r d. P r d \<Longrightarrow> f d \<noteq> None) \<Longrightarrow> works P (storage f)"
  by (fastforce simp: works_def storage_def)

lemma works_write: "(\<And>r d. P r d \<Longrightarrow> f data d \<noteq> None) \<Longrightarrow> works P (write_all f data)"
  by (fastforce simp: works_def write_all_def storage_def)

lemma works_locally: "works P (locally f)"
  by (simp add: works_def locally_def)

lemma works_Nil: "works P (run_all [])"
  by (simp add: works_def)

lemma works_append:
  assumes "works P (run_all as)" and "achieves P (run_all as) R F" and "works R (run_all bs)"
  shows "works P (run_all (as @ bs))"
  unfolding works_def
proof (intro allI impI, elim conjE)
  fix r and w :: world
  assume P: "P r (wd_disk w)" and script: "wd_script w = []"
  obtain r1 w1 where a: "run_all as (r, w) = (None, r1, w1)" "wd_script w1 = []" using worksD [OF assms(1) P script] by blast
  have "R r1 (wd_disk w1)" using achievesD [OF assms(2) P a(1)] by simp
  from worksD [OF assms(3) this a(2)]
  show "\<exists>r' w'. run_all (as @ bs) (r, w) = (None, r', w') \<and> wd_script w' = []"
    using a by (auto simp: run_all_append)
qed

lemma works_Cons:
  assumes "works P a" and "achieves P a R F" and "works R (run_all as)"
  shows "works P (run_all (a # as))"
  using works_append [of P "[a]" R F as] assms by (simp add: run_all_single del: run_all.simps)

end
