(* ===== verification/RecorderLaws.thy ===== *)
theory RecorderLaws
  imports StorageLogic "HOL-Library.Sublist"
begin

text \<open>
  The log on disk and the segments in memory: \<open>stored_as K os parts\<close> says that the live
  directory holds the segments \<open>os\<close> with exactly the records \<open>parts\<close>, that the recorder
  knows it, and that everything else is \<open>K\<close>.  Appending keeps it; where appending fails
  the disk is torn only behind the last record.
\<close>

definition data_of :: "stored list \<Rightarrow> string" where "data_of xs = concat (map st_data xs)"

definition segment_of :: "64 word \<Rightarrow> stored list \<Rightarrow> segment" where
  "segment_of n xs = \<lparr>sg_ordinal = n, sg_count = length xs, sg_bytes = sum_list (map data_size xs), sg_dirty = False\<rparr>"

lemma data_of_simps [simp]: "data_of [] = []" "data_of (xs @ ys) = data_of xs @ data_of ys" "data_of [x] = st_data x"
  by (simp_all add: data_of_def)

lemma segment_of_simps [simp]:
  "sg_ordinal (segment_of n xs) = n" "sg_count (segment_of n xs) = length xs"
  "sg_bytes (segment_of n xs) = sum_list (map data_size xs)" "\<not> sg_dirty (segment_of n xs)"
  by (simp_all add: segment_of_def)

lemma new_segment_of: "new_segment n = segment_of n []"
  by (simp add: new_segment_def segment_of_def)

lemma length_data_of: "int (length (data_of xs)) = sum_list (map data_size xs)"
  by (induction xs) (simp_all add: data_of_def data_size_def)

text \<open>What the operations on segments leave alone.\<close>

record surroundings =
  su_records :: "stored list"
  su_next :: "64 word"
  su_bytes :: int
  su_health :: health
  su_report_at :: int
  su_closed :: bool
  su_stage :: "files option"
  su_legacy :: "string option"

definition frame :: "recorder \<Rightarrow> disk \<Rightarrow> surroundings" where
  "frame r d = \<lparr>su_records = rc_records r, su_next = rc_next r, su_bytes = rc_bytes r, su_health = rc_health r,
     su_report_at = rc_report_at r, su_closed = rc_closed r, su_stage = dk_stage d, su_legacy = dk_legacy d\<rparr>"

lemma frame_simps [simp]:
  "frame (r\<lparr>rc_file := f\<rparr>) d = frame r d" "frame (r\<lparr>rc_segments := gs\<rparr>) d = frame r d"
  "frame r (d\<lparr>dk_live := l\<rparr>) = frame r d" "frame r (d\<lparr>dk_temps := t\<rparr>) = frame r d"
  by (simp_all add: frame_def)

definition log_ok :: "64 word list \<Rightarrow> stored list list \<Rightarrow> bool" where
  "log_ok os parts \<longleftrightarrow> length os = length parts \<and> os \<noteq> [] \<and> sorted_wrt (<) os"

lemma log_okD: "log_ok os parts \<Longrightarrow> length os = length parts \<and> os \<noteq> [] \<and> parts \<noteq> [] \<and> distinct os"
  by (auto simp: log_ok_def strict_sorted_iff)

definition on_disk :: "64 word list \<Rightarrow> string list \<Rightarrow> disk \<Rightarrow> bool" where
  "on_disk os cs d \<longleftrightarrow> dk_live d = Some (zip os cs)"

definition stored_as :: "surroundings \<Rightarrow> 64 word list \<Rightarrow> stored list list \<Rightarrow> assertion" where
  "stored_as K os parts r d \<longleftrightarrow> frame r d = K \<and> rc_segments r = map2 segment_of os parts \<and>
     rc_file r = Some (last os) \<and> on_disk os (map data_of parts) d"

text \<open>The last file may carry a part of the data being written.\<close>

definition torn_contents :: "stored list list \<Rightarrow> string \<Rightarrow> string list" where
  "torn_contents parts tail = map data_of (butlast parts) @ [data_of (last parts) @ tail]"

definition torn :: "surroundings \<Rightarrow> stored list \<Rightarrow> string \<Rightarrow> assertion" where
  "torn K xs data r d \<longleftrightarrow> frame r d = K \<and>
     (\<exists>os parts tail. log_ok os parts \<and> concat parts = xs \<and> prefix tail data \<and> on_disk os (torn_contents parts tail) d)"

lemma torn_contents_Nil: "parts \<noteq> [] \<Longrightarrow> torn_contents parts [] = map data_of parts"
  by (metis append_Nil2 append_butlast_last_id list.simps(8,9) map_append torn_contents_def)

lemma stored_torn: "log_ok os parts \<Longrightarrow> stored_as K os parts r d \<Longrightarrow> concat parts = xs \<Longrightarrow> torn K xs data r d"
  unfolding stored_as_def torn_def using torn_contents_Nil [of parts] log_okD by (metis Nil_prefix)

subsection \<open>Files\<close>

lemma map_file_split:
  assumes "n \<notin> set os1" and "n \<notin> set os2" and "length os1 = length cs1"
  shows "map_file n f (zip (os1 @ n # os2) (cs1 @ c # cs2)) = zip (os1 @ n # os2) (cs1 @ f c # cs2)"
proof -
  have other: "map_file n f (zip os cs) = zip os cs" if "n \<notin> set os" for os cs
    using that by (auto simp: map_file_def set_zip intro!: map_idI)
  have "map_file n f (zip (os1 @ n # os2) (cs1 @ c # cs2)) =
      map_file n f (zip os1 cs1) @ (n, f c) # map_file n f (zip os2 cs2)"
    using assms(3) by (simp add: map_file_def)
  then show ?thesis using other [OF assms(1)] other [OF assms(2)] assms(3) by simp
qed

lemma live_append:
  assumes "length os = length cs" and "os \<noteq> []" and "distinct os" and "on_disk os cs d"
  shows "on_live (append_file (last os) data) d = Some (d\<lparr>dk_live := Some (zip os (butlast cs @ [last cs @ data]))\<rparr>)"
proof -
  have os: "os = butlast os @ last os # []" and "cs \<noteq> []" using assms(1,2) by auto
  then have cs: "cs = butlast cs @ last cs # []" by simp
  have "last os \<notin> set (butlast os)" using assms(2,3) by (metis distinct_butlast not_distinct_conv_prefix os)
  then have "map_file (last os) (\<lambda>c. c @ data) (zip os cs) = zip os (butlast cs @ [last cs @ data])"
    using map_file_split [of "last os" "butlast os" "[]" "butlast cs" "\<lambda>c. c @ data" "last cs" "[]"] assms(1) os cs
    by (metis empty_iff empty_set length_butlast)
  moreover have "last os \<in> fst ` set (zip os cs)" using assms(1,2) by (metis last_in_set list.set_map map_fst_zip)
  ultimately show ?thesis using assms(4) by (simp add: on_live_def append_file_def on_disk_def)
qed

lemma live_create:
  assumes "length os = length cs" and "n \<notin> set os" and "on_disk os cs d"
  shows "on_live (create_file n) d = Some (d\<lparr>dk_live := Some (zip (os @ [n]) (cs @ [[]]))\<rparr>)"
proof -
  have "n \<notin> fst ` set (zip os cs)" using assms(1,2) by (metis list.set_map map_fst_zip)
  then show ?thesis using assms by (simp add: on_live_def create_file_def on_disk_def)
qed

subsection \<open>Appending\<close>

definition add_last :: "stored list list \<Rightarrow> stored \<Rightarrow> stored list list" where
  "add_last parts x = butlast parts @ [last parts @ [x]]"

lemma add_last: "parts \<noteq> [] \<Longrightarrow> concat (add_last parts x) = concat parts @ [x]" "parts \<noteq> [] \<Longrightarrow> length (add_last parts x) = length parts"
proof -
  show "concat (add_last parts x) = concat parts @ [x]" if "parts \<noteq> []"
    using that by (simp add: add_last_def) (metis append_assoc append_butlast_last_id concat.simps concat_append append_Nil2)
qed (simp add: add_last_def)

lemma active_stored:
  assumes "log_ok os parts" and "stored_as K os parts r d"
  shows "active r = segment_of (last os) (last parts)"
proof -
  have "last (map2 segment_of os parts) = segment_of (last os) (last parts)"
    using log_okD [OF assms(1)] by (simp add: last_map last_zip)
  then show ?thesis using assms(2) by (simp add: active_def stored_as_def)
qed

lemma map2_snoc: "length xs = length ys \<Longrightarrow> xs \<noteq> [] \<Longrightarrow> map2 f xs ys = map2 f (butlast xs) (butlast ys) @ [f (last xs) (last ys)]"
  by (cases xs rule: rev_cases; cases ys rule: rev_cases) auto

lemma write_count:
  assumes ok: "log_ok os parts" and x: "st_data x = data"
  shows "achieves (stored_as K os parts) (run_all [write_active data, count_active data])
    (stored_as K os (add_last parts x)) (torn K (concat parts) data)"
proof -
  note ok' = log_okD [OF ok]
  let ?W = "\<lambda>r d. frame r d = K \<and> rc_segments r = map2 segment_of os parts \<and> rc_file r = Some (last os) \<and>
      on_disk os (torn_contents parts data) d"
  have put: "on_live (append_file (last os) tail) d = Some (d\<lparr>dk_live := Some (zip os (torn_contents parts tail))\<rparr>)"
    if "stored_as K os parts r d" for r d tail
    using live_append [of os "map data_of parts" d tail] that ok'
    by (simp add: stored_as_def torn_contents_def map_butlast last_map)
  have puts: "achieves (stored_as K os parts) (write_active data) ?W (torn K (concat parts) data)"
  proof (rule achieves_same)
    show "write_active data (r, w) = write_all (\<lambda>t. on_live (append_file (last os) t)) data (r, w)"
      if "stored_as K os parts r (wd_disk w)" for r and w :: world
      using that by (simp add: write_active_def stored_as_def)
    show "achieves (stored_as K os parts) (write_all (\<lambda>t. on_live (append_file (last os) t)) data) ?W (torn K (concat parts) data)"
    proof (rule achieves_write)
      show "torn K (concat parts) data r d" if "stored_as K os parts r d" for r d
        using stored_torn [OF ok that] by simp
      show "torn K (concat parts) data r d'" if "stored_as K os parts r d" "on_live (append_file (last os) (take n data)) d = Some d'" for r d d' n
      proof -
        have "d' = d\<lparr>dk_live := Some (zip os (torn_contents parts (take n data)))\<rparr>" using put [OF that(1)] that(2) by simp
        moreover have "frame r d = K" using that(1) by (simp add: stored_as_def)
        ultimately show ?thesis using ok take_is_prefix [of n data] unfolding torn_def on_disk_def by fastforce
      qed
      show "?W r d'" if "stored_as K os parts r d" "on_live (append_file (last os) data) d = Some d'" for r d d'
        using put [OF that(1)] that by (auto simp: stored_as_def on_disk_def)
    qed
  qed
  have counts: "achieves ?W (count_active data) (stored_as K os (add_last parts x)) (torn K (concat parts) data)"
    unfolding count_active_def
  proof (rule achieves_locally)
    fix r d
    assume W: "?W r d"
    have act: "active r = segment_of (last os) (last parts)" using W ok' by (simp add: active_def last_map last_zip)
    have "butlast (map2 segment_of os parts) @ [add_record (int (length data)) (segment_of (last os) (last parts))] =
        map2 segment_of os (add_last parts x)"
      using map2_snoc [of os parts segment_of] map2_snoc [of os "add_last parts x" segment_of] ok' x add_last(2) [of parts x]
      by (simp add: add_last_def add_record_def segment_of_def data_size_def)
    moreover have "map data_of (add_last parts x) = torn_contents parts data"
      by (simp add: add_last_def torn_contents_def x)
    ultimately show "stored_as K os (add_last parts x)
        (r\<lparr>rc_segments := butlast (rc_segments r) @ [add_record (int (length data)) (active r)]\<rparr>) d"
      using W act by (simp add: stored_as_def)
  qed
  show ?thesis by (rule achieves_Cons [OF puts achieves_Cons [OF counts achieves_Nil]]) simp
qed

text \<open>Rotation: a new, empty segment at the end.\<close>

definition unfiled :: "surroundings \<Rightarrow> 64 word list \<Rightarrow> stored list list \<Rightarrow> assertion" where
  "unfiled K os parts r d \<longleftrightarrow> frame r d = K \<and> rc_segments r = map2 segment_of os parts \<and> on_disk os (map data_of parts) d"

lemma stored_unfiled: "stored_as K os parts r d \<Longrightarrow> unfiled K os parts r d"
  by (simp add: stored_as_def unfiled_def)

lemma unfiled_torn: "log_ok os parts \<Longrightarrow> unfiled K os parts r d \<Longrightarrow> concat parts = xs \<Longrightarrow> torn K xs data r d"
  unfolding unfiled_def torn_def using torn_contents_Nil [of parts] log_okD by (metis Nil_prefix)

lemma achieves_sync: "(\<And>r d. P r d \<Longrightarrow> F r d) \<Longrightarrow> achieves P (storage sync_disk) P F"
  by (rule achieves_storage) (auto simp: sync_disk_def)

lemma works_sync: "works P (storage sync_disk)"
  by (rule works_storage) (simp add: sync_disk_def)

lemma close_file_achieves:
  assumes "\<And>r d. P r d \<Longrightarrow> Q (r\<lparr>rc_file := None\<rparr>) d \<and> F (r\<lparr>rc_file := None\<rparr>) d"
  shows "achieves P close_file Q F"
proof (rule achievesI)
  fix r r' e and w w' :: world
  assume P: "P r (wd_disk w)" and run: "close_file (r, w) = (e, r', w')"
  show "if e = None then Q r' (wd_disk w') else F r' (wd_disk w')"
  proof (cases "rc_file r")
    case None
    then have "r\<lparr>rc_file := None\<rparr> = r" by simp
    then have "Q r (wd_disk w) \<and> F r (wd_disk w)" using assms [OF P] by metis
    then show ?thesis using run None by (simp add: close_file_def)
  next
    case (Some n)
    obtain e1 r1 w1 where st: "storage sync_disk (r, w) = (e1, r1, w1)" by (metis prod_cases3)
    obtain x w2 where "next_outcome w = (x, w2)" by fastforce
    then have "r1 = r" "wd_disk w1 = wd_disk w" using st next_outcome_disk
      by (auto simp: storage_def sync_disk_def changed_def simp del: next_outcome.simps split: if_splits)
    then show ?thesis using run Some st assms [OF P] by (auto simp: close_file_def)
  qed
qed

lemma close_file_works: "works P close_file"
  by (fastforce simp: works_def close_file_def storage_def sync_disk_def changed_def)

lemma next_ordinal:
  assumes "log_ok os parts" and "last os \<noteq> - 1"
  shows "log_ok (os @ [last os + 1]) (parts @ [[]])" and "last os + 1 \<notin> set os"
proof -
  note ok = log_okD [OF assms(1)]
  have "1 + last os \<noteq> 0" using assms(2) by (metis add.commute eq_neg_iff_add_eq_0)
  then have "last os < last os + 1" using unatSuc [of "last os"] by (simp add: word_less_nat_alt add.commute)
  moreover have le: "x \<le> last os" if "x \<in> set os" for x
  proof -
    have "os = butlast os @ [last os]" using ok by simp
    then have "sorted_wrt (<) (butlast os @ [last os])" using assms(1) by (simp add: log_ok_def)
    moreover have "x \<in> set (butlast os) \<or> x = last os" using that ok by (metis append_butlast_last_id in_set_conv_decomp set_ConsD set_append Un_iff empty_iff empty_set)
    ultimately show ?thesis by (auto simp: sorted_wrt_append)
  qed
  ultimately have lt: "\<forall>x \<in> set os. x < last os + 1" by (meson le_less_trans)
  then show "last os + 1 \<notin> set os" by blast
  show "log_ok (os @ [last os + 1]) (parts @ [[]])"
    using assms(1) lt by (simp add: log_ok_def sorted_wrt_append)
qed

lemma open_next_achieves:
  assumes ok: "log_ok os parts" and ne: "last os \<noteq> - 1"
  shows "achieves (unfiled K os parts) open_next (stored_as K (os @ [last os + 1]) (parts @ [[]])) (torn K (concat parts) data)"
proof (rule achievesI)
  fix r r' e and w w' :: world
  assume P: "unfiled K os parts r (wd_disk w)" and run: "open_next (r, w) = (e, r', w')"
  note next_ok = next_ordinal [OF ok ne]
  have ok': "length os = length parts" "os \<noteq> []" "parts \<noteq> []" using log_okD [OF ok] by auto
  have act: "sg_ordinal (active r) = last os" using P ok' by (simp add: active_def unfiled_def last_map last_zip)
  let ?n = "last os + 1"
  let ?Q = "\<lambda>r1 d. r1 = r \<and> frame r1 d = K \<and> on_disk (os @ [?n]) (map data_of (parts @ [[]])) d"
  have torn: "torn K (concat parts) data r d" if "frame r d = K" "on_disk (os @ [?n]) (map data_of (parts @ [[]])) d" for d
    unfolding torn_def using next_ok(1) that torn_contents_Nil [of "parts @ [[]]"]
    by (intro conjI exI [of _ "os @ [?n]"] exI [of _ "parts @ [[]]"] exI [of _ "[]"]) simp_all
  have st: "achieves (\<lambda>r1 d. r1 = r \<and> unfiled K os parts r1 d) (storage (on_live (create_file ?n))) ?Q (torn K (concat parts) data)"
  proof (rule achieves_storage)
    show "torn K (concat parts) data r1 d" if "r1 = r \<and> unfiled K os parts r1 d" for r1 d
      using unfiled_torn [OF ok] that by blast
    show "?Q r1 d' \<and> torn K (concat parts) data r1 d'"
      if "r1 = r \<and> unfiled K os parts r1 d" "on_live (create_file ?n) d = Some d'" for r1 d d'
    proof -
      have "d' = d\<lparr>dk_live := Some (zip (os @ [?n]) (map data_of parts @ [[]]))\<rparr>"
        using live_create [of os "map data_of parts" ?n d] that next_ok(2) ok' by (simp add: unfiled_def)
      then have "?Q r1 d'" using that(1) by (auto simp: unfiled_def on_disk_def)
      then show ?thesis using torn by blast
    qed
  qed
  obtain e1 r1 w1 where run1: "storage (on_live (create_file ?n)) (r, w) = (e1, r1, w1)" by (metis prod_cases3)
  have res: "if e1 = None then ?Q r1 (wd_disk w1) else torn K (concat parts) data r1 (wd_disk w1)"
    using achievesD [OF st _ run1] P by simp
  show "if e = None then stored_as K (os @ [?n]) (parts @ [[]]) r' (wd_disk w') else torn K (concat parts) data r' (wd_disk w')"
  proof (cases e1)
    case None
    then have "e = None" "w' = w1" "r' = r1\<lparr>rc_file := Some ?n, rc_segments := rc_segments r1 @ [new_segment ?n]\<rparr>"
      using run run1 act by (auto simp: open_next_def Let_def)
    then show ?thesis using res None P ok' by (auto simp: stored_as_def unfiled_def new_segment_of)
  next
    case (Some x)
    then show ?thesis using run run1 act res by (auto simp: open_next_def Let_def)
  qed
qed

definition appended :: "surroundings \<Rightarrow> stored list \<Rightarrow> assertion" where
  "appended K xs r d \<longleftrightarrow> (\<exists>os parts. log_ok os parts \<and> concat parts = xs \<and> stored_as K os parts r d)"

lemma check_ordinal_achieves:
  assumes ok: "log_ok os parts"
  shows "achieves (stored_as K os parts) check_ordinal (\<lambda>r d. stored_as K os parts r d \<and> last os \<noteq> - 1) (torn K (concat parts) data)"
proof (rule achievesI)
  fix r r' e and w w' :: world
  assume P: "stored_as K os parts r (wd_disk w)" and run: "check_ordinal (r, w) = (e, r', w')"
  have "sg_ordinal (active r) = last os" using active_stored [OF ok P] by simp
  then show "if e = None then stored_as K os parts r' (wd_disk w') \<and> last os \<noteq> - 1 else torn K (concat parts) data r' (wd_disk w')"
    using run P stored_torn [OF ok P refl] by (auto simp: check_ordinal_def split: if_splits)
qed

lemma append_segment_achieves:
  assumes ok: "log_ok os parts" and x: "st_data x = data"
  shows "achieves (stored_as K os parts) (append_segment cf data retaining)
    (appended K (concat parts @ [x])) (torn K (concat parts) data)"
proof -
  define rot where "rot \<longleftrightarrow> sum_list (map data_size (last parts)) > 0 \<and>
    sum_list (map data_size (last parts)) + int (length data) > target cf"
  let ?F = "torn K (concat parts) data"
  let ?tail = "(if retaining \<or> rot then [sync_file] else []) @ (if rot then [sync_directory] else [])"
  have done': "appended K (concat ps @ [x]) r d" "torn K (concat ps) data r d"
    if "log_ok ns ps" "stored_as K ns (add_last ps x) r d" for ns ps r d
  proof -
    have a: "log_ok ns (add_last ps x)" "concat (add_last ps x) = concat ps @ [x]"
      using that(1) add_last [of ps x] log_okD [OF that(1)] by (simp_all add: log_ok_def)
    then show "appended K (concat ps @ [x]) r d" using that(2) unfolding appended_def by blast
    have "map data_of (add_last ps x) = torn_contents ps data" by (simp add: add_last_def torn_contents_def x)
    then show "torn K (concat ps) data r d" using that unfolding torn_def stored_as_def by (metis prefix_order.refl)
  qed
  have tail: "achieves (stored_as K ns (add_last ps x)) (run_all ?tail) (appended K (concat ps @ [x])) (torn K (concat ps) data)"
    if "log_ok ns ps" for ns ps
    by (auto simp: sync_file_def sync_directory_def simp del: run_all.simps
        intro!: achieves_Cons [OF achieves_sync] achieves_Nil done' that)
  have put: "achieves (stored_as K ns ps) (run_all ([write_active data, count_active data] @ ?tail)) (appended K (concat ps @ [x])) (torn K (concat ps) data)"
    if "log_ok ns ps" for ns ps
    by (rule achieves_append [OF write_count [OF that x] tail [OF that]])
  show ?thesis
  proof (rule achieves_same)
    show "append_segment cf data retaining (r, w) =
        run_all ((if rot then [check_ordinal, sync_file, close_file, open_next] else []) @ [write_active data, count_active data] @ ?tail) (r, w)"
      if "stored_as K os parts r (wd_disk w)" for r and w :: world
    proof -
      have "rotates cf data r = rot" using active_stored [OF ok that] by (simp add: rotates_def rot_def)
      then show ?thesis unfolding append_segment_def Let_def fst_conv by simp
    qed
    show "achieves (stored_as K os parts)
        (run_all ((if rot then [check_ordinal, sync_file, close_file, open_next] else []) @ [write_active data, count_active data] @ ?tail))
        (appended K (concat parts @ [x])) ?F"
    proof (cases rot)
      case False
      then show ?thesis using put [OF ok] by simp
    next
      case True
      have "achieves (stored_as K os parts) (run_all ([check_ordinal, sync_file, close_file, open_next] @ [write_active data, count_active data] @ ?tail))
          (appended K (concat parts @ [x])) ?F"
      proof (cases "last os = - 1")
        case True
        have "achieves (stored_as K os parts) check_ordinal (\<lambda>_ _. False) ?F"
          by (rule achieves_weaken [OF check_ordinal_achieves [OF ok]]) (use True in auto)
        moreover have "achieves (\<lambda>_ _. False) (run_all as) Q F" for as Q F by (simp add: achieves_def)
        ultimately show ?thesis unfolding append.simps by (rule achieves_Cons)
      next
        case False
        have a: "achieves (stored_as K os parts) check_ordinal (stored_as K os parts) ?F"
          by (rule achieves_weaken [OF check_ordinal_achieves [OF ok]]) auto
        have b: "achieves (stored_as K os parts) sync_file (stored_as K os parts) ?F"
          unfolding sync_file_def by (rule achieves_sync) (rule stored_torn [OF ok], auto)
        have c: "achieves (stored_as K os parts) close_file (unfiled K os parts) ?F"
        proof (rule close_file_achieves)
          fix r d
          assume "stored_as K os parts r d"
          then have "unfiled K os parts (r\<lparr>rc_file := None\<rparr>) d" by (simp add: stored_as_def unfiled_def)
          then show "unfiled K os parts (r\<lparr>rc_file := None\<rparr>) d \<and> ?F (r\<lparr>rc_file := None\<rparr>) d"
            using unfiled_torn [OF ok] by blast
        qed
        have d: "achieves (unfiled K os parts) open_next (stored_as K (os @ [last os + 1]) (parts @ [[]])) ?F"
          by (rule open_next_achieves [OF ok False])
        have e: "achieves (stored_as K (os @ [last os + 1]) (parts @ [[]]))
            (run_all ([write_active data, count_active data] @ ?tail)) (appended K (concat parts @ [x])) ?F"
          using put [OF next_ordinal(1) [OF ok False]] by simp
        from achieves_Cons [OF a achieves_Cons [OF b achieves_Cons [OF c achieves_Cons [OF d e]]]]
        show ?thesis by (simp del: run_all.simps)
      qed
      then show ?thesis using True by simp
    qed
  qed
qed

end
