(* ===== verification/RecorderTrim.thy ===== *)
theory RecorderTrim
  imports RecorderLaws
begin

text \<open>
  Trimming the log: replacing a segment by the records it keeps, and removing the leading
  segments that keep none.  \<open>keep b parts\<close> is what trimming leaves of the segments when the
  first \<open>b\<close> records go; where trimming fails, every file still present holds what it held or
  what it keeps, and only expired files are gone.
\<close>

subsection \<open>What trimming keeps\<close>

fun keep :: "nat \<Rightarrow> 'a list list \<Rightarrow> 'a list list" where
  "keep b [] = []"
| "keep b (p # ps) = drop b p # keep (b - length p) ps"

lemma length_keep [simp]: "length (keep b ps) = length ps"
  by (induction b ps rule: keep.induct) auto

lemma concat_keep: "concat (keep b ps) = drop b (concat ps)"
  by (induction b ps rule: keep.induct) auto

lemma keep_0 [simp]: "keep 0 ps = ps"
  by (induction ps) auto

fun mixed :: "nat \<Rightarrow> 'a list list \<Rightarrow> 'a list list \<Rightarrow> bool" where
  "mixed b [] qs \<longleftrightarrow> qs = []"
| "mixed b (p # ps) qs \<longleftrightarrow> (\<exists>q qs'. qs = q # qs' \<and> (q = p \<or> q = drop b p) \<and> mixed (b - length p) ps qs')"

lemma mixed_concat:
  "mixed b ps qs \<Longrightarrow> \<exists>A. concat qs = A @ drop b (concat ps) \<and> subseq A (take b (concat ps))"
proof (induction b ps qs rule: mixed.induct)
  case (2 b p ps qs)
  then obtain q qs' where q: "qs = q # qs'" "q = p \<or> q = drop b p" "mixed (b - length p) ps qs'" by auto
  then obtain A where A: "concat qs' = A @ drop (b - length p) (concat ps)" "subseq A (take (b - length p) (concat ps))"
    using 2 by blast
  show ?case
  proof (cases "length p \<le> b")
    case True
    have "subseq (p @ A) (take b (concat (p # ps)))" using True A(2) by (simp add: list_emb_append_mono)
    moreover have "subseq A (take b (concat (p # ps)))" using True A(2) by (simp add: list_emb_append2)
    ultimately show ?thesis using q(1,2) A(1) True by (intro exI [of _ "if q = p then p @ A else A"]) auto
  next
    case False
    then have "A = []" using A(2) by simp
    then show ?thesis using q(1,2) A(1) False
      by (intro exI [of _ "if q = p then take b p else []"]) (auto simp: list_emb_append2)
  qed
qed simp

lemma mixed_same: "mixed b ps ps"
  by (induction ps arbitrary: b) auto

lemma mixed_keep: "mixed b ps (keep b ps)"
  by (induction b ps rule: keep.induct) auto

subsection \<open>The loop's state\<close>

definition base :: "surroundings \<Rightarrow> 64 word list \<Rightarrow> segment list \<Rightarrow> string list \<Rightarrow> assertion" where
  "base K os gs cs r d \<longleftrightarrow> frame r d = K \<and> rc_segments r = gs \<and> rc_file r = Some (last os) \<and> on_disk os cs d"

definition holds :: "surroundings \<Rightarrow> 64 word list \<Rightarrow> string list set \<Rightarrow> assertion" where
  "holds K os css r d \<longleftrightarrow> frame r d = K \<and> (\<exists>cs \<in> css. on_disk os cs d)"

definition temp_is :: "string \<Rightarrow> disk \<Rightarrow> bool" where
  "temp_is t d \<longleftrightarrow> (\<exists>ts. dk_temps d = t # ts)"

lemma base_holds: "base K os gs cs r d \<Longrightarrow> cs \<in> css \<Longrightarrow> holds K os css r d"
  by (auto simp: base_def holds_def)

lemma base_temps [simp]: "base K os gs cs r (d\<lparr>dk_temps := t\<rparr>) = base K os gs cs r d"
  by (simp add: base_def on_disk_def)

lemma stored_base: "stored_as K os parts = base K os (map2 segment_of os parts) (map data_of parts)"
  by (intro ext) (simp add: stored_as_def base_def)

lemma create_temp_achieves:
  assumes "cs \<in> css"
  shows "achieves (base K os gs cs) (storage create_temp) (\<lambda>r d. base K os gs cs r d \<and> temp_is [] d) (holds K os css)"
  by (rule achieves_storage) (use base_holds assms in \<open>auto simp: create_temp_def temp_is_def\<close>)

lemma write_temp_achieves:
  assumes "cs \<in> css"
  shows "achieves (\<lambda>r d. base K os gs cs r d \<and> temp_is t d) (write_all write_temp data)
    (\<lambda>r d. base K os gs cs r d \<and> temp_is (t @ data) d) (holds K os css)"
proof (rule achieves_write)
  have put: "base K os gs cs r d' \<and> temp_is (t @ x) d'"
    if "base K os gs cs r d \<and> temp_is t d" "write_temp x d = Some d'" for r d d' x
    using that by (auto simp: write_temp_def temp_is_def)
  show "holds K os css r d" if "base K os gs cs r d \<and> temp_is t d" for r d using base_holds assms that by blast
  show "holds K os css r d'" if "base K os gs cs r d \<and> temp_is t d" "write_temp (take n data) d = Some d'" for r d d' n
    using put [OF that] base_holds assms by blast
qed (auto simp: write_temp_def temp_is_def)

lemma write_temps_achieves:
  assumes "cs \<in> css"
  shows "achieves (\<lambda>r d. base K os gs cs r d \<and> temp_is t d) (run_all (map (\<lambda>x. write_all write_temp (st_data x)) xs))
    (\<lambda>r d. base K os gs cs r d \<and> temp_is (t @ data_of xs) d) (holds K os css)"
proof (induction xs arbitrary: t)
  case Nil
  then show ?case by (auto intro!: achieves_Nil simp del: run_all.simps)
next
  case (Cons x xs)
  have "achieves (\<lambda>r d. base K os gs cs r d \<and> temp_is t d) (run_all (write_all write_temp (st_data x) # map (\<lambda>x. write_all write_temp (st_data x)) xs))
    (\<lambda>r d. base K os gs cs r d \<and> temp_is ((t @ st_data x) @ data_of xs) d) (holds K os css)"
    by (rule achieves_Cons [OF write_temp_achieves [OF assms] Cons.IH])
  then show ?case by (simp add: data_of_def del: run_all.simps)
qed

lemma split_at: "i < length xs \<Longrightarrow> xs = take i xs @ xs ! i # drop (Suc i) xs"
  by (rule id_take_nth_drop)

lemma map_file_nth:
  assumes "distinct os" and "length os = length cs" and "i < length os"
  shows "map_file (os ! i) (\<lambda>_. t) (zip os cs) = zip os (cs[i := t])"
proof -
  have os: "os = take i os @ os ! i # drop (Suc i) os" and cs: "cs = take i cs @ cs ! i # drop (Suc i) cs"
    using split_at [of i os] split_at [of i cs] assms(2,3) by simp_all
  have "os ! i \<notin> set (take i os)" "os ! i \<notin> set (drop (Suc i) os)"
    using assms(1) os by (metis distinct.simps(2) distinct_append not_distinct_conv_prefix, metis distinct.simps(2) distinct_append)
  from map_file_split [OF this, of "take i cs" "\<lambda>_. t" "cs ! i" "drop (Suc i) cs"]
  have "map_file (os ! i) (\<lambda>_. t) (zip os cs) = zip os (take i cs @ t # drop (Suc i) cs)"
    using assms os cs by simp
  then show ?thesis using assms by (simp add: upd_conv_take_nth_drop)
qed

lemma ordinal_in_live: "on_disk os cs d \<Longrightarrow> length os = length cs \<Longrightarrow> n \<in> set os \<Longrightarrow> \<exists>fs. dk_live d = Some fs \<and> n \<in> fst ` set fs"
  unfolding on_disk_def by (metis list.set_map map_fst_zip)

definition same_ordinals :: "64 word list \<Rightarrow> segment list \<Rightarrow> string list \<Rightarrow> bool" where
  "same_ordinals os gs cs \<longleftrightarrow> distinct os \<and> os \<noteq> [] \<and> map sg_ordinal gs = os \<and> length cs = length os"

lemma same_ordinalsD: "same_ordinals os gs cs \<Longrightarrow> length gs = length os \<and> (i < length os \<longrightarrow> sg_ordinal (gs ! i) = os ! i) \<and> sg_ordinal (last gs) = last os"
  unfolding same_ordinals_def by (metis length_map nth_map last_map list.map_disc_iff)

lemma rename_achieves:
  assumes ok: "same_ordinals os gs cs" and i: "i < length os" and css: "cs \<in> css" "cs[i := t] \<in> css"
  shows "achieves (\<lambda>r d. base K os gs cs r d \<and> temp_is t d) (storage (rename_temp (os ! i))) (base K os gs (cs[i := t])) (holds K os css)"
proof (rule achieves_storage)
  show "holds K os css r d" if "base K os gs cs r d \<and> temp_is t d" for r d using base_holds css that by blast
  show "base K os gs (cs[i := t]) r d' \<and> holds K os css r d'"
    if "base K os gs cs r d \<and> temp_is t d" "rename_temp (os ! i) d = Some d'" for r d d'
  proof -
    have "base K os gs (cs[i := t]) r d'"
      using that map_file_nth [of os cs i t] ok i
      by (auto simp: rename_temp_def temp_is_def base_def on_disk_def same_ordinals_def frame_def split: if_splits)
    then show ?thesis using base_holds css by blast
  qed
qed

lemma exists_file_same: "on_live (exists_file n) d = Some d' \<Longrightarrow> d' = d"
  by (auto simp: on_live_def exists_file_def split: option.splits if_splits)

lemma reopen_achieves:
  assumes "cs \<in> css"
  shows "achieves (\<lambda>r d. base K os gs cs (r\<lparr>rc_file := Some (last os)\<rparr>) d) (reopen (last os)) (base K os gs cs) (holds K os css)"
proof (rule achievesI)
  fix r r' e and w w' :: world
  let ?P = "\<lambda>r1 d. r1 = r \<and> base K os gs cs (r1\<lparr>rc_file := Some (last os)\<rparr>) d"
  have held: "holds K os css r1 d" if "?P r1 d" for r1 d using base_holds [of K os gs cs _ d css] that assms by (auto simp: base_def holds_def)
  assume P: "base K os gs cs (r\<lparr>rc_file := Some (last os)\<rparr>) (wd_disk w)" and run: "reopen (last os) (r, w) = (e, r', w')"
  have "achieves ?P (storage (on_live (exists_file (last os)))) ?P (holds K os css)"
  proof (rule achieves_storage)
    show "holds K os css r1 d" if "?P r1 d" for r1 d by (rule held [OF that])
    show "?P r1 d' \<and> holds K os css r1 d'" if "?P r1 d" and e: "on_live (exists_file (last os)) d = Some d'" for r1 d d'
      unfolding exists_file_same [OF e] using that(1) held [OF that(1)] by blast
  qed
  note st = achievesD [OF this, of r w]
  obtain e1 r1 w1 where run1: "storage (on_live (exists_file (last os))) (r, w) = (e1, r1, w1)" by (metis prod_cases3)
  have res: "if e1 = None then ?P r1 (wd_disk w1) else holds K os css r1 (wd_disk w1)" using st [OF _ run1] P by simp
  show "if e = None then base K os gs cs r' (wd_disk w') else holds K os css r' (wd_disk w')"
    using run run1 res by (cases e1) (auto simp: reopen_def)
qed

lemma replace_segment_achieves:
  assumes ok: "same_ordinals os gs cs" and i: "i < length os" and css: "cs \<in> css" "cs[i := data_of xs] \<in> css"
  shows "achieves (base K os gs cs) (replace_segment i xs)
    (base K os (gs[i := segment_of (os ! i) xs]) (cs[i := data_of xs])) (holds K os css)"
proof -
  let ?n = "os ! i" and ?cs = "cs[i := data_of xs]" and ?F = "holds K os css"
  let ?upd = "locally (\<lambda>r. r\<lparr>rc_segments := (rc_segments r)[i := segment_of ?n xs]\<rparr>)"
  let ?re = "if ?n = last os then [close_file, reopen ?n] else []"
  have sync: "achieves (\<lambda>r d. base K os gs cs r d \<and> temp_is t d) (storage sync_disk) (\<lambda>r d. base K os gs cs r d \<and> temp_is t d) ?F" for t
    by (rule achieves_sync) (use base_holds css(1) in blast)
  have sync': "achieves (base K os gs ?cs) sync_directory (base K os gs ?cs) ?F"
    unfolding sync_directory_def by (rule achieves_sync) (use base_holds css(2) in blast)
  have upd: "achieves (base K os gs ?cs) (run_all [?upd]) (base K os (gs[i := segment_of ?n xs]) ?cs) ?F"
    by (rule achieves_Cons [OF achieves_locally achieves_Nil, of _ "base K os (gs[i := segment_of ?n xs]) ?cs"])
      (simp_all add: base_def)
  have close: "achieves (base K os gs ?cs) close_file (\<lambda>r d. base K os gs ?cs (r\<lparr>rc_file := Some (last os)\<rparr>) d) ?F"
    by (rule close_file_achieves) (use css(2) in \<open>auto simp: base_def holds_def\<close>)
  have tail: "achieves (base K os gs ?cs) (run_all (?re @ [?upd])) (base K os (gs[i := segment_of ?n xs]) ?cs) ?F"
  proof (cases "?n = last os")
    case True
    have "achieves (base K os gs ?cs) (run_all ([close_file, reopen (last os)] @ [?upd])) (base K os (gs[i := segment_of ?n xs]) ?cs) ?F"
      unfolding append.simps by (rule achieves_Cons [OF close achieves_Cons [OF reopen_achieves [OF css(2)] upd]])
    then show ?thesis using True by simp
  qed (use upd in simp)
  have "achieves (base K os gs cs)
      (run_all (storage create_temp # map (\<lambda>x. write_all write_temp (st_data x)) xs @
         ([storage sync_disk, storage sync_disk, storage (rename_temp ?n), sync_directory] @ ?re @ [?upd])))
      (base K os (gs[i := segment_of ?n xs]) ?cs) ?F"
  proof (rule achieves_Cons [OF create_temp_achieves [OF css(1)]])
    show "achieves (\<lambda>r d. base K os gs cs r d \<and> temp_is [] d) (run_all (map (\<lambda>x. write_all write_temp (st_data x)) xs @
         ([storage sync_disk, storage sync_disk, storage (rename_temp ?n), sync_directory] @ ?re @ [?upd])))
      (base K os (gs[i := segment_of ?n xs]) ?cs) ?F"
    proof (rule achieves_append)
      show "achieves (\<lambda>r d. base K os gs cs r d \<and> temp_is [] d) (run_all (map (\<lambda>x. write_all write_temp (st_data x)) xs))
          (\<lambda>r d. base K os gs cs r d \<and> temp_is (data_of xs) d) ?F"
        using write_temps_achieves [OF css(1), of K os gs "[]" xs] by simp
      show "achieves (\<lambda>r d. base K os gs cs r d \<and> temp_is (data_of xs) d)
          (run_all ([storage sync_disk, storage sync_disk, storage (rename_temp ?n), sync_directory] @ ?re @ [?upd]))
          (base K os (gs[i := segment_of ?n xs]) ?cs) ?F"
        unfolding append.simps
        by (rule achieves_Cons [OF sync achieves_Cons [OF sync achieves_Cons [OF rename_achieves [OF ok i css] achieves_Cons [OF sync' tail]]]])
    qed
  qed
  then show ?thesis
  proof (rule achieves_same [rotated])
    fix r and w :: world
    assume P: "base K os gs cs r (wd_disk w)"
    have segs: "rc_segments r = gs" using P by (simp add: base_def)
    have g: "(gs ! i)\<lparr>sg_count := length xs, sg_bytes := sum_list (map data_size xs), sg_dirty := False\<rparr> = segment_of ?n xs"
      using same_ordinalsD [OF ok, of i] i by (simp add: segment_of_def)
    have n: "sg_ordinal (gs ! i) = ?n" "sg_ordinal (active r) = last os"
      using same_ordinalsD [OF ok, of i] i segs by (simp_all add: active_def)
    show "replace_segment i xs (r, w) =
        run_all (storage create_temp # map (\<lambda>x. write_all write_temp (st_data x)) xs @
         ([storage sync_disk, storage sync_disk, storage (rename_temp ?n), sync_directory] @ ?re @ [?upd])) (r, w)"
      unfolding replace_segment_def Let_def fst_conv segs n g by simp
  qed
qed

end
