(* ===== verification/RecorderRetain.thy ===== *)
theory RecorderRetain
  imports RecorderTrim
begin

text \<open>
  The whole trim: the loop over the segments, and the removal of the expired ones.
\<close>

subsection \<open>The loop\<close>

definition some_of :: "surroundings \<Rightarrow> 64 word list \<Rightarrow> stored list list set \<Rightarrow> assertion" where
  "some_of K os ps = holds K os (map data_of ` ps)"

lemma stored_some: "stored_as K os parts r d \<Longrightarrow> parts \<in> ps \<Longrightarrow> some_of K os ps r d"
  unfolding stored_base some_of_def by (rule base_holds) auto

lemma some_of_mono: "some_of K os ps r d \<Longrightarrow> ps \<subseteq> ps' \<Longrightarrow> some_of K os ps' r d"
  unfolding some_of_def holds_def by blast

lemma map2_update: "length os = length xs \<Longrightarrow> i < length os \<Longrightarrow> (map2 f os xs)[i := f (os ! i) x] = map2 f os (xs[i := x])"
  by (rule nth_equalityI) (auto simp: nth_list_update)

lemma replace_stored:
  assumes "distinct os" and "length parts = length os" and "i < length os" and "parts \<in> ps" and "parts[i := q] \<in> ps"
  shows "achieves (stored_as K os parts) (replace_segment i q) (stored_as K os (parts[i := q])) (some_of K os ps)"
proof -
  have "map sg_ordinal (map2 segment_of os parts) = os"
    using assms(2) by (simp add: segment_of_def comp_def split_def)
  then have ok: "same_ordinals os (map2 segment_of os parts) (map data_of parts)"
    using assms by (auto simp: same_ordinals_def)
  have "achieves (base K os (map2 segment_of os parts) (map data_of parts)) (replace_segment i q)
     (base K os ((map2 segment_of os parts)[i := segment_of (os ! i) q]) ((map data_of parts)[i := data_of q]))
     (holds K os (map data_of ` ps))"
    by (rule replace_segment_achieves [OF ok assms(3)]) (use assms(4,5) in \<open>auto simp: map_update [symmetric]\<close>)
  then show ?thesis
    using map2_update [of os parts i segment_of q] assms by (simp add: stored_base some_of_def map_update)
qed

lemma kept_part:
  assumes "staged = P @ p @ Q" and "length P = offset" and "start = min (max offset b) (offset + length p)"
  shows "take (offset + length p - start) (drop start staged) = drop (b - offset) p"
  using assms by (auto simp: min_def max_def)

definition trimmed :: "nat \<Rightarrow> nat \<Rightarrow> 'a list list \<Rightarrow> 'a list list" where
  "trimmed b k todo = take k todo @ drop k (keep b todo)"

lemma trim_step:
  assumes g: "rc_segments r ! i = segment_of m p" and n: "length (rc_segments r) = n"
    and no: "\<not> (offset + length p \<le> b \<and> i \<noteq> n - 1)"
    and kept: "take (offset + length p - min (max offset b) (offset + length p))
      (drop (min (max offset b) (offset + length p)) staged) = q"
  shows "trim_loop staged b (i # is) offset expired (r, w) =
    (if offset < min (max offset b) (offset + length p)
     then case replace_segment i q (r, w) of
         (None, s') \<Rightarrow> trim_loop staged b is (offset + length p) expired s'
       | (Some e, s') \<Rightarrow> ((Some e, s'), expired)
     else trim_loop staged b is (offset + length p) expired (r, w))"
proof -
  have "\<not> (length p = 0 \<and> 0 < sum_list (map data_size p))" by simp
  then show ?thesis
    unfolding trim_loop.simps Let_def fst_conv g n segment_of_simps kept if_not_P [OF no] by (auto simp: segment_of_def)
qed

lemma trim_loop_stored:
  assumes "distinct os" and "length os = length (done @ todo)" and "staged = P @ concat todo" and "length P = offset"
    and "stored_as K os (done @ todo) r (wd_disk w)"
    and "trim_loop staged b [length done..<length os] offset expired (r, w) = ((e, r', w'), x)"
  shows "if e = None
    then \<exists>k. k \<le> length todo - 1 \<and> (0 < k \<longrightarrow> offset + length (concat (take k todo)) \<le> b) \<and>
      x = (if k = 0 then expired else length done + k) \<and> stored_as K os (done @ trimmed (b - offset) k todo) r' (wd_disk w')
    else some_of K os {done @ qs |qs. mixed (b - offset) todo qs} r' (wd_disk w')"
  using assms
proof (induction todo arbitrary: "done" P offset expired r w)
  case Nil
  then show ?case by (auto simp: trimmed_def)
next
  case (Cons p ps)
  let ?i = "length done" and ?stop = "offset + length p"
  have len: "length os = Suc (?i + length ps)" using Cons.prems(2) by simp
  have upt: "[?i..<length os] = ?i # [length (done @ [q])..<length os]" for q
    using len upt_conv_Cons [of ?i "length os"] by (simp del: upt_Suc)
  have segs: "rc_segments r = map2 segment_of os (done @ p # ps)" using Cons.prems(5) by (simp add: stored_base base_def)
  have g: "rc_segments r ! ?i = segment_of (os ! ?i) p" and n: "length (rc_segments r) = length os"
    using segs len by (simp_all add: nth_append)
  have IH: "if e = None
    then \<exists>k. k \<le> length ps - 1 \<and> (0 < k \<longrightarrow> ?stop + length (concat (take k ps)) \<le> b) \<and>
      x = (if k = 0 then expd else Suc ?i + k) \<and> stored_as K os ((done @ [q]) @ trimmed (b - ?stop) k ps) r' (wd_disk w')
    else some_of K os {(done @ [q]) @ qs |qs. mixed (b - ?stop) ps qs} r' (wd_disk w')"
    if "stored_as K os ((done @ [q]) @ ps) r1 (wd_disk w1)"
      "trim_loop staged b [length (done @ [q])..<length os] ?stop expd (r1, w1) = ((e, r', w'), x)" for q r1 w1 expd
  proof -
    have a: "length os = length ((done @ [q]) @ ps)" "staged = (P @ p) @ concat ps" "length (P @ p) = ?stop" "length (done @ [q]) = Suc ?i"
      using len Cons.prems(3,4) by simp_all
    show ?thesis using Cons.IH [OF Cons.prems(1) a(1-3) that] unfolding a(4) .
  qed
  have sub: "b - offset - length p = b - ?stop" by simp
  have weak: "some_of K os {done @ qs |qs. mixed (b - offset) (p # ps) qs} r' (wd_disk w')"
    if "some_of K os {(done @ [q]) @ qs |qs. mixed (b - ?stop) ps qs} r' (wd_disk w')" "q = p \<or> q = drop (b - offset) p" for q
    by (rule some_of_mono [OF that(1)]) (use that(2) sub in auto)
  show ?case
  proof (cases "?stop \<le> b \<and> ?i \<noteq> length os - 1")
    case True
    then have ps: "ps \<noteq> []" "Suc 0 \<le> length ps" using len by (auto simp: Suc_le_eq)
    have "trim_loop staged b [length (done @ [p])..<length os] ?stop (Suc ?i) (r, w) = ((e, r', w'), x)"
      using Cons.prems(6) True g n unfolding upt [of p] by (simp add: Let_def segment_of_def)
    note res = IH [of p r w "Suc ?i", OF _ this]
    show ?thesis
    proof (cases e)
      case None
      then obtain k where "k \<le> length ps - 1" "0 < k \<longrightarrow> ?stop + length (concat (take k ps)) \<le> b"
        "x = (if k = 0 then Suc ?i else Suc ?i + k)" "stored_as K os (done @ p # trimmed (b - ?stop) k ps) r' (wd_disk w')"
        using res Cons.prems(5) by auto
      then show ?thesis using None True ps sub
        by (intro exI [of _ "Suc k"] if_P [THEN iffD2]) (auto simp: trimmed_def)
    next
      case (Some y)
      then show ?thesis using res Cons.prems(5) weak [of p] by simp
    qed
  next
    case False
    let ?start = "min (max offset b) ?stop" and ?q = "drop (b - offset) p"
    have kept: "take (?stop - ?start) (drop ?start staged) = ?q"
      by (rule kept_part [OF _ Cons.prems(4) refl]) (use Cons.prems(3) in simp)
    have small: "k = 0" if "k \<le> length ps - 1" "0 < k \<longrightarrow> ?stop + length (concat (take k ps)) \<le> b" for k
      using that False len by auto
    have fin: ?thesis if run: "trim_loop staged b [length (done @ [?q])..<length os] ?stop expired (r1, w1) = ((e, r', w'), x)"
      and st: "stored_as K os ((done @ [?q]) @ ps) r1 (wd_disk w1)" for r1 w1
    proof (cases e)
      case None
      then obtain k where k: "k \<le> length ps - 1" "0 < k \<longrightarrow> ?stop + length (concat (take k ps)) \<le> b"
        "x = (if k = 0 then expired else Suc ?i + k)" "stored_as K os ((done @ [?q]) @ trimmed (b - ?stop) k ps) r' (wd_disk w')"
        using IH [OF st run] by auto
      have "k = 0" by (rule small [OF k(1,2)])
      then show ?thesis using None k(3,4) sub by (intro if_P [THEN iffD2] exI [of _ 0]) (simp_all add: trimmed_def)
    next
      case (Some y)
      then show ?thesis using IH [OF st run] weak [of ?q] by simp
    qed
    show ?thesis
    proof (cases "?start > offset")
      case True
      obtain e1 r1 w1 where rep: "replace_segment ?i ?q (r, w) = (e1, r1, w1)" by (metis prod_cases3)
      have "achieves (stored_as K os (done @ p # ps)) (replace_segment ?i ?q) (stored_as K os ((done @ p # ps)[?i := ?q]))
          (some_of K os {done @ qs |qs. mixed (b - offset) (p # ps) qs})"
        by (rule replace_stored [OF Cons.prems(1)]) (use len mixed_same in \<open>auto simp: mixed_same\<close>)
      note rs = achievesD [OF this Cons.prems(5) rep]
      have run: "trim_loop staged b (?i # [length (done @ [?q])..<length os]) offset expired (r, w) = ((e, r', w'), x)"
        using Cons.prems(6) upt [of ?q] by simp
      show ?thesis
      proof (cases e1)
        case None
        have "trim_loop staged b [length (done @ [?q])..<length os] ?stop expired (r1, w1) = ((e, r', w'), x)"
          using run unfolding trim_step [OF g n False kept] if_P [OF True] rep None by simp
        then show ?thesis using rs None by (intro fin) simp_all
      next
        case (Some y)
        then have "e = Some y" "r' = r1" "w' = w1"
          using run unfolding trim_step [OF g n False kept] if_P [OF True] rep by simp_all
        then show ?thesis using rs Some by simp
      qed
    next
      case nostart: False
      then have q: "?q = p" by (auto simp: min_def max_def split: if_splits)
      have run: "trim_loop staged b (?i # [length (done @ [?q])..<length os]) offset expired (r, w) = ((e, r', w'), x)"
        using Cons.prems(6) upt [of ?q] by simp
      have "trim_loop staged b [length (done @ [?q])..<length os] ?stop expired (r, w) = ((e, r', w'), x)"
        using run unfolding trim_step [OF g n False kept] if_not_P [OF nostart] .
      then show ?thesis using Cons.prems(5) q by (intro fin) simp_all
    qed
  qed
qed

subsection \<open>The expired segments\<close>

lemma keep_append: "keep b (xs @ ys) = keep b xs @ keep (b - length (concat xs)) ys"
  by (induction xs arbitrary: b) (auto simp: diff_diff_eq)

text \<open>Trimming that stopped half way: the trimmed records may still be there, the others are.\<close>

definition half_trimmed :: "surroundings \<Rightarrow> nat \<Rightarrow> stored list \<Rightarrow> assertion" where
  "half_trimmed K b staged r d \<longleftrightarrow> frame r d = K \<and>
     (\<exists>os parts gone. log_ok os parts \<and> on_disk os (map data_of parts) d \<and>
        subseq gone (take b staged) \<and> concat parts = gone @ drop b staged)"

lemma trimmed_suffix:
  assumes "length (concat (take k parts)) \<le> b" and "m \<le> k" and "k \<le> length parts"
  shows "concat (drop m (trimmed b k parts)) = concat (drop m (take k parts)) @ drop b (concat parts)"
    and "subseq (concat (drop m (take k parts))) (take b (concat parts))"
proof -
  have split: "parts = take k parts @ drop k parts" by simp
  let ?c = "concat (take k parts)"
  have cat: "concat parts = ?c @ concat (drop k parts)" by (metis append_take_drop_id concat_append)
  have rest: "drop k (keep b parts) = keep (b - length ?c) (drop k parts)"
    using keep_append [of b "take k parts" "drop k parts"] assms(3) by simp
  have "length (take k parts) = k" using assms(3) by simp
  then have "drop m (trimmed b k parts) = drop m (take k parts) @ drop k (keep b parts)"
    using assms(2) by (simp add: trimmed_def)
  then show "concat (drop m (trimmed b k parts)) = concat (drop m (take k parts)) @ drop b (concat parts)"
    using assms(1) unfolding rest cat by (simp add: concat_keep)
  have "?c = concat (take m (take k parts)) @ concat (drop m (take k parts))" by (metis append_take_drop_id concat_append)
  then have "subseq (concat (drop m (take k parts))) ?c" by (metis list_emb_append2 subseq_order.refl)
  moreover have "take b (concat parts) = ?c @ take (b - length ?c) (concat (drop k parts))" using assms(1) cat by simp
  ultimately show "subseq (concat (drop m (take k parts))) (take b (concat parts))" by (metis subseq_append' append_Nil2 list_emb_append_mono list_emb_Nil)
qed

definition headless :: "surroundings \<Rightarrow> segment list \<Rightarrow> 64 word \<Rightarrow> 64 word list \<Rightarrow> string list \<Rightarrow> assertion" where
  "headless K gs n os cs r d \<longleftrightarrow> frame r d = K \<and> rc_segments r = gs \<and> rc_file r = Some n \<and> on_disk os cs d"

lemma remove_head:
  assumes "distinct (n # os)" and "length os = length cs" and "on_disk (n # os) (c # cs) d"
  shows "on_live (remove_file n) d = Some (d\<lparr>dk_live := Some (zip os cs)\<rparr>)"
proof -
  have "filter (\<lambda>(k, c). k \<noteq> n) (zip os cs) = zip os cs"
    using assms(1) by (auto simp: filter_id_conv dest: set_zip_leftD)
  then show ?thesis using assms(3) by (simp add: on_live_def remove_file_def on_disk_def)
qed

lemma removals_achieve:
  assumes "distinct (map sg_ordinal hs @ os)" and "length hs = length ds" and "length os = length cs"
    and "\<And>m r d. m \<le> length hs \<Longrightarrow> headless K gs n (drop m (map sg_ordinal hs) @ os) (drop m ds @ cs) r d \<Longrightarrow> F r d"
  shows "achieves (headless K gs n (map sg_ordinal hs @ os) (ds @ cs))
    (run_all (map (\<lambda>g. storage (on_live (remove_file (sg_ordinal g)))) hs)) (headless K gs n os cs) F"
  using assms
proof (induction hs arbitrary: ds)
  case Nil
  then show ?case by (auto intro!: achieves_Nil simp del: run_all.simps)
next
  case (Cons h hs)
  then obtain c ds' where ds: "ds = c # ds'" by (cases ds) auto
  have first: "achieves (headless K gs n (map sg_ordinal (h # hs) @ os) (ds @ cs)) (storage (on_live (remove_file (sg_ordinal h))))
      (headless K gs n (map sg_ordinal hs @ os) (ds' @ cs)) F"
  proof (rule achieves_storage)
    show "F r d" if "headless K gs n (map sg_ordinal (h # hs) @ os) (ds @ cs) r d" for r d
      using Cons.prems(4) [of 0] that by simp
    show "headless K gs n (map sg_ordinal hs @ os) (ds' @ cs) r d' \<and> F r d'"
      if "headless K gs n (map sg_ordinal (h # hs) @ os) (ds @ cs) r d" "on_live (remove_file (sg_ordinal h)) d = Some d'" for r d d'
    proof -
      have "d' = d\<lparr>dk_live := Some (zip (map sg_ordinal hs @ os) (ds' @ cs))\<rparr>"
        using remove_head [of "sg_ordinal h" "map sg_ordinal hs @ os" "ds' @ cs" c d] that Cons.prems(1-3) ds
        by (simp add: headless_def)
      then have "headless K gs n (map sg_ordinal hs @ os) (ds' @ cs) r d'" using that(1) by (auto simp: headless_def on_disk_def)
      then show ?thesis using Cons.prems(4) [of 1] ds by simp
    qed
  qed
  have "achieves (headless K gs n (map sg_ordinal hs @ os) (ds' @ cs))
    (run_all (map (\<lambda>g. storage (on_live (remove_file (sg_ordinal g)))) hs)) (headless K gs n os cs) F"
  proof (rule Cons.IH)
    show "F r d" if "m \<le> length hs" "headless K gs n (drop m (map sg_ordinal hs) @ os) (drop m ds' @ cs) r d" for m r d
      using Cons.prems(4) [of "Suc m"] that ds by simp
  qed (use Cons.prems ds in auto)
  then show ?case using achieves_Cons [OF first] by (simp del: run_all.simps)
qed

lemma drop_take_join: "m \<le> k \<Longrightarrow> drop m (take k xs) @ drop k xs = drop m xs"
  by (induction xs arbitrary: m k) (auto simp: drop_Cons' take_Cons')

lemma trimmed_nth: "k < length parts \<Longrightarrow> length (trimmed b k parts) = length parts"
  by (simp add: trimmed_def)

lemma drop_expired_achieves:
  assumes ok: "log_ok os parts" and k: "k \<le> length parts - 1" and all: "0 < k \<longrightarrow> length (concat (take k parts)) \<le> b"
  shows "achieves (stored_as K os (trimmed b k parts)) (drop_expired k)
    (stored_as K (drop k os) (drop k (keep b parts))) (half_trimmed K b (concat parts))"
proof (cases "k = 0")
  case True
  then show ?thesis
    unfolding drop_expired_def achieves_def by (auto simp: trimmed_def)
next
  case False
  note ok' = log_okD [OF ok]
  have klt: "k < length parts" using k False by simp
  let ?ps = "trimmed b k parts"
  let ?gs = "map2 segment_of os ?ps" and ?n = "last os" and ?F = "half_trimmed K b (concat parts)"
  have ps: "length ?ps = length os" "drop k ?ps = drop k (keep b parts)"
    using trimmed_nth [OF klt] ok' klt by (simp_all add: trimmed_def)
  have ords: "map sg_ordinal (take k ?gs) = take k os"
    using ps(1) by (simp add: take_map [symmetric] comp_def split_def take_zip)
  let ?at = "\<lambda>m. headless K ?gs ?n (drop m os) (drop m (map data_of ?ps))"
  have lost: "?F r d" if "?at m r d" "m \<le> k" for m r d
  proof -
    have "log_ok (drop m os) (drop m ?ps)"
      using ok that(2) klt ps(1) by (auto simp: log_ok_def sorted_wrt_drop)
    moreover have "on_disk (drop m os) (map data_of (drop m ?ps)) d" using that(1) by (simp add: headless_def drop_map)
    ultimately show ?thesis
      using trimmed_suffix [of k parts b m] all False that klt unfolding half_trimmed_def headless_def by fastforce
  qed
  have removed: "achieves (?at 0) (run_all (map (\<lambda>g. storage (on_live (remove_file (sg_ordinal g)))) (take k ?gs))) (?at k) ?F"
  proof -
    have split: "take k os @ drop k os = os" "take k (map data_of ?ps) @ drop k (map data_of ?ps) = map data_of ?ps" by simp_all
    have "achieves (headless K ?gs ?n (map sg_ordinal (take k ?gs) @ drop k os) (take k (map data_of ?ps) @ drop k (map data_of ?ps)))
      (run_all (map (\<lambda>g. storage (on_live (remove_file (sg_ordinal g)))) (take k ?gs)))
      (headless K ?gs ?n (drop k os) (drop k (map data_of ?ps))) ?F"
    proof (rule removals_achieve)
      show "?F r d" if "m \<le> length (take k ?gs)"
        "headless K ?gs ?n (drop m (map sg_ordinal (take k ?gs)) @ drop k os) (drop m (take k (map data_of ?ps)) @ drop k (map data_of ?ps)) r d" for m r d
      proof (rule lost)
        have mk: "m \<le> k" using that(1) by simp
        show "m \<le> k" by (rule mk)
        show "?at m r d" using that(2) unfolding ords by (simp only: drop_take_join [OF mk])
      qed
    qed (use ok' ps klt ords in simp_all)
    then show ?thesis unfolding ords split by simp
  qed
  have synced: "achieves (?at k) sync_directory (?at k) ?F"
    unfolding sync_directory_def by (rule achieves_sync) (use lost in blast)
  have forget: "achieves (?at k) (run_all [locally (\<lambda>r. r\<lparr>rc_segments := drop k (rc_segments r)\<rparr>)])
      (stored_as K (drop k os) (drop k (keep b parts))) ?F"
  proof (rule achieves_Cons [OF achieves_locally achieves_Nil])
    show "stored_as K (drop k os) (drop k (keep b parts)) (r\<lparr>rc_segments := drop k (rc_segments r)\<rparr>) d" if "?at k r d" for r d
      using that ps klt ok' by (simp add: headless_def stored_as_def drop_map drop_zip)
  qed
  show ?thesis
  proof (rule achieves_same)
    show "drop_expired k (r, w) = run_all (map (\<lambda>g. storage (on_live (remove_file (sg_ordinal g)))) (take k ?gs) @
        [sync_directory, locally (\<lambda>r. r\<lparr>rc_segments := drop k (rc_segments r)\<rparr>)]) (r, w)"
      if "stored_as K os ?ps r (wd_disk w)" for r and w :: world
      using that False unfolding drop_expired_def stored_as_def by simp
    have "achieves (?at 0) (run_all (map (\<lambda>g. storage (on_live (remove_file (sg_ordinal g)))) (take k ?gs) @
        [sync_directory, locally (\<lambda>r. r\<lparr>rc_segments := drop k (rc_segments r)\<rparr>)])) (stored_as K (drop k os) (drop k (keep b parts))) ?F"
      by (rule achieves_append [OF removed achieves_Cons [OF synced forget]])
    then show "achieves (stored_as K os ?ps) (run_all (map (\<lambda>g. storage (on_live (remove_file (sg_ordinal g)))) (take k ?gs) @
        [sync_directory, locally (\<lambda>r. r\<lparr>rc_segments := drop k (rc_segments r)\<rparr>)])) (stored_as K (drop k os) (drop k (keep b parts))) ?F"
      by (rule achieves_weaken) (simp_all add: stored_as_def headless_def)
  qed
qed

lemma trim_segments_achieves:
  assumes ok: "log_ok os parts"
  shows "achieves (stored_as K os parts) (trim_segments (concat parts) b) (appended K (drop b (concat parts)))
    (half_trimmed K b (concat parts))"
proof (rule achievesI)
  fix r r' e and w w' :: world
  assume P: "stored_as K os parts r (wd_disk w)" and run: "trim_segments (concat parts) b (r, w) = (e, r', w')"
  note ok' = log_okD [OF ok]
  have n: "length (rc_segments r) = length os" using P ok' by (simp add: stored_as_def)
  obtain e1 r1 w1 x where loop: "trim_loop (concat parts) b [0..<length os] 0 0 (r, w) = ((e1, r1, w1), x)" by (metis surj_pair)
  have res: "if e1 = None
    then \<exists>k. k \<le> length parts - 1 \<and> (0 < k \<longrightarrow> length (concat (take k parts)) \<le> b) \<and>
      x = k \<and> stored_as K os (trimmed b k parts) r1 (wd_disk w1)
    else some_of K os {qs. mixed b parts qs} r1 (wd_disk w1)"
    using trim_loop_stored [of os "[]" parts "concat parts" "[]" 0 K r w b 0 e1 r1 w1 x] ok' P loop by (auto split: if_splits)
  show "if e = None then appended K (drop b (concat parts)) r' (wd_disk w') else half_trimmed K b (concat parts) r' (wd_disk w')"
  proof (cases e1)
    case None
    then obtain k where k: "k \<le> length parts - 1" "0 < k \<longrightarrow> length (concat (take k parts)) \<le> b" "x = k"
      "stored_as K os (trimmed b k parts) r1 (wd_disk w1)" using res by auto
    have rest: "drop_expired k (r1, w1) = (e, r', w')" using run n loop None k(3) by (simp add: trim_segments_def)
    have klt: "k < length parts" using k(1) ok' by (cases parts) auto
    have lk: "log_ok (drop k os) (drop k (keep b parts))" using ok klt by (auto simp: log_ok_def sorted_wrt_drop)
    have cat: "concat (drop k (keep b parts)) = drop b (concat parts)"
    proof (cases "k = 0")
      case False
      have "drop k (trimmed b k parts) = drop k (keep b parts)" using klt by (simp add: trimmed_def)
      then show ?thesis using trimmed_suffix(1) [of k parts b k] k(2) False klt by simp
    qed (simp add: concat_keep)
    have "if e = None then stored_as K (drop k os) (drop k (keep b parts)) r' (wd_disk w') else half_trimmed K b (concat parts) r' (wd_disk w')"
      by (rule achievesD [OF drop_expired_achieves [OF ok k(1,2)] k(4) rest])
    moreover have "appended K (drop b (concat parts)) r' (wd_disk w')"
      if "stored_as K (drop k os) (drop k (keep b parts)) r' (wd_disk w')"
      unfolding appended_def by (rule exI, rule exI, intro conjI) (rule lk, rule cat, rule that)
    ultimately show ?thesis by presburger
  next
    case (Some y)
    have run': "e = Some y" "r' = r1" "w' = w1" using run n loop Some by (simp_all add: trim_segments_def)
    obtain qs where qs: "mixed b parts qs" "base K os (rc_segments r1) (map data_of qs) r1 (wd_disk w1) \<or>
        (frame r1 (wd_disk w1) = K \<and> on_disk os (map data_of qs) (wd_disk w1))"
      using res Some by (auto simp: some_of_def holds_def)
    have "length qs = length parts" using qs(1) by (induction b parts qs rule: mixed.induct) auto
    then have "log_ok os qs" using ok by (simp add: log_ok_def)
    moreover obtain gone where "concat qs = gone @ drop b (concat parts)" "subseq gone (take b (concat parts))"
      using mixed_concat [OF qs(1)] by blast
    ultimately show ?thesis using qs(2) run' unfolding half_trimmed_def base_def by auto
  qed
qed

end
