(* ===== verification/RecorderLog.thy ===== *)
theory RecorderLog
  imports RecorderRetain
begin

text \<open>
  The recorder as a journal: the abstract log (its entries and the last sequence number, no
  disk, no segments), what retention keeps of it, and the recorder's operations as steps of
  the journal.  \<open>intact\<close> is the invariant of a working recorder: its files spell exactly its
  records, its counters agree with them and the history is in order.
\<close>

subsection \<open>Retention\<close>

definition sizes :: "stored list \<Rightarrow> int" where "sizes xs = sum_list (map data_size xs)"

definition fits :: "config \<Rightarrow> int \<Rightarrow> stored list \<Rightarrow> bool" where
  "fits cf cutoff xs \<longleftrightarrow> (\<forall>x \<in> set xs. cutoff \<le> ev_time (st_event x)) \<and>
     int (length xs) \<le> cf_max_events cf \<and> sizes xs \<le> cf_max_bytes cf"

text \<open>The longest suffix that fits.\<close>

definition retained :: "config \<Rightarrow> int \<Rightarrow> stored list \<Rightarrow> stored list" where
  "retained cf cutoff xs = last (filter (fits cf cutoff) (suffixes xs))"

definition in_order :: "stored list \<Rightarrow> bool" where
  "in_order xs \<longleftrightarrow> sorted_wrt (\<lambda>x y. ev_sequence (st_event x) < ev_sequence (st_event y) \<and> ev_time (st_event x) \<le> ev_time (st_event y)) xs"

lemma in_order_drop: "in_order xs \<Longrightarrow> in_order (drop n xs)"
  by (simp add: in_order_def sorted_wrt_drop)

lemma sizes_nonneg: "0 \<le> sizes xs"
  unfolding sizes_def by (induction xs) (simp_all add: data_size_def)

lemma fits_drop: "fits cf cutoff xs \<Longrightarrow> fits cf cutoff (drop n xs)"
proof -
  have "sizes xs = sizes (take n xs) + sizes (drop n xs)"
    unfolding sizes_def by (metis append_take_drop_id map_append sum_list_append)
  then show "fits cf cutoff xs \<Longrightarrow> fits cf cutoff (drop n xs)"
    using sizes_nonneg [of "take n xs"] by (auto simp: fits_def dest: in_set_dropD)
qed

lemma retained_Cons: "fits cf cutoff [] \<Longrightarrow> retained cf cutoff (x # xs) = (if fits cf cutoff (x # xs) then x # xs else retained cf cutoff xs)"
  by (simp add: retained_def)

lemma retained_fit: "fits cf cutoff xs \<Longrightarrow> retained cf cutoff xs = xs"
  by (cases xs) (simp_all add: retained_def)

lemma retention_le: "fst (retention cf cutoff xs u) \<le> length xs"
  by (induction xs arbitrary: u) (auto simp: Let_def split_def)

lemma retention_retained:
  assumes "in_order xs" and "fits cf cutoff []"
  shows "drop (fst (retention cf cutoff xs (sizes xs))) xs = retained cf cutoff xs \<and>
    snd (retention cf cutoff xs (sizes xs)) = sizes (retained cf cutoff xs)"
  using assms(1)
proof (induction xs)
  case Nil
  then show ?case using assms(2) by (simp add: retained_def sizes_def)
next
  case (Cons x xs)
  have order: "in_order xs" using in_order_drop [OF Cons.prems, of 1] by simp
  let ?bad = "ev_time (st_event x) < cutoff \<or> int (length (x # xs)) > cf_max_events cf \<or> sizes (x # xs) > cf_max_bytes cf"
  have young: "\<forall>y \<in> set xs. ev_time (st_event x) \<le> ev_time (st_event y)" using Cons.prems by (simp add: in_order_def)
  then have fit: "fits cf cutoff (x # xs) \<longleftrightarrow> \<not> ?bad"
    by (auto simp: fits_def)
  have size: "sizes (x # xs) - data_size x = sizes xs" by (simp add: sizes_def)
  show ?case
  proof (cases ?bad)
    case True
    then have "retention cf cutoff (x # xs) (sizes (x # xs)) =
        (Suc (fst (retention cf cutoff xs (sizes xs))), snd (retention cf cutoff xs (sizes xs)))"
      unfolding retention.simps size by (simp add: split_def Let_def)
    moreover have "\<not> fits cf cutoff (x # xs)" using fit True by blast
    ultimately show ?thesis using Cons.IH [OF order] retained_Cons [OF assms(2), of x xs] by simp
  next
    case False
    then have "retention cf cutoff (x # xs) (sizes (x # xs)) = (0, sizes (x # xs))" by simp
    then show ?thesis using retained_fit fit False by (metis drop_0 fst_conv snd_conv)
  qed
qed

subsection \<open>The journal\<close>

record journal =
  jr_entries :: "stored list"
  jr_next :: "64 word"

datatype journal_op = Note int event | Sweep int

definition latest :: "stored list \<Rightarrow> int" where
  "latest xs = (if xs = [] then 0 else ev_time (st_event (last xs)))"

text \<open>The entry an event becomes: stamped, sanitized, encoded, and no larger than the log.\<close>

definition entry :: "config \<Rightarrow> codec \<Rightarrow> int \<Rightarrow> event \<Rightarrow> journal \<Rightarrow> stored option" where
  "entry cf C now input j =
     (if validate_event input \<noteq> None \<or> jr_next j = - 1 then None
      else let ev = sanitize cf C (input\<lparr>ev_version := event_schema_version, ev_sequence := jr_next j + 1,
             ev_time := (if jr_entries j \<noteq> [] then max now (latest (jr_entries j)) else now)\<rparr>)
        in case cd_marshal C ev of
            None \<Rightarrow> None
          | Some bytes \<Rightarrow>
              if int (length (bytes @ newline)) \<le> cf_max_bytes cf then Some \<lparr>st_event = ev, st_data = bytes @ newline\<rparr> else None)"

fun journal_step :: "config \<Rightarrow> codec \<Rightarrow> journal_op \<Rightarrow> journal \<Rightarrow> journal" where
  "journal_step cf C (Note now input) j =
     (case entry cf C now input j of
        None \<Rightarrow> j
      | Some x \<Rightarrow> j\<lparr>jr_entries := retained cf (ev_time (st_event x) - cf_max_age cf) (jr_entries j @ [x]),
            jr_next := ev_sequence (st_event x)\<rparr>)"
| "journal_step cf C (Sweep now) j = j\<lparr>jr_entries := retained cf (now - cf_max_age cf) (jr_entries j)\<rparr>"

definition abs_journal :: "recorder \<Rightarrow> journal" where
  "abs_journal r = \<lparr>jr_entries = rc_records r, jr_next = rc_next r\<rparr>"

text \<open>What the files hold after a failed step: the log as it was with a part of the new
  entry behind it, or the new log with a part of what retention drops still there.\<close>

definition recoverable :: "stored list \<Rightarrow> stored option \<Rightarrow> nat \<Rightarrow> disk \<Rightarrow> bool" where
  "recoverable xs x b d \<longleftrightarrow>
     (\<exists>os parts tail. log_ok os parts \<and> on_disk os (torn_contents parts tail) d \<and>
        (concat parts = xs \<and> prefix tail (case x of None \<Rightarrow> [] | Some y \<Rightarrow> st_data y) \<or>
         tail = [] \<and> (\<exists>gone. subseq gone (take b (xs @ case_option [] (\<lambda>y. [y]) x)) \<and>
            concat parts = gone @ drop b (xs @ case_option [] (\<lambda>y. [y]) x))))"

subsection \<open>The invariant\<close>

text \<open>Neither a staging directory nor a legacy log is left.\<close>

definition settled :: "disk \<Rightarrow> bool" where "settled d \<longleftrightarrow> dk_stage d = None \<and> dk_legacy d = None"

lemma settled_frame: "frame r d = frame r' d' \<Longrightarrow> settled d = settled d'"
  by (simp add: frame_def settled_def)

definition intact :: "recorder \<Rightarrow> disk \<Rightarrow> bool" where
  "intact r d \<longleftrightarrow> he_writable (rc_health r) \<and> \<not> rc_closed r \<and> appended (frame r d) (rc_records r) r d \<and>
     rc_bytes r = sizes (rc_records r) \<and> in_order (rc_records r) \<and>
     (\<forall>x \<in> set (rc_records r). ev_sequence (st_event x) \<le> rc_next r) \<and> settled d"

lemma appended_reframe:
  "appended K xs r d \<Longrightarrow> rc_file r' = rc_file r \<Longrightarrow> rc_segments r' = rc_segments r \<Longrightarrow> appended (frame r' d) xs r' d"
  unfolding appended_def stored_as_def by auto

lemma frame_of_appended: "appended K xs r d \<Longrightarrow> frame r d = K"
  by (auto simp: appended_def stored_as_def)

lemma appended_torn: "appended K xs r d \<Longrightarrow> torn K xs data r d"
  unfolding appended_def using stored_torn by blast

lemma trim_achieves: "achieves (appended K xs) (trim_segments xs b) (appended K (drop b xs)) (half_trimmed K b xs)"
  unfolding achieves_def appended_def
  using trim_segments_achieves [unfolded achieves_def appended_def] by blast

lemma append_achieves: "achieves (appended K xs) (append_segment cf (st_data x) q) (appended K (xs @ [x])) (torn K xs (st_data x))"
  unfolding achieves_def appended_def
  using append_segment_achieves [unfolded achieves_def appended_def] by blast

definition lost :: "surroundings \<Rightarrow> stored list \<Rightarrow> stored option \<Rightarrow> nat \<Rightarrow> assertion" where
  "lost K xs x b r d \<longleftrightarrow> frame r d = K \<and> recoverable xs x b d"

lemma torn_lost: "torn K xs (st_data x) r d \<Longrightarrow> lost K xs (Some x) b r d"
  unfolding torn_def lost_def recoverable_def by fastforce

lemma appended_lost:
  assumes "appended K xs r d"
  shows "lost K xs None b r d"
proof -
  obtain os parts tail where "log_ok os parts" "concat parts = xs" "prefix tail []" "on_disk os (torn_contents parts tail) d" "frame r d = K"
    using appended_torn [OF assms, of "[]"] unfolding torn_def by blast
  then show ?thesis unfolding lost_def recoverable_def by (auto intro!: exI [of _ os] exI [of _ parts])
qed

lemma half_lost:
  assumes "half_trimmed K b ys r d" and "ys = xs @ case_option [] (\<lambda>y. [y]) x"
  shows "lost K xs x b r d"
proof -
  obtain os parts gone where o: "log_ok os parts" "on_disk os (map data_of parts) d" "subseq gone (take b ys)" "concat parts = gone @ drop b ys"
    using assms(1) unfolding half_trimmed_def by blast
  have "on_disk os (torn_contents parts []) d" using o(2) torn_contents_Nil [of parts] log_okD [OF o(1)] by simp
  then show ?thesis using o assms unfolding lost_def recoverable_def half_trimmed_def by blast
qed

lemma persist_achieves:
  "achieves (appended K xs) (persist cf (st_data x) (xs @ [x]) b) (appended K (drop b (xs @ [x])))
     (lost K xs (Some x) b)"
proof -
  let ?F = "lost K xs (Some x) b"
  have put: "achieves (appended K xs) (append_segment cf (st_data x) (b > 0)) (appended K (xs @ [x])) ?F"
    by (rule achieves_weaken [OF append_achieves _ _ torn_lost])
  have cut: "achieves (appended K (xs @ [x])) (trim_segments (xs @ [x]) b) (appended K (drop b (xs @ [x]))) ?F"
    by (rule achieves_weaken [OF trim_achieves _ _ half_lost]) simp_all
  show ?thesis
  proof (cases "b = 0")
    case True
    have "achieves (appended K xs) (run_all [append_segment cf (st_data x) (b > 0)]) (appended K (drop b (xs @ [x]))) ?F"
      by (rule achieves_Cons [OF put achieves_Nil]) (use True in simp)
    then show ?thesis using True by (simp add: persist_def del: run_all.simps)
  next
    case False
    have "achieves (appended K xs) (run_all [append_segment cf (st_data x) (b > 0), trim_segments (xs @ [x]) b]) (appended K (drop b (xs @ [x]))) ?F"
      by (rule achieves_Cons [OF put achieves_Cons [OF cut achieves_Nil]])
    then show ?thesis using False by (simp add: persist_def del: run_all.simps)
  qed
qed

lemma sweep_achieves:
  "achieves (appended K xs) (run_all [sync_file, trim_segments xs b]) (appended K (drop b xs))
     (lost K xs None b)"
proof -
  let ?F = "lost K xs None b"
  have sync: "achieves (appended K xs) sync_file (appended K xs) ?F"
    unfolding sync_file_def
    by (rule achieves_sync) (rule appended_lost)
  have cut: "achieves (appended K xs) (trim_segments xs b) (appended K (drop b xs)) ?F"
    by (rule achieves_weaken [OF trim_achieves _ _ half_lost]) simp_all
  show ?thesis by (rule achieves_Cons [OF sync achieves_Cons [OF cut achieves_Nil]])
qed

end
