(* ===== verification/RecorderRuns.thy ===== *)
theory RecorderRuns
  imports RecorderLog
begin

text \<open>
  The recorder's operations against the journal: each step of a working recorder is the
  journal's step or breaks the recorder, and a broken recorder stays as it is.
\<close>

definition log_op :: "config \<Rightarrow> codec \<Rightarrow> journal_op \<Rightarrow> state \<Rightarrow> state" where
  "log_op cf C op s = (case op of Note now e \<Rightarrow> snd (recorder_record cf C now e s) | Sweep now \<Rightarrow> snd (recorder_cleanup cf now s))"

fun run_log :: "config \<Rightarrow> codec \<Rightarrow> journal_op list \<Rightarrow> state \<Rightarrow> state" where
  "run_log cf C [] s = s"
| "run_log cf C (op # ops) s = run_log cf C ops (log_op cf C op s)"

fun journal_run :: "config \<Rightarrow> codec \<Rightarrow> journal_op list \<Rightarrow> journal \<Rightarrow> journal" where
  "journal_run cf C [] j = j"
| "journal_run cf C (op # ops) j = journal_run cf C ops (journal_step cf C op j)"

definition pending_entry :: "config \<Rightarrow> codec \<Rightarrow> journal_op \<Rightarrow> journal \<Rightarrow> stored option" where
  "pending_entry cf C op j = (case op of Note now e \<Rightarrow> entry cf C now e j | Sweep now \<Rightarrow> None)"

text \<open>A step that broke: memory is as before, and the files hold either the old log or all
  of the new one.\<close>

definition broke :: "config \<Rightarrow> codec \<Rightarrow> journal_op \<Rightarrow> journal \<Rightarrow> disk \<Rightarrow> bool" where
  "broke cf C op j d \<longleftrightarrow> settled d \<and> (\<exists>b. recoverable (jr_entries j) (pending_entry cf C op j) b d \<and>
     drop b (jr_entries j @ case_option [] (\<lambda>y. [y]) (pending_entry cf C op j)) = jr_entries (journal_step cf C op j))"

definition follows :: "config \<Rightarrow> codec \<Rightarrow> journal_op \<Rightarrow> recorder \<Rightarrow> state \<Rightarrow> bool" where
  "follows cf C op r s' \<longleftrightarrow>
     (if he_writable (rc_health (fst s'))
      then intact (fst s') (wd_disk (snd s')) \<and> abs_journal (fst s') = journal_step cf C op (abs_journal r)
      else abs_journal (fst s') = abs_journal r \<and> broke cf C op (abs_journal r) (wd_disk (snd s')))"

lemma valid_fits: "validate_config cf = None \<Longrightarrow> fits cf cutoff []"
  by (auto simp: fits_def sizes_def validate_config_def first_err_def guard_err_def split: if_splits)

lemma update_usage_simps [simp]:
  "rc_records (update_usage cf r) = rc_records r" "rc_next (update_usage cf r) = rc_next r" "rc_bytes (update_usage cf r) = rc_bytes r"
  "rc_file (update_usage cf r) = rc_file r" "rc_segments (update_usage cf r) = rc_segments r" "rc_closed (update_usage cf r) = rc_closed r"
  "he_writable (rc_health (update_usage cf r)) = he_writable (rc_health r)"
  by (simp_all add: update_usage_def Let_def)

lemma retain_simps [simp]:
  "rc_records (retain n xs u r) = drop n xs" "rc_next (retain n xs u r) = rc_next r" "rc_bytes (retain n xs u r) = u"
  "rc_file (retain n xs u r) = rc_file r" "rc_segments (retain n xs u r) = rc_segments r" "rc_closed (retain n xs u r) = rc_closed r"
  "he_writable (rc_health (retain n xs u r)) = he_writable (rc_health r)"
  by (simp_all add: retain_def)

lemma fail_recorder_simps [simp]:
  "rc_records (fail_recorder e r) = rc_records r" "rc_next (fail_recorder e r) = rc_next r" "\<not> he_writable (rc_health (fail_recorder e r))"
  by (simp_all add: fail_recorder_def)

text \<open>What an event becomes, in the recorder and in the journal.\<close>

lemma normalize_entry:
  "recorder_record cf C now input (r, w) =
    (if rc_closed r then (Inl RecorderClosed, r, w)
     else if \<not> he_writable (rc_health r) then (Inl RecorderBroken, r, w)
     else case entry cf C now input (abs_journal r) of
         None \<Rightarrow> (case normalize_event cf C now r input of
             Inl e \<Rightarrow> (Inl e, r, w)
           | Inr ev \<Rightarrow> (case cd_marshal C ev of
               None \<Rightarrow> (Inl EncodeFailed, r, w)
             | Some bytes \<Rightarrow> (Inl EventTooLarge, r\<lparr>rc_health := (rc_health r)\<lparr>he_dropped := he_dropped (rc_health r) + 1,
                 he_pressure := True\<rparr>\<rparr>, w)))
       | Some x \<Rightarrow>
           (let (dropped, usage) = retention_decision cf (rc_records r @ [x]) (rc_bytes r + data_size x) (ev_time (st_event x)) in
            case persist cf (st_data x) (rc_records r @ [x]) dropped (r, w) of
              (Some e, r', w') \<Rightarrow> (Inl (PersistFailed e), update_usage cf (fail_recorder e r'), w')
            | (None, r', w') \<Rightarrow>
                (Inr (st_event x), update_usage cf ((retain dropped (rc_records r @ [x]) usage r')
                   \<lparr>rc_next := ev_sequence (st_event x), rc_report_at := ev_time (st_event x)\<rparr>), w')))"
proof -
  define T where "T = (if rc_records r \<noteq> [] \<and> now < last_time r then last_time r else now)"
  define ev where "ev = sanitize cf C (input\<lparr>ev_version := event_schema_version, ev_sequence := rc_next r + 1, ev_time := T\<rparr>)"
  have T: "(if rc_records r \<noteq> [] then max now (latest (rc_records r)) else now) = T"
    by (simp add: T_def last_time_def latest_def max_def)
  have norm: "normalize_event cf C now r input =
      (case validate_event input of Some e \<Rightarrow> Inl (InvalidEvent e) | None \<Rightarrow> if rc_next r = - 1 then Inl SequenceExhausted else Inr ev)"
    unfolding normalize_event_def ev_def T_def by simp
  have ent: "entry cf C now input (abs_journal r) =
     (if validate_event input \<noteq> None \<or> rc_next r = - 1 then None
      else case cd_marshal C ev of
            None \<Rightarrow> None
          | Some bytes \<Rightarrow>
              if int (length (bytes @ newline)) \<le> cf_max_bytes cf then Some \<lparr>st_event = ev, st_data = bytes @ newline\<rparr> else None)"
    unfolding entry_def abs_journal_def journal.simps T Let_def ev_def [symmetric] by (rule refl)
  show ?thesis
  proof (cases "validate_event input \<noteq> None \<or> rc_next r = - 1")
    case True
    then have "entry cf C now input (abs_journal r) = None" "\<exists>e. normalize_event cf C now r input = Inl e"
      unfolding ent norm by (auto split: option.splits)
    then show ?thesis unfolding recorder_record_def Let_def fst_conv by auto
  next
    case False
    then have norm': "normalize_event cf C now r input = Inr ev" unfolding norm by simp
    show ?thesis
    proof (cases "\<exists>bytes. cd_marshal C ev = Some bytes \<and> int (length (bytes @ newline)) \<le> cf_max_bytes cf")
      case True
      then obtain bytes where bytes: "cd_marshal C ev = Some bytes" "int (length (bytes @ newline)) \<le> cf_max_bytes cf" by blast
      define x where "x = \<lparr>st_event = ev, st_data = bytes @ newline\<rparr>"
      have x: "st_event x = ev" "st_data x = bytes @ newline" "data_size x = int (length (bytes @ newline))"
        by (simp_all add: x_def data_size_def)
      have e: "entry cf C now input (abs_journal r) = Some x" unfolding ent x_def using False bytes by simp
      moreover have "\<not> cf_max_bytes cf < int (length (bytes @ newline))" using bytes(2) by linarith
      ultimately show ?thesis
        unfolding recorder_record_def Let_def fst_conv snd_conv norm' e sum.case bytes(1) option.case x x_def [symmetric] by simp
    next
      case False
      then show ?thesis
        unfolding recorder_record_def Let_def fst_conv snd_conv norm' ent
        using \<open>\<not> (validate_event input \<noteq> None \<or> rc_next r = - 1)\<close> by (auto split: option.split)
    qed
  qed
qed

lemma entry_some:
  assumes "entry cf C now input j = Some x"
  shows "jr_next j \<noteq> - 1" and "ev_sequence (st_event x) = jr_next j + 1"
    and "ev_time (st_event x) = (if jr_entries j \<noteq> [] then max now (latest (jr_entries j)) else now)"
    and "data_size x \<le> cf_max_bytes cf"
  using assms by (auto simp: entry_def Let_def data_size_def split: if_splits option.splits)

lemma in_order_snoc:
  assumes "in_order xs" and "\<forall>y \<in> set xs. ev_sequence (st_event y) < ev_sequence (st_event x)"
    and "xs \<noteq> [] \<longrightarrow> latest xs \<le> ev_time (st_event x)"
  shows "in_order (xs @ [x])"
proof -
  have "ev_time (st_event y) \<le> latest xs" if "y \<in> set xs" for y
  proof -
    have ne: "xs \<noteq> []" using that by auto
    have "in_order (butlast xs @ [last xs])" using assms(1) ne by simp
    then have "\<forall>z \<in> set (butlast xs). ev_time (st_event z) \<le> ev_time (st_event (last xs))"
      by (simp add: in_order_def sorted_wrt_append)
    moreover have "y \<in> set (butlast xs) \<or> y = last xs"
      using that append_butlast_last_id [OF ne] by (metis Un_iff empty_iff empty_set set_ConsD set_append)
    ultimately show ?thesis using ne by (auto simp: latest_def)
  qed
  then show ?thesis using assms unfolding in_order_def sorted_wrt_append by fastforce
qed

lemma next_greater: "(n :: 64 word) \<noteq> - 1 \<Longrightarrow> n < n + 1"
proof -
  assume "n \<noteq> - 1"
  then have "1 + n \<noteq> 0" by (metis add.commute eq_neg_iff_add_eq_0)
  then show ?thesis using unatSuc [of n] by (simp add: word_less_nat_alt add.commute)
qed

subsection \<open>One step\<close>

lemma intactD:
  assumes "intact r d"
  shows "he_writable (rc_health r)" "\<not> rc_closed r" "appended (frame r d) (rc_records r) r d"
    "rc_bytes r = sizes (rc_records r)" "in_order (rc_records r)" "\<And>x. x \<in> set (rc_records r) \<Longrightarrow> ev_sequence (st_event x) \<le> rc_next r"
    "settled d"
  using assms by (auto simp: intact_def)

lemma frame_fields:
  "frame r d = frame r' d' \<Longrightarrow> rc_records r = rc_records r' \<and> rc_next r = rc_next r' \<and> rc_health r = rc_health r' \<and>
     rc_closed r = rc_closed r' \<and> rc_bytes r = rc_bytes r'"
  by (simp add: frame_def)

lemma sizes_snoc: "sizes (xs @ [x]) = sizes xs + data_size x"
  by (simp add: sizes_def)

lemma intact_kept:
  assumes "appended K (drop b ys) r1 d" and "K = frame r0 d0" and "intact r0 d0" and "in_order ys"
    and "\<And>x. x \<in> set ys \<Longrightarrow> ev_sequence (st_event x) \<le> rc_next r'"
    and "rc_records r' = drop b ys" and "rc_bytes r' = sizes (drop b ys)" and "rc_file r' = rc_file r1"
    and "rc_segments r' = rc_segments r1" and "rc_closed r' = rc_closed r1"
    and "he_writable (rc_health r') = he_writable (rc_health r1)"
  shows "intact r' d"
proof -
  have f: "frame r1 d = frame r0 d0" using frame_of_appended assms(1,2) by blast
  have "settled d" using settled_frame [OF f] intactD(7) [OF assms(3)] by blast
  moreover have "frame r1 d = frame r0 d0" by (rule f)
  then have "he_writable (rc_health r1)" "\<not> rc_closed r1" using frame_fields [OF f] intactD(1,2) [OF assms(3)] by simp_all
  moreover have "appended (frame r' d) (drop b ys) r' d" by (rule appended_reframe [OF assms(1,8,9)])
  ultimately show ?thesis unfolding intact_def
    using assms in_order_drop [OF assms(4)] by (auto dest: in_set_dropD)
qed

lemma record_follows:
  assumes ok: "intact r (wd_disk w)" and cf: "validate_config cf = None"
  shows "follows cf C (Note now input) r (snd (recorder_record cf C now input (r, w)))"
proof -
  note i = intactD [OF ok]
  let ?j = "abs_journal r"
  have j: "jr_entries ?j = rc_records r" "jr_next ?j = rc_next r" by (simp_all add: abs_journal_def)
  show ?thesis
  proof (cases "entry cf C now input ?j")
    case None
    have "\<exists>h. he_writable h \<and> snd (recorder_record cf C now input (r, w)) = (r\<lparr>rc_health := h\<rparr>, w)"
      using i(1,2) unfolding normalize_entry None
      by (auto split: sum.split option.split intro: exI [of _ "rc_health r"]
        exI [of _ "(rc_health r)\<lparr>he_dropped := he_dropped (rc_health r) + 1, he_pressure := True\<rparr>"])
    then obtain h where h: "he_writable h" "snd (recorder_record cf C now input (r, w)) = (r\<lparr>rc_health := h\<rparr>, w)" by blast
    have "intact (r\<lparr>rc_health := h\<rparr>) (wd_disk w)"
      using i h(1) appended_reframe [OF i(3), of "r\<lparr>rc_health := h\<rparr>"] by (simp add: intact_def)
    then show ?thesis using h None by (simp add: follows_def abs_journal_def)
  next
    case (Some x)
    note e = entry_some [OF Some, unfolded j]
    let ?ys = "rc_records r @ [x]" and ?cut = "ev_time (st_event x) - cf_max_age cf"
    have seq: "rc_next r < ev_sequence (st_event x)" using next_greater e(1,2) by simp
    have order: "in_order ?ys"
    proof (rule in_order_snoc [OF i(5)])
      show "\<forall>y \<in> set (rc_records r). ev_sequence (st_event y) < ev_sequence (st_event x)"
        using i(6) seq by (meson le_less_trans)
    qed (simp add: e(3))
    obtain b u where bu: "retention_decision cf ?ys (rc_bytes r + data_size x) (ev_time (st_event x)) = (b, u)" by fastforce
    have kept: "drop b ?ys = retained cf ?cut ?ys" "u = sizes (drop b ?ys)"
      using retention_retained [OF order valid_fits [OF cf], of ?cut] bu i(4) by (simp_all add: retention_decision_def sizes_snoc)
    obtain e1 r1 w1 where run: "persist cf (st_data x) ?ys b (r, w) = (e1, r1, w1)" by (metis prod_cases3)
    have res: "if e1 = None then appended (frame r (wd_disk w)) (drop b ?ys) r1 (wd_disk w1)
        else lost (frame r (wd_disk w)) (rc_records r) (Some x) b r1 (wd_disk w1)"
      by (rule achievesD [OF persist_achieves i(3) run])
    have step: "jr_entries (journal_step cf C (Note now input) ?j) = drop b ?ys" "jr_next (journal_step cf C (Note now input) ?j) = ev_sequence (st_event x)"
      using Some kept j by simp_all
    show ?thesis
    proof (cases e1)
      case None
      let ?r = "update_usage cf ((retain b ?ys u r1)\<lparr>rc_next := ev_sequence (st_event x), rc_report_at := ev_time (st_event x)\<rparr>)"
      have "snd (recorder_record cf C now input (r, w)) = (?r, w1)"
        unfolding normalize_entry Some option.case bu Let_def prod.case run None using i(1,2) by simp
      moreover have "appended (frame r (wd_disk w)) (drop b ?ys) r1 (wd_disk w1)" using res None by simp
      then have "intact ?r (wd_disk w1)"
        by (rule intact_kept [OF _ refl ok order]) (use i(6) seq kept(2) in \<open>auto intro: less_imp_le order_trans\<close>)
      moreover have "abs_journal ?r = journal_step cf C (Note now input) ?j"
        using step by (simp add: abs_journal_def)
      ultimately show ?thesis using intactD(1) by (simp only: follows_def fst_conv snd_conv if_True simp_thms)
    next
      case (Some y)
      let ?r = "update_usage cf (fail_recorder y r1)"
      have "snd (recorder_record cf C now input (r, w)) = (?r, w1)"
        unfolding normalize_entry \<open>entry cf C now input ?j = Some x\<close> option.case bu Let_def prod.case run Some using i(1,2) by simp
      moreover have "lost (frame r (wd_disk w)) (rc_records r) (Some x) b r1 (wd_disk w1)" using res Some by simp
      then have "broke cf C (Note now input) ?j (wd_disk w1)" "abs_journal ?r = ?j"
        using step \<open>entry cf C now input ?j = Some x\<close> frame_fields [of r1 "wd_disk w1" r "wd_disk w"] settled_frame [of r1 "wd_disk w1" r "wd_disk w"] i(7)
        by (auto simp: broke_def pending_entry_def j lost_def abs_journal_def)
      ultimately show ?thesis by (simp add: follows_def)
    qed
  qed
qed

lemma cleanup_follows:
  assumes ok: "intact r (wd_disk w)" and cf: "validate_config cf = None"
  shows "follows cf C (Sweep now) r (snd (recorder_cleanup cf now (r, w)))"
proof -
  note i = intactD [OF ok]
  let ?ys = "rc_records r" and ?cut = "now - cf_max_age cf"
  obtain b u where bu: "retention_decision cf ?ys (rc_bytes r) now = (b, u)" by fastforce
  have kept: "drop b ?ys = retained cf ?cut ?ys" "u = sizes (drop b ?ys)"
    using retention_retained [OF i(5) valid_fits [OF cf], of ?cut] bu i(4) by (simp_all add: retention_decision_def)
  have step: "journal_step cf C (Sweep now) (abs_journal r) = \<lparr>jr_entries = drop b ?ys, jr_next = rc_next r\<rparr>"
    using kept by (simp add: abs_journal_def)
  show ?thesis
  proof (cases "b = 0")
    case True
    then have "snd (recorder_cleanup cf now (r, w)) = (r, w)" using bu i(1,2) by (simp add: recorder_cleanup_def)
    then show ?thesis using ok i(1) step True by (simp add: follows_def abs_journal_def)
  next
    case False
    obtain e1 r1 w1 where run: "run_all [sync_file, trim_segments ?ys b] (r, w) = (e1, r1, w1)" by (metis prod_cases3)
    have res: "if e1 = None then appended (frame r (wd_disk w)) (drop b ?ys) r1 (wd_disk w1)
        else lost (frame r (wd_disk w)) ?ys None b r1 (wd_disk w1)"
      by (rule achievesD [OF sweep_achieves i(3) run])
    show ?thesis
    proof (cases e1)
      case None
      let ?r = "(update_usage cf (retain b ?ys u r1))\<lparr>rc_report_at := now\<rparr>"
      have "snd (recorder_cleanup cf now (r, w)) = (?r, w1)"
        unfolding recorder_cleanup_def Let_def fst_conv bu prod.case run None using False i(1,2) by simp
      moreover have ap: "appended (frame r (wd_disk w)) (drop b ?ys) r1 (wd_disk w1)" using res None by simp
      have nx: "rc_next r1 = rc_next r" using frame_fields frame_of_appended [OF ap] by blast
      have "intact ?r (wd_disk w1)"
        by (rule intact_kept [OF ap refl ok i(5)]) (use i(6) kept(2) nx in auto)
      moreover have "abs_journal ?r = journal_step cf C (Sweep now) (abs_journal r)"
        unfolding step using nx by (simp add: abs_journal_def)
      ultimately show ?thesis using intactD(1) by (simp only: follows_def fst_conv snd_conv if_True simp_thms)
    next
      case (Some y)
      let ?r = "update_usage cf (fail_recorder y r1)"
      have "snd (recorder_cleanup cf now (r, w)) = (?r, w1)"
        unfolding recorder_cleanup_def Let_def fst_conv bu prod.case run Some using False i(1,2) by simp
      moreover have "lost (frame r (wd_disk w)) ?ys None b r1 (wd_disk w1)" using res Some by simp
      then have "broke cf C (Sweep now) (abs_journal r) (wd_disk w1)" "abs_journal ?r = abs_journal r"
        using frame_fields [of r1 "wd_disk w1" r "wd_disk w"] settled_frame [of r1 "wd_disk w1" r "wd_disk w"] i(7)
        unfolding broke_def step
        by (auto simp: pending_entry_def lost_def abs_journal_def)
      ultimately show ?thesis by (simp add: follows_def)
    qed
  qed
qed

lemma op_follows:
  "intact r (wd_disk w) \<Longrightarrow> validate_config cf = None \<Longrightarrow> follows cf C op r (log_op cf C op (r, w))"
  by (cases op) (simp_all add: log_op_def record_follows cleanup_follows)

lemma op_broken: "\<not> he_writable (rc_health r) \<Longrightarrow> log_op cf C op (r, w) = (r, w)"
  by (cases op) (simp_all add: log_op_def recorder_record_def recorder_cleanup_def Let_def)

lemma run_broken: "\<not> he_writable (rc_health r) \<Longrightarrow> run_log cf C ops (r, w) = (r, w)"
  by (induction ops) (simp_all add: op_broken)

subsection \<open>Runs\<close>

lemma run_follows:
  assumes "validate_config cf = None" and "intact r (wd_disk w)" and "run_log cf C ops (r, w) = (r', w')"
  shows "if he_writable (rc_health r')
    then intact r' (wd_disk w') \<and> abs_journal r' = journal_run cf C ops (abs_journal r)
    else \<exists>done op rest. ops = done @ op # rest \<and> abs_journal r' = journal_run cf C done (abs_journal r) \<and>
      broke cf C op (abs_journal r') (wd_disk w')"
  using assms(2,3)
proof (induction ops arbitrary: r w)
  case Nil
  then show ?case using intactD(1) by auto
next
  case (Cons op ops)
  obtain r1 w1 where one: "log_op cf C op (r, w) = (r1, w1)" by fastforce
  note f = op_follows [OF Cons.prems(1) assms(1), of C op, unfolded one follows_def fst_conv snd_conv]
  have rest: "run_log cf C ops (r1, w1) = (r', w')" using Cons.prems(2) one by simp
  show ?case
  proof (cases "he_writable (rc_health r1)")
    case True
    then have f': "intact r1 (wd_disk w1)" "abs_journal r1 = journal_step cf C op (abs_journal r)" using f by simp_all
    note IH = Cons.IH [OF f'(1) rest, unfolded f'(2)]
    show ?thesis
    proof (cases "he_writable (rc_health r')")
      case False
      then obtain ds op' rest' where "ops = ds @ op' # rest'" "abs_journal r' = journal_run cf C (op # ds) (abs_journal r)"
        "broke cf C op' (abs_journal r') (wd_disk w')" using IH by auto
      then show ?thesis using False by (metis append_Cons)
    qed (use IH in simp)
  next
    case False
    then have "r' = r1" "w' = w1" using rest run_broken by auto
    then show ?thesis using f False by (auto intro!: exI [of _ "[]"])
  qed
qed

end
