(* ===== verification/RecorderWorks.thy ===== *)
theory RecorderWorks
  imports RecorderRuns
begin

text \<open>
  Storage without faults: every operation on the log succeeds.  \<open>delivers P a Q\<close> says that from
  a state with \<open>P\<close> and no fault ahead, \<open>a\<close> succeeds with \<open>Q\<close>; trimming delivers also from
  segments that were damaged when they were read.
\<close>

definition delivers :: "assertion \<Rightarrow> action \<Rightarrow> assertion \<Rightarrow> bool" where
  "delivers P a Q \<longleftrightarrow> (\<forall>r w. P r (wd_disk w) \<and> wd_script w = [] \<longrightarrow>
     (\<exists>r' w'. a (r, w) = (None, r', w') \<and> Q r' (wd_disk w') \<and> wd_script w' = []))"

lemma delivers_of: "works P a \<Longrightarrow> achieves P a Q F \<Longrightarrow> delivers P a Q"
  unfolding delivers_def
proof (intro allI impI, elim conjE)
  fix r and w :: world
  assume a: "works P a" "achieves P a Q F" and P: "P r (wd_disk w)" "wd_script w = []"
  obtain r' w' where run: "a (r, w) = (None, r', w')" "wd_script w' = []" using worksD [OF a(1) P] by blast
  then show "\<exists>r' w'. a (r, w) = (None, r', w') \<and> Q r' (wd_disk w') \<and> wd_script w' = []"
    using achievesD [OF a(2) P(1) run(1)] by auto
qed

lemma delivers_works: "delivers P a Q \<Longrightarrow> works P a"
  unfolding delivers_def works_def by blast

lemma deliversD:
  "delivers P a Q \<Longrightarrow> P r (wd_disk w) \<Longrightarrow> wd_script w = [] \<Longrightarrow>
     \<exists>r' w'. a (r, w) = (None, r', w') \<and> Q r' (wd_disk w') \<and> wd_script w' = []"
  unfolding delivers_def by blast

lemma delivers_weaken:
  "delivers P a Q \<Longrightarrow> (\<And>r d. P' r d \<Longrightarrow> P r d) \<Longrightarrow> (\<And>r d. Q r d \<Longrightarrow> Q' r d) \<Longrightarrow> delivers P' a Q'"
  unfolding delivers_def by meson

lemma delivers_same:
  "(\<And>r w. P r (wd_disk w) \<Longrightarrow> a (r, w) = b (r, w)) \<Longrightarrow> delivers P b Q \<Longrightarrow> delivers P a Q"
  unfolding delivers_def by metis

lemma delivers_storage:
  assumes "\<And>r d. P r d \<Longrightarrow> \<exists>d'. f d = Some d' \<and> Q r d'"
  shows "delivers P (storage f) Q"
  unfolding delivers_def
proof (intro allI impI, elim conjE)
  fix r and w :: world
  assume P: "P r (wd_disk w)" "wd_script w = []"
  obtain d' where "f (wd_disk w) = Some d'" "Q r d'" using assms [OF P(1)] by blast
  then show "\<exists>r' w'. storage f (r, w) = (None, r', w') \<and> Q r' (wd_disk w') \<and> wd_script w' = []"
    using P(2) by (simp add: storage_def changed_def)
qed

lemma delivers_write:
  assumes "\<And>r d. P r d \<Longrightarrow> \<exists>d'. f data d = Some d' \<and> Q r d'"
  shows "delivers P (write_all f data) Q"
proof -
  have "write_all f data (r, w) = storage (f data) (r, w)" if "wd_script w = []" for r and w :: world
    using that by (simp add: write_all_def)
  moreover have "delivers P (storage (f data)) Q" by (rule delivers_storage [OF assms])
  ultimately show ?thesis unfolding delivers_def by simp
qed

lemma delivers_locally: "(\<And>r d. P r d \<Longrightarrow> Q (f r) d) \<Longrightarrow> delivers P (locally f) Q"
  by (auto simp: delivers_def locally_def)

lemma delivers_Nil: "(\<And>r d. P r d \<Longrightarrow> Q r d) \<Longrightarrow> delivers P (run_all []) Q"
  by (auto simp: delivers_def)

lemma delivers_append:
  assumes "delivers P (run_all as) R" and "delivers R (run_all bs) Q"
  shows "delivers P (run_all (as @ bs)) Q"
  unfolding delivers_def
proof (intro allI impI, elim conjE)
  fix r and w :: world
  assume "P r (wd_disk w)" "wd_script w = []"
  then obtain r1 w1 where a: "run_all as (r, w) = (None, r1, w1)" "R r1 (wd_disk w1)" "wd_script w1 = []"
    using deliversD [OF assms(1)] by blast
  obtain r' w' where "run_all bs (r1, w1) = (None, r', w')" "Q r' (wd_disk w')" "wd_script w' = []"
    using deliversD [OF assms(2) a(2,3)] by blast
  then show "\<exists>r' w'. run_all (as @ bs) (r, w) = (None, r', w') \<and> Q r' (wd_disk w') \<and> wd_script w' = []"
    using a(1) by (simp add: run_all_append)
qed

lemma delivers_Cons:
  "delivers P a R \<Longrightarrow> delivers R (run_all as) Q \<Longrightarrow> delivers P (run_all (a # as)) Q"
  using delivers_append [of P "[a]" R as Q] by (simp add: run_all_single del: run_all.simps)

lemma delivers_sync: "delivers P (storage sync_disk) P"
  by (rule delivers_storage) (simp add: sync_disk_def)

lemma delivers_sync_file: "delivers P sync_file P" "delivers P sync_directory P"
  unfolding sync_file_def sync_directory_def by (rule delivers_sync)+

subsection \<open>Replacing a segment\<close>

lemma delivers_create_temp: "delivers (base K os gs cs) (storage create_temp) (\<lambda>r d. base K os gs cs r d \<and> temp_is [] d)"
  by (rule delivers_storage) (auto simp: create_temp_def temp_is_def)

lemma delivers_write_temps:
  "delivers (\<lambda>r d. base K os gs cs r d \<and> temp_is t d) (run_all (map (\<lambda>x. write_all write_temp (st_data x)) xs))
    (\<lambda>r d. base K os gs cs r d \<and> temp_is (t @ data_of xs) d)"
proof (induction xs arbitrary: t)
  case Nil
  then show ?case by (auto intro!: delivers_Nil simp del: run_all.simps)
next
  case (Cons x xs)
  have one: "delivers (\<lambda>r d. base K os gs cs r d \<and> temp_is t d) (write_all write_temp (st_data x))
      (\<lambda>r d. base K os gs cs r d \<and> temp_is (t @ st_data x) d)"
    by (rule delivers_write) (auto simp: write_temp_def temp_is_def)
  have "delivers (\<lambda>r d. base K os gs cs r d \<and> temp_is t d) (run_all (write_all write_temp (st_data x) # map (\<lambda>x. write_all write_temp (st_data x)) xs))
    (\<lambda>r d. base K os gs cs r d \<and> temp_is ((t @ st_data x) @ data_of xs) d)"
    by (rule delivers_Cons [OF one Cons.IH])
  then show ?case by (simp add: data_of_def del: run_all.simps)
qed

lemma delivers_rename:
  assumes ok: "same_ordinals os gs cs" and i: "i < length os"
  shows "delivers (\<lambda>r d. base K os gs cs r d \<and> temp_is t d) (storage (rename_temp (os ! i))) (base K os gs (cs[i := t]))"
proof (rule delivers_storage)
  fix r d
  assume P: "base K os gs cs r d \<and> temp_is t d"
  have "os ! i \<in> fst ` set (zip os cs)"
    using i ok by (metis list.set_map map_fst_zip nth_mem same_ordinals_def)
  moreover obtain ts where "dk_temps d = t # ts" using P by (auto simp: temp_is_def)
  moreover have live: "dk_live d = Some (zip os cs)" using P by (simp add: base_def on_disk_def)
  moreover have "map_file (os ! i) (\<lambda>_. t) (zip os cs) = zip os (cs[i := t])"
    using map_file_nth [of os cs i t] ok i by (simp add: same_ordinals_def)
  ultimately have "rename_temp (os ! i) d = Some (d\<lparr>dk_temps := ts, dk_live := Some (zip os (cs[i := t]))\<rparr>)"
    by (simp add: rename_temp_def)
  moreover have "base K os gs (cs[i := t]) r (d\<lparr>dk_temps := ts, dk_live := Some (zip os (cs[i := t]))\<rparr>)"
    using P by (auto simp: base_def on_disk_def frame_def)
  ultimately show "\<exists>d'. rename_temp (os ! i) d = Some d' \<and> base K os gs (cs[i := t]) r d'" by blast
qed

lemma delivers_close: "(\<And>r d. P r d \<Longrightarrow> Q (r\<lparr>rc_file := None\<rparr>) d) \<Longrightarrow> delivers P close_file Q"
  by (rule delivers_of [OF close_file_works close_file_achieves]) auto

lemma delivers_reopen:
  assumes "os \<noteq> []" and "length os = length cs"
  shows "delivers (\<lambda>r d. base K os gs cs (r\<lparr>rc_file := Some (last os)\<rparr>) d) (reopen (last os)) (base K os gs cs)"
  unfolding delivers_def
proof (intro allI impI, elim conjE)
  fix r and w :: world
  assume P: "base K os gs cs (r\<lparr>rc_file := Some (last os)\<rparr>) (wd_disk w)" "wd_script w = []"
  have "last os \<in> fst ` set (zip os cs)" using assms by (metis last_in_set list.set_map map_fst_zip)
  then have "storage (on_live (exists_file (last os))) (r, w) = (None, r, w)"
    using P by (simp add: storage_def changed_def on_live_def exists_file_def base_def on_disk_def)
  then show "\<exists>r' w'. reopen (last os) (r, w) = (None, r', w') \<and> base K os gs cs r' (wd_disk w') \<and> wd_script w' = []"
    using P by (simp add: reopen_def)
qed

lemma delivers_replace:
  assumes ok: "same_ordinals os gs cs" and i: "i < length os"
  shows "delivers (base K os gs cs) (replace_segment i xs)
    (base K os (gs[i := segment_of (os ! i) xs]) (cs[i := data_of xs]))"
proof -
  let ?n = "os ! i" and ?cs = "cs[i := data_of xs]"
  let ?upd = "locally (\<lambda>r. r\<lparr>rc_segments := (rc_segments r)[i := segment_of ?n xs]\<rparr>)"
  let ?re = "if ?n = last os then [close_file, reopen ?n] else []"
  have upd: "delivers (base K os gs ?cs) (run_all [?upd]) (base K os (gs[i := segment_of ?n xs]) ?cs)"
    by (rule delivers_Cons [OF delivers_locally delivers_Nil, of _ "base K os (gs[i := segment_of ?n xs]) ?cs"])
      (simp_all add: base_def)
  have close: "delivers (base K os gs ?cs) close_file (\<lambda>r d. base K os gs ?cs (r\<lparr>rc_file := Some (last os)\<rparr>) d)"
    by (rule delivers_close) (auto simp: base_def)
  have tail: "delivers (base K os gs ?cs) (run_all (?re @ [?upd])) (base K os (gs[i := segment_of ?n xs]) ?cs)"
  proof (cases "?n = last os")
    case True
    have "delivers (base K os gs ?cs) (run_all ([close_file, reopen (last os)] @ [?upd])) (base K os (gs[i := segment_of ?n xs]) ?cs)"
      unfolding append.simps
      by (rule delivers_Cons [OF close delivers_Cons [OF delivers_reopen upd]]) (use ok in \<open>auto simp: same_ordinals_def\<close>)
    then show ?thesis using True by simp
  qed (use upd in simp)
  have put: "delivers (\<lambda>r d. base K os gs cs r d \<and> temp_is [] d) (run_all (map (\<lambda>x. write_all write_temp (st_data x)) xs))
      (\<lambda>r d. base K os gs cs r d \<and> temp_is (data_of xs) d)"
    using delivers_write_temps [of K os gs cs "[]" xs] by simp
  have "delivers (base K os gs cs)
      (run_all (storage create_temp # map (\<lambda>x. write_all write_temp (st_data x)) xs @
         ([storage sync_disk, storage sync_disk, storage (rename_temp ?n), sync_directory] @ ?re @ [?upd])))
      (base K os (gs[i := segment_of ?n xs]) ?cs)"
    unfolding append.simps
    by (rule delivers_Cons [OF delivers_create_temp delivers_append [OF put delivers_Cons [OF delivers_sync
          delivers_Cons [OF delivers_sync delivers_Cons [OF delivers_rename [OF ok i] delivers_Cons [OF delivers_sync_file(2) tail]]]]]])
  then show ?thesis
  proof (rule delivers_same [rotated])
    fix r and w :: world
    assume P: "base K os gs cs r (wd_disk w)"
    have segs: "rc_segments r = gs" using P by (simp add: base_def)
    have g: "(gs ! i)\<lparr>sg_count := length xs, sg_bytes := sum_list (map data_size xs), sg_dirty := False\<rparr> = segment_of ?n xs"
      using same_ordinalsD [OF ok, of i] i by (simp add: segment_of_def)
    have n: "sg_ordinal (gs ! i) = ?n" "sg_ordinal (active r) = last os"
      using same_ordinalsD [OF ok, of i] i segs by (simp_all add: active_def)
    show "replace_segment i xs (r, w) =
        run_all (storage create_temp # map (\<lambda>x. write_all write_temp (st_data x)) xs @
         ([storage sync_disk, storage sync_disk, storage (rename_temp ?n), sync_directory] @ ?re @ [?upd])) (r, w)"
      unfolding replace_segment_def Let_def fst_conv segs n g by simp
  qed
qed

end
