(* ===== verification/RecorderRepair.thy ===== *)
theory RecorderRepair
  imports RecorderWorks
begin

text \<open>
  Trimming segments as they were read: a segment whose file is not exactly what its records
  spell is dirty, and the trim rewrites it.  Without faults the log is clean afterwards.
\<close>

definition sound :: "64 word \<Rightarrow> stored list \<Rightarrow> segment \<Rightarrow> string \<Rightarrow> bool" where
  "sound n p g c \<longleftrightarrow> sg_ordinal g = n \<and> sg_count g = length p \<and> (\<not> sg_dirty g \<longrightarrow> g = segment_of n p \<and> c = data_of p)"

fun sounds :: "64 word list \<Rightarrow> stored list list \<Rightarrow> segment list \<Rightarrow> string list \<Rightarrow> bool" where
  "sounds [] [] [] [] = True"
| "sounds (n # ns) (p # ps) (g # gs) (c # cs) = (sound n p g c \<and> sounds ns ps gs cs)"
| "sounds _ _ _ _ = False"

lemma sounds_lengths: "sounds ns ps gs cs \<Longrightarrow> length ps = length ns \<and> length gs = length ns \<and> length cs = length ns \<and> map sg_ordinal gs = ns"
  by (induction ns ps gs cs rule: sounds.induct) (auto simp: sound_def)

lemma sounds_clean: "length ns = length ps \<Longrightarrow> sounds ns ps (map2 segment_of ns ps) (map data_of ps)"
  by (induction ns ps rule: list_induct2) (auto simp: sound_def)

lemma sounds_append:
  "sounds ns ps gs cs \<Longrightarrow> sounds ns' ps' gs' cs' \<Longrightarrow> sounds (ns @ ns') (ps @ ps') (gs @ gs') (cs @ cs')"
  by (induction ns ps gs cs rule: sounds.induct) auto

lemma sounds_Cons: "sounds ns (p # ps) gs cs \<Longrightarrow>
    \<exists>n ns' g gs' c cs'. ns = n # ns' \<and> gs = g # gs' \<and> cs = c # cs' \<and> sound n p g c \<and> sounds ns' ps gs' cs'"
  by (cases ns; cases gs; cases cs) auto

lemma trim_step_raw:
  assumes g: "rc_segments r ! i = g" and p: "sg_count g = length p" and n: "length (rc_segments r) = n"
    and no: "\<not> (offset + length p \<le> b \<and> i \<noteq> n - 1)"
    and kept: "take (offset + length p - min (max offset b) (offset + length p))
      (drop (min (max offset b) (offset + length p)) staged) = q"
  shows "trim_loop staged b (i # is) offset expired (r, w) =
    (if sg_dirty g \<or> offset < min (max offset b) (offset + length p) \<or> (length p = 0 \<and> sg_bytes g > 0)
     then case replace_segment i q (r, w) of
         (None, s') \<Rightarrow> trim_loop staged b is (offset + length p) expired s'
       | (Some e, s') \<Rightarrow> ((Some e, s'), expired)
     else trim_loop staged b is (offset + length p) expired (r, w))"
  unfolding trim_loop.simps Let_def fst_conv g n p kept if_not_P [OF no] by (rule refl)

definition cleaned :: "64 word list \<Rightarrow> nat \<Rightarrow> nat \<Rightarrow> stored list list \<Rightarrow> segment list \<Rightarrow> segment list" where
  "cleaned ns b k ps gs = take k gs @ drop k (map2 segment_of ns (keep b ps))"

definition cleaned_data :: "nat \<Rightarrow> nat \<Rightarrow> stored list list \<Rightarrow> string list \<Rightarrow> string list" where
  "cleaned_data b k ps cs = take k cs @ drop k (map data_of (keep b ps))"

lemma trim_loop_delivers:
  assumes "distinct os" and "os = map sg_ordinal dgs @ ns" and "length dcs = length dgs" and "sounds ns todo gs cs"
    and "staged = P @ concat todo" and "length P = offset" and "os \<noteq> []"
    and "base K os (dgs @ gs) (dcs @ cs) r (wd_disk w)" and "wd_script w = []"
  shows "\<exists>r' w' k. trim_loop staged b [length dgs..<length os] offset expired (r, w) =
      ((None, r', w'), if k = 0 then expired else length dgs + k) \<and> wd_script w' = [] \<and> k \<le> length todo - 1 \<and>
      (0 < k \<longrightarrow> offset + length (concat (take k todo)) \<le> b) \<and>
      base K os (dgs @ cleaned ns (b - offset) k todo gs) (dcs @ cleaned_data (b - offset) k todo cs) r' (wd_disk w')"
  using assms
proof (induction todo arbitrary: dgs dcs ns gs cs P offset expired r w)
  case Nil
  then have "ns = [] \<and> gs = [] \<and> cs = []" using sounds_lengths [OF Nil.prems(4)] by auto
  then show ?case using Nil.prems by (auto simp: cleaned_def cleaned_data_def)
next
  case (Cons p ps)
  obtain n ns' g gs' c cs' where eqs: "ns = n # ns'" "gs = g # gs'" "cs = c # cs'" and g: "sound n p g c" and rest: "sounds ns' ps gs' cs'"
    using sounds_Cons [OF Cons.prems(4)] by blast
  note lens = sounds_lengths [OF rest]
  let ?i = "length dgs" and ?stop = "offset + length p"
  have len: "length os = Suc (?i + length ps)" using Cons.prems(2) eqs lens by simp
  have upt: "[?i..<length os] = ?i # [Suc ?i..<length os]"
    using len upt_conv_Cons [of ?i "length os"] by (simp del: upt_Suc)
  have segs: "rc_segments r = dgs @ g # gs'" using Cons.prems(8) eqs by (simp add: base_def)
  have at: "rc_segments r ! ?i = g" and count: "length (rc_segments r) = length os" and size: "sg_count g = length p"
    using segs len lens g by (simp_all add: sound_def)
  have ord: "sg_ordinal g = n" "os ! ?i = n" using g Cons.prems(2) eqs by (simp_all add: sound_def nth_append)
  have sub: "b - offset - length p = b - ?stop" by simp
  have IH: "\<exists>r' w' k. trim_loop staged b [Suc ?i..<length os] ?stop expd (r1, w1) =
      ((None, r', w'), if k = 0 then expd else Suc ?i + k) \<and> wd_script w' = [] \<and> k \<le> length ps - 1 \<and>
      (0 < k \<longrightarrow> ?stop + length (concat (take k ps)) \<le> b) \<and>
      base K os (dgs @ g1 # cleaned ns' (b - ?stop) k ps gs') (dcs @ c1 # cleaned_data (b - ?stop) k ps cs') r' (wd_disk w')"
    if "base K os (dgs @ g1 # gs') (dcs @ c1 # cs') r1 (wd_disk w1)" "wd_script w1 = []" "sg_ordinal g1 = n" for g1 c1 r1 w1 expd
  proof -
    have a: "os = map sg_ordinal (dgs @ [g1]) @ ns'" "length (dcs @ [c1]) = length (dgs @ [g1])" "staged = (P @ p) @ concat ps" "length (P @ p) = ?stop"
      using Cons.prems that(3) eqs by simp_all
    have "base K os ((dgs @ [g1]) @ gs') ((dcs @ [c1]) @ cs') r1 (wd_disk w1)" using that(1) by simp
    note ih = Cons.IH [OF Cons.prems(1) a(1,2) rest a(3,4) Cons.prems(7) this that(2), of expd]
    have "length (dgs @ [g1]) = Suc ?i" "(dgs @ [g1]) @ xs = dgs @ g1 # xs" "(dcs @ [c1]) @ ys = dcs @ c1 # ys" for xs ys by simp_all
    then show ?thesis using ih by (simp only:)
  qed
  show ?case
  proof (cases "?stop \<le> b \<and> ?i \<noteq> length os - 1")
    case True
    then have ps: "ps \<noteq> []" "Suc 0 \<le> length ps" using len by (auto simp: Suc_le_eq)
    have run: "trim_loop staged b [?i..<length os] offset expired (r, w) = trim_loop staged b [Suc ?i..<length os] ?stop (Suc ?i) (r, w)"
      unfolding upt trim_loop.simps Let_def fst_conv at size count using True by simp
    obtain r' w' k where "trim_loop staged b [Suc ?i..<length os] ?stop (Suc ?i) (r, w) = ((None, r', w'), if k = 0 then Suc ?i else Suc ?i + k)"
      "wd_script w' = []" "k \<le> length ps - 1" "0 < k \<longrightarrow> ?stop + length (concat (take k ps)) \<le> b"
      "base K os (dgs @ g # cleaned ns' (b - ?stop) k ps gs') (dcs @ c # cleaned_data (b - ?stop) k ps cs') r' (wd_disk w')"
      using IH [of g c r w "Suc ?i"] Cons.prems(8,9) eqs ord by auto
    then show ?thesis unfolding run using True ps sub eqs
      by (intro exI [of _ r'] exI [of _ w'] exI [of _ "Suc k"]) (auto simp: cleaned_def cleaned_data_def)
  next
    case False
    let ?start = "min (max offset b) ?stop" and ?q = "drop (b - offset) p"
    have kept: "take (?stop - ?start) (drop ?start staged) = ?q"
      by (rule kept_part [OF _ Cons.prems(6) refl]) (use Cons.prems(5) in simp)
    have fin: ?thesis
      if run: "trim_loop staged b [?i..<length os] offset expired (r, w) = trim_loop staged b [Suc ?i..<length os] ?stop expired (r1, w1)"
      and st: "base K os (dgs @ segment_of n ?q # gs') (dcs @ data_of ?q # cs') r1 (wd_disk w1)" and sc: "wd_script w1 = []" for r1 w1
    proof -
      obtain r' w' k where k: "trim_loop staged b [Suc ?i..<length os] ?stop expired (r1, w1) = ((None, r', w'), if k = 0 then expired else Suc ?i + k)"
        "wd_script w' = []" "k \<le> length ps - 1" "0 < k \<longrightarrow> ?stop + length (concat (take k ps)) \<le> b"
        "base K os (dgs @ segment_of n ?q # cleaned ns' (b - ?stop) k ps gs') (dcs @ data_of ?q # cleaned_data (b - ?stop) k ps cs') r' (wd_disk w')"
        using IH [OF st sc segment_of_simps(1), of expired] by blast
      have "k = 0" using k(3,4) False len by auto
      then show ?thesis unfolding run using k sub eqs
        by (intro exI [of _ r'] exI [of _ w'] exI [of _ 0]) (auto simp: cleaned_def cleaned_data_def)
    qed
    note step = trim_step_raw [OF at size count False kept, of "[Suc ?i..<length os]" expired w, folded upt]
    show ?thesis
    proof (cases "sg_dirty g \<or> offset < ?start \<or> (length p = 0 \<and> sg_bytes g > 0)")
      case True
      have ok: "same_ordinals os (dgs @ gs) (dcs @ cs)"
        using Cons.prems(1,2,3,7) eqs lens ord by (simp add: same_ordinals_def)
      have "?i < length os" using len by simp
      from deliversD [OF delivers_replace [OF ok this, of K ?q] Cons.prems(8,9)]
      obtain r1 w1 where rep: "replace_segment ?i ?q (r, w) = (None, r1, w1)" "wd_script w1 = []"
        "base K os ((dgs @ gs)[?i := segment_of n ?q]) ((dcs @ cs)[?i := data_of ?q]) r1 (wd_disk w1)"
        unfolding ord(2) by blast
      show ?thesis
      proof (rule fin)
        show "trim_loop staged b [?i..<length os] offset expired (r, w) = trim_loop staged b [Suc ?i..<length os] ?stop expired (r1, w1)"
          unfolding step if_P [OF True] rep(1) by simp
        show "base K os (dgs @ segment_of n ?q # gs') (dcs @ data_of ?q # cs') r1 (wd_disk w1)"
          using rep(3) Cons.prems(3) eqs by (simp add: list_update_append)
      qed (rule rep(2))
    next
      case nostart: False
      then have q: "?q = p" by (auto simp: min_def max_def split: if_splits)
      have clean: "g = segment_of n p" "c = data_of p" using g nostart by (auto simp: sound_def)
      show ?thesis
      proof (rule fin)
        show "trim_loop staged b [?i..<length os] offset expired (r, w) = trim_loop staged b [Suc ?i..<length os] ?stop expired (r, w)"
          unfolding step if_not_P [OF nostart] by (rule refl)
        show "base K os (dgs @ segment_of n ?q # gs') (dcs @ data_of ?q # cs') r (wd_disk w)"
          using Cons.prems(8) eqs clean q by simp
      qed (rule Cons.prems(9))
    qed
  qed
qed

lemma removals_deliver:
  assumes "distinct (map sg_ordinal hs @ os)" and "length hs = length ds" and "length os = length cs"
  shows "delivers (headless K gs n (map sg_ordinal hs @ os) (ds @ cs))
    (run_all (map (\<lambda>g. storage (on_live (remove_file (sg_ordinal g)))) hs)) (headless K gs n os cs)"
  using assms
proof (induction hs arbitrary: ds)
  case Nil
  then show ?case by (auto intro!: delivers_Nil simp del: run_all.simps)
next
  case (Cons h hs)
  then obtain c ds' where ds: "ds = c # ds'" by (cases ds) auto
  have first: "delivers (headless K gs n (map sg_ordinal (h # hs) @ os) (ds @ cs)) (storage (on_live (remove_file (sg_ordinal h))))
      (headless K gs n (map sg_ordinal hs @ os) (ds' @ cs))"
  proof (rule delivers_storage)
    fix r d
    assume h: "headless K gs n (map sg_ordinal (h # hs) @ os) (ds @ cs) r d"
    have "on_live (remove_file (sg_ordinal h)) d = Some (d\<lparr>dk_live := Some (zip (map sg_ordinal hs @ os) (ds' @ cs))\<rparr>)"
      using remove_head [of "sg_ordinal h" "map sg_ordinal hs @ os" "ds' @ cs" c d] h Cons.prems ds
      by (simp add: headless_def)
    then show "\<exists>d'. on_live (remove_file (sg_ordinal h)) d = Some d' \<and> headless K gs n (map sg_ordinal hs @ os) (ds' @ cs) r d'"
      using h by (auto simp: headless_def on_disk_def)
  qed
  have "delivers (headless K gs n (map sg_ordinal hs @ os) (ds' @ cs))
    (run_all (map (\<lambda>g. storage (on_live (remove_file (sg_ordinal g)))) hs)) (headless K gs n os cs)"
    by (rule Cons.IH) (use Cons.prems ds in auto)
  then show ?case using delivers_Cons [OF first] by (simp del: run_all.simps)
qed

lemma drop_expired_delivers:
  assumes "distinct os" and "map sg_ordinal gs = os" and "length cs = length os" and "k < length os"
  shows "delivers (base K os gs cs) (drop_expired k) (base K (drop k os) (drop k gs) (drop k cs))"
proof (rule delivers_same)
  let ?at = "\<lambda>m. headless K gs (last os) (drop m os) (drop m cs)"
  let ?acts = "map (\<lambda>g. storage (on_live (remove_file (sg_ordinal g)))) (take k gs)"
  let ?rest = "if k > 0 then [sync_directory, locally (\<lambda>r. r\<lparr>rc_segments := drop k (rc_segments r)\<rparr>)] else []"
  show "drop_expired k (r, w) = run_all (?acts @ ?rest) (r, w)" if "base K os gs cs r (wd_disk w)" for r and w :: world
    using that unfolding drop_expired_def base_def by simp
  have split: "map sg_ordinal (take k gs) @ drop k os = os" "take k cs @ drop k cs = cs"
    using assms(2) by (simp_all flip: take_map)
  have removed: "delivers (?at 0) (run_all ?acts) (?at k)"
    using removals_deliver [of "take k gs" "drop k os" "take k cs" "drop k cs" K gs "last os"] assms split by auto
  have forget: "delivers (?at k) (run_all ?rest) (base K (drop k os) (drop k gs) (drop k cs))"
  proof (cases "k = 0")
    case True
    then show ?thesis by (auto intro!: delivers_Nil simp: headless_def base_def simp del: run_all.simps)
  next
    case False
    have "delivers (?at k) (run_all [sync_directory, locally (\<lambda>r. r\<lparr>rc_segments := drop k (rc_segments r)\<rparr>)]) (base K (drop k os) (drop k gs) (drop k cs))"
      by (rule delivers_Cons [OF delivers_sync_file(2) delivers_Cons [OF delivers_locally delivers_Nil], of _ "base K (drop k os) (drop k gs) (drop k cs)"])
        (use assms(4) in \<open>simp_all add: headless_def base_def\<close>)
    then show ?thesis using False by simp
  qed
  have "delivers (?at 0) (run_all (?acts @ ?rest)) (base K (drop k os) (drop k gs) (drop k cs))"
    by (rule delivers_append [OF removed forget])
  then show "delivers (base K os gs cs) (run_all (?acts @ ?rest)) (base K (drop k os) (drop k gs) (drop k cs))"
    by (rule delivers_weaken) (simp_all add: base_def headless_def)
qed

lemma concat_drop_keep:
  assumes "length (concat (take k ps)) \<le> b" and "k \<le> length ps"
  shows "concat (drop k (keep b ps)) = drop b (concat ps)"
  using trimmed_suffix(1) [OF assms(1) order.refl assms(2)] assms(2) by (simp add: trimmed_def)

lemma trim_raw_delivers:
  assumes ok: "log_ok os parts" and s: "sounds os parts gs cs"
  shows "delivers (base K os gs cs) (trim_segments (concat parts) b) (appended K (drop b (concat parts)))"
  unfolding delivers_def
proof (intro allI impI, elim conjE)
  fix r and w :: world
  assume P: "base K os gs cs r (wd_disk w)" "wd_script w = []"
  note ok' = log_okD [OF ok]
  note lens = sounds_lengths [OF s]
  have n: "length (rc_segments r) = length os" using P lens by (simp add: base_def)
  obtain r1 w1 k where loop: "trim_loop (concat parts) b [0..<length os] 0 0 (r, w) = ((None, r1, w1), k)" "wd_script w1 = []"
    "k \<le> length parts - 1" "0 < k \<longrightarrow> length (concat (take k parts)) \<le> b"
    "base K os (cleaned os b k parts gs) (cleaned_data b k parts cs) r1 (wd_disk w1)"
    using trim_loop_delivers [of os "[]" os "[]" parts gs cs "concat parts" "[]" 0 K r w b 0] ok' s P by (auto split: if_splits)
  have klt: "k < length os" using loop(3) ok' by (cases parts) auto
  have keeps: "drop k (cleaned os b k parts gs) = map2 segment_of (drop k os) (drop k (keep b parts))"
    "drop k (cleaned_data b k parts cs) = map data_of (drop k (keep b parts))"
    using klt lens by (simp_all add: cleaned_def cleaned_data_def drop_map drop_zip)
  have ords: "map sg_ordinal (cleaned os b k parts gs) = os"
  proof -
    have "map sg_ordinal (map2 segment_of os (keep b parts)) = os" using ok' by (simp add: segment_of_def comp_def split_def)
    then have "map sg_ordinal (drop k (map2 segment_of os (keep b parts))) = drop k os" by (metis drop_map)
    moreover have "map sg_ordinal (take k gs) = take k os" using lens by (metis take_map)
    ultimately show ?thesis by (simp add: cleaned_def)
  qed
  have len: "length (cleaned_data b k parts cs) = length os" using lens klt by (simp add: cleaned_data_def)
  obtain r' w' where "drop_expired k (r1, w1) = (None, r', w')" "wd_script w' = []"
    "base K (drop k os) (drop k (cleaned os b k parts gs)) (drop k (cleaned_data b k parts cs)) r' (wd_disk w')"
    using deliversD [OF drop_expired_delivers [OF _ ords len klt, of K] loop(5,2)] ok' by blast
  then have run: "trim_segments (concat parts) b (r, w) = (None, r', w')" "wd_script w' = []"
    "stored_as K (drop k os) (drop k (keep b parts)) r' (wd_disk w')"
    using n loop(1) by (simp_all add: trim_segments_def keeps stored_base)
  have "log_ok (drop k os) (drop k (keep b parts))" using ok klt by (auto simp: log_ok_def sorted_wrt_drop)
  moreover have "concat (drop k (keep b parts)) = drop b (concat parts)"
    using concat_drop_keep [of k parts b] loop(3,4) by (cases "k = 0") (simp_all add: concat_keep)
  ultimately show "\<exists>r' w'. trim_segments (concat parts) b (r, w) = (None, r', w') \<and>
      appended K (drop b (concat parts)) r' (wd_disk w') \<and> wd_script w' = []"
    using run unfolding appended_def by blast
qed

end
