(* ===== verification/RecorderOpen.thy ===== *)
theory RecorderOpen
  imports Recorder
begin

text \<open>
  Opening the diagnostics log (diagnostics/recorder.go, diagnostics/segments.go): reading the
  segments back line by line, importing a legacy log through a staging directory, deciding
  between the two when both are there, and repairing what an interrupted write left.

  The checks of file kinds and permissions act on the file system alone and are left out, and
  the directory holds owned names only (see \<open>disk\<close>), so no unexpected name is met.
\<close>

subsection \<open>Decoding\<close>

definition historical_line_limit :: int where "historical_line_limit = 1073741825"

text \<open>The lines of a file, each with its delimiter; the last one may lack it.\<close>

fun lines_of :: "string \<Rightarrow> string \<Rightarrow> string list" where
  "lines_of acc [] = (if acc = [] then [] else [acc])"
| "lines_of acc (c # cs) = (if [c] = newline then (acc @ [c]) # lines_of [] cs else lines_of (acc @ [c]) cs)"

definition valid_stored_event :: "event \<Rightarrow> 64 word \<Rightarrow> int \<Rightarrow> bool" where
  "valid_stored_event e previous_sequence previous_time \<longleftrightarrow>
     ev_version e = event_schema_version \<and> previous_sequence < ev_sequence e \<and> ev_time e \<noteq> 0 \<and>
     previous_time \<le> ev_time e \<and> validate_event e = None"

definition decode_stored :: "config \<Rightarrow> codec \<Rightarrow> recorder \<Rightarrow> string \<Rightarrow> stored option" where
  "decode_stored cf C r line =
     (case cd_unmarshal C line of
        None \<Rightarrow> None
      | Some e \<Rightarrow>
          if valid_stored_event e (rc_next r) (last_time r)
          then Some \<lparr>st_event = sanitize cf C e,
                 st_data = (case cd_marshal C (sanitize cf C e) of None \<Rightarrow> [] | Some bytes \<Rightarrow> bytes) @ newline\<rparr>
          else None)"

definition admit_loaded :: "stored \<Rightarrow> recorder \<Rightarrow> recorder" where
  "admit_loaded x r = r\<lparr>rc_records := rc_records r @ [x], rc_bytes := rc_bytes r + data_size x,
     rc_next := ev_sequence (st_event x), rc_report_at := ev_time (st_event x)\<rparr>"

definition count_corrupt :: "recorder \<Rightarrow> recorder" where
  "count_corrupt r = r\<lparr>rc_health := (rc_health r)\<lparr>he_corrupt := he_corrupt (rc_health r) + 1\<rparr>\<rparr>"

definition report_corruption :: "recorder \<Rightarrow> recorder" where
  "report_corruption r =
     (if he_corrupt (rc_health r) \<noteq> 0
      then r\<lparr>rc_health := (rc_health r)\<lparr>he_pressure := True, he_problem := RecoveredRecords (he_corrupt (rc_health r))\<rparr>\<rparr>
      else r)"

subsection \<open>Segments\<close>

text \<open>One line of a segment; the segment becomes dirty where the line is not what the
  recorder would write for it.\<close>

definition read_line :: "config \<Rightarrow> codec \<Rightarrow> string \<Rightarrow> recorder \<times> segment \<Rightarrow> recorder \<times> segment" where
  "read_line cf C line rs =
     (case rs of (r, s) \<Rightarrow>
        if int (length line) > historical_line_limit then (count_corrupt r, s\<lparr>sg_dirty := True\<rparr>)
        else if trim_space (cd_unicode C) (trim_suffix newline line) = [] then (r, s\<lparr>sg_dirty := True\<rparr>)
        else case decode_stored cf C r (trim_suffix newline line) of
            None \<Rightarrow> (count_corrupt r, s\<lparr>sg_dirty := True\<rparr>)
          | Some x \<Rightarrow> (admit_loaded x r, s\<lparr>sg_count := Suc (sg_count s), sg_dirty := sg_dirty s \<or> line \<noteq> st_data x\<rparr>))"

definition read_segment_records :: "config \<Rightarrow> codec \<Rightarrow> string \<Rightarrow> recorder \<times> segment \<Rightarrow> recorder \<times> segment" where
  "read_segment_records cf C content rs = fold (read_line cf C) (lines_of [] content) rs"

definition load_file :: "config \<Rightarrow> codec \<Rightarrow> 64 word \<times> string \<Rightarrow> recorder \<Rightarrow> recorder" where
  "load_file cf C f r =
     (let (r', s) = read_segment_records cf C (snd f)
            (r, \<lparr>sg_ordinal = fst f, sg_count = 0, sg_bytes = int (length (snd f)), sg_dirty = False\<rparr>)
      in r'\<lparr>rc_segments := rc_segments r' @ [s]\<rparr>)"

definition read_segment :: "config \<Rightarrow> codec \<Rightarrow> 64 word \<times> string \<Rightarrow> action" where
  "read_segment cf C f = run_all [storage (on_live (exists_file (fst f))), locally (load_file cf C f), storage sync_disk]"

subsection \<open>The legacy log\<close>

fun split_lines :: "string \<Rightarrow> string \<Rightarrow> string list" where
  "split_lines acc [] = [acc]"
| "split_lines acc (c # cs) = (if [c] = newline then acc # split_lines [] cs else split_lines (acc @ [c]) cs)"

definition legacy_line :: "config \<Rightarrow> codec \<Rightarrow> string \<Rightarrow> recorder \<Rightarrow> recorder" where
  "legacy_line cf C line r =
     (if trim_space (cd_unicode C) line = [] then r
      else case decode_stored cf C r line of None \<Rightarrow> count_corrupt r | Some x \<Rightarrow> admit_loaded x r)"

text \<open>The final \<open>MaxBytes\<close> of the file, from the first line that starts there.\<close>

definition legacy_window :: "config \<Rightarrow> string \<Rightarrow> recorder \<Rightarrow> string \<times> recorder" where
  "legacy_window cf content r =
     (let start = nat (max 0 (int (length content) - cf_max_bytes cf));
          data = take (nat (cf_max_bytes cf)) (drop start content);
          r' = (if start > 0
                then r\<lparr>rc_health := (rc_health r)\<lparr>he_dropped := he_dropped (rc_health r) + 1, he_pressure := True\<rparr>\<rparr> else r)
      in if start = 0 \<or> [content ! (start - 1)] = newline then (data, r')
         else if contains_char (hd newline) data then (tl (dropWhile (\<lambda>c. [c] \<noteq> newline) data), r')
         else ([], count_corrupt r'))"

definition load_legacy :: "config \<Rightarrow> codec \<Rightarrow> string \<Rightarrow> recorder \<Rightarrow> recorder" where
  "load_legacy cf C content r =
     (let (data, r') = legacy_window cf content r
      in report_corruption (fold (legacy_line cf C) (split_lines [] data) r'))"

definition legacy_exists :: "disk \<Rightarrow> disk option" where
  "legacy_exists d = (if dk_legacy d = None then None else Some d)"

definition read_legacy :: "config \<Rightarrow> codec \<Rightarrow> action" where
  "read_legacy cf C s =
     run_all [storage legacy_exists,
       (\<lambda>(r, w). (None, (case dk_legacy (wd_disk w) of None \<Rightarrow> r | Some content \<Rightarrow> load_legacy cf C content r), w)),
       storage sync_disk] s"

definition unlink_legacy :: "disk \<Rightarrow> disk option" where
  "unlink_legacy d = (if dk_legacy d = None then None else Some (d\<lparr>dk_legacy := None\<rparr>))"

definition remove_legacy :: action where "remove_legacy = run_all [storage unlink_legacy, sync_directory]"

definition identical_suffix :: "stored list \<Rightarrow> stored list \<Rightarrow> bool" where
  "identical_suffix live legacy \<longleftrightarrow>
     length live \<le> length legacy \<and> map st_data live = map st_data (drop (length legacy - length live) legacy)"

subsection \<open>Staging\<close>

definition on_stage :: "(files \<Rightarrow> files option) \<Rightarrow> disk \<Rightarrow> disk option" where
  "on_stage f d = (case dk_stage d of None \<Rightarrow> None | Some fs \<Rightarrow> map_option (\<lambda>fs'. d\<lparr>dk_stage := Some fs'\<rparr>) (f fs))"

definition make_stage :: "disk \<Rightarrow> disk option" where
  "make_stage d = (if dk_stage d = None then Some (d\<lparr>dk_stage := Some []\<rparr>) else None)"

definition remove_stage :: "disk \<Rightarrow> disk option" where
  "remove_stage d = (if dk_stage d = Some [] then Some (d\<lparr>dk_stage := None\<rparr>) else None)"

definition rename_stage :: "disk \<Rightarrow> disk option" where
  "rename_stage d = (if dk_stage d \<noteq> None \<and> dk_live d = None then Some (d\<lparr>dk_live := dk_stage d, dk_stage := None\<rparr>) else None)"

definition discard_stage :: action where
  "discard_stage s =
     run_all (map (\<lambda>f. storage (on_stage (remove_file (fst f)))) (case dk_stage (wd_disk (snd s)) of None \<Rightarrow> [] | Some fs \<Rightarrow> fs) @
       [storage remove_stage, sync_directory]) s"

text \<open>No segment yet stands for no open file: the file is closed only to open the next one.\<close>

definition publish_record :: "config \<Rightarrow> string \<Rightarrow> action" where
  "publish_record cf data s =
     (let segs = rc_segments (fst s);
          next = segs = [] \<or> sg_bytes (last segs) + int (length data) > target cf;
          n = (if next then of_nat (length segs + 1) else sg_ordinal (last segs))
      in run_all ((if next then (if segs = [] then [] else [storage sync_disk, storage sync_disk]) @
              [storage (on_stage (create_file n)), locally (\<lambda>r. r\<lparr>rc_segments := rc_segments r @ [new_segment n]\<rparr>)] else []) @
           (if data \<noteq> [] then [write_all (\<lambda>x. on_stage (append_file n x)) data, count_active data] else [])) s)"

definition publish_segments :: "config \<Rightarrow> action" where
  "publish_segments cf s =
     (let xs = rc_records (fst s) in
      run_all (storage make_stage # map (publish_record cf) (if xs = [] then [[]] else map st_data xs) @
        [storage sync_disk, storage sync_disk, sync_directory, storage rename_stage, sync_directory]) s)"

subsection \<open>Opening\<close>

definition open_active :: action where
  "open_active s = (if rc_file (fst s) = None then reopen (sg_ordinal (active (fst s))) s else (None, s))"

definition drop_loaded :: "nat \<Rightarrow> int \<Rightarrow> recorder \<Rightarrow> recorder" where
  "drop_loaded b usage r = retain b (rc_records r) usage r"

definition retain_loaded :: "config \<Rightarrow> int \<Rightarrow> action" where
  "retain_loaded cf now s =
     (let (b, usage) = retention_decision cf (rc_records (fst s)) (rc_bytes (fst s)) now in locally (drop_loaded b usage) s)"

definition blank_recorder :: "int \<Rightarrow> recorder" where
  "blank_recorder now = \<lparr>rc_file = None, rc_segments = [], rc_records = [], rc_next = 0, rc_bytes = 0,
     rc_health = \<lparr>he_writable = True, he_problem = NoProblem, he_pressure = False, he_dropped = 0, he_corrupt = 0,
       he_events = 0, he_bytes = 0\<rparr>, rc_report_at = now, rc_closed = False\<rparr>"

text \<open>A legacy log beside the live one must end in the live history.\<close>

definition compare_legacy :: "config \<Rightarrow> codec \<Rightarrow> int \<Rightarrow> nat \<Rightarrow> action" where
  "compare_legacy cf C now b s =
     (if he_corrupt (rc_health (fst s)) \<noteq> 0 then (Some DamagedConflict, s)
      else case read_legacy cf C (blank_recorder 0, snd s) of
          (Some e, p, w) \<Rightarrow> (Some e, fst s, w)
        | (None, p, w) \<Rightarrow>
            if identical_suffix (drop b (rc_records (fst s))) (drop (fst (retention_decision cf (rc_records p) (rc_bytes p) now)) (rc_records p))
            then (None, fst s, w) else (Some HistoryConflict, fst s, w))"

definition sync_segment :: "segment \<Rightarrow> action" where
  "sync_segment g = run_all [storage (on_live (exists_file (sg_ordinal g))), storage sync_disk, storage sync_disk]"

definition remove_temp :: "disk \<Rightarrow> disk option" where
  "remove_temp d = (case dk_temps d of [] \<Rightarrow> None | t # ts \<Rightarrow> Some (d\<lparr>dk_temps := ts\<rparr>))"

definition settle :: "config \<Rightarrow> codec \<Rightarrow> int \<Rightarrow> bool \<Rightarrow> string list \<Rightarrow> action" where
  "settle cf C now has_legacy temps s =
     (let r = fst s; (b, usage) = retention_decision cf (rc_records r) (rc_bytes r) now in
      if rc_segments r = [] then (Some NoSegments, s)
      else run_all ((if has_legacy then [compare_legacy cf C now b] else []) @ map sync_segment (rc_segments r) @
        [sync_directory, sync_directory] @ (if has_legacy then [remove_legacy] else []) @
        map (\<lambda>t. storage remove_temp) temps @ (if temps \<noteq> [] then [sync_directory] else []) @
        [reopen (sg_ordinal (active r)), trim_segments (rc_records r) b,
         locally (\<lambda>r. report_corruption (drop_loaded b usage r))]) s)"

definition open_segments :: "config \<Rightarrow> codec \<Rightarrow> action" where
  "open_segments cf C s =
     (let d = wd_disk (snd s); now = rc_report_at (fst s); has_legacy = dk_legacy d \<noteq> None in
      case dk_live d of
        None \<Rightarrow> run_all ((if dk_stage d \<noteq> None then [discard_stage] else []) @ (if has_legacy then [read_legacy cf C] else []) @
          [retain_loaded cf now, publish_segments cf] @ (if has_legacy then [remove_legacy] else []) @ [open_active]) s
      | Some fs \<Rightarrow>
          if dk_stage d \<noteq> None then (Some StageConflict, s)
          else run_all (map (read_segment cf C) fs @ [settle cf C now has_legacy (dk_temps d), open_active]) s)"

definition open_recorder :: "config \<Rightarrow> codec \<Rightarrow> int \<Rightarrow> world \<Rightarrow> ((config_error + store_error) + recorder) \<times> world" where
  "open_recorder cf C now w =
     (case validate_config cf of
        Some e \<Rightarrow> (Inl (Inl e), w)
      | None \<Rightarrow>
          (case open_segments cf C (blank_recorder now, w) of
             (Some e, r, w') \<Rightarrow> (Inl (Inr e), w')
           | (None, r, w') \<Rightarrow> (Inr (update_usage cf r), w')))"

end
