(* ===== verification/RecorderRecovery.thy ===== *)
theory RecorderRecovery
  imports RecorderRepair RecorderOpen
begin

text \<open>
  Reading the log back.  \<open>readable\<close> collects what the JSON encoding and the redaction give for
  a record of the log: its line decodes to an event that is stored the same way again, and no
  proper part of the encoding decodes.
\<close>

definition body :: "stored \<Rightarrow> string" where "body x = butlast (st_data x)"

definition readable :: "config \<Rightarrow> codec \<Rightarrow> stored \<Rightarrow> bool" where
  "readable cf C x \<longleftrightarrow>
     st_data x = body x @ newline \<and> set newline \<inter> set (body x) = {} \<and> trim_space (cd_unicode C) (body x) \<noteq> [] \<and>
     int (length (st_data x)) \<le> historical_line_limit \<and> ev_sequence (st_event x) \<noteq> 0 \<and> 0 < ev_time (st_event x) \<and>
     cd_marshal C (st_event x) = Some (body x) \<and>
     (case cd_unmarshal C (body x) of
        None \<Rightarrow> False
      | Some e \<Rightarrow> sanitize cf C e = st_event x \<and> ev_version e = event_schema_version \<and> validate_event e = None) \<and>
     (\<forall>t \<in> set (prefixes (body x)). t \<noteq> body x \<longrightarrow> cd_unmarshal C t = None)"

definition loaded :: "int \<Rightarrow> 64 word \<Rightarrow> segment list \<Rightarrow> stored list \<Rightarrow> recorder" where
  "loaded now c gs xs = (blank_recorder now)\<lparr>rc_segments := gs, rc_records := xs, rc_bytes := sizes xs,
     rc_next := (if xs = [] then 0 else ev_sequence (st_event (last xs))),
     rc_report_at := (if xs = [] then now else latest xs),
     rc_health := (rc_health (blank_recorder now))\<lparr>he_corrupt := c\<rparr>\<rparr>"

lemma loaded_blank: "blank_recorder now = loaded now 0 [] []"
  by (simp add: loaded_def blank_recorder_def sizes_def)

lemma loaded_simps [simp]:
  "rc_records (loaded now c gs xs) = xs" "rc_segments (loaded now c gs xs) = gs" "rc_bytes (loaded now c gs xs) = sizes xs"
  "rc_file (loaded now c gs xs) = None" "rc_closed (loaded now c gs xs) = False" "he_writable (rc_health (loaded now c gs xs))"
  "last_time (loaded now c gs xs) = latest xs" "rc_next (loaded now c gs xs) = (if xs = [] then 0 else ev_sequence (st_event (last xs)))"
  "(loaded now c gs xs)\<lparr>rc_segments := hs\<rparr> = loaded now c hs xs"
  by (simp_all add: loaded_def blank_recorder_def last_time_def latest_def)

lemma admit_loaded: "admit_loaded x (loaded now c gs xs) = loaded now c gs (xs @ [x])"
  by (simp add: admit_loaded_def loaded_def blank_recorder_def sizes_snoc latest_def)

lemma count_corrupt_loaded: "count_corrupt (loaded now c gs xs) = loaded now (c + 1) gs xs"
  by (simp add: count_corrupt_def loaded_def blank_recorder_def)

lemma in_order_last:
  assumes "in_order (xs @ [x])" and "xs \<noteq> []"
  shows "ev_sequence (st_event (last xs)) < ev_sequence (st_event x)" and "latest xs \<le> ev_time (st_event x)"
  using assms by (auto simp: in_order_def sorted_wrt_append latest_def)

lemma decode_readable:
  assumes x: "readable cf C x" and order: "in_order (xs @ [x])"
  shows "decode_stored cf C (loaded now c gs xs) (body x) = Some x"
proof -
  obtain e where e: "cd_unmarshal C (body x) = Some e" "sanitize cf C e = st_event x" "ev_version e = event_schema_version"
    "validate_event e = None" "cd_marshal C (st_event x) = Some (body x)"
    using x by (auto simp: readable_def split: option.splits)
  have fields: "ev_sequence e = ev_sequence (st_event x)" "ev_time e = ev_time (st_event x)"
    using sanitize_fields(2,3) [of cf C e] e(2) by simp_all
  have "valid_stored_event e (rc_next (loaded now c gs xs)) (last_time (loaded now c gs xs))"
    using x order in_order_last [of xs x] e(3,4) fields
    by (auto simp: valid_stored_event_def readable_def latest_def word_gt_0)
  moreover have "\<lparr>st_event = st_event x, st_data = body x @ newline\<rparr> = x" using x by (simp add: readable_def)
  ultimately show ?thesis using e by (simp add: decode_stored_def)
qed

lemma trim_newline: "trim_suffix newline (b @ newline) = b"
  by (simp add: trim_suffix_def has_suffix_def)

lemma read_line_readable:
  assumes "readable cf C x" and "in_order (xs @ [x])"
  shows "read_line cf C (st_data x) (loaded now c gs xs, s) = (loaded now c gs (xs @ [x]), s\<lparr>sg_count := Suc (sg_count s)\<rparr>)"
proof -
  have d: "st_data x = body x @ newline" using assms(1) by (simp add: readable_def)
  then have t: "trim_suffix newline (st_data x) = body x" using trim_newline by metis
  have l: "\<not> historical_line_limit < int (length (st_data x))" "trim_space (cd_unicode C) (body x) \<noteq> []"
    using assms(1) by (auto simp: readable_def)
  show ?thesis
    unfolding read_line_def prod.case t if_not_P [OF l(1)] decode_readable [OF assms] option.case admit_loaded using l(2) by simp
qed

lemma fold_readable:
  assumes "\<forall>x \<in> set p. readable cf C x" and "in_order (xs @ p)"
  shows "fold (read_line cf C) (map st_data p) (loaded now c gs xs, s) = (loaded now c gs (xs @ p), s\<lparr>sg_count := sg_count s + length p\<rparr>)"
  using assms
proof (induction p arbitrary: xs s)
  case (Cons x p)
  have "in_order (xs @ [x])" using Cons.prems(2) by (auto simp: in_order_def sorted_wrt_append)
  then show ?case
    using Cons.IH [of "xs @ [x]" "s\<lparr>sg_count := Suc (sg_count s)\<rparr>"] Cons.prems read_line_readable [of cf C x xs now c gs s] by simp
qed simp

subsection \<open>Lines\<close>

lemma newline_char: "newline = [CHR 0x0A]"
  by code_simp

lemma prefix_single: "prefix us [c] \<longleftrightarrow> us = [] \<or> us = [c]"
  by (cases us) auto

lemma lines_of_free: "CHR 0x0A \<notin> set b \<Longrightarrow> lines_of acc b = (if acc @ b = [] then [] else [acc @ b])"
  by (induction b arbitrary: acc) (auto simp: newline_char)

lemma lines_of_line: "CHR 0x0A \<notin> set b \<Longrightarrow> lines_of acc (b @ newline @ rest) = (acc @ b @ newline) # lines_of [] rest"
  by (induction b arbitrary: acc) (auto simp: newline_char)

lemma readable_line: "readable cf C x \<Longrightarrow> CHR 0x0A \<notin> set (body x) \<and> st_data x = body x @ newline"
  by (auto simp: readable_def newline_char)

lemma lines_of_data: "\<forall>x \<in> set p. readable cf C x \<Longrightarrow> lines_of [] (data_of p @ rest) = map st_data p @ lines_of [] rest"
proof (induction p)
  case (Cons x p)
  then have "lines_of [] (data_of (x # p) @ rest) = lines_of [] (body x @ newline @ data_of p @ rest)"
    using readable_line [of cf C x] by (simp add: data_of_def)
  then show ?case using lines_of_line [of "body x" "[]" "data_of p @ rest"] readable_line [of cf C x] Cons by simp
qed (simp add: data_of_def)

subsection \<open>Files\<close>

lemma load_file_clean:
  assumes "\<forall>x \<in> set p. readable cf C x" and "in_order (xs @ p)"
  shows "load_file cf C (n, data_of p) (loaded now c gs xs) = loaded now c (gs @ [segment_of n p]) (xs @ p)"
proof -
  have "lines_of [] (data_of p) = map st_data p" using lines_of_data [OF assms(1), of "[]"] by simp
  then show ?thesis
    using fold_readable [OF assms] length_data_of [of p]
    by (simp add: load_file_def read_segment_records_def segment_of_def)
qed

lemma load_files_clean:
  assumes "length os = length parts" and "\<forall>x \<in> set (concat parts). readable cf C x" and "in_order (xs @ concat parts)"
  shows "fold (load_file cf C) (zip os (map data_of parts)) (loaded now c gs xs) =
    loaded now c (gs @ map2 segment_of os parts) (xs @ concat parts)"
  using assms
proof (induction os parts arbitrary: gs xs rule: list_induct2)
  case (Cons n os p parts)
  have "in_order (xs @ p)" using Cons.prems(2) by (auto simp: in_order_def sorted_wrt_append)
  then have "load_file cf C (n, data_of p) (loaded now c gs xs) = loaded now c (gs @ [segment_of n p]) (xs @ p)"
    using Cons.prems(1) by (intro load_file_clean) simp_all
  then show ?case using Cons.IH [of "xs @ p" "gs @ [segment_of n p]"] Cons.prems by simp
qed simp

text \<open>The last file, with a part of the next record behind its records.\<close>

lemma load_file_torn:
  assumes p: "\<forall>y \<in> set p. readable cf C y" and x: "readable cf C x" and order: "in_order ((xs @ p) @ [x])"
    and tail: "prefix tail (st_data x)"
  shows "\<exists>c' g q. load_file cf C (n, data_of p @ tail) (loaded now c gs xs) = loaded now c' (gs @ [g]) (xs @ p @ q) \<and>
    (q = [] \<or> q = [x]) \<and> (tail = [] \<longrightarrow> q = []) \<and> sound n (p @ q) g (data_of p @ tail)"
proof -
  note line = readable_line [OF x]
  let ?s = "\<lparr>sg_ordinal = n, sg_count = 0, sg_bytes = int (length (data_of p @ tail)), sg_dirty = False\<rparr>"
  let ?s' = "?s\<lparr>sg_count := length p\<rparr>"
  have order': "in_order (xs @ p)" using order by (auto simp: in_order_def sorted_wrt_append)
  have fold: "fold (read_line cf C) (lines_of [] (data_of p @ tail)) (loaded now c gs xs, ?s) =
      fold (read_line cf C) (lines_of [] tail) (loaded now c gs (xs @ p), ?s')"
    using fold_readable [OF p order', of now c gs ?s] lines_of_data [OF p, of tail] by simp
  consider "tail = []" | "tail = st_data x" | "tail = body x" "tail \<noteq> []" | "strict_prefix tail (body x)" "tail \<noteq> []"
    using tail line by (auto simp: newline_char prefix_append strict_prefix_def prefix_single)
  then show ?thesis
  proof cases
    case 1
    then show ?thesis using load_file_clean [OF p order', of n now c gs]
      by (intro exI [of _ c] exI [of _ "segment_of n p"] exI [of _ "[]"]) (simp add: sound_def)
  next
    case 2
    have "load_file cf C (n, data_of (p @ [x])) (loaded now c gs xs) = loaded now c (gs @ [segment_of n (p @ [x])]) (xs @ p @ [x])"
      by (rule load_file_clean) (use p x order in auto)
    moreover have "newline \<noteq> []" by (simp add: newline_char)
    ultimately show ?thesis using 2 line
      by (intro exI [of _ c] exI [of _ "segment_of n (p @ [x])"] exI [of _ "[x]"]) (simp add: sound_def)
  next
    case 3
    have lines: "lines_of [] tail = [tail]" using lines_of_free [of tail "[]"] 3 line by simp
    have "\<not> has_suffix newline (body x)"
      using line by (auto simp: has_suffix_def newline_char) (metis append_take_drop_id in_set_conv_decomp)
    then have "trim_suffix newline tail = body x" using 3 by (simp add: trim_suffix_def)
    then have "read_line cf C tail (loaded now c gs (xs @ p), ?s') =
        (loaded now c gs ((xs @ p) @ [x]), ?s'\<lparr>sg_count := Suc (length p), sg_dirty := True\<rparr>)"
      using decode_readable [OF x order, of now c gs] x 3 line
      by (simp add: read_line_def readable_def admit_loaded newline_char)
    then show ?thesis using fold lines 3 line
      by (intro exI [of _ c] exI [of _ "?s'\<lparr>sg_count := Suc (length p), sg_dirty := True\<rparr>"] exI [of _ "[x]"])
        (simp add: load_file_def read_segment_records_def sound_def)
  next
    case 4
    have free: "CHR 0x0A \<notin> set tail" using 4(1) line by (auto simp: strict_prefix_def prefix_def)
    have lines: "lines_of [] tail = [tail]" using lines_of_free [of tail "[]"] 4 free by simp
    have "\<not> has_suffix newline tail"
      using free by (auto simp: has_suffix_def newline_char) (metis append_take_drop_id in_set_conv_decomp)
    then have trim: "trim_suffix newline tail = tail" by (simp add: trim_suffix_def)
    have "cd_unmarshal C tail = None" using 4(1) x by (auto simp: readable_def strict_prefix_def)
    then have "decode_stored cf C (loaded now c gs (xs @ p)) tail = None" by (simp add: decode_stored_def)
    then have "\<exists>c'. read_line cf C tail (loaded now c gs (xs @ p), ?s') = (loaded now c' gs (xs @ p), ?s'\<lparr>sg_dirty := True\<rparr>)"
      using trim by (auto simp: read_line_def count_corrupt_loaded)
    then obtain c' where "read_line cf C tail (loaded now c gs (xs @ p), ?s') = (loaded now c' gs (xs @ p), ?s'\<lparr>sg_dirty := True\<rparr>)" by blast
    then show ?thesis using fold lines
      by (intro exI [of _ c'] exI [of _ "?s'\<lparr>sg_dirty := True\<rparr>"] exI [of _ "[]"])
        (simp add: load_file_def read_segment_records_def sound_def)
  qed
qed


subsection \<open>Loading the directory\<close>

definition exactly :: "recorder \<Rightarrow> disk \<Rightarrow> assertion" where
  "exactly r0 d0 r d \<longleftrightarrow> r = r0 \<and> d = d0"

lemma delivers_read:
  assumes "dk_live d = Some fs" and "fst f \<in> fst ` set fs"
  shows "delivers (exactly r d) (read_segment cf C f) (exactly (load_file cf C f r) d)"
proof -
  have o: "delivers (exactly r d) (storage (on_live (exists_file (fst f)))) (exactly r d)"
    by (rule delivers_storage) (use assms in \<open>simp add: exactly_def on_live_def exists_file_def\<close>)
  have l: "delivers (exactly r d) (locally (load_file cf C f)) (exactly (load_file cf C f r) d)"
    by (rule delivers_locally) (simp add: exactly_def)
  show ?thesis unfolding read_segment_def
    by (rule delivers_Cons [OF o delivers_Cons [OF l delivers_Cons [OF delivers_sync delivers_Nil]]])
qed

lemma delivers_reads:
  assumes "dk_live d = Some fs" and "fst ` set gs \<subseteq> fst ` set fs"
  shows "delivers (exactly r d) (run_all (map (read_segment cf C) gs)) (exactly (fold (load_file cf C) gs r) d)"
  using assms(2)
proof (induction gs arbitrary: r)
  case Nil
  then show ?case by (auto intro!: delivers_Nil simp del: run_all.simps)
next
  case (Cons f gs)
  have f: "fst f \<in> fst ` set fs" "fst ` set gs \<subseteq> fst ` set fs" using Cons.prems by auto
  show ?case using delivers_Cons [OF delivers_read [OF assms(1) f(1), of r cf C] Cons.IH [OF f(2)]] by (simp del: run_all.simps)
qed

lemma load_torn:
  assumes ok: "log_ok os parts" and read: "\<forall>y \<in> set (concat parts) \<union> {x}. readable cf C y"
    and order: "in_order (concat parts @ [x])" and tail: "prefix tail (st_data x)"
  shows "\<exists>c gs q. fold (load_file cf C) (zip os (torn_contents parts tail)) (blank_recorder now) = loaded now c gs (concat parts @ q) \<and>
    (q = [] \<or> q = [x]) \<and> (tail = [] \<longrightarrow> q = []) \<and>
    (\<exists>parts'. log_ok os parts' \<and> concat parts' = concat parts @ q \<and> sounds os parts' gs (torn_contents parts tail))"
proof -
  note ok' = log_okD [OF ok]
  let ?ps = "butlast parts" and ?p = "last parts" and ?ns = "butlast os" and ?n = "last os"
  have os: "os = ?ns @ [?n]" and parts: "parts = ?ps @ [?p]" and len: "length ?ns = length ?ps" using ok' by simp_all
  have cat: "concat parts = concat ?ps @ ?p" using parts by (metis append_Nil2 concat.simps concat_append)
  have sub: "\<forall>y \<in> set (concat ?ps). readable cf C y" "\<forall>y \<in> set ?p. readable cf C y" "readable cf C x" using read cat by auto
  have order1: "in_order ([] @ concat ?ps)" "in_order ((concat ?ps @ ?p) @ [x])"
    using order unfolding cat by (auto simp: in_order_def sorted_wrt_append)
  have first: "fold (load_file cf C) (zip ?ns (map data_of ?ps)) (blank_recorder now) = loaded now 0 (map2 segment_of ?ns ?ps) (concat ?ps)"
    using load_files_clean [OF len sub(1) order1(1), of now 0 "[]"] by (simp add: loaded_blank)
  obtain c g q where g: "load_file cf C (?n, data_of ?p @ tail) (loaded now 0 (map2 segment_of ?ns ?ps) (concat ?ps)) =
      loaded now c (map2 segment_of ?ns ?ps @ [g]) (concat ?ps @ ?p @ q)"
    "q = [] \<or> q = [x]" "tail = [] \<longrightarrow> q = []" "sound ?n (?p @ q) g (data_of ?p @ tail)"
    using load_file_torn [OF sub(2,3) order1(2) tail, of ?n now 0 "map2 segment_of ?ns ?ps"] by blast
  have files: "zip os (torn_contents parts tail) = zip ?ns (map data_of ?ps) @ [(?n, data_of ?p @ tail)]"
    using os len by (metis (no_types, lifting) torn_contents_def length_map zip_append zip_Cons_Cons zip_Nil)
  have "fold (load_file cf C) (zip os (torn_contents parts tail)) (blank_recorder now) =
      loaded now c (map2 segment_of ?ns ?ps @ [g]) (concat parts @ q)"
    unfolding files using first g(1) cat by simp
  moreover have s: "sounds (?ns @ [?n]) (?ps @ [?p @ q]) (map2 segment_of ?ns ?ps @ [g]) (torn_contents parts tail)"
    unfolding torn_contents_def using sounds_append [OF sounds_clean [OF len], of "[?n]" "[?p @ q]" "[g]" "[data_of ?p @ tail]"] g(4) by simp
  moreover have "length os = Suc (length ?ps)" using len os by (metis length_append_singleton)
  then have "log_ok os (?ps @ [?p @ q])" using ok by (simp add: log_ok_def)
  moreover have "concat (?ps @ [?p @ q]) = concat parts @ q" using cat by simp
  moreover have "sounds os (?ps @ [?p @ q]) (map2 segment_of ?ns ?ps @ [g]) (torn_contents parts tail)" using s unfolding os [symmetric] .
  ultimately show ?thesis using g(2,3) by blast
qed

section \<open>Recovery\<close>

text \<open>
  Opening a log that is there: whatever an interrupted write left behind its last record, and
  whatever temporary files, the recorder that opens it is intact.
\<close>

lemma delivers_sync_segments:
  assumes "dk_live d = Some fs" and "sg_ordinal ` set gs \<subseteq> fst ` set fs"
  shows "delivers (exactly r d) (run_all (map sync_segment gs)) (exactly r d)"
  using assms(2)
proof (induction gs)
  case Nil
  then show ?case by (auto intro!: delivers_Nil simp del: run_all.simps)
next
  case (Cons g gs)
  have o: "delivers (exactly r d) (storage (on_live (exists_file (sg_ordinal g)))) (exactly r d)"
    by (rule delivers_storage) (use assms(1) Cons.prems in \<open>simp add: exactly_def on_live_def exists_file_def\<close>)
  have "delivers (exactly r d) (sync_segment g) (exactly r d)"
    unfolding sync_segment_def by (rule delivers_Cons [OF o delivers_Cons [OF delivers_sync delivers_Cons [OF delivers_sync delivers_Nil]]])
  then show ?case using delivers_Cons Cons by (simp del: run_all.simps)
qed

lemma delivers_remove_temps:
  "length ts = length (dk_temps d) \<Longrightarrow>
     delivers (exactly r d) (run_all (map (\<lambda>t. storage remove_temp) ts)) (exactly r (d\<lparr>dk_temps := []\<rparr>))"
proof (induction ts arbitrary: d)
  case Nil
  then show ?case by (auto intro!: delivers_Nil simp: exactly_def simp del: run_all.simps)
next
  case (Cons t ts)
  then obtain u us where u: "dk_temps d = u # us" by (cases "dk_temps d") auto
  have "delivers (exactly r d) (storage remove_temp) (exactly r (d\<lparr>dk_temps := us\<rparr>))"
    by (rule delivers_storage) (simp add: exactly_def remove_temp_def u)
  then show ?case using delivers_Cons [of "exactly r d"] Cons.IH [of "d\<lparr>dk_temps := us\<rparr>"] Cons.prems u
    by (simp del: run_all.simps)
qed

lemma delivers_maybe_sync: "delivers P (run_all (if b then [sync_directory] else [])) P"
  by (auto intro!: delivers_Nil delivers_Cons [OF delivers_sync_file(2)] simp del: run_all.simps)

lemma report_corruption_simps [simp]:
  "rc_records (report_corruption r) = rc_records r" "rc_next (report_corruption r) = rc_next r" "rc_bytes (report_corruption r) = rc_bytes r"
  "rc_file (report_corruption r) = rc_file r" "rc_segments (report_corruption r) = rc_segments r" "rc_closed (report_corruption r) = rc_closed r"
  "he_writable (rc_health (report_corruption r)) = he_writable (rc_health r)"
  by (simp_all add: report_corruption_def)

lemma in_order_le_last:
  assumes "in_order xs" and "x \<in> set xs"
  shows "ev_sequence (st_event x) \<le> ev_sequence (st_event (last xs))"
proof -
  have ne: "xs \<noteq> []" using assms(2) by auto
  then have "in_order (butlast xs @ [last xs])" using assms(1) by simp
  moreover have "x \<in> set (butlast xs) \<or> x = last xs"
    using assms(2) append_butlast_last_id [OF ne] by (metis Un_iff empty_iff empty_set set_ConsD set_append)
  ultimately show ?thesis by (auto simp: in_order_def sorted_wrt_append)
qed

lemma opened_intact:
  assumes a: "appended (frame (loaded now c gs xs) d0) (drop b xs) r d" and order: "in_order xs" and s: "settled d0"
    and u: "u = sizes (drop b xs)"
  shows "intact (report_corruption (drop_loaded b u r)) d \<and> rc_records (report_corruption (drop_loaded b u r)) = drop b xs \<and>
    rc_file (report_corruption (drop_loaded b u r)) \<noteq> None"
proof -
  let ?r = "report_corruption (drop_loaded b u r)"
  have f: "frame r d = frame (loaded now c gs xs) d0" by (rule frame_of_appended [OF a])
  note ff = frame_fields [OF f]
  have x: "rc_records r = xs" "he_writable (rc_health r)" "\<not> rc_closed r" "rc_next r = (if xs = [] then 0 else ev_sequence (st_event (last xs)))"
    using ff by simp_all
  have "settled d" using settled_frame [OF f] s by simp
  moreover have "appended (frame ?r d) (drop b xs) ?r d"
    by (rule appended_reframe [OF a]) (simp_all add: drop_loaded_def)
  moreover have "rc_file r \<noteq> None" using a by (auto simp: appended_def stored_as_def)
  ultimately show ?thesis
    using x in_order_drop [OF order] in_order_le_last [OF order] u
    by (auto simp: intact_def drop_loaded_def dest: in_set_dropD)
qed

text \<open>After the segments have been read.\<close>

lemma settle_delivers:
  assumes live: "dk_live d = Some (zip os cs)" and ok: "log_ok os parts" and s: "sounds os parts gs cs"
    and xs: "concat parts = xs" and order: "in_order xs" and st: "settled d" and cf: "validate_config cf = None"
  shows "delivers (exactly (loaded now c gs xs) d) (settle cf C at False (dk_temps d))
    (\<lambda>r' d'. intact r' d' \<and> rc_records r' = retained cf (at - cf_max_age cf) xs \<and> rc_file r' \<noteq> None)"
proof -
  let ?r = "loaded now c gs xs" and ?d = "d\<lparr>dk_temps := []\<rparr>"
  note ok' = log_okD [OF ok] and lens = sounds_lengths [OF s]
  obtain b u where bu: "retention_decision cf xs (sizes xs) at = (b, u)" by fastforce
  have kept: "drop b xs = retained cf (at - cf_max_age cf) xs" "u = sizes (drop b xs)"
    using retention_retained [OF order valid_fits [OF cf], of "at - cf_max_age cf"] bu by (simp_all add: retention_decision_def)
  have gs: "gs \<noteq> []" using lens ok' by auto
  have act: "sg_ordinal (active ?r) = last os" using lens gs by (metis active_def last_map loaded_simps(2))
  let ?fin = "locally (\<lambda>r. report_corruption (drop_loaded b u r))"
  let ?acts = "map sync_segment gs @ ([sync_directory, sync_directory] @ (map (\<lambda>t. storage remove_temp) (dk_temps d) @
      ((if dk_temps d \<noteq> [] then [sync_directory] else []) @ [reopen (last os), trim_segments xs b, ?fin])))"
  have same: "settle cf C at False (dk_temps d) (r, w) = run_all ?acts (r, w)" if "exactly ?r d r (wd_disk w)" for r and w :: world
    using that gs act bu by (simp add: settle_def exactly_def Let_def)
  have syncs: "delivers (exactly ?r d) (run_all (map sync_segment gs)) (exactly ?r d)"
  proof (rule delivers_sync_segments [OF live])
    have "fst ` set (zip os cs) = set os" using lens by (metis list.set_map map_fst_zip)
    then show "sg_ordinal ` set gs \<subseteq> fst ` set (zip os cs)" using lens by (metis list.set_map order.refl)
  qed
  have dirs: "delivers (exactly ?r d) (run_all [sync_directory, sync_directory]) (exactly ?r d)"
    by (rule delivers_Cons [OF delivers_sync_file(2) delivers_Cons [OF delivers_sync_file(2) delivers_Nil]])
  have temps: "delivers (exactly ?r d) (run_all (map (\<lambda>t. storage remove_temp) (dk_temps d))) (exactly ?r ?d)"
    by (rule delivers_remove_temps) simp
  have reopen: "delivers (exactly ?r ?d) (reopen (last os)) (base (frame ?r ?d) os gs cs)"
  proof (rule delivers_weaken [OF delivers_reopen])
    show "os \<noteq> []" "length os = length cs" using ok' lens by simp_all
    show "base (frame ?r ?d) os gs cs (r\<lparr>rc_file := Some (last os)\<rparr>) d'" if "exactly ?r ?d r d'" for r d'
      using that live by (simp add: exactly_def base_def on_disk_def)
  qed
  have trim: "delivers (base (frame ?r ?d) os gs cs) (trim_segments xs b) (appended (frame ?r ?d) (drop b xs))"
    using trim_raw_delivers [OF ok s] xs by simp
  let ?Q = "\<lambda>r' d'. intact r' d' \<and> rc_records r' = retained cf (at - cf_max_age cf) xs \<and> rc_file r' \<noteq> None"
  have fin: "delivers (appended (frame ?r ?d) (drop b xs)) ?fin ?Q"
  proof (rule delivers_locally)
    show "?Q (report_corruption (drop_loaded b u r)) d'" if "appended (frame ?r ?d) (drop b xs) r d'" for r d'
      using opened_intact [OF that order _ kept(2)] st kept(1) by (simp add: settled_def)
  qed
  have "delivers (exactly ?r d) (run_all ?acts) ?Q"
    by (rule delivers_append [OF syncs delivers_append [OF dirs delivers_append [OF temps delivers_append [OF delivers_maybe_sync
      delivers_Cons [OF reopen delivers_Cons [OF trim delivers_Cons [OF fin delivers_Nil]]]]]]])
  then show ?thesis by (rule delivers_same [rotated]) (rule same)
qed

lemma intact_update_usage: "intact r d \<Longrightarrow> intact (update_usage cf r) d"
  using appended_reframe [of "frame r d" "rc_records r" r d "update_usage cf r"] by (simp add: intact_def)

lemma delivers_open_active: "delivers (\<lambda>r d. P r d \<and> rc_file r \<noteq> None) open_active (\<lambda>r d. P r d \<and> rc_file r \<noteq> None)"
  by (auto simp: delivers_def open_active_def)

lemma open_loaded:
  assumes cf: "validate_config cf = None" and disk: "on_disk os cs (wd_disk w)" and s: "settled (wd_disk w)" and script: "wd_script w = []"
    and load: "fold (load_file cf C) (zip os cs) (blank_recorder now) = loaded now c gs xs"
    and ok: "log_ok os parts" "concat parts = xs" "sounds os parts gs cs" and order: "in_order xs"
  shows "\<exists>r' w'. open_recorder cf C now w = (Inr r', w') \<and> intact r' (wd_disk w') \<and>
    rc_records r' = retained cf (now - cf_max_age cf) xs \<and> wd_script w' = []"
proof -
  let ?d = "wd_disk w"
  have live: "dk_live ?d = Some (zip os cs)" using disk by (simp add: on_disk_def)
  have reads: "delivers (exactly (blank_recorder now) ?d) (run_all (map (read_segment cf C) (zip os cs))) (exactly (loaded now c gs xs) ?d)"
    using delivers_reads [OF live, of "zip os cs" "blank_recorder now" cf C] load by simp
  let ?Q = "\<lambda>r' d'. (intact r' d' \<and> rc_records r' = retained cf (now - cf_max_age cf) xs) \<and> rc_file r' \<noteq> None"
  have settle: "delivers (exactly (loaded now c gs xs) ?d) (settle cf C now False (dk_temps ?d)) ?Q"
    by (rule delivers_weaken [OF settle_delivers [OF live ok(1,3,2) order s cf]]) auto
  have all: "delivers (exactly (blank_recorder now) ?d)
      (run_all (map (read_segment cf C) (zip os cs) @ [settle cf C now False (dk_temps ?d), open_active])) ?Q"
    by (rule delivers_append [OF reads delivers_Cons [OF settle delivers_Cons [OF delivers_open_active delivers_Nil]]]) simp
  have "open_segments cf C (blank_recorder now, w) =
      run_all (map (read_segment cf C) (zip os cs) @ [settle cf C now False (dk_temps ?d), open_active]) (blank_recorder now, w)"
    using live s by (simp add: open_segments_def settled_def blank_recorder_def Let_def)
  moreover obtain r1 w1 where "run_all (map (read_segment cf C) (zip os cs) @ [settle cf C now False (dk_temps ?d), open_active])
      (blank_recorder now, w) = (None, r1, w1)" "?Q r1 (wd_disk w1)" "wd_script w1 = []"
    using deliversD [OF all, of "blank_recorder now" w] script by (auto simp: exactly_def)
  ultimately show ?thesis using cf intact_update_usage by (auto simp: open_recorder_def)
qed

lemma open_torn:
  assumes cf: "validate_config cf = None" and ok: "log_ok os parts" and disk: "on_disk os (torn_contents parts tail) (wd_disk w)"
    and s: "settled (wd_disk w)" and read: "\<forall>y \<in> set (concat parts) \<union> {x}. readable cf C y"
    and order: "in_order (concat parts @ [x])" and tail: "prefix tail (st_data x)" and script: "wd_script w = []"
  shows "\<exists>r' w' q. open_recorder cf C now w = (Inr r', w') \<and> (q = [] \<or> q = [x]) \<and>
    intact r' (wd_disk w') \<and> rc_records r' = retained cf (now - cf_max_age cf) (concat parts @ q)"
proof -
  obtain c gs q parts' where load: "fold (load_file cf C) (zip os (torn_contents parts tail)) (blank_recorder now) = loaded now c gs (concat parts @ q)"
    "q = [] \<or> q = [x]" "log_ok os parts'" "concat parts' = concat parts @ q" "sounds os parts' gs (torn_contents parts tail)"
    using load_torn [OF ok read order tail, of now] by blast
  have "in_order (concat parts @ q)" using order load(2) by (auto simp: in_order_def sorted_wrt_append)
  from open_loaded [OF cf disk s script load(1,3,4,5) this] show ?thesis using load(2) by blast
qed

lemma open_clean:
  assumes cf: "validate_config cf = None" and ok: "log_ok os parts" and disk: "on_disk os (map data_of parts) (wd_disk w)"
    and s: "settled (wd_disk w)" and read: "\<forall>y \<in> set (concat parts). readable cf C y"
    and order: "in_order (concat parts)" and script: "wd_script w = []"
  shows "\<exists>r' w'. open_recorder cf C now w = (Inr r', w') \<and> intact r' (wd_disk w') \<and>
    rc_records r' = retained cf (now - cf_max_age cf) (concat parts)"
proof -
  have len: "length os = length parts" using log_okD [OF ok] by simp
  have "fold (load_file cf C) (zip os (map data_of parts)) (blank_recorder now) = loaded now 0 (map2 segment_of os parts) (concat parts)"
    using load_files_clean [OF len read, of "[]" now 0 "[]"] order by (simp add: loaded_blank)
  from open_loaded [OF cf disk s script this ok refl sounds_clean [OF len] order] show ?thesis by blast
qed

end
