(* ===== verification/RecorderProps.thy ===== *)
theory RecorderProps
  imports RecorderRecovery
begin

text \<open>
  The properties of the diagnostics recorder: it is the journal while it works, and what it
  leaves on the disk when it breaks is a journal again.
\<close>

subsection \<open>The journal's own invariant\<close>

definition journal_ok :: "journal \<Rightarrow> bool" where
  "journal_ok j \<longleftrightarrow> in_order (jr_entries j) \<and> (\<forall>x \<in> set (jr_entries j). ev_sequence (st_event x) \<le> jr_next j)"

lemma intact_journal: "intact r d \<Longrightarrow> journal_ok (abs_journal r)"
  by (simp add: intact_def journal_ok_def abs_journal_def)

lemma entry_in_order:
  assumes "journal_ok j" and "entry cf C now e j = Some x"
  shows "in_order (jr_entries j @ [x])" and "jr_next j < ev_sequence (st_event x)"
proof -
  note e = entry_some [OF assms(2)]
  show seq: "jr_next j < ev_sequence (st_event x)" using next_greater e(1,2) by simp
  show "in_order (jr_entries j @ [x])"
  proof (rule in_order_snoc)
    show "in_order (jr_entries j)" using assms(1) by (simp add: journal_ok_def)
    show "\<forall>y \<in> set (jr_entries j). ev_sequence (st_event y) < ev_sequence (st_event x)"
      using assms(1) seq unfolding journal_ok_def by (meson le_less_trans)
  qed (simp add: e(3))
qed

lemma retained_drop:
  assumes "in_order xs" and "fits cf cutoff []"
  obtains k where "retained cf cutoff xs = drop k xs"
  using retention_retained [OF assms] by metis

lemma retained_subset: "in_order xs \<Longrightarrow> fits cf cutoff [] \<Longrightarrow> set (retained cf cutoff xs) \<subseteq> set xs"
  by (metis retained_drop set_drop_subset)

lemma journal_step_ok:
  assumes ok: "journal_ok j" and cf: "validate_config cf = None"
  shows "journal_ok (journal_step cf C op j)"
proof (cases op)
  case (Note now e)
  show ?thesis
  proof (cases "entry cf C now e j")
    case (Some x)
    note o = entry_in_order [OF ok Some]
    obtain k where "retained cf (ev_time (st_event x) - cf_max_age cf) (jr_entries j @ [x]) = drop k (jr_entries j @ [x])"
      using retained_drop [OF o(1) valid_fits [OF cf]] by blast
    then show ?thesis using Note Some o ok in_order_drop [OF o(1), of k]
      by (fastforce simp: journal_ok_def simp del: drop_append dest: in_set_dropD)
  qed (use Note ok in simp)
next
  case (Sweep now)
  have order: "in_order (jr_entries j)" using ok by (simp add: journal_ok_def)
  obtain k where "retained cf (now - cf_max_age cf) (jr_entries j) = drop k (jr_entries j)"
    using retained_drop [OF order valid_fits [OF cf]] by blast
  then show ?thesis using Sweep ok in_order_drop [OF order, of k] by (auto simp: journal_ok_def dest: in_set_dropD)
qed

lemma journal_run_append: "journal_run cf C (as @ bs) j = journal_run cf C bs (journal_run cf C as j)"
  by (induction as arbitrary: j) simp_all

lemma journal_run_ok: "journal_ok j \<Longrightarrow> validate_config cf = None \<Longrightarrow> journal_ok (journal_run cf C ops j)"
  by (induction ops arbitrary: j) (simp_all add: journal_step_ok)

text \<open>Every entry that a run creates.\<close>

fun journal_entries :: "config \<Rightarrow> codec \<Rightarrow> journal_op list \<Rightarrow> journal \<Rightarrow> stored list" where
  "journal_entries cf C [] j = []"
| "journal_entries cf C (op # ops) j =
     (case pending_entry cf C op j of None \<Rightarrow> [] | Some x \<Rightarrow> [x]) @ journal_entries cf C ops (journal_step cf C op j)"

lemma step_entries:
  assumes "journal_ok j" and "validate_config cf = None"
  shows "set (jr_entries (journal_step cf C op j)) \<subseteq> set (jr_entries j) \<union> set (case pending_entry cf C op j of None \<Rightarrow> [] | Some x \<Rightarrow> [x])"
proof (cases op)
  case (Note now e)
  show ?thesis
  proof (cases "entry cf C now e j")
    case (Some x)
    then show ?thesis using Note retained_subset [OF entry_in_order(1) [OF assms(1) Some] valid_fits [OF assms(2)]]
      by (fastforce simp: pending_entry_def)
  qed (use Note in \<open>simp add: pending_entry_def\<close>)
next
  case (Sweep now)
  then show ?thesis using retained_subset [OF _ valid_fits [OF assms(2)]] assms(1) by (fastforce simp: pending_entry_def journal_ok_def)
qed

lemma run_entries:
  assumes "journal_ok j" and "validate_config cf = None"
  shows "set (jr_entries (journal_run cf C done j)) \<subseteq> set (jr_entries j) \<union> set (journal_entries cf C (done @ rest) j)"
  using assms(1)
proof (induction "done" arbitrary: j)
  case (Cons op ops)
  from Cons.IH [OF journal_step_ok [OF Cons.prems assms(2)]] step_entries [OF Cons.prems assms(2), of C op]
  show ?case by fastforce
qed auto

lemma run_pending:
  "pending_entry cf C op (journal_run cf C done j) = Some x \<Longrightarrow> x \<in> set (journal_entries cf C (done @ op # rest) j)"
  by (induction "done" arbitrary: j) auto

subsection \<open>Retention\<close>

lemma retained_fits: "fits cf cutoff [] \<Longrightarrow> fits cf cutoff (retained cf cutoff xs)"
  by (induction xs) (simp_all add: retained_Cons, simp add: retained_def)

lemma retained_longest:
  "fits cf cutoff [] \<Longrightarrow> retained cf cutoff xs = drop n xs \<Longrightarrow> n \<le> length xs \<Longrightarrow> k < n \<Longrightarrow> \<not> fits cf cutoff (drop k xs)"
proof (induction xs arbitrary: n k)
  case (Cons x xs)
  have no: "\<not> fits cf cutoff (x # xs)"
  proof
    assume "fits cf cutoff (x # xs)"
    then have "length (x # xs) = length (x # xs) - n" using retained_Cons [OF Cons.prems(1), of x xs] Cons.prems(2) by (metis length_drop)
    then show False using Cons.prems(3,4) by simp
  qed
  then have "retained cf cutoff xs = drop (n - 1) xs"
    using retained_Cons [OF Cons.prems(1), of x xs] Cons.prems(2,4) by (simp add: drop_Cons')
  then show ?case using Cons.IH [of "n - 1" "k - 1"] Cons.prems no by (cases k) auto
qed simp

text \<open>C35: retention drops no more than it must: what is left of a log in order is young enough and
  within both bounds, every longer end of the log is not, and the new byte count is exact.\<close>

theorem retention_keeps_longest:
  assumes "validate_config cf = None" and "in_order xs"
  shows "case retention_decision cf xs (sizes xs) now of (n, usage) \<Rightarrow>
    drop n xs = retained cf (now - cf_max_age cf) xs \<and> usage = sizes (drop n xs) \<and>
    fits cf (now - cf_max_age cf) (drop n xs) \<and> (\<forall>k < n. \<not> fits cf (now - cf_max_age cf) (drop k xs))"
proof -
  let ?cut = "now - cf_max_age cf"
  obtain n u where nu: "retention_decision cf xs (sizes xs) now = (n, u)" by fastforce
  note v = valid_fits [OF assms(1), of ?cut]
  have r: "drop n xs = retained cf ?cut xs" "u = sizes (drop n xs)"
    using retention_retained [OF assms(2) v] nu by (simp_all add: retention_decision_def)
  moreover have "n \<le> length xs" using retention_le [of cf ?cut xs "sizes xs"] nu by (simp add: retention_decision_def)
  ultimately show ?thesis unfolding nu prod.case using retained_fits [OF v, of xs] retained_longest [OF v r(1) [symmetric]] by auto
qed

subsection \<open>Refinement\<close>

text \<open>C4: while the recorder is writable it is the journal: after any sequence of records and
  cleanups, under any faults, its memory is the journal's state, and the live files, in the
  order of their ordinals, spell exactly the journal's entries.\<close>

theorem recorder_follows_journal:
  assumes "validate_config cf = None" and "intact r (wd_disk w)" and "run_log cf C ops (r, w) = (r', w')"
    and "he_writable (rc_health r')"
  shows "abs_journal r' = journal_run cf C ops (abs_journal r) \<and>
    (\<exists>os parts. sorted_wrt (<) os \<and> length os = length parts \<and> dk_live (wd_disk w') = Some (zip os (map data_of parts)) \<and>
       concat parts = jr_entries (journal_run cf C ops (abs_journal r)))"
proof -
  have f: "intact r' (wd_disk w')" "abs_journal r' = journal_run cf C ops (abs_journal r)"
    using run_follows [OF assms(1-3)] assms(4) by simp_all
  have e: "jr_entries (journal_run cf C ops (abs_journal r)) = rc_records r'" using f(2) by (metis abs_journal_def journal.select_convs(1))
  obtain os parts where "log_ok os parts" "concat parts = rc_records r'" "on_disk os (map data_of parts) (wd_disk w')"
    using intactD(3) [OF f(1)] by (auto simp: appended_def stored_as_def)
  then have "sorted_wrt (<) os \<and> length os = length parts \<and> dk_live (wd_disk w') = Some (zip os (map data_of parts)) \<and>
      concat parts = jr_entries (journal_run cf C ops (abs_journal r))"
    unfolding e by (simp add: log_ok_def on_disk_def)
  then show ?thesis using f(2) by blast
qed

subsection \<open>Recovery\<close>

lemma in_order_subseq:
  assumes "in_order xs" and "subseq ys xs"
  shows "in_order ys"
  using assms(2,1)
proof (induction rule: list_emb.induct)
  case (list_emb_Cons2 x y xs ys)
  then show ?case using list_emb_set [of "(=)" xs ys] by (fastforce simp: in_order_def)
qed (simp_all add: in_order_def)

abbreviation with_pending :: "stored list \<Rightarrow> stored option \<Rightarrow> stored list" where
  "with_pending xs x \<equiv> xs @ case_option [] (\<lambda>y. [y]) x"

lemma recoverable_reopens:
  assumes cf: "validate_config cf = None" and rec: "recoverable xs x b d" and s: "settled d"
    and read: "\<forall>y \<in> set (with_pending xs x). readable cf C y" and order: "in_order (with_pending xs x)"
  shows "\<exists>r' w' ys. open_recorder cf C now \<lparr>wd_disk = d, wd_script = []\<rparr> = (Inr r', w') \<and> intact r' (wd_disk w') \<and>
    rc_records r' = retained cf (now - cf_max_age cf) ys \<and> (ys = xs \<or> (\<exists>gone. ys = gone @ drop b (with_pending xs x)))"
proof -
  let ?w = "\<lparr>wd_disk = d, wd_script = []\<rparr>"
  have order': "in_order xs" using order by (auto simp: in_order_def sorted_wrt_append)
  obtain os parts tail where t: "log_ok os parts" "on_disk os (torn_contents parts tail) d"
    and "concat parts = xs \<and> prefix tail (case x of None \<Rightarrow> [] | Some y \<Rightarrow> st_data y) \<or>
      tail = [] \<and> (\<exists>gone. subseq gone (take b (with_pending xs x)) \<and> concat parts = gone @ drop b (with_pending xs x))"
    using rec unfolding recoverable_def by blast
  then consider y where "concat parts = xs" "x = Some y" "prefix tail (st_data y)" | "concat parts = xs" "tail = []"
    | gone where "tail = []" "subseq gone (take b (with_pending xs x))" "concat parts = gone @ drop b (with_pending xs x)"
    by (cases x) auto
  then show ?thesis
  proof cases
    case (1 y)
    obtain r' w' q where q: "open_recorder cf C now ?w = (Inr r', w')" "q = [] \<or> q = [y]" "intact r' (wd_disk w')"
      "rc_records r' = retained cf (now - cf_max_age cf) (xs @ q)"
      using open_torn [OF cf t(1), of tail ?w y C now] 1 t(2) s read order by auto
    have "xs @ q = xs \<or> (\<exists>gone. xs @ q = gone @ drop b (with_pending xs x))"
      using q(2) 1(2) append_take_drop_id [of b "xs @ [y]"] by (metis append_Nil2 option.case(2))
    then show ?thesis using q by blast
  next
    case 2
    have "on_disk os (map data_of parts) d" using t torn_contents_Nil [of parts] log_okD [OF t(1)] 2(2) by simp
    then show ?thesis using open_clean [OF cf t(1), of ?w C now] s read order' 2(1) by auto
  next
    case 3
    have "on_disk os (map data_of parts) d" using t torn_contents_Nil [of parts] log_okD [OF t(1)] 3(1) by simp
    moreover have sub: "subseq (concat parts) (with_pending xs x)"
      unfolding 3(3) using list_emb_append_mono [OF 3(2) subseq_order.refl [of "drop b (with_pending xs x)"]] by (simp only: append_take_drop_id)
    have "set (concat parts) \<subseteq> set (with_pending xs x)" using list_emb_set [OF sub] by blast
    moreover have "in_order (concat parts)" by (rule in_order_subseq [OF order sub])
    ultimately show ?thesis using open_clean [OF cf t(1), of ?w C now] s read 3(3) by fastforce
  qed
qed

lemma intact_reopens:
  assumes cf: "validate_config cf = None" and ok: "intact r d" and read: "\<forall>y \<in> set (rc_records r). readable cf C y"
  shows "\<exists>r' w'. open_recorder cf C now \<lparr>wd_disk = d, wd_script = []\<rparr> = (Inr r', w') \<and> intact r' (wd_disk w') \<and>
    rc_records r' = retained cf (now - cf_max_age cf) (rc_records r)"
proof -
  obtain os parts where "log_ok os parts" "concat parts = rc_records r" "on_disk os (map data_of parts) d"
    using intactD(3) [OF ok] by (auto simp: appended_def stored_as_def)
  then show ?thesis using open_clean [OF cf, of os parts "\<lparr>wd_disk = d, wd_script = []\<rparr>" C now] intactD(5,7) [OF ok] read by auto
qed

text \<open>C3: whatever storage faults hit a run, and wherever, opening the log again succeeds with
  an intact recorder: the run splits where it broke (nowhere, when the recorder is still
  writable), every entry of the journal before the break is there up to retention, and the
  step that broke happened not at all or completely, up to entries it had to drop.\<close>

theorem reopened_log_recovers:
  assumes cf: "validate_config cf = None" and ok: "intact r (wd_disk w)" and run: "run_log cf C ops (r, w) = (r', w')"
    and read: "\<forall>x \<in> set (rc_records r) \<union> set (journal_entries cf C ops (abs_journal r)). readable cf C x"
  shows "\<exists>done rest r'' w'' ys. ops = done @ rest \<and> (he_writable (rc_health r') \<longrightarrow> rest = []) \<and>
    open_recorder cf C now \<lparr>wd_disk = wd_disk w', wd_script = []\<rparr> = (Inr r'', w'') \<and> intact r'' (wd_disk w'') \<and>
    rc_records r'' = retained cf (now - cf_max_age cf) ys \<and>
    (ys = jr_entries (journal_run cf C done (abs_journal r)) \<or>
     (\<exists>gone op later. rest = op # later \<and> ys = gone @ jr_entries (journal_run cf C (done @ [op]) (abs_journal r))))"
proof -
  let ?j = "abs_journal r"
  have jr: "jr_entries ?j = rc_records r" by (simp add: abs_journal_def)
  note jok = intact_journal [OF ok]
  have readable: "readable cf C y" if "y \<in> set (jr_entries (journal_run cf C ds ?j)) \<or> y \<in> set (journal_entries cf C ops ?j)" "ops = ds @ rest" for y ds rest
    using run_entries [OF jok cf, of C ds rest] that read jr by auto
  show ?thesis
  proof (cases "he_writable (rc_health r')")
    case True
    then have f: "intact r' (wd_disk w')" "abs_journal r' = journal_run cf C ops ?j" using run_follows [OF cf ok run] by simp_all
    have e: "jr_entries (journal_run cf C ops ?j) = rc_records r'" using f(2) by (metis abs_journal_def journal.select_convs(1))
    have "\<forall>y \<in> set (rc_records r'). readable cf C y" using readable [of _ ops "[]"] e by simp
    from intact_reopens [OF cf f(1) this, of now] show ?thesis using e by (metis append_Nil2)
  next
    case False
    then obtain ds op later where b: "ops = ds @ op # later" "abs_journal r' = journal_run cf C ds ?j" "broke cf C op (abs_journal r') (wd_disk w')"
      using run_follows [OF cf ok run] by auto
    let ?J = "journal_run cf C ds ?j" and ?x = "pending_entry cf C op (journal_run cf C ds ?j)"
    obtain n where n: "settled (wd_disk w')" "recoverable (jr_entries ?J) ?x n (wd_disk w')"
      "drop n (with_pending (jr_entries ?J) ?x) = jr_entries (journal_step cf C op ?J)"
      using b(2,3) unfolding broke_def by auto
    have J: "journal_ok ?J" by (rule journal_run_ok [OF jok cf])
    have "\<forall>y \<in> set (with_pending (jr_entries ?J) ?x). readable cf C y"
      using readable [of _ ds "op # later"] b(1) run_pending [of cf C op ds ?j _ later] by (auto split: option.splits)
    moreover have "in_order (with_pending (jr_entries ?J) ?x)"
      using J entry_in_order(1) [OF J] by (auto simp: pending_entry_def journal_ok_def split: option.splits journal_op.splits)
    ultimately obtain r'' w'' ys where o: "open_recorder cf C now \<lparr>wd_disk = wd_disk w', wd_script = []\<rparr> = (Inr r'', w'')"
      "intact r'' (wd_disk w'')" "rc_records r'' = retained cf (now - cf_max_age cf) ys"
      "ys = jr_entries ?J \<or> (\<exists>gone. ys = gone @ jr_entries (journal_step cf C op ?J))"
      using recoverable_reopens [OF cf n(2,1), of C now] n(3) by auto
    have "journal_run cf C (ds @ [op]) ?j = journal_step cf C op ?J" by (simp add: journal_run_append)
    then show ?thesis using o b(1) False by metis
  qed
qed

end
