(* ===== verification/RecorderService.thy ===== *)
theory RecorderService
  imports RecorderProps
begin

text \<open>
  A recorder that is served: a fresh directory opens to an intact recorder, and without
  storage faults every valid event is recorded.
\<close>

subsection \<open>A fresh directory\<close>

definition empty_world :: world where
  "empty_world = \<lparr>wd_disk = \<lparr>dk_live = None, dk_temps = [], dk_stage = None, dk_legacy = None\<rparr>, wd_script = []\<rparr>"

definition fresh_world :: world where
  "fresh_world = \<lparr>wd_disk = \<lparr>dk_live = Some [(1, [])], dk_temps = [], dk_stage = None, dk_legacy = None\<rparr>, wd_script = []\<rparr>"

definition fresh_recorder :: "config \<Rightarrow> int \<Rightarrow> recorder" where
  "fresh_recorder cf now = update_usage cf ((blank_recorder now)\<lparr>rc_file := Some 1, rc_segments := [new_segment 1]\<rparr>)"

lemma fresh_opens:
  assumes "validate_config cf = None"
  shows "open_recorder cf C now empty_world = (Inr (fresh_recorder cf now), fresh_world)"
proof -
  have "retention_decision cf [] 0 now = (0, 0)" by (simp add: retention_decision_def)
  then show ?thesis
    using assms by (simp add: open_recorder_def open_segments_def empty_world_def fresh_world_def fresh_recorder_def retain_loaded_def
      publish_segments_def publish_record_def storage_def changed_def make_stage_def on_stage_def create_file_def locally_def
      sync_disk_def sync_directory_def rename_stage_def open_active_def reopen_def on_live_def exists_file_def active_def
      new_segment_def blank_recorder_def drop_loaded_def retain_def Let_def)
qed

lemma fresh_intact: "intact (fresh_recorder cf now) (wd_disk fresh_world)"
proof -
  let ?r = "(blank_recorder now)\<lparr>rc_file := Some 1, rc_segments := [new_segment 1]\<rparr>" and ?d = "wd_disk fresh_world"
  have "stored_as (frame ?r ?d) [1] [[]] ?r ?d"
    by (simp add: stored_as_def on_disk_def fresh_world_def data_of_def new_segment_of)
  moreover have "log_ok [1] [[]]" by (simp add: log_ok_def)
  ultimately have "appended (frame ?r ?d) [] ?r ?d" unfolding appended_def by (metis concat.simps append_Nil)
  then have "intact ?r ?d"
    by (simp add: intact_def blank_recorder_def sizes_def in_order_def settled_def fresh_world_def)
  then show ?thesis unfolding fresh_recorder_def by (rule intact_update_usage)
qed

subsection \<open>Appending without faults\<close>

lemma append_segment_works:
  assumes ok: "log_ok os parts" and ne: "last os \<noteq> - 1"
  shows "works (stored_as K os parts) (append_segment cf data retaining)"
proof (rule works_same)
  define rot where "rot \<longleftrightarrow> sum_list (map data_size (last parts)) > 0 \<and>
    sum_list (map data_size (last parts)) + int (length data) > target cf"
  note ok' = log_okD [OF ok] and next_ok = next_ordinal [OF ok ne]
  let ?tail = "(if retaining \<or> rot then [sync_file] else []) @ (if rot then [sync_directory] else [])"
  let ?acts = "(if rot then [check_ordinal, sync_file, close_file, open_next] else []) @ ([write_active data, count_active data] @ ?tail)"
  show "append_segment cf data retaining (r, w) = run_all ?acts (r, w)" if "stored_as K os parts r (wd_disk w)" for r and w :: world
  proof -
    have "rotates cf data r = rot" using active_stored [OF ok that] by (simp add: rotates_def rot_def)
    then show ?thesis unfolding append_segment_def Let_def fst_conv by simp
  qed
  have tail: "delivers P (run_all ?tail) P" for P
    by (auto intro!: delivers_Nil delivers_Cons [OF delivers_sync_file(1)] delivers_Cons [OF delivers_sync_file(2)] simp del: run_all.simps)
  have put: "delivers (stored_as K ns ps) (run_all ([write_active data, count_active data] @ ?tail)) (\<lambda>r d. True)" if "log_ok ns ps" for ns ps
  proof -
    note that' = log_okD [OF that]
    have w: "delivers (stored_as K ns ps) (write_active data) (\<lambda>r d. True)"
    proof (rule delivers_same)
      show "write_active data (r, w) = write_all (\<lambda>t. on_live (append_file (last ns) t)) data (r, w)"
        if "stored_as K ns ps r (wd_disk w)" for r and w :: world
        using that by (simp add: write_active_def stored_as_def)
      show "delivers (stored_as K ns ps) (write_all (\<lambda>t. on_live (append_file (last ns) t)) data) (\<lambda>r d. True)"
        by (rule delivers_write) (use live_append [of ns "map data_of ps" _ data] that' in \<open>simp add: stored_as_def\<close>)
    qed
    have c: "delivers (\<lambda>r d. True) (count_active data) (\<lambda>r d. True)"
      unfolding count_active_def by (rule delivers_locally) simp
    have "delivers (stored_as K ns ps) (run_all [write_active data, count_active data]) (\<lambda>r d. True)"
      by (rule delivers_Cons [OF w delivers_Cons [OF c delivers_Nil]])
    from delivers_append [OF this tail] show ?thesis .
  qed
  show "works (stored_as K os parts) (run_all ?acts)"
  proof (cases rot)
    case False
    then show ?thesis using delivers_works [OF put [OF ok]] by simp
  next
    case True
    have a: "delivers (stored_as K os parts) check_ordinal (stored_as K os parts)"
      using active_stored [OF ok] ne by (auto simp: delivers_def check_ordinal_def)
    have c: "delivers (stored_as K os parts) close_file (unfiled K os parts)"
      by (rule delivers_close) (auto simp: stored_as_def unfiled_def)
    have d: "delivers (unfiled K os parts) open_next (stored_as K (os @ [last os + 1]) (parts @ [[]]))"
    proof (rule delivers_of [OF _ open_next_achieves [OF ok ne]])
      show "works (unfiled K os parts) open_next"
        unfolding works_def
      proof (intro allI impI, elim conjE)
        fix r and w :: world
        assume P: "unfiled K os parts r (wd_disk w)" "wd_script w = []"
        have "sg_ordinal (active r) = last os" using P ok' by (simp add: active_def unfiled_def last_map last_zip)
        moreover have "on_live (create_file (last os + 1)) (wd_disk w) \<noteq> None"
          using live_create [of os "map data_of parts" "last os + 1" "wd_disk w"] P next_ok(2) ok' by (simp add: unfiled_def)
        ultimately show "\<exists>r' w'. open_next (r, w) = (None, r', w') \<and> wd_script w' = []"
          using P(2) by (auto simp: open_next_def storage_def Let_def)
      qed
    qed
    have "delivers (stored_as K os parts) (run_all ([check_ordinal, sync_file, close_file, open_next] @ ([write_active data, count_active data] @ ?tail))) (\<lambda>r d. True)"
      by (rule delivers_append [OF delivers_Cons [OF a delivers_Cons [OF delivers_sync_file(1) delivers_Cons [OF c delivers_Cons [OF d delivers_Nil]]]]
          put [OF next_ok(1)]]) simp
    from delivers_works [OF this] show ?thesis using True by (simp del: run_all.simps)
  qed
qed

lemma persist_works:
  assumes "intact r (wd_disk w)" and "sg_ordinal (active r) \<noteq> - 1" and "wd_script w = []"
  shows "fst (persist cf (st_data x) (rc_records r @ [x]) b (r, w)) = None"
proof -
  let ?K = "frame r (wd_disk w)"
  obtain os parts where s: "log_ok os parts" "concat parts = rc_records r" "stored_as ?K os parts r (wd_disk w)"
    using intactD(3) [OF assms(1)] by (auto simp: appended_def)
  have ne: "last os \<noteq> - 1" using active_stored [OF s(1,3)] assms(2) by simp
  have put: "achieves (stored_as ?K os parts) (append_segment cf (st_data x) (b > 0)) (appended ?K (rc_records r @ [x])) (torn ?K (concat parts) (st_data x))"
    unfolding s(2) [symmetric] by (rule append_segment_achieves [OF s(1) refl])
  have app: "delivers (stored_as ?K os parts) (append_segment cf (st_data x) (b > 0)) (appended ?K (rc_records r @ [x]))"
    by (rule delivers_of [OF append_segment_works [OF s(1) ne] put])
  have trim: "delivers (appended ?K (rc_records r @ [x])) (trim_segments (rc_records r @ [x]) b) (\<lambda>r d. True)"
    unfolding delivers_def
  proof (intro allI impI, elim conjE)
    fix r1 and w1 :: world
    assume P: "appended ?K (rc_records r @ [x]) r1 (wd_disk w1)" "wd_script w1 = []"
    obtain ns ps where n: "log_ok ns ps" "concat ps = rc_records r @ [x]" "stored_as ?K ns ps r1 (wd_disk w1)"
      using P(1) by (auto simp: appended_def)
    have "length ns = length ps" using log_okD [OF n(1)] by simp
    from deliversD [OF trim_raw_delivers [OF n(1) sounds_clean [OF this]], of ?K r1 w1 b] n P(2)
    show "\<exists>r' w'. trim_segments (rc_records r @ [x]) b (r1, w1) = (None, r', w') \<and> True \<and> wd_script w' = []"
      by (auto simp: stored_base)
  qed
  have "delivers (stored_as ?K os parts) (persist cf (st_data x) (rc_records r @ [x]) b) (\<lambda>r d. True)"
  proof (cases "b = 0")
    case True
    have "delivers (stored_as ?K os parts) (run_all [append_segment cf (st_data x) (b > 0)]) (\<lambda>r d. True)"
      by (rule delivers_Cons [OF app delivers_Nil]) simp
    then show ?thesis using True by (simp add: persist_def del: run_all.simps)
  next
    case False
    have "delivers (stored_as ?K os parts) (run_all [append_segment cf (st_data x) (b > 0), trim_segments (rc_records r @ [x]) b]) (\<lambda>r d. True)"
      by (rule delivers_Cons [OF app delivers_Cons [OF trim delivers_Nil]]) simp
    then show ?thesis using False by (simp add: persist_def del: run_all.simps)
  qed
  from deliversD [OF this s(3) assms(3)] show ?thesis by auto
qed

text \<open>C36: without storage faults, and while segment ordinals last, a valid event is recorded:
  the call gives the stamped and sanitized event back, and the recorder stays intact with the
  entry behind what retention keeps of the log.\<close>

theorem record_without_faults:
  assumes cf: "validate_config cf = None" and ok: "intact r (wd_disk w)" and script: "wd_script w = []"
    and ordinal: "sg_ordinal (active r) \<noteq> - 1" and e: "entry cf C now input (abs_journal r) = Some x"
  shows "\<exists>r' w'. recorder_record cf C now input (r, w) = (Inr (st_event x), r', w') \<and> intact r' (wd_disk w') \<and>
    rc_records r' = retained cf (ev_time (st_event x) - cf_max_age cf) (rc_records r @ [x]) \<and> rc_next r' = rc_next r + 1"
proof -
  obtain b u where bu: "retention_decision cf (rc_records r @ [x]) (rc_bytes r + data_size x) (ev_time (st_event x)) = (b, u)" by fastforce
  obtain r1 w1 where run: "persist cf (st_data x) (rc_records r @ [x]) b (r, w) = (None, r1, w1)"
    using persist_works [OF ok ordinal script, of cf x b] by (metis fst_conv prod_cases3)
  let ?r = "update_usage cf ((retain b (rc_records r @ [x]) u r1)\<lparr>rc_next := ev_sequence (st_event x), rc_report_at := ev_time (st_event x)\<rparr>)"
  have rec: "recorder_record cf C now input (r, w) = (Inr (st_event x), ?r, w1)"
    unfolding normalize_entry e option.case bu Let_def prod.case run using intactD(1,2) [OF ok] by simp
  have f: "follows cf C (Note now input) r (?r, w1)" using record_follows [OF ok cf, of C now input] unfolding rec by simp
  have "appended (frame r (wd_disk w)) (drop b (rc_records r @ [x])) r1 (wd_disk w1)"
    using achievesD [OF persist_achieves intactD(3) [OF ok] run] by simp
  then have "he_writable (rc_health r1)" using frame_fields frame_of_appended intactD(1) [OF ok] by metis
  then have "intact ?r (wd_disk w1)" "abs_journal ?r = journal_step cf C (Note now input) (abs_journal r)"
    using f by (simp_all add: follows_def)
  then show ?thesis using rec e entry_some(2) [OF e] by (auto simp: abs_journal_def)
qed

section \<open>Samples\<close>

text \<open>
  The recorder's properties at work on a small log: three events are recorded under a limit of
  two, so that the third one trims the log, with and without a storage fault in the trim.
\<close>

definition sample_config :: config where
  "sample_config = \<lparr>cf_directory = ''d'', cf_max_events = 2, cf_max_bytes = 1024, cf_max_age = 100, cf_max_detail = 1024,
     cf_max_snapshot = 1024, cf_max_report = 1024\<rparr>"

definition sample_event :: "64 word \<Rightarrow> int \<Rightarrow> event" where
  "sample_event n t = \<lparr>ev_version = 1, ev_sequence = n, ev_time = t, ev_level = ''info'', ev_kind = ''diagnostic'', ev_plugin = [],
     ev_component = [], ev_action = [], ev_correlation = [], ev_message = ''m'', ev_details = None, ev_details_truncated = False,
     ev_snapshot = None, ev_screenshot = None\<rparr>"

definition sample_codec :: codec where
  "sample_codec = \<lparr>cd_marshal = (\<lambda>e. if e = sample_event 1 5 then Some ''a'' else if e = sample_event 2 6 then Some ''b''
        else if e = sample_event 3 7 then Some ''c'' else None),
     cd_unmarshal = (\<lambda>s. if s = ''a'' then Some (sample_event 1 5) else if s = ''b'' then Some (sample_event 2 6)
        else if s = ''c'' then Some (sample_event 3 7) else None),
     cd_details = (\<lambda>ms. []), cd_redact = id, cd_sensitive = (\<lambda>k. False), cd_unicode = ascii_tables\<rparr>"

definition sample_ops :: "journal_op list" where
  "sample_ops = [Note 5 (sample_event 0 0), Note 6 (sample_event 0 0), Note 7 (sample_event 0 0), Sweep 8]"

definition fresh_state :: state where
  "fresh_state = (fresh_recorder sample_config 1, fresh_world)"

definition faulty_state :: state where
  "faulty_state = (fresh_recorder sample_config 1, fresh_world\<lparr>wd_script := replicate 9 Completes @ [FailsAfter]\<rparr>)"

lemma sample_valid: "validate_config sample_config = None"
  by (simp add: validate_config_def sample_config_def)

lemma sample_states:
  "intact (fst fresh_state) (wd_disk (snd fresh_state))" "intact (fst faulty_state) (wd_disk (snd faulty_state))"
  using fresh_intact by (simp_all add: fresh_state_def faulty_state_def)

lemma sample_writable: "he_writable (rc_health (fst (run_log sample_config sample_codec sample_ops fresh_state)))"
  by code_simp

theorem recorder_follows_journal_witness:
  "let r' = fst (run_log sample_config sample_codec sample_ops fresh_state) in
   abs_journal r' = journal_run sample_config sample_codec sample_ops (abs_journal (fst fresh_state))"
proof -
  obtain r w where s: "fresh_state = (r, w)" by fastforce
  obtain r' w' where run: "run_log sample_config sample_codec sample_ops (r, w) = (r', w')" by fastforce
  have "intact r (wd_disk w)" "he_writable (rc_health r')"
    using sample_states(1) sample_writable unfolding s run by simp_all
  from recorder_follows_journal [OF sample_valid this(1) run this(2)] show ?thesis unfolding s run by (simp add: Let_def)
qed

lemma sample_readable:
  "\<forall>x \<in> set (rc_records (fst faulty_state)) \<union> set (journal_entries sample_config sample_codec sample_ops (abs_journal (fst faulty_state))).
     readable sample_config sample_codec x"
  by code_simp

lemma sample_breaks: "\<not> he_writable (rc_health (fst (run_log sample_config sample_codec sample_ops faulty_state)))"
  by code_simp

theorem reopened_log_recovers_witness:
  "\<exists>r'' w''. open_recorder sample_config sample_codec 9
     \<lparr>wd_disk = wd_disk (snd (run_log sample_config sample_codec sample_ops faulty_state)), wd_script = []\<rparr> = (Inr r'', w'') \<and>
     intact r'' (wd_disk w'')"
proof -
  obtain r w where s: "faulty_state = (r, w)" by fastforce
  obtain r' w' where run: "run_log sample_config sample_codec sample_ops (r, w) = (r', w')" by fastforce
  have "intact r (wd_disk w)" using sample_states(2) unfolding s by simp
  from reopened_log_recovers [OF sample_valid this run, of 9] sample_readable show ?thesis unfolding s run fst_conv snd_conv by blast
qed

theorem record_without_faults_witness:
  "\<exists>r' w'. recorder_record sample_config sample_codec 5 (sample_event 0 0) fresh_state = (Inr (sample_event 1 5), r', w') \<and>
     intact r' (wd_disk w')"
proof -
  obtain r w where s: "fresh_state = (r, w)" by fastforce
  have "wd_script (snd fresh_state) = []" "sg_ordinal (active (fst fresh_state)) \<noteq> - 1"
    "entry sample_config sample_codec 5 (sample_event 0 0) (abs_journal (fst fresh_state)) = Some \<lparr>st_event = sample_event 1 5, st_data = ''a'' @ newline\<rparr>"
    by code_simp+
  then have e: "wd_script w = []" "sg_ordinal (active r) \<noteq> - 1"
    "entry sample_config sample_codec 5 (sample_event 0 0) (abs_journal r) = Some \<lparr>st_event = sample_event 1 5, st_data = ''a'' @ newline\<rparr>"
    unfolding s by simp_all
  have "intact r (wd_disk w)" using sample_states(1) unfolding s by simp
  from record_without_faults [OF sample_valid this e] show ?thesis unfolding s by auto
qed

theorem retention_keeps_longest_witness:
  "retention_decision sample_config
     [\<lparr>st_event = sample_event 1 5, st_data = ''a''\<rparr>, \<lparr>st_event = sample_event 2 6, st_data = ''b''\<rparr>, \<lparr>st_event = sample_event 3 7, st_data = ''c''\<rparr>]
     3 7 = (1, 2) \<and>
   retained sample_config (- 93)
     [\<lparr>st_event = sample_event 1 5, st_data = ''a''\<rparr>, \<lparr>st_event = sample_event 2 6, st_data = ''b''\<rparr>, \<lparr>st_event = sample_event 3 7, st_data = ''c''\<rparr>] =
     [\<lparr>st_event = sample_event 2 6, st_data = ''b''\<rparr>, \<lparr>st_event = sample_event 3 7, st_data = ''c''\<rparr>]"
proof -
  let ?xs = "[\<lparr>st_event = sample_event 1 5, st_data = ''a''\<rparr>, \<lparr>st_event = sample_event 2 6, st_data = ''b''\<rparr>, \<lparr>st_event = sample_event 3 7, st_data = ''c''\<rparr>]"
  have "in_order ?xs" by (simp add: in_order_def sample_event_def)
  from retention_keeps_longest [OF sample_valid this, of 7]
  have "drop (fst (retention_decision sample_config ?xs 3 7)) ?xs = retained sample_config (- 93) ?xs"
    by (simp add: sizes_def data_size_def sample_config_def split_def)
  moreover have "retention_decision sample_config ?xs 3 7 = (1, 2)" by code_simp
  ultimately show ?thesis by simp
qed

end
