(* ===== verification/StatusHub.thy ===== *)
theory StatusHub
  imports GoStrings Prelude "HOL-Library.AList" "HOL-Library.Word"
begin

text \<open>
  The status hub of a service (runtime/servicehost/status.go): one current status with a
  revision, and watchers that see every change or are cut off.

  A watcher's channel holds at most one status; a closed channel still gives the status it
  holds.  The hub forgets a watcher when it closes the watcher's channel; the channel itself
  stays with the stream that reads it, so the channels are kept apart from the registered
  watchers.  The random epoch is an argument.
\<close>

type_synonym health_state = "8 word"

definition health_starting :: health_state where "health_starting = 1"
definition health_ready :: health_state where "health_ready = 2"
definition health_draining :: health_state where "health_draining = 3"
definition health_degraded :: health_state where "health_degraded = 4"
definition health_stopping :: health_state where "health_stopping = 5"

definition max_status_detail :: nat where "max_status_detail = 1024"

record service_status =
  ss_epoch :: string
  ss_revision :: "64 word"
  ss_state :: health_state
  ss_accepting :: bool
  ss_detail :: string

record cursor =
  cu_epoch :: string
  cu_revision :: "64 word"

record status_update =
  su_status :: service_status
  su_reset :: bool

record channel =
  ch_value :: "service_status option"
  ch_closed :: bool

record status_hub =
  hb_status :: service_status
  hb_watchers :: "64 word list"
  hb_channels :: "(64 word \<times> channel) list"
  hb_next :: "64 word"
  hb_max :: int
  hb_closed :: bool

datatype hub_error = InvalidState | InvalidDetail | HubClosed | HubBackpressure

definition validate_status :: "health_state \<Rightarrow> string \<Rightarrow> hub_error option" where
  "validate_status state detail =
     (if state < health_starting \<or> state > health_stopping then Some InvalidState
      else if length detail > max_status_detail \<or> \<not> valid_utf8 detail then Some InvalidDetail
      else None)"

definition new_status_hub :: "string \<Rightarrow> health_state \<Rightarrow> bool \<Rightarrow> string \<Rightarrow> int \<Rightarrow> hub_error + status_hub" where
  "new_status_hub epoch state accepting detail max_watchers =
     (case validate_status state detail of
        Some e \<Rightarrow> Inl e
      | None \<Rightarrow> Inr \<lparr>hb_status = \<lparr>ss_epoch = epoch, ss_revision = 1, ss_state = state, ss_accepting = accepting, ss_detail = detail\<rparr>,
          hb_watchers = [], hb_channels = [], hb_next = 0, hb_max = max_watchers, hb_closed = False\<rparr>)"

text \<open>One watcher is offered the new status: \<open>select\<close> with a default.\<close>

definition offer :: "service_status \<Rightarrow> 64 word \<Rightarrow> status_hub \<Rightarrow> status_hub" where
  "offer s k h =
     (case map_of (hb_channels h) k of
        None \<Rightarrow> h
      | Some c \<Rightarrow>
          if ch_value c = None then h\<lparr>hb_channels := AList.update k (c\<lparr>ch_value := Some s\<rparr>) (hb_channels h)\<rparr>
          else h\<lparr>hb_channels := AList.update k (c\<lparr>ch_closed := True\<rparr>) (hb_channels h), hb_watchers := removeAll k (hb_watchers h)\<rparr>)"

definition hub_update :: "health_state \<Rightarrow> bool \<Rightarrow> string \<Rightarrow> status_hub \<Rightarrow> (hub_error + service_status) \<times> status_hub" where
  "hub_update state accepting detail h =
     (case validate_status state detail of
        Some e \<Rightarrow> (Inl e, h)
      | None \<Rightarrow>
          if hb_closed h then (Inl HubClosed, h)
          else if ss_state (hb_status h) = state \<and> ss_accepting (hb_status h) = accepting \<and> ss_detail (hb_status h) = detail
          then (Inr (hb_status h), h)
          else
            let s = (hb_status h)\<lparr>ss_revision := ss_revision (hb_status h) + 1, ss_state := state, ss_accepting := accepting, ss_detail := detail\<rparr>
            in (Inr s, fold (offer s) (hb_watchers h) (h\<lparr>hb_status := s\<rparr>)))"

definition hub_subscribe :: "cursor \<Rightarrow> status_hub \<Rightarrow> (hub_error + (64 word \<times> status_update option)) \<times> status_hub" where
  "hub_subscribe cu h =
     (if hb_closed h then (Inl HubClosed, h)
      else if int (length (hb_watchers h)) \<ge> hb_max h then (Inl HubBackpressure, h)
      else
        let k = hb_next h + 1 in
        (Inr (k, if cu_epoch cu \<noteq> ss_epoch (hb_status h) \<or> cu_revision cu \<noteq> ss_revision (hb_status h)
                  then Some \<lparr>su_status = hb_status h, su_reset = True\<rparr> else None),
         h\<lparr>hb_next := k, hb_watchers := List.insert k (hb_watchers h),
           hb_channels := AList.update k \<lparr>ch_value = None, ch_closed = False\<rparr> (hb_channels h)\<rparr>))"

definition close_channel :: "64 word \<Rightarrow> status_hub \<Rightarrow> status_hub" where
  "close_channel k h =
     (case map_of (hb_channels h) k of
        None \<Rightarrow> h
      | Some c \<Rightarrow> h\<lparr>hb_channels := AList.update k (c\<lparr>ch_closed := True\<rparr>) (hb_channels h), hb_watchers := removeAll k (hb_watchers h)\<rparr>)"

definition hub_unsubscribe :: "64 word \<Rightarrow> status_hub \<Rightarrow> status_hub" where
  "hub_unsubscribe k h = (if k \<in> set (hb_watchers h) then close_channel k h else h)"

definition hub_close :: "status_hub \<Rightarrow> status_hub" where
  "hub_close h = (if hb_closed h then h else fold close_channel (hb_watchers h) (h\<lparr>hb_closed := True\<rparr>))"

text \<open>The stream of a watcher (\<open>controlServer.WatchStatus\<close>): what its next receive gives.\<close>

datatype received = Waits | Ended | Received service_status

definition hub_receive :: "64 word \<Rightarrow> status_hub \<Rightarrow> received \<times> status_hub" where
  "hub_receive k h =
     (case map_of (hb_channels h) k of
        None \<Rightarrow> (Waits, h)
      | Some c \<Rightarrow>
          (case ch_value c of
             Some s \<Rightarrow> (Received s, h\<lparr>hb_channels := AList.update k (c\<lparr>ch_value := None\<rparr>) (hb_channels h)\<rparr>)
           | None \<Rightarrow> (if ch_closed c then Ended else Waits, h)))"

subsection \<open>Watching\<close>

text \<open>The hub with the streams that watch it: each stream's sent statuses, newest first, with
  the status its cursor named first when it matched.  \<open>history\<close> holds every status so far,
  newest first.\<close>

record watched =
  wa_hub :: status_hub
  wa_history :: "service_status list"
  wa_seen :: "64 word \<Rightarrow> service_status list"

datatype hub_event =
    Publish health_state bool string
  | Subscribe cursor
  | Deliver "64 word"
  | Unsubscribe "64 word"
  | Shut

definition record_status :: "status_hub \<Rightarrow> service_status list \<Rightarrow> service_status list" where
  "record_status h hist = (if hist \<noteq> [] \<and> hd hist = hb_status h then hist else hb_status h # hist)"

fun watch_step :: "hub_event \<Rightarrow> watched \<Rightarrow> watched" where
  "watch_step (Publish state accepting detail) w =
     (let (r, h) = hub_update state accepting detail (wa_hub w)
      in w\<lparr>wa_hub := h, wa_history := record_status h (wa_history w)\<rparr>)"
| "watch_step (Subscribe cu) w =
     (case hub_subscribe cu (wa_hub w) of
        (Inl e, h) \<Rightarrow> w\<lparr>wa_hub := h\<rparr>
      | (Inr (k, initial), h) \<Rightarrow>
          w\<lparr>wa_hub := h, wa_seen := (wa_seen w)(k := [case initial of None \<Rightarrow> hb_status h | Some u \<Rightarrow> su_status u])\<rparr>)"
| "watch_step (Deliver k) w =
     (case hub_receive k (wa_hub w) of
        (Received s, h) \<Rightarrow> w\<lparr>wa_hub := h, wa_seen := (wa_seen w)(k := s # wa_seen w k)\<rparr>
      | (_, h) \<Rightarrow> w\<lparr>wa_hub := h\<rparr>)"
| "watch_step (Unsubscribe k) w = w\<lparr>wa_hub := hub_unsubscribe k (wa_hub w)\<rparr>"
| "watch_step Shut w = w\<lparr>wa_hub := hub_close (wa_hub w)\<rparr>"

definition watch_start :: "status_hub \<Rightarrow> watched" where
  "watch_start h = \<lparr>wa_hub = h, wa_history = [hb_status h], wa_seen = (\<lambda>k. [])\<rparr>"

end
