(* ===== verification/StatusWatch.thy ===== *)
theory StatusWatch
  imports StatusHub
begin

text \<open>
  What a watcher of the status hub sees: a run of the hub's history without gaps, never more
  than one status behind while its stream is open.
\<close>

subsection \<open>Offering a status\<close>

definition offered :: "service_status \<Rightarrow> channel \<Rightarrow> channel" where
  "offered s c = (if ch_value c = None then c\<lparr>ch_value := Some s\<rparr> else c\<lparr>ch_closed := True\<rparr>)"

lemma offer_fields [simp]:
  "hb_status (offer s k h) = hb_status h" "hb_next (offer s k h) = hb_next h" "hb_max (offer s k h) = hb_max h"
  "hb_closed (offer s k h) = hb_closed h"
  by (auto simp: offer_def split: option.splits)

lemma offer_channel:
  "map_of (hb_channels (offer s k h)) j = (if j = k then map_option (offered s) (map_of (hb_channels h) j) else map_of (hb_channels h) j)"
  by (auto simp: offer_def offered_def update_conv' split: option.splits)

lemma offer_watchers:
  "hb_watchers (offer s k h) = (case map_of (hb_channels h) k of
     Some c \<Rightarrow> if ch_value c = None then hb_watchers h else removeAll k (hb_watchers h) | None \<Rightarrow> hb_watchers h)"
  by (auto simp: offer_def split: option.splits)

lemma fold_offer_fields [simp]:
  "hb_status (fold (offer s) ids h) = hb_status h" "hb_next (fold (offer s) ids h) = hb_next h" "hb_max (fold (offer s) ids h) = hb_max h"
  "hb_closed (fold (offer s) ids h) = hb_closed h"
  by (induction ids arbitrary: h) simp_all

lemma fold_offer_channel:
  "distinct ids \<Longrightarrow> map_of (hb_channels (fold (offer s) ids h)) j =
     (if j \<in> set ids then map_option (offered s) (map_of (hb_channels h) j) else map_of (hb_channels h) j)"
  by (induction ids arbitrary: h) (auto simp: offer_channel)

lemma fold_offer_watchers:
  "distinct ids \<Longrightarrow> j \<in> set (hb_watchers (fold (offer s) ids h)) \<longleftrightarrow>
     j \<in> set (hb_watchers h) \<and> (j \<in> set ids \<longrightarrow> (case map_of (hb_channels h) j of Some c \<Rightarrow> ch_value c = None | None \<Rightarrow> True))"
proof (induction ids arbitrary: h)
  case (Cons i ids)
  then show ?case by (cases "map_of (hb_channels h) i") (auto simp: offer_channel offer_watchers)
qed simp

lemma offer_distinct: "distinct (hb_watchers h) \<Longrightarrow> distinct (hb_watchers (fold (offer s) ids h))"
  by (induction ids arbitrary: h) (auto simp: offer_watchers distinct_removeAll split: option.split)

lemma close_channel_fields [simp]:
  "hb_status (close_channel k h) = hb_status h" "hb_next (close_channel k h) = hb_next h" "hb_closed (close_channel k h) = hb_closed h"
  by (auto simp: close_channel_def split: option.splits)

lemma close_channel_channel:
  "map_of (hb_channels (close_channel k h)) j =
     (if j = k then map_option (\<lambda>c. c\<lparr>ch_closed := True\<rparr>) (map_of (hb_channels h) j) else map_of (hb_channels h) j)"
  by (auto simp: close_channel_def update_conv' split: option.splits)

lemma close_channel_watchers: "set (hb_watchers (close_channel k h)) \<subseteq> set (hb_watchers h)"
  by (auto simp: close_channel_def split: option.splits)

lemma close_channel_distinct: "distinct (hb_watchers h) \<Longrightarrow> distinct (hb_watchers (close_channel k h))"
  by (auto simp: close_channel_def distinct_removeAll split: option.splits)

subsection \<open>The invariant\<close>

definition held :: "channel \<Rightarrow> service_status list" where
  "held c = (case ch_value c of None \<Rightarrow> [] | Some s \<Rightarrow> [s])"

definition seen_ok :: "watched \<Rightarrow> 64 word \<Rightarrow> channel \<Rightarrow> bool" where
  "seen_ok w k c \<longleftrightarrow> wa_seen w k \<noteq> [] \<and> unat k \<le> unat (hb_next (wa_hub w)) \<and>
     (\<exists>newer older. wa_history w = newer @ wa_seen w k @ older \<and> (\<exists>m. newer = m @ held c) \<and>
        (k \<in> set (hb_watchers (wa_hub w)) \<longrightarrow> newer = held c))"

lemma seen_okI:
  "wa_history w = newer @ wa_seen w k @ older \<Longrightarrow> wa_seen w k \<noteq> [] \<Longrightarrow> unat k \<le> unat (hb_next (wa_hub w)) \<Longrightarrow>
   newer = m @ held c \<Longrightarrow> (k \<in> set (hb_watchers (wa_hub w)) \<Longrightarrow> newer = held c) \<Longrightarrow> seen_ok w k c"
  unfolding seen_ok_def by blast

lemma seen_okE:
  assumes "seen_ok w k c"
  obtains newer older m where "wa_history w = newer @ wa_seen w k @ older" "wa_seen w k \<noteq> []" "unat k \<le> unat (hb_next (wa_hub w))"
    "newer = m @ held c" "k \<in> set (hb_watchers (wa_hub w)) \<Longrightarrow> newer = held c"
  using assms unfolding seen_ok_def by blast

definition watched_ok :: "watched \<Rightarrow> bool" where
  "watched_ok w \<longleftrightarrow>
     wa_history w \<noteq> [] \<and> hd (wa_history w) = hb_status (wa_hub w) \<and>
     successively (\<lambda>new old. ss_revision new = ss_revision old + 1 \<and> ss_epoch new = ss_epoch old) (wa_history w) \<and>
     distinct (hb_watchers (wa_hub w)) \<and>
     (\<forall>k \<in> set (hb_watchers (wa_hub w)). map_of (hb_channels (wa_hub w)) k \<noteq> None) \<and>
     (\<forall>k. map_of (hb_channels (wa_hub w)) k = None \<longrightarrow> wa_seen w k = []) \<and>
     (\<forall>k c. map_of (hb_channels (wa_hub w)) k = Some c \<longrightarrow> seen_ok w k c)"

lemma watched_okD:
  assumes "watched_ok w"
  shows "wa_history w \<noteq> []" "hd (wa_history w) = hb_status (wa_hub w)" "distinct (hb_watchers (wa_hub w))"
    "successively (\<lambda>new old. ss_revision new = ss_revision old + 1 \<and> ss_epoch new = ss_epoch old) (wa_history w)"
    "k \<in> set (hb_watchers (wa_hub w)) \<Longrightarrow> \<exists>c. map_of (hb_channels (wa_hub w)) k = Some c"
    "map_of (hb_channels (wa_hub w)) k = Some c \<Longrightarrow> seen_ok w k c"
    "map_of (hb_channels (wa_hub w)) k = None \<Longrightarrow> wa_seen w k = []"
  using assms by (auto simp: watched_ok_def)

lemma publish_ok:
  assumes ok: "watched_ok w"
  shows "watched_ok (watch_step (Publish state accepting detail) w)"
proof -
  let ?h = "wa_hub w"
  note d = watched_okD [OF ok]
  have same: "record_status ?h (wa_history w) = wa_history w" using d(1,2) by (simp add: record_status_def)
  define s where "s = (hb_status ?h)\<lparr>ss_revision := ss_revision (hb_status ?h) + 1, ss_state := state, ss_accepting := accepting, ss_detail := detail\<rparr>"
  define h where "h = fold (offer s) (hb_watchers ?h) (?h\<lparr>hb_status := s\<rparr>)"
  have cases: "snd (hub_update state accepting detail ?h) = ?h \<or> snd (hub_update state accepting detail ?h) = h"
    by (auto simp: hub_update_def h_def s_def Let_def split: option.split)
  show ?thesis
  proof (cases "snd (hub_update state accepting detail ?h) = ?h")
    case True
    then show ?thesis using ok same by (simp add: split_def)
  next
    case False
    then have upd: "snd (hub_update state accepting detail ?h) = h" using cases by simp
    have "s \<noteq> hb_status ?h"
    proof
      assume "s = hb_status ?h"
      then have "ss_revision (hb_status ?h) + 1 = ss_revision (hb_status ?h)" unfolding s_def by (metis service_status.select_convs(2) service_status.surjective service_status.update_convs(1-5))
      then show False by simp
    qed
    then have hist: "record_status h (wa_history w) = s # wa_history w"
      using d(1,2) by (auto simp: record_status_def h_def)
    let ?w = "w\<lparr>wa_hub := h, wa_history := s # wa_history w\<rparr>"
    have ch: "map_of (hb_channels h) k = (if k \<in> set (hb_watchers ?h) then map_option (offered s) (map_of (hb_channels ?h) k) else map_of (hb_channels ?h) k)" for k
      using fold_offer_channel [OF d(3), of s "?h\<lparr>hb_status := s\<rparr>" k] by (simp add: h_def)
    have wat: "k \<in> set (hb_watchers h) \<longleftrightarrow> k \<in> set (hb_watchers ?h) \<and> (case map_of (hb_channels ?h) k of Some c \<Rightarrow> ch_value c = None | None \<Rightarrow> True)" for k
      using fold_offer_watchers [OF d(3), of k s "?h\<lparr>hb_status := s\<rparr>"] unfolding h_def by auto
    have "seen_ok ?w k c" if c: "map_of (hb_channels h) k = Some c" for k c
    proof -
      obtain c0 where c0: "map_of (hb_channels ?h) k = Some c0" "c = (if k \<in> set (hb_watchers ?h) then offered s c0 else c0)"
        using c ch [of k] by (auto split: if_splits)
      obtain newer older m where n: "wa_history w = newer @ wa_seen w k @ older" "wa_seen w k \<noteq> []" "unat k \<le> unat (hb_next ?h)"
        "newer = m @ held c0" "k \<in> set (hb_watchers ?h) \<Longrightarrow> newer = held c0"
        using seen_okE [OF d(6) [OF c0(1)]] by blast
      have "\<exists>m. s # newer = m @ held c" using n(4,5) c0(2) by (cases "ch_value c0") (auto simp: offered_def held_def)
      then obtain m' where m': "s # newer = m' @ held c" by blast
      have "s # newer = held c" if "k \<in> set (hb_watchers h)"
        using that n(5) c0 wat [of k] by (auto simp: offered_def held_def)
      then show ?thesis using n m' by (intro seen_okI [of _ "s # newer" _ older m']) (simp_all add: h_def)
    qed
    moreover have "distinct (hb_watchers h)" unfolding h_def by (rule offer_distinct) (use d(3) in simp)
    moreover have "hb_status h = s" by (simp add: h_def)
    moreover have "successively (\<lambda>new old. ss_revision new = ss_revision old + 1 \<and> ss_epoch new = ss_epoch old) (s # wa_history w)"
      using d(1,2,4) by (cases "wa_history w") (auto simp: s_def)
    ultimately have "watched_ok ?w"
      using d(5,7) ch wat by (auto simp: watched_ok_def split: if_splits)
    then show ?thesis using upd hist by (simp add: split_def)
  qed
qed

text \<open>Closing channels takes nothing from a stream but its future.\<close>

lemma closing_ok:
  assumes ok: "watched_ok w" and status: "hb_status h = hb_status (wa_hub w)" "hb_next h = hb_next (wa_hub w)"
    and ch: "\<And>k. map_option ch_value (map_of (hb_channels h) k) = map_option ch_value (map_of (hb_channels (wa_hub w)) k)"
    and sub: "set (hb_watchers h) \<subseteq> set (hb_watchers (wa_hub w))" and dist: "distinct (hb_watchers h)"
  shows "watched_ok (w\<lparr>wa_hub := h\<rparr>)"
proof -
  note d = watched_okD [OF ok]
  have none: "map_of (hb_channels h) k = None \<longleftrightarrow> map_of (hb_channels (wa_hub w)) k = None" for k
    using ch [of k] by (metis option.map_disc_iff)
  have "seen_ok (w\<lparr>wa_hub := h\<rparr>) k c" if c: "map_of (hb_channels h) k = Some c" for k c
  proof -
    obtain c0 where c0: "map_of (hb_channels (wa_hub w)) k = Some c0" "ch_value c0 = ch_value c"
      using ch [of k] c by (cases "map_of (hb_channels (wa_hub w)) k") auto
    then have "held c0 = held c" by (simp add: held_def)
    then show ?thesis using d(6) [OF c0(1)] sub status unfolding seen_ok_def by auto
  qed
  then show ?thesis using d(1-5,7) status dist sub none by (auto simp: watched_ok_def)
qed

lemma fold_close:
  "hb_status (fold close_channel ks h) = hb_status h \<and> hb_next (fold close_channel ks h) = hb_next h \<and>
   map_option ch_value (map_of (hb_channels (fold close_channel ks h)) k) = map_option ch_value (map_of (hb_channels h) k) \<and>
   set (hb_watchers (fold close_channel ks h)) \<subseteq> set (hb_watchers h) \<and>
   (distinct (hb_watchers h) \<longrightarrow> distinct (hb_watchers (fold close_channel ks h)))"
proof (induction ks arbitrary: h)
  case (Cons i ks)
  have "map_option ch_value (map_of (hb_channels (close_channel i h)) k) = map_option ch_value (map_of (hb_channels h) k)"
    by (simp add: close_channel_channel option.map_comp comp_def)
  then show ?case using Cons [of "close_channel i h"] close_channel_watchers [of i h] close_channel_distinct [of h i] by auto
qed simp

lemma unsubscribe_ok: "watched_ok w \<Longrightarrow> watched_ok (watch_step (Unsubscribe k) w)"
  using closing_ok [of w "close_channel k (wa_hub w)"] fold_close [of "[k]" "wa_hub w"] watched_okD(3) [of w]
  by (auto simp: hub_unsubscribe_def)

lemma shut_ok: "watched_ok w \<Longrightarrow> watched_ok (watch_step Shut w)"
  using closing_ok [of w "hub_close (wa_hub w)"] fold_close [of "hb_watchers (wa_hub w)" "(wa_hub w)\<lparr>hb_closed := True\<rparr>"] watched_okD(3) [of w]
  by (auto simp: hub_close_def)

lemma deliver_ok:
  assumes ok: "watched_ok w"
  shows "watched_ok (watch_step (Deliver k) w)"
proof -
  note d = watched_okD [OF ok]
  show ?thesis
  proof (cases "\<exists>c s. map_of (hb_channels (wa_hub w)) k = Some c \<and> ch_value c = Some s")
    case False
    then have "\<exists>r. hub_receive k (wa_hub w) = (r, wa_hub w) \<and> (r = Waits \<or> r = Ended)"
      by (auto simp: hub_receive_def split: option.split)
    then show ?thesis using ok by auto
  next
    case True
    then obtain c s where c: "map_of (hb_channels (wa_hub w)) k = Some c" "ch_value c = Some s" by blast
    let ?h = "(wa_hub w)\<lparr>hb_channels := AList.update k (c\<lparr>ch_value := None\<rparr>) (hb_channels (wa_hub w))\<rparr>"
    let ?w = "w\<lparr>wa_hub := ?h, wa_seen := (wa_seen w)(k := s # wa_seen w k)\<rparr>"
    have step: "watch_step (Deliver k) w = ?w" using c by (simp add: hub_receive_def)
    have held: "held c = [s]" "held (c\<lparr>ch_value := None\<rparr>) = []" using c(2) by (simp_all add: held_def)
    obtain newer older m where n: "wa_history w = newer @ wa_seen w k @ older" "wa_seen w k \<noteq> []" "unat k \<le> unat (hb_next (wa_hub w))"
      "newer = m @ held c" "k \<in> set (hb_watchers (wa_hub w)) \<Longrightarrow> newer = held c"
      using seen_okE [OF d(6) [OF c(1)]] by blast
    have "seen_ok ?w k (c\<lparr>ch_value := None\<rparr>)"
      by (rule seen_okI [of _ m _ older m]) (use n held in auto)
    moreover have "seen_ok ?w j c'" if "j \<noteq> k" "map_of (hb_channels (wa_hub w)) j = Some c'" for j c'
      using d(6) [OF that(2)] that(1) by (simp add: seen_ok_def)
    ultimately show ?thesis unfolding step watched_ok_def using d(1-5,7) by (auto simp: update_conv' split: if_splits)
  qed
qed

lemma subscribe_ok:
  assumes ok: "watched_ok w" and small: "unat (hb_next (wa_hub w)) < 2 ^ 64 - 1"
  shows "watched_ok (watch_step (Subscribe cu) w)"
proof -
  note d = watched_okD [OF ok]
  let ?h = "wa_hub w"
  show ?thesis
  proof (cases "hb_closed ?h \<or> hb_max ?h \<le> int (length (hb_watchers ?h))")
    case True
    then have "\<exists>e. hub_subscribe cu ?h = (Inl e, ?h)" by (auto simp: hub_subscribe_def)
    then show ?thesis using ok by auto
  next
    case False
    let ?k = "hb_next ?h + 1" and ?c = "\<lparr>ch_value = None, ch_closed = False\<rparr>"
    let ?h' = "?h\<lparr>hb_next := ?k, hb_watchers := List.insert ?k (hb_watchers ?h), hb_channels := AList.update ?k ?c (hb_channels ?h)\<rparr>"
    let ?w = "w\<lparr>wa_hub := ?h', wa_seen := (wa_seen w)(?k := [hb_status ?h])\<rparr>"
    have step: "watch_step (Subscribe cu) w = ?w" using False by (auto simp: hub_subscribe_def Let_def)
    have next': "unat ?k = Suc (unat (hb_next ?h))"
    proof -
      have "1 + hb_next ?h \<noteq> 0"
      proof
        assume "1 + hb_next ?h = 0"
        then have "hb_next ?h = - 1" by (metis add.commute eq_neg_iff_add_eq_0)
        moreover have "unat (- 1 :: 64 word) = 2 ^ 64 - 1" by (simp add: unsigned_minus_1_eq_mask mask_eq_exp_minus_1)
        ultimately show False using small by simp
      qed
      then show ?thesis using unatSuc [of "hb_next ?h"] by (simp add: add.commute)
    qed
    obtain older where older: "wa_history w = [hb_status ?h] @ older" using d(1,2) by (cases "wa_history w") auto
    have "seen_ok ?w ?k ?c" by (rule seen_okI [of _ "[]" _ older "[]"]) (use older in \<open>simp_all add: held_def\<close>)
    moreover have "seen_ok ?w j c" if "j \<noteq> ?k" "map_of (hb_channels ?h) j = Some c" for j c
      using d(6) [OF that(2)] that(1) next' by (auto simp: seen_ok_def)
    ultimately show ?thesis unfolding step watched_ok_def using d(1-5,7) by (auto simp: update_conv' split: if_splits)
  qed
qed

lemma hub_next_step: "unat (hb_next (wa_hub (watch_step e w))) \<le> Suc (unat (hb_next (wa_hub w)))"
proof -
  have "unat (n + 1) \<le> Suc (unat n)" for n :: "64 word"
    by (cases "1 + n = 0") (auto simp: add.commute unatSuc)
  moreover have "hb_next (snd (hub_update a b c h)) = hb_next h" for a b c h
    by (auto simp: hub_update_def Let_def split: option.split)
  moreover have "hb_next (snd (hub_receive k h)) = hb_next h" for k h
    by (auto simp: hub_receive_def split: option.split)
  moreover have "hb_next (hub_close h) = hb_next h" for h
    using fold_close [of "hb_watchers h" "h\<lparr>hb_closed := True\<rparr>"] by (simp add: hub_close_def)
  ultimately show ?thesis
    by (cases e) (auto simp: split_def hub_subscribe_def hub_unsubscribe_def Let_def split: sum.split received.split)
qed

lemma watch_run_ok:
  "watched_ok w \<Longrightarrow> unat (hb_next (wa_hub w)) + length es < 2 ^ 64 \<Longrightarrow> watched_ok (fold watch_step es w)"
proof (induction es arbitrary: w)
  case (Cons e es)
  have "watched_ok (watch_step e w)"
    using Cons.prems by (cases e) (simp_all only: publish_ok subscribe_ok deliver_ok unsubscribe_ok shut_ok list.size)
  moreover have "unat (hb_next (wa_hub (watch_step e w))) + length es < 2 ^ 64" using hub_next_step [of e w] Cons.prems(2) by simp
  ultimately show ?case using Cons.IH by simp
qed simp

lemma new_hub_ok: "new_status_hub epoch state accepting detail n = Inr h \<Longrightarrow> watched_ok (watch_start h) \<and> hb_next h = 0"
  by (auto simp: new_status_hub_def watched_ok_def watch_start_def split: option.splits)

text \<open>C7: what a watcher has been sent is a run of the hub's statuses without a gap, each with
  the next revision of the same epoch, and a stream that is still open is at most one status
  behind.\<close>

theorem watchers_see_no_gaps:
  assumes "new_status_hub epoch state accepting detail n = Inr h" and "length es < 2 ^ 64"
    and "w = fold watch_step es (watch_start h)" and "wa_seen w k \<noteq> []"
  shows "\<exists>newer older. wa_history w = newer @ wa_seen w k @ older \<and>
    successively (\<lambda>new old. ss_revision new = ss_revision old + 1 \<and> ss_epoch new = ss_epoch old) (wa_seen w k) \<and>
    (k \<in> set (hb_watchers (wa_hub w)) \<longrightarrow> length newer \<le> 1)"
proof -
  have "watched_ok w" unfolding assms(3) using watch_run_ok [of "watch_start h" es] new_hub_ok [OF assms(1)] assms(2)
    by (simp add: watch_start_def)
  note d = watched_okD [OF this]
  obtain c where c: "map_of (hb_channels (wa_hub w)) k = Some c" using d(7) assms(4) by (cases "map_of (hb_channels (wa_hub w)) k") auto
  obtain newer older m where n: "wa_history w = newer @ wa_seen w k @ older" "k \<in> set (hb_watchers (wa_hub w)) \<Longrightarrow> newer = held c"
    using seen_okE [OF d(6) [OF c]] by blast
  have "successively (\<lambda>new old. ss_revision new = ss_revision old + 1 \<and> ss_epoch new = ss_epoch old) (wa_seen w k)"
    using d(4) unfolding n(1) by (simp add: successively_append_iff)
  moreover have "k \<in> set (hb_watchers (wa_hub w)) \<longrightarrow> length newer \<le> 1" using n(2) by (auto simp: held_def split: option.split)
  ultimately show ?thesis using n(1) by blast
qed

theorem watchers_see_no_gaps_witness:
  "let h = \<lparr>hb_status = \<lparr>ss_epoch = ''e'', ss_revision = 1, ss_state = health_ready, ss_accepting = True, ss_detail = []\<rparr>,
         hb_watchers = [], hb_channels = [], hb_next = 0, hb_max = 4, hb_closed = False\<rparr>;
       es = [Subscribe \<lparr>cu_epoch = ''e'', cu_revision = 1\<rparr>, Publish health_draining False [], Deliver 1, Publish health_ready True []];
       w = fold watch_step es (watch_start h)
   in map ss_revision (wa_seen w 1) = [2, 1] \<and>
     (\<exists>newer older. wa_history w = newer @ wa_seen w 1 @ older \<and> length newer \<le> 1)"
proof -
  let ?h = "\<lparr>hb_status = \<lparr>ss_epoch = ''e'', ss_revision = 1, ss_state = health_ready, ss_accepting = True, ss_detail = []\<rparr>,
         hb_watchers = [], hb_channels = [], hb_next = 0, hb_max = 4, hb_closed = False\<rparr>"
  let ?es = "[Subscribe \<lparr>cu_epoch = ''e'', cu_revision = 1\<rparr>, Publish health_draining False [], Deliver 1, Publish health_ready True []]"
  have new: "new_status_hub ''e'' health_ready True [] 4 = Inr ?h" by code_simp
  have seen: "map ss_revision (wa_seen (fold watch_step ?es (watch_start ?h)) 1) = [2, 1]"
    "1 \<in> set (hb_watchers (wa_hub (fold watch_step ?es (watch_start ?h))))" by code_simp+
  then have "wa_seen (fold watch_step ?es (watch_start ?h)) 1 \<noteq> []" by fastforce
  from watchers_see_no_gaps [OF new _ refl this] show ?thesis using seen by (auto simp: Let_def)
qed

end
