(* ===== verification/GoPaths.thy ===== *)
theory GoPaths
  imports GoStrings
begin

text \<open>
  The functions of Go's \<open>path/filepath\<close> the kit uses, on Unix: \<open>Clean\<close>, \<open>Base\<close>, \<open>Dir\<close>, \<open>Join\<close>,
  \<open>Rel\<close> and \<open>IsAbs\<close>, and the kit's clean absolute paths (\<open>cleanAbsolute\<close> in
  runtime/servicehost/socket.go).
\<close>

abbreviation slash :: char where "slash \<equiv> CHR ''/''"

text \<open>\<open>strings.Split\<close> by one character.\<close>

fun split_on :: "char \<Rightarrow> string \<Rightarrow> string list" where
  "split_on c [] = [[]]"
| "split_on c (x # xs) = (case split_on c xs of [] \<Rightarrow> [] | y # ys \<Rightarrow> if x = c then [] # y # ys else (x # y) # ys)"

lemma split_on_ne [simp]: "split_on c s \<noteq> []"
  by (induction s) (auto split: list.split)

lemma join_split_on: "join [c] (split_on c s) = s"
proof (induction s)
  case (Cons x xs)
  obtain y ys where y: "split_on c xs = y # ys" by (cases "split_on c xs") auto
  show ?case using Cons.IH y by (cases ys) auto
qed simp

definition is_abs :: "string \<Rightarrow> bool" where "is_abs p \<longleftrightarrow> p \<noteq> [] \<and> hd p = slash"

text \<open>\<open>Clean\<close> keeps the cleaned elements, last first.\<close>

definition clean_element :: "bool \<Rightarrow> string \<Rightarrow> string list \<Rightarrow> string list" where
  "clean_element rooted x acc =
     (if x = [] \<or> x = ''.'' then acc
      else if x = ''..'' then
        (if acc = [] then if rooted then [] else [''..'']
         else if hd acc = ''..'' then ''..'' # acc else tl acc)
      else x # acc)"

definition path_clean :: "string \<Rightarrow> string" where
  "path_clean p =
     (let out = rev (fold (clean_element (is_abs p)) (split_on slash p) [])
      in if is_abs p then slash # join [slash] out else if out = [] then ''.'' else join [slash] out)"

definition path_base :: "string \<Rightarrow> string" where
  "path_base p =
     (if p = [] then ''.''
      else let q = dropWhile (\<lambda>c. c = slash) (rev p)
           in if q = [] then [slash] else rev (takeWhile (\<lambda>c. c \<noteq> slash) q))"

definition path_dir :: "string \<Rightarrow> string" where
  "path_dir p = path_clean (rev (dropWhile (\<lambda>c. c \<noteq> slash) (rev p)))"

definition path_join :: "string list \<Rightarrow> string" where
  "path_join ps = (let ps' = dropWhile (\<lambda>p. p = []) ps in if ps' = [] then [] else path_clean (join [slash] ps'))"

definition path_elements :: "string \<Rightarrow> string list" where
  "path_elements p = filter (\<lambda>x. x \<noteq> [] \<and> x \<noteq> ''.'') (split_on slash (path_clean p))"

fun drop_common :: "string list \<Rightarrow> string list \<Rightarrow> string list \<times> string list" where
  "drop_common (x # xs) (y # ys) = (if x = y then drop_common xs ys else (x # xs, y # ys))"
| "drop_common xs ys = (xs, ys)"

text \<open>\<open>Rel\<close> has no answer from an absolute path to a relative one, or up from a \<open>..\<close>.\<close>

definition path_rel :: "string \<Rightarrow> string \<Rightarrow> string option" where
  "path_rel base targ =
     (if is_abs (path_clean base) \<noteq> is_abs (path_clean targ) then None
      else
        let (b, t) = drop_common (path_elements base) (path_elements targ)
        in if b = [] then Some (if t = [] then ''.'' else join [slash] t)
           else if hd b = ''..'' then None
           else Some (join [slash] (replicate (length b) ''..'' @ t)))"

definition clean_absolute :: "string \<Rightarrow> bool" where
  "clean_absolute p \<longleftrightarrow> p \<noteq> [] \<and> is_abs p \<and> path_clean p = p \<and> nul \<notin> set p"

text \<open>The paths from the root down to a clean absolute path, as the loops over its components
  build them.\<close>

fun path_chain :: "string \<Rightarrow> string list \<Rightarrow> string list" where
  "path_chain current [] = []"
| "path_chain current (x # xs) = path_join [current, x] # path_chain (path_join [current, x]) xs"

definition ancestors :: "string \<Rightarrow> string list" where
  "ancestors p = path_chain [slash] (split_on slash (if has_prefix [slash] p then tl p else p))"

end
