(* ===== verification/ServiceServer.thy ===== *)
theory ServiceServer
  imports StatusHub GoPaths
begin

text \<open>
  The control service (runtime/servicehost/server.go): the handshake, the status calls and the
  drain and resume of a service around its status hub.

  A drain runs in two steps, for the service's own \<open>Drain\<close> runs between them and other calls
  may come in; what the service and the context answer are arguments of the second step.  The
  gRPC transport, its interceptors and the socket are not modelled.
\<close>

datatype rpc_error =
  FailedPrecondition | InvalidArgument | Unimplemented | ResourceExhausted | ContextError | UnavailableCode | InternalCode | Aborted

record server_config =
  sc_socket :: string
  sc_protocol :: "32 word"
  sc_service :: string
  sc_service_version :: string
  sc_max_message :: int
  sc_max_rpc :: int
  sc_max_watchers :: int
  sc_rpc_timeout :: int
  sc_drain_timeout :: int
  sc_resume_timeout :: int
  sc_shutdown_timeout :: int
  sc_initial_state :: health_state
  sc_initial_accepting :: bool
  sc_initial_detail :: string
  sc_maintenance :: bool

datatype maintenance = Free | Draining service_status | Resuming

record server =
  sv_config :: server_config
  sv_hub :: status_hub
  sv_before :: "service_status option"
  sv_drained :: bool
  sv_maintenance :: maintenance

definition max_identity :: nat where "max_identity = 128"

definition valid_identity :: "string \<Rightarrow> bool" where
  "valid_identity v \<longleftrightarrow> v \<noteq> [] \<and> length v \<le> max_identity \<and> valid_utf8 v"

definition check_version :: "server \<Rightarrow> 32 word \<Rightarrow> rpc_error option" where
  "check_version s v = (if v \<noteq> sc_protocol (sv_config s) then Some FailedPrecondition else None)"

record handshake =
  hs_protocol :: "32 word"
  hs_service :: string
  hs_version :: string
  hs_cursor :: cursor

definition server_handshake :: "32 word \<Rightarrow> string \<Rightarrow> server \<Rightarrow> rpc_error + handshake" where
  "server_handshake v client s =
     (case check_version s v of
        Some e \<Rightarrow> Inl e
      | None \<Rightarrow>
          if \<not> valid_identity client then Inl InvalidArgument
          else Inr \<lparr>hs_protocol = sc_protocol (sv_config s), hs_service = sc_service (sv_config s), hs_version = sc_service_version (sv_config s),
            hs_cursor = \<lparr>cu_epoch = ss_epoch (hb_status (sv_hub s)), cu_revision = ss_revision (hb_status (sv_hub s))\<rparr>\<rparr>)"

definition server_status :: "32 word \<Rightarrow> server \<Rightarrow> rpc_error + service_status" where
  "server_status v s = (case check_version s v of Some e \<Rightarrow> Inl e | None \<Rightarrow> Inr (hb_status (sv_hub s)))"

text \<open>\<open>Server.UpdateStatus\<close>, and the hub's update inside a call.\<close>

definition server_update :: "health_state \<Rightarrow> bool \<Rightarrow> string \<Rightarrow> server \<Rightarrow> (hub_error + service_status) \<times> server" where
  "server_update state accepting detail s =
     (let (r, h) = hub_update state accepting detail (sv_hub s) in (r, s\<lparr>sv_hub := h\<rparr>))"

definition restore :: "service_status \<Rightarrow> server \<Rightarrow> (hub_error + service_status) \<times> server" where
  "restore b = server_update (ss_state b) (ss_accepting b) (ss_detail b)"

datatype drain_answer = Refused rpc_error | Answered service_status | Started

definition drain_begin :: "32 word \<Rightarrow> bool \<Rightarrow> server \<Rightarrow> drain_answer \<times> server" where
  "drain_begin v context_error s =
     (case check_version s v of
        Some e \<Rightarrow> (Refused e, s)
      | None \<Rightarrow>
          if \<not> sc_maintenance (sv_config s) then (Refused Unimplemented, s)
          else if sv_maintenance s \<noteq> Free then (Refused ResourceExhausted, s)
          else if sv_before s \<noteq> None then
            (if \<not> sv_drained s then Refused FailedPrecondition else Answered (hb_status (sv_hub s)), s)
          else if context_error then (Refused ContextError, s)
          else
            (case server_update health_draining False ''draining'' s of
               (Inl e, s') \<Rightarrow> (Refused UnavailableCode, s')
             | (Inr st, s') \<Rightarrow> (Started, s'\<lparr>sv_maintenance := Draining (hb_status (sv_hub s))\<rparr>)))"

text \<open>The service drained or not (\<open>drain_ok\<close>), its context was over or not, and when the drain
  failed it resumed or not.\<close>

definition drain_end :: "bool \<Rightarrow> bool \<Rightarrow> bool \<Rightarrow> server \<Rightarrow> (rpc_error + service_status) \<times> server" where
  "drain_end drain_ok context_error resume_ok s0 =
     (case sv_maintenance s0 of
        Draining before \<Rightarrow>
          (let s = s0\<lparr>sv_maintenance := Free\<rparr> in
           if drain_ok \<and> \<not> context_error then (Inr (hb_status (sv_hub s)), s\<lparr>sv_before := Some before, sv_drained := True\<rparr>)
           else
             let (r, s1) = (if resume_ok then restore before s else (Inl HubClosed, s)) in
             (case r of
                Inl e \<Rightarrow> (Inl InternalCode, snd (server_update health_degraded False ''drain failed and admissions could not be restored''
                    (s1\<lparr>sv_before := Some before, sv_drained := False\<rparr>)))
              | Inr st \<Rightarrow> (Inl (if context_error then ContextError else Aborted), s1)))
      | _ \<Rightarrow> (Inl InternalCode, s0))"

definition resume_begin :: "32 word \<Rightarrow> server \<Rightarrow> drain_answer \<times> server" where
  "resume_begin v s =
     (case check_version s v of
        Some e \<Rightarrow> (Refused e, s)
      | None \<Rightarrow>
          if \<not> sc_maintenance (sv_config s) then (Refused Unimplemented, s)
          else if sv_maintenance s \<noteq> Free then (Refused ResourceExhausted, s)
          else if sv_before s = None then (Answered (hb_status (sv_hub s)), s)
          else (Started, s\<lparr>sv_maintenance := Resuming\<rparr>))"

definition resume_end :: "bool \<Rightarrow> bool \<Rightarrow> server \<Rightarrow> (rpc_error + service_status) \<times> server" where
  "resume_end resume_ok context_error s0 =
     (let s = s0\<lparr>sv_maintenance := Free\<rparr> in
      if \<not> resume_ok then (Inl (if context_error then ContextError else Aborted), s)
      else case sv_before s of
          None \<Rightarrow> (Inl InternalCode, s)
        | Some before \<Rightarrow>
            (case restore before (s\<lparr>sv_before := None, sv_drained := False\<rparr>) of
               (Inl e, s') \<Rightarrow> (Inl UnavailableCode, s')
             | (Inr st, s') \<Rightarrow> (Inr st, s')))"

definition or_default :: "int \<Rightarrow> int \<Rightarrow> int" where "or_default d x = (if x = 0 then d else x)"

datatype server_config_error = BadSocketPath | MissingIdentity | BadServerBounds | BadInitialStatus hub_error

definition normalize_server_config :: "server_config \<Rightarrow> server_config_error + server_config" where
  "normalize_server_config c =
     (if \<not> clean_absolute (sc_socket c) then Inl BadSocketPath
      else if sc_protocol c = 0 \<or> \<not> valid_identity (sc_service c) \<or> \<not> valid_identity (sc_service_version c) then Inl MissingIdentity
      else
        let second = 10 ^ 9;
            d = c\<lparr>sc_max_message := or_default (2 ^ 20) (sc_max_message c), sc_max_rpc := or_default 64 (sc_max_rpc c),
                  sc_max_watchers := or_default 32 (sc_max_watchers c), sc_shutdown_timeout := or_default (5 * second) (sc_shutdown_timeout c),
                  sc_rpc_timeout := or_default (10 * second) (sc_rpc_timeout c), sc_drain_timeout := or_default (60 * second) (sc_drain_timeout c),
                  sc_resume_timeout := or_default (5 * second) (sc_resume_timeout c),
                  sc_initial_state := (if sc_initial_state c = 0 then health_starting else sc_initial_state c)\<rparr>
        in if sc_max_message d < 1 \<or> sc_max_rpc d < 1 \<or> sc_max_watchers d < 1 \<or> sc_rpc_timeout d < 1 \<or> sc_drain_timeout d < 1 \<or>
              sc_resume_timeout d < 1 \<or> sc_shutdown_timeout d < 1 then Inl BadServerBounds
           else case validate_status (sc_initial_state d) (sc_initial_detail d) of Some e \<Rightarrow> Inl (BadInitialStatus e) | None \<Rightarrow> Inr d)"

definition new_server :: "string \<Rightarrow> server_config \<Rightarrow> server_config_error + server" where
  "new_server epoch c =
     (case normalize_server_config c of
        Inl e \<Rightarrow> Inl e
      | Inr d \<Rightarrow>
          (case new_status_hub epoch (sc_initial_state d) (sc_initial_accepting d) (sc_initial_detail d) (sc_max_watchers d) of
             Inl e \<Rightarrow> Inl (BadInitialStatus e)
           | Inr h \<Rightarrow> Inr \<lparr>sv_config = d, sv_hub = h, sv_before = None, sv_drained = False, sv_maintenance = Free\<rparr>))"

subsection \<open>Maintenance\<close>

datatype maintenance_event =
    DrainBegin "32 word" bool | DrainEnd bool bool bool | ResumeBegin "32 word" | ResumeEnd bool bool

fun maintain :: "maintenance_event \<Rightarrow> server \<Rightarrow> server" where
  "maintain (DrainBegin v ctx) s = snd (drain_begin v ctx s)"
| "maintain (DrainEnd ok ctx back) s = (case sv_maintenance s of Draining b \<Rightarrow> snd (drain_end ok ctx back s) | _ \<Rightarrow> s)"
| "maintain (ResumeBegin v) s = snd (resume_begin v s)"
| "maintain (ResumeEnd ok ctx) s = (if sv_maintenance s = Resuming then snd (resume_end ok ctx s) else s)"

text \<open>What a resume goes back to: the status before the drain, while there is one.\<close>

definition admissions :: "service_status \<Rightarrow> health_state \<times> bool \<times> string" where
  "admissions st = (ss_state st, ss_accepting st, ss_detail st)"

definition restore_point :: "server \<Rightarrow> service_status" where
  "restore_point s =
     (case sv_maintenance s of Draining b \<Rightarrow> b | _ \<Rightarrow> (case sv_before s of Some b \<Rightarrow> b | None \<Rightarrow> hb_status (sv_hub s)))"

definition server_ok :: "server \<Rightarrow> bool" where
  "server_ok s \<longleftrightarrow> \<not> hb_closed (sv_hub s) \<and> validate_status (ss_state (restore_point s)) (ss_detail (restore_point s)) = None \<and>
     (sv_maintenance s = Resuming \<longrightarrow> sv_before s \<noteq> None) \<and> (\<forall>b. sv_maintenance s = Draining b \<longrightarrow> sv_before s = None) \<and>
     (sv_before s \<noteq> None \<or> sv_maintenance s \<noteq> Free \<longrightarrow> \<not> ss_accepting (hb_status (sv_hub s)))"

lemma hub_update_open:
  assumes "\<not> hb_closed h" and "validate_status state detail = None"
  shows "\<exists>st h'. hub_update state accepting detail h = (Inr st, h') \<and> hb_status h' = st \<and> admissions st = (state, accepting, detail) \<and> \<not> hb_closed h'"
proof -
  have "\<not> hb_closed (fold (offer s) ids g) \<and> hb_status (fold (offer s) ids g) = hb_status g" if "\<not> hb_closed g" for s ids g
    using that by (induction ids arbitrary: g) (auto simp: offer_def split: option.split)
  then show ?thesis using assms by (simp add: hub_update_def admissions_def Let_def)
qed

lemma server_update_open:
  assumes "\<not> hb_closed (sv_hub s)" and "validate_status state detail = None"
  shows "\<exists>st h. server_update state accepting detail s = (Inr st, s\<lparr>sv_hub := h\<rparr>) \<and> hb_status h = st \<and>
    admissions st = (state, accepting, detail) \<and> \<not> hb_closed h"
  using hub_update_open [OF assms, of accepting] by (auto simp: server_update_def)

lemma kit_statuses: "validate_status health_draining ''draining'' = None"
  "validate_status health_degraded ''drain failed and admissions could not be restored'' = None"
  by code_simp+

lemma admissions_fields: "admissions st = (a, b, c) \<Longrightarrow> ss_state st = a \<and> ss_accepting st = b \<and> ss_detail st = c"
  by (simp add: admissions_def)

lemma drain_begin_ok:
  assumes "server_ok s"
  shows "server_ok (snd (drain_begin v ctx s)) \<and> restore_point (snd (drain_begin v ctx s)) = restore_point s"
proof -
  have o: "\<not> hb_closed (sv_hub s)" using assms by (simp add: server_ok_def)
  obtain st h where u: "server_update health_draining False ''draining'' s = (Inr st, s\<lparr>sv_hub := h\<rparr>)" "hb_status h = st"
    "admissions st = (health_draining, False, ''draining'')" "\<not> hb_closed h"
    using server_update_open [OF o kit_statuses(1)] by blast
  show ?thesis
    using assms u admissions_fields [OF u(3)]
    by (cases "sv_maintenance s") (auto simp: drain_begin_def server_ok_def restore_point_def split: option.splits)
qed

lemma resume_begin_ok:
  assumes "server_ok s"
  shows "server_ok (snd (resume_begin v s)) \<and> restore_point (snd (resume_begin v s)) = restore_point s"
  using assms by (cases "sv_maintenance s") (auto simp: resume_begin_def server_ok_def restore_point_def split: option.splits)

lemma drain_end_ok:
  assumes ok: "server_ok s" and d: "sv_maintenance s = Draining b"
  shows "server_ok (snd (drain_end drained ctx back s)) \<and> admissions (restore_point (snd (drain_end drained ctx back s))) = admissions (restore_point s)"
proof -
  let ?s = "s\<lparr>sv_maintenance := Free\<rparr>"
  have f: "\<not> hb_closed (sv_hub s)" "sv_before s = None" "validate_status (ss_state b) (ss_detail b) = None" "\<not> ss_accepting (hb_status (sv_hub s))"
    using ok d by (auto simp: server_ok_def restore_point_def)
  obtain st h where u: "restore b ?s = (Inr st, ?s\<lparr>sv_hub := h\<rparr>)" "hb_status h = st" "admissions st = admissions b" "\<not> hb_closed h"
    using server_update_open [of ?s "ss_state b" "ss_detail b" "ss_accepting b"] f by (auto simp: restore_def admissions_def)
  let ?t = "?s\<lparr>sv_before := Some b, sv_drained := False\<rparr>"
  obtain st' h' where w: "server_update health_degraded False ''drain failed and admissions could not be restored'' ?t = (Inr st', ?t\<lparr>sv_hub := h'\<rparr>)"
    "hb_status h' = st'" "admissions st' = (health_degraded, False, ''drain failed and admissions could not be restored'')" "\<not> hb_closed h'"
    using server_update_open [of ?t health_degraded "''drain failed and admissions could not be restored''" False] kit_statuses(2) f by auto
  show ?thesis
    using d f u w admissions_fields [OF w(3)]
    by (auto simp: drain_end_def Let_def server_ok_def restore_point_def admissions_def)
qed

lemma resume_end_ok:
  assumes ok: "server_ok s" and d: "sv_maintenance s = Resuming"
  shows "server_ok (snd (resume_end back ctx s)) \<and> admissions (restore_point (snd (resume_end back ctx s))) = admissions (restore_point s)"
proof -
  obtain b where b: "sv_before s = Some b" using ok d by (auto simp: server_ok_def)
  have f: "\<not> hb_closed (sv_hub s)" "validate_status (ss_state b) (ss_detail b) = None" "\<not> ss_accepting (hb_status (sv_hub s))"
    using ok d b by (auto simp: server_ok_def restore_point_def)
  let ?t = "s\<lparr>sv_maintenance := Free, sv_before := None, sv_drained := False\<rparr>"
  obtain st h where u: "restore b ?t = (Inr st, ?t\<lparr>sv_hub := h\<rparr>)" "hb_status h = st" "admissions st = admissions b" "\<not> hb_closed h"
    using server_update_open [of ?t "ss_state b" "ss_detail b" "ss_accepting b"] f by (auto simp: restore_def admissions_def)
  show ?thesis
    using d b f u by (auto simp: resume_end_def Let_def server_ok_def restore_point_def admissions_def)
qed

text \<open>C37: no sequence of drains and resumes, concurrent, refused, failed or not, loses what the
  service admitted before: its health, its accepting and its detail are always what a resume
  restores, and until then the service does not accept.\<close>

theorem maintenance_preserves_admissions:
  assumes "new_server epoch c = Inr s"
  shows "let s' = fold maintain es s in
    admissions (restore_point s') = (sc_initial_state (sv_config s), sc_initial_accepting (sv_config s), sc_initial_detail (sv_config s)) \<and>
    (sv_before s' \<noteq> None \<or> sv_maintenance s' \<noteq> Free \<longrightarrow> \<not> ss_accepting (hb_status (sv_hub s')))"
proof -
  have run: "server_ok t \<Longrightarrow> server_ok (fold maintain es t) \<and> admissions (restore_point (fold maintain es t)) = admissions (restore_point t)" for t
  proof (induction es arbitrary: t)
    case (Cons e es)
    have "server_ok (maintain e t) \<and> admissions (restore_point (maintain e t)) = admissions (restore_point t)"
      using Cons.prems drain_begin_ok resume_begin_ok drain_end_ok resume_end_ok
      by (cases e) (auto split: maintenance.split)
    then show ?case using Cons.IH by simp
  qed simp
  have "server_ok s \<and> admissions (restore_point s) = (sc_initial_state (sv_config s), sc_initial_accepting (sv_config s), sc_initial_detail (sv_config s))"
    using assms by (auto simp: new_server_def new_status_hub_def server_ok_def restore_point_def admissions_def split: sum.splits option.splits)
  then show ?thesis using run [of s] by (auto simp: Let_def server_ok_def)
qed

definition sample_server_config :: server_config where
  "sample_server_config = \<lparr>sc_socket = ''/run/agent/control.sock'', sc_protocol = 3, sc_service = ''agent'', sc_service_version = ''1.2.0'',
    sc_max_message = 0, sc_max_rpc = 0, sc_max_watchers = 0, sc_rpc_timeout = 0, sc_drain_timeout = 0, sc_resume_timeout = 0,
    sc_shutdown_timeout = 0, sc_initial_state = 0, sc_initial_accepting = True, sc_initial_detail = ''boot'', sc_maintenance = True\<rparr>"

definition sample_server :: server where
  "sample_server = (case new_server ''epoch'' sample_server_config of Inr s \<Rightarrow> s)"

lemma sample_server_new: "new_server ''epoch'' sample_server_config = Inr sample_server"
  by code_simp

text \<open>A drain that is refused a second time, fails and cannot be undone, and a resume.\<close>

theorem maintenance_preserves_admissions_witness:
  "let s = fold maintain [DrainBegin 3 False, DrainBegin 3 False, DrainEnd False False False, DrainBegin 3 False] sample_server in
    admissions (restore_point s) = (health_starting, True, ''boot'') \<and> \<not> ss_accepting (hb_status (sv_hub s)) \<and>
    admissions (hb_status (sv_hub (fold maintain [ResumeBegin 3, ResumeEnd True False] s))) = (health_starting, True, ''boot'')"
proof -
  let ?es = "[DrainBegin 3 False, DrainBegin 3 False, DrainEnd False False False, DrainBegin 3 False]"
  have c: "sc_initial_state (sv_config sample_server) = health_starting" "sc_initial_accepting (sv_config sample_server)"
    "sc_initial_detail (sv_config sample_server) = ''boot''" "sv_before (fold maintain ?es sample_server) \<noteq> None"
    "admissions (hb_status (sv_hub (fold maintain [ResumeBegin 3, ResumeEnd True False] (fold maintain ?es sample_server)))) = (health_starting, True, ''boot'')"
    by code_simp+
  show ?thesis
    using maintenance_preserves_admissions [OF sample_server_new, of ?es] c unfolding Let_def by (simp del: fold_simps)
qed

end
