(* ===== verification/Steps.thy ===== *)
theory Steps
  imports Main
begin

text \<open>
  Operations of Go that return an error or a value and change a state: \<open>attempt\<close> is a call with
  its \<open>if err != nil\<close>, \<open>seq\<close> the one that returns the error as it is.
\<close>

type_synonym ('s, 'e, 'a) step = "'s \<Rightarrow> ('e + 'a) \<times> 's"

definition succeed :: "'a \<Rightarrow> ('s, 'e, 'a) step" where "succeed x w = (Inr x, w)"
definition fail :: "'e \<Rightarrow> ('s, 'e, 'a) step" where "fail e w = (Inl e, w)"

text \<open>\<open>x, err := m; if err != nil { H }; K\<close>.\<close>

definition attempt :: "('s, 'e, 'a) step \<Rightarrow> ('e \<Rightarrow> 's \<Rightarrow> 'r \<times> 's) \<Rightarrow> ('a \<Rightarrow> 's \<Rightarrow> 'r \<times> 's) \<Rightarrow> 's \<Rightarrow> 'r \<times> 's" where
  "attempt m H K w = (case m w of (Inl e, w') \<Rightarrow> H e w' | (Inr x, w') \<Rightarrow> K x w')"

abbreviation seq :: "('s, 'e, 'a) step \<Rightarrow> ('a \<Rightarrow> ('s, 'e, 'b) step) \<Rightarrow> ('s, 'e, 'b) step" where
  "seq m K \<equiv> attempt m fail K"

text \<open>Go's \<open>defer\<close> of a call whose error is dropped.\<close>

definition ensuring :: "('s \<Rightarrow> 'r \<times> 's) \<Rightarrow> ('s, 'e, 'b) step \<Rightarrow> 's \<Rightarrow> 'r \<times> 's" where
  "ensuring m d w = (let (r, w') = m w in (r, snd (d w')))"

fun each :: "('a \<Rightarrow> ('s, 'e, unit) step) \<Rightarrow> 'a list \<Rightarrow> ('s, 'e, unit) step" where
  "each f [] = succeed ()"
| "each f (x # xs) = seq (f x) (\<lambda>_. each f xs)"

end
