(* ===== verification/SessionHost.thy ===== *)
theory SessionHost
  imports GoPaths Identifiers Steps
begin

text \<open>
  Running Herdr's commands and socket calls (runtime/internal/herdrcmd, runtime/internal/herdrapi).

  What the client's runner, Herdr's socket, the system's timers and \<open>kill\<close> do is a parameter
  \<open>'w host_api\<close>, and so are the JSON decoders, over an outside state \<open>'w\<close>.  The log of a desk
  lists what was asked of them, in order; the code does not read it.
\<close>

subsection \<open>The outside\<close>

record run_output =
  ro_stdout :: string
  ro_stderr :: string
  ro_stdout_truncated :: bool
  ro_stderr_truncated :: bool

record layout_params =
  lt_workspace :: string
  lt_label :: string
  lt_focus :: bool
  lt_env :: "(string \<times> string) list"
  lt_cwd :: string
  lt_command :: "string list"

datatype api_params = LayoutApply layout_params | PaneFocus string | AgentPrompt string string

datatype effect = Ran string "string list" | Called string api_params | Signalled int

record 'w desk =
  dk_log :: "effect list"
  dk_outside :: 'w

datatype desk_error =
    StaleTarget | AmbiguousTarget | UnsupportedShell
  | StaleReport | UnsafeChange | SessionMissing | ManagedStale
  | PromptInvalid | PromptStale | PromptNotSent | PromptOutcomeUnknown | PromptNotReady
  | CallFails

text \<open>Errors joined or wrapped are lists.\<close>

type_synonym desk_errors = "desk_error list"

type_synonym ('w, 'a) io = "('w desk, desk_errors, 'a) step"

definition ask :: "effect \<Rightarrow> ('w \<Rightarrow> (desk_errors + 'a) \<times> 'w) \<Rightarrow> ('w, 'a) io" where
  "ask e f w = (let (r, v) = f (dk_outside w) in (r, \<lparr>dk_log = dk_log w @ [e], dk_outside = v\<rparr>))"

subsection \<open>Commands\<close>

definition max_json_bytes :: nat where "max_json_bytes = 1048576"

text \<open>The client's runner, or no runner; the executable is \<open>herdr\<close> unless one is named.\<close>

record 'w commander =
  cm_runner :: "(string \<Rightarrow> string list \<Rightarrow> 'w \<Rightarrow> run_output option \<times> 'w) option"
  cm_herdr :: string

definition run_result :: "run_output option \<times> 'w \<Rightarrow> (desk_errors + run_output) \<times> 'w" where
  "run_result x = ((case fst x of None \<Rightarrow> Inl [CallFails] | Some r \<Rightarrow> Inr r), snd x)"

definition herdr_run :: "('w, 'x) commander_scheme \<Rightarrow> string list \<Rightarrow> ('w, run_output) io" where
  "herdr_run c args =
     (case cm_runner c of
        None \<Rightarrow> fail [CallFails]
      | Some runner \<Rightarrow>
          let executable = (if cm_herdr c = [] then ''herdr'' else cm_herdr c) in
          seq (ask (Ran executable args) (\<lambda>v. run_result (runner executable args v))) (\<lambda>r.
            if ro_stdout_truncated r \<or> ro_stderr_truncated r then fail [CallFails] else succeed r))"

text \<open>The decoder answers only for exactly one JSON value without unknown fields.\<close>

definition run_json :: "('w, 'x) commander_scheme \<Rightarrow> (string \<Rightarrow> 'a option) \<Rightarrow> string list \<Rightarrow> ('w, 'a) io" where
  "run_json c decode args =
     seq (herdr_run c args) (\<lambda>r.
       if length (ro_stdout r) > max_json_bytes then fail [CallFails]
       else case decode (ro_stdout r) of None \<Rightarrow> fail [CallFails] | Some x \<Rightarrow> succeed x)"

definition run_empty :: "('w, 'x) commander_scheme \<Rightarrow> string list \<Rightarrow> ('w, unit) io" where
  "run_empty c args =
     seq (herdr_run c args) (\<lambda>r. if ro_stdout r \<noteq> [] \<or> ro_stderr r \<noteq> [] then fail [StaleTarget] else succeed ())"

definition session_arguments :: "string \<Rightarrow> string list \<Rightarrow> ('w, string list) io" where
  "session_arguments session args = (case session_args session args of Inl e \<Rightarrow> fail [CallFails] | Inr x \<Rightarrow> succeed x)"

section \<open>The session host\<close>

text \<open>
  Sessions, panes and processes of Herdr (runtime/sessionhost).

  The waits of \<open>waitForShell\<close> last 25ms and end with its 5s deadline, so at most 200 of them
  succeed; that is the fuel of \<open>await_shell\<close>.  Each wait may also end earlier, by \<open>sx_wait\<close>.
\<close>

subsection \<open>Data\<close>

record session =
  sn_name :: string
  sn_default :: bool
  sn_running :: bool
  sn_dir :: string
  sn_socket :: string

record workspace =
  wk_id :: string
  wk_number :: nat
  wk_label :: string
  wk_focused :: bool
  wk_panes :: nat
  wk_tabs :: nat
  wk_active_tab :: string
  wk_agent_status :: string

record origin =
  og_session :: string
  og_workspace :: string
  og_tab :: string
  og_pane :: string

datatype placement = NewTab | NewPane | OtherPlacement string

record launch_request =
  lq_origin :: origin
  lq_argv :: "string list"
  lq_directory :: string
  lq_placement :: placement
  lq_direction :: string
  lq_label :: string
  lq_focus :: bool
  lq_omp_socket :: string

record created_target =
  ct_origin :: origin
  ct_tab :: bool
  ct_direct :: bool

record foreground_process =
  fp_pid :: int
  fp_name :: string
  fp_cwd :: string
  fp_argv :: "string list"

record wire_pane =
  wn_pane :: string
  wn_workspace :: string
  wn_tab :: string
  wn_cwd :: string
  wn_focused :: bool

record process_info =
  pi_pane :: string
  pi_shell :: int
  pi_group :: int
  pi_processes :: "foreground_process list"

record layout_reply =
  ly_type :: string
  ly_workspace :: string
  ly_tab :: string
  ly_focused_pane :: string
  ly_root_type :: string
  ly_root_pane :: string
  ly_root_cwd :: string
  ly_root_command :: "string list"

text \<open>The outside of a session host: a pane or the process information that does not decode is
  \<^const>\<open>None\<close> beside the type of its reply.  A signal to a process that is gone is no error.\<close>

datatype signal_result = Signal_Sent | No_Process | Signal_Fails

record 'w session_host = "'w commander" +
  sx_session :: string
  sx_sessions :: "string \<Rightarrow> session list option"
  sx_stopped :: "string \<Rightarrow> (string \<times> string) option"
  sx_deleted :: "string \<Rightarrow> (string \<times> string \<times> string) option"
  sx_workspace :: "string \<Rightarrow> (string \<times> workspace) option"
  sx_pane :: "string \<Rightarrow> (string \<times> wire_pane option) option"
  sx_process :: "string \<Rightarrow> (string \<times> string \<times> process_info option) option"
  sx_type :: "string \<Rightarrow> string option"
  sx_layout :: "string \<Rightarrow> layout_params \<Rightarrow> 'w \<Rightarrow> layout_reply option \<times> 'w"
  sx_focus :: "string \<Rightarrow> string \<Rightarrow> 'w \<Rightarrow> (string \<times> wire_pane option) option \<times> 'w"
  sx_wait :: "'w \<Rightarrow> bool \<times> 'w"
  sx_signal :: "int \<Rightarrow> 'w \<Rightarrow> signal_result \<times> 'w"

subsection \<open>Validation\<close>

definition max_argv :: nat where "max_argv = 128"
definition max_arg_bytes :: nat where "max_arg_bytes = 4096"
definition max_command_length :: nat where "max_command_length = 65536"
definition shell_polls :: nat where "shell_polls = 200"

definition valid_directory :: "string \<Rightarrow> bool" where
  "valid_directory d \<longleftrightarrow> d \<noteq> [] \<and> length d \<le> 4096 \<and> nul \<notin> set d \<and> is_abs d \<and> path_clean d = d"

definition quote_arg :: "string \<Rightarrow> string" where
  "quote_arg arg = [CHR 0x27] @ concat (map (\<lambda>c. if c = CHR 0x27 then [CHR 0x27, CHR 0x22, CHR 0x27, CHR 0x22, CHR 0x27] else [c]) arg) @ [CHR 0x27]"

definition encode_command :: "string list \<Rightarrow> string option" where
  "encode_command argv =
     (if \<not> list_all (\<lambda>a. nul \<notin> set a) argv then None
      else let command = join [CHR '' ''] (map quote_arg argv) in
        if length command > max_command_length then None else Some command)"

definition encode_exec :: "string list \<Rightarrow> string option" where
  "encode_exec argv =
     (case encode_command argv of
        None \<Rightarrow> None
      | Some command \<Rightarrow> if length (''exec '' @ command) > max_command_length then None else Some (''exec '' @ command))"

definition control_rune :: "int \<Rightarrow> bool" where
  "control_rune r \<longleftrightarrow> r < 32 \<or> 127 \<le> r \<and> r \<le> 159"

definition valid_argv :: "string list \<Rightarrow> bool \<Rightarrow> bool" where
  "valid_argv argv terminal_delivery \<longleftrightarrow>
     argv \<noteq> [] \<and> length argv \<le> max_argv
     \<and> list_all (\<lambda>a. nul \<notin> set a \<and> valid_utf8 a \<and> length a \<le> max_arg_bytes
         \<and> (terminal_delivery \<longrightarrow> list_all (\<lambda>r. control_rune r \<longrightarrow> r = 10) (runes a))) argv
     \<and> hd argv \<noteq> [] \<and> \<not> has_prefix ''-'' (hd argv)
     \<and> (terminal_delivery \<longrightarrow> encode_exec argv \<noteq> None)"

definition valid_location :: "string \<Rightarrow> bool" where
  "valid_location x \<longleftrightarrow> x \<noteq> [] \<and> length x \<le> 256 \<and> nul \<notin> set x"

definition valid_origin :: "string \<Rightarrow> origin \<Rightarrow> bool" where
  "valid_origin session g \<longleftrightarrow>
     og_session g = session
     \<and> (session \<noteq> [] \<longrightarrow> session \<noteq> ''default'' \<and> validate_session_name session = None)
     \<and> valid_location (og_workspace g) \<and> valid_location (og_tab g) \<and> valid_location (og_pane g)"

definition valid_launch :: "string \<Rightarrow> launch_request \<Rightarrow> bool" where
  "valid_launch session q \<longleftrightarrow>
     valid_origin session (lq_origin q) \<and> valid_directory (lq_directory q)
     \<and> valid_argv (lq_argv q) (lq_placement q = NewPane)
     \<and> (lq_omp_socket q \<noteq> [] \<longrightarrow> path_base (hd (lq_argv q)) = ''omp'' \<and> clean_absolute (lq_omp_socket q))
     \<and> length (lq_label q) \<le> 256 \<and> nul \<notin> set (lq_label q)
     \<and> (case lq_placement q of
          NewTab \<Rightarrow> lq_direction q = []
        | NewPane \<Rightarrow> lq_direction q = ''right'' \<or> lq_direction q = ''down''
        | OtherPlacement _ \<Rightarrow> False)"

definition supported_shell :: "string \<Rightarrow> bool" where
  "supported_shell name \<longleftrightarrow> name \<in> set [''sh'', ''bash'', ''dash'', ''zsh'', ''ksh'', ''mksh'']"

definition same_pane_location :: "wire_pane \<Rightarrow> string \<Rightarrow> string \<Rightarrow> bool" where
  "same_pane_location p ws tab \<longleftrightarrow> wn_pane p \<noteq> [] \<and> wn_workspace p = ws \<and> wn_tab p = tab"

definition plausible_created_tab :: "created_target \<Rightarrow> origin \<Rightarrow> bool" where
  "plausible_created_tab c g \<longleftrightarrow>
     og_session (ct_origin c) = og_session g \<and> og_workspace (ct_origin c) = og_workspace g
     \<and> og_tab (ct_origin c) \<noteq> [] \<and> og_tab (ct_origin c) \<noteq> og_tab g \<and> og_pane (ct_origin c) \<noteq> []"

definition plausible_created_pane :: "created_target \<Rightarrow> origin \<Rightarrow> bool" where
  "plausible_created_pane c g \<longleftrightarrow>
     og_session (ct_origin c) = og_session g \<and> og_workspace (ct_origin c) = og_workspace g
     \<and> og_tab (ct_origin c) = og_tab g \<and> og_pane (ct_origin c) \<noteq> [] \<and> og_pane (ct_origin c) \<noteq> og_pane g"

definition launch_env :: "launch_request \<Rightarrow> (string \<times> string) list" where
  "launch_env q = (if lq_omp_socket q = [] then [] else [(''HERDR_PLUGIN_KIT_OMP_STATUS_SOCKET'', lq_omp_socket q)])"

subsection \<open>Sessions\<close>

definition list_sessions :: "('w, 'x) session_host_scheme \<Rightarrow> ('w, session list) io" where
  "list_sessions h =
     seq (run_json h (sx_sessions h) [''session'', ''list'', ''--json'']) (\<lambda>ss.
       if list_all (\<lambda>s. validate_session_name (sn_name s) = None) ss then succeed ss else fail [CallFails])"

definition stop_session :: "('w, 'x) session_host_scheme \<Rightarrow> string \<Rightarrow> ('w, unit) io" where
  "stop_session h name =
     (if validate_session_name name \<noteq> None then fail [CallFails]
      else seq (run_json h (sx_stopped h) [''session'', ''stop'', name, ''--json'']) (\<lambda>(status, stopped).
        if status \<noteq> ''stopped'' \<or> stopped \<noteq> name then fail [CallFails] else succeed ()))"

definition delete_session :: "('w, 'x) session_host_scheme \<Rightarrow> string \<Rightarrow> ('w, unit) io" where
  "delete_session h name =
     (if validate_session_name name \<noteq> None \<or> name = ''default'' then fail [CallFails]
      else seq (run_json h (sx_deleted h) [''session'', ''delete'', name, ''--json'']) (\<lambda>(status, deleted, _).
        if status \<noteq> ''deleted'' \<or> deleted \<noteq> name then fail [CallFails] else succeed ()))"

definition open_at_directory :: "('w, 'x) session_host_scheme \<Rightarrow> string \<Rightarrow> string \<Rightarrow> ('w, workspace) io" where
  "open_at_directory h name directory =
     (if validate_session_name name \<noteq> None \<or> \<not> valid_directory directory then fail [CallFails]
      else seq (herdr_run h [''--session'', name]) (\<lambda>_.
        seq (run_json h (sx_workspace h) [''--session'', name, ''workspace'', ''create'', ''--cwd'', directory]) (\<lambda>(kind, ws).
          if kind \<noteq> ''workspace_created'' \<or> wk_id ws = [] then fail [CallFails] else succeed ws)))"

text \<open>The session of the host: the default one without a name, else the one of its name.\<close>

definition is_session :: "string \<Rightarrow> session \<Rightarrow> bool" where
  "is_session session s \<longleftrightarrow> session = [] \<and> sn_default s \<or> session \<noteq> [] \<and> \<not> sn_default s \<and> sn_name s = session"

definition session_socket :: "('w, 'x) session_host_scheme \<Rightarrow> ('w, string) io" where
  "session_socket h =
     seq (list_sessions h) (\<lambda>ss.
       case filter (is_session (sx_session h)) ss of
         [] \<Rightarrow> fail [StaleTarget]
       | [s] \<Rightarrow>
           if \<not> sn_running s then fail [StaleTarget]
           else if sn_socket s = [] \<or> \<not> is_abs (sn_socket s) \<or> path_clean (sn_socket s) \<noteq> sn_socket s \<or> nul \<in> set (sn_socket s)
           then fail [CallFails]
           else succeed (sn_socket s)
       | _ \<Rightarrow> fail [AmbiguousTarget])"

end
