(* ===== verification/SessionPanes.thy ===== *)
theory SessionPanes
  imports SessionHost
begin

text \<open>
  Panes of a session: reading and focusing them, launching a program in a new tab or pane,
  inspecting and stopping a pane's foreground process (runtime/sessionhost/launch.go).
\<close>

subsection \<open>Panes\<close>

definition current_pane :: "('w, 'x) session_host_scheme \<Rightarrow> origin \<Rightarrow> ('w, wire_pane) io" where
  "current_pane h g =
     (if \<not> valid_origin (sx_session h) g then fail [CallFails]
      else seq (session_arguments (sx_session h) [''pane'', ''get'', og_pane g]) (\<lambda>args.
        attempt (run_json h (sx_pane h) args) (\<lambda>_. fail [StaleTarget]) (\<lambda>(kind, pane).
          case pane of
            None \<Rightarrow> fail [StaleTarget]
          | Some p \<Rightarrow>
              if kind \<noteq> ''pane_info'' \<or> wn_pane p \<noteq> og_pane g \<or> \<not> same_pane_location p (og_workspace g) (og_tab g)
              then fail [StaleTarget] else succeed p)))"

definition focus_pane :: "('w, 'x) session_host_scheme \<Rightarrow> origin \<Rightarrow> ('w, unit) io" where
  "focus_pane h g =
     seq (current_pane h g) (\<lambda>_.
     seq (session_socket h) (\<lambda>socket.
     seq (ask (Called socket (PaneFocus (og_pane g)))
            (\<lambda>v. let (r, v') = sx_focus h socket (og_pane g) v in ((case r of None \<Rightarrow> Inl [CallFails] | Some x \<Rightarrow> Inr x), v'))) (\<lambda>(kind, pane).
       case pane of
         None \<Rightarrow> fail [StaleTarget]
       | Some p \<Rightarrow>
           if kind \<noteq> ''pane_info'' \<or> \<not> same_pane_location p (og_workspace g) (og_tab g) \<or> wn_pane p \<noteq> og_pane g \<or> \<not> wn_focused p
           then fail [StaleTarget]
           else attempt (current_pane h g) (\<lambda>_. fail [StaleTarget]) (\<lambda>after.
             if \<not> wn_focused after then fail [StaleTarget] else succeed ()))))"

text \<open>Only the pane that was created is closed.\<close>

definition cleanup_target :: "('w, 'x) session_host_scheme \<Rightarrow> created_target \<Rightarrow> ('w, unit) io" where
  "cleanup_target h c =
     seq (current_pane h (ct_origin c)) (\<lambda>_.
     seq (session_arguments (sx_session h) [''pane'', ''close'', og_pane (ct_origin c)]) (\<lambda>args.
     seq (run_json h (sx_type h) args) (\<lambda>kind.
       if kind \<noteq> ''ok'' then fail [CallFails] else succeed ())))"

text \<open>A failure whose cleanup error is joined to it.\<close>

definition fail_cleaned :: "('w, 'x) session_host_scheme \<Rightarrow> created_target \<Rightarrow> desk_errors \<Rightarrow> ('w, 'a) io" where
  "fail_cleaned h c cause = attempt (cleanup_target h c) (\<lambda>e. fail (cause @ e)) (\<lambda>_. fail cause)"

subsection \<open>Processes\<close>

definition pane_processes :: "('w, 'x) session_host_scheme \<Rightarrow> origin \<Rightarrow> ('w, string \<times> string \<times> process_info option) io" where
  "pane_processes h g =
     seq (session_arguments (sx_session h) [''pane'', ''process-info'', ''--pane'', og_pane g]) (run_json h (sx_process h))"

definition sleep :: "('w, 'x) session_host_scheme \<Rightarrow> ('w, unit) io" where
  "sleep h w = (let (r, v) = sx_wait h (dk_outside w) in (if r then Inr () else Inl [CallFails], w\<lparr>dk_outside := v\<rparr>))"

definition shell_in_front :: "process_info \<Rightarrow> bool" where
  "shell_in_front i \<longleftrightarrow>
     pi_group i = pi_shell i \<and> length (pi_processes i) = 1 \<and> fp_pid (hd (pi_processes i)) = pi_shell i"

definition ready_shell :: "foreground_process \<Rightarrow> bool" where
  "ready_shell p \<longleftrightarrow>
     fp_argv p \<noteq> [] \<and> supported_shell (path_base (hd (fp_argv p))) \<and> fp_name p = path_base (hd (fp_argv p))"

fun await_shell :: "('w, 'x) session_host_scheme \<Rightarrow> origin \<Rightarrow> string \<Rightarrow> nat \<Rightarrow> ('w, unit) io" where
  "await_shell h g directory n =
     seq (pane_processes h g) (\<lambda>(_, kind, info).
       case info of
         None \<Rightarrow> fail [StaleTarget]
       | Some i \<Rightarrow>
           if kind \<noteq> ''pane_process_info'' \<or> pi_pane i \<noteq> og_pane g \<or> pi_shell i \<le> 0 then fail [StaleTarget]
           else
             let again = (case n of 0 \<Rightarrow> fail [CallFails] | Suc m \<Rightarrow> seq (sleep h) (\<lambda>_. await_shell h g directory m)) in
             if shell_in_front i then
               if fp_cwd (hd (pi_processes i)) \<noteq> directory
               then (case n of
                       0 \<Rightarrow> fail [StaleTarget, CallFails]
                     | Suc m \<Rightarrow> attempt (sleep h) (\<lambda>e. fail (StaleTarget # e)) (\<lambda>_. await_shell h g directory m))
               else if \<not> ready_shell (hd (pi_processes i)) then fail [UnsupportedShell]
               else succeed ()
             else again)"

definition wait_for_shell :: "('w, 'x) session_host_scheme \<Rightarrow> origin \<Rightarrow> string \<Rightarrow> ('w, unit) io" where
  "wait_for_shell h g directory =
     (if \<not> valid_origin (sx_session h) g then fail [CallFails]
      else seq (current_pane h g) (\<lambda>_.
        if \<not> valid_directory directory then fail [CallFails]
        else seq (await_shell h g directory shell_polls) (\<lambda>_. seq (current_pane h g) (\<lambda>_. succeed ()))))"

text \<open>The leader of the pane's foreground process group.\<close>

definition foreground_leader :: "process_info \<Rightarrow> desk_errors + foreground_process" where
  "foreground_leader i =
     (case filter (\<lambda>p. fp_pid p = pi_group i) (pi_processes i) of
        [] \<Rightarrow> Inl [StaleTarget]
      | [p] \<Rightarrow>
          if fp_name p = [] \<or> fp_argv p = [] \<or> path_base (hd (fp_argv p)) \<noteq> fp_name p \<or> \<not> valid_directory (fp_cwd p)
          then Inl [StaleTarget] else Inr p
      | _ \<Rightarrow> Inl [AmbiguousTarget])"

definition inspect_foreground :: "('w, 'x) session_host_scheme \<Rightarrow> origin \<Rightarrow> ('w, foreground_process) io" where
  "inspect_foreground h g =
     (if \<not> valid_origin (sx_session h) g then fail [CallFails]
      else seq (current_pane h g) (\<lambda>_.
        seq (pane_processes h g) (\<lambda>(reply, kind, info).
          case info of
            None \<Rightarrow> fail [StaleTarget]
          | Some i \<Rightarrow>
              if reply \<noteq> ''cli:pane:process_info'' \<or> kind \<noteq> ''pane_process_info'' \<or> pi_pane i \<noteq> og_pane g \<or> pi_group i \<le> 0
              then fail [StaleTarget]
              else case foreground_leader i of
                     Inl e \<Rightarrow> fail e
                   | Inr p \<Rightarrow> seq (current_pane h g) (\<lambda>_. succeed p))))"

definition verify_foreground :: "('w, 'x) session_host_scheme \<Rightarrow> origin \<Rightarrow> string \<Rightarrow> string list \<Rightarrow> ('w, foreground_process) io" where
  "verify_foreground h g directory argv =
     (if \<not> valid_directory directory \<or> \<not> valid_argv argv False then fail [CallFails]
      else seq (inspect_foreground h g) (\<lambda>p.
        if fp_cwd p \<noteq> directory \<or> fp_name p \<noteq> path_base (hd argv) \<or> fp_argv p \<noteq> argv then fail [StaleTarget] else succeed p))"

definition stop_foreground :: "('w, 'x) session_host_scheme \<Rightarrow> origin \<Rightarrow> string \<Rightarrow> string list \<Rightarrow> int \<Rightarrow> ('w, unit) io" where
  "stop_foreground h g directory argv pid =
     (if pid \<le> 0 then fail [CallFails]
      else seq (verify_foreground h g directory argv) (\<lambda>p.
        if fp_pid p \<noteq> pid then fail [StaleTarget]
        else seq (ask (Signalled (- pid)) (\<lambda>v. let (r, v') = sx_signal h (- pid) v in
               ((if r = Signal_Fails then Inl [CallFails] else Inr ()), v'))) (\<lambda>_.
          wait_for_shell h g directory)))"

subsection \<open>Launching\<close>

definition layout_of_request :: "launch_request \<Rightarrow> layout_params" where
  "layout_of_request q =
     \<lparr>lt_workspace = og_workspace (lq_origin q), lt_label = lq_label q, lt_focus = False, lt_env = launch_env q,
       lt_cwd = lq_directory q, lt_command = lq_argv q\<rparr>"

definition layout_matches :: "launch_request \<Rightarrow> layout_reply \<Rightarrow> bool" where
  "layout_matches q r \<longleftrightarrow>
     ly_type r = ''layout_apply'' \<and> ly_workspace r = og_workspace (lq_origin q) \<and> ly_tab r \<noteq> [] \<and> ly_tab r \<noteq> og_tab (lq_origin q)
     \<and> ly_root_type r = ''pane'' \<and> ly_root_pane r \<noteq> [] \<and> ly_root_cwd r = lq_directory q \<and> ly_root_command r = lq_argv q
     \<and> ly_focused_pane r = ly_root_pane r"

definition launch_tab :: "('w, 'x) session_host_scheme \<Rightarrow> launch_request \<Rightarrow> ('w, created_target) io" where
  "launch_tab h q =
     seq (session_socket h) (\<lambda>socket.
     seq (ask (Called socket (LayoutApply (layout_of_request q)))
            (\<lambda>v. let (r, v') = sx_layout h socket (layout_of_request q) v in ((case r of None \<Rightarrow> Inl [CallFails] | Some x \<Rightarrow> Inr x), v'))) (\<lambda>r.
       let c = \<lparr>ct_origin = \<lparr>og_session = sx_session h, og_workspace = ly_workspace r, og_tab = ly_tab r, og_pane = ly_root_pane r\<rparr>,
                 ct_tab = True, ct_direct = True\<rparr> in
       if \<not> layout_matches q r
       then if plausible_created_tab c (lq_origin q) then fail_cleaned h c [StaleTarget] else fail [StaleTarget]
       else succeed c))"

definition pane_matches :: "launch_request \<Rightarrow> string \<Rightarrow> wire_pane \<Rightarrow> bool" where
  "pane_matches q kind p \<longleftrightarrow>
     kind = ''pane_info'' \<and> same_pane_location p (og_workspace (lq_origin q)) (og_tab (lq_origin q))
     \<and> wn_pane p \<noteq> og_pane (lq_origin q) \<and> wn_cwd p = lq_directory q \<and> \<not> wn_focused p"

text \<open>The command runs in the shell of the new pane, which it replaces.\<close>

definition exec_in_shell :: "('w, 'x) session_host_scheme \<Rightarrow> launch_request \<Rightarrow> created_target \<Rightarrow> ('w, created_target) io" where
  "exec_in_shell h q c =
     attempt (await_shell h (ct_origin c) (lq_directory q) shell_polls) (fail_cleaned h c) (\<lambda>_.
       case encode_exec (lq_argv q) of
         None \<Rightarrow> fail_cleaned h c [CallFails]
       | Some command \<Rightarrow>
           attempt (session_arguments (sx_session h) [''pane'', ''run'', og_pane (ct_origin c), command]) (fail_cleaned h c) (\<lambda>args.
           attempt (run_empty h args) (fail_cleaned h c) (\<lambda>_. succeed c)))"

definition split_arguments :: "launch_request \<Rightarrow> string list" where
  "split_arguments q =
     [''pane'', ''split'', ''--pane'', og_pane (lq_origin q), ''--direction'', lq_direction q, ''--cwd'', lq_directory q]
     @ (if lq_omp_socket q \<noteq> [] then [''--env'', ''HERDR_PLUGIN_KIT_OMP_STATUS_SOCKET='' @ lq_omp_socket q] else []) @ [''--no-focus'']"

definition launch_pane :: "('w, 'x) session_host_scheme \<Rightarrow> launch_request \<Rightarrow> ('w, created_target) io" where
  "launch_pane h q =
     seq (session_arguments (sx_session h) (split_arguments q)) (\<lambda>args.
     seq (run_json h (sx_pane h) args) (\<lambda>(kind, pane).
       case pane of
         None \<Rightarrow> fail [StaleTarget]
       | Some p \<Rightarrow>
           let c = \<lparr>ct_origin = \<lparr>og_session = sx_session h, og_workspace = wn_workspace p, og_tab = wn_tab p, og_pane = wn_pane p\<rparr>,
                     ct_tab = False, ct_direct = False\<rparr> in
           if \<not> pane_matches q kind p
           then if plausible_created_pane c (lq_origin q) then fail_cleaned h c [StaleTarget] else fail [StaleTarget]
           else exec_in_shell h q c))"

definition launch :: "('w, 'x) session_host_scheme \<Rightarrow> launch_request \<Rightarrow> ('w, created_target) io" where
  "launch h q =
     (if \<not> valid_launch (sx_session h) q then fail [CallFails]
      else seq (current_pane h (lq_origin q)) (\<lambda>_.
        seq (case lq_placement q of NewTab \<Rightarrow> launch_tab h q | NewPane \<Rightarrow> launch_pane h q | OtherPlacement _ \<Rightarrow> fail [CallFails]) (\<lambda>c.
          attempt (current_pane h (lq_origin q)) (fail_cleaned h c) (\<lambda>_.
            if lq_focus q then attempt (focus_pane h (ct_origin c)) (fail_cleaned h c) (\<lambda>_. succeed c)
            else succeed c))))"

text \<open>Whether the command was sent is returned beside the error.\<close>

definition run_in_shell :: "('w, 'x) session_host_scheme \<Rightarrow> origin \<Rightarrow> string \<Rightarrow> string list \<Rightarrow> 'w desk \<Rightarrow> (bool \<times> desk_errors) \<times> 'w desk" where
  "run_in_shell h g directory argv =
     (let stop = (\<lambda>sent e w. ((sent, e), w)) in
      if \<not> valid_origin (sx_session h) g \<or> \<not> valid_directory directory \<or> \<not> valid_argv argv True then stop False [CallFails]
      else attempt (wait_for_shell h g directory) (stop False) (\<lambda>_.
        case encode_command argv of
          None \<Rightarrow> stop False [CallFails]
        | Some command \<Rightarrow>
            attempt (session_arguments (sx_session h) [''pane'', ''run'', og_pane g, command]) (stop False) (\<lambda>args.
            attempt (run_empty h args) (stop True) (\<lambda>_.
            attempt (current_pane h g) (stop True) (\<lambda>_. stop True [])))))"

end
