(* ===== verification/HostFiles.thy ===== *)
theory HostFiles
  imports GoPaths Prelude Steps "HOL-Library.AList" "HOL-Library.Word" "HOL-Library.Char_ord" "HOL-Library.List_Lexorder"
begin

text \<open>
  The machine a service's lifecycle runs on: its files, and everything outside them that the
  kit talks to (the service manager, the running service), whose state is a parameter.

  A system call may be done, fail without an effect, or be the last one of the process: after
  \<open>Dies\<close> no call has an effect, so every prefix of an operation is a run of the model.  Which
  call fares how is a script of the machine.  Paths are clean and absolute; a path below a
  symbolic link names nothing, and a link is not followed when it is read.
\<close>

datatype life_error =
    ConsentRequired | LifecycleBusy | LifecycleOwnership | UpgradeRequired | UpgradeRolledBack | UpgradeRecoveryRequired
  | PurgeRecoveryConsentRequired | NotInstalled | LifecycleUnavailable | LifecycleDisabled | SocketActive | SocketOwnership
  | RefusedPrecondition | NotExist | AlreadyExists | OtherError

type_synonym errors = "life_error list"

datatype contents = Regular string | Directory | Symlink | Socket

type_synonym perm = "16 word"

text \<open>\<open>0o600\<close>, \<open>0o700\<close> and \<open>0o111\<close>.\<close>

definition mode_file :: perm where "mode_file = 0x180"
definition mode_dir :: perm where "mode_dir = 0x1C0"
definition mode_executable :: perm where "mode_executable = 0x49"

record node =
  nd_contents :: contents
  nd_perm :: perm
  nd_uid :: "32 word"
  nd_inode :: nat

type_synonym files = "(string \<times> node) list"

datatype outcome = Done | Fails | Dies

record 'm machine =
  mc_files :: files
  mc_inodes :: nat
  mc_outside :: 'm
  mc_faults :: "outcome list"
  mc_dead :: bool

type_synonym ('m, 'a) act = "'m machine \<Rightarrow> (errors + 'a) \<times> 'm machine"

subsection \<open>System calls\<close>

definition syscall :: "('m, 'a) act \<Rightarrow> ('m, 'a) act" where
  "syscall f w =
     (if mc_dead w then (Inl [OtherError], w)
      else if mc_faults w = [] then f w
      else
        let w' = w\<lparr>mc_faults := tl (mc_faults w)\<rparr>
        in case hd (mc_faults w) of
             Done \<Rightarrow> f w'
           | Fails \<Rightarrow> (Inl [OtherError], w')
           | Dies \<Rightarrow> (Inl [OtherError], w'\<lparr>mc_dead := True\<rparr>))"

definition node_at :: "string \<Rightarrow> 'm machine \<Rightarrow> node option" where
  "node_at p w = map_of (mc_files w) p"

definition put_node :: "string \<Rightarrow> node \<Rightarrow> 'm machine \<Rightarrow> 'm machine" where
  "put_node p n w = w\<lparr>mc_files := AList.update p n (mc_files w)\<rparr>"

definition drop_node :: "string \<Rightarrow> 'm machine \<Rightarrow> 'm machine" where
  "drop_node p w = w\<lparr>mc_files := AList.delete p (mc_files w)\<rparr>"

definition is_directory :: "string \<Rightarrow> 'm machine \<Rightarrow> bool" where
  "is_directory p w \<longleftrightarrow> p = [slash] \<or> map_option nd_contents (node_at p w) = Some Directory"

definition entries :: "string \<Rightarrow> 'm machine \<Rightarrow> string list" where
  "entries p w = sort (map path_base (filter (\<lambda>q. q \<noteq> p \<and> path_dir q = p) (map fst (mc_files w))))"

text \<open>A system call on an existing node.\<close>

definition at_node :: "string \<Rightarrow> (node \<Rightarrow> ('m, 'a) act) \<Rightarrow> ('m, 'a) act" where
  "at_node p f = syscall (\<lambda>w. case node_at p w of None \<Rightarrow> (Inl [NotExist], w) | Some n \<Rightarrow> f n w)"

definition lstat :: "string \<Rightarrow> ('m, node) act" where
  "lstat p = at_node p succeed"

definition read_file :: "string \<Rightarrow> ('m, string) act" where
  "read_file p = at_node p (\<lambda>n. case nd_contents n of Regular s \<Rightarrow> succeed s | _ \<Rightarrow> fail [OtherError])"

text \<open>\<open>os.ReadDir\<close>: names, in order, with whether each is a directory.\<close>

definition read_dir :: "string \<Rightarrow> ('m, (string \<times> bool) list) act" where
  "read_dir p = at_node p (\<lambda>n w. if nd_contents n \<noteq> Directory then (Inl [OtherError], w)
     else (Inr (map (\<lambda>x. (x, is_directory (path_join [p, x]) w)) (entries p w)), w))"

text \<open>\<open>filepath.EvalSymlinks\<close> gives the path back exactly when no component is a link.\<close>

definition resolves_to_itself :: "string \<Rightarrow> ('m, bool) act" where
  "resolves_to_itself p = at_node p (\<lambda>n w. (Inr (\<forall>q \<in> set (ancestors p). map_option nd_contents (node_at q w) \<noteq> Some Symlink), w))"

definition flush :: "('m, unit) act" where "flush = syscall (succeed ())"

text \<open>A new node is the user's own.\<close>

definition add_node :: "32 word \<Rightarrow> string \<Rightarrow> contents \<Rightarrow> perm \<Rightarrow> 'm machine \<Rightarrow> 'm machine" where
  "add_node uid p x m w =
     put_node p \<lparr>nd_contents = x, nd_perm = m, nd_uid = uid, nd_inode = mc_inodes w\<rparr> (w\<lparr>mc_inodes := mc_inodes w + 1\<rparr>)"

definition make_dir :: "32 word \<Rightarrow> string \<Rightarrow> perm \<Rightarrow> ('m, unit) act" where
  "make_dir uid p m = syscall (\<lambda>w.
     if node_at p w \<noteq> None then (Inl [AlreadyExists], w)
     else if \<not> is_directory (path_dir p) w then (Inl [OtherError], w)
     else (Inr (), add_node uid p Directory m w))"

definition change_mode :: "string \<Rightarrow> perm \<Rightarrow> ('m, unit) act" where
  "change_mode p m = at_node p (\<lambda>n w. (Inr (), put_node p (n\<lparr>nd_perm := m\<rparr>) w))"

text \<open>\<open>os.CreateTemp\<close> takes a name that is free.\<close>

definition temp_names :: "string \<Rightarrow> string \<Rightarrow> nat \<Rightarrow> string list" where
  "temp_names dir prefix n = map (\<lambda>k. dir @ [slash] @ prefix @ replicate k (CHR ''0'')) [0..<Suc n]"

definition temp_name :: "string \<Rightarrow> string \<Rightarrow> 'm machine \<Rightarrow> string option" where
  "temp_name dir prefix w = find (\<lambda>p. node_at p w = None) (temp_names dir prefix (length (mc_files w)))"

definition create_temp :: "32 word \<Rightarrow> string \<Rightarrow> string \<Rightarrow> ('m, string) act" where
  "create_temp uid dir prefix = syscall (\<lambda>w.
     if \<not> is_directory dir w then (Inl [OtherError], w)
     else case temp_name dir prefix w of
            None \<Rightarrow> (Inl [OtherError], w)
          | Some p \<Rightarrow> (Inr p, add_node uid p (Regular []) mode_file w))"

definition write_file :: "string \<Rightarrow> string \<Rightarrow> ('m, unit) act" where
  "write_file p s = at_node p (\<lambda>n w. (Inr (), put_node p (n\<lparr>nd_contents := Regular s\<rparr>) w))"

definition link_file :: "string \<Rightarrow> string \<Rightarrow> ('m, unit) act" where
  "link_file p q = at_node p (\<lambda>n w.
     if node_at q w \<noteq> None then (Inl [AlreadyExists], w)
     else if \<not> is_directory (path_dir q) w then (Inl [OtherError], w)
     else (Inr (), put_node q n w))"

definition rename_file :: "string \<Rightarrow> string \<Rightarrow> ('m, unit) act" where
  "rename_file p q = at_node p (\<lambda>n w. (Inr (), put_node q n (drop_node p w)))"

definition remove_file :: "string \<Rightarrow> ('m, unit) act" where
  "remove_file p = at_node p (\<lambda>n w.
     if nd_contents n = Directory \<and> entries p w \<noteq> [] then (Inl [OtherError], w)
     else (Inr (), drop_node p w))"

end
