(* ===== verification/Lifecycle.thy ===== *)
theory Lifecycle
  imports HostFiles ServiceServer
begin

text \<open>
  The data of a service's lifecycle (runtime/servicehost/lifecycle.go): its configuration, the
  descriptor of an installation with its releases and the transition of an upgrade, the unit
  file and the manager's status, with their validation.
\<close>

record lifecycle_paths =
  lp_unit :: string
  lp_descriptor :: string
  lp_binaries :: string
  lp_runtime :: string
  lp_runtime_name :: string
  lp_socket :: string
  lp_purge :: "string list"

record lifecycle_config =
  lc_unit :: string
  lc_service :: string
  lc_description :: string
  lc_protocol :: "32 word"
  lc_client :: string
  lc_paths :: lifecycle_paths
  lc_command_timeout :: int
  lc_readiness_timeout :: int
  lc_drain_timeout :: int

record release =
  re_executable :: string
  re_digest :: string
  re_version :: string
  re_arguments :: "string list"

record transition =
  tr_phase :: string
  tr_previous :: release
  tr_candidate :: release
  tr_source_pid :: int
  tr_recovery :: bool

record descriptor =
  de_schema :: int
  de_unit :: string
  de_service :: string
  de_unit_path :: string
  de_executable :: string
  de_digest :: string
  de_version :: string
  de_arguments :: "string list"
  de_protocol :: "32 word"
  de_runtime :: string
  de_runtime_name :: string
  de_socket :: string
  de_previous :: "release option"
  de_pending :: "release option"
  de_transition :: "transition option"
  de_purge :: "string list"

record purge_manifest =
  pm_schema :: int
  pm_service :: string
  pm_paths :: "string list"

record lifecycle_status =
  ls_installed :: bool
  ls_enabled :: bool
  ls_active :: bool
  ls_unit :: string
  ls_load_state :: string
  ls_active_state :: string
  ls_sub_state :: string
  ls_result :: string
  ls_main_pid :: int
  ls_fragment :: string
  ls_file_state :: string

definition no_status :: lifecycle_status where
  "no_status = \<lparr>ls_installed = False, ls_enabled = False, ls_active = False, ls_unit = [], ls_load_state = [], ls_active_state = [],
     ls_sub_state = [], ls_result = [], ls_main_pid = 0, ls_fragment = [], ls_file_state = []\<rparr>"

definition descriptor_version :: int where "descriptor_version = 1"
definition max_descriptor :: nat where "max_descriptor = 65536"
definition max_purge_entries :: int where "max_purge_entries = 100000"

definition stopping_previous :: string where "stopping_previous = ''stopping-previous''"
definition previous_stopped :: string where "previous_stopped = ''previous-stopped''"
definition switching_unit :: string where "switching_unit = ''switching-unit''"
definition candidate_unit :: string where "candidate_unit = ''candidate-unit''"
definition candidate_started :: string where "candidate_started = ''candidate-started''"

lemmas phase_defs = stopping_previous_def previous_stopped_def switching_unit_def candidate_unit_def candidate_started_def

subsection \<open>Configuration\<close>

definition valid_lifecycle_token :: "string \<Rightarrow> bool" where
  "valid_lifecycle_token v \<longleftrightarrow>
     v \<noteq> [] \<and> v \<noteq> ''.'' \<and> v \<noteq> ''..'' \<and> length v \<le> max_identity \<and> valid_utf8 v \<and>
     (\<forall>r \<in> set (runes v). 97 \<le> r \<and> r \<le> 122 \<or> 65 \<le> r \<and> r \<le> 90 \<or> 48 \<le> r \<and> r \<le> 57 \<or> r \<in> byte ` set ''._+-'')"

definition valid_runtime_name :: "string \<Rightarrow> bool" where
  "valid_runtime_name v \<longleftrightarrow>
     v \<noteq> [] \<and> \<not> is_abs v \<and> path_clean v = v \<and> v \<noteq> ''.'' \<and> v \<noteq> ''..'' \<and> \<not> has_prefix ''../'' v \<and>
     set v \<inter> {CHR ''%'', CHR ''$'', nul, CHR 0x0D, CHR 0x0A} = {}"

definition path_contains :: "string \<Rightarrow> string \<Rightarrow> bool" where
  "path_contains parent child \<longleftrightarrow>
     parent = child \<or> (case path_rel parent child of None \<Rightarrow> False | Some r \<Rightarrow> r \<noteq> ''..'' \<and> \<not> has_prefix ''../'' r)"

definition protected_paths :: "lifecycle_paths \<Rightarrow> string list" where
  "protected_paths p = [lp_unit p, lp_descriptor p, lp_descriptor p @ ''.lock'', lp_descriptor p @ ''.purge'',
     lp_binaries p, lp_runtime p, lp_socket p, lp_socket p @ ''.lock'']"

definition overlap :: "string \<Rightarrow> string \<Rightarrow> bool" where
  "overlap p q \<longleftrightarrow> path_contains p q \<or> path_contains q p"

definition valid_purge_paths :: "lifecycle_paths \<Rightarrow> bool" where
  "valid_purge_paths p \<longleftrightarrow>
     length (lp_purge p) \<le> 64 \<and>
     (\<forall>i < length (lp_purge p).
        clean_absolute (lp_purge p ! i) \<and> lp_purge p ! i \<noteq> [slash] \<and>
        (\<forall>q \<in> set (protected_paths p). \<not> overlap (lp_purge p ! i) q) \<and>
        (\<forall>j < length (lp_purge p). i \<noteq> j \<longrightarrow> \<not> overlap (lp_purge p ! i) (lp_purge p ! j)))"

datatype lifecycle_config_error = InvalidLifecycleConfig | InvalidPurgePaths

definition validate_lifecycle_config :: "lifecycle_config \<Rightarrow> lifecycle_config_error option" where
  "validate_lifecycle_config c =
     (let p = lc_paths c in
      if path_base (lc_unit c) \<noteq> lc_unit c \<or> \<not> has_suffix ''.service'' (lc_unit c) \<or> \<not> valid_identity (lc_service c) \<or>
         lc_description c = [] \<or> length (lc_description c) > 256 \<or> \<not> valid_utf8 (lc_description c) \<or>
         set (lc_description c) \<inter> {CHR 0x0D, CHR 0x0A, nul} \<noteq> {} \<or> lc_protocol c = 0 \<or> \<not> valid_identity (lc_client c) \<or>
         lc_command_timeout c < 1 \<or> lc_readiness_timeout c < 1 \<or> lc_drain_timeout c < 1 \<or>
         \<not> clean_absolute (lp_unit p) \<or> path_base (lp_unit p) \<noteq> lc_unit c \<or> \<not> clean_absolute (lp_descriptor p) \<or>
         \<not> clean_absolute (lp_binaries p) \<or> \<not> clean_absolute (lp_runtime p) \<or> \<not> clean_absolute (lp_socket p) \<or>
         path_dir (lp_socket p) \<noteq> lp_runtime p \<or> \<not> valid_runtime_name (lp_runtime_name p) \<or>
         \<not> has_suffix (slash # lp_runtime_name p) (lp_runtime p) \<or> lp_binaries p = [slash] \<or> lp_runtime p = [slash] \<or>
         path_dir (lp_descriptor p) = [slash] \<or> path_dir (lp_unit p) = [slash]
      then Some InvalidLifecycleConfig
      else if \<not> valid_purge_paths p then Some InvalidPurgePaths
      else None)"

definition new_lifecycle :: "lifecycle_config \<Rightarrow> lifecycle_config_error + lifecycle_config" where
  "new_lifecycle c =
     (let second = 10 ^ 9;
          d = c\<lparr>lc_command_timeout := or_default (10 * second) (lc_command_timeout c),
                lc_readiness_timeout := or_default (10 * second) (lc_readiness_timeout c),
                lc_drain_timeout := or_default (60 * second) (lc_drain_timeout c)\<rparr>
      in case validate_lifecycle_config d of Some e \<Rightarrow> Inl e | None \<Rightarrow> Inr d)"

subsection \<open>The unit file\<close>

definition quote_rune :: "int \<Rightarrow> string" where
  "quote_rune r =
     (if r = byte (CHR 0x5C) then [CHR 0x5C, CHR 0x5C]
      else if r = byte (CHR 0x22) then [CHR 0x5C, CHR 0x22]
      else if r = byte (CHR ''%'') then ''%%''
      else if r = byte (CHR ''$'') then ''$$''
      else encode_rune r)"

definition quote_unit_value :: "string \<Rightarrow> string option" where
  "quote_unit_value v =
     (if v = [] \<or> set v \<inter> {nul, CHR 0x0D, CHR 0x0A} \<noteq> {} then None
      else Some (CHR 0x22 # concat (map quote_rune (runes v)) @ [CHR 0x22]))"

fun quote_all :: "string list \<Rightarrow> string list option" where
  "quote_all [] = Some []"
| "quote_all (v # vs) =
     (case quote_unit_value v of None \<Rightarrow> None | Some q \<Rightarrow> (case quote_all vs of None \<Rightarrow> None | Some qs \<Rightarrow> Some (q # qs)))"

definition newline :: string where "newline = [CHR 0x0A]"

definition render_unit :: "lifecycle_config \<Rightarrow> descriptor \<Rightarrow> string option" where
  "render_unit c d =
     (case quote_all (de_executable d # de_arguments d) of
        None \<Rightarrow> None
      | Some arguments \<Rightarrow>
          (case quote_unit_value (de_runtime_name d) of
             None \<Rightarrow> None
           | Some runtime \<Rightarrow>
               Some (''[Unit]'' @ newline @ ''Description='' @ lc_description c @ newline @ ''StartLimitIntervalSec=60s'' @ newline @
                 ''StartLimitBurst=3'' @ newline @ newline @ ''[Service]'' @ newline @ ''Type=simple'' @ newline @
                 ''RuntimeDirectory='' @ runtime @ newline @ ''RuntimeDirectoryMode=0700'' @ newline @ ''UMask=0077'' @ newline @
                 ''ExecStart='' @ join '' '' arguments @ newline @ ''Restart=on-failure'' @ newline @ ''RestartSec=2s'' @ newline @
                 ''TimeoutStopSec=70s'' @ newline @ newline @ ''[Install]'' @ newline @ ''WantedBy=default.target'' @ newline)))"

subsection \<open>Releases and descriptors\<close>

definition release_of :: "descriptor \<Rightarrow> release" where
  "release_of d = \<lparr>re_executable = de_executable d, re_digest = de_digest d, re_version = de_version d, re_arguments = de_arguments d\<rparr>"

definition with_release :: "descriptor \<Rightarrow> release \<Rightarrow> descriptor" where
  "with_release d r = d\<lparr>de_executable := re_executable r, de_digest := re_digest r, de_version := re_version r, de_arguments := re_arguments r\<rparr>"

definition valid_release :: "lifecycle_config \<Rightarrow> release \<Rightarrow> bool" where
  "valid_release c r \<longleftrightarrow>
     clean_absolute (re_executable r) \<and> valid_lifecycle_token (re_version r) \<and>
     re_executable r = path_join [lp_binaries (lc_paths c), re_version r, ''service''] \<and> length (re_digest r) = 64 \<and>
     (\<forall>a \<in> set (re_arguments r). quote_unit_value a \<noteq> None)"

definition valid_transition :: "descriptor \<Rightarrow> transition \<Rightarrow> bool" where
  "valid_transition d t \<longleftrightarrow>
     de_pending d = Some (tr_candidate t) \<and> 0 \<le> tr_source_pid t \<and> tr_previous t = release_of d \<and>
     tr_phase t \<in> {stopping_previous, previous_stopped, switching_unit, candidate_unit, candidate_started}"

definition other_release_ok :: "lifecycle_config \<Rightarrow> release \<Rightarrow> release option \<Rightarrow> bool" where
  "other_release_ok c current x = (case x of None \<Rightarrow> True | Some r \<Rightarrow> valid_release c r \<and> re_version r \<noteq> re_version current)"

definition valid_descriptor :: "lifecycle_config \<Rightarrow> descriptor \<Rightarrow> bool" where
  "valid_descriptor c d \<longleftrightarrow>
     de_schema d = descriptor_version \<and> de_unit d = lc_unit c \<and> de_service d = lc_service c \<and> de_unit_path d = lp_unit (lc_paths c) \<and>
     de_protocol d = lc_protocol c \<and> de_runtime d = lp_runtime (lc_paths c) \<and> de_runtime_name d = lp_runtime_name (lc_paths c) \<and>
     de_socket d = lp_socket (lc_paths c) \<and> de_purge d = lp_purge (lc_paths c) \<and> valid_release c (release_of d) \<and>
     other_release_ok c (release_of d) (de_previous d) \<and> other_release_ok c (release_of d) (de_pending d) \<and>
     \<not> (\<exists>p \<in> set_option (de_previous d). \<exists>q \<in> set_option (de_pending d). re_version p = re_version q) \<and>
     (case de_transition d of None \<Rightarrow> True | Some t \<Rightarrow> valid_transition d t)"

definition desired_comparable :: "descriptor \<Rightarrow> descriptor \<times> string \<times> string" where
  "desired_comparable d =
     (d\<lparr>de_arguments := [], de_purge := [], de_previous := None, de_pending := None, de_transition := None\<rparr>,
      join [nul] (de_arguments d), join [nul] (de_purge d))"

definition unique_releases :: "descriptor \<Rightarrow> release list" where
  "unique_releases d =
     (let more = (\<lambda>x rs. case x of None \<Rightarrow> rs | Some r \<Rightarrow> if re_version r \<in> set (map re_version rs) then rs else rs @ [r])
      in more (de_pending d) (more (de_previous d) [release_of d]))"

definition uses_current_unit :: "transition option \<Rightarrow> bool" where
  "uses_current_unit x =
     (case x of None \<Rightarrow> True | Some t \<Rightarrow> tr_phase t = stopping_previous \<or> tr_phase t = previous_stopped)"

definition running_is_current :: "transition option \<Rightarrow> lifecycle_status \<Rightarrow> bool" where
  "running_is_current x s = (case x of None \<Rightarrow> True | Some t \<Rightarrow> ls_main_pid s = tr_source_pid t \<or> uses_current_unit x)"

definition running_descriptor :: "descriptor \<Rightarrow> lifecycle_status \<Rightarrow> descriptor" where
  "running_descriptor d s =
     (case de_transition d of
        None \<Rightarrow> d
      | Some t \<Rightarrow> if running_is_current (Some t) s then d else with_release d (tr_candidate t))"

subsection \<open>The manager's status\<close>

definition terminal_stopped :: "lifecycle_status \<Rightarrow> bool" where
  "terminal_stopped s \<longleftrightarrow> \<not> ls_active s \<and> ls_main_pid s = 0 \<and> (ls_active_state s = ''inactive'' \<or> ls_active_state s = ''failed'')"

definition active_process :: "lifecycle_status \<Rightarrow> bool" where
  "active_process s \<longleftrightarrow> ls_active s \<and> ls_main_pid s > 0"

definition same_process :: "lifecycle_status \<Rightarrow> lifecycle_status \<Rightarrow> bool" where
  "same_process s prior \<longleftrightarrow> active_process s \<and> ls_main_pid s = ls_main_pid prior"

definition manager_absent :: "lifecycle_status \<Rightarrow> bool" where
  "manager_absent s \<longleftrightarrow> ls_load_state s = ''not-found'' \<and> \<not> ls_active s \<and> ls_main_pid s = 0"

definition safe_unloaded :: "lifecycle_status \<Rightarrow> bool" where
  "safe_unloaded s \<longleftrightarrow> ls_load_state s = ''not-found'' \<and> terminal_stopped s"

text \<open>\<open>strconv.Atoi\<close>.\<close>

definition digits_value :: "string \<Rightarrow> int" where
  "digits_value s = foldl (\<lambda>n c. 10 * n + (byte c - 48)) 0 s"

definition atoi :: "string \<Rightarrow> int option" where
  "atoi s =
     (let digits = (if s \<noteq> [] \<and> hd s \<in> {CHR ''+'', CHR ''-''} then tl s else s);
          n = (if s \<noteq> [] \<and> hd s = CHR ''-'' then - digits_value digits else digits_value digits)
      in if digits = [] \<or> \<not> list_all (\<lambda>c. 48 \<le> byte c \<and> byte c \<le> 57) digits \<or> n < - (2 ^ 63) \<or> n \<ge> 2 ^ 63 then None else Some n)"

text \<open>The fields of the status output; the first bad line ends the reading.\<close>

fun status_fields :: "string list \<Rightarrow> (string \<times> string) list \<Rightarrow> (string \<times> string) list option" where
  "status_fields [] values = Some values"
| "status_fields (line # ls) values =
     (let (key, v, found) = cut (CHR ''='') line
      in if \<not> found \<or> key = [] \<or> map_of values key \<noteq> None then None else status_fields ls ((key, v) # values))"

definition status_keys :: "string list" where
  "status_keys = [''Id'', ''LoadState'', ''ActiveState'', ''SubState'', ''Result'', ''MainPID'', ''FragmentPath'', ''UnitFileState'']"

definition parse_status :: "unicode \<Rightarrow> string \<Rightarrow> descriptor \<Rightarrow> errors + lifecycle_status" where
  "parse_status U raw d =
     (case status_fields (split_on (CHR 0x0A) (trim_space U raw)) [] of
        None \<Rightarrow> Inl [OtherError]
      | Some values \<Rightarrow>
          if \<not> list_all (\<lambda>k. map_of values k \<noteq> None) status_keys then Inl [OtherError]
          else
            let field = (\<lambda>k. the (map_of values k)) in
            case atoi (field ''MainPID'') of
              None \<Rightarrow> Inl [OtherError]
            | Some pid \<Rightarrow>
                if pid < 0 \<or> field ''Id'' \<noteq> de_unit d then Inl [OtherError]
                else if field ''LoadState'' = ''loaded'' \<and> field ''FragmentPath'' \<noteq> de_unit_path d then Inl [LifecycleOwnership]
                else Inr \<lparr>ls_installed = True, ls_enabled = (field ''UnitFileState'' = ''enabled'' \<or> field ''UnitFileState'' = ''enabled-runtime''),
                  ls_active = (field ''ActiveState'' = ''active''), ls_unit = field ''Id'', ls_load_state = field ''LoadState'',
                  ls_active_state = field ''ActiveState'', ls_sub_state = field ''SubState'', ls_result = field ''Result'', ls_main_pid = pid,
                  ls_fragment = field ''FragmentPath'', ls_file_state = field ''UnitFileState''\<rparr>)"

end
