(* ===== verification/LifeFiles.thy ===== *)
theory LifeFiles
  imports Lifecycle
begin

text \<open>
  The file operations of a service's lifecycle (runtime/servicehost/lifecycle.go,
  lifecycle_lock_linux.go, socket_lock_linux.go): checking and creating directories, writing,
  replacing, verifying and removing owned files, and the locks.

  What is outside the source is the record \<open>host\<close>: the user, the digest (SHA-256), the JSON
  codec of descriptors and manifests, the character tables, the service manager, the running
  service behind its socket, and the locks other processes hold.  The manager and the service
  may change files as well as their own state.
\<close>

text \<open>A call to the service fails, or is refused for a precondition.\<close>

datatype call_error = CallFailed | CallRefused

definition call_errors :: "call_error \<Rightarrow> errors" where
  "call_errors e = [if e = CallRefused then RefusedPrecondition else OtherError]"

record 'm host =
  ho_uid :: "32 word"
  ho_digest :: "string \<Rightarrow> string"
  ho_encode :: "descriptor \<Rightarrow> string"
  ho_decode :: "string \<Rightarrow> descriptor option"
  ho_encode_manifest :: "purge_manifest \<Rightarrow> string"
  ho_tables :: unicode
  ho_locked :: "string \<Rightarrow> 'm \<Rightarrow> bool"
  ho_systemctl :: "string list \<Rightarrow> files \<times> 'm \<Rightarrow> string option \<times> files \<times> 'm"
  ho_dial :: "descriptor \<Rightarrow> files \<times> 'm \<Rightarrow> (call_error + handshake) \<times> files \<times> 'm"
  ho_health :: "files \<times> 'm \<Rightarrow> (call_error + service_status) \<times> files \<times> 'm"
  ho_drain :: "files \<times> 'm \<Rightarrow> bool \<times> files \<times> 'm"
  ho_resume :: "files \<times> 'm \<Rightarrow> bool \<times> files \<times> 'm"
  ho_socket_active :: "string \<Rightarrow> 'm \<Rightarrow> bool"
  ho_polls :: nat

subsection \<open>Directories\<close>

definition bad_directory :: "'m host \<Rightarrow> string \<Rightarrow> bool \<Rightarrow> string \<Rightarrow> node \<Rightarrow> bool" where
  "bad_directory h path private current n \<longleftrightarrow>
     nd_contents n \<noteq> Directory \<or> current = path \<and> (nd_uid n \<noteq> ho_uid h \<or> private \<and> nd_perm n \<noteq> mode_dir)"

definition check_component :: "'m host \<Rightarrow> string \<Rightarrow> bool \<Rightarrow> string \<Rightarrow> ('m, unit) act" where
  "check_component h path private current =
     attempt (lstat current) (\<lambda>e. fail [LifecycleOwnership])
       (\<lambda>n. if bad_directory h path private current n then fail [LifecycleOwnership] else succeed ())"

definition validate_directory :: "'m host \<Rightarrow> string \<Rightarrow> bool \<Rightarrow> ('m, unit) act" where
  "validate_directory h path private =
     (if \<not> clean_absolute path \<or> path = [slash] then fail [OtherError]
      else each (check_component h path private) (ancestors path))"

definition ensure_component :: "'m host \<Rightarrow> string \<Rightarrow> bool \<Rightarrow> string \<Rightarrow> ('m, unit) act" where
  "ensure_component h path private current =
     attempt (lstat current)
       (\<lambda>e. if NotExist \<notin> set e then fail [LifecycleOwnership]
            else seq (make_dir (ho_uid h) current mode_dir) (\<lambda>_.
              attempt (lstat current) (\<lambda>e. fail [LifecycleOwnership]) (\<lambda>n.
                if nd_contents n \<noteq> Directory then fail [LifecycleOwnership]
                else seq (change_mode current mode_dir) (\<lambda>_. seq (lstat current) (\<lambda>n.
                  if bad_directory h path private current n then fail [LifecycleOwnership] else succeed ())))))
       (\<lambda>n. if bad_directory h path private current n then fail [LifecycleOwnership] else succeed ())"

definition ensure_directory :: "'m host \<Rightarrow> string \<Rightarrow> bool \<Rightarrow> ('m, unit) act" where
  "ensure_directory h path private =
     (if \<not> clean_absolute path \<or> path = [slash] then fail [OtherError]
      else each (ensure_component h path private) (ancestors path))"

definition ensure_directories :: "'m host \<Rightarrow> lifecycle_paths \<Rightarrow> ('m, unit) act" where
  "ensure_directories h p =
     each (\<lambda>(path, private). ensure_directory h path private)
       [(path_dir (lp_descriptor p), True), (lp_binaries p, True), (path_dir (lp_unit p), False)]"

subsection \<open>Files\<close>

fun is_regular :: "contents \<Rightarrow> bool" where
  "is_regular (Regular s) = True"
| "is_regular _ = False"

definition verify_file :: "'m host \<Rightarrow> string \<Rightarrow> string \<Rightarrow> perm \<Rightarrow> ('m, unit) act" where
  "verify_file h path want mode =
     attempt (read_file path) (\<lambda>e. fail [LifecycleOwnership]) (\<lambda>got.
       attempt (lstat path) (\<lambda>e. fail [LifecycleOwnership]) (\<lambda>n.
         if \<not> is_regular (nd_contents n) \<or> nd_uid n \<noteq> ho_uid h \<or> nd_perm n \<noteq> mode \<or> got \<noteq> want
         then fail [LifecycleOwnership] else succeed ()))"

definition ownership :: "errors \<Rightarrow> ('m, 'a) act" where "ownership e = fail [LifecycleOwnership]"

definition verify_executable :: "'m host \<Rightarrow> string \<Rightarrow> string \<Rightarrow> ('m, unit) act" where
  "verify_executable h path want =
     attempt (lstat path) ownership (\<lambda>info.
       if \<not> is_regular (nd_contents info) then fail [LifecycleOwnership]
       else attempt (resolves_to_itself path) ownership (\<lambda>direct.
         if \<not> direct then fail [LifecycleOwnership]
         else attempt (lstat path) ownership (\<lambda>file. attempt flush ownership (\<lambda>_.
           if \<not> is_regular (nd_contents file) \<or> nd_perm file \<noteq> mode_dir \<or> nd_uid file \<noteq> ho_uid h \<or> nd_inode file \<noteq> nd_inode info
           then fail [LifecycleOwnership]
           else attempt (read_file path) ownership (\<lambda>s.
             if ho_digest h s \<noteq> want then fail [LifecycleOwnership] else succeed ())))))"

record owned_file =
  of_path :: string
  of_inode :: nat

definition inspect_created :: "string \<Rightarrow> ('m, owned_file) act" where
  "inspect_created path = seq (lstat path) (\<lambda>n. succeed \<lparr>of_path = path, of_inode = nd_inode n\<rparr>)"

definition remove_owned :: "owned_file \<Rightarrow> ('m, unit) act" where
  "remove_owned f =
     attempt (lstat (of_path f)) (\<lambda>e. if NotExist \<in> set e then succeed () else fail e)
       (\<lambda>n. if nd_inode n \<noteq> of_inode f then fail [LifecycleOwnership] else remove_file (of_path f))"

text \<open>The part writing, copying and replacing share: a synced temporary file.\<close>

definition fill_temp :: "string \<Rightarrow> string \<Rightarrow> perm \<Rightarrow> ('m, unit) act" where
  "fill_temp t s mode = seq (change_mode t mode) (\<lambda>_. seq (write_file t s) (\<lambda>_. seq flush (\<lambda>_. flush)))"

definition publish_new :: "string \<Rightarrow> string \<Rightarrow> ('m, owned_file) act" where
  "publish_new t path =
     attempt (link_file t path) (\<lambda>e. fail (if AlreadyExists \<in> set e then [LifecycleOwnership] else e)) (\<lambda>_. inspect_created path)"

definition write_new :: "'m host \<Rightarrow> string \<Rightarrow> string \<Rightarrow> perm \<Rightarrow> ('m, owned_file) act" where
  "write_new h path s mode =
     seq (create_temp (ho_uid h) (path_dir path) ''.servicehost-'') (\<lambda>t.
       ensuring (seq (fill_temp t s mode) (\<lambda>_. publish_new t path)) (remove_file t))"

definition replace_file :: "'m host \<Rightarrow> string \<Rightarrow> string \<Rightarrow> string \<Rightarrow> perm \<Rightarrow> bool \<Rightarrow> ('m, unit) act" where
  "replace_file h path current new mode private =
     seq (verify_file h path current mode) (\<lambda>_.
     seq (validate_directory h (path_dir path) private) (\<lambda>_.
     seq (create_temp (ho_uid h) (path_dir path) ''.servicehost-replace-'') (\<lambda>t.
       ensuring (seq (fill_temp t new mode) (\<lambda>_. seq (verify_file h path current mode) (\<lambda>_. rename_file t path))) (remove_file t))))"

definition copy_executable :: "'m host \<Rightarrow> string \<Rightarrow> string \<Rightarrow> ('m, owned_file) act" where
  "copy_executable h source path =
     seq (ensure_directory h (path_dir path) True) (\<lambda>_.
     seq (create_temp (ho_uid h) (path_dir path) ''.servicehost-bin-'') (\<lambda>t.
       ensuring (seq (fill_temp t source mode_dir) (\<lambda>_. publish_new t path)) (remove_file t)))"

definition remove_captured :: "'m host \<Rightarrow> owned_file \<Rightarrow> string \<Rightarrow> string \<Rightarrow> perm \<Rightarrow> ('m, unit) act" where
  "remove_captured h f path s mode = seq (verify_file h path s mode) (\<lambda>_. remove_owned f)"

definition remove_verified :: "'m host \<Rightarrow> string \<Rightarrow> string \<Rightarrow> perm \<Rightarrow> ('m, bool) act" where
  "remove_verified h path s mode =
     attempt (inspect_created path) (\<lambda>e. if NotExist \<in> set e then succeed False else fail e)
       (\<lambda>f. seq (remove_captured h f path s mode) (\<lambda>_. succeed True))"

definition remove_verified_executable :: "'m host \<Rightarrow> release \<Rightarrow> ('m, bool) act" where
  "remove_verified_executable h r =
     attempt (inspect_created (path_dir (re_executable r))) (\<lambda>e. if NotExist \<in> set e then succeed False else fail e) (\<lambda>directory.
       attempt (inspect_created (re_executable r))
         (\<lambda>e. if NotExist \<in> set e then
                seq (read_dir (path_dir (re_executable r))) (\<lambda>es.
                  if es \<noteq> [] then fail [LifecycleOwnership] else seq (remove_owned directory) (\<lambda>_. succeed False))
              else fail e)
         (\<lambda>f. seq (verify_executable h (re_executable r) (re_digest r)) (\<lambda>_. seq (remove_owned f) (\<lambda>_.
            attempt (remove_owned directory) (\<lambda>e. if NotExist \<in> set e then succeed True else fail [LifecycleOwnership]) (\<lambda>_. succeed True)))))"

definition remove_empty_binaries :: "string \<Rightarrow> ('m, unit) act" where
  "remove_empty_binaries path =
     attempt (inspect_created path) (\<lambda>e. if NotExist \<in> set e then succeed () else fail e) (\<lambda>directory.
       seq (read_dir path) (\<lambda>es. if es \<noteq> [] then fail [LifecycleOwnership] else remove_owned directory))"

subsection \<open>Locks\<close>

text \<open>Opening the lock file makes it when it is missing, and does not follow a link; the lock is
  held until the operation returns.\<close>

definition acquire_lock :: "'m host \<Rightarrow> life_error \<Rightarrow> life_error \<Rightarrow> string \<Rightarrow> ('m, unit) act" where
  "acquire_lock h owner busy path =
     seq (syscall (\<lambda>w.
       case node_at path w of
         None \<Rightarrow> if is_directory (path_dir path) w then (Inr (), add_node (ho_uid h) path (Regular []) mode_file w) else (Inl [OtherError], w)
       | Some n \<Rightarrow> if nd_contents n = Symlink \<or> nd_contents n = Directory \<or> nd_contents n = Socket then (Inl [OtherError], w) else (Inr (), w))) (\<lambda>_.
     seq (lstat path) (\<lambda>n.
       if \<not> is_regular (nd_contents n) \<or> nd_uid n \<noteq> ho_uid h then fail [owner]
       else seq (change_mode path mode_file) (\<lambda>_.
         syscall (\<lambda>w. if ho_locked h path (mc_outside w) then (Inl [busy], w) else (Inr (), w)))))"

definition lock_installed :: "'m host \<Rightarrow> lifecycle_config \<Rightarrow> ('m, unit) act" where
  "lock_installed h c =
     (let path = lp_descriptor (lc_paths c) @ ''.lock'' in
      attempt (lstat path) ownership (\<lambda>n.
        if \<not> is_regular (nd_contents n) \<or> nd_uid n \<noteq> ho_uid h \<or> nd_perm n \<noteq> mode_file then fail [LifecycleOwnership]
        else acquire_lock h LifecycleOwnership LifecycleBusy path))"

text \<open>Dialing a socket nobody listens on is refused; any other failure is the call's.\<close>

definition remove_inactive_socket :: "'m host \<Rightarrow> string \<Rightarrow> ('m, bool) act" where
  "remove_inactive_socket h path =
     attempt (inspect_created path) (\<lambda>e. if NotExist \<in> set e then succeed False else fail e) (\<lambda>f.
       seq (lstat path) (\<lambda>n.
         if nd_inode n \<noteq> of_inode f \<or> nd_contents n \<noteq> Socket \<or> nd_uid n \<noteq> ho_uid h \<or> nd_perm n \<noteq> mode_file then
           fail (if nd_inode n = of_inode f \<and> (nd_contents n \<noteq> Socket \<or> nd_uid n \<noteq> ho_uid h) then [LifecycleOwnership, SocketOwnership] else [LifecycleOwnership])
         else seq (acquire_lock h SocketOwnership SocketActive (path @ ''.lock'')) (\<lambda>_.
           seq (syscall (\<lambda>w. (Inr (ho_socket_active h path (mc_outside w)), w))) (\<lambda>active.
             if active then fail [SocketActive] else seq (remove_owned f) (\<lambda>_. succeed True)))))"

end
