(* ===== verification/LifeService.thy ===== *)
theory LifeService
  imports LifeFiles
begin

text \<open>
  An installed service (runtime/servicehost/lifecycle.go): reading and verifying the
  installation, talking to the manager and to the service, and starting, restarting, stopping,
  enabling and disabling it.

  A wait for readiness polls until its time is over; \<open>ho_polls\<close> says how many polls
  follow the first.
  Closing a client has no effect the code relies on and is left out.
\<close>

subsection \<open>The manager and the service\<close>

definition outside :: "('b \<Rightarrow> errors + 'a) \<Rightarrow> (files \<times> 'm \<Rightarrow> 'b \<times> files \<times> 'm) \<Rightarrow> ('m, 'a) act" where
  "outside result f = syscall (\<lambda>w. let (r, fs, m) = f (mc_files w, mc_outside w) in (result r, w\<lparr>mc_files := fs, mc_outside := m\<rparr>))"

text \<open>The outcomes of the outside calls as Go errors.\<close>

definition or_other :: "'a option \<Rightarrow> errors + 'a" where
  "or_other x = (case x of None \<Rightarrow> Inl [OtherError] | Some a \<Rightarrow> Inr a)"

definition if_done :: "bool \<Rightarrow> errors + unit" where
  "if_done r = (if r then Inr () else Inl [OtherError])"

definition called :: "call_error + 'a \<Rightarrow> errors + 'a" where
  "called x = (case x of Inl e \<Rightarrow> Inl (call_errors e) | Inr a \<Rightarrow> Inr a)"

definition run_systemctl :: "'m host \<Rightarrow> string list \<Rightarrow> ('m, string) act" where
  "run_systemctl h args =
     attempt (outside or_other (ho_systemctl h (''--user'' # args)))
       (\<lambda>e. fail (LifecycleUnavailable # e)) succeed"

definition daemon_reload :: "'m host \<Rightarrow> ('m, unit) act" where
  "daemon_reload h = seq (run_systemctl h [''daemon-reload'']) (\<lambda>_. succeed ())"

definition manager_status :: "'m host \<Rightarrow> descriptor \<Rightarrow> ('m, lifecycle_status) act" where
  "manager_status h d =
     seq (run_systemctl h ([''show'', de_unit d] @ map (\<lambda>k. ''--property='' @ k) status_keys @ [''--no-pager''])) (\<lambda>s w.
       (parse_status (ho_tables h) s d, w))"

definition owned_manager_status :: "'m host \<Rightarrow> descriptor \<Rightarrow> ('m, lifecycle_status) act" where
  "owned_manager_status h d =
     seq (manager_status h d) (\<lambda>s.
       if ls_load_state s \<noteq> ''loaded'' \<or> ls_fragment s \<noteq> de_unit_path d then fail [LifecycleOwnership] else succeed s)"

definition dial_service :: "'m host \<Rightarrow> descriptor \<Rightarrow> ('m, handshake) act" where
  "dial_service h d =
     seq (outside called (ho_dial h d)) (\<lambda>hs.
       if hs_service hs \<noteq> de_service d \<or> hs_version hs \<noteq> de_version d then fail [LifecycleOwnership] else succeed hs)"

text \<open>A failed change resumes the service it had drained; \<open>client\<close> says whether there is one.\<close>

definition resume_after :: "'m host \<Rightarrow> bool \<Rightarrow> errors \<Rightarrow> 'm machine \<Rightarrow> errors \<times> 'm machine" where
  "resume_after h client cause =
     (if \<not> client then (\<lambda>w. (cause, w))
      else attempt (outside if_done (ho_resume h))
             (\<lambda>e w. (cause @ e, w)) (\<lambda>_ w. (cause, w)))"

definition fail_resumed :: "'m host \<Rightarrow> bool \<Rightarrow> errors \<Rightarrow> ('m, 'a) act" where
  "fail_resumed h client cause w = (let (e, w') = resume_after h client cause w in (Inl e, w'))"

definition drain_active :: "'m host \<Rightarrow> descriptor \<Rightarrow> bool \<Rightarrow> ('m, bool) act" where
  "drain_active h d active =
     (if \<not> active then succeed False
      else attempt (dial_service h d) fail (\<lambda>_.
        attempt (outside if_done (ho_drain h))
          (fail_resumed h True) (\<lambda>_. succeed True)))"

definition fresh_ready :: "service_status \<Rightarrow> handshake \<Rightarrow> bool" where
  "fresh_ready s hs \<longleftrightarrow>
     ss_state s = health_ready \<and> ss_accepting s \<and> ss_epoch s = cu_epoch (hs_cursor hs) \<and> ss_revision s \<ge> cu_revision (hs_cursor hs)"

definition terminal_readiness :: "errors \<Rightarrow> bool" where
  "terminal_readiness e \<longleftrightarrow> LifecycleOwnership \<in> set e \<or> RefusedPrecondition \<in> set e"

fun await_ready :: "'m host \<Rightarrow> descriptor \<Rightarrow> nat \<Rightarrow> errors \<Rightarrow> ('m, unit) act" where
  "await_ready h d 0 latest = fail (LifecycleUnavailable # OtherError # latest)"
| "await_ready h d (Suc n) latest =
     attempt (dial_service h d) (\<lambda>e. if terminal_readiness e then fail e else await_ready h d n e) (\<lambda>hs.
       attempt (outside called (ho_health h)) (\<lambda>e. if terminal_readiness e then fail e else await_ready h d n e) (\<lambda>s.
         if fresh_ready s hs then succeed () else await_ready h d n [OtherError]))"

definition wait_ready :: "'m host \<Rightarrow> descriptor \<Rightarrow> ('m, unit) act" where
  "wait_ready h d = await_ready h d (Suc (ho_polls h)) []"

subsection \<open>The installation\<close>

definition valid_descriptor_size :: "string \<Rightarrow> bool" where
  "valid_descriptor_size s \<longleftrightarrow> length s \<le> max_descriptor"

definition read_descriptor :: "'m host \<Rightarrow> lifecycle_config \<Rightarrow> ('m, descriptor option) act" where
  "read_descriptor h c =
     attempt (lstat (lp_descriptor (lc_paths c))) (\<lambda>e. if NotExist \<in> set e then succeed None else fail e) (\<lambda>n.
       if \<not> is_regular (nd_contents n) \<or> nd_perm n \<noteq> mode_file \<or> nd_uid n \<noteq> ho_uid h then fail [LifecycleOwnership]
       else seq (read_file (lp_descriptor (lc_paths c))) (\<lambda>raw.
         if \<not> valid_descriptor_size raw then fail [LifecycleOwnership]
         else case ho_decode h raw of
                None \<Rightarrow> fail [LifecycleOwnership]
              | Some d \<Rightarrow> if raw \<noteq> ho_encode h d \<or> \<not> valid_descriptor c d then fail [LifecycleOwnership] else succeed (Some d)))"

definition manifest_path :: "lifecycle_config \<Rightarrow> string" where
  "manifest_path c = lp_descriptor (lc_paths c) @ ''.purge''"

definition manifest_bytes :: "'m host \<Rightarrow> lifecycle_config \<Rightarrow> string" where
  "manifest_bytes h c =
     (if lp_purge (lc_paths c) = [] then []
      else ho_encode_manifest h \<lparr>pm_schema = 1, pm_service = lc_service c, pm_paths = lp_purge (lc_paths c)\<rparr>)"

text \<open>\<open>os.Lstat\<close> where the path must not exist; the error of an existing one is an argument.\<close>

definition absent :: "string \<Rightarrow> ('m, unit) act" where
  "absent p = attempt (lstat p) (\<lambda>e. if NotExist \<in> set e then succeed () else fail e) (\<lambda>_. fail [LifecycleOwnership])"

definition verify_manifest :: "'m host \<Rightarrow> lifecycle_config \<Rightarrow> string \<Rightarrow> ('m, unit) act" where
  "verify_manifest h c expected =
     (if expected = [] then absent (manifest_path c) else verify_file h (manifest_path c) expected mode_file)"

definition lift_render :: "string option \<Rightarrow> ('m, string) act" where
  "lift_render x = (case x of None \<Rightarrow> fail [OtherError] | Some s \<Rightarrow> succeed s)"

definition verify_descriptor_unit :: "'m host \<Rightarrow> lifecycle_config \<Rightarrow> descriptor \<Rightarrow> ('m, unit) act" where
  "verify_descriptor_unit h c d =
     seq (lift_render (render_unit c d)) (\<lambda>current.
       case de_transition d of
         None \<Rightarrow> verify_file h (lp_unit (lc_paths c)) current mode_file
       | Some t \<Rightarrow>
           if uses_current_unit (Some t) then verify_file h (lp_unit (lc_paths c)) current mode_file
           else seq (lift_render (render_unit c (with_release d (tr_candidate t)))) (\<lambda>candidate.
             if tr_phase t = switching_unit
             then attempt (verify_file h (lp_unit (lc_paths c)) current mode_file)
                    (\<lambda>_. verify_file h (lp_unit (lc_paths c)) candidate mode_file) (\<lambda>_. succeed ())
             else verify_file h (lp_unit (lc_paths c)) candidate mode_file))"

definition other_releases :: "descriptor \<Rightarrow> release list" where
  "other_releases d = (case de_previous d of None \<Rightarrow> [] | Some r \<Rightarrow> [r]) @ (case de_pending d of None \<Rightarrow> [] | Some r \<Rightarrow> [r])"

definition verify_installation :: "'m host \<Rightarrow> lifecycle_config \<Rightarrow> ('m, descriptor) act" where
  "verify_installation h c =
     seq (read_descriptor h c) (\<lambda>x. case x of
       None \<Rightarrow> seq (absent (lp_unit (lc_paths c))) (\<lambda>_. fail [NotInstalled])
     | Some d \<Rightarrow>
         seq (each (\<lambda>(p, private). validate_directory h p private)
           ([(path_dir (lp_descriptor (lc_paths c)), True), (lp_binaries (lc_paths c), True), (path_dir (de_executable d), True),
             (path_dir (lp_unit (lc_paths c)), False)] @ map (\<lambda>r. (path_dir (re_executable r), True)) (other_releases d))) (\<lambda>_.
         seq (verify_descriptor_unit h c d) (\<lambda>_.
         seq (each (\<lambda>r. verify_executable h (re_executable r) (re_digest r)) (release_of d # other_releases d)) (\<lambda>_.
         seq (verify_manifest h c (manifest_bytes h c)) (\<lambda>_.
           if de_transition d \<noteq> None then fail [UpgradeRecoveryRequired] else succeed d)))))"

subsection \<open>Running it\<close>

definition lifecycle_status_of :: "'m host \<Rightarrow> lifecycle_config \<Rightarrow> ('m, lifecycle_status) act" where
  "lifecycle_status_of h c =
     attempt (verify_installation h c) (\<lambda>e. if NotInstalled \<in> set e then succeed no_status else fail e) (manager_status h)"

text \<open>An operation under the lock: the installation is verified, locked and verified again.\<close>

definition with_installation :: "'m host \<Rightarrow> lifecycle_config \<Rightarrow> (descriptor \<Rightarrow> ('m, 'a) act) \<Rightarrow> ('m, 'a) act" where
  "with_installation h c K =
     seq (verify_installation h c) (\<lambda>_. seq (lock_installed h c) (\<lambda>_. seq (verify_installation h c) K))"

text \<open>Results with an error beside them are pairs.\<close>

definition finish :: "'r \<Rightarrow> errors \<Rightarrow> 'm machine \<Rightarrow> ('r \<times> errors) \<times> 'm machine" where
  "finish r e w = ((r, e), w)"

definition require_active :: "'m host \<Rightarrow> descriptor \<Rightarrow> 'm machine \<Rightarrow> (lifecycle_status \<times> errors) \<times> 'm machine" where
  "require_active h d =
     attempt (manager_status h d) (finish no_status) (\<lambda>s. finish s (if active_process s then [] else [OtherError]))"

definition start_service :: "'m host \<Rightarrow> lifecycle_config \<Rightarrow> string list \<Rightarrow> bool \<Rightarrow> 'm machine \<Rightarrow> (lifecycle_status \<times> errors) \<times> 'm machine" where
  "start_service h c expected enabled_only =
     attempt (with_installation h c succeed) (finish no_status) (\<lambda>d.
       if enabled_only \<and> de_arguments d \<noteq> expected then finish no_status [LifecycleOwnership]
       else attempt (owned_manager_status h d) (finish no_status) (\<lambda>prior.
         if enabled_only \<and> \<not> ls_enabled prior then finish no_status [LifecycleDisabled]
         else attempt (run_systemctl h [''start'', de_unit d]) (finish no_status) (\<lambda>_.
           attempt (wait_ready h d) (finish no_status) (\<lambda>_. require_active h d))))"

definition finish_resumed :: "'m host \<Rightarrow> bool \<Rightarrow> 'r \<Rightarrow> errors \<Rightarrow> 'm machine \<Rightarrow> ('r \<times> errors) \<times> 'm machine" where
  "finish_resumed h client r cause w = (let (e, w') = resume_after h client cause w in ((r, e), w'))"

definition restart_service :: "'m host \<Rightarrow> lifecycle_config \<Rightarrow> 'm machine \<Rightarrow> (lifecycle_status \<times> errors) \<times> 'm machine" where
  "restart_service h c =
     attempt (with_installation h c succeed) (finish no_status) (\<lambda>d.
       attempt (owned_manager_status h d) (finish no_status) (\<lambda>prior.
         attempt (drain_active h d (ls_active prior)) (finish no_status) (\<lambda>client.
           attempt (run_systemctl h [''restart'', de_unit d]) (finish_resumed h client no_status) (\<lambda>_.
             attempt (manager_status h d) (finish no_status) (\<lambda>after.
               if ls_active prior \<and> same_process after prior then finish_resumed h client after [OtherError]
               else if \<not> active_process after then finish after [OtherError]
               else attempt (wait_ready h d) (finish after) (\<lambda>_. require_active h d))))))"

definition stop_service :: "'m host \<Rightarrow> lifecycle_config \<Rightarrow> 'm machine \<Rightarrow> (lifecycle_status \<times> errors) \<times> 'm machine" where
  "stop_service h c =
     attempt (with_installation h c succeed) (finish no_status) (\<lambda>d.
       attempt (manager_status h d) (finish no_status) (\<lambda>prior.
         attempt (drain_active h d (ls_active prior)) (finish no_status) (\<lambda>client.
           attempt (run_systemctl h [''stop'', de_unit d]) (finish_resumed h client no_status) (\<lambda>_.
             attempt (manager_status h d) (finish_resumed h client no_status) (\<lambda>s.
               if \<not> terminal_stopped s then finish_resumed h client s [OtherError] else finish s [])))))"

definition set_enabled :: "'m host \<Rightarrow> lifecycle_config \<Rightarrow> bool \<Rightarrow> 'm machine \<Rightarrow> (lifecycle_status \<times> errors) \<times> 'm machine" where
  "set_enabled h c enabled =
     attempt (with_installation h c succeed) (finish no_status) (\<lambda>d.
       attempt (owned_manager_status h d) (finish no_status) (\<lambda>_.
         attempt (run_systemctl h [if enabled then ''enable'' else ''disable'', de_unit d]) (finish no_status) (\<lambda>_.
           attempt (manager_status h d) (finish no_status) (\<lambda>s.
             finish s (if ls_enabled s \<noteq> enabled then [OtherError] else [])))))"

end
