(* ===== verification/LifeUpgrade.thy ===== *)
theory LifeUpgrade
  imports LifeService
begin

text \<open>
  Installing, staging and activating releases of a service
  (runtime/servicehost/lifecycle.go).

  Install writes the executable, the unit file, the descriptor and the purge manifest, in this
  order, and takes back what it wrote when a later step fails.  An upgrade is staged as the
  descriptor's pending release; activating it moves the descriptor through the phases of a
  transition while the unit file is exchanged, and goes back when the candidate does not run.

  Whether the context is over at the start is an argument, and so is the caller's check that
  the previous release reads the current state.
\<close>

unbundle bit_operations_syntax

subsection \<open>Install\<close>

record install_request =
  iq_consent :: bool
  iq_source :: string
  iq_version :: string
  iq_arguments :: "string list"

record install_result =
  ir_unit :: string
  ir_descriptor :: string
  ir_executable :: string
  ir_version :: string
  ir_changed :: bool

definition no_install :: install_result where
  "no_install = \<lparr>ir_unit = [], ir_descriptor = [], ir_executable = [], ir_version = [], ir_changed = False\<rparr>"

definition descriptor_of_request :: "'m host \<Rightarrow> lifecycle_config \<Rightarrow> install_request \<Rightarrow> string \<Rightarrow> descriptor" where
  "descriptor_of_request h c q source =
     \<lparr>de_schema = descriptor_version, de_unit = lc_unit c, de_service = lc_service c, de_unit_path = lp_unit (lc_paths c),
       de_executable = path_join [lp_binaries (lc_paths c), iq_version q, ''service''], de_digest = ho_digest h source,
       de_version = iq_version q, de_arguments = iq_arguments q, de_protocol = lc_protocol c, de_runtime = lp_runtime (lc_paths c),
       de_runtime_name = lp_runtime_name (lc_paths c), de_socket = lp_socket (lc_paths c), de_previous = None, de_pending = None,
       de_transition = None, de_purge = lp_purge (lc_paths c)\<rparr>"

definition descriptor_for_install :: "'m host \<Rightarrow> lifecycle_config \<Rightarrow> install_request \<Rightarrow> ('m, descriptor \<times> string) act" where
  "descriptor_for_install h c q =
     (if \<not> clean_absolute (iq_source q) \<or> \<not> valid_lifecycle_token (iq_version q) then fail [OtherError]
      else if \<not> list_all (\<lambda>a. quote_unit_value a \<noteq> None) (iq_arguments q) then fail [OtherError]
      else attempt (lstat (iq_source q)) (\<lambda>e. fail [OtherError]) (\<lambda>info.
        if \<not> is_regular (nd_contents info) then fail [OtherError]
        else seq (lstat (iq_source q)) (\<lambda>n. seq flush (\<lambda>_.
          if \<not> is_regular (nd_contents n) \<or> nd_perm n AND mode_executable = 0 \<or> nd_uid n \<noteq> ho_uid h \<or> nd_inode n \<noteq> nd_inode info
          then fail [OtherError]
          else seq (read_file (iq_source q)) (\<lambda>source. seq flush (\<lambda>_.
            let executable = path_join [lp_binaries (lc_paths c), iq_version q, ''service''] in
            if path_dir (path_dir executable) \<noteq> lp_binaries (lc_paths c) \<or> path_base (path_dir executable) \<noteq> iq_version q
            then fail [OtherError]
            else succeed (descriptor_of_request h c q source, source)))))))"

fun roll_back :: "owned_file list \<Rightarrow> errors \<Rightarrow> ('m, 'a) act" where
  "roll_back [] cause = fail cause"
| "roll_back (f # fs) cause = attempt (remove_owned f) (\<lambda>e. roll_back fs (cause @ e)) (\<lambda>_. roll_back fs cause)"

definition install_files :: "'m host \<Rightarrow> lifecycle_config \<Rightarrow> descriptor \<Rightarrow> string \<Rightarrow> string \<Rightarrow> string \<Rightarrow> ('m, unit) act" where
  "install_files h c d source u manifest =
     seq (copy_executable h source (de_executable d)) (\<lambda>binary.
     attempt (verify_executable h (de_executable d) (de_digest d)) (roll_back [binary]) (\<lambda>_.
     attempt (write_new h (lp_unit (lc_paths c)) u mode_file) (roll_back [binary]) (\<lambda>uf.
     attempt (write_new h (lp_descriptor (lc_paths c)) (ho_encode h d) mode_file) (roll_back [uf, binary]) (\<lambda>df.
     attempt (if manifest = [] then succeed [] else seq (write_new h (manifest_path c) manifest mode_file) (\<lambda>f. succeed [f]))
       (roll_back [df, uf, binary]) (\<lambda>ms.
     attempt (daemon_reload h) (roll_back (ms @ [df, uf, binary])) succeed)))))"

text \<open>A purge manifest of an earlier installation stays when it is the same.\<close>

definition manifest_retained :: "'m host \<Rightarrow> lifecycle_config \<Rightarrow> string \<Rightarrow> ('m, bool) act" where
  "manifest_retained h c manifest =
     (if manifest = [] then succeed False
      else attempt (lstat (manifest_path c)) (\<lambda>e. if NotExist \<in> set e then succeed False else fail e)
             (\<lambda>_. seq (verify_manifest h c manifest) (\<lambda>_. succeed True)))"

definition install_new :: "'m host \<Rightarrow> lifecycle_config \<Rightarrow> descriptor \<Rightarrow> string \<Rightarrow> string \<Rightarrow> ('m, unit) act" where
  "install_new h c d source u =
     seq (manifest_retained h c (manifest_bytes h c)) (\<lambda>retained.
     seq (each absent ([lp_unit (lc_paths c), lp_descriptor (lc_paths c), de_executable d] @ (if retained then [] else [manifest_path c]))) (\<lambda>_.
       install_files h c d source u (if retained then [] else manifest_bytes h c)))"

definition install_again :: "'m host \<Rightarrow> lifecycle_config \<Rightarrow> descriptor \<Rightarrow> descriptor \<Rightarrow> string \<Rightarrow> ('m, unit) act" where
  "install_again h c existing d u =
     (if de_transition existing \<noteq> None then fail [UpgradeRecoveryRequired]
      else if desired_comparable existing \<noteq> desired_comparable d then fail [UpgradeRequired]
      else seq (verify_file h (lp_unit (lc_paths c)) u mode_file) (\<lambda>_.
        seq (verify_executable h (de_executable d) (de_digest d)) (\<lambda>_.
        seq (verify_manifest h c (manifest_bytes h c)) (\<lambda>_. daemon_reload h))))"

definition install_locked :: "'m host \<Rightarrow> lifecycle_config \<Rightarrow> descriptor \<Rightarrow> string \<Rightarrow> string \<Rightarrow> ('m, bool) act" where
  "install_locked h c d source u =
     seq (ensure_directories h (lc_paths c)) (\<lambda>_.
     seq (acquire_lock h LifecycleOwnership LifecycleBusy (lp_descriptor (lc_paths c) @ ''.lock'')) (\<lambda>_.
     seq (read_descriptor h c) (\<lambda>existing.
       case existing of
         Some x \<Rightarrow> seq (install_again h c x d u) (\<lambda>_. succeed False)
       | None \<Rightarrow> seq (install_new h c d source u) (\<lambda>_. succeed True))))"

definition install :: "'m host \<Rightarrow> lifecycle_config \<Rightarrow> bool \<Rightarrow> install_request \<Rightarrow> 'm machine \<Rightarrow> (install_result \<times> errors) \<times> 'm machine" where
  "install h c over q =
     (if \<not> iq_consent q then finish no_install [ConsentRequired]
      else if over then finish no_install [OtherError]
      else attempt (descriptor_for_install h c q) (finish no_install) (\<lambda>x.
        let d = fst x; r = \<lparr>ir_unit = lp_unit (lc_paths c), ir_descriptor = lp_descriptor (lc_paths c), ir_executable = de_executable d,
              ir_version = de_version d, ir_changed = False\<rparr> in
        case render_unit c d of
          None \<Rightarrow> finish r [OtherError]
        | Some u \<Rightarrow>
            if \<not> valid_descriptor_size (ho_encode h d) then finish r [OtherError]
            else attempt (install_locked h c d (snd x) u) (finish r) (\<lambda>changed. finish (r\<lparr>ir_changed := changed\<rparr>) [])))"

subsection \<open>Staging\<close>

definition replace_descriptor :: "'m host \<Rightarrow> lifecycle_config \<Rightarrow> descriptor \<Rightarrow> descriptor \<Rightarrow> ('m, unit) act" where
  "replace_descriptor h c current new =
     (if \<not> valid_descriptor c new then fail [LifecycleOwnership]
      else if \<not> valid_descriptor_size (ho_encode h new) then fail [OtherError]
      else replace_file h (lp_descriptor (lc_paths c)) (ho_encode h current) (ho_encode h new) mode_file True)"

record stage_result =
  sr_current :: string
  sr_pending :: string
  sr_executable :: string
  sr_changed :: bool

text \<open>The candidate's executable is copied unless it is there already.\<close>

definition stage_executable :: "'m host \<Rightarrow> release \<Rightarrow> string \<Rightarrow> ('m, owned_file list) act" where
  "stage_executable h candidate source =
     attempt (lstat (re_executable candidate))
       (\<lambda>e. if NotExist \<in> set e then seq (copy_executable h source (re_executable candidate)) (\<lambda>f. succeed [f]) else fail e)
       (\<lambda>_. seq (validate_directory h (path_dir (re_executable candidate)) True) (\<lambda>_. succeed []))"

definition stage_new :: "'m host \<Rightarrow> lifecycle_config \<Rightarrow> descriptor \<Rightarrow> release \<Rightarrow> string \<Rightarrow> ('m, unit) act" where
  "stage_new h c d candidate source =
     seq (stage_executable h candidate source) (\<lambda>created.
     attempt (validate_directory h (path_dir (re_executable candidate)) True) (roll_back created) (\<lambda>_.
     attempt (verify_executable h (re_executable candidate) (re_digest candidate)) (roll_back created) (\<lambda>_.
     attempt (replace_descriptor h c d (d\<lparr>de_pending := Some candidate\<rparr>)) (roll_back created) succeed)))"

definition no_stage :: stage_result where
  "no_stage = \<lparr>sr_current = [], sr_pending = [], sr_executable = [], sr_changed = False\<rparr>"

definition stage_upgrade :: "'m host \<Rightarrow> lifecycle_config \<Rightarrow> bool \<Rightarrow> install_request \<Rightarrow> 'm machine \<Rightarrow> (stage_result \<times> errors) \<times> 'm machine" where
  "stage_upgrade h c over q =
     (if \<not> iq_consent q then finish no_stage [ConsentRequired]
      else if over then finish no_stage [OtherError]
      else attempt (descriptor_for_install h c q) (finish no_stage) (\<lambda>x.
        let candidate = release_of (fst x);
            r = no_stage\<lparr>sr_pending := re_version candidate, sr_executable := re_executable candidate\<rparr> in
        attempt (with_installation h c succeed) (finish r) (\<lambda>d.
          let r' = r\<lparr>sr_current := de_version d\<rparr> in
          if release_of d = candidate then finish (r'\<lparr>sr_pending := de_version d, sr_executable := de_executable d\<rparr>) []
          else if re_version candidate = de_version d then finish r' [UpgradeRequired]
          else case de_pending d of
                 Some p \<Rightarrow>
                   if p = candidate then attempt (verify_executable h (re_executable candidate) (re_digest candidate)) (finish r') (\<lambda>_. finish r' [])
                   else finish r' [UpgradeRequired]
               | None \<Rightarrow> attempt (stage_new h c d candidate (snd x)) (finish r') (\<lambda>_. finish (r'\<lparr>sr_changed := True\<rparr>) []))))"

subsection \<open>Activation\<close>

record activation_result =
  ar_status :: lifecycle_status
  ar_current :: string
  ar_previous :: string
  ar_rolled_back :: bool
  ar_recovery :: bool

type_synonym 'm activation = "'m machine \<Rightarrow> (activation_result \<times> errors) \<times> 'm machine"

definition no_activation :: activation_result where
  "no_activation = \<lparr>ar_status = no_status, ar_current = [], ar_previous = [], ar_rolled_back = False, ar_recovery = False\<rparr>"

definition publish_transition :: "'m host \<Rightarrow> lifecycle_config \<Rightarrow> descriptor \<Rightarrow> ('m, unit) act" where
  "publish_transition h c new = replace_descriptor h c (new\<lparr>de_transition := None\<rparr>) new"

definition set_phase :: "'m host \<Rightarrow> lifecycle_config \<Rightarrow> descriptor \<Rightarrow> string \<Rightarrow> ('m, descriptor) act" where
  "set_phase h c d phase =
     (case de_transition d of
        None \<Rightarrow> fail [UpgradeRecoveryRequired]
      | Some t \<Rightarrow>
          let new = d\<lparr>de_transition := Some (t\<lparr>tr_phase := phase\<rparr>)\<rparr>
          in seq (replace_descriptor h c d new) (\<lambda>_. succeed new))"

definition mark_recovery :: "'m host \<Rightarrow> lifecycle_config \<Rightarrow> descriptor \<Rightarrow> errors \<Rightarrow> 'm machine \<Rightarrow> errors \<times> 'm machine" where
  "mark_recovery h c d cause =
     (case de_transition d of
        None \<Rightarrow> (\<lambda>w. (UpgradeRecoveryRequired # cause, w))
      | Some t \<Rightarrow> attempt (replace_descriptor h c d (d\<lparr>de_transition := Some (t\<lparr>tr_recovery := True\<rparr>)\<rparr>))
          (\<lambda>e w. (UpgradeRecoveryRequired # cause @ e, w)) (\<lambda>_ w. (UpgradeRecoveryRequired # cause, w)))"

definition recover :: "'m host \<Rightarrow> lifecycle_config \<Rightarrow> descriptor \<Rightarrow> activation_result \<Rightarrow> errors \<Rightarrow> 'm activation" where
  "recover h c d r cause w = (let (e, w') = mark_recovery h c d cause w in ((r\<lparr>ar_recovery := True\<rparr>, e), w'))"

text \<open>The service still runs: the transition is taken back and its admissions are resumed.\<close>

definition abort_upgrade :: "'m host \<Rightarrow> lifecycle_config \<Rightarrow> descriptor \<Rightarrow> bool \<Rightarrow> activation_result \<Rightarrow> errors \<Rightarrow> 'm activation" where
  "abort_upgrade h c d client r cause =
     attempt (replace_descriptor h c d (d\<lparr>de_transition := None\<rparr>))
       (\<lambda>e w. let (e', w') = resume_after h client (cause @ e) w in ((r\<lparr>ar_recovery := True\<rparr>, UpgradeRecoveryRequired # e'), w'))
       (\<lambda>_ w. let (e', w') = resume_after h client cause w in ((r\<lparr>ar_recovery := UpgradeRecoveryRequired \<in> set e'\<rparr>, e'), w'))"

definition terminal_error :: "(errors + lifecycle_status) \<Rightarrow> errors" where
  "terminal_error x = (case x of Inl e \<Rightarrow> e | Inr s \<Rightarrow> if terminal_stopped s then [] else [OtherError])"

definition status_or_none :: "(errors + lifecycle_status) \<Rightarrow> lifecycle_status" where
  "status_or_none x = (case x of Inl e \<Rightarrow> no_status | Inr s \<Rightarrow> s)"

text \<open>A status whose error is kept for later.\<close>

definition try_status :: "'m host \<Rightarrow> descriptor \<Rightarrow> (errors + lifecycle_status \<Rightarrow> 'm activation) \<Rightarrow> 'm activation" where
  "try_status h d K w = (let (x, w') = manager_status h d w in K x w')"

text \<open>\<open>failPreviousRestore\<close> and \<open>failStoppedRollback\<close>: stop, and leave the upgrade to recovery.\<close>

definition stop_and_recover :: "'m host \<Rightarrow> lifecycle_config \<Rightarrow> descriptor \<Rightarrow> descriptor \<Rightarrow> activation_result \<Rightarrow> errors \<Rightarrow> 'm activation" where
  "stop_and_recover h c d sd r cause =
     (let K = (\<lambda>stop_error. try_status h sd (\<lambda>x. recover h c d (r\<lparr>ar_status := status_or_none x\<rparr>) (cause @ stop_error @ terminal_error x)))
      in attempt (run_systemctl h [''stop'', de_unit d]) K (\<lambda>_. K []))"

text \<open>The service was stopped and is started again: it must run, be ready and still run.\<close>

definition start_checked :: "'m host \<Rightarrow> descriptor \<Rightarrow> ('m, lifecycle_status) act" where
  "start_checked h d =
     seq (run_systemctl h [''start'', de_unit d]) (\<lambda>_.
     seq (manager_status h d) (\<lambda>started. if \<not> active_process started then fail [OtherError]
     else seq (wait_ready h d) (\<lambda>_.
     seq (manager_status h d) (\<lambda>ready. if \<not> active_process ready then fail [OtherError] else succeed ready))))"

definition restore_previous :: "'m host \<Rightarrow> lifecycle_config \<Rightarrow> descriptor \<Rightarrow> bool \<Rightarrow> lifecycle_status \<Rightarrow> activation_result \<Rightarrow> errors \<Rightarrow> 'm activation" where
  "restore_previous h c d client prior r cause =
     try_status h d (\<lambda>x.
       if same_process (status_or_none x) prior then abort_upgrade h c d client (r\<lparr>ar_status := status_or_none x\<rparr>) cause
       else if terminal_error x \<noteq> [] then recover h c d (r\<lparr>ar_status := status_or_none x\<rparr>) (cause @ terminal_error x)
       else attempt (seq (start_checked h d) (\<lambda>ready. seq (replace_descriptor h c d (d\<lparr>de_transition := None\<rparr>)) (\<lambda>_. succeed ready)))
              (\<lambda>e. stop_and_recover h c d d r (cause @ e))
              (\<lambda>ready. finish (r\<lparr>ar_status := ready\<rparr>) cause))"

type_synonym 'm rollback_check = "release \<Rightarrow> release \<Rightarrow> files \<times> 'm \<Rightarrow> bool option \<times> files \<times> 'm"

text \<open>The unit file goes back to the previous release.\<close>

definition switch_back :: "'m host \<Rightarrow> lifecycle_config \<Rightarrow> descriptor \<Rightarrow> descriptor \<Rightarrow> descriptor \<Rightarrow> ('m, unit) act" where
  "switch_back h c d cd pd =
     seq (lift_render (render_unit c cd)) (\<lambda>cu. seq (lift_render (render_unit c pd)) (\<lambda>pu.
       replace_file h (lp_unit (lc_paths c)) cu pu mode_file False))"

definition restart_previous ::
  "'m host \<Rightarrow> lifecycle_config \<Rightarrow> descriptor \<Rightarrow> transition \<Rightarrow> descriptor \<Rightarrow> activation_result \<Rightarrow> errors \<Rightarrow> 'm activation" where
  "restart_previous h c d1 t cd r cause =
     (let pd = with_release d1 (tr_previous t) in
      attempt (switch_back h c d1 cd pd) (\<lambda>e. recover h c d1 r (cause @ e)) (\<lambda>_.
      attempt (set_phase h c d1 previous_stopped) (\<lambda>e. recover h c d1 r (cause @ e)) (\<lambda>d2.
      attempt (daemon_reload h) (\<lambda>e. recover h c d2 r (cause @ e)) (\<lambda>_.
      attempt (seq (start_checked h pd) (\<lambda>ready. seq (replace_descriptor h c d2 (pd\<lparr>de_transition := None\<rparr>)) (\<lambda>_. succeed ready)))
        (\<lambda>e. stop_and_recover h c d2 pd r (cause @ e))
        (\<lambda>ready. finish (r\<lparr>ar_status := ready, ar_current := re_version (tr_previous t), ar_previous := re_version (tr_candidate t), ar_rolled_back := True\<rparr>)
          (UpgradeRolledBack # cause))))))"

text \<open>The candidate must be stopped, and the previous release able to read its state.\<close>

definition roll_back_stopped ::
  "'m host \<Rightarrow> lifecycle_config \<Rightarrow> descriptor \<Rightarrow> transition \<Rightarrow> descriptor \<Rightarrow> 'm rollback_check \<Rightarrow> activation_result \<Rightarrow> errors \<Rightarrow> 'm activation" where
  "roll_back_stopped h c d t cd check r cause =
     try_status h cd (\<lambda>x.
        if terminal_error x \<noteq> [] then recover h c d r (cause @ terminal_error x)
        else attempt (outside or_other (check (tr_previous t) (tr_candidate t))) (\<lambda>e. recover h c d (r\<lparr>ar_status := status_or_none x\<rparr>) (cause @ e)) (\<lambda>compatible.
          if \<not> compatible then recover h c d (r\<lparr>ar_status := status_or_none x\<rparr>) (cause @ [OtherError])
          else attempt (set_phase h c d switching_unit) (\<lambda>e. recover h c d r (cause @ e)) (\<lambda>d1. restart_previous h c d1 t cd r cause)))"

definition roll_back_candidate ::
  "'m host \<Rightarrow> lifecycle_config \<Rightarrow> descriptor \<Rightarrow> transition \<Rightarrow> descriptor \<Rightarrow> 'm rollback_check \<Rightarrow> activation_result \<Rightarrow> errors \<Rightarrow> 'm activation" where
  "roll_back_candidate h c d t cd check r cause =
     attempt (run_systemctl h [''stop'', de_unit d]) (\<lambda>e. roll_back_stopped h c d t cd check r (cause @ e))
       (\<lambda>_. roll_back_stopped h c d t cd check r cause)"

text \<open>The candidate runs under a new process, is ready, and the descriptor makes it current.\<close>

definition finish_candidate ::
  "'m host \<Rightarrow> lifecycle_config \<Rightarrow> descriptor \<Rightarrow> transition \<Rightarrow> descriptor \<Rightarrow> lifecycle_status \<Rightarrow> 'm rollback_check \<Rightarrow> activation_result \<Rightarrow> 'm activation" where
  "finish_candidate h c d t cd prior check r =
     attempt (seq (run_systemctl h [''start'', de_unit d]) (\<lambda>_. manager_status h cd)) (roll_back_candidate h c d t cd check r) (\<lambda>started.
       if \<not> active_process started \<or> ls_active prior \<and> ls_main_pid started = ls_main_pid prior
       then roll_back_candidate h c d t cd check r [OtherError]
       else attempt (set_phase h c d candidate_started) (recover h c d r) (\<lambda>d'.
         attempt (seq (wait_ready h cd) (\<lambda>_. manager_status h cd)) (roll_back_candidate h c d' t cd check r) (\<lambda>ready.
           if \<not> active_process ready then roll_back_candidate h c d' t cd check r [OtherError]
           else attempt (replace_descriptor h c d' (cd\<lparr>de_previous := Some (tr_previous t), de_pending := None, de_transition := None\<rparr>))
                  (roll_back_candidate h c d' t cd check r)
                  (\<lambda>_. finish (r\<lparr>ar_status := ready, ar_current := re_version (tr_candidate t), ar_previous := re_version (tr_previous t)\<rparr>) []))))"

text \<open>The unit file is exchanged between two phases.\<close>

definition switch_unit ::
  "'m host \<Rightarrow> lifecycle_config \<Rightarrow> descriptor \<Rightarrow> transition \<Rightarrow> lifecycle_status \<Rightarrow> 'm rollback_check \<Rightarrow> activation_result \<Rightarrow> 'm activation" where
  "switch_unit h c d t prior check r =
     attempt (set_phase h c d previous_stopped) (recover h c d r) (\<lambda>d1.
     attempt (set_phase h c d1 switching_unit) (recover h c d1 r) (\<lambda>d2.
     let cd = with_release d2 (tr_candidate t) in
     attempt (seq (lift_render (render_unit c d2)) (\<lambda>u. seq (lift_render (render_unit c cd)) (\<lambda>v.
         replace_file h (lp_unit (lc_paths c)) u v mode_file False))) (recover h c d2 r) (\<lambda>_.
     attempt (set_phase h c d2 candidate_unit) (recover h c d2 r) (\<lambda>d3.
     attempt (daemon_reload h) (recover h c d3 r) (\<lambda>_.
       finish_candidate h c d3 t cd prior check r)))))"

definition stop_previous ::
  "'m host \<Rightarrow> lifecycle_config \<Rightarrow> descriptor \<Rightarrow> transition \<Rightarrow> bool \<Rightarrow> lifecycle_status \<Rightarrow> 'm rollback_check \<Rightarrow> activation_result \<Rightarrow> 'm activation" where
  "stop_previous h c d t client prior check r =
     attempt (seq (if ls_active prior then run_systemctl h [''stop'', de_unit d] else succeed []) (\<lambda>_. manager_status h d))
       (restore_previous h c d client prior r) (\<lambda>stopped.
       if terminal_stopped stopped then switch_unit h c d t prior check r
       else if ls_active stopped \<and> ls_main_pid stopped = ls_main_pid prior then abort_upgrade h c d client r [OtherError]
       else recover h c d r [OtherError])"

definition activate_pending :: "'m host \<Rightarrow> lifecycle_config \<Rightarrow> descriptor \<Rightarrow> release \<Rightarrow> 'm rollback_check \<Rightarrow> 'm activation" where
  "activate_pending h c d candidate check =
     (let r = no_activation\<lparr>ar_current := de_version d, ar_previous := de_version d\<rparr> in
      attempt (owned_manager_status h d) (finish r) (\<lambda>prior.
      attempt (drain_active h d (ls_active prior)) (finish r) (\<lambda>client.
        let t = \<lparr>tr_phase = stopping_previous, tr_previous = release_of d, tr_candidate = candidate, tr_source_pid = ls_main_pid prior, tr_recovery = False\<rparr>;
            d1 = d\<lparr>de_transition := Some t\<rparr> in
        attempt (publish_transition h c d1) (finish_resumed h client r) (\<lambda>_. stop_previous h c d1 t client prior check r))))"

definition activate_upgrade :: "'m host \<Rightarrow> lifecycle_config \<Rightarrow> bool \<Rightarrow> bool \<Rightarrow> 'm rollback_check option \<Rightarrow> 'm activation" where
  "activate_upgrade h c over confirm check =
     (if \<not> confirm then finish no_activation [ConsentRequired]
      else case check of
        None \<Rightarrow> finish no_activation [OtherError]
      | Some check \<Rightarrow>
          if over then finish no_activation [OtherError]
          else attempt (with_installation h c succeed) (finish no_activation) (\<lambda>d.
            case de_pending d of
              None \<Rightarrow> finish no_activation [UpgradeRequired]
            | Some candidate \<Rightarrow> activate_pending h c d candidate check))"

end
