(* ===== verification/LifeUninstall.thy ===== *)
theory LifeUninstall
  imports LifeUpgrade
begin

text \<open>
  Uninstalling a service and purging its data (runtime/servicehost/lifecycle.go).

  Uninstall checks everything it is about to remove first, stops the service, and removes the
  socket, the executables, the unit file and, once the manager has forgotten the unit, the
  descriptor.  Purge removes the trees the configuration names, children first, and the purge
  manifest at the end.
\<close>

subsection \<open>Uninstall\<close>

record uninstall_result =
  ur_removed_unit :: bool
  ur_removed_descriptor :: bool
  ur_removed_socket :: bool
  ur_removed_executables :: "string list"
  ur_already_absent :: bool

definition no_uninstall :: uninstall_result where
  "no_uninstall = \<lparr>ur_removed_unit = False, ur_removed_descriptor = False, ur_removed_socket = False, ur_removed_executables = [], ur_already_absent = False\<rparr>"

definition expected_unit :: "'m host \<Rightarrow> lifecycle_config \<Rightarrow> descriptor \<Rightarrow> ('m, string) act" where
  "expected_unit h c d =
     seq (lift_render (render_unit c d)) (\<lambda>current.
       attempt (verify_file h (lp_unit (lc_paths c)) current mode_file)
         (\<lambda>_. case de_transition d of
            None \<Rightarrow> fail [LifecycleOwnership]
          | Some t \<Rightarrow>
              if uses_current_unit (Some t) then fail [LifecycleOwnership]
              else seq (lift_render (render_unit c (with_release d (tr_candidate t)))) (\<lambda>candidate.
                seq (verify_file h (lp_unit (lc_paths c)) candidate mode_file) (\<lambda>_. succeed candidate)))
         (\<lambda>_. succeed current))"

definition unit_inventory :: "'m host \<Rightarrow> lifecycle_config \<Rightarrow> descriptor \<Rightarrow> ('m, bool) act" where
  "unit_inventory h c d =
     attempt (lstat (lp_unit (lc_paths c))) (\<lambda>e. if NotExist \<in> set e then succeed False else fail e)
       (\<lambda>_. seq (expected_unit h c d) (\<lambda>_. succeed True))"

definition version_inventory :: "'m host \<Rightarrow> lifecycle_config \<Rightarrow> release list \<Rightarrow> string \<times> bool \<Rightarrow> ('m, unit) act" where
  "version_inventory h c releases e =
     (case find (\<lambda>r. re_version r = fst e) releases of
        None \<Rightarrow> fail [LifecycleOwnership]
      | Some r \<Rightarrow>
          if \<not> snd e then fail [LifecycleOwnership]
          else
            let dir = path_join [lp_binaries (lc_paths c), fst e] in
            seq (validate_directory h dir True) (\<lambda>_.
            seq (read_dir dir) (\<lambda>children.
              if \<not> list_all (\<lambda>x. fst x = ''service'' \<and> \<not> snd x) children then fail [LifecycleOwnership]
              else attempt (lstat (re_executable r)) (\<lambda>e. if NotExist \<in> set e then succeed () else fail e)
                     (\<lambda>_. verify_executable h (re_executable r) (re_digest r)))))"

definition uninstall_inventory :: "'m host \<Rightarrow> lifecycle_config \<Rightarrow> descriptor \<Rightarrow> ('m, bool) act" where
  "uninstall_inventory h c d =
     seq (verify_manifest h c (manifest_bytes h c)) (\<lambda>_.
     seq (each (\<lambda>(p, private). validate_directory h p private)
       [(path_dir (lp_descriptor (lc_paths c)), True), (path_dir (lp_unit (lc_paths c)), False)]) (\<lambda>_.
     seq (unit_inventory h c d) (\<lambda>unit_exists.
     attempt (read_dir (lp_binaries (lc_paths c))) (\<lambda>e. if NotExist \<in> set e then succeed unit_exists else fail e) (\<lambda>es.
       seq (validate_directory h (lp_binaries (lc_paths c)) True) (\<lambda>_.
       seq (each (version_inventory h c (unique_releases d)) es) (\<lambda>_. succeed unit_exists))))))"

definition stop_for_uninstall :: "'m host \<Rightarrow> descriptor \<Rightarrow> lifecycle_status \<Rightarrow> ('m, unit) act" where
  "stop_for_uninstall h d prior =
     (if ls_fragment prior \<noteq> de_unit_path d then fail [LifecycleOwnership]
      else seq (drain_active h (running_descriptor d prior) (ls_active prior)) (\<lambda>client.
        attempt (run_systemctl h [''disable'', de_unit d]) (fail_resumed h client) (\<lambda>_.
        attempt (if ls_active prior then run_systemctl h [''stop'', de_unit d] else succeed []) (fail_resumed h client) (\<lambda>_.
        attempt (manager_status h d) (fail_resumed h client) (\<lambda>stopped.
          if \<not> terminal_stopped stopped then fail_resumed h client [OtherError] else succeed ())))))"

definition release_manager :: "'m host \<Rightarrow> descriptor \<Rightarrow> bool \<Rightarrow> ('m, unit) act" where
  "release_manager h d unit_exists =
     seq (manager_status h d) (\<lambda>manager.
       if ls_load_state manager = ''loaded'' then
         if \<not> unit_exists then
           if \<not> terminal_stopped manager then fail [OtherError]
           else seq (run_systemctl h [''disable'', de_unit d]) (\<lambda>_. succeed ())
         else stop_for_uninstall h d manager
       else if \<not> safe_unloaded manager then fail [OtherError]
       else succeed ())"

fun remove_executables :: "'m host \<Rightarrow> release list \<Rightarrow> string list \<Rightarrow> 'm machine \<Rightarrow> (string list \<times> errors) \<times> 'm machine" where
  "remove_executables h [] removed = finish removed []"
| "remove_executables h (r # rs) removed =
     attempt (remove_verified_executable h r) (finish removed)
       (\<lambda>gone. remove_executables h rs (if gone then removed @ [re_executable r] else removed))"

definition remove_unit :: "'m host \<Rightarrow> lifecycle_config \<Rightarrow> descriptor \<Rightarrow> bool \<Rightarrow> ('m, bool) act" where
  "remove_unit h c d unit_exists =
     (if \<not> unit_exists then succeed False
      else seq (expected_unit h c d) (\<lambda>u. remove_verified h (lp_unit (lc_paths c)) u mode_file))"

definition forget_service :: "'m host \<Rightarrow> descriptor \<Rightarrow> ('m, unit) act" where
  "forget_service h d =
     seq (daemon_reload h) (\<lambda>_. seq (manager_status h d) (\<lambda>s. if \<not> manager_absent s then fail [OtherError] else succeed ()))"

definition uninstall_rest :: "'m host \<Rightarrow> lifecycle_config \<Rightarrow> descriptor \<Rightarrow> bool \<Rightarrow> uninstall_result \<Rightarrow> 'm machine \<Rightarrow> (uninstall_result \<times> errors) \<times> 'm machine" where
  "uninstall_rest h c d unit_exists r =
     attempt (remove_empty_binaries (lp_binaries (lc_paths c))) (finish r) (\<lambda>_.
     attempt (remove_unit h c d unit_exists) (finish r) (\<lambda>removed_unit.
     let r' = r\<lparr>ur_removed_unit := removed_unit\<rparr> in
     attempt (forget_service h d) (finish r') (\<lambda>_.
     attempt (remove_verified h (lp_descriptor (lc_paths c)) (ho_encode h d) mode_file) (finish r') (\<lambda>gone.
       finish (r'\<lparr>ur_removed_descriptor := gone\<rparr>) []))))"

definition uninstall_files :: "'m host \<Rightarrow> lifecycle_config \<Rightarrow> descriptor \<Rightarrow> bool \<Rightarrow> 'm machine \<Rightarrow> (uninstall_result \<times> errors) \<times> 'm machine" where
  "uninstall_files h c d unit_exists =
     attempt (remove_inactive_socket h (de_socket d)) (finish no_uninstall) (\<lambda>removed_socket w.
       let ((removed, e), w') = remove_executables h (unique_releases d) [] w;
           r = no_uninstall\<lparr>ur_removed_socket := removed_socket, ur_removed_executables := removed\<rparr>
       in if e \<noteq> [] then finish r e w' else uninstall_rest h c d unit_exists r w')"

definition uninstall_locked :: "'m host \<Rightarrow> lifecycle_config \<Rightarrow> 'm machine \<Rightarrow> (uninstall_result \<times> errors) \<times> 'm machine" where
  "uninstall_locked h c =
     attempt (lock_installed h c) (finish no_uninstall) (\<lambda>_.
     attempt (read_descriptor h c) (finish no_uninstall) (\<lambda>x. case x of
       None \<Rightarrow> finish no_uninstall [LifecycleOwnership]
     | Some d \<Rightarrow>
         attempt (uninstall_inventory h c d) (finish no_uninstall) (\<lambda>unit_exists.
         attempt (release_manager h d unit_exists) (finish no_uninstall) (\<lambda>_. uninstall_files h c d unit_exists))))"

definition uninstall :: "'m host \<Rightarrow> lifecycle_config \<Rightarrow> bool \<Rightarrow> bool \<Rightarrow> 'm machine \<Rightarrow> (uninstall_result \<times> errors) \<times> 'm machine" where
  "uninstall h c over confirm =
     (if \<not> confirm then finish no_uninstall [ConsentRequired]
      else if over then finish no_uninstall [OtherError]
      else attempt (read_descriptor h c) (finish no_uninstall) (\<lambda>x. case x of
        None \<Rightarrow> attempt (absent (lp_unit (lc_paths c))) (finish no_uninstall) (\<lambda>_. finish (no_uninstall\<lparr>ur_already_absent := True\<rparr>) [])
      | Some _ \<Rightarrow> uninstall_locked h c))"

subsection \<open>Purge\<close>

record purge_result =
  pr_removed :: "string list"
  pr_removed_manifest :: bool
  pr_already_absent :: bool

definition no_purge :: purge_result where
  "no_purge = \<lparr>pr_removed = [], pr_removed_manifest = False, pr_already_absent = False\<rparr>"

record purge_entry =
  pe_file :: owned_file
  pe_kind :: contents
  pe_perm :: perm

fun kind_of :: "contents \<Rightarrow> contents" where
  "kind_of (Regular s) = Regular []"
| "kind_of x = x"

definition check_link :: "string \<Rightarrow> ('m, unit) act" where
  "check_link q = seq (lstat q) (\<lambda>n. if nd_contents n = Symlink then fail [LifecycleOwnership] else succeed ())"

definition purge_chain :: "string \<Rightarrow> ('m, unit) act" where
  "purge_chain path = (if \<not> clean_absolute path then fail [LifecycleOwnership] else each check_link (ancestors path))"

fun gather :: "(string \<Rightarrow> int \<Rightarrow> ('m, purge_entry list) act) \<Rightarrow> int \<Rightarrow> string list \<Rightarrow> purge_entry list \<Rightarrow> ('m, purge_entry list) act" where
  "gather f remaining [] acc = succeed acc"
| "gather f remaining (x # xs) acc = seq (f x (remaining - int (length acc))) (\<lambda>es. gather f remaining xs (acc @ es))"

text \<open>Each level of a tree takes one off the budget, so a fuel of the whole budget is enough.  A
  path that does not exist has no entries.\<close>

primrec collect_purge :: "nat \<Rightarrow> 'm host \<Rightarrow> string \<Rightarrow> int \<Rightarrow> ('m, purge_entry list) act" where
  "collect_purge 0 h path remaining = fail [OtherError]"
| "collect_purge (Suc k) h path remaining =
     (if remaining < 1 then fail [OtherError]
      else attempt (lstat path) (\<lambda>e. if NotExist \<in> set e then succeed [] else fail e) (\<lambda>info.
        seq (purge_chain path) (\<lambda>_.
        attempt (inspect_created path) (\<lambda>e. fail [LifecycleOwnership]) (\<lambda>file.
          let entry = \<lparr>pe_file = file, pe_kind = kind_of (nd_contents info), pe_perm = nd_perm info\<rparr> in
          if of_inode file \<noteq> nd_inode info \<or> nd_uid info \<noteq> ho_uid h \<or> nd_contents info = Symlink then fail [LifecycleOwnership]
          else if nd_contents info = Directory then
            if nd_perm info \<noteq> mode_dir then fail [LifecycleOwnership]
            else seq (read_dir path) (\<lambda>children.
              seq (gather (collect_purge k h) (remaining - 1) (map (\<lambda>x. path_join [path, fst x]) children) []) (\<lambda>es. succeed (es @ [entry])))
          else if \<not> is_regular (nd_contents info) \<or> nd_perm info \<noteq> mode_file then fail [LifecycleOwnership]
          else succeed [entry]))))"

definition remove_purge_entry :: "'m host \<Rightarrow> purge_entry \<Rightarrow> ('m, unit) act" where
  "remove_purge_entry h e =
     attempt (purge_chain (of_path (pe_file e))) ownership (\<lambda>_.
     attempt (lstat (of_path (pe_file e))) ownership (\<lambda>n.
       if nd_inode n \<noteq> of_inode (pe_file e) \<or> nd_uid n \<noteq> ho_uid h \<or> kind_of (nd_contents n) \<noteq> pe_kind e \<or> nd_perm n \<noteq> pe_perm e
       then fail [LifecycleOwnership]
       else remove_owned (pe_file e)))"

text \<open>The trees that exist, within one budget for all.\<close>

fun purge_groups :: "'m host \<Rightarrow> string list \<Rightarrow> int \<Rightarrow> (string \<times> purge_entry list) list \<Rightarrow> ('m, (string \<times> purge_entry list) list) act" where
  "purge_groups h [] used acc = succeed acc"
| "purge_groups h (p # ps) used acc =
     seq (collect_purge (Suc (nat max_purge_entries)) h p (max_purge_entries - used)) (\<lambda>es.
       purge_groups h ps (used + int (length es)) (if es = [] then acc else acc @ [(p, es)]))"

fun remove_groups :: "'m host \<Rightarrow> (string \<times> purge_entry list) list \<Rightarrow> string list \<Rightarrow> 'm machine \<Rightarrow> (string list \<times> errors) \<times> 'm machine" where
  "remove_groups h [] removed = finish removed []"
| "remove_groups h (g # gs) removed =
     attempt (each (remove_purge_entry h) (snd g)) (finish removed) (\<lambda>_. remove_groups h gs (removed @ [fst g]))"

definition purge_data :: "'m host \<Rightarrow> lifecycle_config \<Rightarrow> owned_file \<Rightarrow> string \<Rightarrow> 'm machine \<Rightarrow> (purge_result \<times> errors) \<times> 'm machine" where
  "purge_data h c manifest expected =
     attempt (purge_groups h (lp_purge (lc_paths c)) 0 []) (finish no_purge) (\<lambda>groups w.
       let ((removed, e), w') = remove_groups h groups [] w; r = no_purge\<lparr>pr_removed := removed\<rparr>
       in if e \<noteq> [] then finish r e w'
          else attempt (remove_captured h manifest (manifest_path c) expected mode_file) (finish r)
                 (\<lambda>_. finish (r\<lparr>pr_removed_manifest := True\<rparr>) []) w')"

definition purge_ready :: "'m host \<Rightarrow> lifecycle_config \<Rightarrow> owned_file \<Rightarrow> string \<Rightarrow> ('m, unit) act" where
  "purge_ready h c manifest expected =
     seq (lock_installed h c) (\<lambda>_.
     seq (read_descriptor h c) (\<lambda>x. if x \<noteq> None then fail [OtherError]
     else seq (each absent [lp_unit (lc_paths c), lp_binaries (lc_paths c), lp_socket (lc_paths c)]) (\<lambda>_.
     attempt (lstat (manifest_path c)) ownership (\<lambda>n.
       if nd_inode n \<noteq> of_inode manifest then fail [LifecycleOwnership]
       else verify_file h (manifest_path c) expected mode_file))))"

definition purge :: "'m host \<Rightarrow> lifecycle_config \<Rightarrow> bool \<Rightarrow> bool \<Rightarrow> bool \<Rightarrow> 'm machine \<Rightarrow> (purge_result \<times> errors) \<times> 'm machine" where
  "purge h c over confirm confirm_loss =
     (if \<not> confirm then finish no_purge [ConsentRequired]
      else if \<not> confirm_loss then finish no_purge [PurgeRecoveryConsentRequired]
      else if over then finish no_purge [OtherError]
      else attempt (lstat (manifest_path c))
        (\<lambda>e. if NotExist \<in> set e
             then attempt (each absent (lp_purge (lc_paths c))) (finish no_purge) (\<lambda>_. finish (no_purge\<lparr>pr_already_absent := True\<rparr>) [])
             else finish no_purge e)
        (\<lambda>info.
          if manifest_bytes h c = [] then finish no_purge [LifecycleOwnership]
          else attempt (inspect_created (manifest_path c)) (\<lambda>e. finish no_purge [LifecycleOwnership]) (\<lambda>manifest.
            if of_inode manifest \<noteq> nd_inode info then finish no_purge [LifecycleOwnership]
            else attempt (verify_file h (manifest_path c) (manifest_bytes h c) mode_file) (finish no_purge) (\<lambda>_.
            attempt (purge_ready h c manifest (manifest_bytes h c)) (finish no_purge) (\<lambda>_.
              purge_data h c manifest (manifest_bytes h c))))))"

end
