(* ===== verification/LifeLogic.thy ===== *)
theory LifeLogic
  imports LifeUninstall
begin

text \<open>
  Reasoning about the lifecycle: which operations leave given files alone, and triples over
  actions.

  \<open>quiet K m\<close>: while they exist, the nodes at the paths \<open>K\<close> are the same after \<open>m\<close>.
\<close>

named_theorems quiet_rules

definition quiet :: "string set \<Rightarrow> ('m machine \<Rightarrow> 'r \<times> 'm machine) \<Rightarrow> bool" where
  "quiet K m \<longleftrightarrow>
     (\<forall>w. (\<forall>p \<in> K. node_at p w \<noteq> None) \<longrightarrow>
        (\<forall>p \<in> K. node_at p (snd (m w)) = node_at p w) \<and> (mc_dead w \<longrightarrow> mc_dead (snd (m w))))"

lemma quietI:
  assumes "\<And>w. \<forall>p \<in> K. node_at p w \<noteq> None \<Longrightarrow> (\<forall>p \<in> K. node_at p (snd (m w)) = node_at p w) \<and> (mc_dead w \<longrightarrow> mc_dead (snd (m w)))"
  shows "quiet K m"
  using assms by (simp add: quiet_def)

lemma quietD:
  assumes "quiet K m" and "\<forall>p \<in> K. node_at p w \<noteq> None"
  shows "p \<in> K \<Longrightarrow> node_at p (snd (m w)) = node_at p w" and "mc_dead w \<Longrightarrow> mc_dead (snd (m w))"
  using assms by (auto simp: quiet_def)

lemma quiet_return [quiet_rules]: "quiet K (\<lambda>w. (r, w))"
  by (simp add: quiet_def)

lemma quiet_succeed [quiet_rules]: "quiet K (succeed x)"
  by (simp add: quiet_def succeed_def)

lemma quiet_fail [quiet_rules]: "quiet K (fail e)"
  by (simp add: quiet_def fail_def)

lemma quiet_finish [quiet_rules]: "quiet K (finish r e)"
  by (simp add: quiet_def finish_def)

lemma quiet_attempt [quiet_rules]:
  assumes "quiet K m" and "\<And>e. quiet K (H e)" and "\<And>x. quiet K (C x)"
  shows "quiet K (attempt m H C)"
proof (rule quietI)
  fix w :: "'a machine"
  assume pre: "\<forall>p \<in> K. node_at p w \<noteq> None"
  obtain r w' where m: "m w = (r, w')" by (cases "m w")
  have n: "\<forall>p \<in> K. node_at p w' = node_at p w" "mc_dead w \<Longrightarrow> mc_dead w'" using quietD [OF assms(1) pre] m by auto
  then have pre': "\<forall>p \<in> K. node_at p w' \<noteq> None" using pre by simp
  show "(\<forall>p \<in> K. node_at p (snd (attempt m H C w)) = node_at p w) \<and> (mc_dead w \<longrightarrow> mc_dead (snd (attempt m H C w)))"
    using n quietD [OF assms(2) pre'] quietD [OF assms(3) pre'] by (cases r) (auto simp: attempt_def m)
qed

lemma quiet_ensuring [quiet_rules]:
  assumes "quiet K m" and "quiet K d"
  shows "quiet K (ensuring m d)"
proof (rule quietI)
  fix w :: "'a machine"
  assume pre: "\<forall>p \<in> K. node_at p w \<noteq> None"
  obtain r w' where m: "m w = (r, w')" by (cases "m w")
  have n: "\<forall>p \<in> K. node_at p w' = node_at p w" "mc_dead w \<Longrightarrow> mc_dead w'" using quietD [OF assms(1) pre] m by auto
  then have pre': "\<forall>p \<in> K. node_at p w' \<noteq> None" using pre by simp
  show "(\<forall>p \<in> K. node_at p (snd (ensuring m d w)) = node_at p w) \<and> (mc_dead w \<longrightarrow> mc_dead (snd (ensuring m d w)))"
    using n quietD [OF assms(2) pre'] by (auto simp: ensuring_def m)
qed

lemma quiet_if [quiet_rules]: "(b \<Longrightarrow> quiet K m) \<Longrightarrow> (\<not> b \<Longrightarrow> quiet K n) \<Longrightarrow> quiet K (if b then m else n)"
  by simp

lemma quiet_option [quiet_rules]:
  "(x = None \<Longrightarrow> quiet K m) \<Longrightarrow> (\<And>a. x = Some a \<Longrightarrow> quiet K (f a)) \<Longrightarrow> quiet K (case x of None \<Rightarrow> m | Some a \<Rightarrow> f a)"
  by (cases x) auto

lemma quiet_pair [quiet_rules]: "(\<And>a b. quiet K (f a b)) \<Longrightarrow> quiet K (case x of (a, b) \<Rightarrow> f a b)"
  by (cases x) auto

lemma quiet_each [quiet_rules]: "(\<And>x. x \<in> set xs \<Longrightarrow> quiet K (f x)) \<Longrightarrow> quiet K (each f xs)"
  by (induction xs) (auto intro!: quiet_rules)

lemma quiet_syscall:
  assumes "\<And>w. \<forall>p \<in> K. node_at p w \<noteq> None \<Longrightarrow> (\<forall>p \<in> K. node_at p (snd (f w)) = node_at p w) \<and> mc_dead (snd (f w)) = mc_dead w"
  shows "quiet K (syscall f)"
proof (rule quietI)
  fix w :: "'a machine"
  assume pre: "\<forall>p \<in> K. node_at p w \<noteq> None"
  let ?w = "w\<lparr>mc_faults := tl (mc_faults w)\<rparr>"
  have same: "node_at p ?w = node_at p w" "node_at p (?w\<lparr>mc_dead := True\<rparr>) = node_at p w" for p by (simp_all add: node_at_def)
  have "(\<forall>p \<in> K. node_at p (snd (f ?w)) = node_at p w) \<and> mc_dead (snd (f ?w)) = mc_dead w" using assms [of ?w] pre same by simp
  then show "(\<forall>p \<in> K. node_at p (snd (syscall f w)) = node_at p w) \<and> (mc_dead w \<longrightarrow> mc_dead (snd (syscall f w)))"
    using assms [OF pre] same by (simp add: syscall_def Let_def split: outcome.split)
qed

lemma quiet_at_node:
  assumes "\<And>n w. node_at p w = Some n \<Longrightarrow> \<forall>q \<in> K. node_at q w \<noteq> None \<Longrightarrow>
    (\<forall>q \<in> K. node_at q (snd (f n w)) = node_at q w) \<and> mc_dead (snd (f n w)) = mc_dead w"
  shows "quiet K (at_node p f)"
  unfolding at_node_def by (rule quiet_syscall) (auto split: option.split simp: assms)

lemma quiet_lstat [quiet_rules]: "quiet K (lstat p)"
  unfolding lstat_def by (rule quiet_at_node) (simp add: succeed_def)

lemma quiet_read_file [quiet_rules]: "quiet K (read_file p)"
  unfolding read_file_def by (rule quiet_at_node) (simp add: succeed_def fail_def split: contents.split)

lemma quiet_read_dir [quiet_rules]: "quiet K (read_dir p)"
  unfolding read_dir_def by (rule quiet_at_node) simp

lemma quiet_resolves [quiet_rules]: "quiet K (resolves_to_itself p)"
  unfolding resolves_to_itself_def by (rule quiet_at_node) simp

lemma quiet_flush [quiet_rules]: "quiet K flush"
  unfolding flush_def by (rule quiet_syscall) (simp add: succeed_def)

lemma node_at_put: "node_at p (put_node q n w) = (if p = q then Some n else node_at p w)"
  by (simp add: node_at_def put_node_def update_conv')

lemma node_at_drop: "node_at p (drop_node q w) = (if p = q then None else node_at p w)"
  by (simp add: node_at_def drop_node_def delete_conv')

lemma node_at_add: "node_at p (add_node uid q x m w) =
    (if p = q then Some \<lparr>nd_contents = x, nd_perm = m, nd_uid = uid, nd_inode = mc_inodes w\<rparr> else node_at p w)"
  unfolding add_node_def node_at_put by (simp add: node_at_def)

lemma dead_nodes [simp]: "mc_dead (put_node p n w) = mc_dead w" "mc_dead (drop_node p w) = mc_dead w" "mc_dead (add_node u p x m w) = mc_dead w"
  by (simp_all add: put_node_def drop_node_def add_node_def)

lemmas node_at_simps = node_at_put node_at_drop node_at_add

lemma quiet_make_dir [quiet_rules]: "quiet K (make_dir uid p m)"
  unfolding make_dir_def by (rule quiet_syscall) (auto simp: node_at_simps)

lemma quiet_change_mode: "p \<notin> K \<Longrightarrow> quiet K (change_mode p m)"
  unfolding change_mode_def by (rule quiet_at_node) (auto simp: node_at_simps)

lemma quiet_write_file: "p \<notin> K \<Longrightarrow> quiet K (write_file p s)"
  unfolding write_file_def by (rule quiet_at_node) (auto simp: node_at_simps)

lemma quiet_remove_file: "p \<notin> K \<Longrightarrow> quiet K (remove_file p)"
  unfolding remove_file_def by (rule quiet_at_node) (auto simp: node_at_simps)

lemma quiet_link_file [quiet_rules]: "quiet K (link_file p q)"
  unfolding link_file_def by (rule quiet_at_node) (auto simp: node_at_simps)

lemma temp_name_fresh: "temp_name dir prefix w = Some p \<Longrightarrow> node_at p w = None"
  unfolding temp_name_def by (auto dest: find_SomeD)

lemma quiet_create_temp [quiet_rules]: "quiet K (create_temp uid dir prefix)"
  unfolding create_temp_def
  by (rule quiet_syscall) (auto simp: node_at_simps dest!: temp_name_fresh split: option.split)

lemma quiet_acquire_lock: "path \<notin> K \<Longrightarrow> quiet K (acquire_lock h a b path)"
  unfolding acquire_lock_def
  by (intro quiet_rules quiet_change_mode quiet_syscall) (auto simp: node_at_simps split: option.split)

lemma quiet_check_component [quiet_rules]: "quiet K (check_component h p b q)"
  unfolding check_component_def by (intro quiet_rules)

lemma quiet_validate_directory [quiet_rules]: "quiet K (validate_directory h p b)"
  unfolding validate_directory_def by (intro quiet_rules)

lemma quiet_verify_file [quiet_rules]: "quiet K (verify_file h p s m)"
  unfolding verify_file_def by (intro quiet_rules)

lemma quiet_ownership [quiet_rules]: "quiet K (ownership e)"
  unfolding ownership_def by (rule quiet_fail)

lemma quiet_verify_executable [quiet_rules]: "quiet K (verify_executable h p s)"
  unfolding verify_executable_def by (intro quiet_rules)

lemma quiet_inspect [quiet_rules]: "quiet K (inspect_created p)"
  unfolding inspect_created_def by (intro quiet_rules)

lemma quiet_absent [quiet_rules]: "quiet K (absent p)"
  unfolding absent_def by (intro quiet_rules)

lemma quiet_lift_render [quiet_rules]: "quiet K (lift_render x)"
  unfolding lift_render_def by (intro quiet_rules)

lemma quiet_read_descriptor [quiet_rules]: "quiet K (read_descriptor h c)"
  unfolding read_descriptor_def by (intro quiet_rules)

lemma quiet_verify_manifest [quiet_rules]: "quiet K (verify_manifest h c s)"
  unfolding verify_manifest_def by (intro quiet_rules)

lemma quiet_verify_unit [quiet_rules]: "quiet K (verify_descriptor_unit h c d)"
  unfolding verify_descriptor_unit_def by (intro quiet_rules)

lemma quiet_verify_installation [quiet_rules]: "quiet K (verify_installation h c)"
  unfolding verify_installation_def by (intro quiet_rules)

lemma quiet_lock_installed: "lp_descriptor (lc_paths c) @ ''.lock'' \<notin> K \<Longrightarrow> quiet K (lock_installed h c)"
  unfolding lock_installed_def Let_def by (intro quiet_rules quiet_acquire_lock)

subsection \<open>The manager and the service\<close>

definition leaves :: "string set \<Rightarrow> (files \<times> 'm \<Rightarrow> 'b \<times> files \<times> 'm) \<Rightarrow> bool" where
  "leaves K f \<longleftrightarrow> (\<forall>fs m. \<forall>p \<in> K. map_of (fst (snd (f (fs, m)))) p = map_of fs p)"

text \<open>The manager and the service keep their hands off the files \<open>K\<close>.\<close>

definition steady :: "string set \<Rightarrow> 'm host \<Rightarrow> bool" where
  "steady K h \<longleftrightarrow> (\<forall>args. leaves K (ho_systemctl h args)) \<and> (\<forall>d. leaves K (ho_dial h d)) \<and> leaves K (ho_health h) \<and>
     leaves K (ho_drain h) \<and> leaves K (ho_resume h)"

lemma leavesD: "leaves K f \<Longrightarrow> f (fs, m) = (r, gs, n) \<Longrightarrow> p \<in> K \<Longrightarrow> map_of gs p = map_of fs p"
  unfolding leaves_def by (metis fst_conv snd_conv)

lemma quiet_outside: "leaves K f \<Longrightarrow> quiet K (outside res f)"
  unfolding outside_def by (intro quiet_syscall) (auto simp: node_at_def split: prod.split dest: leavesD)

lemma quiet_systemctl: "steady K h \<Longrightarrow> quiet K (run_systemctl h args)"
  unfolding run_systemctl_def by (intro quiet_rules quiet_outside) (simp add: steady_def)

lemma quiet_daemon_reload: "steady K h \<Longrightarrow> quiet K (daemon_reload h)"
  unfolding daemon_reload_def by (intro quiet_rules quiet_systemctl)

lemma quiet_manager_status: "steady K h \<Longrightarrow> quiet K (manager_status h d)"
  unfolding manager_status_def by (intro quiet_rules quiet_systemctl)

lemma quiet_owned_status: "steady K h \<Longrightarrow> quiet K (owned_manager_status h d)"
  unfolding owned_manager_status_def by (intro quiet_rules quiet_manager_status)

lemma quiet_dial: "steady K h \<Longrightarrow> quiet K (dial_service h d)"
  unfolding dial_service_def by (intro quiet_rules quiet_outside) (simp add: steady_def)

lemma quiet_resume_after: "steady K h \<Longrightarrow> quiet K (resume_after h b e)"
  unfolding resume_after_def by (intro quiet_rules quiet_outside) (simp add: steady_def)

lemma quiet_map: "quiet K m \<Longrightarrow> quiet K (\<lambda>w. let (r, w') = m w in (f r, w'))"
  by (simp add: quiet_def Let_def case_prod_unfold)

lemma quiet_fail_resumed: "steady K h \<Longrightarrow> quiet K (fail_resumed h b e)"
  unfolding fail_resumed_def [abs_def] by (intro quiet_map quiet_resume_after)

lemma quiet_finish_resumed: "steady K h \<Longrightarrow> quiet K (finish_resumed h b r e)"
  unfolding finish_resumed_def [abs_def] by (intro quiet_map quiet_resume_after)

lemma quiet_drain_active: "steady K h \<Longrightarrow> quiet K (drain_active h d b)"
  unfolding drain_active_def by (intro quiet_rules quiet_outside quiet_dial quiet_fail_resumed) (simp_all add: steady_def)

lemma quiet_await_ready: "steady K h \<Longrightarrow> quiet K (await_ready h d n e)"
proof (induction n arbitrary: e)
  case (Suc n)
  then show ?case unfolding await_ready.simps
    by (intro quiet_rules quiet_outside quiet_dial) (simp_all add: steady_def)
qed (simp add: quiet_rules)

lemma quiet_wait_ready: "steady K h \<Longrightarrow> quiet K (wait_ready h d)"
  unfolding wait_ready_def by (rule quiet_await_ready)

lemma quiet_with_installation:
  assumes "lp_descriptor (lc_paths c) @ ''.lock'' \<notin> K"
  shows "quiet K (with_installation h c succeed)"
  unfolding with_installation_def by (intro quiet_rules quiet_lock_installed assms)

lemma quiet_start_checked: "steady K h \<Longrightarrow> quiet K (start_checked h d)"
  unfolding start_checked_def by (intro quiet_rules quiet_systemctl quiet_manager_status quiet_wait_ready)

end
