(* ===== verification/LifeErrors.thy ===== *)
theory LifeErrors
  imports LifeLogic
begin

text \<open>
  What replacing an owned file does: it happens completely, or the file is as before.  Over
  this, the descriptor and the unit file of an installation as one abstract state.
\<close>

abbreviation dpath :: "lifecycle_config \<Rightarrow> string" where "dpath c \<equiv> lp_descriptor (lc_paths c)"
abbreviation upath :: "lifecycle_config \<Rightarrow> string" where "upath c \<equiv> lp_unit (lc_paths c)"

definition file_at :: "'m host \<Rightarrow> string \<Rightarrow> string \<Rightarrow> 'm machine \<Rightarrow> bool" where
  "file_at h p s w \<longleftrightarrow> (\<exists>n. node_at p w = Some n \<and> nd_contents n = Regular s \<and> nd_perm n = mode_file \<and> nd_uid n = ho_uid h)"

lemma file_at_present: "file_at h p s w \<Longrightarrow> node_at p w \<noteq> None"
  by (auto simp: file_at_def)

lemma file_at_same: "node_at p w' = node_at p w \<Longrightarrow> file_at h p s w' = file_at h p s w"
  by (simp add: file_at_def)

lemma file_at_contents: "file_at h p s w \<Longrightarrow> file_at h p t w \<Longrightarrow> s = t"
  by (auto simp: file_at_def)

subsection \<open>System calls that succeed\<close>

lemma syscall_Inr:
  assumes "syscall f w = (Inr x, w')"
  shows "\<exists>w0. f w0 = (Inr x, w') \<and> (\<forall>p. node_at p w0 = node_at p w) \<and> mc_dead w0 = mc_dead w \<and> \<not> mc_dead w"
  using assms
  by (auto simp: syscall_def Let_def node_at_def split: if_splits outcome.splits)

lemma at_node_Inr:
  assumes "at_node p f w = (Inr x, w')"
  shows "\<exists>w0 n. node_at p w = Some n \<and> f n w0 = (Inr x, w') \<and> (\<forall>q. node_at q w0 = node_at q w) \<and> mc_dead w0 = mc_dead w \<and> \<not> mc_dead w"
  using syscall_Inr [OF assms [unfolded at_node_def]] by (auto split: option.splits)

lemma change_mode_Inr:
  assumes "change_mode p m w = (Inr x, w')"
  shows "\<exists>n. node_at p w = Some n \<and> node_at p w' = Some (n\<lparr>nd_perm := m\<rparr>) \<and> (\<forall>q. q \<noteq> p \<longrightarrow> node_at q w' = node_at q w)"
  using at_node_Inr [OF assms [unfolded change_mode_def]] by (auto simp: node_at_simps)

lemma write_file_Inr:
  assumes "write_file p s w = (Inr x, w')"
  shows "\<exists>n. node_at p w = Some n \<and> node_at p w' = Some (n\<lparr>nd_contents := Regular s\<rparr>) \<and> (\<forall>q. q \<noteq> p \<longrightarrow> node_at q w' = node_at q w)"
  using at_node_Inr [OF assms [unfolded write_file_def]] by (auto simp: node_at_simps)

lemma rename_file_Inr:
  assumes "rename_file p q w = (Inr x, w')"
  shows "\<exists>n. node_at p w = Some n \<and> node_at q w' = Some n \<and> (\<forall>s. s \<noteq> p \<and> s \<noteq> q \<longrightarrow> node_at s w' = node_at s w)"
  using at_node_Inr [OF assms [unfolded rename_file_def]] by (auto simp: node_at_simps)

lemma syscall_Inl:
  assumes "syscall f w = (Inl e, w')"
    and "\<And>w w'. f w = (Inl e, w') \<Longrightarrow> w' = w"
  shows "(\<forall>p. node_at p w' = node_at p w) \<and> (mc_dead w \<longrightarrow> mc_dead w')"
proof -
  have "node_at p (w\<lparr>mc_faults := x, mc_dead := b\<rparr>) = node_at p w" "node_at p (w\<lparr>mc_faults := x\<rparr>) = node_at p w" for p x b
    by (simp_all add: node_at_def)
  then show ?thesis using assms(1) by (auto simp: syscall_def Let_def split: if_splits outcome.splits dest!: assms(2))
qed

lemma rename_file_Inl: "rename_file p q w = (Inl e, w') \<Longrightarrow> (\<forall>p. node_at p w' = node_at p w) \<and> (mc_dead w \<longrightarrow> mc_dead w')"
  unfolding rename_file_def at_node_def by (erule syscall_Inl) (auto split: option.splits)

lemma create_temp_Inr:
  assumes "create_temp uid dir prefix w = (Inr t, w')"
  shows "node_at t w = None \<and> (\<exists>n. node_at t w' = Some n \<and> nd_contents n = Regular [] \<and> nd_uid n = uid) \<and> (\<forall>q. q \<noteq> t \<longrightarrow> node_at q w' = node_at q w)"
proof -
  obtain w0 where w0: "temp_name dir prefix w0 = Some t" "w' = add_node uid t (Regular []) mode_file w0" "\<forall>p. node_at p w0 = node_at p w"
    using syscall_Inr [OF assms [unfolded create_temp_def]] by (auto split: if_splits option.splits)
  then show ?thesis using temp_name_fresh [OF w0(1)] by (auto simp: node_at_simps)
qed

subsection \<open>Attempts\<close>

lemma attempt_cases:
  assumes "attempt m H C w = (r, w')"
  obtains (fails) e w1 where "m w = (Inl e, w1)" and "H e w1 = (r, w')"
    | (works) x w1 where "m w = (Inr x, w1)" and "C x w1 = (r, w')"
  using assms by (auto simp: attempt_def split: prod.splits sum.splits)

lemma seq_Inr:
  assumes "seq m C w = (Inr x, w')"
  obtains y w1 where "m w = (Inr y, w1)" and "C y w1 = (Inr x, w')"
  using assms by (auto simp: attempt_def fail_def split: prod.splits sum.splits)

lemma quiet_run:
  assumes "quiet K m" and "m w = (r, w')" and "\<forall>p \<in> K. node_at p w \<noteq> None"
  shows "(\<forall>p \<in> K. node_at p w' = node_at p w) \<and> (mc_dead w \<longrightarrow> mc_dead w') \<and> (\<forall>p \<in> K. node_at p w' \<noteq> None)"
  using quietD [OF assms(1,3)] assms(2,3) by auto

lemma quiet_fill_temp: "t \<notin> K \<Longrightarrow> quiet K (fill_temp t s m)"
  unfolding fill_temp_def by (intro quiet_rules quiet_change_mode quiet_write_file)

lemma fill_temp_Inr:
  assumes "fill_temp t s m w = (Inr x, w')" and "node_at t w = Some n"
  shows "node_at t w' = Some (n\<lparr>nd_perm := m, nd_contents := Regular s\<rparr>)"
proof -
  obtain w1 w2 w3 where w: "change_mode t m w = (Inr (), w1)" "write_file t s w1 = (Inr (), w2)" "flush w2 = (Inr (), w3)" "flush w3 = (Inr x, w')"
    using assms(1) unfolding fill_temp_def by (auto elim!: seq_Inr)
  have n2: "node_at t w2 = Some (n\<lparr>nd_perm := m, nd_contents := Regular s\<rparr>)"
    using change_mode_Inr [OF w(1)] write_file_Inr [OF w(2)] assms(2) by auto
  have "node_at t w3 = node_at t w2" "node_at t w' = node_at t w3"
    using quiet_run [OF quiet_flush w(3), of "{t}"] quiet_run [OF quiet_flush w(4), of "{t}"] n2 by auto
  then show ?thesis using n2 by simp
qed

text \<open>The heart of the recovery of an upgrade: a replacement happens completely or not at all.\<close>

definition replaced :: "'m host \<Rightarrow> string set \<Rightarrow> string \<Rightarrow> string \<Rightarrow> 'm machine \<Rightarrow> errors + unit \<Rightarrow> 'm machine \<Rightarrow> bool" where
  "replaced h K path new w r w' \<longleftrightarrow>
     (mc_dead w \<longrightarrow> mc_dead w') \<and>
     ((\<forall>p \<in> K. node_at p w' = node_at p w) \<and> (\<exists>e. r = Inl e) \<or>
      r = Inr () \<and> \<not> mc_dead w \<and> file_at h path new w' \<and> (\<forall>p \<in> K - {path}. node_at p w' = node_at p w))"

lemma replaced_before:
  assumes same: "\<forall>p \<in> K. node_at p w1 = node_at p w" and dead: "mc_dead w \<longrightarrow> mc_dead w1" and r: "replaced h K path new w1 r w'"
  shows "replaced h K path new w r w'"
proof (cases "\<exists>e. r = Inl e")
  case True
  then show ?thesis using same dead r unfolding replaced_def by auto
next
  case False
  then have "r = Inr ()" "\<not> mc_dead w1" "file_at h path new w'" "\<forall>p \<in> K - {path}. node_at p w' = node_at p w1" "mc_dead w1 \<longrightarrow> mc_dead w'"
    using r unfolding replaced_def by blast+
  then show ?thesis using same dead unfolding replaced_def by simp
qed

lemma replaced_after:
  assumes "replaced h K path new w r w1" and "path \<in> K" and "\<forall>p \<in> K. node_at p w' = node_at p w1" and "mc_dead w1 \<longrightarrow> mc_dead w'"
  shows "replaced h K path new w r w'"
proof -
  have f: "file_at h path new w' = file_at h path new w1" by (rule file_at_same) (simp add: assms(2,3))
  have "mc_dead w \<longrightarrow> mc_dead w'" using assms(1,4) unfolding replaced_def by blast
  then show ?thesis using assms(1,3) unfolding replaced_def f by simp
qed

lemma replaced_present:
  assumes "replaced h K path new w r w'" and "\<forall>p \<in> K. node_at p w \<noteq> None" and "p \<in> K"
  shows "node_at p w' \<noteq> None"
proof (cases "p = path \<and> file_at h path new w'")
  case True
  then show ?thesis using file_at_present [of h path new w'] by blast
next
  case False
  then have "node_at p w' = node_at p w" using assms(1,3) unfolding replaced_def by blast
  then show ?thesis using assms(2,3) by simp
qed

lemma replaced_fails: "\<forall>p \<in> K. node_at p w' = node_at p w \<Longrightarrow> mc_dead w \<longrightarrow> mc_dead w' \<Longrightarrow> replaced h K path new w (Inl e) w'"
  by (simp add: replaced_def)

lemma exchange_file:
  assumes "t \<notin> K" and "path \<in> K" and "\<forall>p \<in> K. node_at p w \<noteq> None" and "node_at t w = Some n" and "nd_uid n = ho_uid h"
    and "seq (fill_temp t new mode_file) (\<lambda>_. seq (verify_file h path current mode_file) (\<lambda>_. rename_file t path)) w = (r, w')"
  shows "replaced h K path new w r w'"
  using assms(6)
proof (cases rule: attempt_cases)
  case (fails e w1)
  then show ?thesis using quiet_run [OF quiet_fill_temp [OF assms(1)] fails(1) assms(3)] by (auto simp: replaced_def fail_def)
next
  case (works x w1)
  have q1: "\<forall>p \<in> K. node_at p w1 = node_at p w" "mc_dead w \<longrightarrow> mc_dead w1" "\<forall>p \<in> K. node_at p w1 \<noteq> None"
    using quiet_run [OF quiet_fill_temp [OF assms(1)] works(1) assms(3)] by auto
  have n1: "node_at t w1 = Some (n\<lparr>nd_perm := mode_file, nd_contents := Regular new\<rparr>)" by (rule fill_temp_Inr [OF works(1) assms(4)])
  from works(2) show ?thesis
  proof (cases rule: attempt_cases)
    case (fails e w2)
    then show ?thesis using quiet_run [OF quiet_verify_file fails(1) q1(3)] q1 by (auto simp: replaced_def fail_def)
  next
    case (works y w2)
    have q2: "\<forall>p \<in> insert t K. node_at p w2 = node_at p w1" "mc_dead w1 \<longrightarrow> mc_dead w2"
      using quiet_run [OF quiet_verify_file works(1), of "insert t K"] q1(3) n1 by auto
    show ?thesis
    proof (cases r)
      case (Inl e)
      then show ?thesis using rename_file_Inl [of t path w2 e w'] works(2) q1 q2 by (auto simp: replaced_def)
    next
      case (Inr u)
      then obtain m where m: "node_at t w2 = Some m" "node_at path w' = Some m" "\<forall>s. s \<noteq> t \<and> s \<noteq> path \<longrightarrow> node_at s w' = node_at s w2"
        using rename_file_Inr [of t path w2 u w'] works(2) by auto
      then have "m = n\<lparr>nd_perm := mode_file, nd_contents := Regular new\<rparr>" using q2(1) n1 by simp
      then have "file_at h path new w'" using m(2) assms(5) by (simp add: file_at_def)
      moreover have "mc_dead w \<longrightarrow> mc_dead w'" using quiet_run [of "{}" "rename_file t path" w2 r w'] works(2) q1(2) q2(2) at_node_Inr [OF works(2) [unfolded Inr rename_file_def]]
        by auto
      moreover have "\<forall>p \<in> K - {path}. node_at p w' = node_at p w" using m(3) q2(1) q1(1) assms(1) by auto
      moreover have "\<not> mc_dead w" using at_node_Inr [OF works(2) [unfolded Inr rename_file_def]] q1(2) q2(2) by auto
      ultimately show ?thesis using Inr by (simp add: replaced_def)
    qed
  qed
qed

lemma replace_file_replaced:
  assumes "path \<in> K" and "\<forall>p \<in> K. node_at p w \<noteq> None" and "replace_file h path current new mode_file b w = (r, w')"
  shows "replaced h K path new w r w'"
  using assms(3) unfolding replace_file_def
proof (cases rule: attempt_cases)
  case (fails e w1)
  then show ?thesis using quiet_run [OF quiet_verify_file fails(1) assms(2)] by (auto simp: fail_def intro!: replaced_fails)
next
  case (works x w1)
  have q1: "\<forall>p \<in> K. node_at p w1 = node_at p w" "mc_dead w \<longrightarrow> mc_dead w1" "\<forall>p \<in> K. node_at p w1 \<noteq> None"
    using quiet_run [OF quiet_verify_file works(1) assms(2)] by auto
  from works(2) have "replaced h K path new w1 r w'"
  proof (cases rule: attempt_cases)
    case (fails e w2)
    then show ?thesis using quiet_run [OF quiet_validate_directory fails(1) q1(3)] by (auto simp: fail_def intro!: replaced_fails)
  next
    case (works y w2)
    have q2: "\<forall>p \<in> K. node_at p w2 = node_at p w1" "mc_dead w1 \<longrightarrow> mc_dead w2" "\<forall>p \<in> K. node_at p w2 \<noteq> None"
      using quiet_run [OF quiet_validate_directory works(1) q1(3)] by auto
    from works(2) have "replaced h K path new w2 r w'"
    proof (cases rule: attempt_cases)
      case (fails e w3)
      then show ?thesis using quiet_run [OF quiet_create_temp fails(1) q2(3)] by (auto simp: fail_def intro!: replaced_fails)
    next
      case (works t w3)
      have q3: "\<forall>p \<in> K. node_at p w3 = node_at p w2" "mc_dead w2 \<longrightarrow> mc_dead w3" "\<forall>p \<in> K. node_at p w3 \<noteq> None"
        using quiet_run [OF quiet_create_temp works(1) q2(3)] by auto
      obtain n where n: "node_at t w2 = None" "node_at t w3 = Some n" "nd_uid n = ho_uid h"
        using create_temp_Inr [OF works(1)] by blast
      then have t: "t \<notin> K" using q2(3) by auto
      obtain w4 where e: "seq (fill_temp t new mode_file) (\<lambda>_. seq (verify_file h path current mode_file) (\<lambda>_. rename_file t path)) w3 = (r, w4)"
        "w' = snd (remove_file t w4)"
        using works(2) by (auto simp: ensuring_def split: prod.splits)
      have x: "replaced h K path new w3 r w4" by (rule exchange_file [OF t assms(1) q3(3) n(2,3) e(1)])
      have p4: "\<forall>p \<in> K. node_at p w4 \<noteq> None" by (intro ballI) (rule replaced_present [OF x q3(3)])
      have q4: "\<forall>p \<in> K. node_at p w' = node_at p w4" "mc_dead w4 \<longrightarrow> mc_dead w'"
        using quiet_run [OF quiet_remove_file [OF t], of w4 "fst (remove_file t w4)" w'] p4 e(2) by auto
      show ?thesis by (rule replaced_before [OF q3(1,2) replaced_after [OF x assms(1) q4]])
    qed
    then show ?thesis by (rule replaced_before [OF q2(1,2)])
  qed
  then show ?thesis by (rule replaced_before [OF q1(1,2)])
qed

section \<open>Errors\<close>

text \<open>
  Which errors an operation can end with, and triples with an assertion for the error and one
  for the result.

  \<open>errs X m\<close>: when \<open>m\<close> fails it says why, and not by one of the errors \<open>X\<close>.
\<close>

named_theorems errs_rules

definition reason :: "life_error set \<Rightarrow> errors \<Rightarrow> bool" where
  "reason X e \<longleftrightarrow> e \<noteq> [] \<and> set e \<inter> X = {}"

definition errs :: "life_error set \<Rightarrow> ('m, 'a) act \<Rightarrow> bool" where
  "errs X m \<longleftrightarrow> (\<forall>w e. fst (m w) = Inl e \<longrightarrow> reason X e)"

text \<open>The errors an upgrade itself reports by.\<close>

definition verdicts :: "life_error set" where "verdicts = {UpgradeRolledBack, UpgradeRecoveryRequired}"

lemma errsI: "(\<And>w w' e. m w = (Inl e, w') \<Longrightarrow> reason X e) \<Longrightarrow> errs X m"
  unfolding errs_def by (metis prod.collapse)

lemma errsD: "errs X m \<Longrightarrow> m w = (Inl e, w') \<Longrightarrow> reason X e"
  unfolding errs_def by (metis fst_conv)

lemma errs_fail [errs_rules]: "reason X e \<Longrightarrow> errs X (fail e)"
  by (simp add: errs_def fail_def)

lemma errs_succeed [errs_rules]: "errs X (succeed x)"
  by (simp add: errs_def succeed_def)

lemma errs_attempt [errs_rules]:
  assumes "errs X m" and "\<And>e. reason X e \<Longrightarrow> errs X (H e)" and "\<And>x. errs X (C x)"
  shows "errs X (attempt m H C)"
proof (rule errsI)
  fix w w' e
  assume "attempt m H C w = (Inl e, w')"
  then show "reason X e"
  proof (cases rule: attempt_cases)
    case (fails e' w1)
    then show ?thesis using errsD [OF assms(2) fails(2)] errsD [OF assms(1) fails(1)] by simp
  next
    case (works x w1)
    then show ?thesis using errsD [OF assms(3)] by blast
  qed
qed

lemma errs_if [errs_rules]: "(b \<Longrightarrow> errs X m) \<Longrightarrow> (\<not> b \<Longrightarrow> errs X n) \<Longrightarrow> errs X (if b then m else n)"
  by simp

lemma errs_option [errs_rules]:
  "(x = None \<Longrightarrow> errs X m) \<Longrightarrow> (\<And>a. x = Some a \<Longrightarrow> errs X (f a)) \<Longrightarrow> errs X (case x of None \<Rightarrow> m | Some a \<Rightarrow> f a)"
  by (cases x) auto

lemma errs_pair [errs_rules]: "(\<And>a b. errs X (f a b)) \<Longrightarrow> errs X (case x of (a, b) \<Rightarrow> f a b)"
  by (cases x) auto

lemma errs_contents [errs_rules]: "(\<And>s. errs X (f s)) \<Longrightarrow> errs X g \<Longrightarrow> errs X (case x of Regular s \<Rightarrow> f s | _ \<Rightarrow> g)"
  by (cases x) auto

lemma errs_ensuring [errs_rules]: "errs X m \<Longrightarrow> errs X (ensuring m d)"
  by (simp add: errs_def ensuring_def case_prod_unfold Let_def)

lemma errs_each [errs_rules]: "(\<And>x. x \<in> set xs \<Longrightarrow> errs X (f x)) \<Longrightarrow> errs X (each f xs)"
  by (induction xs) (auto intro!: errs_rules)

text \<open>The sets \<open>X\<close> of use hold none of the errors of system calls.\<close>

definition beyond_calls :: "life_error set \<Rightarrow> bool" where
  "beyond_calls X \<longleftrightarrow> X \<inter> {OtherError, NotExist, AlreadyExists, LifecycleOwnership, LifecycleUnavailable, LifecycleBusy, RefusedPrecondition} = {}"

lemma beyond_calls_simps [simp]: "beyond_calls {}" "beyond_calls verdicts"
  by (simp_all add: beyond_calls_def verdicts_def)

lemma reason_simps [simp]:
  "beyond_calls X \<Longrightarrow> reason X [OtherError]" "beyond_calls X \<Longrightarrow> reason X [NotExist]" "beyond_calls X \<Longrightarrow> reason X [AlreadyExists]"
  "beyond_calls X \<Longrightarrow> reason X [LifecycleOwnership]" "beyond_calls X \<Longrightarrow> reason X [LifecycleBusy]"
  "beyond_calls X \<Longrightarrow> reason X (LifecycleUnavailable # e) \<longleftrightarrow> e = [] \<or> reason X e"
  by (auto simp: reason_def beyond_calls_def)

lemma reason_append [simp]: "reason X a \<Longrightarrow> reason X (a @ b) \<longleftrightarrow> set b \<inter> X = {}"
  by (auto simp: reason_def)

lemma errs_syscall:
  assumes "beyond_calls X" and "\<And>w w' e. f w = (Inl e, w') \<Longrightarrow> reason X e"
  shows "errs X (syscall f)"
proof (rule errsI)
  fix w w' e
  assume "syscall f w = (Inl e, w')"
  then show "reason X e" using assms by (auto simp: syscall_def Let_def split: if_splits outcome.splits)
qed

lemma errs_at_node: "beyond_calls X \<Longrightarrow> (\<And>n w w' e. f n w = (Inl e, w') \<Longrightarrow> reason X e) \<Longrightarrow> errs X (at_node p f)"
  unfolding at_node_def by (rule errs_syscall) (auto split: option.splits)

text \<open>System calls.\<close>

lemma errs_calls [errs_rules]:
  assumes "beyond_calls X"
  shows "errs X (lstat p)" and "errs X (read_file p)" and "errs X (resolves_to_itself p)" and "errs X flush" and "errs X (change_mode p m)"
    and "errs X (create_temp uid p s)" and "errs X (write_file p s)" and "errs X (rename_file p q)"
  using assms
  by (auto simp: lstat_def read_file_def resolves_to_itself_def flush_def change_mode_def create_temp_def write_file_def rename_file_def
      succeed_def fail_def intro!: errs_at_node errs_syscall split: contents.splits option.splits if_splits)

lemma errs_outside:
  assumes "beyond_calls X" and "\<And>r e. res r = Inl e \<Longrightarrow> reason X e"
  shows "errs X (outside res f)"
  unfolding outside_def using assms by (intro errs_syscall) (auto split: prod.splits)

text \<open>Operations on files and the installation.\<close>

lemma errs_verify_file [errs_rules]: "beyond_calls X \<Longrightarrow> errs X (verify_file h p s m)"
  unfolding verify_file_def by (intro errs_rules) simp_all

lemma errs_validate_directory [errs_rules]: "beyond_calls X \<Longrightarrow> errs X (validate_directory h p b)"
  unfolding validate_directory_def check_component_def by (intro errs_rules) simp_all

lemma errs_replace_file [errs_rules]: "beyond_calls X \<Longrightarrow> errs X (replace_file h p s t m b)"
  unfolding replace_file_def fill_temp_def by (intro errs_rules) simp_all

lemma errs_lift_render [errs_rules]: "beyond_calls X \<Longrightarrow> errs X (lift_render x)"
  unfolding lift_render_def by (intro errs_rules) simp_all

lemma errs_absent [errs_rules]: "beyond_calls X \<Longrightarrow> errs X (absent p)"
  unfolding absent_def by (intro errs_rules) simp_all

lemma errs_read_descriptor [errs_rules]: "beyond_calls X \<Longrightarrow> errs X (read_descriptor h c)"
  unfolding read_descriptor_def by (intro errs_rules) simp_all

lemma errs_ownership [errs_rules]: "beyond_calls X \<Longrightarrow> errs X (ownership e)"
  unfolding ownership_def by (intro errs_rules) simp_all

lemma errs_verify_executable [errs_rules]: "beyond_calls X \<Longrightarrow> errs X (verify_executable h p s)"
  unfolding verify_executable_def by (intro errs_rules) simp_all

lemma errs_verify_manifest [errs_rules]: "beyond_calls X \<Longrightarrow> errs X (verify_manifest h c s)"
  unfolding verify_manifest_def by (intro errs_rules) simp_all

lemma errs_verify_unit [errs_rules]: "beyond_calls X \<Longrightarrow> errs X (verify_descriptor_unit h c d)"
  unfolding verify_descriptor_unit_def by (intro errs_rules) simp_all

lemma errs_verify_installation: "errs {} (verify_installation h c)"
  unfolding verify_installation_def by (intro errs_rules) (simp_all add: reason_def)

lemma errs_lock_installed: "errs {} (lock_installed h c)"
  unfolding lock_installed_def acquire_lock_def Let_def
  by (intro errs_rules errs_syscall) (auto simp: reason_def split: option.splits if_splits)

lemma errs_with_installation: "errs {} (with_installation h c succeed)"
  unfolding with_installation_def by (intro errs_rules errs_verify_installation errs_lock_installed) simp_all

text \<open>The manager and the service.\<close>

lemma errs_systemctl [errs_rules]: "beyond_calls X \<Longrightarrow> errs X (run_systemctl h args)"
  unfolding run_systemctl_def by (intro errs_rules errs_outside) (auto simp: or_other_def split: option.splits)

lemma errs_daemon_reload [errs_rules]: "beyond_calls X \<Longrightarrow> errs X (daemon_reload h)"
  unfolding daemon_reload_def by (intro errs_rules)

lemma parse_status_errors: "parse_status U s d = Inl e \<Longrightarrow> beyond_calls X \<Longrightarrow> reason X e"
  by (auto simp: parse_status_def Let_def split: option.splits if_splits)

lemma errs_manager_status [errs_rules]: "beyond_calls X \<Longrightarrow> errs X (manager_status h d)"
  unfolding manager_status_def
  by (intro errs_attempt errs_systemctl errs_fail) (auto intro!: errsI dest: parse_status_errors)

lemma errs_owned_status [errs_rules]: "beyond_calls X \<Longrightarrow> errs X (owned_manager_status h d)"
  unfolding owned_manager_status_def by (intro errs_rules) simp_all

lemma errs_dial [errs_rules]: "beyond_calls X \<Longrightarrow> errs X (dial_service h d)"
  unfolding dial_service_def
  by (intro errs_rules errs_outside) (auto simp: called_def call_errors_def reason_def beyond_calls_def split: sum.splits if_splits)

lemma resume_after_errors: "resume_after h b cause w = (e, w') \<Longrightarrow> \<exists>es. e = cause @ es \<and> set es \<subseteq> {OtherError}"
proof -
  assume r: "resume_after h b cause w = (e, w')"
  have "\<forall>x \<in> set es. x = OtherError" if "outside if_done (ho_resume h) w0 = (Inl es, w1)" for es w0 w1
    using that by (auto simp: outside_def syscall_def if_done_def Let_def split: prod.splits if_splits outcome.splits)
  then show ?thesis using r by (fastforce simp: resume_after_def attempt_def split: if_splits prod.splits sum.splits)
qed

lemma errs_fail_resumed [errs_rules]: "beyond_calls X \<Longrightarrow> reason X e \<Longrightarrow> errs X (fail_resumed h b e)"
  by (rule errsI) (auto simp: fail_resumed_def reason_def beyond_calls_def split: prod.splits dest!: resume_after_errors)

lemma errs_drain_active [errs_rules]: "beyond_calls X \<Longrightarrow> errs X (drain_active h d b)"
  unfolding drain_active_def by (intro errs_rules errs_outside) (auto simp: if_done_def split: if_splits)

subsection \<open>Triples\<close>

definition triple :: "('m machine \<Rightarrow> bool) \<Rightarrow> ('m machine \<Rightarrow> 'r \<times> 'm machine) \<Rightarrow> ('r \<Rightarrow> 'm machine \<Rightarrow> bool) \<Rightarrow> bool" where
  "triple P m Q \<longleftrightarrow> (\<forall>w. P w \<longrightarrow> Q (fst (m w)) (snd (m w)))"

lemma tripleI: "(\<And>w r w'. P w \<Longrightarrow> m w = (r, w') \<Longrightarrow> Q r w') \<Longrightarrow> triple P m Q"
  unfolding triple_def by (metis prod.collapse)

lemma tripleD: "triple P m Q \<Longrightarrow> P w \<Longrightarrow> m w = (r, w') \<Longrightarrow> Q r w'"
  unfolding triple_def by (metis fst_conv snd_conv)

lemma triple_attempt:
  assumes "triple P m (case_sum E V)" and "\<And>e. triple (E e) (H e) R" and "\<And>x. triple (V x) (C x) R"
  shows "triple P (attempt m H C) R"
proof (rule tripleI)
  fix w r w'
  assume P: "P w" and "attempt m H C w = (r, w')"
  from this(2) show "R r w'"
  proof (cases rule: attempt_cases)
    case (fails e w1)
    then show ?thesis using tripleD [OF assms(2)] tripleD [OF assms(1) P fails(1)] by simp
  next
    case (works x w1)
    then show ?thesis using tripleD [OF assms(3)] tripleD [OF assms(1) P works(1)] by simp
  qed
qed

lemma triple_seq:
  assumes "triple P m (case_sum E V)" and "\<And>x. triple (V x) (C x) (case_sum E R)"
  shows "triple P (seq m C) (case_sum E R)"
  using assms(1)
proof (rule triple_attempt)
  show "triple (E e) (fail e) (case_sum E R)" for e by (simp add: triple_def fail_def)
qed (rule assms(2))

lemma triple_weaken: "triple P m Q \<Longrightarrow> (\<And>w. P' w \<Longrightarrow> P w) \<Longrightarrow> (\<And>r w. Q r w \<Longrightarrow> Q' r w) \<Longrightarrow> triple P' m Q'"
  by (auto simp: triple_def)

lemma triple_if: "(b \<Longrightarrow> triple P m Q) \<Longrightarrow> (\<not> b \<Longrightarrow> triple P n Q) \<Longrightarrow> triple P (if b then m else n) Q"
  by simp

lemma triple_given: "(B \<Longrightarrow> triple P m Q) \<Longrightarrow> triple (\<lambda>w. B \<and> P w) m Q"
  by (auto simp: triple_def)

end
