(* ===== verification/LifeActivation.thy ===== *)
theory LifeActivation
  imports LifeErrors
begin

text \<open>
  The states of an upgrade on disk, and what each of its steps does to them.

  \<open>stage_ok\<close> says which descriptor and unit file belong together: the installation before the
  upgrade, the one after it, and between them a transition whose phase says which unit file
  there can be.  \<open>stage_at d u\<close> holds of a machine whose files are the descriptor \<open>d\<close> and the
  unit file \<open>u\<close>, and of one whose process has died with any two that belong together.
\<close>

record setting =
  se_config :: lifecycle_config
  se_before :: descriptor
  se_candidate :: release
  se_unit :: string
  se_candidate_unit :: string

definition owned_paths :: "setting \<Rightarrow> string set" where
  "owned_paths S = {dpath (se_config S), upath (se_config S)}"

definition upgraded :: "setting \<Rightarrow> descriptor" where
  "upgraded S = (with_release (se_before S) (se_candidate S))\<lparr>de_previous := Some (release_of (se_before S)), de_pending := None, de_transition := None\<rparr>"

definition unit_in_phase :: "setting \<Rightarrow> string \<Rightarrow> string \<Rightarrow> bool" where
  "unit_in_phase S phase u \<longleftrightarrow>
     (if phase = stopping_previous \<or> phase = previous_stopped then u = se_unit S
      else if phase = switching_unit then u = se_unit S \<or> u = se_candidate_unit S
      else u = se_candidate_unit S)"

definition transition_ok :: "setting \<Rightarrow> transition \<Rightarrow> bool" where
  "transition_ok S t \<longleftrightarrow>
     tr_previous t = release_of (se_before S) \<and> tr_candidate t = se_candidate S \<and> 0 \<le> tr_source_pid t \<and>
     tr_phase t \<in> {stopping_previous, previous_stopped, switching_unit, candidate_unit, candidate_started}"

definition moving :: "setting \<Rightarrow> transition \<Rightarrow> descriptor" where
  "moving S t = (se_before S)\<lparr>de_transition := Some t\<rparr>"

definition stage_ok :: "setting \<Rightarrow> descriptor \<Rightarrow> string \<Rightarrow> bool" where
  "stage_ok S d u \<longleftrightarrow>
     d = se_before S \<and> u = se_unit S \<or> d = upgraded S \<and> u = se_candidate_unit S \<or>
     (\<exists>t. transition_ok S t \<and> d = moving S t \<and> unit_in_phase S (tr_phase t) u)"

text \<open>An installation with a staged candidate, on a host that keeps its hands off the two files.\<close>

definition staged :: "'m host \<Rightarrow> setting \<Rightarrow> bool" where
  "staged h S \<longleftrightarrow>
     dpath (se_config S) \<noteq> upath (se_config S) \<and> dpath (se_config S) @ ''.lock'' \<noteq> upath (se_config S) \<and> steady (owned_paths S) h \<and>
     valid_descriptor (se_config S) (se_before S) \<and> de_transition (se_before S) = None \<and> de_pending (se_before S) = Some (se_candidate S) \<and>
     render_unit (se_config S) (se_before S) = Some (se_unit S) \<and>
     render_unit (se_config S) (with_release (se_before S) (se_candidate S)) = Some (se_candidate_unit S) \<and>
     (\<forall>d u. stage_ok S d u \<longrightarrow> ho_decode h (ho_encode h d) = Some d)"

definition on_disk :: "'m host \<Rightarrow> setting \<Rightarrow> descriptor \<Rightarrow> string \<Rightarrow> 'm machine \<Rightarrow> bool" where
  "on_disk h S d u w \<longleftrightarrow> file_at h (dpath (se_config S)) (ho_encode h d) w \<and> file_at h (upath (se_config S)) u w \<and> valid_descriptor_size (ho_encode h d)"

definition stage_at :: "'m host \<Rightarrow> setting \<Rightarrow> descriptor \<Rightarrow> string \<Rightarrow> 'm machine \<Rightarrow> bool" where
  "stage_at h S d u w \<longleftrightarrow> (\<exists>d' u'. on_disk h S d' u' w \<and> stage_ok S d' u' \<and> (\<not> mc_dead w \<longrightarrow> d' = d \<and> u' = u))"

lemma stage_at_start: "on_disk h S d u w \<Longrightarrow> stage_ok S d u \<Longrightarrow> stage_at h S d u w"
  by (auto simp: stage_at_def)

lemma stage_at_dead: "stage_at h S d u w \<Longrightarrow> mc_dead w \<Longrightarrow> stage_at h S d' u' w"
  by (auto simp: stage_at_def)

lemma stage_at_alive: "stage_at h S d u w \<Longrightarrow> \<not> mc_dead w \<Longrightarrow> on_disk h S d u w \<and> stage_ok S d u"
  by (auto simp: stage_at_def)

lemma on_disk_present: "on_disk h S d u w \<Longrightarrow> p \<in> owned_paths S \<Longrightarrow> node_at p w \<noteq> None"
  by (auto simp: on_disk_def owned_paths_def file_at_def)

lemma on_disk_same: "\<forall>p \<in> owned_paths S. node_at p w' = node_at p w \<Longrightarrow> on_disk h S d u w' = on_disk h S d u w"
  by (simp add: on_disk_def owned_paths_def file_at_def)

lemma stage_at_present: "stage_at h S d u w \<Longrightarrow> \<forall>p \<in> owned_paths S. node_at p w \<noteq> None"
  by (auto simp: stage_at_def dest: on_disk_present)

lemma stage_at_same:
  assumes "stage_at h S d u w" and same: "\<forall>p \<in> owned_paths S. node_at p w' = node_at p w" and "mc_dead w \<longrightarrow> mc_dead w'"
  shows "stage_at h S d u w'"
  using assms(1,3) unfolding stage_at_def on_disk_same [OF same] by blast

lemma triple_quiet:
  assumes "quiet (owned_paths S) m" and "errs X m"
  shows "triple (stage_at h S d u) m (case_sum (\<lambda>e w. reason X e \<and> stage_at h S d u w) (\<lambda>_. stage_at h S d u))"
proof (rule tripleI)
  fix w r w'
  assume P: "stage_at h S d u w" and m: "m w = (r, w')"
  have "stage_at h S d u w'" using quiet_run [OF assms(1) m stage_at_present [OF P]] stage_at_same [OF P] by blast
  then show "case_sum (\<lambda>e w. reason X e \<and> stage_at h S d u w) (\<lambda>_. stage_at h S d u) r w'"
    using errsD [OF assms(2)] m by (auto split: sum.split)
qed

lemma both_posts:
  assumes "errs X m" and "m w = (r, w')" and "case r of Inl e \<Rightarrow> stage_at h S d u w' | Inr x \<Rightarrow> stage_at h S d' u' w'"
  shows "case_sum (\<lambda>e w. reason X e \<and> stage_at h S d u w) (\<lambda>_. stage_at h S d' u') r w'"
proof (cases r)
  case (Inl e)
  then show ?thesis using errsD [OF assms(1)] assms(2,3) by auto
next
  case (Inr x)
  then show ?thesis using assms(3) by simp
qed

lemma replaced_stage:
  assumes P: "stage_at h S d u w" and r: "replaced h (owned_paths S) path new w r w'"
    and new: "on_disk h S d u w \<Longrightarrow> file_at h path new w' \<Longrightarrow> \<forall>p \<in> owned_paths S - {path}. node_at p w' = node_at p w \<Longrightarrow>
      stage_at h S d' u' w'"
  shows "case r of Inl e \<Rightarrow> stage_at h S d u w' | Inr x \<Rightarrow> stage_at h S d' u' w'"
proof (cases r)
  case (Inl e)
  then have "\<forall>p \<in> owned_paths S. node_at p w' = node_at p w" "mc_dead w \<longrightarrow> mc_dead w'" using r by (simp_all add: replaced_def)
  then show ?thesis using stage_at_same [OF P] Inl by simp
next
  case (Inr x)
  then show ?thesis using r new stage_at_alive [OF P] by (simp add: replaced_def)
qed

subsection \<open>The steps\<close>

lemma render_transition [simp]: "render_unit c (d\<lparr>de_transition := x\<rparr>) = render_unit c d"
  by (simp add: render_unit_def cong: option.case_cong)

lemma with_release_moving [simp]: "with_release (moving S t) r = (with_release (se_before S) r)\<lparr>de_transition := Some t\<rparr>"
  by (simp add: with_release_def moving_def)

lemma render_moving [simp]: "render_unit c (moving S t) = render_unit c (se_before S)"
  by (simp add: moving_def)

lemma moving_fields [simp]: "de_transition (moving S t) = Some t" "de_unit (moving S t) = de_unit (se_before S)"
  "(moving S t)\<lparr>de_transition := x\<rparr> = (se_before S)\<lparr>de_transition := x\<rparr>"
  by (simp_all add: moving_def)

lemma back_to_before: "staged h S \<Longrightarrow> (se_before S)\<lparr>de_transition := None\<rparr> = se_before S"
  by (simp add: staged_def)

lemma stage_ok_moving: "transition_ok S t \<Longrightarrow> unit_in_phase S (tr_phase t) u \<Longrightarrow> stage_ok S (moving S t) u"
  by (auto simp: stage_ok_def)

lemma stage_ok_before: "stage_ok S (se_before S) (se_unit S)"
  by (simp add: stage_ok_def)

lemma stage_ok_upgraded: "stage_ok S (upgraded S) (se_candidate_unit S)"
  by (simp add: stage_ok_def)

text \<open>A new descriptor over the same unit file, and a new unit file under the same descriptor.\<close>

lemma triple_descriptor:
  assumes S: "staged h S" and ok: "stage_ok S d' u"
  shows "triple (stage_at h S d u) (replace_descriptor h (se_config S) d d')
    (case_sum (\<lambda>e w. reason verdicts e \<and> stage_at h S d u w) (\<lambda>_. stage_at h S d' u))"
proof (rule tripleI)
  fix w r w'
  assume P: "stage_at h S d u w" and m: "replace_descriptor h (se_config S) d d' w = (r, w')"
  have e: "errs verdicts (replace_descriptor h (se_config S) d d')"
    unfolding replace_descriptor_def by (intro errs_rules) simp_all
  have "case r of Inl e \<Rightarrow> stage_at h S d u w' | Inr x \<Rightarrow> stage_at h S d' u w'"
  proof (cases "valid_descriptor (se_config S) d' \<and> valid_descriptor_size (ho_encode h d')")
    case True
    then have m': "replace_file h (dpath (se_config S)) (ho_encode h d) (ho_encode h d') mode_file True w = (r, w')"
      using m by (simp add: replace_descriptor_def)
    have p: "dpath (se_config S) \<in> owned_paths S" by (simp add: owned_paths_def)
    show ?thesis
    proof (rule replaced_stage [OF P replace_file_replaced [OF p stage_at_present [OF P] m']])
      assume s: "on_disk h S d u w" "file_at h (dpath (se_config S)) (ho_encode h d') w'"
        "\<forall>p \<in> owned_paths S - {dpath (se_config S)}. node_at p w' = node_at p w"
      have "node_at (upath (se_config S)) w' = node_at (upath (se_config S)) w" using s(3) S by (simp add: owned_paths_def staged_def)
      from file_at_same [OF this, of h u] have "on_disk h S d' u w'" using s(1,2) True by (simp add: on_disk_def)
      then show "stage_at h S d' u w'" using ok by (rule stage_at_start)
    qed
  next
    case False
    then have "(\<exists>e. r = Inl e) \<and> w' = w"
      using m by (simp add: replace_descriptor_def fail_def split: if_splits) blast+
    then show ?thesis using P by auto
  qed
  then show "case_sum (\<lambda>e w. reason verdicts e \<and> stage_at h S d u w) (\<lambda>_. stage_at h S d' u) r w'" by (rule both_posts [OF e m])
qed

lemma triple_unit:
  assumes S: "staged h S" and ok: "stage_ok S d u'"
  shows "triple (stage_at h S d u) (replace_file h (upath (se_config S)) v u' mode_file False)
    (case_sum (\<lambda>e w. reason verdicts e \<and> stage_at h S d u w) (\<lambda>_. stage_at h S d u'))"
proof (rule tripleI)
  fix w r w'
  assume P: "stage_at h S d u w" and m: "replace_file h (upath (se_config S)) v u' mode_file False w = (r, w')"
  have p: "upath (se_config S) \<in> owned_paths S" by (simp add: owned_paths_def)
  have "case r of Inl e \<Rightarrow> stage_at h S d u w' | Inr x \<Rightarrow> stage_at h S d u' w'"
  proof (rule replaced_stage [OF P replace_file_replaced [OF p stage_at_present [OF P] m]])
    assume s: "on_disk h S d u w" "file_at h (upath (se_config S)) u' w'"
      "\<forall>p \<in> owned_paths S - {upath (se_config S)}. node_at p w' = node_at p w"
    have "node_at (dpath (se_config S)) w' = node_at (dpath (se_config S)) w" using s(3) S by (simp add: owned_paths_def staged_def)
    from file_at_same [OF this, of h "ho_encode h d"] have "on_disk h S d u' w'" using s(1,2) by (simp add: on_disk_def)
    then show "stage_at h S d u' w'" using ok by (rule stage_at_start)
  qed
  then show "case_sum (\<lambda>e w. reason verdicts e \<and> stage_at h S d u w) (\<lambda>_. stage_at h S d u') r w'"
    by (rule both_posts [OF errs_replace_file [OF beyond_calls_simps(2)] m])
qed

text \<open>A change of phase.\<close>

lemma transition_ok_phase:
  "transition_ok S t \<Longrightarrow> phase \<in> {stopping_previous, previous_stopped, switching_unit, candidate_unit, candidate_started} \<Longrightarrow>
    transition_ok S (t\<lparr>tr_phase := phase\<rparr>)"
  by (simp add: transition_ok_def)

lemma triple_phase:
  assumes S: "staged h S" and t: "transition_ok S t"
    and phase: "phase \<in> {stopping_previous, previous_stopped, switching_unit, candidate_unit, candidate_started}" "unit_in_phase S phase u"
  shows "triple (stage_at h S (moving S t) u) (set_phase h (se_config S) (moving S t) phase)
    (case_sum (\<lambda>e w. reason verdicts e \<and> stage_at h S (moving S t) u w)
       (\<lambda>d w. d = moving S (t\<lparr>tr_phase := phase\<rparr>) \<and> stage_at h S (moving S (t\<lparr>tr_phase := phase\<rparr>)) u w))"
proof -
  let ?d = "moving S (t\<lparr>tr_phase := phase\<rparr>)"
  have ok: "stage_ok S ?d u" by (rule stage_ok_moving) (use transition_ok_phase [OF t phase(1)] phase(2) in auto)
  have d: "(moving S t)\<lparr>de_transition := Some (t\<lparr>tr_phase := phase\<rparr>)\<rparr> = ?d" by (simp add: moving_def)
  have "triple (stage_at h S (moving S t) u) (seq (replace_descriptor h (se_config S) (moving S t) ?d) (\<lambda>_. succeed ?d))
    (case_sum (\<lambda>e w. reason verdicts e \<and> stage_at h S (moving S t) u w) (\<lambda>d w. d = ?d \<and> stage_at h S ?d u w))"
    by (rule triple_seq [OF triple_descriptor [OF S ok]]) (simp add: triple_def succeed_def)
  then show ?thesis by (simp add: set_phase_def Let_def moving_def)
qed

section \<open>Activation\<close>

text \<open>
  The activation of an upgrade, step by step: where it can end, and what is on disk then.
\<close>

subsection \<open>Verdicts\<close>

definition completed :: "setting \<Rightarrow> activation_result \<Rightarrow> errors \<Rightarrow> descriptor \<Rightarrow> bool" where
  "completed S r e d \<longleftrightarrow> e = [] \<and> d = upgraded S \<and> active_process (ar_status r) \<and> ar_current r = re_version (se_candidate S)"

definition rolled_back :: "setting \<Rightarrow> activation_result \<Rightarrow> errors \<Rightarrow> descriptor \<Rightarrow> bool" where
  "rolled_back S r e d \<longleftrightarrow> UpgradeRolledBack \<in> set e \<and> d = se_before S \<and> active_process (ar_status r) \<and> ar_current r = de_version (se_before S)"

definition given_up :: "setting \<Rightarrow> errors \<Rightarrow> descriptor \<Rightarrow> bool" where
  "given_up S e d \<longleftrightarrow> e \<noteq> [] \<and> d = se_before S"

definition to_recover :: "setting \<Rightarrow> errors \<Rightarrow> descriptor \<Rightarrow> bool" where
  "to_recover S e d \<longleftrightarrow> UpgradeRecoveryRequired \<in> set e \<and> (\<exists>t. transition_ok S t \<and> d = moving S t)"

definition verdict :: "setting \<Rightarrow> activation_result \<Rightarrow> errors \<Rightarrow> descriptor \<Rightarrow> bool" where
  "verdict S r e d \<longleftrightarrow>
     (if ar_recovery r then \<not> ar_rolled_back r \<and> to_recover S e d
      else if ar_rolled_back r then rolled_back S r e d
      else completed S r e d \<or> given_up S e d)"

definition ended :: "'m host \<Rightarrow> setting \<Rightarrow> activation_result \<times> errors \<Rightarrow> 'm machine \<Rightarrow> bool" where
  "ended h S x w \<longleftrightarrow> (\<exists>d u. on_disk h S d u w \<and> stage_ok S d u \<and> (\<not> mc_dead w \<longrightarrow> verdict S (fst x) (snd x) d))"

lemma ended_at: "stage_at h S d u w \<Longrightarrow> verdict S r e d \<Longrightarrow> ended h S (r, e) w"
  by (auto simp: stage_at_def ended_def)

text \<open>A result under way has no verdict yet.\<close>

definition open_result :: "activation_result \<Rightarrow> bool" where
  "open_result r \<longleftrightarrow> \<not> ar_rolled_back r \<and> \<not> ar_recovery r"

lemma open_result_status [simp]: "open_result (r\<lparr>ar_status := s\<rparr>) = open_result r"
  by (simp add: open_result_def)

subsection \<open>Rules for attempts\<close>

lemma quiet_then:
  assumes "quiet (owned_paths S) m" and "errs X m"
    and "\<And>e. reason X e \<Longrightarrow> triple (stage_at h S d u) (H e) R" and "\<And>x. triple (stage_at h S d u) (C x) R"
  shows "triple (stage_at h S d u) (attempt m H C) R"
  by (rule triple_attempt [OF triple_quiet [OF assms(1,2)]]) (auto intro: triple_given assms(3,4))

lemma descriptor_then:
  assumes "staged h S" and "stage_ok S d' u"
    and "\<And>e. reason verdicts e \<Longrightarrow> triple (stage_at h S d u) (H e) R" and "\<And>x. triple (stage_at h S d' u) (C x) R"
  shows "triple (stage_at h S d u) (attempt (replace_descriptor h (se_config S) d d') H C) R"
  by (rule triple_attempt [OF triple_descriptor [OF assms(1,2)]]) (auto intro: triple_given assms(3,4))

lemma phase_then:
  assumes "staged h S" and "transition_ok S t"
    and "phase \<in> {stopping_previous, previous_stopped, switching_unit, candidate_unit, candidate_started}" and "unit_in_phase S phase u"
    and "\<And>e. reason verdicts e \<Longrightarrow> triple (stage_at h S (moving S t) u) (H e) R"
    and "triple (stage_at h S (moving S (t\<lparr>tr_phase := phase\<rparr>)) u) (C (moving S (t\<lparr>tr_phase := phase\<rparr>))) R"
  shows "triple (stage_at h S (moving S t) u) (attempt (set_phase h (se_config S) (moving S t) phase) H C) R"
  by (rule triple_attempt [OF triple_phase [OF assms(1-4)]]) (auto intro: triple_given assms(5,6))

lemma finish_then: "verdict S r e d \<Longrightarrow> triple (stage_at h S d u) (finish r e) (ended h S)"
  by (auto simp: triple_def finish_def intro: ended_at)

lemma staged_steady: "staged h S \<Longrightarrow> steady (owned_paths S) h"
  by (simp add: staged_def)

lemma systemctl_then:
  assumes "staged h S" and "\<And>e. reason verdicts e \<Longrightarrow> triple (stage_at h S d u) (H e) R" and "\<And>x. triple (stage_at h S d u) (C x) R"
  shows "triple (stage_at h S d u) (attempt (run_systemctl h args) H C) R"
  by (rule quiet_then [OF quiet_systemctl [OF staged_steady [OF assms(1)]] errs_systemctl [OF beyond_calls_simps(2)] assms(2,3)])

lemma manager_then:
  assumes "staged h S" and "\<And>e. reason verdicts e \<Longrightarrow> triple (stage_at h S d u) (H e) R" and "\<And>x. triple (stage_at h S d u) (C x) R"
  shows "triple (stage_at h S d u) (attempt (manager_status h sd) H C) R"
  by (rule quiet_then [OF quiet_manager_status [OF staged_steady [OF assms(1)]] errs_manager_status [OF beyond_calls_simps(2)] assms(2,3)])

lemma reload_then:
  assumes "staged h S" and "\<And>e. reason verdicts e \<Longrightarrow> triple (stage_at h S d u) (H e) R" and "\<And>x. triple (stage_at h S d u) (C x) R"
  shows "triple (stage_at h S d u) (attempt (daemon_reload h) H C) R"
  by (rule quiet_then [OF quiet_daemon_reload [OF staged_steady [OF assms(1)]] errs_daemon_reload [OF beyond_calls_simps(2)] assms(2,3)])

subsection \<open>Leaving the upgrade to recovery\<close>

lemma recover_ended:
  assumes S: "staged h S" and t: "transition_ok S t" and u: "unit_in_phase S (tr_phase t) u" and r: "\<not> ar_rolled_back r"
  shows "triple (stage_at h S (moving S t) u) (recover h (se_config S) (moving S t) r cause) (ended h S)"
proof (rule tripleI)
  fix w x w'
  assume P: "stage_at h S (moving S t) u w" and m: "recover h (se_config S) (moving S t) r cause w = (x, w')"
  let ?t = "t\<lparr>tr_recovery := True\<rparr>"
  have t': "transition_ok S ?t" "unit_in_phase S (tr_phase ?t) u" using t u by (simp_all add: transition_ok_def)
  have d: "(moving S t)\<lparr>de_transition := Some ?t\<rparr> = moving S ?t" by (simp add: moving_def)
  have mark: "mark_recovery h (se_config S) (moving S t) cause =
      attempt (replace_descriptor h (se_config S) (moving S t) (moving S ?t))
        (\<lambda>e w. (UpgradeRecoveryRequired # cause @ e, w)) (\<lambda>_ w. (UpgradeRecoveryRequired # cause, w))"
    by (simp add: mark_recovery_def moving_def)
  obtain e where e: "mark_recovery h (se_config S) (moving S t) cause w = (e, w')" "x = (r\<lparr>ar_recovery := True\<rparr>, e)"
    using m by (auto simp: recover_def split: prod.splits)
  have "triple (stage_at h S (moving S t) u) (mark_recovery h (se_config S) (moving S t) cause)
      (\<lambda>e w. UpgradeRecoveryRequired \<in> set e \<and> (\<exists>s. transition_ok S s \<and> stage_at h S (moving S s) u w))"
    unfolding mark
    by (rule descriptor_then [OF S stage_ok_moving [OF t']]) (use t t'(1) in \<open>auto simp: triple_def\<close>)
  from tripleD [OF this P e(1)] obtain s where s: "UpgradeRecoveryRequired \<in> set e" "transition_ok S s" "stage_at h S (moving S s) u w'" by blast
  show "ended h S x w'" unfolding e(2)
    by (rule ended_at [OF s(3)]) (use s(1,2) r in \<open>auto simp: verdict_def to_recover_def\<close>)
qed

lemma status_then:
  assumes S: "staged h S" and "\<And>x. (\<And>e. x = Inl e \<Longrightarrow> reason verdicts e) \<Longrightarrow> triple (stage_at h S d u) (K x) R"
  shows "triple (stage_at h S d u) (try_status h sd K) R"
proof (rule tripleI)
  fix w r w'
  assume P: "stage_at h S d u w" and m: "try_status h sd K w = (r, w')"
  obtain x w1 where x: "manager_status h sd w = (x, w1)" "K x w1 = (r, w')" using m by (auto simp: try_status_def split: prod.splits)
  have "stage_at h S d u w1"
    using quiet_run [OF quiet_manager_status [OF staged_steady [OF S]] x(1) stage_at_present [OF P]] stage_at_same [OF P] by blast
  then show "R r w'" using tripleD [OF assms(2) _ x(2)] x(1) errsD [OF errs_manager_status [OF beyond_calls_simps(2)]] by metis
qed

lemma stop_and_recover_ended:
  assumes S: "staged h S" and t: "transition_ok S t" and u: "unit_in_phase S (tr_phase t) u" and r: "\<not> ar_rolled_back r"
  shows "triple (stage_at h S (moving S t) u) (stop_and_recover h (se_config S) (moving S t) sd r cause) (ended h S)"
proof -
  have K: "triple (stage_at h S (moving S t) u)
      (try_status h sd (\<lambda>x. recover h (se_config S) (moving S t) (r\<lparr>ar_status := status_or_none x\<rparr>) (cause @ e @ terminal_error x))) (ended h S)" for e
    by (rule status_then [OF S]) (rule recover_ended [OF S t u], use r in simp)
  show ?thesis unfolding stop_and_recover_def Let_def by (rule systemctl_then [OF S K K])
qed

subsection \<open>Starting the service\<close>

lemma errs_wait_ready_aux: "e = [] \<or> reason X e \<Longrightarrow> beyond_calls X \<Longrightarrow> reason X (LifecycleUnavailable # OtherError # e)"
  by (auto simp: reason_def beyond_calls_def)

lemma errs_await_ready: "beyond_calls X \<Longrightarrow> e = [] \<or> reason X e \<Longrightarrow> errs X (await_ready h d n e)"
proof (induction n arbitrary: e)
  case 0
  then show ?case unfolding await_ready.simps by (intro errs_fail errs_wait_ready_aux)
next
  case (Suc n)
  have "errs X (outside called (ho_health h))"
    using Suc.prems(1) by (intro errs_outside) (auto simp: called_def call_errors_def reason_def beyond_calls_def split: sum.splits if_splits)
  then show ?case unfolding await_ready.simps using Suc.prems(1) Suc.IH
    by (intro errs_attempt errs_if errs_dial errs_fail errs_succeed) auto
qed

lemma errs_start_checked: "beyond_calls X \<Longrightarrow> errs X (start_checked h d)"
  unfolding start_checked_def wait_ready_def by (intro errs_rules errs_await_ready) simp_all

lemma start_checked_active: "start_checked h d w = (Inr s, w') \<Longrightarrow> active_process s"
  by (auto simp: start_checked_def succeed_def fail_def elim!: seq_Inr split: if_splits)

lemma start_then:
  assumes S: "staged h S"
    and "\<And>e. reason verdicts e \<Longrightarrow> triple (stage_at h S d u) (H e) R"
    and "\<And>s. active_process s \<Longrightarrow> triple (stage_at h S d u) (C s) R"
  shows "triple (stage_at h S d u) (attempt (start_checked h sd) H C) R"
proof (rule triple_attempt)
  show "triple (stage_at h S d u) (start_checked h sd)
      (case_sum (\<lambda>e w. reason verdicts e \<and> stage_at h S d u w) (\<lambda>s w. active_process s \<and> stage_at h S d u w))"
  proof (rule tripleI)
    fix w r w'
    assume P: "stage_at h S d u w" and m: "start_checked h sd w = (r, w')"
    have "stage_at h S d u w'"
      using quiet_run [OF quiet_start_checked [OF staged_steady [OF S]] m stage_at_present [OF P]] stage_at_same [OF P] by blast
    then show "case_sum (\<lambda>e w. reason verdicts e \<and> stage_at h S d u w) (\<lambda>s w. active_process s \<and> stage_at h S d u w) r w'"
      using m errsD [OF errs_start_checked [OF beyond_calls_simps(2)]] start_checked_active by (cases r) auto
  qed
qed (auto intro: triple_given assms(2,3))

lemma errs_wait_ready: "beyond_calls X \<Longrightarrow> errs X (wait_ready h d)"
  unfolding wait_ready_def by (rule errs_await_ready) simp_all

lemma wait_then:
  assumes "staged h S" and "\<And>e. reason verdicts e \<Longrightarrow> triple (stage_at h S d u) (H e) R" and "\<And>x. triple (stage_at h S d u) (C x) R"
  shows "triple (stage_at h S d u) (attempt (wait_ready h sd) H C) R"
  by (rule quiet_then [OF quiet_wait_ready [OF staged_steady [OF assms(1)]] errs_wait_ready [OF beyond_calls_simps(2)] assms(2,3)])

lemma attempt_seq: "attempt (seq m C) H D = attempt m H (\<lambda>x. attempt (C x) H D)"
  by (rule ext) (simp add: attempt_def fail_def split: prod.split sum.split)

lemma attempt_succeed [simp]: "attempt (succeed x) H D = D x"
  by (rule ext) (simp add: attempt_def succeed_def)

lemma attempt_fail [simp]: "attempt (fail e) H D = H e"
  by (rule ext) (simp add: attempt_def fail_def)

end
