(* ===== verification/LifeOutcome.thy ===== *)
theory LifeOutcome
  imports LifeActivation
begin

text \<open>
  The whole activation: wherever it ends, the files fit the verdict it gives.
\<close>

lemma phase_simps [simp]:
  "stopping_previous \<noteq> switching_unit" "previous_stopped \<noteq> switching_unit" "candidate_unit \<noteq> switching_unit" "candidate_started \<noteq> switching_unit"
  "stopping_previous \<noteq> candidate_unit" "previous_stopped \<noteq> candidate_unit" "stopping_previous \<noteq> candidate_started" "previous_stopped \<noteq> candidate_started"
  "switching_unit \<noteq> stopping_previous" "switching_unit \<noteq> previous_stopped" "candidate_unit \<noteq> stopping_previous" "candidate_unit \<noteq> previous_stopped"
  "candidate_started \<noteq> stopping_previous" "candidate_started \<noteq> previous_stopped"
  by (simp_all add: phase_defs)

definition has_phase :: "setting \<Rightarrow> transition \<Rightarrow> string \<Rightarrow> bool" where
  "has_phase S t p \<longleftrightarrow> transition_ok S t \<and> tr_phase t = p"

lemma resumed_then:
  assumes S: "staged h S" and v: "\<And>es. set es \<subseteq> {OtherError} \<Longrightarrow> verdict S (f (cause @ es)) (g (cause @ es)) d"
  shows "triple (stage_at h S d u) (\<lambda>w. let (e, w') = resume_after h client cause w in ((f e, g e), w')) (ended h S)"
proof (rule tripleI)
  fix w x w'
  assume P: "stage_at h S d u w" and m: "(let (e, w') = resume_after h client cause w in ((f e, g e), w')) = (x, w')"
  obtain e where e: "resume_after h client cause w = (e, w')" "x = (f e, g e)" using m by (auto split: prod.splits)
  have "stage_at h S d u w'"
    using quiet_run [OF quiet_resume_after [OF staged_steady [OF S]] e(1) stage_at_present [OF P]] stage_at_same [OF P] by blast
  then show "ended h S x w'" using resume_after_errors [OF e(1)] v e(2) ended_at by metis
qed

lemma abort_ended:
  assumes S: "staged h S" and t: "has_phase S t stopping_previous" and r: "open_result r" and cause: "reason verdicts cause"
  shows "triple (stage_at h S (moving S t) (se_unit S)) (abort_upgrade h (se_config S) (moving S t) client r cause) (ended h S)"
proof -
  have ok: "transition_ok S t" using t by (simp add: has_phase_def)
  have undone: "(moving S t)\<lparr>de_transition := None\<rparr> = se_before S" using back_to_before [OF S] by simp
  show ?thesis unfolding abort_upgrade_def undone
  proof (rule descriptor_then [OF S stage_ok_before])
    fix e
    show "triple (stage_at h S (moving S t) (se_unit S))
        (\<lambda>w. let (e', w') = resume_after h client (cause @ e) w in ((r\<lparr>ar_recovery := True\<rparr>, UpgradeRecoveryRequired # e'), w')) (ended h S)"
      by (rule resumed_then [OF S]) (use ok r in \<open>auto simp: verdict_def to_recover_def open_result_def\<close>)
  next
    show "triple (stage_at h S (se_before S) (se_unit S))
        (\<lambda>w. let (e', w') = resume_after h client cause w in ((r\<lparr>ar_recovery := UpgradeRecoveryRequired \<in> set e'\<rparr>, e'), w')) (ended h S)"
    proof (rule resumed_then [OF S])
      fix es :: errors
      assume "set es \<subseteq> {OtherError}"
      then have "UpgradeRecoveryRequired \<notin> set (cause @ es)" "cause @ es \<noteq> []" using cause by (auto simp: reason_def verdicts_def)
      then show "verdict S (r\<lparr>ar_recovery := UpgradeRecoveryRequired \<in> set (cause @ es)\<rparr>) (cause @ es) (se_before S)"
        using r by (simp add: verdict_def given_up_def open_result_def)
    qed
  qed
qed

lemma recover_open:
  "staged h S \<Longrightarrow> transition_ok S t \<Longrightarrow> unit_in_phase S (tr_phase t) u \<Longrightarrow> open_result r \<Longrightarrow>
    triple (stage_at h S (moving S t) u) (recover h (se_config S) (moving S t) r cause) (ended h S)"
  by (rule recover_ended) (simp_all add: open_result_def)

lemma has_phaseD: "has_phase S t p \<Longrightarrow> transition_ok S t" "has_phase S t p \<Longrightarrow> tr_phase t = p"
  by (simp_all add: has_phase_def)

lemma stopping_unit: "has_phase S t stopping_previous \<Longrightarrow> unit_in_phase S (tr_phase t) (se_unit S)"
  by (simp add: has_phase_def unit_in_phase_def)

lemma restore_ended:
  assumes S: "staged h S" and t: "has_phase S t stopping_previous" and r: "open_result r" and cause: "reason verdicts cause"
  shows "triple (stage_at h S (moving S t) (se_unit S)) (restore_previous h (se_config S) (moving S t) client prior r cause) (ended h S)"
  unfolding restore_previous_def
proof (rule status_then [OF S], intro triple_if)
  fix x
  show "triple (stage_at h S (moving S t) (se_unit S)) (abort_upgrade h (se_config S) (moving S t) client (r\<lparr>ar_status := status_or_none x\<rparr>) cause) (ended h S)"
    by (rule abort_ended [OF S t _ cause]) (use r in simp)
  show "triple (stage_at h S (moving S t) (se_unit S))
      (recover h (se_config S) (moving S t) (r\<lparr>ar_status := status_or_none x\<rparr>) (cause @ terminal_error x)) (ended h S)"
    by (rule recover_open [OF S has_phaseD(1) [OF t] stopping_unit [OF t]]) (use r in simp)
next
  have rec: "triple (stage_at h S (moving S t) (se_unit S)) (stop_and_recover h (se_config S) (moving S t) (moving S t) r (cause @ e)) (ended h S)" for e
    by (rule stop_and_recover_ended [OF S has_phaseD(1) [OF t] stopping_unit [OF t]]) (use r in \<open>simp add: open_result_def\<close>)
  have undone: "(moving S t)\<lparr>de_transition := None\<rparr> = se_before S" using back_to_before [OF S] by simp
  show "triple (stage_at h S (moving S t) (se_unit S))
      (attempt (seq (start_checked h (moving S t)) (\<lambda>ready. seq (replace_descriptor h (se_config S) (moving S t) ((moving S t)\<lparr>de_transition := None\<rparr>)) (\<lambda>_. succeed ready)))
        (\<lambda>e. stop_and_recover h (se_config S) (moving S t) (moving S t) r (cause @ e)) (\<lambda>ready. finish (r\<lparr>ar_status := ready\<rparr>) cause)) (ended h S)"
    unfolding attempt_seq attempt_succeed undone
    by (intro start_then [OF S rec] descriptor_then [OF S stage_ok_before rec] finish_then)
       (use r cause in \<open>auto simp: verdict_def given_up_def open_result_def reason_def\<close>)
qed

subsection \<open>Rolling back\<close>

definition check_leaves :: "setting \<Rightarrow> 'm rollback_check \<Rightarrow> bool" where
  "check_leaves S check \<longleftrightarrow> (\<forall>p q. leaves (owned_paths S) (check p q))"

lemma check_then:
  assumes "check_leaves S check"
    and "\<And>e. reason verdicts e \<Longrightarrow> triple (stage_at h S d u) (H e) R" and "\<And>x. triple (stage_at h S d u) (C x) R"
  shows "triple (stage_at h S d u) (attempt (outside or_other (check p q)) H C) R"
proof (rule quiet_then [OF _ _ assms(2,3)])
  show "quiet (owned_paths S) (outside or_other (check p q))" using assms(1) by (simp add: quiet_outside check_leaves_def)
  show "errs verdicts (outside or_other (check p q))" by (rule errs_outside) (auto simp: or_other_def split: option.splits)
qed

lemma with_release_back: "transition_ok S t \<Longrightarrow> with_release (moving S s) (tr_previous t) = moving S s"
  by (simp add: transition_ok_def with_release_def moving_def release_of_def)

lemma unit_then:
  assumes "staged h S" and "stage_ok S d u'"
    and "\<And>e. reason verdicts e \<Longrightarrow> triple (stage_at h S d u) (H e) R" and "\<And>x. triple (stage_at h S d u') (C x) R"
  shows "triple (stage_at h S d u) (attempt (replace_file h (upath (se_config S)) v u' mode_file False) H C) R"
  by (rule triple_attempt [OF triple_unit [OF assms(1,2)]]) (auto intro: triple_given assms(3,4))

lemma restart_ended:
  assumes S: "staged h S" and t: "transition_ok S t" and s: "has_phase S s switching_unit"
    and cd: "render_unit (se_config S) cd = Some (se_candidate_unit S)" and r: "open_result r"
  shows "triple (stage_at h S (moving S s) (se_candidate_unit S)) (restart_previous h (se_config S) (moving S s) t cd r cause) (ended h S)"
proof -
  let ?s = "s\<lparr>tr_phase := previous_stopped\<rparr>"
  have ok: "transition_ok S s" "transition_ok S ?s" using s by (auto simp: has_phase_def intro: transition_ok_phase)
  have u1: "unit_in_phase S (tr_phase s) (se_candidate_unit S)" "unit_in_phase S (tr_phase s) (se_unit S)"
    using s by (simp_all add: has_phase_def unit_in_phase_def)
  have u2: "unit_in_phase S previous_stopped (se_unit S)" "unit_in_phase S (tr_phase ?s) (se_unit S)" by (simp_all add: unit_in_phase_def)
  note rec1 = recover_open [OF S ok(1) u1(1) r] recover_open [OF S ok(1) u1(2) r]
  note rec2 = recover_open [OF S ok(2) u2(2) r]
  have stop: "triple (stage_at h S (moving S ?s) (se_unit S)) (stop_and_recover h (se_config S) (moving S ?s) pd r e) (ended h S)" for pd e
    by (rule stop_and_recover_ended [OF S ok(2) u2(2)]) (use r in \<open>simp add: open_result_def\<close>)
  have undone: "(moving S s)\<lparr>de_transition := None\<rparr> = se_before S" using back_to_before [OF S] by simp
  have render: "render_unit (se_config S) (moving S s) = Some (se_unit S)" using S by (simp add: staged_def)
  have last: "verdict S (r\<lparr>ar_status := x, ar_current := re_version (tr_previous t), ar_previous := v, ar_rolled_back := True\<rparr>) (UpgradeRolledBack # cause) (se_before S)"
    if "active_process x" for x v
    using that r t by (simp add: verdict_def rolled_back_def open_result_def transition_ok_def release_of_def)
  show ?thesis
    unfolding restart_previous_def Let_def with_release_back [OF t] switch_back_def lift_render_def cd render option.case attempt_seq attempt_succeed undone
    by (rule unit_then [OF S stage_ok_moving [OF ok(1) u1(2)] rec1(1)], rule phase_then [OF S ok(1) _ u2(1) rec1(2)], simp,
        rule reload_then [OF S rec2], rule start_then [OF S stop], rule descriptor_then [OF S stage_ok_before stop], rule finish_then [OF last])
qed

lemma rollback_stopped_ended:
  assumes S: "staged h S" and check: "check_leaves S check" and t: "transition_ok S t"
    and s: "transition_ok S s" "unit_in_phase S (tr_phase s) (se_candidate_unit S)"
    and cd: "render_unit (se_config S) cd = Some (se_candidate_unit S)" and r: "open_result r"
  shows "triple (stage_at h S (moving S s) (se_candidate_unit S)) (roll_back_stopped h (se_config S) (moving S s) t cd check r cause) (ended h S)"
proof -
  have rec: "triple (stage_at h S (moving S s) (se_candidate_unit S)) (recover h (se_config S) (moving S s) r' e) (ended h S)"
    if "open_result r'" for r' e by (rule recover_open [OF S s that])
  have s1: "has_phase S (s\<lparr>tr_phase := switching_unit\<rparr>) switching_unit" using s by (simp add: has_phase_def transition_ok_phase)
  have u1: "unit_in_phase S switching_unit (se_candidate_unit S)" by (simp add: unit_in_phase_def)
  show ?thesis unfolding roll_back_stopped_def
    by (rule status_then [OF S], intro triple_if check_then [OF check] phase_then [OF S s(1) _ u1] restart_ended [OF S t s1 cd r] rec) (use r in simp_all)
qed

lemma rollback_ended:
  assumes S: "staged h S" and check: "check_leaves S check" and t: "transition_ok S t"
    and s: "transition_ok S s" "unit_in_phase S (tr_phase s) (se_candidate_unit S)"
    and cd: "render_unit (se_config S) cd = Some (se_candidate_unit S)" and r: "open_result r"
  shows "triple (stage_at h S (moving S s) (se_candidate_unit S)) (roll_back_candidate h (se_config S) (moving S s) t cd check r cause) (ended h S)"
  unfolding roll_back_candidate_def by (rule systemctl_then [OF S]) (rule rollback_stopped_ended [OF assms])+

subsection \<open>Going forward\<close>

definition candidate_descriptor :: "setting \<Rightarrow> descriptor \<Rightarrow> bool" where
  "candidate_descriptor S d \<longleftrightarrow> (\<exists>x. d = (with_release (se_before S) (se_candidate S))\<lparr>de_transition := x\<rparr>)"

lemma candidate_render: "staged h S \<Longrightarrow> candidate_descriptor S d \<Longrightarrow> render_unit (se_config S) d = Some (se_candidate_unit S)"
  by (auto simp: staged_def candidate_descriptor_def)

lemma candidate_upgraded:
  "candidate_descriptor S d \<Longrightarrow> transition_ok S t \<Longrightarrow> d\<lparr>de_previous := Some (tr_previous t), de_pending := None, de_transition := None\<rparr> = upgraded S"
  by (auto simp: candidate_descriptor_def transition_ok_def upgraded_def)

lemma finish_candidate_ended:
  assumes S: "staged h S" and check: "check_leaves S check" and t: "transition_ok S t" and s: "has_phase S s candidate_unit"
    and cd: "candidate_descriptor S cd" and r: "open_result r"
  shows "triple (stage_at h S (moving S s) (se_candidate_unit S)) (finish_candidate h (se_config S) (moving S s) t cd prior check r) (ended h S)"
proof -
  let ?s = "s\<lparr>tr_phase := candidate_started\<rparr>"
  have ok: "transition_ok S s" "transition_ok S ?s" using s by (auto simp: has_phase_def intro: transition_ok_phase)
  have u: "unit_in_phase S (tr_phase s) (se_candidate_unit S)" "unit_in_phase S (tr_phase ?s) (se_candidate_unit S)"
    "unit_in_phase S candidate_started (se_candidate_unit S)" using s by (simp_all add: has_phase_def unit_in_phase_def)
  note undo1 = rollback_ended [OF S check t ok(1) u(1) candidate_render [OF S cd] r]
  note undo2 = rollback_ended [OF S check t ok(2) u(2) candidate_render [OF S cd] r]
  note rec = recover_open [OF S ok(1) u(1) r]
  have last: "verdict S (r\<lparr>ar_status := x, ar_current := re_version (tr_candidate t), ar_previous := v\<rparr>) [] (upgraded S)" if "active_process x" for x v
    using that r t by (simp add: verdict_def completed_def open_result_def transition_ok_def)
  have rest: "triple (stage_at h S (moving S ?s) (se_candidate_unit S))
      (if \<not> active_process ready then roll_back_candidate h (se_config S) (moving S ?s) t cd check r [OtherError]
       else attempt (replace_descriptor h (se_config S) (moving S ?s) (upgraded S)) (roll_back_candidate h (se_config S) (moving S ?s) t cd check r)
         (\<lambda>_. finish (r\<lparr>ar_status := ready, ar_current := re_version (tr_candidate t), ar_previous := re_version (tr_previous t)\<rparr>) [])) (ended h S)" for ready
    by (intro triple_if undo2 descriptor_then [OF S stage_ok_upgraded undo2] finish_then last) simp
  show ?thesis unfolding finish_candidate_def attempt_seq candidate_upgraded [OF cd t]
    by (rule systemctl_then [OF S undo1], rule manager_then [OF S undo1], rule triple_if [OF undo1],
        rule phase_then [OF S ok(1) _ u(3) rec], simp, rule wait_then [OF S undo2], rule manager_then [OF S undo2 rest])
qed

lemma switch_ended:
  assumes S: "staged h S" and check: "check_leaves S check" and t: "has_phase S t stopping_previous" and r: "open_result r"
  shows "triple (stage_at h S (moving S t) (se_unit S)) (switch_unit h (se_config S) (moving S t) t prior check r) (ended h S)"
proof -
  let ?t1 = "t\<lparr>tr_phase := previous_stopped\<rparr>" let ?t2 = "?t1\<lparr>tr_phase := switching_unit\<rparr>" let ?t3 = "?t2\<lparr>tr_phase := candidate_unit\<rparr>"
  have ok: "transition_ok S t" "transition_ok S ?t1" "transition_ok S ?t2" "transition_ok S ?t3" using t by (auto simp: has_phase_def transition_ok_def)
  have u: "unit_in_phase S (tr_phase t) (se_unit S)" "unit_in_phase S previous_stopped (se_unit S)" "unit_in_phase S (tr_phase ?t1) (se_unit S)"
    "unit_in_phase S switching_unit (se_unit S)" "unit_in_phase S (tr_phase ?t2) (se_unit S)" "unit_in_phase S (tr_phase ?t2) (se_candidate_unit S)"
    "unit_in_phase S candidate_unit (se_candidate_unit S)" "unit_in_phase S (tr_phase ?t3) (se_candidate_unit S)"
    using t by (simp_all add: has_phase_def unit_in_phase_def)
  have t3: "has_phase S ?t3 candidate_unit" using ok(4) by (simp add: has_phase_def)
  note rec0 = recover_open [OF S ok(1) u(1) r] note rec1 = recover_open [OF S ok(2) u(3) r]
  note rec2 = recover_open [OF S ok(3) u(5) r] recover_open [OF S ok(3) u(6) r] note rec3 = recover_open [OF S ok(4) u(8) r]
  let ?cd = "with_release (moving S ?t2) (tr_candidate t)"
  have cd: "candidate_descriptor S ?cd" using ok(1) by (auto simp: candidate_descriptor_def transition_ok_def)
  have render: "render_unit (se_config S) (moving S ?t2) = Some (se_unit S)" "render_unit (se_config S) ?cd = Some (se_candidate_unit S)"
    using S candidate_render [OF S cd] by (simp_all add: staged_def del: with_release_moving)
  have "triple (stage_at h S (moving S ?t2) (se_unit S))
      (let cd = ?cd in
       attempt (seq (lift_render (render_unit (se_config S) (moving S ?t2))) (\<lambda>u. seq (lift_render (render_unit (se_config S) cd)) (\<lambda>v.
         replace_file h (upath (se_config S)) u v mode_file False))) (recover h (se_config S) (moving S ?t2) r) (\<lambda>_.
       attempt (set_phase h (se_config S) (moving S ?t2) candidate_unit) (recover h (se_config S) (moving S ?t2) r) (\<lambda>d3.
       attempt (daemon_reload h) (recover h (se_config S) d3 r) (\<lambda>_. finish_candidate h (se_config S) d3 t cd prior check r)))) (ended h S)"
    unfolding Let_def lift_render_def render option.case attempt_seq attempt_succeed
    by (rule unit_then [OF S stage_ok_moving [OF ok(3) u(6)] rec2(1)], rule phase_then [OF S ok(3) _ u(7) rec2(2)], simp,
        rule reload_then [OF S rec3], rule finish_candidate_ended [OF S check ok(1) t3 cd r])
  then show ?thesis unfolding switch_unit_def
    by (intro phase_then [OF S ok(1) _ u(2) rec0] phase_then [OF S ok(2) _ u(4) rec1]) simp_all
qed

lemma stop_previous_ended:
  assumes S: "staged h S" and check: "check_leaves S check" and t: "has_phase S t stopping_previous" and r: "open_result r"
  shows "triple (stage_at h S (moving S t) (se_unit S)) (stop_previous h (se_config S) (moving S t) t client prior check r) (ended h S)"
proof -
  note restore = restore_ended [OF S t r]
  have rest: "triple (stage_at h S (moving S t) (se_unit S))
      (if terminal_stopped stopped then switch_unit h (se_config S) (moving S t) t prior check r
       else if ls_active stopped \<and> ls_main_pid stopped = ls_main_pid prior then abort_upgrade h (se_config S) (moving S t) client r [OtherError]
       else recover h (se_config S) (moving S t) r [OtherError]) (ended h S)" for stopped
    by (intro triple_if switch_ended [OF S check t r] abort_ended [OF S t r] recover_open [OF S has_phaseD(1) [OF t] stopping_unit [OF t] r]) simp
  show ?thesis
  proof (cases "ls_active prior")
    case True
    then show ?thesis unfolding stop_previous_def attempt_seq if_P [OF True]
      by (intro systemctl_then [OF S restore] manager_then [OF S restore rest])
  next
    case False
    then show ?thesis unfolding stop_previous_def attempt_seq if_not_P [OF False] attempt_succeed
      by (intro manager_then [OF S restore rest])
  qed
qed

subsection \<open>The whole activation\<close>

lemma open_start: "open_result (no_activation\<lparr>ar_current := x, ar_previous := y\<rparr>)" "open_result no_activation"
  by (simp_all add: open_result_def no_activation_def)

lemma given_up_verdict: "reason X e \<Longrightarrow> open_result r \<Longrightarrow> verdict S r e (se_before S)"
  by (simp add: verdict_def given_up_def open_result_def reason_def)

lemma owned_status_pid: "owned_manager_status h d w = (Inr s, w') \<Longrightarrow> 0 \<le> ls_main_pid s"
  by (auto simp: owned_manager_status_def manager_status_def parse_status_def succeed_def fail_def Let_def elim!: seq_Inr split: if_splits option.splits)

lemma owned_then:
  assumes S: "staged h S"
    and "\<And>e. reason verdicts e \<Longrightarrow> triple (stage_at h S d u) (H e) R"
    and "\<And>s. 0 \<le> ls_main_pid s \<Longrightarrow> triple (stage_at h S d u) (C s) R"
  shows "triple (stage_at h S d u) (attempt (owned_manager_status h sd) H C) R"
proof (rule triple_attempt)
  show "triple (stage_at h S d u) (owned_manager_status h sd)
      (case_sum (\<lambda>e w. reason verdicts e \<and> stage_at h S d u w) (\<lambda>s w. 0 \<le> ls_main_pid s \<and> stage_at h S d u w))"
  proof (rule tripleI)
    fix w r w'
    assume P: "stage_at h S d u w" and m: "owned_manager_status h sd w = (r, w')"
    have "stage_at h S d u w'"
      using quiet_run [OF quiet_owned_status [OF staged_steady [OF S]] m stage_at_present [OF P]] stage_at_same [OF P] by blast
    then show "case_sum (\<lambda>e w. reason verdicts e \<and> stage_at h S d u w) (\<lambda>s w. 0 \<le> ls_main_pid s \<and> stage_at h S d u w) r w'"
      using m errsD [OF errs_owned_status [OF beyond_calls_simps(2)]] owned_status_pid by (cases r) auto
  qed
qed (auto intro: triple_given assms(2,3))

lemma pending_ended:
  assumes S: "staged h S" and check: "check_leaves S check"
  shows "triple (stage_at h S (se_before S) (se_unit S)) (activate_pending h (se_config S) (se_before S) (se_candidate S) check) (ended h S)"
  unfolding activate_pending_def Let_def
proof (rule owned_then [OF S])
  fix prior :: lifecycle_status
  assume pid: "0 \<le> ls_main_pid prior"
  let ?r = "no_activation\<lparr>ar_current := de_version (se_before S), ar_previous := de_version (se_before S)\<rparr>"
  let ?t = "\<lparr>tr_phase = stopping_previous, tr_previous = release_of (se_before S), tr_candidate = se_candidate S,
    tr_source_pid = ls_main_pid prior, tr_recovery = False\<rparr>"
  have t: "has_phase S ?t stopping_previous" using pid by (simp add: has_phase_def transition_ok_def)
  have d: "(se_before S)\<lparr>de_transition := Some ?t\<rparr> = moving S ?t" by (simp add: moving_def)
  have cleared: "(moving S ?t)\<lparr>de_transition := None\<rparr> = se_before S" using back_to_before [OF S] by simp
  have publish: "triple (stage_at h S (se_before S) (se_unit S))
      (attempt (publish_transition h (se_config S) ((se_before S)\<lparr>de_transition := Some ?t\<rparr>)) (finish_resumed h client ?r)
        (\<lambda>_. stop_previous h (se_config S) ((se_before S)\<lparr>de_transition := Some ?t\<rparr>) ?t client prior check ?r)) (ended h S)" for client
    unfolding publish_transition_def d cleared
  proof (rule descriptor_then [OF S stage_ok_moving [OF has_phaseD(1) [OF t] stopping_unit [OF t]]])
    fix e
    assume e: "reason verdicts e"
    show "triple (stage_at h S (se_before S) (se_unit S)) (finish_resumed h client ?r e) (ended h S)"
      unfolding finish_resumed_def [abs_def]
    proof (rule resumed_then [OF S])
      fix es :: errors
      assume "set es \<subseteq> {OtherError}"
      show "verdict S ?r (e @ es) (se_before S)"
        by (rule given_up_verdict [where X = "{}"]) (use e open_start in \<open>auto simp: reason_def\<close>)
    qed
  qed (rule stop_previous_ended [OF S check t open_start(1)])
  show "triple (stage_at h S (se_before S) (se_unit S))
      (attempt (drain_active h (se_before S) (ls_active prior)) (finish ?r) (\<lambda>client.
        attempt (publish_transition h (se_config S) ((se_before S)\<lparr>de_transition := Some ?t\<rparr>)) (finish_resumed h client ?r)
          (\<lambda>_. stop_previous h (se_config S) ((se_before S)\<lparr>de_transition := Some ?t\<rparr>) ?t client prior check ?r))) (ended h S)"
    by (rule quiet_then [OF quiet_drain_active [OF staged_steady [OF S]] errs_drain_active [OF beyond_calls_simps(2)]
          finish_then [OF given_up_verdict [OF _ open_start(1)]] publish])
qed (rule finish_then [OF given_up_verdict [OF _ open_start(1)]])

lemma lstat_Inr: "lstat p w = (Inr n, w') \<Longrightarrow> node_at p w = Some n \<and> \<not> mc_dead w"
  using at_node_Inr [of p succeed w n w'] by (auto simp: lstat_def succeed_def)

lemma read_file_Inr:
  assumes "read_file p w = (Inr s, w')"
  shows "\<exists>n. node_at p w = Some n \<and> nd_contents n = Regular s"
proof -
  obtain w0 n where n: "node_at p w = Some n"
    "(case nd_contents n of Regular s \<Rightarrow> succeed s | _ \<Rightarrow> fail [OtherError]) w0 = (Inr s, w')"
    using at_node_Inr [OF assms [unfolded read_file_def]] by blast
  then show ?thesis by (cases "nd_contents n") (auto simp: succeed_def fail_def)
qed

lemma read_descriptor_Inr:
  assumes "read_descriptor h c w = (Inr (Some d), w')"
  shows "\<not> mc_dead w \<and> (\<exists>s. map_option nd_contents (node_at (dpath c) w) = Some (Regular s) \<and> ho_decode h s = Some d)"
  using assms unfolding read_descriptor_def
proof (cases rule: attempt_cases)
  case (fails e w1)
  then show ?thesis by (auto simp: succeed_def fail_def split: if_splits)
next
  case (works n w1)
  obtain s w2 where s: "read_file (dpath c) w1 = (Inr s, w2)" "ho_decode h s = Some d"
    using works(2) by (auto simp: succeed_def fail_def elim!: seq_Inr split: if_splits option.splits)
  have "node_at (dpath c) w1 = node_at (dpath c) w"
    using quiet_run [OF quiet_lstat works(1), of "{dpath c}"] lstat_Inr [OF works(1)] by simp
  then show ?thesis using read_file_Inr [OF s(1)] s(2) lstat_Inr [OF works(1)] by auto
qed

lemma verify_installation_Inr:
  assumes "verify_installation h c w = (Inr d, w')"
  shows "\<exists>w1. read_descriptor h c w = (Inr (Some d), w1)"
  using assms unfolding verify_installation_def
  by (auto simp: succeed_def fail_def elim!: seq_Inr split: option.splits if_splits)

lemma installation_then:
  assumes S: "staged h S"
    and "\<And>e. reason {} e \<Longrightarrow> triple (stage_at h S (se_before S) u) (H e) R"
    and "triple (stage_at h S (se_before S) u) (C (se_before S)) R"
  shows "triple (stage_at h S (se_before S) u) (attempt (with_installation h (se_config S) succeed) H C) R"
proof (rule triple_attempt)
  show "triple (stage_at h S (se_before S) u) (with_installation h (se_config S) succeed)
      (case_sum (\<lambda>e w. reason {} e \<and> stage_at h S (se_before S) u w) (\<lambda>d w. d = se_before S \<and> stage_at h S (se_before S) u w))"
  proof (rule tripleI)
    fix w r w'
    assume P: "stage_at h S (se_before S) u w" and m: "with_installation h (se_config S) succeed w = (r, w')"
    have lock: "dpath (se_config S) @ ''.lock'' \<notin> owned_paths S" using S by (auto simp: owned_paths_def staged_def)
    have at: "stage_at h S (se_before S) u w'"
      using quiet_run [OF quiet_with_installation [OF lock] m stage_at_present [OF P]] stage_at_same [OF P] by blast
    show "case_sum (\<lambda>e w. reason {} e \<and> stage_at h S (se_before S) u w) (\<lambda>d w. d = se_before S \<and> stage_at h S (se_before S) u w) r w'"
    proof (cases r)
      case (Inl e)
      then show ?thesis using at errsD [OF errs_with_installation] m by auto
    next
      case (Inr d)
      obtain x w1 y w2 where v: "verify_installation h (se_config S) w = (Inr x, w1)" "lock_installed h (se_config S) w1 = (Inr y, w2)"
        "verify_installation h (se_config S) w2 = (Inr d, w')"
        using m unfolding Inr with_installation_def by (auto simp: succeed_def elim!: seq_Inr)
      have q1: "stage_at h S (se_before S) u w1"
        using quiet_run [OF quiet_verify_installation v(1) stage_at_present [OF P]] stage_at_same [OF P] by blast
      have q2: "stage_at h S (se_before S) u w2"
        using quiet_run [OF quiet_lock_installed [OF lock] v(2) stage_at_present [OF q1]] stage_at_same [OF q1] by blast
      obtain s where s: "\<not> mc_dead w2" "map_option nd_contents (node_at (dpath (se_config S)) w2) = Some (Regular s)" "ho_decode h s = Some d"
        using verify_installation_Inr [OF v(3)] read_descriptor_Inr by blast
      have "s = ho_encode h (se_before S)" using stage_at_alive [OF q2 s(1)] s(2) by (auto simp: on_disk_def file_at_def)
      then have "d = se_before S" using s(3) S stage_ok_before [of S] by (auto simp: staged_def)
      then show ?thesis using Inr at by simp
    qed
  qed
qed (auto intro: triple_given assms(2,3))

lemma activation_ended:
  assumes S: "staged h S" and check: "check_leaves S check"
  shows "triple (stage_at h S (se_before S) (se_unit S)) (activate_upgrade h (se_config S) over confirm (Some check)) (ended h S)"
proof -
  have pending: "de_pending (se_before S) = Some (se_candidate S)" using S by (simp add: staged_def)
  have early: "triple (stage_at h S (se_before S) (se_unit S)) (finish no_activation e) (ended h S)" if "e \<noteq> []" for e
    by (rule finish_then [OF given_up_verdict [OF _ open_start(2), where X = "{}"]]) (use that in \<open>simp add: reason_def\<close>)
  have run: "triple (stage_at h S (se_before S) (se_unit S)) (attempt (with_installation h (se_config S) succeed) (finish no_activation) (\<lambda>d.
      case de_pending d of None \<Rightarrow> finish no_activation [UpgradeRequired] | Some candidate \<Rightarrow> activate_pending h (se_config S) d candidate check)) (ended h S)"
    by (rule installation_then [OF S]) (use early pending_ended [OF S check] pending in \<open>auto simp: reason_def\<close>)
  show ?thesis unfolding activate_upgrade_def option.case by (intro triple_if early run) simp_all
qed

end
