(* ===== verification/LifeProps.thy ===== *)
theory LifeProps
  imports LifeOutcome
begin

text \<open>
  What the activation of an upgrade promises: it ends as it says, and wherever it is
  interrupted, the next process recognises the installation.
\<close>

subsection \<open>The next process\<close>

definition calm :: "'m machine \<Rightarrow> bool" where
  "calm w \<longleftrightarrow> \<not> mc_dead w \<and> mc_faults w = []"

definition restarted :: "'m machine \<Rightarrow> 'm machine" where
  "restarted w = w\<lparr>mc_dead := False, mc_faults := []\<rparr>"

lemma calm_restarted: "calm (restarted w)"
  by (simp add: calm_def restarted_def)

lemma file_at_restarted: "file_at h p s (restarted w) = file_at h p s w"
  by (simp add: file_at_def node_at_def restarted_def)

lemma syscall_calm: "calm w \<Longrightarrow> syscall f w = f w"
  by (simp add: syscall_def calm_def)

lemma lstat_calm: "calm w \<Longrightarrow> node_at p w = Some n \<Longrightarrow> lstat p w = (Inr n, w)"
  by (simp add: lstat_def at_node_def syscall_calm succeed_def)

lemma read_file_calm: "calm w \<Longrightarrow> node_at p w = Some n \<Longrightarrow> nd_contents n = Regular s \<Longrightarrow> read_file p w = (Inr s, w)"
  by (simp add: read_file_def at_node_def syscall_calm succeed_def)

lemma attempt_Inr: "m w = (Inr x, w') \<Longrightarrow> attempt m H C w = C x w'"
  by (simp add: attempt_def)

lemma attempt_Inl: "m w = (Inl e, w') \<Longrightarrow> attempt m H C w = H e w'"
  by (simp add: attempt_def)

lemma lstat_continues: "calm w \<Longrightarrow> node_at p w = Some n \<Longrightarrow> attempt (lstat p) H C w = C n w"
  by (rule attempt_Inr [where m = "lstat p"]) (rule lstat_calm)

lemma read_continues: "calm w \<Longrightarrow> node_at p w = Some n \<Longrightarrow> nd_contents n = Regular s \<Longrightarrow> attempt (read_file p) H C w = C s w"
  by (rule attempt_Inr [where m = "read_file p"]) (rule read_file_calm)

lemma verify_file_calm: "calm w \<Longrightarrow> file_at h p s w \<Longrightarrow> verify_file h p s mode_file w = (Inr (), w)"
  unfolding file_at_def verify_file_def by (elim exE conjE) (simp add: read_continues lstat_continues succeed_def)

lemma verify_file_differs: "calm w \<Longrightarrow> file_at h p s w \<Longrightarrow> t \<noteq> s \<Longrightarrow> verify_file h p t mode_file w = (Inl [LifecycleOwnership], w)"
  unfolding file_at_def verify_file_def by (elim exE conjE) (simp add: read_continues lstat_continues fail_def)

lemma verify_continues: "calm w \<Longrightarrow> file_at h p s w \<Longrightarrow> attempt (verify_file h p s mode_file) H C w = C () w"
  by (rule attempt_Inr [where m = "verify_file h p s mode_file"]) (rule verify_file_calm)

lemma verify_refuses: "calm w \<Longrightarrow> file_at h p s w \<Longrightarrow> t \<noteq> s \<Longrightarrow> attempt (verify_file h p t mode_file) H C w = H [LifecycleOwnership] w"
  by (rule attempt_Inl [where m = "verify_file h p t mode_file"]) (rule verify_file_differs)

lemma render_continues: "render_unit c d = Some s \<Longrightarrow> attempt (lift_render (render_unit c d)) H C w = C s w"
  by (simp add: lift_render_def)

lemma read_descriptor_calm:
  assumes "calm w" and "file_at h (dpath c) (ho_encode h d) w" and "valid_descriptor_size (ho_encode h d)"
    and "ho_decode h (ho_encode h d) = Some d" and "valid_descriptor c d"
  shows "read_descriptor h c w = (Inr (Some d), w)"
proof -
  obtain n where n: "node_at (dpath c) w = Some n" "nd_contents n = Regular (ho_encode h d)" "nd_perm n = mode_file" "nd_uid n = ho_uid h"
    using assms(2) by (auto simp: file_at_def)
  show ?thesis unfolding read_descriptor_def
    using n assms by (simp add: lstat_continues [OF assms(1) n(1)] read_continues [OF assms(1) n(1,2)] succeed_def)
qed

subsection \<open>Valid stages\<close>

lemma other_release_ok_simps [simp]: "other_release_ok c r None"
  "other_release_ok c r (Some x) \<longleftrightarrow> valid_release c x \<and> re_version x \<noteq> re_version r"
  by (simp_all add: other_release_ok_def)

lemma staged_candidate:
  assumes "staged h S"
  shows "valid_descriptor (se_config S) (se_before S)" and "de_pending (se_before S) = Some (se_candidate S)" and "de_transition (se_before S) = None"
    and "valid_release (se_config S) (se_candidate S)" and "re_version (se_candidate S) \<noteq> de_version (se_before S)"
proof -
  show v: "valid_descriptor (se_config S) (se_before S)" and p: "de_pending (se_before S) = Some (se_candidate S)"
    and "de_transition (se_before S) = None"
    using assms by (simp_all add: staged_def)
  have "other_release_ok (se_config S) (release_of (se_before S)) (Some (se_candidate S))" using v p by (simp add: valid_descriptor_def)
  then show "valid_release (se_config S) (se_candidate S)" and "re_version (se_candidate S) \<noteq> de_version (se_before S)"
    by (simp_all add: release_of_def)
qed

lemma moving_valid: "staged h S \<Longrightarrow> transition_ok S t \<Longrightarrow> valid_descriptor (se_config S) (moving S t)"
  using staged_candidate [of h S]
  by (simp add: transition_ok_def valid_descriptor_def valid_transition_def moving_def release_of_def)

lemma release_of_upgraded: "release_of (upgraded S) = se_candidate S"
  by (cases "se_candidate S") (simp add: release_of_def upgraded_def with_release_def)

lemma upgraded_fields: "de_schema (upgraded S) = de_schema (se_before S)" "de_unit (upgraded S) = de_unit (se_before S)"
  "de_service (upgraded S) = de_service (se_before S)" "de_unit_path (upgraded S) = de_unit_path (se_before S)"
  "de_protocol (upgraded S) = de_protocol (se_before S)" "de_runtime (upgraded S) = de_runtime (se_before S)"
  "de_runtime_name (upgraded S) = de_runtime_name (se_before S)" "de_socket (upgraded S) = de_socket (se_before S)"
  "de_purge (upgraded S) = de_purge (se_before S)" "de_previous (upgraded S) = Some (release_of (se_before S))"
  "de_pending (upgraded S) = None" "de_transition (upgraded S) = None"
  by (simp_all add: upgraded_def with_release_def)

lemma upgraded_valid: "staged h S \<Longrightarrow> valid_descriptor (se_config S) (upgraded S)"
proof -
  assume S: "staged h S"
  have "re_version (release_of (se_before S)) = de_version (se_before S)" by (simp add: release_of_def)
  then show ?thesis using staged_candidate [OF S] by (simp add: valid_descriptor_def release_of_upgraded upgraded_fields)
qed

lemma stage_valid: "staged h S \<Longrightarrow> stage_ok S d u \<Longrightarrow> valid_descriptor (se_config S) d"
  unfolding stage_ok_def using moving_valid upgraded_valid staged_def by metis

lemma upgraded_render: "staged h S \<Longrightarrow> render_unit (se_config S) (upgraded S) = Some (se_candidate_unit S)"
  using candidate_render [of h S "with_release (se_before S) (se_candidate S)"]
  by (auto simp: upgraded_def staged_def render_unit_def cong: option.case_cong)

text \<open>The unit file of a stage is the one its descriptor calls for.\<close>

lemma stage_recognised:
  assumes S: "staged h S" and ok: "stage_ok S d u" and w: "calm w" "file_at h (upath (se_config S)) u w"
  shows "verify_descriptor_unit h (se_config S) d w = (Inr (), w)" and "expected_unit h (se_config S) d w = (Inr u, w)"
proof -
  note good = verify_file_calm [OF w] verify_continues [OF w]
  have "verify_descriptor_unit h (se_config S) d w = (Inr (), w) \<and> expected_unit h (se_config S) d w = (Inr u, w)"
    if r: "render_unit (se_config S) d = Some u" and u: "uses_current_unit (de_transition d)"
  proof -
    have e: "expected_unit h (se_config S) d w = (Inr u, w)"
      unfolding expected_unit_def by (simp add: render_continues [OF r] good succeed_def)
    show ?thesis
    proof (cases "de_transition d")
      case None
      then show ?thesis using e by (simp add: verify_descriptor_unit_def render_continues [OF r] good)
    next
      case (Some t)
      then show ?thesis using e u by (simp add: verify_descriptor_unit_def render_continues [OF r] good)
    qed
  qed note plain = this
  have "verify_descriptor_unit h (se_config S) d w = (Inr (), w) \<and> expected_unit h (se_config S) d w = (Inr u, w)"
    using ok unfolding stage_ok_def
  proof (elim disjE exE conjE)
    assume "d = se_before S" "u = se_unit S"
    then show ?thesis using S by (intro plain) (auto simp: staged_def uses_current_unit_def)
  next
    assume "d = upgraded S" "u = se_candidate_unit S"
    then show ?thesis using upgraded_render [OF S] by (intro plain) (auto simp: uses_current_unit_def upgraded_def)
  next
    fix t
    assume t: "transition_ok S t" "d = moving S t" "unit_in_phase S (tr_phase t) u"
    have r0: "render_unit (se_config S) d = Some (se_unit S)" using S t(2) by (simp add: staged_def)
    have r1: "render_unit (se_config S) (with_release d (tr_candidate t)) = Some (se_candidate_unit S)"
      using S t(1,2) by (simp add: staged_def transition_ok_def)
    have d: "de_transition d = Some t" using t(2) by simp
    show ?thesis
    proof (cases "uses_current_unit (Some t)")
      case True
      then show ?thesis using r0 t(3) d by (intro plain) (auto simp: uses_current_unit_def unit_in_phase_def)
    next
      case late: False
      then have u: "u = se_candidate_unit S \<or> tr_phase t = switching_unit \<and> u = se_unit S"
        using t(3) by (auto simp: uses_current_unit_def unit_in_phase_def split: if_splits)
      show ?thesis
      proof (cases "u = se_unit S")
        case True
        have "expected_unit h (se_config S) d w = (Inr u, w)" unfolding expected_unit_def
          by (simp add: render_continues [OF r0] True [symmetric] good succeed_def)
        moreover have "verify_descriptor_unit h (se_config S) d w = (Inr (), w)"
        proof (cases "tr_phase t = switching_unit")
          case True
          then show ?thesis using late d \<open>u = se_unit S\<close>
            by (simp add: verify_descriptor_unit_def render_continues [OF r0] render_continues [OF r1]
                good [unfolded \<open>u = se_unit S\<close>] succeed_def)
        next
          case False
          then have "se_candidate_unit S = u" using u by simp
          then show ?thesis using late d False good
            by (simp add: verify_descriptor_unit_def render_continues [OF r0] render_continues [OF r1])
        qed
        ultimately show ?thesis by simp
      next
        case False
        then have c: "se_candidate_unit S = u" using u by simp
        note refuses = verify_refuses [OF w False [symmetric]]
        show ?thesis using late d c
          by (simp add: verify_descriptor_unit_def expected_unit_def render_continues [OF r0] render_continues [OF r1]
              refuses good succeed_def)
      qed
    qed
  qed
  then show "verify_descriptor_unit h (se_config S) d w = (Inr (), w)" and "expected_unit h (se_config S) d w = (Inr u, w)" by auto
qed

subsection \<open>The promises\<close>

text \<open>C1: an activation ends as it says, whatever failed on the way.  It reports success and the
  candidate is current, with its unit file, and runs; or it reports the rollback and everything
  is as before and runs; or another error and everything is as before; or it asks for recovery
  and the descriptor says in which phase it stopped, with the unit file that phase allows.\<close>

theorem activation_ends_as_it_says:
  assumes "staged h S" and "check_leaves S check" and "on_disk h S (se_before S) (se_unit S) w"
    and "activate_upgrade h (se_config S) over confirm (Some check) w = ((r, e), w')" and "\<not> mc_dead w'"
  shows "\<exists>d u. on_disk h S d u w' \<and> stage_ok S d u \<and> verdict S r e d"
proof -
  have "stage_at h S (se_before S) (se_unit S) w" by (rule stage_at_start [OF assms(3) stage_ok_before])
  from tripleD [OF activation_ended [OF assms(1,2)] this assms(4)] show ?thesis using assms(5) by (auto simp: ended_def)
qed

text \<open>C2: wherever an activation is interrupted, by a crash after any of its system calls or by
  an error, the next process reads a valid descriptor, accepts the unit file as the one this
  descriptor calls for, and an uninstall knows it as the one it may remove.\<close>

theorem interrupted_upgrade_recognised:
  assumes "staged h S" and "check_leaves S check" and "on_disk h S (se_before S) (se_unit S) w"
  shows "let w' = restarted (snd (activate_upgrade h (se_config S) over confirm (Some check) w)) in
    \<exists>d u. read_descriptor h (se_config S) w' = (Inr (Some d), w') \<and> file_at h (upath (se_config S)) u w' \<and>
      verify_descriptor_unit h (se_config S) d w' = (Inr (), w') \<and> expected_unit h (se_config S) d w' = (Inr u, w')"
proof -
  obtain x w' where run: "activate_upgrade h (se_config S) over confirm (Some check) w = (x, w')" by fastforce
  have "stage_at h S (se_before S) (se_unit S) w" by (rule stage_at_start [OF assms(3) stage_ok_before])
  from tripleD [OF activation_ended [OF assms(1,2)] this run]
  obtain d u where d: "on_disk h S d u w'" "stage_ok S d u" by (auto simp: ended_def)
  let ?w = "restarted w'"
  have files: "file_at h (dpath (se_config S)) (ho_encode h d) ?w" "file_at h (upath (se_config S)) u ?w" "valid_descriptor_size (ho_encode h d)"
    using d(1) by (simp_all add: on_disk_def file_at_restarted)
  have code: "ho_decode h (ho_encode h d) = Some d" using assms(1) d(2) by (auto simp: staged_def)
  have "read_descriptor h (se_config S) ?w = (Inr (Some d), ?w)"
    by (rule read_descriptor_calm [OF calm_restarted files(1,3) code stage_valid [OF assms(1) d(2)]])
  moreover note stage_recognised [OF assms(1) d(2) calm_restarted files(2)]
  ultimately show ?thesis using files(2) run by (auto simp: Let_def)
qed

end
