(* ===== verification/LifeSamples.thy ===== *)
theory LifeSamples
  imports LifeProps
begin

text \<open>
  A concrete installation with a staged upgrade, on a small host, and runs of its activation.
\<close>

definition sample_life_config :: lifecycle_config where
  "sample_life_config = \<lparr>lc_unit = ''a.service'', lc_service = ''a'', lc_description = ''A'', lc_protocol = 1, lc_client = ''c'',
     lc_paths = \<lparr>lp_unit = ''/u/a.service'', lp_descriptor = ''/d/x'', lp_binaries = ''/b'', lp_runtime = ''/r/a'', lp_runtime_name = ''a'',
       lp_socket = ''/r/a/s'', lp_purge = []\<rparr>,
     lc_command_timeout = 1, lc_readiness_timeout = 1, lc_drain_timeout = 1\<rparr>"

definition sample_digest :: "string \<Rightarrow> string" where
  "sample_digest s = replicate 64 (if s = [] then CHR ''0'' else hd s)"

definition sample_release :: "char \<Rightarrow> release" where
  "sample_release v = \<lparr>re_executable = ''/b/'' @ [v] @ ''/service'', re_digest = sample_digest [v], re_version = [v], re_arguments = []\<rparr>"

definition sample_before :: descriptor where
  "sample_before = \<lparr>de_schema = 1, de_unit = ''a.service'', de_service = ''a'', de_unit_path = ''/u/a.service'',
     de_executable = ''/b/1/service'', de_digest = sample_digest ''1'', de_version = ''1'', de_arguments = [], de_protocol = 1,
     de_runtime = ''/r/a'', de_runtime_name = ''a'', de_socket = ''/r/a/s'', de_previous = None, de_pending = Some (sample_release CHR ''2''),
     de_transition = None, de_purge = []\<rparr>"

definition sample_setting :: setting where
  "sample_setting = \<lparr>se_config = sample_life_config, se_before = sample_before, se_candidate = sample_release CHR ''2'',
     se_unit = the (render_unit sample_life_config sample_before),
     se_candidate_unit = the (render_unit sample_life_config (with_release sample_before (sample_release CHR ''2'')))\<rparr>"

text \<open>A codec for the descriptors of this upgrade.\<close>

definition sample_encode :: "descriptor \<Rightarrow> string" where
  "sample_encode d =
     (case de_transition d of
        Some t \<Rightarrow> (if tr_recovery t then CHR ''R'' else CHR ''T'') # replicate (nat (tr_source_pid t)) (CHR ''1'') @ CHR '' '' # tr_phase t
      | None \<Rightarrow> if de_pending d = None then ''U'' else ''B'')"

definition sample_decode :: "string \<Rightarrow> descriptor option" where
  "sample_decode s =
     (case s of
        [] \<Rightarrow> None
      | c # cs \<Rightarrow>
          if c = CHR ''B'' then Some sample_before
          else if c = CHR ''U'' then Some (upgraded sample_setting)
          else Some (moving sample_setting \<lparr>tr_phase = tl (dropWhile (\<lambda>x. x = CHR ''1'') cs), tr_previous = release_of sample_before,
            tr_candidate = sample_release CHR ''2'', tr_source_pid = int (length (takeWhile (\<lambda>x. x = CHR ''1'') cs)), tr_recovery = (c = CHR ''R'')\<rparr>))"

text \<open>The manager knows the process that runs, and the service reports the version of its unit.\<close>

record sample_manager =
  sm_pid :: nat
  sm_next :: nat

definition sample_show :: "sample_manager \<Rightarrow> string" where
  "sample_show m = join newline [''Id=a.service'', ''LoadState=loaded'', ''ActiveState='' @ (if sm_pid m = 0 then ''inactive'' else ''active''),
     ''SubState=x'', ''Result=y'', ''MainPID='' @ show_nat (sm_pid m), ''FragmentPath=/u/a.service'', ''UnitFileState=enabled'']"

definition sample_systemctl :: "string list \<Rightarrow> files \<times> sample_manager \<Rightarrow> string option \<times> files \<times> sample_manager" where
  "sample_systemctl args x =
     (let verb = args ! 1; m = snd x in
      if verb = ''show'' then (Some (sample_show m), x)
      else if verb = ''stop'' then (Some [], fst x, m\<lparr>sm_pid := 0\<rparr>)
      else if verb = ''start'' then (Some [], fst x, m\<lparr>sm_pid := sm_next m, sm_next := sm_next m + 1\<rparr>)
      else (Some [], x))"

definition sample_dial :: "descriptor \<Rightarrow> files \<times> sample_manager \<Rightarrow> (call_error + handshake) \<times> files \<times> sample_manager" where
  "sample_dial d x =
     (Inr \<lparr>hs_protocol = 1, hs_service = ''a'',
        hs_version = (if map_option nd_contents (map_of (fst x) ''/u/a.service'') = Some (Regular (se_unit sample_setting)) then ''1'' else ''2''),
        hs_cursor = \<lparr>cu_epoch = ''e'', cu_revision = 1\<rparr>\<rparr>, x)"

definition sample_status :: service_status where
  "sample_status = \<lparr>ss_epoch = ''e'', ss_revision = 1, ss_state = health_ready, ss_accepting = True, ss_detail = []\<rparr>"

definition sample_host :: "sample_manager host" where
  "sample_host = \<lparr>ho_uid = 7, ho_digest = sample_digest, ho_encode = sample_encode, ho_decode = sample_decode, ho_encode_manifest = (\<lambda>_. []),
     ho_tables = ascii_tables, ho_locked = (\<lambda>_ _. False), ho_systemctl = sample_systemctl, ho_dial = sample_dial,
     ho_health = (\<lambda>x. (Inr sample_status, x)), ho_drain = (\<lambda>x. (True, x)), ho_resume = (\<lambda>x. (True, x)), ho_socket_active = (\<lambda>_ _. False), ho_polls = 2\<rparr>"

definition sample_node :: "contents \<Rightarrow> perm \<Rightarrow> nat \<Rightarrow> node" where
  "sample_node x m i = \<lparr>nd_contents = x, nd_perm = m, nd_uid = 7, nd_inode = i\<rparr>"

definition sample_machine :: "outcome list \<Rightarrow> sample_manager machine" where
  "sample_machine faults = \<lparr>mc_files =
     [(''/d'', sample_node Directory mode_dir 1), (''/u'', sample_node Directory mode_dir 2), (''/b'', sample_node Directory mode_dir 3),
      (''/b/1'', sample_node Directory mode_dir 4), (''/b/2'', sample_node Directory mode_dir 5),
      (''/b/1/service'', sample_node (Regular ''1'') mode_dir 6), (''/b/2/service'', sample_node (Regular ''2'') mode_dir 7),
      (''/u/a.service'', sample_node (Regular (se_unit sample_setting)) mode_file 8),
      (''/d/x'', sample_node (Regular ''B'') mode_file 9), (''/d/x.lock'', sample_node (Regular []) mode_file 10)],
     mc_inodes = 11, mc_outside = \<lparr>sm_pid = 3, sm_next = 4\<rparr>, mc_faults = faults, mc_dead = False\<rparr>"

definition sample_check :: "sample_manager rollback_check" where
  "sample_check p q x = (Some True, x)"

definition sample_activation :: "outcome list \<Rightarrow> (activation_result \<times> errors) \<times> sample_manager machine" where
  "sample_activation faults = activate_upgrade sample_host sample_life_config False True (Some sample_check) (sample_machine faults)"

subsection \<open>The hypotheses hold\<close>

lemma sample_steady: "steady K sample_host"
  by (simp add: steady_def leaves_def sample_host_def sample_systemctl_def sample_dial_def Let_def)

lemma sample_check_leaves: "check_leaves S sample_check"
  by (simp add: check_leaves_def leaves_def sample_check_def)

lemma sample_codec: "stage_ok sample_setting d u \<Longrightarrow> sample_decode (sample_encode d) = Some d"
  unfolding stage_ok_def
proof (elim disjE exE conjE)
  assume "d = se_before sample_setting"
  then show ?thesis by (simp add: sample_encode_def sample_decode_def sample_setting_def sample_before_def)
next
  assume "d = upgraded sample_setting"
  then show ?thesis by (simp add: sample_encode_def sample_decode_def upgraded_def)
next
  fix t
  assume t: "transition_ok sample_setting t" "d = moving sample_setting t"
  then have fields: "t = \<lparr>tr_phase = tr_phase t, tr_previous = release_of sample_before, tr_candidate = sample_release CHR ''2'',
      tr_source_pid = int (nat (tr_source_pid t)), tr_recovery = tr_recovery t\<rparr>"
    by (cases t) (simp add: transition_ok_def sample_setting_def)
  have run: "takeWhile (\<lambda>x. x = CHR ''1'') (replicate n (CHR ''1'') @ CHR '' '' # p) = replicate n (CHR ''1'')"
    "dropWhile (\<lambda>x. x = CHR ''1'') (replicate n (CHR ''1'') @ CHR '' '' # p) = CHR '' '' # p" for n p
    by (induction n) simp_all
  have tag: "(if r then CHR ''R'' else CHR ''T'') \<noteq> CHR ''B''" "(if r then CHR ''R'' else CHR ''T'') \<noteq> CHR ''U''"
    "((if r then CHR ''R'' else CHR ''T'') = CHR ''R'') = r" for r
    by simp_all
  have tr: "de_transition d = Some t" unfolding t(2) by (simp add: moving_def)
  have "sample_encode d = (if tr_recovery t then CHR ''R'' else CHR ''T'') # replicate (nat (tr_source_pid t)) (CHR ''1'') @ CHR '' '' # tr_phase t"
    unfolding sample_encode_def tr by (simp only: option.case)
  then have "sample_decode (sample_encode d) = Some (moving sample_setting \<lparr>tr_phase = tr_phase t, tr_previous = release_of sample_before,
      tr_candidate = sample_release CHR ''2'', tr_source_pid = int (nat (tr_source_pid t)), tr_recovery = tr_recovery t\<rparr>)"
    unfolding sample_decode_def by (simp only: list.case tag if_False run list.sel length_replicate)
  then show ?thesis unfolding t(2) using fields by simp
qed

lemma sample_paths: "dpath sample_life_config \<noteq> upath sample_life_config \<and> dpath sample_life_config @ ''.lock'' \<noteq> upath sample_life_config"
  by code_simp

lemma sample_descriptor_valid: "valid_descriptor sample_life_config sample_before"
  by code_simp

lemma sample_units: "render_unit sample_life_config sample_before \<noteq> None"
  "render_unit sample_life_config (with_release sample_before (sample_release CHR ''2'')) \<noteq> None"
  by code_simp+

lemma sample_staged: "staged sample_host sample_setting"
proof -
  have f: "se_config sample_setting = sample_life_config" "se_before sample_setting = sample_before"
    "se_candidate sample_setting = sample_release CHR ''2''" "de_transition sample_before = None"
    "de_pending sample_before = Some (sample_release CHR ''2'')"
    by (simp_all add: sample_setting_def sample_before_def)
  have u: "render_unit sample_life_config sample_before = Some (se_unit sample_setting)"
    "render_unit sample_life_config (with_release sample_before (sample_release CHR ''2'')) = Some (se_candidate_unit sample_setting)"
    using sample_units by (auto simp: sample_setting_def)
  have codec: "stage_ok sample_setting d v \<Longrightarrow> ho_decode sample_host (ho_encode sample_host d) = Some d" for d v
    using sample_codec by (simp add: sample_host_def)
  show ?thesis unfolding staged_def f using u sample_paths sample_descriptor_valid sample_steady codec by auto
qed

lemma sample_on_disk: "on_disk sample_host sample_setting (se_before sample_setting) (se_unit sample_setting) (sample_machine faults)"
proof -
  have f: "dpath (se_config sample_setting) = ''/d/x''" "upath (se_config sample_setting) = ''/u/a.service''"
    "ho_uid sample_host = 7" "ho_encode sample_host (se_before sample_setting) = ''B''"
    by (simp_all add: sample_setting_def sample_life_config_def sample_host_def sample_encode_def sample_before_def)
  show ?thesis unfolding on_disk_def f file_at_def
    by (simp add: node_at_def sample_machine_def sample_node_def valid_descriptor_size_def max_descriptor_def f)
qed

subsection \<open>The promises on it\<close>

text \<open>The first system call fails: the activation gives up and everything is as before.\<close>

lemma sample_given_up: "sample_activation [Fails] = ((no_activation, [OtherError]), (sample_machine [])\<lparr>mc_faults := []\<rparr>)"
  by (simp add: sample_activation_def activate_upgrade_def sample_check_def with_installation_def verify_installation_def read_descriptor_def
      attempt_def lstat_def at_node_def syscall_def fail_def finish_def sample_machine_def)

theorem activation_ends_as_it_says_witness:
  "let ((r, e), w) = sample_activation [Fails] in r = no_activation \<and> e = [OtherError] \<and> \<not> mc_dead w \<and>
    (\<exists>d u. on_disk sample_host sample_setting d u w \<and> stage_ok sample_setting d u \<and> verdict sample_setting r e d)"
proof -
  have "activate_upgrade sample_host (se_config sample_setting) False True (Some sample_check) (sample_machine [Fails]) =
      ((no_activation, [OtherError]), (sample_machine [])\<lparr>mc_faults := []\<rparr>)"
    using sample_given_up by (simp add: sample_activation_def sample_setting_def)
  moreover have alive: "\<not> mc_dead ((sample_machine [])\<lparr>mc_faults := []\<rparr>)" by (simp add: sample_machine_def)
  ultimately have "\<exists>d u. on_disk sample_host sample_setting d u ((sample_machine [])\<lparr>mc_faults := []\<rparr>) \<and> stage_ok sample_setting d u \<and>
      verdict sample_setting no_activation [OtherError] d"
    by (rule activation_ends_as_it_says [OF sample_staged sample_check_leaves sample_on_disk])
  then show ?thesis using alive by (simp add: sample_given_up)
qed

text \<open>The process dies after a hundred system calls.\<close>

theorem interrupted_upgrade_recognised_witness:
  "let w = restarted (snd (activate_upgrade sample_host (se_config sample_setting) False True (Some sample_check) (sample_machine (replicate 100 Done @ [Dies])))) in
    \<exists>d u. read_descriptor sample_host (se_config sample_setting) w = (Inr (Some d), w) \<and> file_at sample_host (upath (se_config sample_setting)) u w \<and>
      verify_descriptor_unit sample_host (se_config sample_setting) d w = (Inr (), w) \<and> expected_unit sample_host (se_config sample_setting) d w = (Inr u, w)"
  by (rule interrupted_upgrade_recognised [OF sample_staged sample_check_leaves sample_on_disk])

end
