(* ===== verification/DeskLogic.thy ===== *)
theory DeskLogic
  imports SessionPanes
begin

text \<open>
  What operations ask of Herdr: \<open>yields m Q\<close> relates the effects an operation logs to its result,
  with one rule per way of composing operations.
\<close>

named_theorems yield_rules

definition yields :: "('w desk \<Rightarrow> 'r \<times> 'w desk) \<Rightarrow> (effect list \<Rightarrow> 'r \<Rightarrow> bool) \<Rightarrow> bool" where
  "yields m Q \<longleftrightarrow> (\<forall>w r w'. m w = (r, w') \<longrightarrow> (\<exists>es. dk_log w' = dk_log w @ es \<and> Q es r))"

lemma yieldsD: "yields m Q \<Longrightarrow> m w = (r, w') \<Longrightarrow> \<exists>es. dk_log w' = dk_log w @ es \<and> Q es r"
  by (auto simp: yields_def)

lemma yields_weaken: "yields m P \<Longrightarrow> (\<And>es r. P es r \<Longrightarrow> Q es r) \<Longrightarrow> yields m Q"
  unfolding yields_def by blast

lemma yields_attempt:
  assumes "yields m (\<lambda>es r. case r of Inl e \<Rightarrow> yields (H e) (\<lambda>es' . Q (es @ es')) | Inr x \<Rightarrow> yields (K x) (\<lambda>es'. Q (es @ es')))"
  shows "yields (attempt m H K) Q"
  unfolding yields_def
proof (intro allI impI)
  fix w r w'
  assume run: "attempt m H K w = (r, w')"
  obtain x v where m: "m w = (x, v)" by fastforce
  obtain es where es: "dk_log v = dk_log w @ es"
    and q: "case x of Inl e \<Rightarrow> yields (H e) (\<lambda>es'. Q (es @ es')) | Inr x \<Rightarrow> yields (K x) (\<lambda>es'. Q (es @ es'))"
    using yieldsD [OF assms m] by blast
  have "\<exists>es'. dk_log w' = dk_log v @ es' \<and> Q (es @ es') r"
  proof (cases x)
    case (Inl e)
    then show ?thesis using q run m by (auto simp: attempt_def dest: yieldsD)
  next
    case (Inr y)
    then show ?thesis using q run m by (auto simp: attempt_def dest: yieldsD)
  qed
  then show "\<exists>es. dk_log w' = dk_log w @ es \<and> Q es r" using es by auto
qed

lemma yields_succeed: "Q [] (Inr x) \<Longrightarrow> yields (succeed x) Q"
  by (simp add: yields_def succeed_def)

lemma yields_fail: "Q [] (Inl e) \<Longrightarrow> yields (fail e) Q"
  by (simp add: yields_def fail_def)

lemma yields_ask: "(\<And>r. Q [e] r) \<Longrightarrow> yields (ask e f) Q"
  by (auto simp: yields_def ask_def split: prod.splits)

lemma yields_return: "Q [] r \<Longrightarrow> yields (\<lambda>w. (r, w)) Q"
  by (simp add: yields_def)

text \<open>The same, with the effects of before: \<open>Q\<close> speaks of all of them.\<close>

definition after :: "effect list \<Rightarrow> ('w desk \<Rightarrow> 'r \<times> 'w desk) \<Rightarrow> (effect list \<Rightarrow> 'r \<Rightarrow> bool) \<Rightarrow> bool" where
  "after es m Q \<longleftrightarrow> yields m (\<lambda>es'. Q (es @ es'))"

lemma after_weaken: "after es m P \<Longrightarrow> (\<And>fs r. P fs r \<Longrightarrow> Q fs r) \<Longrightarrow> after es m Q"
  unfolding after_def by (erule yields_weaken)

lemma after_attempt:
  "after es m (\<lambda>fs r. case r of Inl e \<Rightarrow> after fs (H e) Q | Inr x \<Rightarrow> after fs (K x) Q) \<Longrightarrow> after es (attempt m H K) Q"
  unfolding after_def by (rule yields_attempt) (simp add: append_assoc)

lemma after_succeed: "Q es (Inr x) \<Longrightarrow> after es (succeed x) Q"
  and after_fail: "Q es (Inl e) \<Longrightarrow> after es (fail e) Q"
  by (simp_all add: after_def yields_succeed yields_fail)

lemma after_ask: "(\<And>r. Q (es @ [e]) r) \<Longrightarrow> after es (ask e f) Q"
  by (simp add: after_def yields_ask)

lemma yields_after: "after [] m Q \<Longrightarrow> yields m Q"
  by (simp add: after_def)

subsection \<open>Observing\<close>

text \<open>The commands that only read.\<close>

definition observing_verbs :: "string list list" where
  "observing_verbs = [[''pane'', ''get''], [''pane'', ''process-info''], [''pane'', ''read''], [''agent'', ''list'']]"

definition observes :: "effect \<Rightarrow> bool" where
  "observes e = (case e of
     Ran x args \<Rightarrow> args = [''session'', ''list'', ''--json''] \<or> take 1 args = [''--session''] \<and> take 2 (drop 2 args) \<in> set observing_verbs
   | _ \<Rightarrow> False)"

definition observing :: "('w desk \<Rightarrow> 'r \<times> 'w desk) \<Rightarrow> bool" where
  "observing m \<longleftrightarrow> yields m (\<lambda>es r. list_all observes es)"

lemma observing_log: "observing m \<Longrightarrow> m v = (r, v') \<Longrightarrow> \<exists>es. dk_log v' = dk_log v @ es \<and> list_all observes es"
  unfolding observing_def by (rule yieldsD)

named_theorems observing_rules

lemma observing_attempt [observing_rules]:
  "observing m \<Longrightarrow> (\<And>e. observing (H e)) \<Longrightarrow> (\<And>x. observing (K x)) \<Longrightarrow> observing (attempt m H K)"
  unfolding observing_def
  by (rule yields_attempt, erule yields_weaken) (auto split: sum.splits elim!: yields_weaken)

lemma observing_succeed [observing_rules]: "observing (succeed x)"
  and observing_fail [observing_rules]: "observing (fail e)"
  and observing_return [observing_rules]: "observing (\<lambda>w. (r, w))"
  by (simp_all add: observing_def yields_succeed yields_fail yields_return)

lemma observing_if [observing_rules]: "observing m \<Longrightarrow> observing n \<Longrightarrow> observing (if b then m else n)"
  by simp

lemma observing_option [observing_rules]:
  "observing m \<Longrightarrow> (\<And>x. observing (n x)) \<Longrightarrow> observing (case y of None \<Rightarrow> m | Some x \<Rightarrow> n x)"
  by (cases y) auto

lemma observing_sum [observing_rules]:
  "(\<And>x. observing (m x)) \<Longrightarrow> (\<And>x. observing (n x)) \<Longrightarrow> observing (case y of Inl x \<Rightarrow> m x | Inr x \<Rightarrow> n x)"
  by (cases y) auto

lemma observing_list [observing_rules]:
  "observing m \<Longrightarrow> (\<And>x xs. observing (n x xs)) \<Longrightarrow> observing (case y of [] \<Rightarrow> m | x # xs \<Rightarrow> n x xs)"
  by (cases y) auto

lemma observing_pair [observing_rules]: "(\<And>x y. observing (m x y)) \<Longrightarrow> observing (case p of (x, y) \<Rightarrow> m x y)"
  by (cases p) auto

lemma observing_yields: "observing m \<Longrightarrow> (\<And>es r. list_all observes es \<Longrightarrow> Q es r) \<Longrightarrow> yields m Q"
  unfolding observing_def by (erule yields_weaken) blast

lemma observing_herdr_run: "(\<And>x. observes (Ran x args)) \<Longrightarrow> observing (herdr_run c args)"
  unfolding herdr_run_def Let_def
  by (intro observing_rules) (simp add: observing_def yields_ask)

lemma observing_run_json: "(\<And>x. observes (Ran x args)) \<Longrightarrow> observing (run_json c d args)"
  unfolding run_json_def by (intro observing_rules observing_herdr_run) auto

lemma session_arguments_Inr: "session_arguments s args w = (Inr x, w') \<Longrightarrow> w' = w \<and> (\<exists>t. x = [''--session'', t] @ args)"
  by (auto simp: session_arguments_def session_args_def Let_def fail_def succeed_def split: sum.splits option.splits if_splits)

lemma yields_arguments:
  "(\<And>e. Q [] (Inl e)) \<Longrightarrow> (\<And>s. Q [] (Inr ([''--session'', s] @ args))) \<Longrightarrow> yields (session_arguments t args) Q"
  by (auto simp: yields_def session_arguments_def session_args_def Let_def fail_def succeed_def split: sum.splits option.splits if_splits)

lemma after_arguments:
  "(\<And>e. Q es (Inl e)) \<Longrightarrow> (\<And>s. Q es (Inr ([''--session'', s] @ args))) \<Longrightarrow> after es (session_arguments t args) Q"
  unfolding after_def by (rule yields_arguments) auto

lemma after_observing: "observing m \<Longrightarrow> (\<And>fs r. list_all observes fs \<Longrightarrow> Q (es @ fs) r) \<Longrightarrow> after es m Q"
  unfolding after_def by (rule observing_yields)

lemma after_herdr_run: "(\<And>e. Q es (Inl e)) \<Longrightarrow> (\<And>x r. Q (es @ [Ran x args]) r) \<Longrightarrow> after es (herdr_run c args) Q"
  unfolding herdr_run_def Let_def
  by (auto split: option.split sum.split intro!: after_fail after_attempt after_ask after_succeed)

lemma after_run_json: "(\<And>e. Q es (Inl e)) \<Longrightarrow> (\<And>x r. Q (es @ [Ran x args]) r) \<Longrightarrow> after es (run_json c d args) Q"
  unfolding run_json_def
  by (intro after_attempt after_herdr_run) (auto split: option.split sum.split intro!: after_fail after_succeed)

lemma after_run_empty: "(\<And>e. Q es (Inl e)) \<Longrightarrow> (\<And>x r. Q (es @ [Ran x args]) r) \<Longrightarrow> after es (run_empty c args) Q"
  unfolding run_empty_def
  by (intro after_attempt after_herdr_run) (auto split: option.split sum.split intro!: after_fail after_succeed)

text \<open>The arguments of a command go to a command that only observes.\<close>

lemma observing_arguments:
  assumes "\<And>e. observing (H e)" and "\<And>s. observing (K ([''--session'', s] @ args))"
  shows "observing (attempt (session_arguments t args) H K)"
  using assms unfolding observing_def by (intro yields_attempt yields_arguments) auto

subsection \<open>Panes and processes\<close>

lemma observing_sleep [observing_rules]: "observing (sleep h)"
  by (auto simp: observing_def yields_def sleep_def Let_def split: prod.splits)

lemma observing_list_sessions [observing_rules]: "observing (list_sessions h)"
  unfolding list_sessions_def by (intro observing_rules observing_run_json) (simp add: observes_def)

lemma observing_session_socket [observing_rules]: "observing (session_socket h)"
  unfolding session_socket_def by (intro observing_rules)

lemma observing_current_pane [observing_rules]: "observing (current_pane h g)"
  unfolding current_pane_def
  by (intro observing_rules observing_arguments observing_run_json) (simp add: observes_def observing_verbs_def)

lemma observing_pane_processes [observing_rules]: "observing (pane_processes h g)"
  unfolding pane_processes_def
  by (intro observing_rules observing_arguments observing_run_json) (simp add: observes_def observing_verbs_def)

lemma observing_nat [observing_rules]: "observing m \<Longrightarrow> (\<And>k. observing (n k)) \<Longrightarrow> observing (case i of 0 \<Rightarrow> m | Suc k \<Rightarrow> n k)"
  by (cases i) auto

lemma observing_await_shell [observing_rules]: "observing (await_shell h g d n)"
proof (induction n)
  case 0
  show ?case by (subst await_shell.simps, unfold Let_def nat.case) (intro observing_rules)
next
  case (Suc n)
  show ?case by (subst await_shell.simps, unfold Let_def nat.case) (intro observing_rules Suc)
qed

lemma observing_wait_for_shell [observing_rules]: "observing (wait_for_shell h g d)"
  unfolding wait_for_shell_def by (intro observing_rules)

lemma observing_inspect [observing_rules]: "observing (inspect_foreground h g)"
  unfolding inspect_foreground_def by (intro observing_rules)

lemma observing_verify [observing_rules]: "observing (verify_foreground h g d argv)"
  unfolding verify_foreground_def by (intro observing_rules)

end
