(* ===== verification/ShellWords.thy ===== *)
theory ShellWords
  imports SessionHost
begin

text \<open>
  What a POSIX shell makes of the command lines of \<open>encodeCommand\<close>: \<open>shell_words\<close> splits a line
  into its words by the quoting rules, and has no answer as soon as a character outside quotes,
  or one between double quotes, has a meaning of its own.
\<close>

datatype shell_mode = Between | Within | Single | Double

abbreviation single_quote :: char where "single_quote \<equiv> CHR 0x27"
abbreviation double_quote :: char where "double_quote \<equiv> CHR 0x22"

definition plain_char :: "char \<Rightarrow> bool" where
  "plain_char c \<longleftrightarrow> alnum_ch c \<or> upper_ch c"

fun into_word :: "string \<Rightarrow> string list option \<Rightarrow> string list option" where
  "into_word s (Some (w # ws)) = Some ((s @ w) # ws)"
| "into_word s _ = None"

fun shell_scan :: "shell_mode \<Rightarrow> string \<Rightarrow> string list option" where
  "shell_scan Between [] = Some []"
| "shell_scan Between (c # cs) =
     (if c = CHR '' '' then shell_scan Between cs
      else if c = single_quote then shell_scan Single cs
      else if c = double_quote then shell_scan Double cs
      else if plain_char c then into_word [c] (shell_scan Within cs) else None)"
| "shell_scan Within [] = Some [[]]"
| "shell_scan Within (c # cs) =
     (if c = CHR '' '' then map_option (\<lambda>ws. [] # ws) (shell_scan Between cs)
      else if c = single_quote then shell_scan Single cs
      else if c = double_quote then shell_scan Double cs
      else if plain_char c then into_word [c] (shell_scan Within cs) else None)"
| "shell_scan Single [] = None"
| "shell_scan Single (c # cs) = (if c = single_quote then shell_scan Within cs else into_word [c] (shell_scan Single cs))"
| "shell_scan Double [] = None"
| "shell_scan Double (c # cs) =
     (if c = double_quote then shell_scan Within cs
      else if c \<in> {CHR ''$'', CHR 0x60, CHR 0x5C} then None
      else into_word [c] (shell_scan Double cs))"

definition shell_words :: "string \<Rightarrow> string list option" where
  "shell_words = shell_scan Between"

lemma into_word_append: "into_word s (into_word t x) = into_word (s @ t) x"
  by (cases "(t, x)" rule: into_word.cases) auto

lemma into_word_Some: "into_word s x \<noteq> Some []"
  by (cases "(s, x)" rule: into_word.cases) auto

lemma within_word: "m \<noteq> Between \<Longrightarrow> shell_scan m s \<noteq> Some []"
  by (induction m s rule: shell_scan.induct) (simp_all add: into_word_Some)

lemma into_word_Nil: "x \<noteq> Some [] \<Longrightarrow> into_word [] x = x"
  by (cases "([] :: string, x)" rule: into_word.cases) auto

text \<open>An escaped argument goes through the modes of a quoted single quote and comes back.\<close>

lemma scan_escaped:
  "shell_scan Single (concat (map (\<lambda>c. if c = single_quote then [single_quote, double_quote, single_quote, double_quote, single_quote] else [c]) arg)
      @ single_quote # rest) = into_word arg (shell_scan Within rest)"
  by (induction arg) (auto simp: into_word_append into_word_Nil within_word)

lemma scan_quoted: "shell_scan Between (quote_arg arg @ rest) = into_word arg (shell_scan Within rest)"
  by (simp add: quote_arg_def scan_escaped)

lemma into_word_empty: "into_word s (Some ([] # ws)) = Some (s # ws)"
  by simp

lemma shell_words_join: "shell_words (join [CHR '' ''] (map quote_arg argv)) = Some argv"
  unfolding shell_words_def
proof (induction argv)
  case (Cons a argv)
  show ?case
  proof (cases argv)
    case Nil
    then show ?thesis using scan_quoted [of a "[]"] by simp
  next
    case (Cons b bs)
    then show ?thesis using Cons.IH scan_quoted [of a "CHR '' '' # join [CHR '' ''] (map quote_arg argv)"] by simp
  qed
qed simp

lemma encode_command_Some: "encode_command argv = Some s \<longleftrightarrow>
    s = join [CHR '' ''] (map quote_arg argv) \<and> length s \<le> max_command_length \<and> (\<forall>a \<in> set argv. nul \<notin> set a)"
  by (auto simp: encode_command_def Let_def list_all_iff)

lemma exec_plain: "plain_char CHR ''e''" "plain_char CHR ''x''" "plain_char CHR ''c''"
  by (simp_all add: plain_char_def alnum_ch_def lower_ch_def byte_def)

lemma shell_words_exec: "shell_words (''exec '' @ s) = map_option (\<lambda>ws. ''exec'' # ws) (shell_words s)"
  by (cases "shell_scan Between s") (simp_all add: shell_words_def exec_plain)

text \<open>C8: what is sent to a terminal is read by a POSIX shell as exactly the arguments of the
  launch, whatever they contain; nothing outside the quotes is special, and nothing expands.\<close>

theorem shell_reads_argv:
  assumes "encode_exec argv = Some s"
  shows "shell_words s = Some (''exec'' # argv) \<and> (\<exists>command. encode_command argv = Some command \<and> shell_words command = Some argv)"
proof -
  obtain command where c: "encode_command argv = Some command" "s = ''exec '' @ command"
    using assms by (auto simp: encode_exec_def split: option.splits if_splits)
  then have "shell_words command = Some argv" by (simp add: encode_command_Some shell_words_join)
  then show ?thesis using c by (simp only: shell_words_exec) simp
qed

text \<open>An argument that ends its quote and asks for an expansion.\<close>

theorem shell_reads_argv_witness:
  "\<exists>s. encode_exec [''printf'', CHR 0x27 # ''$(b) c''] = Some s
    \<and> shell_words s = Some [''exec'', ''printf'', CHR 0x27 # ''$(b) c'']"
proof -
  have z: "c \<in> set ''printf$(b) c'' \<union> {CHR 0x27} \<Longrightarrow> nul \<noteq> c" for c by (auto simp: nul_def char_of_def)
  have "encode_exec [''printf'', CHR 0x27 # ''$(b) c''] \<noteq> None"
    by (simp add: encode_exec_def encode_command_def quote_arg_def max_command_length_def z)
  then obtain s where s: "encode_exec [''printf'', CHR 0x27 # ''$(b) c''] = Some s" by blast
  from s shell_reads_argv [OF s] show ?thesis by blast
qed

end
