(* ===== verification/LaunchProps.thy ===== *)
theory LaunchProps
  imports DeskLogic ShellWords
begin

text \<open>
  What a launch does to the session, whatever Herdr answers.
\<close>

subsection \<open>The report of a launch\<close>

text \<open>The one command that creates the target.\<close>

definition creates :: "launch_request \<Rightarrow> effect \<Rightarrow> bool" where
  "creates q e = (case lq_placement q of
     NewTab \<Rightarrow> (case e of Called _ p \<Rightarrow> p = LayoutApply (layout_of_request q) | _ \<Rightarrow> False)
   | NewPane \<Rightarrow> (case e of Ran _ args \<Rightarrow> take 1 args = [''--session''] \<and> drop 2 args = split_arguments q | _ \<Rightarrow> False)
   | OtherPlacement _ \<Rightarrow> False)"

definition new_target :: "launch_request \<Rightarrow> created_target \<Rightarrow> bool" where
  "new_target q c = (case lq_placement q of
     NewTab \<Rightarrow> plausible_created_tab c (lq_origin q)
   | NewPane \<Rightarrow> plausible_created_pane c (lq_origin q)
   | OtherPlacement _ \<Rightarrow> False)"

text \<open>Closing the target's pane, focusing it, or running a command in it that its shell reads as
  the arguments of the launch.\<close>

definition runs_in :: "created_target \<Rightarrow> string list \<Rightarrow> effect \<Rightarrow> bool" where
  "runs_in c argv e = (case e of
     Ran _ args \<Rightarrow> take 1 args = [''--session''] \<and> length args = 6 \<and> take 3 (drop 2 args) = [''pane'', ''run'', og_pane (ct_origin c)]
       \<and> shell_words (args ! 5) = Some (''exec'' # argv)
   | _ \<Rightarrow> False)"

definition closes :: "created_target \<Rightarrow> effect \<Rightarrow> bool" where
  "closes c e = (case e of Ran _ args \<Rightarrow> take 1 args = [''--session''] \<and> drop 2 args = [''pane'', ''close'', og_pane (ct_origin c)] | _ \<Rightarrow> False)"

definition focuses :: "created_target \<Rightarrow> effect \<Rightarrow> bool" where
  "focuses c e = (case e of Called _ p \<Rightarrow> p = PaneFocus (og_pane (ct_origin c)) | _ \<Rightarrow> False)"

definition concerns :: "launch_request \<Rightarrow> created_target \<Rightarrow> effect \<Rightarrow> bool" where
  "concerns q c e \<longleftrightarrow> observes e \<or> closes c e \<or> runs_in c (lq_argv q) e \<or> lq_focus q \<and> focuses c e"

definition runs_launched :: "launch_request \<Rightarrow> created_target \<Rightarrow> effect list \<Rightarrow> bool" where
  "runs_launched q c es \<longleftrightarrow> lq_placement q = NewPane \<longrightarrow> list_ex (runs_in c (lq_argv q)) es"

text \<open>From the creation on.\<close>

definition settled :: "launch_request \<Rightarrow> created_target \<Rightarrow> effect list \<Rightarrow> desk_errors + created_target \<Rightarrow> bool" where
  "settled q c es r \<longleftrightarrow> list_all (concerns q c) es
     \<and> (\<forall>c'. r = Inr c' \<longrightarrow> c' = c \<and> runs_launched q c es \<and> \<not> list_ex (closes c) es)"

definition launched :: "launch_request \<Rightarrow> effect list \<Rightarrow> desk_errors + created_target \<Rightarrow> bool" where
  "launched q es r \<longleftrightarrow>
     (list_all observes es \<and> isl r)
     \<or> (\<exists>pre e post. es = pre @ e # post \<and> list_all observes pre \<and> creates q e \<and>
          (list_all observes post \<and> isl r
           \<or> (\<exists>c. new_target q c \<and> settled q c post r)))"

lemma observes_concerns: "list_all observes es \<Longrightarrow> list_all (concerns q c) es"
  by (auto simp: list_all_iff concerns_def)

lemma observes_closes: "observes e \<Longrightarrow> \<not> closes c e"
  by (auto simp: observes_def closes_def observing_verbs_def split: effect.splits)

lemma observed_none_closed: "list_all observes es \<Longrightarrow> \<not> list_ex (closes c) es"
  by (auto simp: list_all_iff list_ex_iff dest: observes_closes)

subsection \<open>The parts\<close>

lemma concerns_append: "list_all (concerns q c) es \<Longrightarrow> list_all observes fs \<Longrightarrow> list_all (concerns q c) (es @ fs)"
  using observes_concerns by simp

lemma cleanup_after:
  assumes "list_all (concerns q c) es"
  shows "after es (cleanup_target h c) (\<lambda>fs r. list_all (concerns q c) fs)"
  unfolding cleanup_target_def
proof (intro after_attempt, rule after_observing [OF observing_current_pane])
  fix fs :: "effect list" and r :: "desk_errors + wire_pane"
  assume "list_all observes fs"
  then have seen: "list_all (concerns q c) (es @ fs)" by (rule concerns_append [OF assms])
  have "concerns q c (Ran x ([''--session'', s] @ [''pane'', ''close'', og_pane (ct_origin c)]))" for x s
    by (simp add: concerns_def closes_def)
  then have "after (es @ fs) (session_arguments (sx_session h) [''pane'', ''close'', og_pane (ct_origin c)])
      (\<lambda>gs r. case r of Inl e \<Rightarrow> after gs (fail e) (\<lambda>fs r. list_all (concerns q c) fs)
        | Inr args \<Rightarrow> after gs (seq (run_json h (sx_type h) args) (\<lambda>kind. if kind \<noteq> ''ok'' then fail [CallFails] else succeed ()))
            (\<lambda>fs r. list_all (concerns q c) fs))"
    using seen by (intro after_arguments)
      (auto intro!: after_fail after_succeed after_attempt after_run_json split: sum.split)
  then show "case r of Inl e \<Rightarrow> after (es @ fs) (fail e) (\<lambda>fs r. list_all (concerns q c) fs)
    | Inr x \<Rightarrow> after (es @ fs) (seq (session_arguments (sx_session h) [''pane'', ''close'', og_pane (ct_origin c)]) (\<lambda>args.
        seq (run_json h (sx_type h) args) (\<lambda>kind. if kind \<noteq> ''ok'' then fail [CallFails] else succeed ())))
        (\<lambda>fs r. list_all (concerns q c) fs)"
    using seen by (auto intro!: after_fail after_attempt split: sum.split)
qed

lemma fail_cleaned_after: "list_all (concerns q c) es \<Longrightarrow> after es (fail_cleaned h c cause) (settled q c)"
  unfolding fail_cleaned_def
  by (intro after_attempt, drule cleanup_after, erule after_weaken)
    (auto intro!: after_fail simp: settled_def split: sum.split)

lemma runs_in_command:
  assumes "encode_exec argv = Some s"
  shows "runs_in c argv (Ran x ([''--session'', t] @ [''pane'', ''run'', og_pane (ct_origin c), s]))"
proof -
  obtain command where "encode_command argv = Some command" "s = ''exec '' @ command"
    using assms by (auto simp: encode_exec_def split: option.splits if_splits)
  then have "shell_words s = Some (''exec'' # argv)" by (simp only: shell_words_exec encode_command_Some shell_words_join) simp
  then show ?thesis by (simp add: runs_in_def eval_nat_numeral)
qed

lemma runs_closes: "runs_in c argv e \<Longrightarrow> \<not> closes c e"
  by (auto simp: runs_in_def closes_def split: effect.splits)

lemma settled_same: "list_all (concerns q c) es \<Longrightarrow> runs_launched q c es \<Longrightarrow> \<not> list_ex (closes c) es \<Longrightarrow> settled q c es (Inr c)"
  by (simp add: settled_def)

lemma settled_ran:
  assumes "list_all observes es" and "encode_exec (lq_argv q) = Some s"
  shows "settled q c (es @ [Ran x ([''--session'', t] @ [''pane'', ''run'', og_pane (ct_origin c), s])]) (Inr c)"
proof -
  note runs = runs_in_command [OF assms(2), of c x t]
  show ?thesis using runs runs_closes [OF runs] observed_none_closed [OF assms(1)] observes_concerns [OF assms(1)]
    by (intro settled_same) (simp_all add: concerns_def runs_launched_def)
qed

lemma exec_after:
  assumes "list_all observes es"
  shows "after es (exec_in_shell h q c) (settled q c)"
  unfolding exec_in_shell_def
proof (intro after_attempt, rule after_observing [OF observing_await_shell])
  fix fs :: "effect list" and r :: "desk_errors + unit"
  assume "list_all observes fs"
  then have seen: "list_all observes (es @ fs)" using assms by simp
  have "after (es @ fs) (attempt (session_arguments (sx_session h) [''pane'', ''run'', og_pane (ct_origin c), s]) (fail_cleaned h c) (\<lambda>args.
      attempt (run_empty h args) (fail_cleaned h c) (\<lambda>_. succeed c))) (settled q c)"
    if s: "encode_exec (lq_argv q) = Some s" for s
  proof (intro after_attempt after_arguments)
    fix t
    let ?a = "[''--session'', t] @ [''pane'', ''run'', og_pane (ct_origin c), s]"
    have "after (es @ fs) (run_empty h ?a) (\<lambda>gs r. case r of Inl e \<Rightarrow> after gs (fail_cleaned h c e) (settled q c)
        | Inr y \<Rightarrow> after gs (succeed c) (settled q c))"
      using fail_cleaned_after observes_concerns [OF seen] settled_ran [OF seen s]
      by (intro after_run_empty) (auto intro!: after_succeed fail_cleaned_after simp: settled_def split: sum.split)
    then show "case Inr ?a of Inl e \<Rightarrow> after (es @ fs) (fail_cleaned h c e) (settled q c)
        | Inr a \<Rightarrow> after (es @ fs) (attempt (run_empty h a) (fail_cleaned h c) (\<lambda>_. succeed c)) (settled q c)"
      by (simp only: sum.case) (erule after_attempt)
  qed (simp only: sum.case, rule fail_cleaned_after, rule observes_concerns, rule seen)
  then show "case r of Inl e \<Rightarrow> after (es @ fs) (fail_cleaned h c e) (settled q c)
    | Inr x \<Rightarrow> after (es @ fs) (case encode_exec (lq_argv q) of None \<Rightarrow> fail_cleaned h c [CallFails]
      | Some command \<Rightarrow> attempt (session_arguments (sx_session h) [''pane'', ''run'', og_pane (ct_origin c), command]) (fail_cleaned h c) (\<lambda>args.
          attempt (run_empty h args) (fail_cleaned h c) (\<lambda>_. succeed c))) (settled q c)"
    by (auto simp: fail_cleaned_after [OF observes_concerns [OF seen]] split: sum.split option.split)
qed

lemma after_shift: "after post m (\<lambda>fs. Q (pre @ e # fs)) \<Longrightarrow> after (pre @ e # post) m Q"
  by (simp add: after_def)

lemma launched_settled:
  "list_all observes pre \<Longrightarrow> creates q e \<Longrightarrow> new_target q c \<Longrightarrow> settled q c post r \<Longrightarrow> launched q (pre @ e # post) r"
  unfolding launched_def by blast

lemma launched_nothing: "list_all observes es \<Longrightarrow> launched q es (Inl e)"
  by (simp add: launched_def)

lemma launched_unanswered: "list_all observes pre \<Longrightarrow> creates q e \<Longrightarrow> launched q (pre @ [e]) (Inl x)"
  unfolding launched_def by (rule disjI2) (rule exI [of _ pre], rule exI [of _ e], simp)

lemma settled_after:
  assumes "list_all observes pre" and "creates q e" and "new_target q c" and "after post m (settled q c)"
  shows "after (pre @ e # post) m (launched q)"
  by (rule after_shift, rule after_weaken [OF assms(4)]) (rule launched_settled [OF assms(1-3)])

text \<open>The target a reply names.\<close>

lemma tab_settled:
  assumes "list_all observes pre" and "lq_placement q = NewTab" and "og_session (lq_origin q) = sx_session h"
    and c: "c = \<lparr>ct_origin = \<lparr>og_session = sx_session h, og_workspace = ly_workspace y, og_tab = ly_tab y, og_pane = ly_root_pane y\<rparr>,
      ct_tab = True, ct_direct = True\<rparr>"
  shows "after (pre @ [Called socket (LayoutApply (layout_of_request q))])
      (if \<not> layout_matches q y then if plausible_created_tab c (lq_origin q) then fail_cleaned h c [StaleTarget] else fail [StaleTarget] else succeed c)
      (launched q)"
proof -
  have made: "creates q (Called socket (LayoutApply (layout_of_request q)))" using assms(2) by (simp add: creates_def)
  have "layout_matches q y \<Longrightarrow> plausible_created_tab c (lq_origin q)"
    using assms(3) by (auto simp: c layout_matches_def plausible_created_tab_def)
  moreover have "after [] (fail_cleaned h c [StaleTarget]) (settled q c)" by (rule fail_cleaned_after) simp
  moreover have "after [] (succeed c) (settled q c)"
    using assms(2) by (intro after_succeed settled_same) (simp_all add: runs_launched_def)
  moreover have "after (pre @ [Called socket (LayoutApply (layout_of_request q))]) (fail [StaleTarget]) (launched q)"
    by (intro after_fail launched_unanswered assms(1) made)
  ultimately show ?thesis using settled_after [OF assms(1) made, of c "[]"] assms(2) by (auto simp: new_target_def)
qed

lemma launch_tab_after:
  assumes es: "list_all observes es" and q: "lq_placement q = NewTab" "og_session (lq_origin q) = sx_session h"
  shows "after es (launch_tab h q) (launched q)"
  unfolding launch_tab_def
proof (intro after_attempt, rule after_observing [OF observing_session_socket], goal_cases)
  case (1 fs r)
  then have seen: "list_all observes (es @ fs)" using es by simp
  show ?case
  proof (cases r)
    case (Inl e)
    then show ?thesis using launched_nothing [OF seen] by (simp add: after_fail)
  next
    case (Inr socket)
    have "creates q (Called socket (LayoutApply (layout_of_request q)))" using q by (simp add: creates_def)
    note unanswered = launched_unanswered [OF seen this]
    show ?thesis unfolding Inr sum.case
    proof (intro after_attempt after_ask, goal_cases)
      case (1 x)
      show ?case
      proof (cases x)
        case (Inr y)
        show ?thesis unfolding Inr sum.case Let_def using tab_settled [OF seen q refl] .
      qed (simp only: sum.case, rule after_fail, use unanswered in simp)
    qed
  qed
qed

lemma pane_settled:
  assumes "list_all observes pre" and "lq_placement q = NewPane" and "og_session (lq_origin q) = sx_session h"
    and c: "c = \<lparr>ct_origin = \<lparr>og_session = sx_session h, og_workspace = wn_workspace y, og_tab = wn_tab y, og_pane = wn_pane y\<rparr>,
      ct_tab = False, ct_direct = False\<rparr>"
  shows "after (pre @ [Ran x ([''--session'', t] @ split_arguments q)])
      (if \<not> pane_matches q kind y then if plausible_created_pane c (lq_origin q) then fail_cleaned h c [StaleTarget] else fail [StaleTarget]
       else exec_in_shell h q c)
      (launched q)"
proof -
  have made: "creates q (Ran x ([''--session'', t] @ split_arguments q))" using assms(2) by (simp add: creates_def)
  have "pane_matches q kind y \<Longrightarrow> plausible_created_pane c (lq_origin q)"
    using assms(3) by (auto simp: c pane_matches_def same_pane_location_def plausible_created_pane_def)
  moreover have "after [] (fail_cleaned h c [StaleTarget]) (settled q c)" by (rule fail_cleaned_after) simp
  moreover have "after [] (exec_in_shell h q c) (settled q c)" by (rule exec_after) simp
  moreover have "after (pre @ [Ran x ([''--session'', t] @ split_arguments q)]) (fail [StaleTarget]) (launched q)"
    by (intro after_fail launched_unanswered assms(1) made)
  ultimately show ?thesis using settled_after [OF assms(1) made, of c "[]"] assms(2) by (auto simp: new_target_def)
qed

lemma launch_pane_after:
  assumes es: "list_all observes es" and q: "lq_placement q = NewPane" "og_session (lq_origin q) = sx_session h"
  shows "after es (launch_pane h q) (launched q)"
  unfolding launch_pane_def
proof (intro after_attempt after_arguments, goal_cases)
  case (1 e)
  show ?case using launched_nothing [OF es] by (simp add: after_fail)
next
  case (2 t)
  have "creates q (Ran x ([''--session'', t] @ split_arguments q))" for x using q by (simp add: creates_def)
  note unanswered = launched_unanswered [OF es this]
  show ?case unfolding sum.case
  proof (intro after_attempt after_run_json, goal_cases)
    case (1 e)
    show ?case using launched_nothing [OF es] by (simp add: after_fail)
  next
    case (2 x r)
    then show ?case using unanswered pane_settled [OF es q refl, of x t]
      by (auto simp: after_fail Let_def split: sum.split option.split)
  qed
qed

text \<open>A target that was created is focused, or closed again.\<close>

lemma focus_after:
  assumes "list_all (concerns q c) es" and "lq_focus q" and "\<not> list_ex (closes c) es" and "runs_launched q c es"
  shows "after es (focus_pane h (ct_origin c)) (\<lambda>fs r. list_all (concerns q c) fs \<and> \<not> list_ex (closes c) fs \<and> runs_launched q c fs)"
    (is "after es _ ?Q")
proof -
  have more: "?Q (fs @ gs) r" if "?Q fs r'" and "list_all observes gs" for fs gs r r'
    using that observes_concerns [OF that(2)] observed_none_closed [OF that(2)] by (auto simp: runs_launched_def)
  have asked: "?Q (fs @ [Called socket (PaneFocus (og_pane (ct_origin c)))]) r" if "?Q fs r'" for fs socket r r'
    using that assms(2) by (auto simp: concerns_def focuses_def closes_def runs_launched_def)
  have start: "?Q es r" for r using assms by simp
  show ?thesis unfolding focus_pane_def
  proof (intro after_attempt, rule after_observing [OF observing_current_pane], goal_cases)
    case (1 fs r)
    note q1 = more [OF start 1]
    show ?case
    proof (cases r)
      case (Inr p)
      show ?thesis unfolding Inr sum.case
      proof (intro after_attempt, rule after_observing [OF observing_session_socket], goal_cases)
        case (1 gs r)
        note q2 = more [OF q1 1]
        show ?case
        proof (cases r)
          case (Inr socket)
          note q3 = asked [OF q2, of socket]
          have again: "after ((es @ fs) @ gs @ [Called socket (PaneFocus (og_pane (ct_origin c)))])
              (attempt (current_pane h (ct_origin c)) (\<lambda>_. fail [StaleTarget])
                (\<lambda>after. if \<not> wn_focused after then fail [StaleTarget] else succeed ())) ?Q"
            using more [OF q3] by (intro after_attempt, intro after_observing [OF observing_current_pane])
              (auto simp: after_fail after_succeed split: sum.split)
          show ?thesis unfolding Inr sum.case
            using q3 again by (intro after_attempt after_ask) (auto simp: after_fail split: sum.split option.split)
        qed (use q2 in \<open>simp add: after_fail\<close>)
      qed
    qed (use q1 in \<open>simp add: after_fail\<close>)
  qed
qed

section \<open>The promises\<close>

text \<open>
  What the operations on panes and processes promise.
\<close>

subsection \<open>Launches\<close>

lemma launch_focus_after:
  assumes "list_all (concerns q c) es" and "\<not> list_ex (closes c) es" and "runs_launched q c es"
  shows "after es (if lq_focus q then attempt (focus_pane h (ct_origin c)) (fail_cleaned h c) (\<lambda>_. succeed c) else succeed c) (settled q c)"
proof (cases "lq_focus q")
  case True
  have "after es (attempt (focus_pane h (ct_origin c)) (fail_cleaned h c) (\<lambda>_. succeed c)) (settled q c)"
    by (intro after_attempt, rule after_weaken [OF focus_after [OF assms(1) True assms(2,3)]])
      (auto intro!: fail_cleaned_after after_succeed settled_same split: sum.split)
  then show ?thesis using True by simp
qed (use assms in \<open>simp add: after_succeed settled_same\<close>)

lemma launch_origin_after:
  assumes "settled q c es (Inr c)"
  shows "after es (attempt (current_pane h g) (fail_cleaned h c) (\<lambda>_.
      if lq_focus q then attempt (focus_pane h (ct_origin c)) (fail_cleaned h c) (\<lambda>_. succeed c) else succeed c)) (settled q c)"
proof (intro after_attempt, rule after_observing [OF observing_current_pane], goal_cases)
  case (1 fs r)
  have "list_all (concerns q c) (es @ fs)" and "\<not> list_ex (closes c) (es @ fs)" and "runs_launched q c (es @ fs)"
    using assms 1 observes_concerns [OF 1] observed_none_closed [OF 1] by (auto simp: settled_def runs_launched_def)
  then show ?case using fail_cleaned_after launch_focus_after by (cases r) (simp_all only: sum.case)
qed

lemma launched_Inr:
  "launched q es (Inr c) \<Longrightarrow> \<exists>pre e post. es = pre @ e # post \<and> list_all observes pre \<and> creates q e \<and> new_target q c \<and> settled q c post (Inr c)"
  unfolding launched_def by (auto simp: settled_def)

lemma launch_rest_after:
  assumes "launched q es (Inr c)"
  shows "after es (attempt (current_pane h g) (fail_cleaned h c) (\<lambda>_.
      if lq_focus q then attempt (focus_pane h (ct_origin c)) (fail_cleaned h c) (\<lambda>_. succeed c) else succeed c)) (launched q)"
proof -
  obtain pre e post where es: "es = pre @ e # post" "list_all observes pre" "creates q e" "new_target q c" and s: "settled q c post (Inr c)"
    using launched_Inr [OF assms] by blast
  show ?thesis unfolding es(1) by (rule settled_after [OF es(2-4) launch_origin_after [OF s]])
qed

lemma launch_after: "after [] (launch h q) (launched q)"
proof (cases "valid_launch (sx_session h) q")
  case True
  then have g: "og_session (lq_origin q) = sx_session h" and p: "lq_placement q = NewTab \<or> lq_placement q = NewPane"
    by (auto simp: valid_launch_def valid_origin_def split: placement.splits)
  have place: "after es (case lq_placement q of NewTab \<Rightarrow> launch_tab h q | NewPane \<Rightarrow> launch_pane h q | OtherPlacement _ \<Rightarrow> fail [CallFails]) (launched q)"
    if "list_all observes es" for es
    using p launch_tab_after [OF that _ g] launch_pane_after [OF that _ g] by (auto split: placement.split)
  have place: "after es (seq (case lq_placement q of NewTab \<Rightarrow> launch_tab h q | NewPane \<Rightarrow> launch_pane h q | OtherPlacement _ \<Rightarrow> fail [CallFails]) (\<lambda>c.
      attempt (current_pane h (lq_origin q)) (fail_cleaned h c) (\<lambda>_.
        if lq_focus q then attempt (focus_pane h (ct_origin c)) (fail_cleaned h c) (\<lambda>_. succeed c) else succeed c))) (launched q)"
    if "list_all observes es" for es
  proof (rule after_attempt, rule after_weaken [OF place [OF that]], goal_cases)
    case (1 fs r)
    then show ?case using launch_rest_after by (cases r) (simp_all only: sum.case after_fail)
  qed
  show ?thesis unfolding launch_def if_not_P [OF not_not [THEN iffD2, OF True]]
  proof (rule after_attempt, rule after_observing [OF observing_current_pane], goal_cases)
    case (1 fs r)
    then show ?case using place [of fs] launched_nothing [of fs q] by (cases r) (simp_all add: after_fail)
  qed
next
  case False
  then show ?thesis by (simp add: launch_def after_fail launched_nothing)
qed

text \<open>C5: whatever Herdr answers, a launch only reads the session until the one request that
  creates its target; from then on it closes, focuses or runs its own command in nothing but a
  pane that is new to the origin, and a launch that succeeds has run its arguments in it,
  as its shell reads them, and has not closed it.\<close>

theorem launch_confined:
  "\<exists>es. dk_log (snd (launch h q w)) = dk_log w @ es \<and> launched q es (fst (launch h q w))"
proof -
  have "yields (launch h q) (launched q)" by (rule yields_after [OF launch_after])
  from yieldsD [OF this, of w "fst (launch h q w)" "snd (launch h q w)"] show ?thesis by simp
qed

subsection \<open>Stopping\<close>

lemma foreground_leader_Inr:
  "foreground_leader i = Inr p \<longleftrightarrow>
     filter (\<lambda>x. fp_pid x = pi_group i) (pi_processes i) = [p] \<and> fp_name p \<noteq> [] \<and> fp_argv p \<noteq> []
     \<and> path_base (hd (fp_argv p)) = fp_name p \<and> valid_directory (fp_cwd p)"
  by (auto simp: foreground_leader_def split: list.splits if_splits)

text \<open>The process that a successful inspection returns leads the pane's foreground group alone.\<close>

definition leads :: "foreground_process \<Rightarrow> process_info \<Rightarrow> bool" where
  "leads p i \<longleftrightarrow> pi_group i > 0 \<and> filter (\<lambda>x. fp_pid x = pi_group i) (pi_processes i) = [p]"

lemma attempt_InrE:
  assumes "attempt m fail K w = (Inr x, w')"
  obtains y v where "m w = (Inr y, v)" and "K y v = (Inr x, w')"
  using assms by (auto simp: attempt_def fail_def split: prod.splits sum.splits)

definition reported :: "('w, 'x) session_host_scheme \<Rightarrow> origin \<Rightarrow> process_info \<Rightarrow> bool" where
  "reported h g i \<longleftrightarrow> pi_pane i = og_pane g \<and> (\<exists>v v' reply kind. pane_processes h g v = (Inr (reply, kind, Some i), v'))"

lemma inspect_leads:
  assumes "inspect_foreground h g w = (Inr p, w')"
  shows "\<exists>i. reported h g i \<and> leads p i"
proof -
  obtain i v v' reply kind where i: "pane_processes h g v = (Inr (reply, kind, Some i), v')" "pi_pane i = og_pane g" "0 < pi_group i"
    "foreground_leader i = Inr p"
    using assms unfolding inspect_foreground_def
    by (auto elim!: attempt_InrE simp: fail_def succeed_def not_le split: if_splits option.splits sum.splits prod.splits)
  have "reported h g i" unfolding reported_def using i(1,2) by blast
  moreover have "leads p i" using i(3,4) by (simp add: leads_def foreground_leader_Inr)
  ultimately show ?thesis by blast
qed

lemma verify_leads:
  assumes "verify_foreground h g d argv w = (Inr p, w')"
  shows "\<exists>i. reported h g i \<and> leads p i \<and> fp_argv p = argv \<and> fp_cwd p = d"
proof -
  obtain v where "inspect_foreground h g w = (Inr p, v)" "fp_argv p = argv" "fp_cwd p = d"
    using assms unfolding verify_foreground_def
    by (auto elim!: attempt_InrE simp: fail_def succeed_def split: if_splits)
  then show ?thesis using inspect_leads by blast
qed

text \<open>C38: stopping a pane's program sends at most one signal, to the process group of the given
  process, and only when Herdr has just reported this process as the only leader of the pane's
  foreground group, with exactly the given arguments and directory; everything else it does
  only reads.\<close>

theorem stop_signals_only_the_leader:
  "\<exists>es. dk_log (snd (stop_foreground h g d argv pid w)) = dk_log w @ es
    \<and> (list_all observes es
       \<or> (\<exists>pre post p i. es = pre @ Signalled (- pid) # post \<and> list_all observes pre \<and> list_all observes post
            \<and> reported h g i \<and> leads p i \<and> fp_pid p = pid \<and> fp_argv p = argv \<and> fp_cwd p = d))"
    (is "\<exists>es. ?log (snd (?run w)) w es \<and> ?ok es")
proof -
  obtain x v where x: "verify_foreground h g d argv w = (x, v)" by fastforce
  obtain pre where pre: "dk_log v = dk_log w @ pre" "list_all observes pre" using observing_log [OF observing_verify x] by blast
  show ?thesis
  proof (cases "pid > 0 \<and> (\<exists>p. x = Inr p \<and> fp_pid p = pid)")
    case False
    then have "dk_log (snd (?run w)) = dk_log w \<or> dk_log (snd (?run w)) = dk_log v"
      using x by (auto simp: stop_foreground_def fail_def attempt_def split: sum.split)
    moreover have "list_all observes []" by simp
    ultimately show ?thesis using pre by (metis append_Nil2)
  next
    case True
    then obtain p where p: "x = Inr p" "fp_pid p = pid" by blast
    let ?signal = "ask (Signalled (- pid)) (\<lambda>v. let (r, v') = sx_signal h (- pid) v in
               ((if r = Signal_Fails then Inl [CallFails] else Inr ()), v'))"
    have run: "?run w = seq ?signal (\<lambda>_. wait_for_shell h g d) v"
      using True p x by (simp add: stop_foreground_def attempt_def)
    have "after [] (seq ?signal (\<lambda>_. wait_for_shell h g d)) (\<lambda>es r. \<exists>post. es = Signalled (- pid) # post \<and> list_all observes post)"
      by (intro after_attempt after_ask) (auto intro!: after_fail after_observing [OF observing_wait_for_shell] split: sum.split)
    from yieldsD [OF yields_after [OF this], of v] obtain post where
      "dk_log (snd (?run w)) = dk_log v @ Signalled (- pid) # post" "list_all observes post"
      unfolding run by (metis prod.collapse)
    then have "dk_log (snd (?run w)) = dk_log w @ pre @ Signalled (- pid) # post" using pre by simp
    moreover obtain i where "reported h g i" "leads p i" "fp_argv p = argv" "fp_cwd p = d" using verify_leads x p(1) by blast
    ultimately show ?thesis using pre \<open>list_all observes post\<close> p(2) by blast
  qed
qed

end
