(* ===== verification/AgentHost.thy ===== *)
theory AgentHost
  imports SessionPanes DeskLogic "HOL-Library.Word"
begin

text \<open>
  The agents of a session (runtime/agenthost/agenthost.go): listing and focusing them, and the
  assessment of an agent from two equal observations.

  An agent host is a session host with the decoders of the agent commands and the agents' own
  status services.  Members of an agent that the code decodes and never reads are left out.
  \<open>ax_over\<close> says whether the context is over in a state of the outside; every probe is one of
  \<open>NewProbe\<close> or \<open>NewProbeWithNative\<close>, so its wait is there.
\<close>

subsection \<open>Data\<close>

record session_ref =
  sf_source :: string
  sf_agent :: string
  sf_kind :: string
  sf_value :: string

record agent =
  ag_session_name :: string
  ag_kind :: string
  ag_name :: string
  ag_display :: string
  ag_title :: string
  ag_status :: string
  ag_cwd :: string
  ag_foreground_cwd :: string
  ag_workspace :: string
  ag_tab :: string
  ag_pane :: string
  ag_focused :: bool
  ag_launch_pending :: bool
  ag_revision :: "64 word"
  ag_seq :: "64 word"
  ag_session :: "session_ref option"

record wire_agent =
  wa_agent :: string
  wa_session :: "session_ref option"
  wa_status :: string
  wa_cwd :: string
  wa_display :: string
  wa_focused :: bool
  wa_foreground_cwd :: string
  wa_launch_pending :: bool
  wa_name :: string
  wa_pane :: string
  wa_revision :: "64 word"
  wa_seq :: "64 word"
  wa_tab :: string
  wa_terminal :: string
  wa_terminal_title :: string
  wa_terminal_stripped :: string
  wa_title :: string
  wa_workspace :: string

datatype status = NoStatus | Working | Blocked | Done | Idle | Unknown

datatype reason =
    HostReport | Unsettled | NoReason
  | CodexStatus | Approval | UserInput | ApprovalAndInput | NotManaged | AgentSystemError | UnsupportedStatus
  | MissingCodexSocket | MissingCodexSession | CodexUnavailable
  | OMPStatus | OpenCodeStatus | OpenCodeQuestion | OpenCodePermission | OpenCodeQuestionAndPermission
  | NativeNotManaged | NativeUnavailable | NativeUnsupported

record assessment =
  as_status :: status
  as_reason :: reason
  as_stable :: bool

record open_code_server =
  oc_url :: string
  oc_directory :: string

text \<open>What the agents' own services answer, decoded; a decoding or transport error is \<^const>\<open>None\<close>.\<close>

record thread_status =
  th_id :: string
  th_type :: string
  th_flags :: "string option list option"

record omp_payload =
  op_version :: int
  op_harness :: string
  op_kind :: string
  op_value :: string
  op_status :: string
  op_seq :: "64 word"

record identity_entry =
  ie_agent :: string
  ie_session :: "session_ref option"
  ie_workspace :: string
  ie_tab :: string
  ie_pane :: string

datatype open_code_path = Session_Of string | Questions | Permissions | Statuses

record open_code_session =
  os_id :: string
  os_directory :: string
  os_parent :: string

text \<open>The shared Codex service, as it is found or started, and a thread of it.\<close>

record codex_service =
  cv_ready :: bool
  cv_executable :: string
  cv_home :: string
  cv_socket :: string
  cv_cli_version :: string
  cv_server_version :: string
  cv_pid :: int
  cv_invocation :: string

text \<open>How far a request of Herdr's socket got.\<close>

datatype request_state = NotWritten | WriteStarted | Written | Acknowledged

record 'w agent_host = "'w session_host" +
  ax_tables :: unicode
  ax_over :: "'w \<Rightarrow> bool"
  ax_agents :: "string \<Rightarrow> (string \<times> wire_agent list) option"
  ax_agent :: "string \<Rightarrow> (string \<times> wire_agent) option"
  ax_identities :: "string \<Rightarrow> (string \<times> identity_entry option list) option"
  ax_codex_socket :: string
  ax_omp_socket :: "string \<Rightarrow> string option"
  ax_open_code :: "string \<Rightarrow> open_code_server option"
  ax_codex :: "string \<Rightarrow> string \<Rightarrow> 'w \<Rightarrow> thread_status option \<times> 'w"
  ax_omp :: "string \<Rightarrow> 'w \<Rightarrow> omp_payload option \<times> 'w"
  ax_get :: "open_code_server \<Rightarrow> open_code_path \<Rightarrow> 'w \<Rightarrow> (int \<times> string) option \<times> 'w"
  ax_session_body :: "string \<Rightarrow> open_code_session option"
  ax_pending_body :: "string \<Rightarrow> string list option option"
  ax_statuses_body :: "string \<Rightarrow> (string \<times> string option) list option option"
  ax_plain_url :: "string \<Rightarrow> bool"
  ax_service :: "'w \<Rightarrow> codex_service option \<times> 'w"
  ax_thread :: "string \<Rightarrow> string \<Rightarrow> 'w \<Rightarrow> (string \<times> string) option \<times> 'w"
  ax_prompt :: "string \<Rightarrow> string \<Rightarrow> string \<Rightarrow> 'w \<Rightarrow> (request_state \<times> (string \<times> wire_agent) option) \<times> 'w"

subsection \<open>Validation\<close>

definition max_identity_bytes :: nat where "max_identity_bytes = 256"
definition max_path_bytes :: nat where "max_path_bytes = 4096"
definition max_detection_bytes :: nat where "max_detection_bytes = 65536"

definition valid_bounded :: "string \<Rightarrow> nat \<Rightarrow> bool \<Rightarrow> bool" where
  "valid_bounded v m optional \<longleftrightarrow>
     (v \<noteq> [] \<or> optional) \<and> length v \<le> m \<and> nul \<notin> set v \<and> CHR 0x0D \<notin> set v \<and> CHR 0x0A \<notin> set v"

definition valid_session :: "session_ref \<Rightarrow> bool" where
  "valid_session s \<longleftrightarrow> list_all (\<lambda>v. valid_bounded v max_identity_bytes False) [sf_source s, sf_agent s, sf_kind s, sf_value s]"

definition valid_host_status :: "string \<Rightarrow> bool" where
  "valid_host_status s \<longleftrightarrow> s \<in> set [''working'', ''blocked'', ''done'', ''idle'', ''unknown'']"

definition valid_target :: "agent \<Rightarrow> bool" where
  "valid_target a \<longleftrightarrow>
     valid_bounded (ag_pane a) max_identity_bytes False
     \<and> ag_kind a \<noteq> [] \<and> ag_workspace a \<noteq> [] \<and> ag_tab a \<noteq> [] \<and> valid_host_status (ag_status a)
     \<and> (ag_session_name a \<noteq> [] \<longrightarrow> validate_session_name (ag_session_name a) = None)
     \<and> (case ag_session a of None \<Rightarrow> True | Some s \<Rightarrow> valid_session s)"

definition valid_wire_agent :: "wire_agent \<Rightarrow> bool" where
  "valid_wire_agent a \<longleftrightarrow>
     list_all (\<lambda>(v, m, optional). valid_bounded v m optional)
       [(wa_agent a, max_identity_bytes, False), (wa_name a, max_identity_bytes, True), (wa_display a, max_identity_bytes, True),
        (wa_title a, max_identity_bytes, True), (wa_cwd a, max_path_bytes, True), (wa_foreground_cwd a, max_path_bytes, True),
        (wa_workspace a, max_identity_bytes, False), (wa_tab a, max_identity_bytes, False), (wa_pane a, max_identity_bytes, False),
        (wa_terminal a, max_identity_bytes, True), (wa_terminal_title a, max_identity_bytes, True), (wa_terminal_stripped a, max_identity_bytes, True)]
     \<and> valid_host_status (wa_status a)
     \<and> (case wa_session a of None \<Rightarrow> True | Some s \<Rightarrow> valid_session s)"

definition public :: "wire_agent \<Rightarrow> agent option" where
  "public a =
     (if valid_wire_agent a
      then Some \<lparr>ag_session_name = [], ag_kind = wa_agent a, ag_name = wa_name a, ag_display = wa_display a, ag_title = wa_title a,
             ag_status = wa_status a, ag_cwd = wa_cwd a, ag_foreground_cwd = wa_foreground_cwd a, ag_workspace = wa_workspace a, ag_tab = wa_tab a,
             ag_pane = wa_pane a, ag_focused = wa_focused a, ag_launch_pending = wa_launch_pending a, ag_revision = wa_revision a,
             ag_seq = wa_seq a, ag_session = wa_session a\<rparr>
      else None)"

definition same_immutable :: "agent \<Rightarrow> agent \<Rightarrow> bool" where
  "same_immutable a b \<longleftrightarrow>
     ag_session_name a = ag_session_name b \<and> ag_kind a = ag_kind b \<and> ag_workspace a = ag_workspace b \<and> ag_tab a = ag_tab b
     \<and> ag_pane a = ag_pane b \<and> ag_session a = ag_session b"

definition host_status :: "string \<Rightarrow> status" where
  "host_status s = (if s = ''working'' then Working else if s = ''blocked'' then Blocked else if s = ''done'' then Done else Unknown)"

subsection \<open>Agents\<close>

definition agent_json :: "('w, 'x) agent_host_scheme \<Rightarrow> (string \<Rightarrow> 'a option) \<Rightarrow> string list \<Rightarrow> ('w, 'a) io" where
  "agent_json h decode args = seq (session_arguments (sx_session h) args) (run_json h decode)"

definition list_agents :: "('w, 'x) agent_host_scheme \<Rightarrow> ('w, agent list) io" where
  "list_agents h =
     seq (agent_json h (ax_agents h) [''agent'', ''list'']) (\<lambda>(kind, ws).
       if kind \<noteq> ''agent_list'' then fail [CallFails]
       else case those (map public ws) of
              None \<Rightarrow> fail [CallFails]
            | Some as \<Rightarrow>
                if \<not> distinct (map ag_pane as) then fail [CallFails]
                else succeed (map (\<lambda>a. a\<lparr>ag_session_name := sx_session h\<rparr>) as))"

definition focus_agent :: "('w, 'x) agent_host_scheme \<Rightarrow> agent \<Rightarrow> ('w, agent) io" where
  "focus_agent h target =
     (if \<not> valid_target target \<or> ag_session_name target \<noteq> sx_session h then fail [CallFails]
      else seq (agent_json h (ax_agent h) [''agent'', ''focus'', ag_pane target]) (\<lambda>(kind, w).
        if kind \<noteq> ''agent_info'' then fail [CallFails]
        else case public w of
               None \<Rightarrow> fail [CallFails]
             | Some a \<Rightarrow>
                 let a = a\<lparr>ag_session_name := sx_session h\<rparr> in
                 if \<not> ag_focused a \<or> \<not> same_immutable target a then fail [CallFails] else succeed a))"

definition find_agent :: "('w, 'x) agent_host_scheme \<Rightarrow> string \<Rightarrow> ('w, agent) io" where
  "find_agent h pane =
     seq (list_agents h) (\<lambda>as. case find (\<lambda>a. ag_pane a = pane) as of None \<Rightarrow> fail [StaleReport] | Some a \<Rightarrow> succeed a)"

definition read_detection :: "('w, 'x) agent_host_scheme \<Rightarrow> string \<Rightarrow> ('w, unit) io" where
  "read_detection h pane =
     seq (session_arguments (sx_session h) [''pane'', ''read'', pane, ''--source'', ''detection'', ''--lines'', ''60'', ''--format'', ''text'']) (\<lambda>args.
     seq (herdr_run h args) (\<lambda>r.
       if length (ro_stdout r) > max_detection_bytes \<or> \<not> valid_utf8 (ro_stdout r) then fail [CallFails] else succeed ()))"

subsection \<open>Observations\<close>

record observation =
  ob_agent :: agent
  ob_status :: status
  ob_reason :: reason

definition same_version :: "agent \<Rightarrow> agent \<Rightarrow> bool" where
  "same_version a b \<longleftrightarrow> ag_status a = ag_status b \<and> ag_revision a = ag_revision b \<and> ag_seq a = ag_seq b"

definition observe_agent :: "('w, 'x) agent_host_scheme \<Rightarrow> agent \<Rightarrow> bool \<Rightarrow> ('w, observation) io" where
  "observe_agent h target require_version =
     seq (find_agent h (ag_pane target)) (\<lambda>prior.
       if \<not> same_immutable target prior \<or> require_version \<and> \<not> same_version target prior then fail [StaleReport]
       else seq (read_detection h (ag_pane target)) (\<lambda>_.
         seq (find_agent h (ag_pane target)) (\<lambda>later.
           if \<not> same_immutable prior later \<or> \<not> same_version prior later then fail [StaleReport]
           else succeed \<lparr>ob_agent = later, ob_status = host_status (ag_status later), ob_reason = HostReport\<rparr>)))"

text \<open>An assessment is returned beside its error.\<close>

type_synonym 'w assessing = "'w desk \<Rightarrow> (assessment \<times> desk_errors) \<times> 'w desk"

definition answer :: "assessment \<Rightarrow> desk_errors \<Rightarrow> 'w assessing" where
  "answer a e w = ((a, e), w)"

definition no_assessment :: assessment where
  "no_assessment = \<lparr>as_status = NoStatus, as_reason = NoReason, as_stable = False\<rparr>"

definition unknown :: "reason \<Rightarrow> assessment" where
  "unknown r = \<lparr>as_status = Unknown, as_reason = r, as_stable = False\<rparr>"

definition steady_observations :: "observation \<Rightarrow> observation \<Rightarrow> bool" where
  "steady_observations a b \<longleftrightarrow>
     ag_status (ob_agent a) = ag_status (ob_agent b) \<and> ag_seq (ob_agent a) = ag_seq (ob_agent b)
     \<and> ob_status a = ob_status b \<and> ob_reason a = ob_reason b"

definition assess_reported :: "('w, 'x) agent_host_scheme \<Rightarrow> agent \<Rightarrow> 'w assessing" where
  "assess_reported h target =
     (if \<not> valid_target target \<or> ag_session_name target \<noteq> sx_session h then answer no_assessment [CallFails]
      else attempt (observe_agent h target True) (answer no_assessment) (\<lambda>first.
        attempt (sleep h) (answer no_assessment) (\<lambda>_.
        attempt (observe_agent h (ob_agent first) False) (answer no_assessment) (\<lambda>second.
          if \<not> steady_observations first second then answer (unknown Unsettled) [StaleReport]
          else answer \<lparr>as_status = ob_status second, as_reason = ob_reason second, as_stable = True\<rparr> []))))"

end
