(* ===== verification/AgentNative.thy ===== *)
theory AgentNative
  imports AgentHost
begin

text \<open>
  The assessment of Codex, OMP and OpenCode agents, whose own services report their status
  (runtime/agenthost: codex.go, native.go, omp.go, opencode.go).  The transports are parameters;
  what the decoded answers mean, and that they are read between two equal identities, is here.
\<close>

text \<open>\<open>ctx.Err()\<close>.\<close>

definition if_over :: "('w, 'x) agent_host_scheme \<Rightarrow> ('w desk \<Rightarrow> 'r \<times> 'w desk) \<Rightarrow> ('w desk \<Rightarrow> 'r \<times> 'w desk) \<Rightarrow> 'w desk \<Rightarrow> 'r \<times> 'w desk" where
  "if_over h m n w = (if ax_over h (dk_outside w) then m w else n w)"

text \<open>A read of an agent's own service; it is not a command of Herdr.\<close>

definition read_service :: "('w \<Rightarrow> 'a option \<times> 'w) \<Rightarrow> ('w, 'a) io" where
  "read_service f w = (let (r, v) = f (dk_outside w) in ((case r of None \<Rightarrow> Inl [CallFails] | Some x \<Rightarrow> Inr x), w\<lparr>dk_outside := v\<rparr>))"

subsection \<open>Codex\<close>

definition settled_as :: "status \<Rightarrow> reason \<Rightarrow> assessment" where
  "settled_as s r = \<lparr>as_status = s, as_reason = r, as_stable = True\<rparr>"

text \<open>The flags of an active thread, in order; \<^const>\<open>None\<close> is a protocol error.\<close>

fun codex_flags :: "string option list \<Rightarrow> bool \<Rightarrow> bool \<Rightarrow> assessment option" where
  "codex_flags [] approval input = Some
     (if approval \<and> input then settled_as Blocked ApprovalAndInput
      else if approval then settled_as Blocked Approval
      else if input then settled_as Blocked UserInput
      else settled_as Working CodexStatus)"
| "codex_flags (None # fs) approval input = None"
| "codex_flags (Some f # fs) approval input =
     (if f = ''waitingOnApproval'' then codex_flags fs True input
      else if f = ''waitingOnUserInput'' then codex_flags fs approval True
      else Some (unknown UnsupportedStatus))"

definition codex_verdict :: "string \<Rightarrow> thread_status \<Rightarrow> assessment option" where
  "codex_verdict thread t =
     (if th_id t \<noteq> thread \<or> th_type t = [] then None
      else if th_type t = ''idle'' then Some (settled_as Idle CodexStatus)
      else if th_type t = ''notLoaded'' then Some (unknown NotManaged)
      else if th_type t = ''systemError'' then Some (unknown AgentSystemError)
      else if th_type t = ''active'' then (case th_flags t of None \<Rightarrow> None | Some fs \<Rightarrow> codex_flags fs False False)
      else Some (unknown UnsupportedStatus))"

definition read_codex :: "('w, 'x) agent_host_scheme \<Rightarrow> string \<Rightarrow> string \<Rightarrow> ('w, assessment) io" where
  "read_codex h socket thread =
     seq (read_service (ax_codex h socket thread)) (\<lambda>t. case codex_verdict thread t of None \<Rightarrow> fail [CallFails] | Some a \<Rightarrow> succeed a)"

definition codex_failed :: "'w assessing" where
  "codex_failed = answer (unknown CodexUnavailable) [CallFails]"

text \<open>A stale listing leaves the status unsettled, any other error makes Codex unavailable.\<close>

definition codex_error :: "desk_errors \<Rightarrow> 'w assessing" where
  "codex_error e = (if StaleReport \<in> set e then answer (unknown Unsettled) [StaleReport] else codex_failed)"

definition codex_session_fields :: "session_ref \<Rightarrow> bool" where
  "codex_session_fields s \<longleftrightarrow>
     list_all (\<lambda>v. valid_bounded v max_identity_bytes False) [sf_source s, sf_agent s, sf_kind s] \<and> valid_bounded (sf_value s) max_identity_bytes True"

definition codex_thread :: "agent \<Rightarrow> string option" where
  "codex_thread a =
     (case ag_session a of
        None \<Rightarrow> None
      | Some s \<Rightarrow> if sf_agent s \<noteq> ''codex'' \<or> sf_kind s \<noteq> ''id'' \<or> sf_value s = [] then None else Some (sf_value s))"

definition assess_codex :: "('w, 'x) agent_host_scheme \<Rightarrow> agent \<Rightarrow> 'w assessing" where
  "assess_codex h target =
     (if \<not> valid_target (target\<lparr>ag_session := None\<rparr>) \<or> ag_session_name target \<noteq> sx_session h then codex_failed
      else if_over h codex_failed
        (if (case ag_session target of None \<Rightarrow> False | Some s \<Rightarrow> \<not> codex_session_fields s) then codex_failed
         else if ax_codex_socket h = [] then answer (unknown MissingCodexSocket) []
         else if \<not> is_abs (ax_codex_socket h) \<or> nul \<in> set (ax_codex_socket h) then codex_failed
         else case codex_thread target of
                None \<Rightarrow> answer (unknown MissingCodexSession) []
              | Some thread \<Rightarrow>
                  attempt (find_agent h (ag_pane target)) codex_error (\<lambda>prior.
                    if \<not> same_immutable target prior then answer (unknown Unsettled) [StaleReport]
                    else attempt (read_codex h (ax_codex_socket h) thread) (\<lambda>_. codex_failed) (\<lambda>a.
                      attempt (find_agent h (ag_pane target)) codex_error (\<lambda>later.
                        if \<not> same_immutable prior later then answer (unknown Unsettled) [StaleReport]
                        else if_over h codex_failed (answer a []))))))"

subsection \<open>Identities\<close>

record native_identity =
  ni_kind :: string
  ni_workspace :: string
  ni_tab :: string
  ni_pane :: string
  ni_session_name :: string
  ni_session :: session_ref

definition no_session :: session_ref where
  "no_session = \<lparr>sf_source = [], sf_agent = [], sf_kind = [], sf_value = []\<rparr>"

definition native_identity_of :: "agent \<Rightarrow> native_identity" where
  "native_identity_of a =
     \<lparr>ni_kind = ag_kind a, ni_workspace = ag_workspace a, ni_tab = ag_tab a, ni_pane = ag_pane a, ni_session_name = ag_session_name a,
       ni_session = (case ag_session a of None \<Rightarrow> no_session | Some s \<Rightarrow> s)\<rparr>"

definition same_native_identity :: "unicode \<Rightarrow> native_identity \<Rightarrow> native_identity \<Rightarrow> bool" where
  "same_native_identity U a b \<longleftrightarrow>
     equal_fold U (ni_kind a) (ni_kind b) \<and> ni_workspace a = ni_workspace b \<and> ni_tab a = ni_tab b \<and> ni_pane a = ni_pane b
     \<and> ni_session_name a = ni_session_name b \<and> ni_session a = ni_session b"

text \<open>The whole list is checked, also after the pane was found.\<close>

fun scan_identities :: "string \<Rightarrow> string \<Rightarrow> identity_entry option list \<Rightarrow> string list \<Rightarrow> native_identity option \<Rightarrow> desk_errors + native_identity" where
  "scan_identities session pane [] seen found = (case found of None \<Rightarrow> Inl [StaleReport] | Some i \<Rightarrow> Inr i)"
| "scan_identities session pane (None # es) seen found = Inl [CallFails]"
| "scan_identities session pane (Some e # es) seen found =
     (if \<not> list_all (\<lambda>v. valid_bounded v max_identity_bytes False) [ie_agent e, ie_workspace e, ie_tab e, ie_pane e] \<or> ie_pane e \<in> set seen
      then Inl [CallFails]
      else if ie_pane e \<noteq> pane then scan_identities session pane es (ie_pane e # seen) found
      else case ie_session e of
             None \<Rightarrow> Inl [StaleReport]
           | Some s \<Rightarrow>
               if \<not> valid_session s then Inl [StaleReport]
               else scan_identities session pane es (ie_pane e # seen)
                 (Some \<lparr>ni_kind = ie_agent e, ni_workspace = ie_workspace e, ni_tab = ie_tab e, ni_pane = ie_pane e, ni_session_name = session, ni_session = s\<rparr>))"

definition find_native_identity :: "('w, 'x) agent_host_scheme \<Rightarrow> string \<Rightarrow> ('w, native_identity) io" where
  "find_native_identity h pane =
     seq (session_arguments (sx_session h) [''agent'', ''list'']) (\<lambda>args.
     seq (run_json h (ax_identities h) args) (\<lambda>(kind, es).
       if kind \<noteq> ''agent_list'' then fail [CallFails]
       else case scan_identities (sx_session h) pane es [] None of Inl e \<Rightarrow> fail e | Inr i \<Rightarrow> succeed i))"

text \<open>Whether the target is one the kit manages, or an error.\<close>

definition validate_native_target :: "('w, 'x) agent_host_scheme \<Rightarrow> agent \<Rightarrow> string \<Rightarrow> string \<Rightarrow> string \<Rightarrow> bool option" where
  "validate_native_target h target kind source session_kind =
     (if \<not> list_all (\<lambda>v. valid_bounded v max_identity_bytes False) [ag_kind target, ag_workspace target, ag_tab target, ag_pane target]
          \<or> \<not> equal_fold (ax_tables h) (ag_kind target) kind then None
      else if sx_session h = [] \<or> ag_session_name target = [] then Some False
      else if validate_session_name (sx_session h) \<noteq> None \<or> validate_session_name (ag_session_name target) \<noteq> None then None
      else case ag_session target of
             None \<Rightarrow> Some False
           | Some s \<Rightarrow>
               if ag_session_name target \<noteq> sx_session h then Some False
               else if \<not> valid_session s then None
               else Some (sf_source s = source \<and> sf_agent s = kind \<and> sf_kind s = session_kind))"

definition native_error :: "desk_errors \<Rightarrow> 'w assessing" where
  "native_error e = (if StaleReport \<in> set e then answer (unknown Unsettled) [StaleReport] else answer (unknown NativeUnavailable) [CallFails])"

text \<open>What was observed between two equal identities.\<close>

record native_observation =
  no_identity :: native_identity
  no_status :: status
  no_reason :: reason
  no_value :: string
  no_seq :: "64 word"

definition between_identities ::
  "('w, 'x) agent_host_scheme \<Rightarrow> agent \<Rightarrow> ('w, 'a) io \<Rightarrow> (native_identity \<Rightarrow> 'a \<Rightarrow> native_observation) \<Rightarrow> ('w, native_observation) io" where
  "between_identities h target get build =
     seq (find_native_identity h (ag_pane target)) (\<lambda>prior.
       if \<not> same_native_identity (ax_tables h) (native_identity_of target) prior then fail [StaleReport]
       else seq get (\<lambda>x.
         seq (find_native_identity h (ag_pane target)) (\<lambda>later.
           if_over h (fail [CallFails])
             (if \<not> same_native_identity (ax_tables h) prior later then fail [StaleReport] else succeed (build later x)))))"

definition settled_native :: "unicode \<Rightarrow> native_observation \<Rightarrow> native_observation \<Rightarrow> 'w assessing" where
  "settled_native U a b =
     (if \<not> same_native_identity U (no_identity a) (no_identity b) \<or> no_status a \<noteq> no_status b \<or> no_reason a \<noteq> no_reason b
          \<or> no_value a \<noteq> no_value b \<or> no_seq a \<noteq> no_seq b
      then answer (unknown Unsettled) [StaleReport]
      else if no_status b = Unknown then answer (unknown (no_reason b)) []
      else answer (settled_as (no_status b) (no_reason b)) [])"

subsection \<open>OMP\<close>

definition valid_omp_payload :: "omp_payload \<Rightarrow> bool" where
  "valid_omp_payload p \<longleftrightarrow>
     op_version p = 1 \<and> op_harness p = ''omp'' \<and> op_kind p = ''path'' \<and> is_abs (op_value p) \<and> op_value p \<noteq> [] \<and> nul \<notin> set (op_value p)
     \<and> op_status p \<noteq> [] \<and> op_seq p \<noteq> 0"

definition read_omp_status :: "('w, 'x) agent_host_scheme \<Rightarrow> string \<Rightarrow> ('w, omp_payload) io" where
  "read_omp_status h socket =
     seq (read_service (ax_omp h socket)) (\<lambda>p. if valid_omp_payload p then succeed p else fail [CallFails])"

definition omp_status :: "string \<Rightarrow> status \<times> reason" where
  "omp_status s =
     (if s = ''working'' then (Working, OMPStatus) else if s = ''blocked'' then (Blocked, OMPStatus)
      else if s = ''idle'' then (Idle, OMPStatus) else (Unknown, NativeUnsupported))"

definition target_value :: "agent \<Rightarrow> string" where
  "target_value a = (case ag_session a of None \<Rightarrow> [] | Some s \<Rightarrow> sf_value s)"

definition observe_omp :: "('w, 'x) agent_host_scheme \<Rightarrow> agent \<Rightarrow> string \<Rightarrow> ('w, native_observation) io" where
  "observe_omp h target socket =
     between_identities h target
       (seq (read_omp_status h socket) (\<lambda>p. if op_value p \<noteq> target_value target then fail [StaleReport] else succeed p))
       (\<lambda>i p. \<lparr>no_identity = i, no_status = fst (omp_status (op_status p)), no_reason = snd (omp_status (op_status p)),
          no_value = op_value p, no_seq = op_seq p\<rparr>)"

definition assess_omp :: "('w, 'x) agent_host_scheme \<Rightarrow> agent \<Rightarrow> 'w assessing" where
  "assess_omp h target =
     (case validate_native_target h target ''omp'' ''herdr:omp'' ''path'' of
        None \<Rightarrow> native_error [CallFails]
      | Some managed \<Rightarrow>
          if_over h (native_error [CallFails])
            (case ax_omp_socket h (ag_pane target) of
               None \<Rightarrow> answer (unknown NativeNotManaged) []
             | Some socket \<Rightarrow>
                 if \<not> managed \<or> ag_session target = None \<or> \<not> is_abs (target_value target) then answer (unknown NativeNotManaged) []
                 else attempt (observe_omp h target socket) native_error (\<lambda>first.
                   attempt (sleep h) native_error (\<lambda>_.
                   attempt (observe_omp h target socket) native_error (\<lambda>second.
                     if_over h (native_error [CallFails]) (settled_native (ax_tables h) first second))))))"

subsection \<open>OpenCode\<close>

definition open_code_ok :: "int \<Rightarrow> bool" where
  "open_code_ok code \<longleftrightarrow> 200 \<le> code \<and> code < 300"

definition check_open_code_session :: "('w, 'x) agent_host_scheme \<Rightarrow> open_code_server \<Rightarrow> string \<Rightarrow> bool \<Rightarrow> ('w, unit) io" where
  "check_open_code_session h server session may_be_missing =
     seq (read_service (ax_get h server (Session_Of session))) (\<lambda>(code, body).
       if code = 404 then fail [if may_be_missing then SessionMissing else StaleReport]
       else if \<not> open_code_ok code then fail [CallFails]
       else case ax_session_body h body of
              None \<Rightarrow> fail [CallFails]
            | Some s \<Rightarrow>
                if os_id s = [] \<or> os_directory s = [] then fail [CallFails]
                else if os_id s \<noteq> session \<or> os_directory s \<noteq> oc_directory server \<or> os_parent s \<noteq> [] then fail [StaleReport]
                else succeed ())"

definition open_code_pending :: "('w, 'x) agent_host_scheme \<Rightarrow> open_code_server \<Rightarrow> open_code_path \<Rightarrow> string \<Rightarrow> ('w, bool) io" where
  "open_code_pending h server path session =
     seq (read_service (ax_get h server path)) (\<lambda>(code, body).
       if \<not> open_code_ok code then fail [CallFails]
       else case ax_pending_body h body of
              Some (Some ids) \<Rightarrow> if [] \<in> set ids then fail [CallFails] else succeed (session \<in> set ids)
            | _ \<Rightarrow> fail [CallFails])"

text \<open>The type of the session's entry, if there is one.\<close>

definition open_code_selected :: "('w, 'x) agent_host_scheme \<Rightarrow> open_code_server \<Rightarrow> string \<Rightarrow> ('w, string option) io" where
  "open_code_selected h server session =
     seq (read_service (ax_get h server Statuses)) (\<lambda>(code, body).
       if \<not> open_code_ok code then fail [CallFails]
       else case ax_statuses_body h body of
              Some (Some entries) \<Rightarrow>
                (case map_of entries session of
                   None \<Rightarrow> succeed None
                 | Some None \<Rightarrow> fail [CallFails]
                 | Some (Some kind) \<Rightarrow> if kind = [] then fail [CallFails] else succeed (Some kind))
            | _ \<Rightarrow> fail [CallFails])"

definition open_code_verdict :: "bool \<Rightarrow> bool \<Rightarrow> string option \<Rightarrow> assessment" where
  "open_code_verdict question permission selected =
     (if question \<and> permission then settled_as Blocked OpenCodeQuestionAndPermission
      else if question then settled_as Blocked OpenCodeQuestion
      else if permission then settled_as Blocked OpenCodePermission
      else case selected of
             None \<Rightarrow> settled_as Idle OpenCodeStatus
           | Some kind \<Rightarrow>
               if kind = ''idle'' then settled_as Idle OpenCodeStatus
               else if kind = ''busy'' \<or> kind = ''retry'' then settled_as Working OpenCodeStatus
               else unknown NativeUnsupported)"

definition read_open_code_status :: "('w, 'x) agent_host_scheme \<Rightarrow> open_code_server \<Rightarrow> string \<Rightarrow> bool \<Rightarrow> ('w, assessment) io" where
  "read_open_code_status h server session previously_observed =
     seq (check_open_code_session h server session (\<not> previously_observed)) (\<lambda>_.
     seq (open_code_pending h server Questions session) (\<lambda>question.
     seq (open_code_pending h server Permissions session) (\<lambda>permission.
     seq (open_code_selected h server session) (\<lambda>selected.
     seq (check_open_code_session h server session False) (\<lambda>_.
       succeed (open_code_verdict question permission selected))))))"

definition observe_open_code :: "('w, 'x) agent_host_scheme \<Rightarrow> agent \<Rightarrow> open_code_server \<Rightarrow> bool \<Rightarrow> ('w, native_observation) io" where
  "observe_open_code h target server previously_observed =
     between_identities h target (read_open_code_status h server (target_value target) previously_observed)
       (\<lambda>i a. \<lparr>no_identity = i, no_status = as_status a, no_reason = as_reason a, no_value = [], no_seq = 0\<rparr>)"

definition assess_open_code :: "('w, 'x) agent_host_scheme \<Rightarrow> agent \<Rightarrow> 'w assessing" where
  "assess_open_code h target =
     (case validate_native_target h target ''opencode'' ''herdr:opencode'' ''id'' of
        None \<Rightarrow> native_error [CallFails]
      | Some managed \<Rightarrow>
          if_over h (native_error [CallFails])
            (case ax_open_code h (ag_pane target) of
               None \<Rightarrow> answer (unknown NativeNotManaged) []
             | Some server \<Rightarrow>
                 if \<not> managed \<or> ag_session target = None \<or> target_value target = [] then answer (unknown NativeNotManaged) []
                 else attempt (observe_open_code h target server False)
                     (\<lambda>e. if SessionMissing \<in> set e then answer (unknown NativeNotManaged) [] else native_error e) (\<lambda>first.
                   attempt (sleep h) native_error (\<lambda>_.
                   attempt (observe_open_code h target server True) native_error (\<lambda>second.
                     if_over h (native_error [CallFails]) (settled_native (ax_tables h) first second))))))"

text \<open>\<open>Probe.Assess\<close>.\<close>

definition assess :: "('w, 'x) agent_host_scheme \<Rightarrow> agent \<Rightarrow> 'w assessing" where
  "assess h target =
     (if equal_fold (ax_tables h) (ag_kind target) ''codex'' then assess_codex h target
      else if equal_fold (ax_tables h) (ag_kind target) ''omp'' then assess_omp h target
      else if equal_fold (ax_tables h) (ag_kind target) ''opencode'' then assess_open_code h target
      else assess_reported h target)"

end
