(* ===== verification/Composer.thy ===== *)
theory Composer
  imports GoPaths
begin

text \<open>
  Reading an agent's composer off its pane (runtime/agenthost: prompt.go and
  managed_codex_identity.go): whether the input line of Codex, OMP or OpenCode is empty.  Text
  is UTF-8 bytes; the drawing characters are written as their bytes.
\<close>

abbreviation escape :: char where "escape \<equiv> CHR 0x1B"
abbreviation line_feed :: char where "line_feed \<equiv> CHR 0x0A"

definition corner_mark :: string where "corner_mark = [CHR 0xE2, CHR 0x95, CHR 0xB0, CHR 0xE2, CHR 0x94, CHR 0x80]"
definition heavy_mark :: string where "heavy_mark = [CHR 0xE2, CHR 0x95, CHR 0xB9, CHR 0xE2, CHR 0x96, CHR 0x80]"
definition border_mark :: string where "border_mark = [CHR 0xE2, CHR 0x94, CHR 0x83]"
definition dot_mark :: string where "dot_mark = [CHR 0xC2, CHR 0xB7]"
definition prompt_mark :: string where "prompt_mark = [CHR 0xE2, CHR 0x80, CHR 0xBA]"

subsection \<open>Text\<close>

text \<open>\<open>strings.ReplaceAll(text, "\r\n", "\n")\<close>.\<close>

fun unix_lines :: "string \<Rightarrow> string" where
  "unix_lines [] = []"
| "unix_lines (c # cs) =
     (if c = CHR 0x0D then (case cs of [] \<Rightarrow> [c] | d # ds \<Rightarrow> if d = line_feed then unix_lines cs else c # unix_lines cs)
      else c # unix_lines cs)"

definition lines_of_text :: "string \<Rightarrow> string list" where
  "lines_of_text s = split_on line_feed (unix_lines s)"

fun contains_text :: "string \<Rightarrow> string \<Rightarrow> bool" where
  "contains_text p [] \<longleftrightarrow> p = []"
| "contains_text p (c # cs) \<longleftrightarrow> has_prefix p (c # cs) \<or> contains_text p cs"

text \<open>\<open>\x1b\[[0-9;]*m\<close> at the start: its parameters, and what follows.\<close>

definition ansi_param :: "char \<Rightarrow> bool" where
  "ansi_param c \<longleftrightarrow> c \<in> set ''0123456789;''"

fun ansi_code :: "string \<Rightarrow> (string \<times> string) option" where
  "ansi_code (c # d # cs) =
     (if c = escape \<and> d = CHR ''['' then
        (case dropWhile ansi_param cs of
           [] \<Rightarrow> None
         | e # rest \<Rightarrow> if e = CHR ''m'' then Some (takeWhile ansi_param cs, rest) else None)
      else None)"
| "ansi_code _ = None"

lemma ansi_code_shorter: "ansi_code s = Some (p, rest) \<Longrightarrow> length rest < length s"
proof (induction s rule: ansi_code.induct)
  case (1 c d cs)
  then have "dropWhile ansi_param cs = CHR ''m'' # rest" by (auto split: if_splits list.splits)
  then show ?case using length_dropWhile_le [of ansi_param cs] by simp
qed simp_all

function strip_ansi :: "string \<Rightarrow> string" where
  "strip_ansi s =
     (case ansi_code s of
        Some (p, rest) \<Rightarrow> strip_ansi rest
      | None \<Rightarrow> (case s of [] \<Rightarrow> [] | c # cs \<Rightarrow> c # strip_ansi cs))"
  by pat_completeness auto
termination by (relation "measure length") (auto dest: ansi_code_shorter)

declare strip_ansi.simps [simp del]

text \<open>The matches of \<open>\x1b\[([0-9;]*)m([^\x1b]*)\<close>.\<close>

function ansi_spans :: "string \<Rightarrow> (string \<times> string) list" where
  "ansi_spans s =
     (case ansi_code s of
        Some (p, rest) \<Rightarrow> (p, takeWhile (\<lambda>c. c \<noteq> escape) rest) # ansi_spans (dropWhile (\<lambda>c. c \<noteq> escape) rest)
      | None \<Rightarrow> (case s of [] \<Rightarrow> [] | c # cs \<Rightarrow> ansi_spans cs))"
  by pat_completeness auto
termination
  by (relation "measure length")
    (auto dest!: ansi_code_shorter intro: le_less_trans [OF length_dropWhile_le])

declare ansi_spans.simps [simp del]

definition plain_line :: "unicode \<Rightarrow> string \<Rightarrow> string" where
  "plain_line U l = trim_space U (strip_ansi l)"

text \<open>\<open>strings.Split\<close> by a text.\<close>

fun split_text :: "string \<Rightarrow> nat \<Rightarrow> string \<Rightarrow> string list" where
  "split_text sep n [] = [[]]"
| "split_text sep (Suc n) (c # cs) = split_text sep n cs"
| "split_text sep 0 (c # cs) =
     (if has_prefix sep (c # cs) then [] # split_text sep (length sep - 1) cs
      else case split_text sep 0 cs of [] \<Rightarrow> [] | w # ws \<Rightarrow> (c # w) # ws)"

text \<open>The words of \<open>strings.Fields\<close>, as groups of runes.\<close>

fun fields_of :: "unicode \<Rightarrow> int list \<Rightarrow> int list \<Rightarrow> int list list" where
  "fields_of U [] w = (if w = [] then [] else [rev w])"
| "fields_of U (r # rs) w =
     (if is_space U r then (if w = [] then fields_of U rs [] else rev w # fields_of U rs []) else fields_of U rs (r # w))"

subsection \<open>Codex\<close>

definition unstyled_codex_footer :: "unicode \<Rightarrow> string \<Rightarrow> bool" where
  "unstyled_codex_footer U l =
     (if escape \<in> set l \<or> \<not> has_prefix ''  '' l then False
      else
        let parts = split_text ('' '' @ dot_mark @ '' '') 0 (trim_space U l) in
        case parts of
          model # place # rest \<Rightarrow>
            length (fields_of U (runes model) []) = 2
            \<and> (place = ''~'' \<or> has_prefix ''/'' place \<or> has_prefix ''~/'' place)
            \<and> list_all (\<lambda>x. trim_space U x \<noteq> []) parts
        | _ \<Rightarrow> False)"

text \<open>Below the input line there are blank lines, dim ones, and at most one plain footer.\<close>

fun codex_trailing :: "unicode \<Rightarrow> string list \<Rightarrow> bool \<Rightarrow> bool" where
  "codex_trailing U [] seen = True"
| "codex_trailing U (l # ls) seen =
     (if plain_line U l = [] then codex_trailing U ls seen
      else if contains_text (escape # ''[2m'') l then codex_trailing U ls seen
      else if seen \<or> \<not> unstyled_codex_footer U l then False
      else codex_trailing U ls True)"

definition codex_placeholder :: string where
  "codex_placeholder = ''Ask Codex to do anything''"

text \<open>From the last line up; the lines below come along.\<close>

fun codex_composer_above :: "unicode \<Rightarrow> string list \<Rightarrow> string list \<Rightarrow> bool" where
  "codex_composer_above U [] below = False"
| "codex_composer_above U (l # upper) below =
     (if plain_line U l \<noteq> prompt_mark @ '' '' @ codex_placeholder then codex_composer_above U upper (l # below)
      else contains_text (escape # ''[2m'' @ codex_placeholder) l \<and> codex_trailing U below False)"

definition empty_codex_composer :: "unicode \<Rightarrow> string \<Rightarrow> bool" where
  "empty_codex_composer U t = codex_composer_above U (rev (lines_of_text t)) []"

subsection \<open>OMP\<close>

definition empty_omp_composer :: "unicode \<Rightarrow> string \<Rightarrow> bool" where
  "empty_omp_composer U t =
     (case find (\<lambda>l. trim_space U l \<noteq> []) (rev (lines_of_text (strip_ansi t))) of
        None \<Rightarrow> False
      | Some l \<Rightarrow> trim_space U l = corner_mark)"

subsection \<open>OpenCode\<close>

fun ansi_background_of :: "string list \<Rightarrow> string option" where
  "ansi_background_of [] = None"
| "ansi_background_of (p # ps) =
     (if p = ''49'' then Some ''default''
      else if p = ''48'' \<and> 2 \<le> length ps \<and> hd ps = ''5'' then Some (join '';'' (p # take 2 ps))
      else if p = ''48'' \<and> 4 \<le> length ps \<and> hd ps = ''2'' then Some (join '';'' (p # take 4 ps))
      else ansi_background_of ps)"

definition ansi_background :: "string \<Rightarrow> string option" where
  "ansi_background params = ansi_background_of (split_on (CHR '';'') params)"

fun background_after_border :: "unicode \<Rightarrow> (string \<times> string) list \<Rightarrow> bool \<Rightarrow> string option" where
  "background_after_border U [] after_border = None"
| "background_after_border U ((p, t) # ss) after_border =
     (if \<not> after_border then background_after_border U ss (contains_text border_mark t)
      else if trim_space U t = [] then background_after_border U ss True
      else ansi_background p)"

definition open_code_background :: "unicode \<Rightarrow> string \<Rightarrow> string option" where
  "open_code_background U l = background_after_border U (ansi_spans l) False"

definition background_text :: "string \<Rightarrow> string \<Rightarrow> string option" where
  "background_text l expected =
     (let ss = filter (\<lambda>(p, t). ansi_background p = Some expected) (ansi_spans l)
      in if ss = [] then None else Some (concat (map snd ss)))"

definition max_continuations :: nat where "max_continuations = 2"

text \<open>The status row above the lower border, with the composer's background.\<close>

fun open_code_status_start :: "unicode \<Rightarrow> string list \<Rightarrow> nat \<Rightarrow> string \<Rightarrow> (string list \<times> string) option" where
  "open_code_status_start U [] n background = None"
| "open_code_status_start U (l # upper) n background =
     (let plain = plain_line U l in
      if \<not> has_prefix border_mark plain \<or> n > max_continuations then None
      else case open_code_background U l of
             None \<Rightarrow> None
           | Some row \<Rightarrow>
               let background' = (if background = [] then row else background) in
               if row \<noteq> background' then None
               else if has_prefix (border_mark @ ''  '') plain \<and> contains_text dot_mark plain then Some (upper, background')
               else open_code_status_start U upper (Suc n) background')"

text \<open>How many input rows are blank, unless one is not.\<close>

fun open_code_blank_rows :: "unicode \<Rightarrow> string list \<Rightarrow> string \<Rightarrow> nat option" where
  "open_code_blank_rows U [] background = Some 0"
| "open_code_blank_rows U (l # upper) background =
     (if \<not> has_prefix border_mark (plain_line U l) then Some 0
      else case background_text l background of
             None \<Rightarrow> None
           | Some content \<Rightarrow>
               if trim_space U content \<noteq> [] then None else map_option Suc (open_code_blank_rows U upper background))"

fun open_code_composer_above :: "unicode \<Rightarrow> string list \<Rightarrow> bool" where
  "open_code_composer_above U [] = False"
| "open_code_composer_above U (l # upper) =
     (if \<not> has_prefix heavy_mark (plain_line U l) then open_code_composer_above U upper
      else case open_code_status_start U upper 0 [] of
             None \<Rightarrow> False
           | Some (upper', background) \<Rightarrow>
               (case open_code_blank_rows U upper' background of None \<Rightarrow> False | Some n \<Rightarrow> n \<ge> 2))"

definition empty_open_code_composer :: "unicode \<Rightarrow> string \<Rightarrow> bool" where
  "empty_open_code_composer U t = open_code_composer_above U (rev (lines_of_text t))"

end
