(* ===== verification/AgentPrompts.thy ===== *)
theory AgentPrompts
  imports AgentNative Composer
begin

text \<open>
  Guards over an agent's composer, and the delivery of one prompt to a background agent
  (runtime/agenthost: switch_guard.go and prompt.go).

  The polls of a delivery are 50ms apart and end with its 30s deadline, so at most 600 of them
  follow the first one: the fuel of \<open>await_prompt_ready\<close>.  Whether a URL is a plain loopback
  origin (\<open>net/url\<close>, \<open>net\<close>) is the parameter \<open>ax_plain_url\<close>.
\<close>

subsection \<open>Panes and identities\<close>

definition managed_status_lines :: nat where "managed_status_lines = 220"
definition managed_pane_bytes :: nat where "managed_pane_bytes = 65536"

definition read_pane :: "('w, 'x) agent_host_scheme \<Rightarrow> string \<Rightarrow> string \<Rightarrow> nat \<Rightarrow> string \<Rightarrow> ('w, string) io" where
  "read_pane h pane source n format =
     seq (session_arguments (sx_session h) [''pane'', ''read'', pane, ''--source'', source, ''--lines'', show_nat n, ''--format'', format]) (\<lambda>args.
     seq (herdr_run h args) (\<lambda>r.
       if length (ro_stdout r) > managed_pane_bytes \<or> \<not> valid_utf8 (ro_stdout r) then fail [ManagedStale] else succeed (ro_stdout r)))"

definition lower_hex :: "char \<Rightarrow> bool" where
  "lower_hex c \<longleftrightarrow> digit_ch c \<or> c \<in> set ''abcdef''"

text \<open>\<open>[0-9a-f]{8}-[0-9a-f]{4}-[0-9a-f]{4}-[0-9a-f]{4}-[0-9a-f]{m,n}\<close>.\<close>

definition uuid_parts :: "nat \<Rightarrow> nat \<Rightarrow> string \<Rightarrow> bool" where
  "uuid_parts m n s =
     (let ps = split_on (CHR ''-'') s in
      map length (take 4 ps) = [8, 4, 4, 4] \<and> length ps = 5 \<and> m \<le> length (last ps) \<and> length (last ps) \<le> n \<and> list_all (list_all lower_hex) ps)"

definition valid_thread_id :: "string \<Rightarrow> bool" where "valid_thread_id s \<longleftrightarrow> uuid_parts 12 12 s"
definition valid_thread_prefix :: "string \<Rightarrow> bool" where "valid_thread_prefix s \<longleftrightarrow> uuid_parts 4 11 s"
definition valid_status_prefix :: "string \<Rightarrow> bool" where "valid_status_prefix s \<longleftrightarrow> uuid_parts 2 12 s \<and> \<not> valid_thread_id s"

definition valid_managed_session :: "session_ref option \<Rightarrow> bool" where
  "valid_managed_session x =
     (case x of None \<Rightarrow> False
      | Some s \<Rightarrow> sf_source s = ''herdr:codex'' \<and> sf_agent s = ''codex'' \<and> sf_kind s = ''id'' \<and> valid_thread_id (sf_value s))"

definition supported_codex_version :: string where "supported_codex_version = ''0.154.0''"

definition clean_agent_path :: "string \<Rightarrow> bool" where
  "clean_agent_path p \<longleftrightarrow> p \<noteq> [] \<and> length p \<le> max_path_bytes \<and> nul \<notin> set p \<and> is_abs p \<and> path_clean p = p"

definition valid_codex_service :: "codex_service \<Rightarrow> bool" where
  "valid_codex_service v \<longleftrightarrow>
     cv_ready v \<and> clean_agent_path (cv_executable v) \<and> clean_agent_path (cv_socket v)
     \<and> cv_cli_version v = supported_codex_version \<and> cv_server_version v = supported_codex_version"

definition valid_open_code_server :: "('w, 'x) agent_host_scheme \<Rightarrow> open_code_server \<Rightarrow> bool" where
  "valid_open_code_server h s \<longleftrightarrow> ax_plain_url h (oc_url s) \<and> is_abs (oc_directory s) \<and> nul \<notin> set (oc_directory s)"

definition origin_of :: "agent \<Rightarrow> origin" where
  "origin_of a = \<lparr>og_session = ag_session_name a, og_workspace = ag_workspace a, og_tab = ag_tab a, og_pane = ag_pane a\<rparr>"

subsection \<open>Guards\<close>

definition verify_native_composer :: "('w, 'x) agent_host_scheme \<Rightarrow> agent \<Rightarrow> ('w, unit) io" where
  "verify_native_composer h target =
     (let kind = to_lower (ax_tables h) (ag_kind target) in
      if kind = ''omp'' then
        (if ax_omp_socket h (ag_pane target) = None then fail [StaleReport]
         else seq (read_pane h (ag_pane target) ''visible'' managed_status_lines ''text'') (\<lambda>t.
           if empty_omp_composer (ax_tables h) t then succeed () else fail [UnsafeChange]))
      else if kind = ''opencode'' then
        (if ax_open_code h (ag_pane target) = None then fail [StaleReport]
         else seq (read_pane h (ag_pane target) ''visible'' managed_status_lines ''ansi'') (\<lambda>t.
           if empty_open_code_composer (ax_tables h) t then succeed () else fail [UnsafeChange]))
      else fail [StaleReport])"

text \<open>An assessment that must be stable and of one of some statuses.\<close>

definition require_assessed :: "('w, 'x) agent_host_scheme \<Rightarrow> agent \<Rightarrow> status list \<Rightarrow> ('w, unit) io" where
  "require_assessed h a allowed w =
     (let ((x, e), w') = assess h a w in
      (if e \<noteq> [] \<or> \<not> as_stable x \<or> as_status x \<notin> set allowed then Inl (UnsafeChange # e) else Inr (), w'))"

definition verify_native_change :: "('w, 'x) agent_host_scheme \<Rightarrow> agent \<Rightarrow> bool \<Rightarrow> ('w, agent) io" where
  "verify_native_change h target focused =
     attempt (find_agent h (ag_pane target)) (\<lambda>e. fail ([UnsafeChange, StaleReport] @ e)) (\<lambda>prior.
       if \<not> same_immutable target prior \<or> ag_cwd target \<noteq> ag_cwd prior then fail [UnsafeChange, StaleReport]
       else if ag_focused prior \<noteq> focused \<or> ag_status prior \<noteq> ''idle'' \<and> ag_status prior \<noteq> ''done'' then fail [UnsafeChange]
       else seq (require_assessed h prior [Idle, Done]) (\<lambda>_.
         attempt (verify_native_composer h prior) (\<lambda>e. fail (UnsafeChange # e)) (\<lambda>_.
         attempt (find_agent h (ag_pane target)) (\<lambda>e. fail ([UnsafeChange, StaleReport] @ e)) (\<lambda>later.
           if \<not> same_immutable prior later \<or> ag_cwd prior \<noteq> ag_cwd later \<or> \<not> same_version prior later \<or> ag_focused later \<noteq> focused
           then fail [UnsafeChange, StaleReport] else succeed later))))"

definition focused_working :: "agent \<Rightarrow> bool" where
  "focused_working a \<longleftrightarrow> ag_focused a \<and> \<not> ag_launch_pending a \<and> ag_status a = ''working''"

definition same_working_source :: "agent \<Rightarrow> agent \<Rightarrow> bool" where
  "same_working_source prior later \<longleftrightarrow>
     same_immutable prior later \<and> ag_cwd prior = ag_cwd later \<and> ag_seq prior = ag_seq later \<and> focused_working later"

definition verify_autofocus_composer :: "('w, 'x) agent_host_scheme \<Rightarrow> agent \<Rightarrow> ('w, unit) io" where
  "verify_autofocus_composer h target =
     (if equal_fold (ax_tables h) (ag_kind target) ''codex'' then
        if \<not> valid_managed_session (ag_session target) \<or> ax_codex_socket h = [] then fail [UnsafeChange]
        else seq (read_pane h (ag_pane target) ''visible'' managed_status_lines ''ansi'') (\<lambda>t.
          if empty_codex_composer (ax_tables h) t then succeed () else fail [UnsafeChange])
      else verify_native_composer h target)"

definition source_found :: "('w, 'x) agent_host_scheme \<Rightarrow> agent \<Rightarrow> ('w, agent) io" where
  "source_found h a =
     attempt (find_agent h (ag_pane a)) (\<lambda>e. fail ([UnsafeChange, StaleReport] @ e)) (\<lambda>b.
       if same_working_source a b then succeed b else fail [UnsafeChange, StaleReport])"

definition verify_focused_working :: "('w, 'x) agent_host_scheme \<Rightarrow> agent \<Rightarrow> ('w, agent) io" where
  "verify_focused_working h target =
     if_over h (fail [UnsafeChange, CallFails])
       (if \<not> valid_target target then fail [UnsafeChange, CallFails]
        else if \<not> focused_working target \<or> \<not> is_abs (ag_cwd target) then fail [UnsafeChange]
        else seq (source_found h target) (\<lambda>prior.
          attempt (inspect_foreground h (origin_of target)) (\<lambda>e. fail ([UnsafeChange, StaleReport] @ e)) (\<lambda>process.
          if fp_pid process \<le> 0 \<or> fp_cwd process \<noteq> ag_cwd target \<or> fp_name process = [] \<or> fp_argv process = [] then fail [UnsafeChange, StaleReport]
          else seq (require_assessed h prior [Working]) (\<lambda>_.
            attempt (verify_autofocus_composer h prior) (\<lambda>e. fail (UnsafeChange # e)) (\<lambda>_.
            seq (source_found h prior) (\<lambda>second.
            attempt (verify_autofocus_composer h second) (\<lambda>e. fail (UnsafeChange # e)) (\<lambda>_.
            attempt (inspect_foreground h (origin_of target)) (\<lambda>e. fail ([UnsafeChange, StaleReport] @ e)) (\<lambda>again.
              if again \<noteq> process then fail [UnsafeChange, StaleReport]
              else seq (source_found h second) (\<lambda>later. if_over h (fail [UnsafeChange, StaleReport, CallFails]) (succeed later))))))))))"

subsection \<open>Prompts\<close>

definition max_prompt_characters :: nat where "max_prompt_characters = 20000"
definition prompt_polls :: nat where "prompt_polls = 600"

definition valid_prompt :: "unicode \<Rightarrow> string \<Rightarrow> bool" where
  "valid_prompt U t \<longleftrightarrow> valid_utf8 t \<and> trim_space U t \<noteq> [] \<and> rune_count t \<le> max_prompt_characters"

definition prepare_prompt :: "unicode \<Rightarrow> string \<Rightarrow> string option" where
  "prepare_prompt U t = (if valid_prompt U t then Some t else None)"

datatype prompt_state = PromptNotAttempted | CreatedPromptNotSent | PromptAcknowledged | CreatedPromptOutcomeUnknown

record prompt_target =
  pt_created :: created_target
  pt_agent :: agent
  pt_directory :: string
  pt_argv :: "string list"
  pt_source :: "agent option"
  pt_omp_socket :: string
  pt_server :: open_code_server
  pt_prefix :: string
  pt_service :: "codex_service option"

record prompt_result =
  pr_target :: prompt_target
  pr_agent :: agent
  pr_state :: prompt_state

definition prompt_ready_status :: "string \<Rightarrow> bool" where
  "prompt_ready_status s \<longleftrightarrow> s = ''idle'' \<or> s = ''done''"

definition codex_remote_argv :: "string list \<Rightarrow> bool" where
  "codex_remote_argv argv \<longleftrightarrow> list_ex (\<lambda>a. a = ''--remote'' \<or> has_prefix ''--remote='' a) argv"

text \<open>The endpoints named by \<open>--remote\<close>, or none when one is missing.  The word after \<open>--remote\<close> is
  looked at again, as the loop does.\<close>

fun remote_endpoints :: "string list \<Rightarrow> string list option" where
  "remote_endpoints [] = Some []"
| "remote_endpoints (a # as) =
     (if a = ''--remote'' then (case as of [] \<Rightarrow> None | x # _ \<Rightarrow> map_option (\<lambda>es. x # es) (remote_endpoints as))
      else if has_prefix ''--remote='' a then map_option (\<lambda>es. drop (length ''--remote='') a # es) (remote_endpoints as)
      else remote_endpoints as)"

definition valid_prompt_codex :: "prompt_target \<Rightarrow> bool" where
  "valid_prompt_codex t =
     (case ag_session (pt_agent t) of
        None \<Rightarrow> (valid_thread_prefix (pt_prefix t) \<or> valid_status_prefix (pt_prefix t)) \<and> \<not> codex_remote_argv (pt_argv t) \<and> pt_service t = None
      | Some s \<Rightarrow>
          if pt_prefix t \<noteq> [] \<or> \<not> valid_managed_session (ag_session (pt_agent t)) then False
          else if codex_remote_argv (pt_argv t) then
            (case pt_service t of
               None \<Rightarrow> False
             | Some v \<Rightarrow> valid_codex_service v \<and> remote_endpoints (pt_argv t) = Some [''unix://'' @ cv_socket v])
          else pt_service t = None)"

definition valid_prompt_target :: "('w, 'x) agent_host_scheme \<Rightarrow> prompt_target \<Rightarrow> bool" where
  "valid_prompt_target h t \<longleftrightarrow>
     cm_runner h \<noteq> None \<and> valid_target (pt_agent t) \<and> ag_session_name (pt_agent t) = sx_session h \<and> \<not> ag_focused (pt_agent t)
     \<and> prompt_ready_status (ag_status (pt_agent t))
     \<and> ct_origin (pt_created t) = origin_of (pt_agent t) \<and> pt_directory t = ag_cwd (pt_agent t) \<and> pt_argv t \<noteq> []
     \<and> (case pt_source t of
          None \<Rightarrow> True
        | Some s \<Rightarrow> valid_target s \<and> ag_session_name s = ag_session_name (pt_agent t) \<and> ag_workspace s = ag_workspace (pt_agent t)
            \<and> ag_pane s \<noteq> ag_pane (pt_agent t) \<and> ag_session s \<noteq> ag_session (pt_agent t))
     \<and> (let kind = to_lower (ax_tables h) (ag_kind (pt_agent t)) in
          (kind = ''codex'' \<longrightarrow> valid_prompt_codex t)
          \<and> (kind = ''opencode'' \<longrightarrow> valid_open_code_server h (pt_server t) \<and> oc_directory (pt_server t) = pt_directory t))"

text \<open>A read whose error is replaced.\<close>

definition or_fail :: "desk_errors \<Rightarrow> ('w, 'a) io \<Rightarrow> ('w, 'a) io" where
  "or_fail e m = attempt m (\<lambda>_. fail e) succeed"

definition codex_service_ready :: "('w, 'x) agent_host_scheme \<Rightarrow> prompt_target \<Rightarrow> ('w, unit) io" where
  "codex_service_ready h t =
     (if \<not> codex_remote_argv (pt_argv t) then succeed ()
      else seq (or_fail [PromptStale] (read_service (ax_service h))) (\<lambda>v.
        if Some v \<noteq> pt_service t then fail [PromptStale]
        else seq (or_fail [PromptStale] (read_service (ax_thread h (cv_socket v) (target_value (pt_agent t))))) (\<lambda>(thread, cwd).
          if thread \<noteq> target_value (pt_agent t) \<or> cwd \<noteq> pt_directory t then fail [PromptStale] else succeed ())))"

definition native_ready :: "('w, 'x) agent_host_scheme \<Rightarrow> prompt_target \<Rightarrow> ('w, string) io" where
  "native_ready h t =
     (let kind = to_lower (ax_tables h) (ag_kind (pt_agent t)); pane = ag_pane (pt_agent t) in
      if kind = ''codex'' then
        (if \<not> valid_prompt_codex t then fail [PromptStale]
         else seq (codex_service_ready h t) (\<lambda>_.
           seq (or_fail [PromptStale] (read_pane h pane ''visible'' managed_status_lines ''ansi'')) (\<lambda>s.
             if empty_codex_composer (ax_tables h) s then succeed ''codex:empty'' else fail [PromptNotReady])))
      else if kind = ''omp'' then
        seq (or_fail [PromptNotReady] (read_omp_status h (pt_omp_socket t))) (\<lambda>p.
          if ag_session (pt_agent t) = None \<or> op_value p \<noteq> target_value (pt_agent t) then fail [PromptStale]
          else if op_status p \<noteq> ''idle'' then fail [PromptNotReady]
          else seq (or_fail [PromptNotReady] (read_pane h pane ''visible'' managed_status_lines ''text'')) (\<lambda>s.
            if empty_omp_composer (ax_tables h) s then succeed (''omp:'' @ op_value p @ '':'' @ show_nat (unat (op_seq p))) else fail [PromptNotReady]))
      else if kind = ''opencode'' then
        (if \<not> valid_open_code_server h (pt_server t) \<or> oc_directory (pt_server t) \<noteq> pt_directory t \<or> ag_session (pt_agent t) = None
         then fail [PromptStale]
         else attempt (read_open_code_status h (pt_server t) (target_value (pt_agent t)) True)
           (\<lambda>e. if StaleReport \<in> set e then fail [PromptStale] else fail [PromptNotReady]) (\<lambda>a.
             if as_status a \<noteq> Idle \<or> \<not> as_stable a then fail [PromptNotReady]
             else seq (or_fail [PromptNotReady] (read_pane h pane ''visible'' managed_status_lines ''ansi'')) (\<lambda>s.
               if empty_open_code_composer (ax_tables h) s then succeed ''opencode:idle'' else fail [PromptNotReady])))
      else fail [PromptStale])"

type_synonym prompt_sample = "agent \<times> foreground_process \<times> string"

definition observe_prompt :: "('w, 'x) agent_host_scheme \<Rightarrow> prompt_target \<Rightarrow> ('w, prompt_sample) io" where
  "observe_prompt h t =
     seq (or_fail [PromptStale] (find_agent h (ag_pane (pt_agent t)))) (\<lambda>a.
       if \<not> same_immutable (pt_agent t) a \<or> ag_cwd a \<noteq> pt_directory t \<or> ag_focused a \<or> \<not> prompt_ready_status (ag_status a) then fail [PromptStale]
       else seq (verify_foreground h (ct_origin (pt_created t)) (pt_directory t) (pt_argv t)) (\<lambda>p.
         seq (native_ready h t) (\<lambda>n. succeed (a, p, n))))"

fun await_prompt_ready :: "('w, 'x) agent_host_scheme \<Rightarrow> prompt_target \<Rightarrow> nat \<Rightarrow> ('w, prompt_sample) io" where
  "await_prompt_ready h t n =
     attempt (observe_prompt h t)
       (\<lambda>e. if PromptNotReady \<notin> set e then fail e
            else case n of
                   0 \<Rightarrow> fail [PromptStale, CallFails]
                 | Suc m \<Rightarrow> attempt (sleep h) (\<lambda>e'. fail (PromptStale # e')) (\<lambda>_. await_prompt_ready h t m))
       succeed"

definition same_sample :: "prompt_sample \<Rightarrow> prompt_sample \<Rightarrow> bool" where
  "same_sample x y = (case (x, y) of ((a, p, n), (b, q, m)) \<Rightarrow>
     same_immutable a b \<and> ag_cwd a = ag_cwd b \<and> ag_status a = ag_status b \<and> ag_seq a = ag_seq b \<and> p = q \<and> n = m)"

definition observe_same :: "('w, 'x) agent_host_scheme \<Rightarrow> prompt_target \<Rightarrow> prompt_sample \<Rightarrow> ('w, prompt_sample) io" where
  "observe_same h t x =
     seq (or_fail [PromptStale] (observe_prompt h t)) (\<lambda>y. if same_sample x y then succeed y else fail [PromptStale])"

definition same_acknowledgement :: "agent \<Rightarrow> agent \<Rightarrow> string \<Rightarrow> bool" where
  "same_acknowledgement prior later prefix =
     (if prefix = [] then same_immutable prior later
      else same_immutable (prior\<lparr>ag_session := ag_session later\<rparr>) later
        \<and> (case ag_session later of
             None \<Rightarrow> True
           | Some s \<Rightarrow> valid_managed_session (ag_session later) \<and> has_prefix prefix (sf_value s)))"

type_synonym 'w delivery = "'w desk \<Rightarrow> (prompt_result \<times> desk_errors) \<times> 'w desk"

definition delivered :: "prompt_result \<Rightarrow> desk_errors \<Rightarrow> 'w delivery" where
  "delivered r e w = ((r, e), w)"

text \<open>What the reply to the prompt request says.\<close>

definition prompt_outcome ::
  "string \<Rightarrow> agent \<Rightarrow> prompt_target \<Rightarrow> request_state \<times> (string \<times> wire_agent) option \<Rightarrow> prompt_result \<Rightarrow> prompt_result \<times> desk_errors" where
  "prompt_outcome session final t reply r =
     (let unknown_outcome = (r\<lparr>pr_state := CreatedPromptOutcomeUnknown\<rparr>, [PromptOutcomeUnknown]) in
      case reply of
        (state, None) \<Rightarrow> if state = NotWritten then (r\<lparr>pr_state := CreatedPromptNotSent\<rparr>, [PromptNotSent]) else unknown_outcome
      | (state, Some (kind, w)) \<Rightarrow>
          if state \<noteq> Acknowledged \<or> kind \<noteq> ''agent_prompted'' then unknown_outcome
          else case public w of
                 None \<Rightarrow> unknown_outcome
               | Some a \<Rightarrow>
                   let a = a\<lparr>ag_session_name := session\<rparr> in
                   if \<not> same_acknowledgement final a (pt_prefix t) \<or> ag_cwd a \<noteq> ag_cwd final \<or> ag_focused a then unknown_outcome
                   else (r\<lparr>pr_agent := a, pr_state := PromptAcknowledged\<rparr>, []))"

definition send_prompt :: "('w, 'x) agent_host_scheme \<Rightarrow> string \<Rightarrow> prompt_target \<Rightarrow> prompt_result \<Rightarrow> string \<Rightarrow> agent \<Rightarrow> 'w delivery" where
  "send_prompt h t_text t r socket final w =
     (let (reply, v) = ax_prompt h socket (ag_pane final) t_text (dk_outside w)
      in (prompt_outcome (sx_session h) final t reply r,
          \<lparr>dk_log = dk_log w @ [Called socket (AgentPrompt (ag_pane final) t_text)], dk_outside = v\<rparr>))"

definition deliver :: "('w, 'x) agent_host_scheme \<Rightarrow> string \<Rightarrow> prompt_target \<Rightarrow> 'w delivery" where
  "deliver h prompt t =
     (let r = \<lparr>pr_target = t, pr_agent = pt_agent t, pr_state = PromptNotAttempted\<rparr> in
      if \<not> valid_prompt (ax_tables h) prompt then delivered r [PromptInvalid]
      else if \<not> valid_prompt_target h t then delivered r [PromptStale]
      else attempt (read_detection h (ag_pane (pt_agent t))) (delivered r) (\<lambda>_.
        attempt (await_prompt_ready h t prompt_polls) (delivered r) (\<lambda>first.
        attempt (sleep h) (\<lambda>e. delivered r (PromptStale # e)) (\<lambda>_.
        attempt (observe_same h t first) (delivered r) (\<lambda>second.
        attempt (session_socket h) (delivered r) (\<lambda>socket.
        attempt (observe_same h t second) (delivered r) (\<lambda>final. send_prompt h prompt t r socket (fst final))))))))"

end
