(* ===== verification/AgentProps.thy ===== *)
theory AgentProps
  imports AgentPrompts LaunchProps
begin

text \<open>
  What the operations on agents promise: the agents listed are well formed, the guards only
  read, and a delivery sends its prompt at most once.
\<close>

subsection \<open>Reads\<close>

lemma observing_agent_list: "observing (agent_json h d [''agent'', ''list''])"
  unfolding agent_json_def
  by (intro observing_arguments observing_rules observing_run_json) (simp add: observes_def observing_verbs_def)

lemma observing_list_agents [observing_rules]: "observing (list_agents h)"
  unfolding list_agents_def Let_def by (intro observing_rules observing_agent_list)

lemma observing_find_agent [observing_rules]: "observing (find_agent h pane)"
  unfolding find_agent_def by (intro observing_rules)

lemma observing_pane_read: "observing (attempt (session_arguments s ([''pane'', ''read''] @ args)) H (\<lambda>x. attempt (herdr_run c x) G K))"
  if "\<And>e. observing (H e)" and "\<And>e. observing (G e)" and "\<And>r. observing (K r)"
  using that by (intro observing_arguments observing_rules observing_herdr_run) (simp_all add: observes_def observing_verbs_def)

lemma observing_read_detection [observing_rules]: "observing (read_detection h pane)"
  unfolding read_detection_def
  by (intro observing_pane_read [where args = "[pane, ''--source'', ''detection'', ''--lines'', ''60'', ''--format'', ''text'']", simplified] observing_rules)

lemma observing_read_pane [observing_rules]: "observing (read_pane h pane source n format)"
  unfolding read_pane_def
  by (intro observing_pane_read [where args = "[pane, ''--source'', source, ''--lines'', show_nat n, ''--format'', format]", simplified] observing_rules)

lemma observing_read_service [observing_rules]: "observing (read_service f)"
  by (auto simp: observing_def yields_def read_service_def Let_def split: prod.splits)

lemma observing_if_over [observing_rules]: "observing m \<Longrightarrow> observing n \<Longrightarrow> observing (if_over h m n)"
  by (auto simp: observing_def yields_def if_over_def)

lemma observing_answer [observing_rules]: "observing (answer a e)"
  by (simp add: observing_def yields_def answer_def)

lemma observing_observe_agent [observing_rules]: "observing (observe_agent h a b)"
  unfolding observe_agent_def by (intro observing_rules)

lemma observing_assess_reported [observing_rules]: "observing (assess_reported h a)"
  unfolding assess_reported_def by (intro observing_rules)

lemma observing_read_codex [observing_rules]: "observing (read_codex h s t)"
  unfolding read_codex_def by (intro observing_rules)

lemma observing_failures [observing_rules]: "observing codex_failed" "observing (codex_error e)" "observing (native_error e)"
  unfolding codex_failed_def codex_error_def native_error_def by (intro observing_rules)+

lemma observing_assess_codex [observing_rules]: "observing (assess_codex h a)"
  unfolding assess_codex_def by (intro observing_rules)

lemma observing_find_native [observing_rules]: "observing (find_native_identity h pane)"
  unfolding find_native_identity_def
  by (intro observing_arguments observing_rules observing_run_json) (simp add: observes_def observing_verbs_def)

lemma observing_between [observing_rules]: "observing m \<Longrightarrow> observing (between_identities h a m f)"
  unfolding between_identities_def by (intro observing_rules)

lemma observing_settled_native [observing_rules]: "observing (settled_native U a b)"
  unfolding settled_native_def by (intro observing_rules)

lemma observing_read_omp [observing_rules]: "observing (read_omp_status h s)"
  unfolding read_omp_status_def by (intro observing_rules)

lemma observing_observe_omp [observing_rules]: "observing (observe_omp h a s)"
  unfolding observe_omp_def by (intro observing_rules)

lemma observing_assess_omp [observing_rules]: "observing (assess_omp h a)"
  unfolding assess_omp_def by (intro observing_rules)

lemma observing_option_deep [observing_rules]:
  "(\<And>x. observing (n x)) \<Longrightarrow> observing m \<Longrightarrow> observing (case y of Some (Some x) \<Rightarrow> n x | _ \<Rightarrow> m)"
  by (auto split: option.split)

lemma observing_open_code_parts [observing_rules]:
  "observing (check_open_code_session h s i b)" "observing (open_code_pending h s p i)" "observing (open_code_selected h s i)"
  unfolding check_open_code_session_def open_code_pending_def open_code_selected_def by (intro observing_rules)+

lemma observing_read_open_code [observing_rules]: "observing (read_open_code_status h s i b)"
  unfolding read_open_code_status_def by (intro observing_rules)

lemma observing_observe_open_code [observing_rules]: "observing (observe_open_code h a s b)"
  unfolding observe_open_code_def by (intro observing_rules)

lemma observing_assess_open_code [observing_rules]: "observing (assess_open_code h a)"
  unfolding assess_open_code_def by (intro observing_rules)

lemma observing_assess [observing_rules]: "observing (assess h a)"
  unfolding assess_def by (intro observing_rules)

lemma observing_require [observing_rules]: "observing (require_assessed h a ss)"
proof -
  have "observing (assess h a)" by (rule observing_assess)
  then show ?thesis by (auto simp: observing_def yields_def require_assessed_def split: prod.splits)
qed

lemma observing_composers [observing_rules]: "observing (verify_native_composer h a)" "observing (verify_autofocus_composer h a)"
  unfolding verify_autofocus_composer_def verify_native_composer_def Let_def by (intro observing_rules)+

lemma observing_source [observing_rules]: "observing (source_found h a)"
  unfolding source_found_def by (intro observing_rules)

lemma observing_native_change [observing_rules]: "observing (verify_native_change h a f)"
  unfolding verify_native_change_def by (intro observing_rules)

lemma observing_focused_working [observing_rules]: "observing (verify_focused_working h a)"
  unfolding verify_focused_working_def by (intro observing_rules)

section \<open>The promises\<close>

text \<open>
  The promises of the agent operations.
\<close>

subsection \<open>Agents\<close>

lemma session_arguments_session:
  "session_arguments s args w = (Inr x, w') \<Longrightarrow> s = [] \<or> validate_session_name s = None"
  by (auto simp: session_arguments_def session_args_def Let_def fail_def succeed_def split: sum.splits option.splits if_splits)

lemma those_map_SomeD: "those (map f xs) = Some ys \<Longrightarrow> y \<in> set ys \<Longrightarrow> \<exists>x \<in> set xs. f x = Some y"
  by (induction xs arbitrary: ys) (auto split: option.splits)

text \<open>What a listing returns is a target of the host's session.\<close>

definition known_agent :: "string \<Rightarrow> agent \<Rightarrow> bool" where
  "known_agent session a \<longleftrightarrow> valid_target a \<and> ag_session_name a = session"

lemma public_known:
  "public w = Some a \<Longrightarrow> s = [] \<or> validate_session_name s = None \<Longrightarrow> known_agent s (a\<lparr>ag_session_name := s\<rparr>)"
  by (auto simp: public_def known_agent_def valid_target_def valid_wire_agent_def valid_bounded_def split: if_splits)

lemma list_agents_Inr:
  assumes "list_agents h w = (Inr as, w')"
  shows "list_all (known_agent (sx_session h)) as \<and> distinct (map ag_pane as)"
proof -
  obtain args v kind ws v' as0 where args: "session_arguments (sx_session h) [''agent'', ''list''] w = (Inr args, v)"
    and ws: "those (map public ws) = Some as0" "distinct (map ag_pane as0)" and as: "as = map (\<lambda>a. a\<lparr>ag_session_name := sx_session h\<rparr>) as0"
    using assms unfolding list_agents_def agent_json_def
    by (auto elim!: attempt_InrE simp: fail_def succeed_def split: if_splits option.splits)
  have "known_agent (sx_session h) (a\<lparr>ag_session_name := sx_session h\<rparr>)" if "a \<in> set as0" for a
    using those_map_SomeD [OF ws(1) that] public_known session_arguments_session [OF args] by blast
  then have "list_all (known_agent (sx_session h)) as" by (simp add: as list_all_iff)
  moreover have "map ag_pane as = map ag_pane as0" by (simp add: as)
  ultimately show ?thesis using ws(2) by metis
qed

text \<open>Bounded text of an agent: no longer than its bound, with no NUL and no line break.\<close>

definition bounded_text :: "nat \<Rightarrow> string \<Rightarrow> bool" where
  "bounded_text n v \<longleftrightarrow> length v \<le> n \<and> set v \<inter> {nul, CHR 0x0D, CHR 0x0A} = {}"

definition bounded_agent :: "agent \<Rightarrow> bool" where
  "bounded_agent a \<longleftrightarrow>
     list_all (\<lambda>v. v \<noteq> [] \<and> bounded_text 256 v) [ag_kind a, ag_workspace a, ag_tab a, ag_pane a]
     \<and> list_all (bounded_text 256) [ag_name a, ag_display a, ag_title a]
     \<and> list_all (bounded_text 4096) [ag_cwd a, ag_foreground_cwd a]
     \<and> ag_status a \<in> {''working'', ''blocked'', ''done'', ''idle'', ''unknown''}
     \<and> (case ag_session a of None \<Rightarrow> True
        | Some s \<Rightarrow> list_all (\<lambda>v. v \<noteq> [] \<and> bounded_text 256 v) [sf_source s, sf_agent s, sf_kind s, sf_value s])"

lemma valid_bounded_text: "valid_bounded v n opt \<longleftrightarrow> (v \<noteq> [] \<or> opt) \<and> bounded_text n v"
  by (auto simp: valid_bounded_def bounded_text_def)

lemma public_bounded:
  assumes "public w = Some a"
  shows "bounded_agent (a\<lparr>ag_session_name := s\<rparr>)"
  using assms
  by (auto simp: public_def bounded_agent_def valid_wire_agent_def valid_bounded_text valid_session_def valid_host_status_def
      max_identity_bytes_def max_path_bytes_def split: if_splits option.splits)

lemma list_agents_bounded:
  assumes "list_agents h w = (Inr as, w')"
  shows "list_all bounded_agent as"
  using assms public_bounded those_map_SomeD unfolding list_agents_def agent_json_def
  by (fastforce elim!: attempt_InrE simp: fail_def succeed_def list_all_iff split: if_splits option.splits)

text \<open>C39: whatever Herdr printed, the agents that a listing returns are valid targets of the
  host's own session, on pairwise distinct panes, and every field of theirs keeps its bound:
  identities of 1 to 256 bytes, labels of at most 256, directories of at most 4096, all without
  NUL and line breaks, a known status, and a conversation of four such identities or none.\<close>

theorem listed_agents_well_formed:
  "case fst (list_agents h w) of Inl e \<Rightarrow> True
   | Inr as \<Rightarrow> list_all (\<lambda>a. bounded_agent a \<and> valid_target a \<and> ag_session_name a = sx_session h) as
       \<and> distinct (map ag_pane as)"
proof (cases "list_agents h w")
  case (Pair r w')
  show ?thesis
  proof (cases r)
    case (Inr as)
    with Pair list_agents_Inr [of h w as w'] list_agents_bounded [of h w as w'] show ?thesis
      by (simp add: known_agent_def [abs_def] list_all_iff)
  qed (simp add: Pair)
qed

lemma find_agent_Inr:
  assumes "find_agent h pane w = (Inr a, w')"
  shows "ag_pane a = pane \<and> known_agent (sx_session h) a"
proof -
  obtain as v where as: "list_agents h w = (Inr as, v)" and a: "find (\<lambda>x. ag_pane x = pane) as = Some a"
    using assms unfolding find_agent_def by (auto elim!: attempt_InrE simp: fail_def succeed_def split: option.splits)
  show ?thesis using list_agents_Inr [OF as] find_SomeD [OF a] by (auto simp: list_all_iff)
qed

subsection \<open>Guards\<close>

text \<open>What is on the pane between two states is the empty composer of an OMP or OpenCode agent.\<close>

definition shows_empty_composer :: "('w, 'x) agent_host_scheme \<Rightarrow> agent \<Rightarrow> 'w desk \<Rightarrow> 'w desk \<Rightarrow> bool" where
  "shows_empty_composer h a v v' \<longleftrightarrow>
     (\<exists>t. (to_lower (ax_tables h) (ag_kind a) = ''omp'' \<and> empty_omp_composer (ax_tables h) t
          \<and> read_pane h (ag_pane a) ''visible'' managed_status_lines ''text'' v = (Inr t, v')) \<or>
        (to_lower (ax_tables h) (ag_kind a) = ''opencode'' \<and> empty_open_code_composer (ax_tables h) t
          \<and> read_pane h (ag_pane a) ''visible'' managed_status_lines ''ansi'' v = (Inr t, v')))"

text \<open>The run that ends in a safe source: one listing shows it, then it is assessed, then its
  composer is read, and a second listing, the last thing done, shows it unchanged.\<close>

definition guarded :: "('w, 'x) agent_host_scheme \<Rightarrow> agent \<Rightarrow> bool \<Rightarrow> 'w desk \<Rightarrow> agent \<Rightarrow> 'w desk \<Rightarrow> bool" where
  "guarded h target focused w a w' \<longleftrightarrow>
     (\<exists>as v1 prior x v2 v3 bs.
        list_agents h w = (Inr as, v1) \<and> prior \<in> set as
        \<and> assess h prior v1 = ((x, []), v2) \<and> as_stable x \<and> as_status x \<in> {Idle, Done}
        \<and> shows_empty_composer h prior v2 v3
        \<and> list_agents h v3 = (Inr bs, w') \<and> a \<in> set bs
        \<and> list_all (\<lambda>b. ag_pane b = ag_pane target \<and> ag_kind b = ag_kind target \<and> ag_workspace b = ag_workspace target
             \<and> ag_tab b = ag_tab target \<and> ag_session_name b = ag_session_name target \<and> ag_session b = ag_session target
             \<and> ag_cwd b = ag_cwd target \<and> ag_focused b = focused \<and> (ag_status b = ''idle'' \<or> ag_status b = ''done'')) [prior, a]
        \<and> ag_status a = ag_status prior \<and> ag_revision a = ag_revision prior \<and> ag_seq a = ag_seq prior)"

lemma find_agent_listed:
  assumes "find_agent h pane w = (Inr a, w')"
  obtains as where "list_agents h w = (Inr as, w')" "a \<in> set as" "ag_pane a = pane"
proof -
  obtain as v where as: "list_agents h w = (Inr as, v)" and a: "find (\<lambda>x. ag_pane x = pane) as = Some a" and v: "v = w'"
    using assms unfolding find_agent_def by (auto elim!: attempt_InrE simp: fail_def succeed_def split: option.splits)
  show thesis using that as v find_SomeD [OF a] by blast
qed

lemma require_assessed_Inr:
  assumes "require_assessed h a ss w = (Inr (), w')"
  obtains x where "assess h a w = ((x, []), w')" "as_stable x" "as_status x \<in> set ss"
  using assms by (auto simp: require_assessed_def split: prod.splits if_splits)

lemma verify_native_composer_Inr:
  "verify_native_composer h a w = (Inr (), w') \<Longrightarrow> shows_empty_composer h a w w'"
  unfolding verify_native_composer_def Let_def shows_empty_composer_def
  by (auto elim!: attempt_InrE simp: fail_def succeed_def split: if_splits)

lemma native_change_Inr:
  assumes "verify_native_change h target focused w = (Inr a, w')"
  shows "guarded h target focused w a w'"
proof -
  obtain prior v1 v2 v3 where f1: "find_agent h (ag_pane target) w = (Inr prior, v1)"
    and p: "same_immutable target prior" "ag_cwd target = ag_cwd prior" "ag_focused prior = focused"
      "ag_status prior = ''idle'' \<or> ag_status prior = ''done''"
    and r: "require_assessed h prior [Idle, Done] v1 = (Inr (), v2)" and c: "verify_native_composer h prior v2 = (Inr (), v3)"
    and f2: "find_agent h (ag_pane target) v3 = (Inr a, w')"
    and q: "same_immutable prior a" "ag_cwd prior = ag_cwd a" "same_version prior a" "ag_focused a = focused"
    using assms unfolding verify_native_change_def
    by (auto simp: attempt_def fail_def succeed_def split: if_splits prod.splits sum.splits)
  obtain as where as: "list_agents h w = (Inr as, v1)" "prior \<in> set as" by (rule find_agent_listed [OF f1])
  obtain bs where bs: "list_agents h v3 = (Inr bs, w')" "a \<in> set bs" by (rule find_agent_listed [OF f2])
  obtain x where x: "assess h prior v1 = ((x, []), v2)" "as_stable x" "as_status x \<in> set [Idle, Done]"
    by (rule require_assessed_Inr [OF r])
  have "list_all (\<lambda>b. ag_pane b = ag_pane target \<and> ag_kind b = ag_kind target \<and> ag_workspace b = ag_workspace target
      \<and> ag_tab b = ag_tab target \<and> ag_session_name b = ag_session_name target \<and> ag_session b = ag_session target
      \<and> ag_cwd b = ag_cwd target \<and> ag_focused b = focused \<and> (ag_status b = ''idle'' \<or> ag_status b = ''done'')) [prior, a]"
    using p q by (auto simp: same_immutable_def same_version_def)
  moreover have "ag_status a = ag_status prior \<and> ag_revision a = ag_revision prior \<and> ag_seq a = ag_seq prior"
    using q by (simp add: same_version_def)
  ultimately show ?thesis
    unfolding guarded_def using as bs x verify_native_composer_Inr [OF c] by fastforce
qed

text \<open>An operation whose every error says that leaving is unsafe.\<close>

definition unsafe_errors :: "('w, 'a) io \<Rightarrow> bool" where
  "unsafe_errors m \<longleftrightarrow> (\<forall>w e w'. m w = (Inl e, w') \<longrightarrow> UnsafeChange \<in> set e)"

lemma unsafe_attempt:
  "(\<And>e. unsafe_errors (H e)) \<Longrightarrow> (\<And>x. unsafe_errors (K x)) \<Longrightarrow> unsafe_errors (attempt m H K)"
  unfolding unsafe_errors_def attempt_def by (auto split: prod.splits sum.splits)

lemma unsafe_simps: "unsafe_errors (fail e) \<longleftrightarrow> UnsafeChange \<in> set e" "unsafe_errors (succeed x)"
  by (auto simp: unsafe_errors_def fail_def succeed_def)

lemma unsafe_require: "unsafe_errors (require_assessed h a ss)"
  by (auto simp: unsafe_errors_def require_assessed_def split: prod.splits if_splits)

lemma unsafe_seq: "unsafe_errors m \<Longrightarrow> (\<And>x. unsafe_errors (K x)) \<Longrightarrow> unsafe_errors (seq m K)"
  unfolding unsafe_errors_def attempt_def by (fastforce simp: fail_def split: prod.splits sum.splits)

lemma unsafe_native_change: "unsafe_errors (verify_native_change h target focused)"
  unfolding verify_native_change_def
  by (auto intro!: unsafe_attempt unsafe_require unsafe_seq simp: unsafe_simps)

text \<open>C14: the guard over leaving an OMP or OpenCode source only reads Herdr.  It refuses with the
  error that says so, or the source was in a first listing, idle or done and focused exactly as
  asked, then assessed as stable and idle or done, then seen with an empty composer, and then in
  a second listing, the last thing the guard did, with the same identity, directory, focus,
  status, revision and sequence; the source it returns is the one of that second listing.\<close>

theorem native_change_guarded:
  "\<exists>es. dk_log (snd (verify_native_change h target focused w)) = dk_log w @ es \<and> list_all observes es
    \<and> (case verify_native_change h target focused w of (Inl e, _) \<Rightarrow> UnsafeChange \<in> set e
       | (Inr a, w') \<Rightarrow> guarded h target focused w a w')"
proof -
  obtain r w' where run: "verify_native_change h target focused w = (r, w')" by fastforce
  obtain es where "dk_log w' = dk_log w @ es" "list_all observes es"
    using observing_log [OF observing_native_change run] by blast
  moreover have "case r of Inl e \<Rightarrow> UnsafeChange \<in> set e | Inr a \<Rightarrow> guarded h target focused w a w'"
    using run unsafe_native_change native_change_Inr by (fastforce simp: unsafe_errors_def split: sum.split)
  ultimately show ?thesis using run by (auto split: sum.splits)
qed

subsection \<open>Prompts\<close>

lemma after_run:
  assumes "observing m" and "\<And>fs r v v'. m v = (r, v') \<Longrightarrow> list_all observes fs \<Longrightarrow> Q (es @ fs) r"
  shows "after es m Q"
  using assms unfolding observing_def after_def yields_def by (metis (full_types))

text \<open>What was asked for by the end of a delivery, and what its result says.\<close>

definition accounted :: "string \<Rightarrow> prompt_target \<Rightarrow> effect list \<Rightarrow> prompt_result \<times> desk_errors \<Rightarrow> bool" where
  "accounted prompt t es x \<longleftrightarrow>
     (let (r, e) = x in
      if pr_state r = PromptNotAttempted then list_all observes es
      else (\<exists>pre socket. es = pre @ [Called socket (AgentPrompt (ag_pane (pt_agent t)) prompt)] \<and> list_all observes pre)
        \<and> (pr_state r = PromptAcknowledged \<longleftrightarrow> e = [])
        \<and> (pr_state r = PromptAcknowledged \<longrightarrow> \<not> ag_focused (pr_agent r) \<and> ag_pane (pr_agent r) = ag_pane (pt_agent t)))"

lemma observing_or_fail [observing_rules]: "observing m \<Longrightarrow> observing (or_fail e m)"
  unfolding or_fail_def by (intro observing_rules)

lemma observing_native_ready [observing_rules]: "observing (native_ready h t)"
  unfolding native_ready_def codex_service_ready_def Let_def by (intro observing_rules)

lemma observing_observe_prompt [observing_rules]: "observing (observe_prompt h t)"
  unfolding observe_prompt_def by (intro observing_rules)

lemma observing_await_prompt [observing_rules]: "observing (await_prompt_ready h t n)"
proof (induction n)
  case 0
  show ?case by (subst await_prompt_ready.simps, unfold nat.case) (intro observing_rules)
next
  case (Suc n)
  show ?case by (subst await_prompt_ready.simps, unfold nat.case) (intro observing_rules Suc)
qed

lemma observing_observe_same [observing_rules]: "observing (observe_same h t x)"
  unfolding observe_same_def by (intro observing_rules)

lemma observe_same_pane:
  assumes "observe_same h t x w = (Inr y, w')"
  shows "ag_pane (fst y) = ag_pane (pt_agent t)"
  using assms unfolding observe_same_def observe_prompt_def or_fail_def
  by (auto elim!: attempt_InrE simp: fail_def succeed_def attempt_def dest!: find_agent_Inr split: if_splits prod.splits sum.splits)

lemma not_attempted: "pr_state r = PromptNotAttempted \<Longrightarrow> list_all observes es \<Longrightarrow> accounted prompt t es (r, e)"
  by (simp add: accounted_def)

lemma after_delivered: "pr_state r = PromptNotAttempted \<Longrightarrow> list_all observes es \<Longrightarrow> after es (delivered r e) (accounted prompt t)"
  by (simp add: after_def yields_def delivered_def not_attempted)

lemma outcome_accounted:
  assumes "list_all observes es" and "ag_pane final = ag_pane (pt_agent t)"
  shows "accounted prompt t (es @ [Called socket (AgentPrompt (ag_pane final) prompt)]) (prompt_outcome session final t reply r)"
proof -
  have "same_acknowledgement final a (pt_prefix t) \<Longrightarrow> ag_pane a = ag_pane final" for a
    by (auto simp: same_acknowledgement_def same_immutable_def split: if_splits)
  then show ?thesis using assms
    by (cases reply) (auto simp: prompt_outcome_def Let_def accounted_def split: option.split)
qed

lemma send_accounted:
  assumes "list_all observes es" and "ag_pane final = ag_pane (pt_agent t)"
  shows "after es (send_prompt h prompt t r socket final) (accounted prompt t)"
  unfolding after_def yields_def send_prompt_def
  by (auto split: prod.splits) (metis outcome_accounted [OF assms])

text \<open>A read in a delivery: what follows it may use its result.\<close>

lemma after_read:
  assumes "observing m" and "list_all observes es"
    and "\<And>fs e. list_all observes fs \<Longrightarrow> after fs (H e) Q"
    and "\<And>fs x v v'. m v = (Inr x, v') \<Longrightarrow> list_all observes fs \<Longrightarrow> after fs (K x) Q"
  shows "after es (attempt m H K) Q"
proof (rule after_attempt, rule after_run [OF assms(1)], goal_cases)
  case (1 fs r v v')
  then have "list_all observes (es @ fs)" using assms(2) by simp
  then show ?case using assms(3,4) 1(1) by (cases r) (simp_all only: sum.case)
qed

lemma deliver_accounted: "after [] (deliver h prompt t) (accounted prompt t)"
proof -
  let ?r = "\<lparr>pr_target = t, pr_agent = pt_agent t, pr_state = PromptNotAttempted\<rparr>"
  have stop: "list_all observes es \<Longrightarrow> after es (delivered ?r e) (accounted prompt t)" for es e
    by (rule after_delivered) simp
  have start: "list_all observes []" by simp
  show ?thesis unfolding deliver_def Let_def
    by (auto intro!: stop after_read [OF observing_read_detection] after_read [OF observing_await_prompt] after_read [OF observing_sleep]
        after_read [OF observing_observe_same] after_read [OF observing_session_socket] send_accounted observe_same_pane simp del: await_prompt_ready.simps)
qed

text \<open>C6: a delivery asks Herdr to prompt at most once, in the target's pane and with exactly the
  prompt, as the last thing it does, after nothing but reads; the state it returns says whether
  it did, and it reports success exactly for an acknowledgement of the unfocused target.\<close>

theorem prompt_sent_at_most_once:
  "\<exists>es. dk_log (snd (deliver h prompt t w)) = dk_log w @ es \<and> accounted prompt t es (fst (deliver h prompt t w))"
proof -
  have "yields (deliver h prompt t) (accounted prompt t)" by (rule yields_after [OF deliver_accounted])
  from yieldsD [OF this, of w "fst (deliver h prompt t w)" "snd (deliver h prompt t w)"] show ?thesis by simp
qed

end
