(* ===== verification/AgentStart.thy ===== *)
theory AgentStart
  imports AgentPrompts
begin

text \<open>
  Starting a fresh OMP or OpenCode conversation in the background (runtime/agenthost:
  native_start.go, prompt_start.go, opencode_prompt_server.go and the options of fork.go).

  The code's interfaces to OpenCode (starting and stopping its server, creating and deleting a
  session, reserving a port) are parameters; they are no commands of Herdr and are not logged.
  The polls are 50ms apart and end with the request's timeout; \<open>ready_polls\<close> is how many of them
  fit in it.
\<close>

subsection \<open>Options\<close>

record option_spec =
  ol_value :: bool
  ol_config :: bool
  ol_canonical :: string

definition flag :: option_spec where "flag = \<lparr>ol_value = False, ol_config = False, ol_canonical = []\<rparr>"
definition valued :: option_spec where "valued = \<lparr>ol_value = True, ol_config = False, ol_canonical = []\<rparr>"
definition named :: "string \<Rightarrow> option_spec" where "named c = \<lparr>ol_value = True, ol_config = False, ol_canonical = c\<rparr>"
definition config_option :: option_spec where "config_option = \<lparr>ol_value = True, ol_config = True, ol_canonical = ''config''\<rparr>"

definition codex_options :: "(string \<times> option_spec) list" where
  "codex_options =
     [(''-m'', named ''model''), (''--model'', named ''model''), (''-s'', named ''sandbox''), (''--sandbox'', named ''sandbox''),
      (''-a'', named ''approval''), (''--ask-for-approval'', named ''approval''), (''--enable'', valued), (''--disable'', valued),
      (''-c'', config_option), (''--config'', config_option),
      (''--strict-config'', flag), (''--search'', flag), (''--no-alt-screen'', flag), (''--approve-for-me'', flag)]"

definition omp_options :: "(string \<times> option_spec) list" where
  "omp_options =
     map (\<lambda>n. (n, valued)) [''--model'', ''--smol'', ''--slow'', ''--plan'', ''--provider'', ''--system-prompt'', ''--append-system-prompt'',
       ''--models'', ''--thinking'', ''--service-tier'', ''--tools'', ''--approval-mode'']
     @ map (\<lambda>n. (n, flag)) [''--prewalk'', ''--no-prewalk'', ''--no-tools'', ''--no-lsp'', ''--no-pty'', ''--hide-thinking'', ''--advisor'',
       ''--external-thinking'', ''--no-title'', ''--auto-approve'', ''--no-extensions'', ''--no-skills'', ''--no-rules'']"

definition open_code_options :: "(string \<times> option_spec) list" where
  "open_code_options =
     [(''-m'', named ''model''), (''--model'', named ''model''), (''--agent'', valued), (''--log-level'', valued), (''--replay-limit'', valued),
      (''--print-logs'', flag), (''--pure'', flag), (''--auto'', flag), (''--mini'', flag), (''--no-replay'', flag)]"

definition option_specs :: "string \<Rightarrow> (string \<times> option_spec) list option" where
  "option_specs kind =
     (if kind = ''codex'' then Some codex_options else if kind = ''omp'' then Some omp_options
      else if kind = ''opencode'' then Some open_code_options else None)"

definition option_key :: "string \<Rightarrow> option_spec \<Rightarrow> string" where
  "option_key name s = (if ol_canonical s \<noteq> [] then ol_canonical s else name)"

definition config_keys :: "string list" where
  "config_keys = [''model'', ''model_reasoning_effort'', ''service_tier'']"

text \<open>The key under which a value counts, if it is a valid one.\<close>

definition value_key :: "string \<Rightarrow> option_spec \<Rightarrow> string \<Rightarrow> string option" where
  "value_key name s v =
     (if ol_config s then
        let (key, _, found) = cut (CHR ''='') v
        in if \<not> found \<or> key \<notin> set config_keys then None else Some (''config:'' @ key)
      else Some (option_key name s))"

text \<open>The next option: its key, and what follows it.\<close>

definition option_item :: "(string \<times> option_spec) list \<Rightarrow> string \<Rightarrow> string list \<Rightarrow> (string \<times> string list) option" where
  "option_item specs raw rest =
     (let (name, inline, has_inline) = cut (CHR ''='') raw in
      case map_of specs name of
        None \<Rightarrow> None
      | Some s \<Rightarrow>
          if raw = ''--'' \<or> nul \<in> set raw then None
          else if \<not> ol_value s then if has_inline then None else Some (option_key name s, rest)
          else if has_inline then if inline = [] then None else map_option (\<lambda>k. (k, rest)) (value_key name s inline)
          else case rest of
                 [] \<Rightarrow> None
               | v # rest' \<Rightarrow> if v = [] \<or> has_prefix ''-'' v \<or> nul \<in> set v then None else map_option (\<lambda>k. (k, rest')) (value_key name s v))"

lemma option_item_shorter: "option_item specs raw rest = Some (k, rest') \<Longrightarrow> length rest' \<le> length rest"
  by (auto simp: option_item_def Let_def split: prod.splits option.splits if_splits list.splits)

function scan_options :: "(string \<times> option_spec) list \<Rightarrow> string list \<Rightarrow> string list \<Rightarrow> bool" where
  "scan_options specs seen [] = True"
| "scan_options specs seen (raw # rest) =
     (case option_item specs raw rest of
        None \<Rightarrow> False
      | Some (k, rest') \<Rightarrow> k \<notin> set seen \<and> scan_options specs (k # seen) rest')"
  by pat_completeness auto
termination by (relation "measure (\<lambda>(_, _, os). length os)") (auto dest: option_item_shorter)

definition valid_fork_options :: "string \<Rightarrow> string list \<Rightarrow> bool" where
  "valid_fork_options kind options = (case option_specs kind of None \<Rightarrow> False | Some specs \<Rightarrow> scan_options specs [] options)"

definition valid_fork_executable :: "string \<Rightarrow> string \<Rightarrow> bool" where
  "valid_fork_executable executable kind \<longleftrightarrow>
     executable \<noteq> [] \<and> length executable \<le> max_path_bytes \<and> nul \<notin> set executable \<and> CHR 0x0D \<notin> set executable \<and> CHR 0x0A \<notin> set executable
     \<and> \<not> has_prefix ''-'' executable \<and> path_base executable = kind
     \<and> (slash \<in> set executable \<longrightarrow> is_abs executable \<and> path_clean executable = executable)"

subsection \<open>OpenCode sessions\<close>

record 'w starter = "'w agent_host" +
  st_server_start :: "string \<Rightarrow> string \<Rightarrow> 'w \<Rightarrow> open_code_server option \<times> 'w"
  st_server_stop :: "'w \<Rightarrow> unit option \<times> 'w"
  st_session_create :: "open_code_server \<Rightarrow> 'w \<Rightarrow> string option \<times> 'w"
  st_session_delete :: "open_code_server \<Rightarrow> string \<Rightarrow> 'w \<Rightarrow> unit option \<times> 'w"
  st_reserve_port :: "'w \<Rightarrow> int option \<times> 'w"

definition no_server :: open_code_server where "no_server = \<lparr>oc_url = [], oc_directory = []\<rparr>"

record prepared_open_code =
  po_server :: open_code_server
  po_session :: string
  po_started :: bool

definition no_open_code :: prepared_open_code where
  "no_open_code = \<lparr>po_server = no_server, po_session = [], po_started = False\<rparr>"

definition stop_open_code :: "('w, 'x) starter_scheme \<Rightarrow> prepared_open_code \<Rightarrow> ('w, unit) io" where
  "stop_open_code h p = (if po_started p then read_service (st_server_stop h) else succeed ())"

definition delete_open_code :: "('w, 'x) starter_scheme \<Rightarrow> prepared_open_code \<Rightarrow> ('w, unit) io" where
  "delete_open_code h p = (if po_session p = [] then succeed () else read_service (st_session_delete h (po_server p) (po_session p)))"

text \<open>\<open>errors.Join\<close> with the error of a further step.\<close>

definition joining :: "('w, unit) io \<Rightarrow> desk_errors \<Rightarrow> 'w desk \<Rightarrow> desk_errors \<times> 'w desk" where
  "joining m e = attempt m (\<lambda>e' w. (e @ e', w)) (\<lambda>_ w. (e, w))"

definition prepare_open_code :: "('w, 'x) starter_scheme \<Rightarrow> string \<Rightarrow> string \<Rightarrow> open_code_server \<Rightarrow> bool \<Rightarrow> ('w, prepared_open_code) io" where
  "prepare_open_code h executable directory server start_server =
     seq (if start_server then read_service (st_server_start h executable directory) else succeed server) (\<lambda>s.
       let p = \<lparr>po_server = s, po_session = [], po_started = start_server\<rparr> in
       attempt (read_service (st_session_create h s)) (\<lambda>e w. let (e', w') = joining (stop_open_code h p) e w in (Inl e', w'))
         (\<lambda>session. succeed (p\<lparr>po_session := session\<rparr>)))"

definition tui_endpoint :: "('w, 'x) starter_scheme \<Rightarrow> ('w, string list) io" where
  "tui_endpoint h =
     seq (read_service (st_reserve_port h)) (\<lambda>port.
       if port < 1 \<or> port > 65535 then fail [CallFails] else succeed [''--hostname'', ''127.0.0.1'', ''--port'', show_nat (nat port)])"

subsection \<open>Native starts\<close>

definition max_ready_timeout :: int where "max_ready_timeout = 300000000000"
definition default_ready_timeout :: int where "default_ready_timeout = 30000000000"

definition ready_timeout :: "int \<Rightarrow> int" where
  "ready_timeout t = (if t \<le> 0 then default_ready_timeout else t)"

definition ready_polls :: "int \<Rightarrow> nat" where
  "ready_polls t = nat (ready_timeout t div 50000000)"

record native_request =
  nq_origin :: origin
  nq_argv :: "string list"
  nq_directory :: string
  nq_placement :: placement
  nq_direction :: string
  nq_label :: string
  nq_timeout :: int
  nq_omp_socket :: string
  nq_server :: open_code_server
  nq_start_server :: bool

record native_result =
  nr_created :: "created_target option"
  nr_agent :: "agent option"

definition no_result :: native_result where "no_result = \<lparr>nr_created = None, nr_agent = None\<rparr>"

text \<open>The argument vector of the harness, and its kind.\<close>

definition validate_native_start :: "('w, 'x) starter_scheme \<Rightarrow> native_request \<Rightarrow> (string list \<times> string) option" where
  "validate_native_start h q =
     (if nq_argv q = [] then None
      else
        let kind = to_lower (ax_tables h) (path_base (hd (nq_argv q))) in
        if valid_fork_executable (hd (nq_argv q)) kind \<and> (kind = ''omp'' \<or> kind = ''opencode'') \<and> valid_fork_options kind (tl (nq_argv q))
           \<and> clean_absolute (nq_directory q) \<and> 0 \<le> nq_timeout q \<and> nq_timeout q \<le> max_ready_timeout
           \<and> (if kind = ''omp'' then
                \<not> nq_start_server q \<and> nq_server q = no_server \<and> (nq_omp_socket q \<noteq> [] \<longrightarrow> clean_absolute (nq_omp_socket q))
              else
                nq_omp_socket q = [] \<and> (nq_start_server q \<longrightarrow> nq_server q = no_server)
                \<and> (\<not> nq_start_server q \<longrightarrow> valid_open_code_server h (nq_server q))
                \<and> (nq_server q \<noteq> no_server \<longrightarrow> oc_directory (nq_server q) = nq_directory q))
        then Some (nq_argv q, kind) else None)"

datatype candidate_state = Candidate_Ready | Candidate_Pending | Candidate_Wrong

definition classify_native :: "unicode \<Rightarrow> agent \<Rightarrow> created_target \<Rightarrow> string \<Rightarrow> string \<Rightarrow> string \<Rightarrow> session_ref list \<Rightarrow> candidate_state" where
  "classify_native U a c kind expected directory prior =
     (if \<not> equal_fold U (ag_kind a) kind \<or> origin_of a \<noteq> ct_origin c \<or> ag_cwd a \<noteq> directory \<or> ag_focused a then Candidate_Wrong
      else case ag_session a of
             None \<Rightarrow> Candidate_Pending
           | Some s \<Rightarrow>
               if \<not> prompt_ready_status (ag_status a) then Candidate_Pending
               else if kind = ''omp'' \<and> (\<not> is_abs (sf_value s) \<or> path_clean (sf_value s) \<noteq> sf_value s) then Candidate_Wrong
               else if sf_source s \<noteq> ''herdr:'' @ kind \<or> sf_agent s \<noteq> kind \<or> sf_kind s \<noteq> (if kind = ''omp'' then ''path'' else ''id'') \<or> sf_value s = []
               then Candidate_Wrong
               else if expected \<noteq> [] \<and> sf_value s \<noteq> expected \<or> s \<in> set prior then Candidate_Wrong
               else Candidate_Ready)"

text \<open>The candidate is seen ready twice, unchanged.\<close>

definition confirm_fresh ::
  "('w, 'x) agent_host_scheme \<Rightarrow> (agent \<Rightarrow> candidate_state) \<Rightarrow> string \<Rightarrow> agent \<Rightarrow> ('w, agent) io" where
  "confirm_fresh h classify pane first =
     seq (sleep h) (\<lambda>_. attempt (find_agent h pane) (\<lambda>_. fail [StaleReport]) (\<lambda>second.
       if classify second \<noteq> Candidate_Ready \<or> \<not> same_immutable first second then fail [StaleReport] else succeed second))"

fun wait_for_fresh ::
  "('w, 'x) agent_host_scheme \<Rightarrow> (agent \<Rightarrow> candidate_state) \<Rightarrow> string \<Rightarrow> nat \<Rightarrow> ('w, agent) io" where
  "wait_for_fresh h classify pane n =
     (let again = (case n of 0 \<Rightarrow> fail [CallFails] | Suc m \<Rightarrow> seq (sleep h) (\<lambda>_. wait_for_fresh h classify pane m)) in
      attempt (find_agent h pane) (\<lambda>e. if StaleReport \<in> set e then again else fail e) (\<lambda>first.
        case classify first of
          Candidate_Ready \<Rightarrow> confirm_fresh h classify pane first
        | Candidate_Pending \<Rightarrow> again
        | Candidate_Wrong \<Rightarrow> fail [StaleReport]))"

type_synonym 'w starting = "'w desk \<Rightarrow> (native_result \<times> desk_errors) \<times> 'w desk"

definition started :: "native_result \<Rightarrow> desk_errors \<Rightarrow> 'w starting" where
  "started r e w = ((r, e), w)"

definition launch_of_start :: "native_request \<Rightarrow> string list \<Rightarrow> launch_request" where
  "launch_of_start q argv =
     \<lparr>lq_origin = nq_origin q, lq_argv = argv, lq_directory = nq_directory q, lq_placement = nq_placement q, lq_direction = nq_direction q,
       lq_label = nq_label q, lq_focus = False, lq_omp_socket = nq_omp_socket q\<rparr>"

text \<open>A start that fails closes its pane; the result names the pane only if that failed too.\<close>

definition abandon_start :: "('w, 'x) starter_scheme \<Rightarrow> prepared_open_code \<Rightarrow> created_target \<Rightarrow> desk_errors \<Rightarrow> 'w starting" where
  "abandon_start h p c cause =
     attempt (cleanup_target h c)
       (\<lambda>e w. let (e', w') = joining (delete_open_code h p) (cause @ e) w in ((\<lparr>nr_created = Some c, nr_agent = None\<rparr>, e'), w'))
       (\<lambda>_ w. let (e', w') = joining (delete_open_code h p) cause w in ((no_result, e'), w'))"

definition launch_native ::
  "('w, 'x) starter_scheme \<Rightarrow> native_request \<Rightarrow> string \<Rightarrow> string list \<Rightarrow> prepared_open_code \<Rightarrow> session_ref list \<Rightarrow> 'w starting" where
  "launch_native h q kind argv p prior =
     attempt (launch h (launch_of_start q argv)) (\<lambda>e w. let (e', w') = joining (delete_open_code h p) e w in ((no_result, e'), w')) (\<lambda>c.
       attempt (wait_for_fresh h (\<lambda>a. classify_native (ax_tables h) a c kind (po_session p) (nq_directory q) prior) (og_pane (ct_origin c)) (ready_polls (nq_timeout q)))
         (abandon_start h p c) (\<lambda>a. started \<lparr>nr_created = Some c, nr_agent = Some a\<rparr> []))"

text \<open>The OpenCode server that was started is stopped at the end, and the error joined.\<close>

definition stopping :: "('w, 'x) starter_scheme \<Rightarrow> prepared_open_code \<Rightarrow> 'w starting \<Rightarrow> 'w starting" where
  "stopping h p m w = (let ((r, e), w') = m w; (e', w'') = joining (stop_open_code h p) e w' in ((r, e'), w''))"

definition start_open_code :: "('w, 'x) starter_scheme \<Rightarrow> native_request \<Rightarrow> string list \<Rightarrow> session_ref list \<Rightarrow> 'w starting" where
  "start_open_code h q argv prior =
     attempt (prepare_open_code h (hd (nq_argv q)) (nq_directory q) (nq_server q) (nq_start_server q)) (started no_result) (\<lambda>p.
       attempt (tui_endpoint h)
         (\<lambda>e w. let (e', w') = joining (delete_open_code h p) e w; (e'', w'') = joining (stop_open_code h p) e' w' in ((no_result, e''), w''))
         (\<lambda>ends. stopping h p (launch_native h q ''opencode'' (argv @ [''--session'', po_session p] @ ends) p prior)))"

definition sessions_of :: "agent list \<Rightarrow> session_ref list" where
  "sessions_of as = concat (map (\<lambda>a. case ag_session a of None \<Rightarrow> [] | Some s \<Rightarrow> [s]) as)"

definition native_start :: "('w, 'x) starter_scheme \<Rightarrow> native_request \<Rightarrow> 'w starting" where
  "native_start h q =
     if_over h (started no_result [CallFails])
       (case validate_native_start h q of
          None \<Rightarrow> started no_result [CallFails]
        | Some (argv, kind) \<Rightarrow>
            attempt (list_agents h) (started no_result) (\<lambda>as.
              if kind = ''opencode'' then start_open_code h q argv (sessions_of as)
              else launch_native h q kind argv no_open_code (sessions_of as)))"

end
