(* ===== verification/StartProps.thy ===== *)
theory StartProps
  imports AgentStart AgentProps
begin

text \<open>
  The promises of a background start: which options reach the harness, that the conversation it
  returns is a fresh one, and what it does to the session.
\<close>

subsection \<open>Options\<close>

datatype option_use = Alone string | Inline string string | Apart string string

fun use_words :: "option_use \<Rightarrow> string list" where
  "use_words (Alone n) = [n]"
| "use_words (Inline n v) = [n @ CHR ''='' # v]"
| "use_words (Apart n v) = [n, v]"

fun use_name :: "option_use \<Rightarrow> string" where
  "use_name (Alone n) = n"
| "use_name (Inline n v) = n"
| "use_name (Apart n v) = n"

text \<open>The key of a use that the table allows.\<close>

definition use_key :: "(string \<times> option_spec) list \<Rightarrow> option_use \<Rightarrow> string option" where
  "use_key specs u =
     (case map_of specs (use_name u) of
        None \<Rightarrow> None
      | Some s \<Rightarrow>
          (case u of
             Alone n \<Rightarrow> if ol_value s \<or> n = ''--'' then None else Some (option_key n s)
           | Inline n v \<Rightarrow> if \<not> ol_value s \<or> v = [] then None else value_key n s v
           | Apart n v \<Rightarrow> if \<not> ol_value s \<or> n = ''--'' \<or> v = [] \<or> has_prefix ''-'' v then None else value_key n s v))"

definition use_ok :: "option_use \<Rightarrow> bool" where
  "use_ok u \<longleftrightarrow> CHR ''='' \<notin> set (use_name u) \<and> list_all (\<lambda>x. nul \<notin> set x) (use_words u)"

lemma cut_inline: "CHR ''='' \<notin> set n \<Longrightarrow> cut (CHR ''='') (n @ CHR ''='' # v) = (n, v, True)"
  by (rule cut_append)

lemma cut_alone: "CHR ''='' \<notin> set n \<Longrightarrow> cut (CHR ''='') n = (n, [], False)"
  by (rule cut_none)

lemma inline_not_dashes: "CHR ''='' \<notin> set n \<Longrightarrow> n @ CHR ''='' # v \<noteq> ''--''"
proof
  assume "n @ CHR ''='' # v = ''--''"
  then have "CHR ''='' \<in> set ''--''" by (metis in_set_conv_decomp)
  then show False by simp
qed

lemma option_item_use:
  "option_item specs raw rest = Some (k, rest') \<longleftrightarrow>
     (\<exists>u. raw # rest = use_words u @ rest' \<and> use_ok u \<and> use_key specs u = Some k)"
proof
  assume item: "option_item specs raw rest = Some (k, rest')"
  obtain n v b where c: "cut (CHR ''='') raw = (n, v, b)" by (cases "cut (CHR ''='') raw") auto
  obtain s where s: "map_of specs n = Some s" "raw \<noteq> ''--''" "nul \<notin> set raw"
    using item c by (auto simp: option_item_def split: option.splits if_splits)
  show "\<exists>u. raw # rest = use_words u @ rest' \<and> use_ok u \<and> use_key specs u = Some k"
  proof (cases b)
    case True
    then have raw: "raw = n @ CHR ''='' # v" "CHR ''='' \<notin> set n" using cut_found [of _ raw n v] c by simp_all
    then have "raw # rest = use_words (Inline n v) @ rest' \<and> use_ok (Inline n v) \<and> use_key specs (Inline n v) = Some k"
      using item c True s by (auto simp: option_item_def use_ok_def use_key_def split: if_splits)
    then show ?thesis by blast
  next
    case False
    then have raw: "raw = n" "CHR ''='' \<notin> set n" "v = []" using cut_not_found [of _ raw n v] c by auto
    show ?thesis
    proof (cases "ol_value s")
      case True
      then obtain w where "rest = w # rest'" "w \<noteq> []" "\<not> has_prefix ''-'' w" "nul \<notin> set w" "value_key n s w = Some k"
        using item c False s by (auto simp: option_item_def split: if_splits list.splits)
      then have "raw # rest = use_words (Apart n w) @ rest' \<and> use_ok (Apart n w) \<and> use_key specs (Apart n w) = Some k"
        using True s raw by (auto simp: use_ok_def use_key_def)
      then show ?thesis by blast
    next
      case plain: False
      then have "raw # rest = use_words (Alone n) @ rest' \<and> use_ok (Alone n) \<and> use_key specs (Alone n) = Some k"
        using item c False s raw by (auto simp: option_item_def use_ok_def use_key_def split: if_splits)
      then show ?thesis by blast
    qed
  qed
next
  assume "\<exists>u. raw # rest = use_words u @ rest' \<and> use_ok u \<and> use_key specs u = Some k"
  then obtain u where u: "raw # rest = use_words u @ rest'" "use_ok u" "use_key specs u = Some k" by blast
  then show "option_item specs raw rest = Some (k, rest')"
    by (cases u) (auto simp: use_ok_def use_key_def option_item_def cut_inline cut_alone inline_not_dashes split: option.splits if_splits)
qed

lemma option_item_None: "option_item specs raw rest = None \<Longrightarrow> raw # rest = use_words u @ rest' \<Longrightarrow> use_ok u \<Longrightarrow> use_key specs u = None"
  using option_item_use [of specs raw rest] by (cases "use_key specs u") fastforce+

lemma scan_options_iff:
  "scan_options specs seen options \<longleftrightarrow>
     (\<exists>us. options = concat (map use_words us) \<and> list_all use_ok us
        \<and> (\<exists>ks. map (use_key specs) us = map Some ks \<and> distinct ks \<and> set ks \<inter> set seen = {}))"
proof (induction specs seen options rule: scan_options.induct)
  case (1 specs seen)
  have "concat (map use_words us) = [] \<longleftrightarrow> us = []" for us
    by (cases us) (auto, metis use_words.elims list.distinct(1))
  then show ?case by (auto intro!: exI [of _ "[]"])
next
  case (2 specs seen raw rest)
  have words: "use_words u \<noteq> []" for u by (cases u) auto
  show ?case
  proof (cases "option_item specs raw rest")
    case None
    have False if us: "raw # rest = concat (map use_words us)" "list_all use_ok us" "map (use_key specs) us = map Some ks" for us ks
    proof (cases us)
      case (Cons u us')
      then have "use_key specs u = None" using option_item_None [OF None] us by simp
      then show False using us(3) Cons by (cases ks) auto
    qed (use us in simp)
    then show ?thesis using None by auto
  next
    case (Some x)
    obtain k rest' where x: "x = (k, rest')" by (cases x)
    note item = Some [unfolded x]
    then obtain u where u: "raw # rest = use_words u @ rest'" "use_ok u" "use_key specs u = Some k" unfolding option_item_use by blast
    note IH = 2 [OF item refl]
    show ?thesis
    proof
      assume "scan_options specs seen (raw # rest)"
      then have k: "k \<notin> set seen" and "scan_options specs (k # seen) rest'" using item by simp_all
      then obtain us ks where us: "rest' = concat (map use_words us)" "list_all use_ok us"
        "map (use_key specs) us = map Some ks" "distinct ks" "set ks \<inter> set (k # seen) = {}" unfolding IH by blast
      show "\<exists>us. raw # rest = concat (map use_words us) \<and> list_all use_ok us
          \<and> (\<exists>ks. map (use_key specs) us = map Some ks \<and> distinct ks \<and> set ks \<inter> set seen = {})"
        by (rule exI [of _ "u # us"], intro conjI exI [of _ "k # ks"]) (use u us k in auto)
    next
      assume "\<exists>us. raw # rest = concat (map use_words us) \<and> list_all use_ok us
          \<and> (\<exists>ks. map (use_key specs) us = map Some ks \<and> distinct ks \<and> set ks \<inter> set seen = {})"
      then obtain us ks where us: "raw # rest = concat (map use_words us)" "list_all use_ok us"
        "map (use_key specs) us = map Some ks" "distinct ks" "set ks \<inter> set seen = {}" by blast
      then obtain v us' l ks' where v: "us = v # us'" "ks = l # ks'" "use_key specs v = Some l" by (cases us; cases ks) auto
      then have "option_item specs raw rest = Some (l, concat (map use_words us'))" using us unfolding option_item_use by auto
      then have same: "l = k" "rest' = concat (map use_words us')" using item by auto
      have "scan_options specs (k # seen) rest'" unfolding IH using us v same by auto
      moreover have "k \<notin> set seen" using us(5) v same by auto
      ultimately show "scan_options specs seen (raw # rest)" using item by simp
    qed
  qed
qed

text \<open>C40: the options of a profile are accepted exactly when they are uses of the harness's own
  table, each with a value exactly where the table asks for one, no two with the same meaning;
  so nothing but a tabled name or its value reaches the command line.\<close>

theorem fork_options_iff:
  "valid_fork_options kind options \<longleftrightarrow>
     (\<exists>specs us ks. option_specs kind = Some specs \<and> options = concat (map use_words us) \<and> list_all use_ok us
        \<and> map (use_key specs) us = map Some ks \<and> distinct ks)"
  by (auto simp: valid_fork_options_def scan_options_iff split: option.split)

subsection \<open>Fresh conversations\<close>

lemma classify_ready:
  assumes "classify_native U a c kind expected directory prior = Candidate_Ready"
  shows "origin_of a = ct_origin c \<and> ag_cwd a = directory \<and> \<not> ag_focused a \<and> prompt_ready_status (ag_status a)
    \<and> (\<exists>s. ag_session a = Some s \<and> s \<notin> set prior \<and> sf_source s = ''herdr:'' @ kind \<and> (expected \<noteq> [] \<longrightarrow> sf_value s = expected))"
  using assms by (auto simp: classify_native_def split: if_splits option.splits)

lemma confirm_ready:
  assumes "confirm_fresh h classify pane first w = (Inr a, w')"
  shows "classify a = Candidate_Ready"
  using assms unfolding confirm_fresh_def
  by (auto simp: attempt_def fail_def succeed_def split: if_splits prod.splits sum.splits)

declare wait_for_fresh.simps [simp del]

lemma wait_ready:
  assumes "wait_for_fresh h classify pane n w = (Inr a, w')"
  shows "classify a = Candidate_Ready"
  using assms
proof (induction n arbitrary: w)
  case 0
  then show ?case
    by (subst (asm) wait_for_fresh.simps, unfold Let_def nat.case)
      (auto simp: attempt_def fail_def dest: confirm_ready split: if_splits prod.splits sum.splits candidate_state.splits)
next
  case (Suc n)
  have again: "classify a = Candidate_Ready" if "seq (sleep h) (\<lambda>_. wait_for_fresh h classify pane n) v = (Inr a, w')" for v
    using that Suc.IH by (auto elim!: attempt_InrE)
  show ?case using Suc.prems
    by (subst (asm) wait_for_fresh.simps, unfold Let_def nat.case)
      (auto simp: attempt_def [of "find_agent h pane"] fail_def dest: confirm_ready again split: if_splits prod.splits sum.splits candidate_state.splits)
qed

text \<open>A result without an agent, or with a fresh one on the pane it created.\<close>

definition fresh_result :: "native_request \<Rightarrow> session_ref list \<Rightarrow> native_result \<Rightarrow> bool" where
  "fresh_result q prior r =
     (case nr_agent r of
        None \<Rightarrow> True
      | Some a \<Rightarrow> \<exists>c s. nr_created r = Some c \<and> origin_of a = ct_origin c \<and> ag_cwd a = nq_directory q \<and> \<not> ag_focused a
          \<and> prompt_ready_status (ag_status a) \<and> ag_session a = Some s \<and> s \<notin> set prior)"

text \<open>Every result of an operation has a property.\<close>

definition results :: "(native_result \<Rightarrow> bool) \<Rightarrow> 'w starting \<Rightarrow> bool" where
  "results P m \<longleftrightarrow> (\<forall>w. P (fst (fst (m w))))"

lemma results_started: "P r \<Longrightarrow> results P (started r e)"
  by (simp add: results_def started_def)

lemma results_attempt:
  "(\<And>e. results P (H e)) \<Longrightarrow> (\<And>w x w'. m w = (Inr x, w') \<Longrightarrow> results P (K x)) \<Longrightarrow> results P (attempt m H K)"
  unfolding results_def attempt_def by (auto split: prod.split sum.split)

lemma results_return: "P r \<Longrightarrow> results P (\<lambda>w. let (e, w') = f w in ((r, e), w'))"
  by (auto simp: results_def Let_def split: prod.split)

lemma results_stopping: "results P m \<Longrightarrow> results P (stopping h p m)"
  unfolding results_def stopping_def Let_def by (auto split: prod.split) (metis fst_conv)

lemma fresh_nothing: "fresh_result q prior no_result" "fresh_result q prior \<lparr>nr_created = x, nr_agent = None\<rparr>"
  by (simp_all add: fresh_result_def no_result_def)

lemma launch_native_results: "results (fresh_result q prior) (launch_native h q kind argv p prior)"
  unfolding launch_native_def abandon_start_def
proof (intro results_attempt results_return fresh_nothing results_started)
  fix c a v v'
  assume "wait_for_fresh h (\<lambda>a. classify_native (ax_tables h) a c kind (po_session p) (nq_directory q) prior) (og_pane (ct_origin c))
      (ready_polls (nq_timeout q)) v = (Inr a, v')"
  from classify_ready [OF wait_ready [OF this]]
  show "fresh_result q prior \<lparr>nr_created = Some c, nr_agent = Some a\<rparr>" by (auto simp: fresh_result_def)
qed

lemma start_open_code_results: "results (fresh_result q prior) (start_open_code h q argv prior)"
proof -
  have quit: "results (fresh_result q prior) (\<lambda>w. let (e', w') = joining (delete_open_code h p) e w; (e'', w'') = joining (stop_open_code h p) e' w' in ((no_result, e''), w''))"
    for p e by (auto simp: results_def Let_def fresh_nothing split: prod.split)
  show ?thesis unfolding start_open_code_def
    by (intro results_attempt results_started quit results_stopping launch_native_results fresh_nothing)
qed

text \<open>C9: a background start that returns an agent returns one on the very pane it created, in the
  directory asked for, not focused and waiting for a prompt, whose conversation was in none of
  the session's panes when the start began.\<close>

theorem native_start_fresh:
  "case nr_agent (fst (fst (native_start h q w))) of
     None \<Rightarrow> True
   | Some a \<Rightarrow> \<exists>as v c s. list_agents h w = (Inr as, v) \<and> nr_created (fst (fst (native_start h q w))) = Some c
       \<and> origin_of a = ct_origin c \<and> ag_cwd a = nq_directory q \<and> \<not> ag_focused a \<and> prompt_ready_status (ag_status a)
       \<and> ag_session a = Some s \<and> s \<notin> set (sessions_of as)"
proof (cases "ax_over h (dk_outside w) \<or> validate_native_start h q = None")
  case True
  then show ?thesis by (auto simp: native_start_def if_over_def started_def no_result_def)
next
  case False
  then obtain argv kind where v: "\<not> ax_over h (dk_outside w)" "validate_native_start h q = Some (argv, kind)" by auto
  obtain x w1 where list: "list_agents h w = (x, w1)" by fastforce
  show ?thesis
  proof (cases x)
    case (Inl e)
    then show ?thesis using v list by (simp add: native_start_def if_over_def attempt_def started_def no_result_def)
  next
    case (Inr as)
    have "native_start h q w = (if kind = ''opencode'' then start_open_code h q argv (sessions_of as)
        else launch_native h q kind argv no_open_code (sessions_of as)) w1"
      using v list Inr by (simp add: native_start_def if_over_def attempt_def)
    moreover have "results (fresh_result q (sessions_of as)) (if kind = ''opencode'' then start_open_code h q argv (sessions_of as)
        else launch_native h q kind argv no_open_code (sessions_of as))"
      by (simp add: start_open_code_results launch_native_results)
    ultimately have "fresh_result q (sessions_of as) (fst (fst (native_start h q w)))" by (simp add: results_def)
    then show ?thesis using list Inr by (auto simp: fresh_result_def split: option.split)
  qed
qed

end
