(* ===== verification/Spec2Isabelle.thy ===== *)
theory Spec2Isabelle
  imports Prelude GoStrings Identifiers Keymap KeymapRuntime KeymapLaws KeymapDispatch Manifest
    Responsive Buffer Fuzzy Interop Route RouteClient RouteLaws RouteCalls RouteProcess ActionHost
    ActionInterop ShellEvents Form FormLaws FormProtocol Picker PickerLaws PickerRuns Semantic
    Shell ShellLoop ShellRuns ShellSystem ShellTracked Surfaces ShellProps Events Recorder
    StorageLogic RecorderLaws RecorderTrim RecorderRetain RecorderLog RecorderRuns RecorderWorks
    RecorderRepair RecorderOpen RecorderRecovery RecorderProps RecorderService StatusHub
    StatusWatch ServiceServer GoPaths Steps SessionHost SessionPanes HostFiles Lifecycle LifeFiles
    LifeService LifeUpgrade LifeUninstall LifeLogic LifeErrors LifeActivation LifeOutcome LifeProps
    LifeSamples DeskLogic ShellWords LaunchProps AgentHost AgentNative Composer AgentPrompts
    AgentProps AgentStart StartProps
begin

text \<open>
  A verification library for herdr-plugin-kit, the Go library from which plugins of the terminal
  multiplexer Herdr are built.

  \<^bold>\<open>The program.\<close>  A plugin has a manifest and runs surfaces in panes of Herdr.  A surface is drawn by
  the event loop of the kit (ui/shell), which resolves keys through a compiled keymap (ui/keymap),
  runs the requests of the surface as commands in the background and records what happens in a
  diagnostics log (diagnostics).  The kit's own surfaces are a form with an apply and rollback
  protocol (ui/form) and a paged picker (ui/interaction).  Plugins call each other through envelopes
  (runtime/interop), either as actions of Herdr (runtime/actionhost) or as processes.  A plugin may
  own a systemd service: its lifecycle, and the status hub it serves, are runtime/servicehost.
  Sessions, panes and agents of Herdr are operated by runtime/sessionhost and runtime/agenthost.

  \<^bold>\<open>How the code is translated.\<close>  A struct is a record, an enumeration a datatype, a Go string a list
  of bytes (\<^typ>\<open>string\<close>).  An error is a value: a sum, or an option of an error where a function
  returns nothing else.  An integer of fixed width that crosses a protocol is a
  word of that width; a count that the code bounds itself is an \<^typ>\<open>int\<close> or \<^typ>\<open>nat\<close>.
  Code outside the repository is an argument: the JSON codec, SHA-256, Unicode tables, the grapheme
  segmenter, the terminal library, Herdr and its socket, the service manager, the services of the
  agents, timers.  What is assumed of it stands as a named premise in the theorem and is met by
  the concrete functions of a witness.  Mutexes are not modelled: an operation under a
  lock is one step; what runs concurrently (commands of the shell, watchers of the hub, the service's own
  drain) is cut into the steps between which others may run.

  \<^bold>\<open>Theories and sources.\<close>

  \<^item> Prelude, GoStrings, GoPaths, Steps: shared vocabulary, the functions of \<open>strings\<close>,
    \<open>utf8\<close> and \<open>path/filepath\<close> that the source uses, and operations that return an error or a value
    and change a state.  The locale \<open>machine\<close> of Prelude is the interface of every sequential state
    machine: its interpretations in KeymapDispatch, Buffer and FormLaws carry the invariants to runs.
  \<^item> Identifiers, Semantic, Manifest, Responsive: the identifier languages, the semantic events,
    the validation of a manifest (manifest/manifest.go), and layouts (ui/responsive).
  \<^item> Keymap, KeymapRuntime: ui/keymap/keymap.go.  KeymapLaws has the locale \<open>binding_table\<close>,
    interpreted on compiled keymaps; KeymapDispatch has the runtime's invariant and dispatch.
  \<^item> Buffer, Fuzzy: ui/interaction/buffer.go and fuzzy.go.
  \<^item> Interop, Route, RouteClient, RouteProcess: runtime/interop (interop.go, route.go,
    route_process.go).  RouteLaws and RouteCalls have what a dispatched call does to its provider,
    what a client accepts, and the round trip, in which only \<open>encoding/json\<close> is assumed and the kit's
    own decoders are proved to read the values back; RouteProcess ends with the declarative reading of a call.
  \<^item> ActionHost, ActionInterop: runtime/actionhost and runtime/interop/action.go; the locale
    \<open>action_transport\<close> is the interface between the two, interpreted on the kit's host.
  \<^item> ShellEvents, Shell, ShellLoop: ui/shell.  ShellRuns, ShellSystem and ShellTracked have the loop
    with commands in flight; the locales \<open>kit_surface\<close> and \<open>tracked_surface\<close> say what a surface
    promises, and Surfaces and ShellProps interpret them on the form and the picker.
  \<^item> Form, FormLaws, FormProtocol: ui/form.  Picker, PickerLaws, PickerRuns: the picker.
  \<^item> Events, Recorder, RecorderOpen: diagnostics (types.go, privacy.go, recorder.go, segments.go,
    storage.go) over a disk whose operations may fail by a script.  StorageLogic has triples over
    such operations; RecorderLaws, RecorderTrim, RecorderRetain, RecorderLog, RecorderRuns,
    RecorderWorks, RecorderRepair and RecorderRecovery refine the recorder to a journal; RecorderProps and
    RecorderService draw the consequences.
  \<^item> StatusHub, StatusWatch, ServiceServer: status.go and server.go of runtime/servicehost.
  \<^item> HostFiles, Lifecycle, LifeFiles, LifeService, LifeUpgrade, LifeUninstall: lifecycle.go with its
    locks and socket checks.  LifeLogic, LifeErrors, LifeActivation, LifeOutcome, LifeProps: what an
    activation leaves on disk, wherever it ends; LifeSamples runs one.
  \<^item> SessionHost, SessionPanes: runtime/sessionhost, herdrcmd.  DeskLogic has triples over the log of
    what Herdr is asked; ShellWords reads command lines as a POSIX shell does; LaunchProps.
  \<^item> AgentHost, AgentNative, Composer, AgentPrompts, AgentStart: runtime/agenthost.  AgentProps and
    StartProps have the guards, the delivery of a prompt and the start of a fresh conversation.

  \<^bold>\<open>What is shown.\<close>  For the data: validators equal to declarative contracts, the compiled keymap
  prefix free, matching and ranking exact.  For the state machines: invariants over every run, and
  for the shell over every order in which commands complete or are lost.  For the stores:
  whatever operation fails, the log opens again with what was recorded, and an interrupted upgrade
  is recognised by the next process.  For the hosts: what Herdr is asked, whatever it answers.

  \<^bold>\<open>Bounds and fuel.\<close>  Loops of the code that poll are recursions over the number of polls that
  fit in their deadline: \<open>shell_polls\<close> is 200 (5s, 25ms apart), \<open>prompt_polls\<close> is 600 (30s, 50ms
  apart), \<open>ready_polls\<close> is the timeout of the request over 50ms, and \<open>ho_polls\<close> is the caller's
  timeout; running out is the deadline, an error of the code.  Waiting for a receipt has no
  deadline of its own and is a \<open>partial_function\<close>, with its termination a theorem.  Collecting the
  entries of a purge descends with one more level than the limit on entries, and each level
  counts an entry, so the limit is met before the fuel is spent.

  \<^bold>\<open>Where the model is coarser than the code.\<close>  Syncing a file is an operation that may fail, but
  data that was written is not lost later.  Error texts are kept only where the code compares or sends
  them.  Checks of file kinds and permissions are left out of the recorder.  Text that is no valid
  UTF-8 does not reach the form's buffers, since the shell builds text from runes.  The log of what Herdr
  is asked does not show what the agents' own services are asked; the Codex service in particular
  may be started by an observation.  An operation that reads is one reading of its time; changes made
  by others between two readings are changes of the outside state.

  \<^bold>\<open>Not modelled.\<close>  Decoding of manifests and catalogues from files, rendering, the diagnostics and
  help surfaces (ui/debugui, ui/keymapui), previews and reports, the transaction over Herdr's own
  configuration (runtime/keybindinghost) and config/, both of which rest on a TOML parser, the
  document store, the managed Codex launcher and the Codex conversions, the process runner, gRPC
  itself, and the tools of cmd/ and internal/: pure input and output, third-party or generated
  code, or views that change nothing but themselves.

  \<^bold>\<open>Findings.\<close>  A failed apply of a form leaves a rollback that pairs the token of one apply
  with the values of another when the values were overwritten by the later one; FormProtocol
  has the theorem.  An install argument of a service that is no valid UTF-8 is accepted, but the
  descriptor written with it is never read back.
\<close>

end
